(* ===== verification/Ospf_Prelude.thy ===== *)
theory Ospf_Prelude
  imports Main "HOL-Library.Word" "HOL-Library.AList" "HOL-Library.Multiset" "HOL-Library.Product_Lexorder"
begin

text \<open>
  Shared vocabulary of the development: the widths of the machine integers the daemon uses, the
  outcome of a fallible Rust computation (a value, an \<^verbatim>\<open>Err\<close>, a panic), hash maps as association
  lists, and the generic lemmas on words, lists and association lists that the component theories
  rely on.
\<close>

section \<open>Machine integers, addresses and time\<close>

unbundle bit_operations_syntax

type_synonym u8 = "8 word"
type_synonym u16 = "16 word"
type_synonym u32 = "32 word"
type_synonym u64 = "64 word"

text \<open>An \<^verbatim>\<open>i32\<close> is a 32-bit word read through \<^const>\<open>sint\<close>; \<^verbatim>\<open>wrapping_add\<close> is word addition.\<close>

type_synonym i32 = "32 word"

text \<open>
  \<^verbatim>\<open>Ipv4Addr\<close> is the big-endian 32-bit value \<^verbatim>\<open>u32::from(addr)\<close>: its \<^verbatim>\<open>Ord\<close> compares the octets
  lexicographically, which is the unsigned order of that value.
\<close>

type_synonym ipv4 = "32 word"

abbreviation (input) UNSPECIFIED :: ipv4 where
  "UNSPECIFIED \<equiv> 0"

text \<open>
  A monotonic \<^verbatim>\<open>Instant\<close> is a number of milliseconds; instants before the start of the clock
  (\<^verbatim>\<open>Instant::now() - Duration::from_secs(60)\<close>) are negative. Every operation that reads the clock takes
  the instant as the argument \<open>now\<close>.
\<close>

type_synonym instant = int

definition saturating_duration_since :: "instant \<Rightarrow> instant \<Rightarrow> nat" where
  "saturating_duration_since now t = nat (now - t)"

lemma saturating_duration_since_ge_iff [simp]:
  "n \<le> saturating_duration_since now t \<longleftrightarrow> (n = 0 \<or> t + int n \<le> now)"
  by (auto simp: saturating_duration_since_def)

section \<open>Outcomes of fallible code\<close>

text \<open>
  \<open>Ok\<close> and \<open>Err\<close> are the two constructors of Rust's \<^verbatim>\<open>Result\<close>. \<open>Panic\<close> stands for every
  path on which the thread would panic: an index or a slice out of range, an \<^verbatim>\<open>expect\<close> that fails.
\<close>

datatype ('e, 'a) outcome = Ok 'a | Err 'e | Panic

fun bindR :: "('e, 'a) outcome \<Rightarrow> ('a \<Rightarrow> ('e, 'b) outcome) \<Rightarrow> ('e, 'b) outcome" where
  "bindR (Ok x) f = f x"
| "bindR (Err e) f = Err e"
| "bindR Panic f = Panic"

definition ok_or :: "'a option \<Rightarrow> 'e \<Rightarrow> ('e, 'a) outcome" where
  "ok_or x e = (case x of None \<Rightarrow> Err e | Some y \<Rightarrow> Ok y)"

lemma bindR_assoc: "bindR (bindR m f) g = bindR m (\<lambda>x. bindR (f x) g)"
  by (cases m) auto

lemma bindR_eq_Ok_iff: "bindR m f = Ok y \<longleftrightarrow> (\<exists>x. m = Ok x \<and> f x = Ok y)"
  by (cases m) auto

lemma bindR_eq_Panic_iff: "bindR m f = Panic \<longleftrightarrow> m = Panic \<or> (\<exists>x. m = Ok x \<and> f x = Panic)"
  by (cases m) auto

lemma bindR_no_panic:
  "m \<noteq> Panic \<Longrightarrow> (\<And>x. m = Ok x \<Longrightarrow> f x \<noteq> Panic) \<Longrightarrow> bindR m f \<noteq> Panic"
  by (cases m) auto

lemma ok_or_no_panic [simp]: "ok_or x e \<noteq> Panic"
  by (simp add: ok_or_def split: option.split)

lemma ok_or_simps [simp]: "ok_or (Some x) e = Ok x" "ok_or None e = Err e"
  by (simp_all add: ok_or_def)

section \<open>Comparison results\<close>

text \<open>\<^verbatim>\<open>std::cmp::Ordering\<close>, \<^verbatim>\<open>Ord::cmp\<close> and \<^verbatim>\<open>Ordering::then\<close>.\<close>

datatype ordering = Less | Equal | Greater

definition cmp :: "'a :: linorder \<Rightarrow> 'a \<Rightarrow> ordering" where
  "cmp a b = (if a < b then Less else if a = b then Equal else Greater)"

fun then_cmp :: "ordering \<Rightarrow> ordering \<Rightarrow> ordering" where
  "then_cmp Equal o2 = o2"
| "then_cmp o1 o2 = o1"

fun reverse_ord :: "ordering \<Rightarrow> ordering" where
  "reverse_ord Less = Greater"
| "reverse_ord Equal = Equal"
| "reverse_ord Greater = Less"

lemma cmp_simps [simp]:
  "cmp a b = Less \<longleftrightarrow> a < b" "cmp a b = Equal \<longleftrightarrow> a = b" "cmp a b = Greater \<longleftrightarrow> b < a"
  by (auto simp: cmp_def)

lemma cmp_eqs:
  "a < b \<Longrightarrow> cmp a b = Less" "b < a \<Longrightarrow> cmp a b = Greater" "cmp a a = Equal"
  by simp_all

lemma cmp_swap: "cmp b a = reverse_ord (cmp a b)"
  by (auto simp: cmp_def)

lemma then_cmp_eq [simp]:
  "then_cmp o1 o2 = Less \<longleftrightarrow> o1 = Less \<or> o1 = Equal \<and> o2 = Less"
  "then_cmp o1 o2 = Equal \<longleftrightarrow> o1 = Equal \<and> o2 = Equal"
  "then_cmp o1 o2 = Greater \<longleftrightarrow> o1 = Greater \<or> o1 = Equal \<and> o2 = Greater"
  by (cases o1; simp)+

section \<open>Choosing a maximum\<close>

text \<open>\<^verbatim>\<open>Iterator::max_by\<close>: of several greatest elements the last one.\<close>

fun max_by :: "('a \<Rightarrow> 'a \<Rightarrow> ordering) \<Rightarrow> 'a list \<Rightarrow> 'a option" where
  "max_by f [] = None"
| "max_by f (x # xs) = Some (foldl (\<lambda>a b. if f a b = Greater then a else b) x xs)"

text \<open>A comparator that compares by a key into a linear order picks an element with the greatest key.\<close>

locale keyed_comparator =
  fixes f :: "'a \<Rightarrow> 'a \<Rightarrow> ordering"
    and key :: "'a \<Rightarrow> 'k :: linorder"
  assumes f_key: "f a b = cmp (key a) (key b)"
begin

lemma foldl_max:
  "foldl (\<lambda>a b. if f a b = Greater then a else b) x xs \<in> Set.insert x (set xs) \<and>
   (\<forall>y \<in> Set.insert x (set xs). key y \<le> key (foldl (\<lambda>a b. if f a b = Greater then a else b) x xs))"
proof (induction xs arbitrary: x)
  case (Cons y ys)
  let ?z = "if f x y = Greater then x else y"
  have z: "key x \<le> key ?z" "key y \<le> key ?z" "?z = x \<or> ?z = y"
    by (auto simp: f_key)
  from Cons [of ?z] z show ?case
    by (auto dest: order_trans)
qed simp

lemma max_by_Some:
  "max_by f xs = Some m \<Longrightarrow> m \<in> set xs \<and> (\<forall>x \<in> set xs. key x \<le> key m)"
  using foldl_max by (cases xs) auto

lemma max_by_None [simp]: "max_by f xs = None \<longleftrightarrow> xs = []"
  by (cases xs) auto

lemma max_by_unique:
  assumes "m \<in> set xs" and "\<forall>x \<in> set xs. x = m \<or> key x < key m"
  shows "max_by f xs = Some m"
proof -
  obtain m' where m': "max_by f xs = Some m'" using assms(1) by (cases xs) auto
  then have "m' \<in> set xs" "key m \<le> key m'" using assms(1) by (auto dest: max_by_Some)
  with assms(2) show ?thesis unfolding m' by fastforce
qed

lemma max_by_cong:
  assumes "set xs = set ys" and "inj_on key (set xs)"
  shows "max_by f xs = max_by f ys"
proof (cases "max_by f xs")
  case None
  with assms(1) show ?thesis by simp
next
  case (Some m)
  then have m: "m \<in> set xs" "\<forall>x \<in> set xs. key x \<le> key m" by (auto dest: max_by_Some)
  have "max_by f ys = Some m"
    using m assms by (intro max_by_unique) (auto simp: inj_on_def order_le_less)
  with Some show ?thesis by simp
qed

end

section \<open>Words as numbers\<close>

lemma unat_u8_less: "unat (b :: u8) < 256"
proof -
  have "unat b < 2 ^ LENGTH(8)" by (rule unsigned_less)
  then show ?thesis by simp
qed

lemma unat_u16_less: "unat (b :: u16) < 65536"
proof -
  have "unat b < 2 ^ LENGTH(16)" by (rule unsigned_less)
  then show ?thesis by simp
qed

lemma unat_u32_less: "unat (b :: u32) < 4294967296"
proof -
  have "unat b < 2 ^ LENGTH(32)" by (rule unsigned_less)
  then show ?thesis by simp
qed

lemma unat_ucast_widen [simp]:
  assumes "LENGTH('a) \<le> LENGTH('b)"
  shows "unat (ucast (x :: 'a :: len word) :: 'b :: len word) = unat x"
proof -
  have "unat x < 2 ^ LENGTH('a)" by (rule unsigned_less)
  also have "\<dots> \<le> 2 ^ LENGTH('b)" using assms by (simp add: power_increasing)
  finally have "unat x < 2 ^ LENGTH('b)" .
  then show ?thesis
    by (simp add: unsigned_ucast_eq take_bit_eq_mod)
qed

lemma unat_take_low: "unat (take_bit n (w :: 'a :: len word)) = unat w mod 2 ^ n"
proof -
  have "unat (take_bit n w) = take_bit n (unat w)" by (simp only: unsigned_take_bit_eq)
  then show ?thesis by (simp only: take_bit_eq_mod)
qed

lemma unat_drop_low: "unat (drop_bit n (w :: 'a :: len word)) = unat w div 2 ^ n"
proof -
  have "unat (drop_bit n w) = drop_bit n (unat w)" by (rule unat_drop_bit_eq)
  then show ?thesis by (simp only: drop_bit_eq_div)
qed

lemma unat_push: "unat (push_bit n (w :: 'a :: len word)) = unat w * 2 ^ n mod 2 ^ LENGTH('a)"
proof -
  have "unat (push_bit n w) = take_bit LENGTH('a) (push_bit n (unat w))"
    by (simp only: unsigned_push_bit_eq)
  then show ?thesis by (simp only: take_bit_eq_mod push_bit_eq_mult)
qed

lemma unat_add_small:
  "unat a + unat b < 2 ^ LENGTH('a) \<Longrightarrow> unat (a + b :: 'a :: len word) = unat a + unat b"
  by (simp add: unat_word_ariths)

lemma sint_small:
  assumes "unat (w :: i32) < 2 ^ 31"
  shows "sint w = int (unat w)"
proof -
  have u: "int (unat w) = uint w" by simp
  have "int (unat w) < int (2 ^ 31)" using assms by (simp only: of_nat_less_iff)
  then have "uint w < 2 ^ 31" unfolding u by simp
  moreover have "- (2 ^ 31) \<le> uint w" by (rule order_trans [of _ 0]) simp_all
  ultimately show ?thesis
    unfolding u sint_uint by (simp add: signed_take_bit_int_eq_self)
qed

lemma sint_large:
  assumes "2 ^ 31 \<le> unat (w :: i32)"
  shows "sint w = int (unat w) - 2 ^ 32"
proof -
  have u: "int (unat w) = uint w" by simp
  have "int (2 ^ 31) \<le> int (unat w)" using assms by (simp only: of_nat_le_iff)
  then have lo: "2 ^ 31 \<le> uint w" unfolding u by simp
  have hi: "uint w < 2 ^ 32" using uint_bounded [of w] by simp
  have "sint w = signed_take_bit 31 (uint w)" by (simp add: sint_uint)
  also have "\<dots> = (uint w + 2 ^ 31) mod 2 ^ 32 - 2 ^ 31"
    by (simp add: signed_take_bit_eq_take_bit_shift take_bit_eq_mod)
  also have "(uint w + 2 ^ 31) mod 2 ^ 32 = (uint w - 2 ^ 31 + 2 ^ 32) mod 2 ^ 32"
    by (simp add: add.commute)
  also have "\<dots> = uint w - 2 ^ 31"
    using lo hi by (simp only: mod_add_self2) (simp add: mod_pos_pos_trivial)
  finally show ?thesis unfolding u by simp
qed

section \<open>Hash maps\<close>

text \<open>
  A \<^verbatim>\<open>HashMap\<close> is an association list with distinct keys. The order of the list is the iteration order
  of the map, which Rust leaves open; statements that do not fix it hold for every such order. The
  interface below is what the components use of it.
\<close>

locale hash_map =
  fixes get :: "'m \<Rightarrow> 'k \<Rightarrow> 'v option"
    and insert :: "'k \<Rightarrow> 'v \<Rightarrow> 'm \<Rightarrow> 'm"
    and remove :: "'k \<Rightarrow> 'm \<Rightarrow> 'm"
    and entries :: "'m \<Rightarrow> ('k \<times> 'v) set"
    and invar :: "'m \<Rightarrow> bool"
  assumes get_insert: "get (insert k v m) k' = (if k' = k then Some v else get m k')"
    and get_remove: "get (remove k m) k' = (if k' = k then None else get m k')"
    and invar_insert: "invar m \<Longrightarrow> invar (insert k v m)"
    and invar_remove: "invar m \<Longrightarrow> invar (remove k m)"
    and entries_get: "invar m \<Longrightarrow> (k, v) \<in> entries m \<longleftrightarrow> get m k = Some v"
begin

lemma entries_insert:
  "invar m \<Longrightarrow> (k', v') \<in> entries (insert k v m) \<longleftrightarrow>
     (if k' = k then v' = v else (k', v') \<in> entries m)"
  by (auto simp: entries_get invar_insert get_insert)

lemma entries_remove:
  "invar m \<Longrightarrow> (k', v') \<in> entries (remove k m) \<longleftrightarrow> k' \<noteq> k \<and> (k', v') \<in> entries m"
  by (auto simp: entries_get invar_remove get_remove)

text \<open>A property of every entry survives the insertion of an entry that has it, and every removal.\<close>

lemma all_insert:
  "invar m \<Longrightarrow> \<forall>(k, v) \<in> entries m. P k v \<Longrightarrow> P k v \<Longrightarrow> \<forall>(k, v) \<in> entries (insert k v m). P k v"
  using entries_insert by (fastforce split: if_splits)

lemma all_remove:
  "invar m \<Longrightarrow> \<forall>(k, v) \<in> entries m. P k v \<Longrightarrow> \<forall>(k, v) \<in> entries (remove k m). P k v"
  using entries_remove by fastforce

lemma get_fold_remove: "get (fold remove ks m) k = (if k \<in> set ks then None else get m k)"
  by (induction ks arbitrary: m) (auto simp: get_remove)

lemma invar_fold_remove: "invar m \<Longrightarrow> invar (fold remove ks m)"
  by (induction ks arbitrary: m) (auto simp: invar_remove)

end

interpretation hm: hash_map map_of AList.update AList.delete set "\<lambda>m. distinct (map fst m)"
  by unfold_locales
    (auto simp: update_conv' delete_conv' distinct_update distinct_delete intro: map_of_is_SomeI map_of_SomeD)

text \<open>\<^verbatim>\<open>values_mut()\<close>: every value is rewritten in place.\<close>

definition map_values :: "('k \<Rightarrow> 'v \<Rightarrow> 'w) \<Rightarrow> ('k \<times> 'v) list \<Rightarrow> ('k \<times> 'w) list" where
  "map_values f m = map (\<lambda>(k, v). (k, f k v)) m"

lemma map_fst_map_values [simp]: "map fst (map_values f m) = map fst m"
  by (simp add: map_values_def comp_def case_prod_beta)

lemma map_of_map_values [simp]: "map_of (map_values f m) k = map_option (f k) (map_of m k)"
  by (induction m) (auto simp: map_values_def)

text \<open>\<^verbatim>\<open>if let Some(v) = m.get_mut(&k) { f(v) }\<close>.\<close>

definition modify_key :: "('v \<Rightarrow> 'v) \<Rightarrow> 'k \<Rightarrow> ('k \<times> 'v) list \<Rightarrow> ('k \<times> 'v) list" where
  "modify_key f k m = (case map_of m k of None \<Rightarrow> m | Some v \<Rightarrow> AList.update k (f v) m)"

lemma map_of_modify_key:
  "map_of (modify_key f k m) k' = (if k' = k then map_option f (map_of m k) else map_of m k')"
  by (auto simp: modify_key_def update_conv' split: option.split)

lemma fst_set_update_present: "map_of m k = Some w \<Longrightarrow> map fst (AList.update k v m) = map fst m"
  by (induction m) auto

lemma map_fst_modify_key [simp]: "map fst (modify_key f k m) = map fst m"
  by (auto simp: modify_key_def fst_set_update_present split: option.split)

lemma map_fst_fold_modify [simp]: "map fst (fold (modify_key f) ks m) = map fst m"
  by (induction ks arbitrary: m) auto

lemma map_of_fold_modify:
  "distinct ks \<Longrightarrow> map_of (fold (modify_key f) ks m) k =
     (if k \<in> set ks then map_option f (map_of m k) else map_of m k)"
  by (induction ks arbitrary: m) (auto simp: map_of_modify_key)

text \<open>A property of all values is kept when the function applied keeps it.\<close>

lemma values_map_of:
  "distinct (map fst m) \<Longrightarrow> (\<forall>(k, v) \<in> set m. P v) \<longleftrightarrow> (\<forall>k v. map_of m k = Some v \<longrightarrow> P v)"
  by (simp add: Ball_def split_paired_All map_of_eq_Some_iff)

lemma values_modify_key:
  assumes "distinct (map fst m)" and "\<forall>(k, v) \<in> set m. P v" and "\<And>v. P v \<Longrightarrow> P (f v)"
  shows "\<forall>(k, v) \<in> set (modify_key f k m). P v"
  using assms by (subst values_map_of) (auto simp: map_of_modify_key values_map_of)

lemma values_fold_modify:
  assumes "distinct (map fst m)" and "\<forall>(k, v) \<in> set m. P v" and "\<And>v. P v \<Longrightarrow> P (f v)"
  shows "\<forall>(k, v) \<in> set (fold (modify_key f) ks m). P v"
  using assms(1,2)
proof (induction ks arbitrary: m)
  case (Cons k ks)
  have "distinct (map fst (modify_key f k m))" using Cons.prems(1) by simp
  moreover have "\<forall>(k, v) \<in> set (modify_key f k m). P v"
    by (rule values_modify_key [OF Cons.prems assms(3)])
  ultimately show ?case using Cons.IH [of "modify_key f k m"] by simp
qed simp

end
