(* ===== verification/Wire.thy ===== *)
theory Wire
  imports Ospf_Prelude
begin

text \<open>
  The wire level shared by every packet and LSA codec (\<^verbatim>\<open>src/packet\<close>): the error type, bounds-checked
  byte access, big-endian integers, and the loop that reads a run of fixed-width records. Reading
  outside a slice is the outcome \<^const>\<open>Panic\<close>, so that a proof that a parser never panics is a
  statement about the parser and not about the totality of HOL.
\<close>

section \<open>Errors\<close>

datatype PacketError =
    TooShort (expected: nat) (got: nat)
  | BadVersion u8
  | BadPacketType u8
  | BadLsaType u8
  | BadChecksum

type_synonym 'a parsed = "(PacketError, 'a) outcome"

section \<open>Byte access\<close>

definition byte_at :: "u8 list \<Rightarrow> nat \<Rightarrow> ('e, u8) outcome" where
  "byte_at data i = (if i < length data then Ok (data ! i) else Panic)"

definition slice_from :: "u8 list \<Rightarrow> nat \<Rightarrow> ('e, u8 list) outcome" where
  "slice_from data a = (if a \<le> length data then Ok (drop a data) else Panic)"

definition slice :: "u8 list \<Rightarrow> nat \<Rightarrow> nat \<Rightarrow> ('e, u8 list) outcome" where
  "slice data a b = (if a \<le> b \<and> b \<le> length data then Ok (take (b - a) (drop a data)) else Panic)"

section \<open>Big-endian integers\<close>

definition u16_of_be :: "u8 \<Rightarrow> u8 \<Rightarrow> u16" where
  "u16_of_be a b = (push_bit 8 (ucast a) OR ucast b)"

definition u32_of_be :: "u8 \<Rightarrow> u8 \<Rightarrow> u8 \<Rightarrow> u8 \<Rightarrow> u32" where
  "u32_of_be a b c d =
     (push_bit 24 (ucast a) OR push_bit 16 (ucast b) OR push_bit 8 (ucast c) OR ucast d)"

definition u16_be_bytes :: "u16 \<Rightarrow> u8 list" where
  "u16_be_bytes w = [ucast (drop_bit 8 w), ucast w]"

definition u32_be_bytes :: "u32 \<Rightarrow> u8 list" where
  "u32_be_bytes w = [ucast (drop_bit 24 w), ucast (drop_bit 16 w), ucast (drop_bit 8 w), ucast w]"

definition u16_at :: "u8 list \<Rightarrow> nat \<Rightarrow> ('e, u16) outcome" where
  "u16_at data i =
     bindR (byte_at data i) (\<lambda>a.
     bindR (byte_at data (i + 1)) (\<lambda>b. Ok (u16_of_be a b)))"

definition u32_at :: "u8 list \<Rightarrow> nat \<Rightarrow> ('e, u32) outcome" where
  "u32_at data i =
     bindR (byte_at data i) (\<lambda>a.
     bindR (byte_at data (i + 1)) (\<lambda>b.
     bindR (byte_at data (i + 2)) (\<lambda>c.
     bindR (byte_at data (i + 3)) (\<lambda>d. Ok (u32_of_be a b c d)))))"

text \<open>\<^verbatim>\<open>u32::from_be_bytes([0, data[i], data[i + 1], data[i + 2]])\<close>, the 24-bit metrics.\<close>

definition u24_at :: "u8 list \<Rightarrow> nat \<Rightarrow> ('e, u32) outcome" where
  "u24_at data i =
     bindR (byte_at data i) (\<lambda>b.
     bindR (byte_at data (i + 1)) (\<lambda>c.
     bindR (byte_at data (i + 2)) (\<lambda>d. Ok (u32_of_be 0 b c d))))"

text \<open>\<^verbatim>\<open>let m = v.to_be_bytes(); [m[1], m[2], m[3]]\<close>: the top octet is dropped.\<close>

definition u24_be_bytes :: "u32 \<Rightarrow> u8 list" where
  "u24_be_bytes w = [ucast (drop_bit 16 w), ucast (drop_bit 8 w), ucast w]"

subsection \<open>Encoding and decoding are inverse\<close>

lemma not_bit_u8_beyond: "8 \<le> n \<Longrightarrow> \<not> bit (b :: u8) n"
  by (simp add: bit_simps impossible_bit)

lemma octet_cases:
  obtains "n < 8" | "8 \<le> n" "n < 16" | "16 \<le> n" "n < 24" | "24 \<le> (n :: nat)"
  by linarith

lemma u16_of_be_bytes [simp]: "u16_of_be (ucast (drop_bit 8 w)) (ucast w) = w"
  by (rule bit_word_eqI) (auto simp: u16_of_be_def bit_simps)

lemma u32_of_be_bytes [simp]:
  "u32_of_be (ucast (drop_bit 24 w)) (ucast (drop_bit 16 w)) (ucast (drop_bit 8 w)) (ucast w) = w"
proof (rule bit_word_eqI)
  fix n assume "n < LENGTH(32)"
  then show "bit (u32_of_be (ucast (drop_bit 24 w)) (ucast (drop_bit 16 w))
      (ucast (drop_bit 8 w)) (ucast w)) n = bit w n"
    by (cases n rule: octet_cases) (auto simp: u32_of_be_def bit_simps not_bit_u8_beyond)
qed

lemma u24_of_be_bytes:
  "u32_of_be 0 (ucast (drop_bit 16 w)) (ucast (drop_bit 8 w)) (ucast w) = w AND mask 24"
proof (rule bit_word_eqI)
  fix n assume "n < LENGTH(32)"
  then show "bit (u32_of_be 0 (ucast (drop_bit 16 w)) (ucast (drop_bit 8 w)) (ucast w)) n =
      bit (w AND mask 24) n"
    by (cases n rule: octet_cases) (auto simp: u32_of_be_def bit_simps not_bit_u8_beyond)
qed

lemma u24_fits: "unat (w :: u32) < 2 ^ 24 \<Longrightarrow> w AND mask 24 = w"
  by (simp add: word_unat_eq_iff unat_take_low flip: take_bit_eq_mask)

lemma u16_be_bytes_of_be [simp]: "u16_be_bytes (u16_of_be a b) = [a, b]"
  by (auto simp: u16_be_bytes_def u16_of_be_def bit_simps not_bit_u8_beyond intro!: bit_word_eqI)

lemma u32_be_bytes_of_be [simp]: "u32_be_bytes (u32_of_be a b c d) = [a, b, c, d]"
  by (auto simp: u32_be_bytes_def u32_of_be_def bit_simps not_bit_u8_beyond intro!: bit_word_eqI)

lemma length_be_bytes [simp]:
  "length (u16_be_bytes w) = 2" "length (u32_be_bytes v) = 4" "length (u24_be_bytes v) = 3"
  by (simp_all add: u16_be_bytes_def u32_be_bytes_def u24_be_bytes_def)

subsection \<open>Access inside the buffer\<close>

lemma byte_at_Cons [simp]:
  "byte_at (x # xs) 0 = Ok x"
  "byte_at (x # xs) (Suc n) = byte_at xs n"
  "byte_at (x # xs) (numeral k) = byte_at xs (pred_numeral k)"
  by (simp_all add: byte_at_def numeral_eq_Suc)

lemma byte_at_append: "length xs \<le> i \<Longrightarrow> byte_at (xs @ ys) i = byte_at ys (i - length xs)"
  by (auto simp: byte_at_def nth_append)

lemma byte_at_Ok: "i < length data \<Longrightarrow> byte_at data i = Ok (data ! i)"
  by (simp add: byte_at_def)

lemma byte_at_Panic_iff [simp]: "byte_at data i = Panic \<longleftrightarrow> length data \<le> i"
  by (simp add: byte_at_def)

lemma u16_at_Ok: "i + 1 < length data \<Longrightarrow> u16_at data i = Ok (u16_of_be (data ! i) (data ! (i + 1)))"
  by (simp add: u16_at_def byte_at_Ok)

lemma u32_at_Ok:
  "i + 3 < length data \<Longrightarrow>
   u32_at data i = Ok (u32_of_be (data ! i) (data ! (i + 1)) (data ! (i + 2)) (data ! (i + 3)))"
  by (simp add: u32_at_def byte_at_Ok)

lemma u24_at_Ok:
  "i + 2 < length data \<Longrightarrow>
   u24_at data i = Ok (u32_of_be 0 (data ! i) (data ! (i + 1)) (data ! (i + 2)))"
  by (simp add: u24_at_def byte_at_Ok)

lemma slice_from_Ok: "a \<le> length data \<Longrightarrow> slice_from data a = Ok (drop a data)"
  by (simp add: slice_from_def)

lemma slice_Ok: "a \<le> b \<Longrightarrow> b \<le> length data \<Longrightarrow> slice data a b = Ok (take (b - a) (drop a data))"
  by (simp add: slice_def)

lemmas in_bounds = byte_at_Ok u16_at_Ok u32_at_Ok u24_at_Ok slice_from_Ok slice_Ok

lemmas be_bytes_defs = u16_be_bytes_def u32_be_bytes_def u24_be_bytes_def

lemmas read_defs = u16_at_def u32_at_def u24_at_def

section \<open>Runs of fixed-width records\<close>

text \<open>
  The loop \<^verbatim>\<open>while off + w <= data.len() { out.push(P(&data[off..])?); off += w; }\<close>, which the Hello
  body, the Network-LSA, the DD, LSR and LSAck bodies share.
\<close>

function parse_fixed ::
  "nat \<Rightarrow> (u8 list \<Rightarrow> ('e, 'a) outcome) \<Rightarrow> u8 list \<Rightarrow> nat \<Rightarrow> ('e, 'a list) outcome" where
  "parse_fixed w P data off =
     (if 0 < w \<and> off + w \<le> length data then
        bindR (slice_from data off) (\<lambda>s.
        bindR (P s) (\<lambda>x.
        bindR (parse_fixed w P data (off + w)) (\<lambda>xs. Ok (x # xs))))
      else Ok [])"
  by pat_completeness auto
termination
  by (relation "measure (\<lambda>(w, P, data, off). length data - off)") auto

declare parse_fixed.simps [simp del]

lemma parse_fixed_no_panicI:
  assumes "\<And>s. w \<le> length s \<Longrightarrow> P s \<noteq> Panic"
  shows "parse_fixed w P data off \<noteq> Panic"
  using assms
proof (induction w P data off rule: parse_fixed.induct)
  case (1 w P data off)
  show ?case
  proof (cases "0 < w \<and> off + w \<le> length data")
    case True
    then have s: "slice_from data off = Ok (drop off data)"
      by (simp add: slice_from_def)
    have "P (drop off data) \<noteq> Panic"
      using True by (intro "1.prems") auto
    moreover have "parse_fixed w P data (off + w) \<noteq> Panic"
      using True "1.IH" "1.prems" by blast
    ultimately show ?thesis
      by (subst parse_fixed.simps) (simp add: True s bindR_eq_Panic_iff)
  next
    case False
    then show ?thesis by (subst parse_fixed.simps) auto
  qed
qed

lemma parse_fixed_shift:
  "parse_fixed w P (pre @ data) (length pre + off) = parse_fixed w P data off"
proof (induction w P data off rule: parse_fixed.induct)
  case (1 w P data off)
  show ?case
  proof (cases "0 < w \<and> off + w \<le> length data")
    case True
    show ?thesis
    proof (cases "P (drop off data)")
      case (Ok x)
      then have "parse_fixed w P (pre @ data) (length pre + (off + w)) = parse_fixed w P data (off + w)"
        using True by (intro "1.IH") (auto simp: slice_from_def)
      with Ok True show ?thesis
        by (subst (1 2) parse_fixed.simps) (simp add: add.assoc slice_from_def)
    qed (use True in \<open>subst (1 2) parse_fixed.simps, simp add: slice_from_def\<close>)+
  next
    case False
    then show ?thesis by (subst (1 2) parse_fixed.simps) auto
  qed
qed

lemma parse_fixed_length:
  "parse_fixed w P data off = Ok xs \<Longrightarrow> off \<le> length data \<Longrightarrow> off + w * length xs \<le> length data"
proof (induction w P data off arbitrary: xs rule: parse_fixed.induct)
  case (1 w P data off)
  show ?case
  proof (cases "0 < w \<and> off + w \<le> length data")
    case True
    with "1.prems"(1) obtain x ys where "xs = x # ys" and "P (drop off data) = Ok x"
      and ys: "parse_fixed w P data (off + w) = Ok ys"
      by (subst (asm) parse_fixed.simps) (auto simp: bindR_eq_Ok_iff slice_from_def)
    with True "1.IH"[OF True ys] show ?thesis
      by simp
  next
    case False
    with "1.prems" show ?thesis by (subst (asm) parse_fixed.simps) auto
  qed
qed

text \<open>
  The contract of a fixed-width codec: \<open>enc\<close> writes exactly \<open>w\<close> bytes, \<open>dec\<close> reads them back
  whatever follows, and \<open>dec\<close> does not panic on a buffer that holds \<open>w\<close> bytes.
\<close>

locale fixed_codec =
  fixes w :: nat
    and enc :: "'a \<Rightarrow> u8 list"
    and dec :: "u8 list \<Rightarrow> ('e, 'a) outcome"
  assumes width_pos: "0 < w"
    and length_enc: "length (enc x) = w"
    and dec_enc: "dec (enc x @ rest) = Ok x"
    and dec_no_panic: "w \<le> length data \<Longrightarrow> dec data \<noteq> Panic"
begin

lemma length_concat_enc: "length (concat (map enc xs)) = w * length xs"
  by (induction xs) (auto simp: length_enc)

text \<open>Encoded records are read off the front of whatever follows them.\<close>

lemma parse_fixed_prefix:
  "parse_fixed w dec (pre @ concat (map enc xs) @ tail) (length pre) =
   bindR (parse_fixed w dec tail 0) (\<lambda>ys. Ok (xs @ ys))"
proof (induction xs arbitrary: pre)
  case Nil
  have "parse_fixed w dec (pre @ tail) (length pre + 0) = parse_fixed w dec tail 0"
    by (rule parse_fixed_shift)
  then show ?case by (cases "parse_fixed w dec tail 0") simp_all
next
  case (Cons x xs)
  let ?data = "pre @ concat (map enc (x # xs)) @ tail"
  have "parse_fixed w dec ((pre @ enc x) @ concat (map enc xs) @ tail) (length (pre @ enc x)) =
      bindR (parse_fixed w dec tail 0) (\<lambda>ys. Ok (xs @ ys))"
    by (rule Cons.IH)
  then have rest: "parse_fixed w dec ?data (length pre + w) =
      bindR (parse_fixed w dec tail 0) (\<lambda>ys. Ok (xs @ ys))"
    by (simp add: length_enc)
  from rest show ?case
    by (subst parse_fixed.simps) (simp add: width_pos length_enc dec_enc bindR_assoc slice_from_def)
qed

lemma parse_fixed_round_trip:
  assumes "length tail < w" and "off = length pre"
  shows "parse_fixed w dec (pre @ concat (map enc xs) @ tail) off = Ok xs"
  using assms parse_fixed.simps [of w dec tail 0] by (simp add: parse_fixed_prefix)

lemma run_no_panic: "parse_fixed w dec data off \<noteq> Panic"
  by (rule parse_fixed_no_panicI) (rule dec_no_panic)

end

end
