(* ===== verification/Checksum.thy ===== *)
theory Checksum
  imports Wire
begin

text \<open>
  \<^verbatim>\<open>src/packet/checksum.rs\<close>: the Internet checksum of the OSPF header and the Fletcher checksum of
  an LSA. Sums are kept at the width the code gives them (\<^verbatim>\<open>u32\<close>, \<^verbatim>\<open>i32\<close>), with wrap-around, so the
  length bounds under which they are exact are hypotheses of the theorems and not of the model.
\<close>

section \<open>The Internet checksum\<close>

text \<open>The summing loop: two bytes at a time, a trailing odd byte in the high half.\<close>

fun ip_sum :: "u32 \<Rightarrow> u8 list \<Rightarrow> u32" where
  "ip_sum acc (a # b # rest) = ip_sum (acc + ucast (u16_of_be a b)) rest"
| "ip_sum acc [a] = acc + push_bit 8 (ucast a)"
| "ip_sum acc [] = acc"

text \<open>The folding loop \<^verbatim>\<open>while sum >> 16 != 0 { sum = (sum & 0xFFFF) + (sum >> 16); }\<close>.\<close>

lemma unat_low16: "unat ((s :: u32) AND 0xFFFF) = unat s mod 65536"
proof -
  have "(0xFFFF :: u32) = mask 16" by (simp add: mask_eq_exp_minus_1)
  then have "s AND 0xFFFF = take_bit 16 s" by (simp only: take_bit_eq_mask)
  then show ?thesis using unat_take_low [of 16 s] by simp
qed

lemma unat_high16: "unat (drop_bit 16 (s :: u32)) = unat s div 65536"
  using unat_drop_low [of 16 s] by simp

lemma unat_fold_step:
  "unat ((s AND 0xFFFF) + drop_bit 16 (s :: u32)) = unat s mod 65536 + unat s div 65536"
proof -
  have "unat s mod 65536 + unat s div 65536 < 2 ^ LENGTH(32)"
    using unat_u32_less [of s] by simp
  then have "unat (s AND 0xFFFF) + unat (drop_bit 16 s) < 2 ^ LENGTH(32)"
    unfolding unat_low16 unat_high16 .
  from unat_add_small [OF this] show ?thesis unfolding unat_low16 unat_high16 .
qed

lemma fold_step_less:
  assumes "drop_bit 16 s \<noteq> 0"
  shows "unat ((s AND 0xFFFF) + drop_bit 16 (s :: u32)) < unat s"
proof -
  from assms have "0 < unat s div 65536"
    by (metis unat_high16 unat_gt_0)
  moreover have "unat s = unat s div 65536 * 65536 + unat s mod 65536" by simp
  ultimately show ?thesis unfolding unat_fold_step by linarith
qed

function ip_fold :: "u32 \<Rightarrow> u32" where
  "ip_fold s = (if drop_bit 16 s \<noteq> 0 then ip_fold ((s AND 0xFFFF) + drop_bit 16 s) else s)"
  by pat_completeness auto
termination
  by (relation "measure unat") (auto intro: fold_step_less)

declare ip_fold.simps [simp del]

definition ip_checksum :: "u8 list \<Rightarrow> u16" where
  "ip_checksum data = NOT (ucast (ip_fold (ip_sum 0 data)))"

definition ip_checksum_verify :: "u8 list \<Rightarrow> bool" where
  "ip_checksum_verify data \<longleftrightarrow> ip_checksum data = 0"

subsection \<open>The sum as a number\<close>

fun word_sum :: "u8 list \<Rightarrow> nat" where
  "word_sum (a # b # rest) = 256 * unat a + unat b + word_sum rest"
| "word_sum [a] = 256 * unat a"
| "word_sum [] = 0"

lemma unat_u16_of_be: "unat (u16_of_be a b) = 256 * unat a + unat b"
proof -
  have "u16_of_be a b = push_bit 8 (ucast a) + ucast b"
    unfolding u16_of_be_def
    by (subst disjunctive_add_eq_or) (auto simp: bit_eq_iff bit_simps not_bit_u8_beyond)
  moreover have "unat (push_bit 8 (ucast a) :: u16) = 256 * unat a"
    unfolding unat_push using unat_u8_less [of a] by simp
  ultimately show ?thesis
    using unat_u8_less [of a] unat_u8_less [of b] by (simp add: unat_add_small)
qed

lemma word_sum_le: "word_sum data \<le> 65535 * ((length data + 1) div 2)"
proof (induction data rule: word_sum.induct)
  case (1 a b rest)
  then show ?case using unat_u8_less [of a] unat_u8_less [of b] by simp
next
  case (2 a)
  then show ?case using unat_u8_less [of a] by simp
qed simp

lemma unat_ip_sum:
  "unat acc + word_sum data < 2 ^ 32 \<Longrightarrow> unat (ip_sum acc data) = unat acc + word_sum data"
proof (induction acc data rule: ip_sum.induct)
  case (1 acc a b rest)
  have "unat (acc + ucast (u16_of_be a b)) = unat acc + 256 * unat a + unat b"
    using "1.prems" by (subst unat_add_small) (simp_all add: unat_u16_of_be)
  with "1.IH" "1.prems" show ?case by simp
next
  case (2 acc a)
  have "unat (push_bit 8 (ucast a) :: u32) = 256 * unat a"
    unfolding unat_push using unat_u8_less [of a] by simp
  with 2 show ?case by (simp add: unat_add_small)
qed simp

lemma ip_fold_congr:
  "unat (ip_fold s) < 65536 \<and> unat (ip_fold s) mod 65535 = unat s mod 65535 \<and>
   (ip_fold s = 0 \<longleftrightarrow> s = 0)"
proof (induction s rule: ip_fold.induct)
  case (1 s)
  show ?case
  proof (cases "drop_bit 16 s = 0")
    case True
    then have "unat s div 65536 = 0" using unat_high16 [of s] by simp
    then have "unat s < 65536" by simp
    with True show ?thesis by (subst (1 2 3) ip_fold.simps) simp
  next
    case False
    let ?t = "(s AND 0xFFFF) + drop_bit 16 s"
    have "unat s = unat s div 65536 * 65535 + unat ?t"
      unfolding unat_fold_step using div_mult_mod_eq [of "unat s" 65536] by simp
    then have "unat s mod 65535 = (unat s div 65536 * 65535 + unat ?t) mod 65535"
      by (rule arg_cong)
    also have "\<dots> = unat ?t mod 65535"
      by (rule mod_mult_self3)
    finally have "unat ?t mod 65535 = unat s mod 65535" ..
    moreover have "0 < unat s div 65536"
      using False by (metis unat_high16 unat_gt_0)
    then have "0 < unat ?t" and "0 < unat s"
      unfolding unat_fold_step by (simp_all add: div_greater_zero_iff)
    then have "?t \<noteq> 0" and "s \<noteq> 0"
      unfolding unat_gt_0 by blast+
    moreover have "ip_fold s = ip_fold ?t"
      using False by (subst ip_fold.simps) simp
    ultimately show ?thesis using "1.IH" [OF False] by simp
  qed
qed

lemma unat_not_u16: "unat (NOT (x :: u16)) = 65535 - unat x"
proof -
  have "NOT x = 65535 - x" by (simp add: not_eq_complement)
  moreover have "x \<le> 65535" using unat_u16_less [of x] by (simp add: word_le_nat_alt)
  ultimately show ?thesis by (simp add: unat_sub)
qed

lemma unat_ucast_u16: "unat (v :: u32) < 65536 \<Longrightarrow> unat (ucast v :: u16) = unat v"
  by (simp add: unsigned_ucast_eq take_bit_eq_mod)

text \<open>What the code returns, over the exact sum: the complement of a residue modulo 65535.\<close>

lemma ip_checksum_residue:
  assumes "length data \<le> 131072"
  obtains f where "unat (ip_checksum data) = 65535 - f" and "f < 65536"
    and "f mod 65535 = word_sum data mod 65535" and "f = 0 \<longleftrightarrow> word_sum data = 0"
proof
  let ?f = "unat (ip_fold (ip_sum 0 data))"
  have "(length data + 1) div 2 \<le> 65536" using assms by simp
  with word_sum_le [of data] have "word_sum data < 2 ^ 32"
    by (simp add: le_less_trans)
  then have "unat (ip_sum 0 data) = word_sum data" by (simp add: unat_ip_sum)
  with ip_fold_congr [of "ip_sum 0 data"]
  show "?f < 65536" and "?f mod 65535 = word_sum data mod 65535" and "?f = 0 \<longleftrightarrow> word_sum data = 0"
    by (auto simp: unat_eq_zero)
  then show "unat (ip_checksum data) = 65535 - ?f"
    by (simp add: ip_checksum_def unat_not_u16 unat_ucast_u16)
qed

lemma word_sum_append: "even (length xs) \<Longrightarrow> word_sum (xs @ ys) = word_sum xs + word_sum ys"
  by (induction xs rule: word_sum.induct) auto

lemma word_sum_u16_be_bytes: "word_sum (u16_be_bytes w) = unat w"
  by (metis u16_be_bytes_def unat_u16_of_be u16_of_be_bytes word_sum.simps(1,3) add_0_right)

lemma ip_checksum_fill_verifies:
  assumes "even (length pre)" and "length pre + length post + 2 \<le> 131072"
  shows "ip_checksum_verify (pre @ u16_be_bytes (ip_checksum (pre @ [0, 0] @ post)) @ post)"
proof -
  let ?data = "pre @ [0, 0] @ post"
  let ?full = "pre @ u16_be_bytes (ip_checksum ?data) @ post"
  have "length ?data \<le> 131072" using assms(2) by simp
  then obtain f where f: "unat (ip_checksum ?data) = 65535 - f" "f < 65536"
    "f mod 65535 = word_sum ?data mod 65535" "f = 0 \<longleftrightarrow> word_sum ?data = 0"
    by (rule ip_checksum_residue)
  have full: "word_sum ?full = word_sum ?data + (65535 - f)"
    using assms(1) f(1) by (simp add: word_sum_append word_sum_u16_be_bytes)
  have "length ?full \<le> 131072" using assms(2) by simp
  then obtain g where g: "unat (ip_checksum ?full) = 65535 - g" "g < 65536"
    "g mod 65535 = word_sum ?full mod 65535" "g = 0 \<longleftrightarrow> word_sum ?full = 0"
    by (rule ip_checksum_residue)
  have "(word_sum ?data + 65535) mod 65535 = f mod 65535" using f(3) by simp
  then have "65535 dvd word_sum ?data + 65535 - f"
    using f(2) mod_eq_dvd_iff_nat [of f "word_sum ?data + 65535" 65535] by simp
  with full f(2) have "65535 dvd word_sum ?full" by simp
  with g(3) have "65535 dvd g" unfolding dvd_eq_mod_eq_0 by simp
  moreover have "g \<noteq> 0"
    using full f g(4) by auto
  ultimately have "g = 65535"
    using g(2) by (auto elim!: dvdE)
  with g(1) show ?thesis
    by (simp add: ip_checksum_verify_def unat_eq_zero)
qed

section \<open>The Fletcher checksum\<close>

text \<open>
  \<^verbatim>\<open>for (i, &byte) in data.iter().enumerate()\<close>: the two accumulators are \<^verbatim>\<open>i32\<close> and are reduced only
  after the loop; the two bytes of the checksum field count as zero.
\<close>

fun fletcher_loop :: "nat \<Rightarrow> nat \<Rightarrow> i32 \<Rightarrow> i32 \<Rightarrow> u8 list \<Rightarrow> i32 \<times> i32" where
  "fletcher_loop i off c0 c1 [] = (c0, c1)"
| "fletcher_loop i off c0 c1 (b # bs) =
     (let c0' = (if i = off \<or> i = off + 1 then c0 else c0 + ucast b)
      in fletcher_loop (i + 1) off c0' (c1 + c0') bs)"

text \<open>Rust's \<^verbatim>\<open>%\<close>: the remainder has the sign of the dividend.\<close>

definition rust_rem :: "int \<Rightarrow> int \<Rightarrow> int" where
  "rust_rem a b = sgn a * (\<bar>a\<bar> mod \<bar>b\<bar>)"

text \<open>
  The \<^verbatim>\<open>i64\<close> steps are exact integers: their operands come from \<^verbatim>\<open>i32\<close> values below 255 and a length.
\<close>

definition fletcher16 :: "u8 list \<Rightarrow> nat \<Rightarrow> u8 \<times> u8" where
  "fletcher16 data off =
     (let (s0, s1) = fletcher_loop 0 off 0 0 data;
          c0 = rust_rem (sint s0) 255;
          c1 = rust_rem (sint s1) 255;
          q = sint (word_of_nat (length data) - word_of_nat off :: i32);
          x = rust_rem (- c1 + (q - 1) * c0) 255;
          x = (if x \<le> 0 then x + 255 else x);
          y = 510 - c0 - x;
          y = (if y > 255 then y - 255 else y);
          y = (if y \<le> 0 then y + 255 else y)
      in (word_of_int x, word_of_int y))"

fun fletcher_verify_loop :: "u32 \<Rightarrow> u32 \<Rightarrow> u8 list \<Rightarrow> u32 \<times> u32" where
  "fletcher_verify_loop c0 c1 [] = (c0, c1)"
| "fletcher_verify_loop c0 c1 (b # bs) =
     (let c0' = (c0 + ucast b) mod 255 in fletcher_verify_loop c0' ((c1 + c0') mod 255) bs)"

definition fletcher16_verify :: "u8 list \<Rightarrow> bool" where
  "fletcher16_verify data \<longleftrightarrow> fletcher_verify_loop 0 0 data = (0, 0)"

subsection \<open>The accumulators as numbers\<close>

text \<open>The plain sum and the position-weighted sum of the bytes.\<close>

fun byte_sum :: "u8 list \<Rightarrow> nat" where
  "byte_sum [] = 0"
| "byte_sum (b # bs) = unat b + byte_sum bs"

fun weighted_sum :: "u8 list \<Rightarrow> nat" where
  "weighted_sum [] = 0"
| "weighted_sum (b # bs) = (length bs + 1) * unat b + weighted_sum bs"

lemma byte_sum_append [simp]: "byte_sum (xs @ ys) = byte_sum xs + byte_sum ys"
  by (induction xs) auto

lemma weighted_sum_append [simp]:
  "weighted_sum (xs @ ys) = weighted_sum xs + length ys * byte_sum xs + weighted_sum ys"
  by (induction xs) (auto simp: algebra_simps)

lemma byte_sum_le: "byte_sum bs \<le> 255 * length bs"
proof (induction bs)
  case (Cons b bs)
  then show ?case using unat_u8_less [of b] by simp
qed simp

lemma weighted_sum_le: "2 * weighted_sum bs \<le> 255 * (length bs * (length bs + 1))"
proof (induction bs)
  case (Cons b bs)
  have "unat b \<le> 255" using unat_u8_less [of b] by simp
  then have "(length bs + 1) * unat b \<le> (length bs + 1) * 255" by (rule mult_le_mono2)
  with Cons show ?case by (simp add: algebra_simps)
qed simp

text \<open>The loop with the field blanked is the loop over the blanked bytes.\<close>

lemma fletcher_loop_outside:
  assumes "i + length bs \<le> off \<or> off + 1 < i"
    and "unat c0 + byte_sum bs < 2 ^ 32"
    and "unat c1 + length bs * unat c0 + weighted_sum bs < 2 ^ 32"
  shows "\<exists>d0 d1. fletcher_loop i off c0 c1 (bs @ cs) = fletcher_loop (i + length bs) off d0 d1 cs \<and>
    unat d0 = unat c0 + byte_sum bs \<and> unat d1 = unat c1 + length bs * unat c0 + weighted_sum bs"
  using assms
proof (induction bs arbitrary: i c0 c1)
  case Nil
  then show ?case by auto
next
  case (Cons b bs)
  let ?c0 = "c0 + ucast b" and ?c1 = "c1 + (c0 + ucast b)"
  have c0: "unat ?c0 = unat c0 + unat b"
    using Cons.prems(2) by (simp add: unat_add_small)
  have c1: "unat ?c1 = unat c1 + unat c0 + unat b"
    using Cons.prems(3) c0 by (simp add: unat_add_small)
  have "fletcher_loop i off c0 c1 ((b # bs) @ cs) = fletcher_loop (i + 1) off ?c0 ?c1 (bs @ cs)"
    using Cons.prems(1) by (auto simp: Let_def)
  moreover from Cons.IH [of "i + 1" ?c0 ?c1] obtain d0 d1
    where "fletcher_loop (i + 1) off ?c0 ?c1 (bs @ cs) = fletcher_loop (i + 1 + length bs) off d0 d1 cs"
      and d: "unat d0 = unat ?c0 + byte_sum bs"
      "unat d1 = unat ?c1 + length bs * unat ?c0 + weighted_sum bs"
    unfolding c0 c1 using Cons.prems by (auto simp: algebra_simps)
  ultimately have "fletcher_loop i off c0 c1 ((b # bs) @ cs) =
      fletcher_loop (i + length (b # bs)) off d0 d1 cs"
    by simp
  moreover have "unat d0 = unat c0 + byte_sum (b # bs)"
    using d(1) unfolding c0 by simp
  moreover have "unat d1 = unat c1 + length (b # bs) * unat c0 + weighted_sum (b # bs)"
    using d(2) unfolding c0 c1 by (simp add: algebra_simps)
  ultimately show ?case by blast
qed

text \<open>
  4103 is the largest length for which the unreduced second accumulator stays below \<open>2 ^ 31\<close>
  whatever the bytes are.
\<close>

lemma weighted_sum_bound: "length bs \<le> 4103 \<Longrightarrow> weighted_sum bs < 2 ^ 31"
proof -
  assume "length bs \<le> 4103"
  then have "length bs * (length bs + 1) \<le> 4103 * 4104" by (intro mult_le_mono) auto
  with weighted_sum_le [of bs] show ?thesis by simp
qed

lemma fletcher_loop_unat:
  assumes "byte_sum (pre @ [0, 0] @ post) < 2 ^ 32" and "weighted_sum (pre @ [0, 0] @ post) < 2 ^ 32"
  obtains s0 s1 where "fletcher_loop 0 (length pre) 0 0 (pre @ [a, b] @ post) = (s0, s1)"
    and "unat s0 = byte_sum (pre @ [0, 0] @ post)" and "unat s1 = weighted_sum (pre @ [0, 0] @ post)"
proof -
  let ?off = "length pre" and ?blank = "pre @ [0, 0] @ post"
  let ?bp = "byte_sum pre" and ?wp = "weighted_sum pre"
  note bs = assms(1) and ws = assms(2)
  have sums: "byte_sum ?blank = ?bp + byte_sum post"
    "weighted_sum ?blank = ?wp + 2 * ?bp + length post * ?bp + weighted_sum post"
    by (simp_all add: algebra_simps)
  obtain d0 d1 where d: "fletcher_loop 0 ?off 0 0 (pre @ a # b # post) =
      fletcher_loop ?off ?off d0 d1 (a # b # post)"
    "unat d0 = ?bp" "unat d1 = ?wp"
    using fletcher_loop_outside [of 0 pre ?off 0 0 "a # b # post"] ws bs by auto
  let ?e1 = "d1 + d0 + d0"
  have "unat (d1 + d0) = ?wp + ?bp"
    using ws d(2,3) unfolding sums by (subst unat_add_small) simp_all
  then have e1: "unat ?e1 = ?wp + 2 * ?bp"
    using ws d(2,3) unfolding sums by (subst unat_add_small) simp_all
  have mid: "fletcher_loop ?off ?off d0 d1 (a # b # post) = fletcher_loop (?off + 2) ?off d0 ?e1 post"
    by (simp add: Let_def)
  obtain s0 s1 where s: "fletcher_loop (?off + 2) ?off d0 ?e1 post = (s0, s1)"
    "unat s0 = byte_sum ?blank" "unat s1 = weighted_sum ?blank"
    using fletcher_loop_outside [of "?off + 2" post ?off d0 ?e1 "[]"] ws bs
    unfolding sums e1 d(2) by auto
  with d(1) mid show ?thesis by (intro that) simp_all
qed

subsection \<open>The verifier computes the two residues\<close>

lemma residue_step:
  "((c + s mod m) mod m + k * (s mod m) + w) mod m = (c + s + k * s + w) mod (m :: nat)"
proof -
  have "(c + s mod m) mod m mod m = (c + s) mod m" by (simp add: mod_simps)
  moreover have "k * (s mod m) mod m = k * s mod m" by (simp add: mod_simps)
  ultimately show ?thesis by (intro mod_add_cong) simp_all
qed

lemma fletcher_verify_loop_eq:
  assumes "c0 < 255" and "c1 < 255"
  shows "fletcher_verify_loop c0 c1 bs =
    (word_of_nat ((unat c0 + byte_sum bs) mod 255),
     word_of_nat ((unat c1 + length bs * unat c0 + weighted_sum bs) mod 255))"
  using assms
proof (induction bs arbitrary: c0 c1)
  case Nil
  then show ?case by (simp add: word_less_nat_alt)
next
  case (Cons b bs)
  let ?c0 = "(c0 + ucast b) mod 255" and ?c1 = "(c1 + (c0 + ucast b) mod 255) mod 255"
  have lt: "unat c0 < 255" "unat c1 < 255" using Cons.prems by (simp_all add: word_less_nat_alt)
  have c0: "unat ?c0 = (unat c0 + unat b) mod 255"
    using lt unat_u8_less [of b] by (simp add: unat_mod_distrib unat_add_small)
  have c1: "unat ?c1 = (unat c1 + (unat c0 + unat b) mod 255) mod 255"
    using lt c0 by (simp add: unat_mod_distrib unat_add_small)
  have "?c0 < 255" "?c1 < 255" by (simp_all add: word_mod_less_divisor)
  then have "fletcher_verify_loop c0 c1 (b # bs) =
    (word_of_nat ((unat ?c0 + byte_sum bs) mod 255),
     word_of_nat ((unat ?c1 + length bs * unat ?c0 + weighted_sum bs) mod 255))"
    using Cons.IH [of ?c0 ?c1] by (simp add: Let_def)
  also have "(unat ?c0 + byte_sum bs) mod 255 = (unat c0 + byte_sum (b # bs)) mod 255"
    unfolding c0 by (simp add: mod_simps algebra_simps)
  also have "(unat ?c1 + length bs * unat ?c0 + weighted_sum bs) mod 255 =
      (unat c1 + length (b # bs) * unat c0 + weighted_sum (b # bs)) mod 255"
    unfolding c0 c1 residue_step by (simp add: algebra_simps)
  finally show ?case .
qed

lemma fletcher16_verify_iff:
  "fletcher16_verify data \<longleftrightarrow> byte_sum data mod 255 = 0 \<and> weighted_sum data mod 255 = 0"
  by (auto simp: fletcher16_verify_def fletcher_verify_loop_eq unat_of_nat word_of_nat_eq_0_iff)

subsection \<open>A filled-in checksum verifies\<close>

lemma rust_rem_bounds: "0 < b \<Longrightarrow> - b < rust_rem a b \<and> rust_rem a b < b"
proof -
  assume b: "0 < b"
  then have "0 \<le> \<bar>a\<bar> mod b" "\<bar>a\<bar> mod b < b" by simp_all
  with b show ?thesis by (auto simp: rust_rem_def sgn_if)
qed

lemma rust_rem_nonneg: "0 \<le> a \<Longrightarrow> 0 < b \<Longrightarrow> rust_rem a b = a mod b"
  by (auto simp: rust_rem_def sgn_if)

lemma rust_rem_mod: "0 < b \<Longrightarrow> rust_rem a b mod b = a mod b"
  by (auto simp: rust_rem_def sgn_if mod_minus_eq)

text \<open>
  The closing adjustments bring both check bytes into the range 1 to 255, congruent to the values
  the two accumulators call for.
\<close>

lemma fletcher16_congruences:
  assumes "fletcher_loop 0 (length pre) 0 0 (pre @ [a, b] @ post) = (s0, s1)"
    and "0 \<le> sint s0" and "length post + 2 < 2 ^ 31"
    and "fletcher16 (pre @ [a, b] @ post) (length pre) = (x, y)"
  defines "q \<equiv> int (length post) + 2"
  shows "255 dvd uint x - (- sint s1 + (q - 1) * sint s0)" and "255 dvd uint y - (- sint s0 - uint x)"
proof -
  let ?c0 = "sint s0 mod 255" and ?c1 = "rust_rem (sint s1) 255"
  have rem: "rust_rem (sint s0) 255 = ?c0"
    using assms(2) by (simp add: rust_rem_nonneg)
  have "unat (word_of_nat (length post + 2) :: i32) = length post + 2"
    using assms(3) by (simp only: unat_of_nat) simp
  then have "sint (word_of_nat (length post + 2) :: i32) = q"
    using assms(3) unfolding q_def by (subst sint_small) simp_all
  then have q: "sint (word_of_nat (length (pre @ [a, b] @ post)) - word_of_nat (length pre) :: i32) = q"
    by simp
  define r where "r = rust_rem (- ?c1 + (q - 1) * ?c0) 255"
  define u where "u = (if r \<le> 0 then r + 255 else r)"
  define v where "v = 510 - ?c0 - u"
  define v' where "v' = (if v > 255 then v - 255 else v)"
  have r: "- 255 < r" "r < 255" unfolding r_def using rust_rem_bounds [of 255] by simp_all
  then have u: "1 \<le> u" "u \<le> 255" unfolding u_def by auto
  have c: "0 \<le> ?c0" "?c0 < 255" by simp_all
  with u have v': "1 \<le> v'" "v' \<le> 255" unfolding v'_def v_def by auto
  have "fletcher16 (pre @ [a, b] @ post) (length pre) = (word_of_int u, word_of_int v')"
    unfolding fletcher16_def assms(1) Let_def prod.case rem q
    unfolding r_def [symmetric] unfolding u_def [symmetric] unfolding v_def [symmetric]
    unfolding v'_def [symmetric] using v' by (simp only: not_le if_False if_not_P flip: int_one_le_iff_zero_less)
  with assms(4) have xy: "x = word_of_int u" "y = word_of_int v'" by simp_all
  have x: "uint x = u" and y: "uint y = v'"
    unfolding xy using u v' by (simp_all add: uint_word_of_int)
  have "u mod 255 = r mod 255" unfolding u_def by simp
  also have "\<dots> = (- ?c1 + (q - 1) * ?c0) mod 255" unfolding r_def by (simp add: rust_rem_mod)
  also have "\<dots> = (- sint s1 + (q - 1) * sint s0) mod 255"
  proof (rule mod_add_cong)
    have "?c1 mod 255 = sint s1 mod 255" by (simp add: rust_rem_mod)
    then show "(- ?c1) mod 255 = (- sint s1) mod 255" by (metis mod_minus_eq)
    show "(q - 1) * ?c0 mod 255 = (q - 1) * sint s0 mod 255" by (rule mod_mult_right_eq)
  qed
  finally show "255 dvd uint x - (- sint s1 + (q - 1) * sint s0)"
    unfolding x by (simp only: mod_eq_dvd_iff)
  have "v' mod 255 = v mod 255" unfolding v'_def by (auto simp: mod_diff_right_eq)
  also have "\<dots> = (- sint s0 - u + 255 * (2 + sint s0 div 255)) mod 255"
    unfolding v_def by (intro arg_cong2 [where f = "(mod)"]) (simp_all flip: minus_mult_div_eq_mod)
  also have "\<dots> = (- sint s0 - u) mod 255" by (rule mod_mult_self2)
  finally show "255 dvd uint y - (- sint s0 - uint x)"
    unfolding x y by (simp only: mod_eq_dvd_iff)
qed

text \<open>The weighted sum of the finished bytes, in terms of the two congruences.\<close>

lemma weighted_sum_filled:
  fixes pre post :: "u8 list" and x y :: u8
  defines "c0 \<equiv> int (byte_sum (pre @ [0, 0] @ post))"
    and "c1 \<equiv> int (weighted_sum (pre @ [0, 0] @ post))" and "q \<equiv> int (length post) + 2"
  shows "int (weighted_sum (pre @ [x, y] @ post)) =
    (uint x - (- c1 + (q - 1) * c0)) + (q - 1) * (uint y - (- c0 - uint x))"
  unfolding c0_def c1_def q_def by (simp add: algebra_simps)

lemma mod_255_iff_dvd_int: "n mod 255 = 0 \<longleftrightarrow> 255 dvd int n"
  by presburger

lemma fletcher16_fill_verifies:
  assumes "length pre + length post + 2 \<le> 4103"
    and "fletcher16 (pre @ [a, b] @ post) (length pre) = (x, y)"
  shows "fletcher16_verify (pre @ [x, y] @ post)"
proof -
  let ?blank = "pre @ [0, 0] @ post"
  have ws: "weighted_sum ?blank < 2 ^ 31" by (rule weighted_sum_bound) (use assms in simp)
  have bs: "byte_sum ?blank < 2 ^ 31" using byte_sum_le [of ?blank] assms(1) by simp
  obtain s0 s1 where s: "fletcher_loop 0 (length pre) 0 0 (pre @ [a, b] @ post) = (s0, s1)"
    "unat s0 = byte_sum ?blank" "unat s1 = weighted_sum ?blank"
    by (rule fletcher_loop_unat [of pre post a b]) (use ws bs in simp_all)
  have c: "sint s0 = int (byte_sum ?blank)" "sint s1 = int (weighted_sum ?blank)"
    using ws bs unfolding s(2,3) [symmetric] by (simp_all only: sint_small)
  have "0 \<le> sint s0" and "length post + 2 < 2 ^ 31" using c(1) assms(1) by simp_all
  note xy = fletcher16_congruences [OF s(1) this assms(2), unfolded c]
  have "int (byte_sum (pre @ [x, y] @ post)) = uint y - (- int (byte_sum ?blank) - uint x)"
    by simp
  then have "255 dvd int (byte_sum (pre @ [x, y] @ post))"
    using xy(2) by (simp only:)
  moreover have "255 dvd int (weighted_sum (pre @ [x, y] @ post))"
    using xy by (subst weighted_sum_filled) (intro dvd_add dvd_mult)
  ultimately show ?thesis
    unfolding fletcher16_verify_iff mod_255_iff_dvd_int by blast
qed

text \<open>The bytes found in the field do not matter.\<close>

lemma fletcher_loop_append:
  "fletcher_loop i off c0 c1 (xs @ ys) =
     (case fletcher_loop i off c0 c1 xs of (d0, d1) \<Rightarrow> fletcher_loop (i + length xs) off d0 d1 ys)"
  by (induction xs arbitrary: i c0 c1) (simp_all add: Let_def)

lemma fletcher16_field_irrelevant:
  "fletcher16 (pre @ [a, b] @ post) (length pre) = fletcher16 (pre @ [c, d] @ post) (length pre)"
  by (simp add: fletcher16_def fletcher_loop_append Let_def)

text \<open>
  Past the bound the unreduced \<^verbatim>\<open>i32\<close> accumulator wraps (with overflow checks it panics instead), and
  as \<open>2 ^ 32\<close> is 1 modulo 255, the bytes written are those of a sum that is off by one.
\<close>

text \<open>
  When the unreduced second accumulator of the Fletcher loop leaves the range of \<^verbatim>\<open>i32\<close> (from
  \<open>2 ^ 31\<close>, reachable with about 4100 bytes), the checksum bytes computed never verify.
\<close>

theorem fletcher16_wrap_fails:
  assumes "byte_sum (pre @ [0, 0] @ post) < 2 ^ 31" and "length post + 2 < 2 ^ 31"
    and "2 ^ 31 \<le> weighted_sum (pre @ [0, 0] @ post)" and "weighted_sum (pre @ [0, 0] @ post) < 2 ^ 32"
    and "fletcher16 (pre @ [a, b] @ post) (length pre) = (x, y)"
  shows "\<not> fletcher16_verify (pre @ [x, y] @ post)"
proof
  let ?blank = "pre @ [0, 0] @ post" and ?q = "int (length post) + 2"
  let ?W = "int (weighted_sum ?blank)" and ?B = "int (byte_sum ?blank)"
  assume "fletcher16_verify (pre @ [x, y] @ post)"
  then have v: "255 dvd int (weighted_sum (pre @ [x, y] @ post))"
    unfolding fletcher16_verify_iff mod_255_iff_dvd_int by blast
  obtain s0 s1 where s: "fletcher_loop 0 (length pre) 0 0 (pre @ [a, b] @ post) = (s0, s1)"
    "unat s0 = byte_sum ?blank" "unat s1 = weighted_sum ?blank"
    by (rule fletcher_loop_unat [of pre post a b]) (use assms(1,4) in simp_all)
  have c0: "sint s0 = ?B"
    using assms(1) unfolding s(2) [symmetric] by (simp only: sint_small)
  have c1: "sint s1 = ?W - 2 ^ 32"
    using assms(3) unfolding s(3) [symmetric] by (simp only: sint_large)
  have "0 \<le> sint s0" using c0 by simp
  note xy = fletcher16_congruences [OF s(1) this assms(2,5), unfolded c0 c1]
  have "int (weighted_sum (pre @ [x, y] @ post)) =
      (uint x - (- (?W - 2 ^ 32) + (?q - 1) * ?B)) + (?q - 1) * (uint y - (- ?B - uint x)) + 2 ^ 32"
    by (subst weighted_sum_filled) simp
  moreover have "255 dvd (uint x - (- (?W - 2 ^ 32) + (?q - 1) * ?B)) + (?q - 1) * (uint y - (- ?B - uint x))"
    using xy by (intro dvd_add dvd_mult)
  ultimately have "255 dvd (2 ^ 32 :: int)"
    using v by (metis dvd_add_right_iff)
  then show False by simp
qed

lemma byte_sum_replicate: "byte_sum (replicate n b) = n * unat b"
  by (induction n) simp_all

lemma weighted_sum_replicate: "2 * weighted_sum (replicate n b) = n * (n + 1) * unat b"
  by (induction n) (simp_all add: algebra_simps)

theorem fletcher16_wrap_fails_witness:
  "(case fletcher16 (replicate 14 0 @ [0, 0] @ replicate 4200 255) 14 of
      (x, y) \<Rightarrow> \<not> fletcher16_verify (replicate 14 0 @ [x, y] @ replicate 4200 255))"
proof -
  let ?pre = "replicate 14 0 :: u8 list" and ?post = "replicate 4200 255 :: u8 list"
  obtain x y where xy: "fletcher16 (?pre @ [0, 0] @ ?post) (length ?pre) = (x, y)" by fastforce
  have "2 * weighted_sum ?post = 4499271000" by (subst weighted_sum_replicate) simp
  then have w: "weighted_sum ?post = 2249635500" by simp
  have pre: "byte_sum ?pre = 0" "weighted_sum ?pre = 0"
    using byte_sum_replicate [of 14 0] weighted_sum_replicate [of 14 0] by simp_all
  have sums: "byte_sum (?pre @ [0, 0] @ ?post) = 1071000"
    "weighted_sum (?pre @ [0, 0] @ ?post) = 2249635500"
    by (simp_all only: byte_sum_append weighted_sum_append w pre byte_sum_replicate) simp_all
  have "\<not> fletcher16_verify (?pre @ [x, y] @ ?post)"
    by (rule fletcher16_wrap_fails [OF _ _ _ _ xy]) (simp_all only: sums, simp_all)
  with xy show ?thesis by simp
qed

end
