(* ===== verification/Lsa_Codec.thy ===== *)
theory Lsa_Codec
  imports Checksum
begin

text \<open>
  \<^verbatim>\<open>src/packet/lsa.rs\<close>: the LSA header with its freshness order, the bodies of the five LSA types,
  and the complete LSA with length and checksum fix-up. Constructors and fields are those of the
  source, with a prefix where several types share a name.
\<close>

section \<open>Types\<close>

datatype LsaType = Router | Network | SummaryNetwork | SummaryAsbr | AsExternal

definition lsa_type_from_u8 :: "u8 \<Rightarrow> LsaType option" where
  "lsa_type_from_u8 v =
     (if v = 1 then Some Router
      else if v = 2 then Some Network
      else if v = 3 then Some SummaryNetwork
      else if v = 4 then Some SummaryAsbr
      else if v = 5 then Some AsExternal
      else None)"

fun lsa_type_to_u8 :: "LsaType \<Rightarrow> u8" where
  "lsa_type_to_u8 Router = 1"
| "lsa_type_to_u8 Network = 2"
| "lsa_type_to_u8 SummaryNetwork = 3"
| "lsa_type_to_u8 SummaryAsbr = 4"
| "lsa_type_to_u8 AsExternal = 5"

definition LSA_HEADER_LEN :: nat where
  "LSA_HEADER_LEN = 20"

text \<open>\<^verbatim>\<open>u16::try_from(LSA_HEADER_LEN + body_len).expect(..)\<close>.\<close>

definition lsa_total_length :: "nat \<Rightarrow> u16 parsed" where
  "lsa_total_length body_len =
     (if LSA_HEADER_LEN + body_len \<le> 65535 then Ok (word_of_nat (LSA_HEADER_LEN + body_len)) else Panic)"

definition MAX_AGE :: u16 where
  "MAX_AGE = 3600"

definition MAX_SEQUENCE_NUMBER :: i32 where
  "MAX_SEQUENCE_NUMBER = 0x7FFFFFFF"

definition INITIAL_SEQUENCE_NUMBER :: i32 where
  "INITIAL_SEQUENCE_NUMBER = - 0x7FFFFFFF"

record LsaKey =
  key_type :: LsaType
  key_lsid :: ipv4
  key_adv :: ipv4

record LsaHeader =
  ls_age :: u16
  h_options :: u8
  ls_type :: LsaType
  link_state_id :: ipv4
  advertising_router :: ipv4
  ls_sequence_number :: i32
  ls_checksum :: u16
  h_length :: u16

section \<open>The header\<close>

definition lsa_header_parse :: "u8 list \<Rightarrow> LsaHeader parsed" where
  "lsa_header_parse data =
     (if length data < LSA_HEADER_LEN then Err (TooShort LSA_HEADER_LEN (length data))
      else
        bindR (u16_at data 0) (\<lambda>age.
        bindR (byte_at data 2) (\<lambda>opts.
        bindR (byte_at data 3) (\<lambda>t.
        bindR (ok_or (lsa_type_from_u8 t) (BadLsaType t)) (\<lambda>ty.
        bindR (u32_at data 4) (\<lambda>lsid.
        bindR (u32_at data 8) (\<lambda>adv.
        bindR (u32_at data 12) (\<lambda>sq.
        bindR (u16_at data 16) (\<lambda>ck.
        bindR (u16_at data 18) (\<lambda>len.
        Ok \<lparr>ls_age = age, h_options = opts, ls_type = ty, link_state_id = lsid,
            advertising_router = adv, ls_sequence_number = sq, ls_checksum = ck,
            h_length = len\<rparr>))))))))))"

definition lsa_header_encode :: "LsaHeader \<Rightarrow> u8 list" where
  "lsa_header_encode h =
     u16_be_bytes (ls_age h) @ [h_options h, lsa_type_to_u8 (ls_type h)] @
     u32_be_bytes (link_state_id h) @ u32_be_bytes (advertising_router h) @
     u32_be_bytes (ls_sequence_number h) @ u16_be_bytes (ls_checksum h) @ u16_be_bytes (h_length h)"

definition header_key :: "LsaHeader \<Rightarrow> LsaKey" where
  "header_key h = \<lparr>key_type = ls_type h, key_lsid = link_state_id h, key_adv = advertising_router h\<rparr>"

text \<open>Freshness (RFC 2328 section 13.1): sequence number, checksum, MaxAge, age difference.\<close>

definition is_more_recent_than :: "LsaHeader \<Rightarrow> LsaHeader \<Rightarrow> ordering" where
  "is_more_recent_than self other =
     (case cmp (sint (ls_sequence_number self)) (sint (ls_sequence_number other)) of
        Greater \<Rightarrow> Greater
      | Less \<Rightarrow> Less
      | Equal \<Rightarrow>
         (case cmp (ls_checksum self) (ls_checksum other) of
            Greater \<Rightarrow> Greater
          | Less \<Rightarrow> Less
          | Equal \<Rightarrow>
             (if ls_age self = MAX_AGE \<and> ls_age other \<noteq> MAX_AGE then Greater
              else if ls_age self \<noteq> MAX_AGE \<and> ls_age other = MAX_AGE then Less
              else if nat \<bar>int (unat (ls_age self)) - int (unat (ls_age other))\<bar> > 900 then
                (if ls_age self < ls_age other then Greater else Less)
              else Equal)))"

section \<open>Bodies\<close>

datatype RouterLinkType = RL_PointToPoint | RL_TransitNetwork | RL_StubNetwork | RL_VirtualLink

definition router_link_type_from_u8 :: "u8 \<Rightarrow> RouterLinkType option" where
  "router_link_type_from_u8 v =
     (if v = 1 then Some RL_PointToPoint
      else if v = 2 then Some RL_TransitNetwork
      else if v = 3 then Some RL_StubNetwork
      else if v = 4 then Some RL_VirtualLink
      else None)"

fun router_link_type_to_u8 :: "RouterLinkType \<Rightarrow> u8" where
  "router_link_type_to_u8 RL_PointToPoint = 1"
| "router_link_type_to_u8 RL_TransitNetwork = 2"
| "router_link_type_to_u8 RL_StubNetwork = 3"
| "router_link_type_to_u8 RL_VirtualLink = 4"

record RouterLink =
  link_id :: ipv4
  link_data :: ipv4
  link_type :: RouterLinkType
  num_tos :: u8
  rl_metric :: u16

definition router_link_parse :: "u8 list \<Rightarrow> RouterLink parsed" where
  "router_link_parse data =
     (if length data < 12 then Err (TooShort 12 (length data))
      else
        bindR (u32_at data 0) (\<lambda>lid.
        bindR (u32_at data 4) (\<lambda>ld.
        bindR (byte_at data 8) (\<lambda>t.
        bindR (ok_or (router_link_type_from_u8 t) (BadLsaType t)) (\<lambda>ty.
        bindR (byte_at data 9) (\<lambda>tos.
        bindR (u16_at data 10) (\<lambda>m.
        Ok \<lparr>link_id = lid, link_data = ld, link_type = ty, num_tos = tos, rl_metric = m\<rparr>)))))))"

definition router_link_encode :: "RouterLink \<Rightarrow> u8 list" where
  "router_link_encode l =
     u32_be_bytes (link_id l) @ u32_be_bytes (link_data l) @
     [router_link_type_to_u8 (link_type l), num_tos l] @ u16_be_bytes (rl_metric l)"

definition router_link_wire_size :: "RouterLink \<Rightarrow> nat" where
  "router_link_wire_size l = 12 + unat (num_tos l) * 4"

record RouterLsa =
  r_flags :: u8
  r_links :: "RouterLink list"

definition V_FLAG :: u8 where "V_FLAG = 0x01"
definition E_FLAG :: u8 where "E_FLAG = 0x02"
definition B_FLAG :: u8 where "B_FLAG = 0x04"

text \<open>\<^verbatim>\<open>for _ in 0..num_links { if off + 12 > data.len() { break; } .. off += link.wire_size(); }\<close>\<close>

fun router_links_parse :: "nat \<Rightarrow> u8 list \<Rightarrow> nat \<Rightarrow> RouterLink list parsed" where
  "router_links_parse 0 data off = Ok []"
| "router_links_parse (Suc n) data off =
     (if off + 12 > length data then Ok []
      else
        bindR (slice_from data off) (\<lambda>s.
        bindR (router_link_parse s) (\<lambda>l.
        bindR (router_links_parse n data (off + router_link_wire_size l)) (\<lambda>ls. Ok (l # ls)))))"

definition router_lsa_parse :: "u8 list \<Rightarrow> RouterLsa parsed" where
  "router_lsa_parse data =
     (if length data < 4 then Err (TooShort 4 (length data))
      else
        bindR (byte_at data 0) (\<lambda>fl.
        bindR (u16_at data 2) (\<lambda>num_links.
        bindR (router_links_parse (unat num_links) data 4) (\<lambda>ls.
        Ok \<lparr>r_flags = fl, r_links = ls\<rparr>))))"

definition router_lsa_encode :: "RouterLsa \<Rightarrow> u8 list" where
  "router_lsa_encode r =
     [r_flags r, 0] @ u16_be_bytes (word_of_nat (length (r_links r))) @
     concat (map router_link_encode (r_links r))"

record NetworkLsa =
  n_network_mask :: ipv4
  attached_routers :: "ipv4 list"

definition ipv4_parse :: "u8 list \<Rightarrow> ipv4 parsed" where
  "ipv4_parse data = u32_at data 0"

definition network_lsa_parse :: "u8 list \<Rightarrow> NetworkLsa parsed" where
  "network_lsa_parse data =
     (if length data < 4 then Err (TooShort 4 (length data))
      else
        bindR (u32_at data 0) (\<lambda>m.
        bindR (parse_fixed 4 ipv4_parse data 4) (\<lambda>rs.
        Ok \<lparr>n_network_mask = m, attached_routers = rs\<rparr>)))"

definition network_lsa_encode :: "NetworkLsa \<Rightarrow> u8 list" where
  "network_lsa_encode n =
     u32_be_bytes (n_network_mask n) @ concat (map u32_be_bytes (attached_routers n))"

record AsExternalLsa =
  e_network_mask :: ipv4
  metric_type_2 :: bool
  e_metric :: u32
  forwarding_address :: ipv4
  external_route_tag :: u32

definition as_external_lsa_parse :: "u8 list \<Rightarrow> AsExternalLsa parsed" where
  "as_external_lsa_parse data =
     (if length data < 16 then Err (TooShort 16 (length data))
      else
        bindR (u32_at data 0) (\<lambda>m.
        bindR (byte_at data 4) (\<lambda>e.
        bindR (u24_at data 5) (\<lambda>met.
        bindR (u32_at data 8) (\<lambda>fwd.
        bindR (u32_at data 12) (\<lambda>tag.
        Ok \<lparr>e_network_mask = m, metric_type_2 = (e AND 0x80 \<noteq> 0), e_metric = met,
            forwarding_address = fwd, external_route_tag = tag\<rparr>))))))"

definition as_external_lsa_encode :: "AsExternalLsa \<Rightarrow> u8 list" where
  "as_external_lsa_encode e =
     u32_be_bytes (e_network_mask e) @ [if metric_type_2 e then 0x80 else 0] @
     u24_be_bytes (e_metric e) @ u32_be_bytes (forwarding_address e) @
     u32_be_bytes (external_route_tag e)"

record SummaryLsa =
  s_network_mask :: ipv4
  s_metric :: u32

definition summary_lsa_parse :: "u8 list \<Rightarrow> SummaryLsa parsed" where
  "summary_lsa_parse data =
     (if length data < 8 then Err (TooShort 8 (length data))
      else
        bindR (u32_at data 0) (\<lambda>m.
        bindR (u24_at data 5) (\<lambda>met.
        Ok \<lparr>s_network_mask = m, s_metric = met\<rparr>)))"

definition summary_lsa_encode :: "SummaryLsa \<Rightarrow> u8 list" where
  "summary_lsa_encode s = u32_be_bytes (s_network_mask s) @ [0] @ u24_be_bytes (s_metric s)"

section \<open>The complete LSA\<close>

datatype LsaBody =
    BRouter RouterLsa
  | BNetwork NetworkLsa
  | BSummary SummaryLsa
  | BAsExternal AsExternalLsa
  | BOpaque "u8 list"

record Lsa =
  header :: LsaHeader
  body :: LsaBody

fun lsa_body_parse :: "LsaType \<Rightarrow> u8 list \<Rightarrow> LsaBody parsed" where
  "lsa_body_parse Router d = bindR (router_lsa_parse d) (\<lambda>b. Ok (BRouter b))"
| "lsa_body_parse Network d = bindR (network_lsa_parse d) (\<lambda>b. Ok (BNetwork b))"
| "lsa_body_parse SummaryNetwork d = bindR (summary_lsa_parse d) (\<lambda>b. Ok (BSummary b))"
| "lsa_body_parse SummaryAsbr d = bindR (summary_lsa_parse d) (\<lambda>b. Ok (BSummary b))"
| "lsa_body_parse AsExternal d = bindR (as_external_lsa_parse d) (\<lambda>b. Ok (BAsExternal b))"

definition lsa_parse :: "u8 list \<Rightarrow> Lsa parsed" where
  "lsa_parse data =
     bindR (lsa_header_parse data) (\<lambda>h.
       if unat (h_length h) < LSA_HEADER_LEN then Err (TooShort LSA_HEADER_LEN (unat (h_length h)))
       else
         (let body_len = unat (h_length h) - LSA_HEADER_LEN in
          bindR (slice data LSA_HEADER_LEN
                   (LSA_HEADER_LEN + min body_len (length data - LSA_HEADER_LEN))) (\<lambda>d.
          bindR (lsa_body_parse (ls_type h) d) (\<lambda>b.
          Ok \<lparr>header = h, body = b\<rparr>))))"

fun lsa_body_encode :: "LsaBody \<Rightarrow> u8 list" where
  "lsa_body_encode (BRouter r) = router_lsa_encode r"
| "lsa_body_encode (BNetwork n) = network_lsa_encode n"
| "lsa_body_encode (BSummary s) = summary_lsa_encode s"
| "lsa_body_encode (BAsExternal e) = as_external_lsa_encode e"
| "lsa_body_encode (BOpaque d) = d"

text \<open>
  Header and body, then the length (\<^verbatim>\<open>u16::try_from(buf.len()).expect(..)\<close>) at offset 18 and the
  Fletcher checksum of everything after the age at offset 16.
\<close>

definition lsa_encode :: "Lsa \<Rightarrow> u8 list parsed" where
  "lsa_encode l =
     (let buf = lsa_header_encode (header l) @ lsa_body_encode (body l) in
      if length buf > 65535 then Panic
      else
        (let len = (word_of_nat (length buf) :: u16);
             buf = buf[18 := ucast (drop_bit 8 len), 19 := ucast (len AND 0xFF)];
             (c1, c2) = fletcher16 (drop 2 buf) 14
         in Ok (buf[16 := c1, 17 := c2])))"

definition lsa_key :: "Lsa \<Rightarrow> LsaKey" where
  "lsa_key l = header_key (header l)"

definition lsa_wire_size :: "Lsa \<Rightarrow> nat" where
  "lsa_wire_size l = unat (h_length (header l))"

section \<open>The LS Acknowledgment body\<close>

record LsAckPacket =
  ack_headers :: "LsaHeader list"

definition ls_ack_parse :: "u8 list \<Rightarrow> LsAckPacket parsed" where
  "ls_ack_parse data =
     bindR (parse_fixed LSA_HEADER_LEN lsa_header_parse data 0) (\<lambda>hs. Ok \<lparr>ack_headers = hs\<rparr>)"

definition ls_ack_encode :: "LsAckPacket \<Rightarrow> u8 list" where
  "ls_ack_encode p = concat (map lsa_header_encode (ack_headers p))"

section \<open>Round trips of the fixed-width parts\<close>

lemma lsa_type_round_trip [simp]: "lsa_type_from_u8 (lsa_type_to_u8 t) = Some t"
  by (cases t) (simp_all add: lsa_type_from_u8_def)

lemma router_link_type_round_trip [simp]: "router_link_type_from_u8 (router_link_type_to_u8 t) = Some t"
  by (cases t) (simp_all add: router_link_type_from_u8_def)

lemmas codec_eval = be_bytes_defs read_defs LSA_HEADER_LEN_def

lemma length_lsa_header_encode [simp]: "length (lsa_header_encode h) = 20"
  by (simp add: lsa_header_encode_def)

lemma length_router_link_encode [simp]: "length (router_link_encode l) = 12"
  by (simp add: router_link_encode_def)

lemma lsa_header_round_trip: "lsa_header_parse (lsa_header_encode h @ rest) = Ok h"
  by (cases h) (simp add: lsa_header_parse_def lsa_header_encode_def codec_eval)

lemma router_link_round_trip: "router_link_parse (router_link_encode l @ rest) = Ok l"
  by (cases l) (simp add: router_link_parse_def router_link_encode_def codec_eval)

lemma lsa_header_no_panic: "lsa_header_parse data \<noteq> Panic"
  by (auto simp: lsa_header_parse_def LSA_HEADER_LEN_def in_bounds bindR_eq_Panic_iff)

lemma router_link_no_panic: "router_link_parse data \<noteq> Panic"
  by (auto simp: router_link_parse_def in_bounds bindR_eq_Panic_iff)

text \<open>An address and an LSA header are fixed-width codecs, so runs of them round-trip.\<close>

interpretation ipv4_codec: fixed_codec 4 u32_be_bytes ipv4_parse
  by unfold_locales (simp_all add: ipv4_parse_def u32_at_Ok, simp_all add: codec_eval)

interpretation header_codec: fixed_codec LSA_HEADER_LEN lsa_header_encode lsa_header_parse
  by unfold_locales (simp_all add: LSA_HEADER_LEN_def lsa_header_round_trip lsa_header_no_panic)

section \<open>Round trips of the bodies\<close>

text \<open>
  A link is written without its TOS entries, so a link with \<open>num_tos \<noteq> 0\<close> does not survive; a
  metric is written in 24 bits.
\<close>

fun wf_body :: "LsaType \<Rightarrow> LsaBody \<Rightarrow> bool" where
  "wf_body Router (BRouter r) \<longleftrightarrow> (\<forall>l \<in> set (r_links r). num_tos l = 0)"
| "wf_body Network (BNetwork n) \<longleftrightarrow> True"
| "wf_body SummaryNetwork (BSummary s) \<longleftrightarrow> unat (s_metric s) < 2 ^ 24"
| "wf_body SummaryAsbr (BSummary s) \<longleftrightarrow> unat (s_metric s) < 2 ^ 24"
| "wf_body AsExternal (BAsExternal e) \<longleftrightarrow> unat (e_metric e) < 2 ^ 24"
| "wf_body _ _ \<longleftrightarrow> False"

lemma router_links_round_trip:
  assumes "\<forall>l \<in> set ls. num_tos l = 0" and "off = length pre"
  shows "router_links_parse (length ls) (pre @ concat (map router_link_encode ls)) off = Ok ls"
  using assms
proof (induction ls arbitrary: pre off)
  case Nil
  then show ?case by simp
next
  case (Cons l ls)
  let ?data = "pre @ concat (map router_link_encode (l # ls))"
  have "router_links_parse (length ls) ((pre @ router_link_encode l) @ concat (map router_link_encode ls))
      (off + 12) = Ok ls"
    by (rule Cons.IH) (use Cons.prems in simp_all)
  then have "router_links_parse (length ls) ?data (off + 12) = Ok ls" by simp
  then show ?case
    using Cons.prems by (simp add: slice_from_def router_link_round_trip router_link_wire_size_def)
qed

lemma router_lsa_round_trip:
  assumes "\<forall>l \<in> set (r_links r). num_tos l = 0" and "length (r_links r) < 65536"
  shows "router_lsa_parse (router_lsa_encode r) = Ok r"
proof -
  let ?n = "word_of_nat (length (r_links r)) :: u16"
  have n: "unat ?n = length (r_links r)" using assms(2) by (simp add: unat_of_nat)
  have "router_links_parse (length (r_links r))
      (([r_flags r, 0] @ u16_be_bytes ?n) @ concat (map router_link_encode (r_links r))) 4 = Ok (r_links r)"
    by (rule router_links_round_trip [OF assms(1)]) simp
  with n show ?thesis
    by (cases r) (simp add: router_lsa_parse_def router_lsa_encode_def codec_eval)
qed

lemma u32_at_be_bytes: "u32_at (u32_be_bytes w @ xs) 0 = Ok w"
  by (simp add: codec_eval)

lemma network_lsa_round_trip: "network_lsa_parse (network_lsa_encode n) = Ok n"
proof -
  have "parse_fixed 4 ipv4_parse
      (u32_be_bytes (n_network_mask n) @ concat (map u32_be_bytes (attached_routers n)) @ []) 4 =
      Ok (attached_routers n)"
    by (rule ipv4_codec.parse_fixed_round_trip) simp_all
  then show ?thesis
    by (simp add: network_lsa_parse_def network_lsa_encode_def u32_at_be_bytes)
qed

lemma as_external_lsa_round_trip:
  "unat (e_metric e) < 2 ^ 24 \<Longrightarrow> as_external_lsa_parse (as_external_lsa_encode e) = Ok e"
  by (cases e) (simp add: as_external_lsa_parse_def as_external_lsa_encode_def codec_eval
      u24_of_be_bytes u24_fits)

lemma summary_lsa_round_trip:
  "unat (s_metric e) < 2 ^ 24 \<Longrightarrow> summary_lsa_parse (summary_lsa_encode e) = Ok e"
  by (cases e) (simp add: summary_lsa_parse_def summary_lsa_encode_def codec_eval
      u24_of_be_bytes u24_fits)

lemma lsa_body_round_trip:
  assumes "wf_body t b" and "length (lsa_body_encode b) < 65536"
  shows "lsa_body_parse t (lsa_body_encode b) = Ok b"
proof -
  have "length (r_links r) < 65536" if "b = BRouter r" for r
    using assms(2) that
    by (simp add: router_lsa_encode_def length_concat o_def sum_list_triv)
  with assms(1) show ?thesis
    by (cases "(t, b)" rule: wf_body.cases)
      (auto simp: router_lsa_round_trip network_lsa_round_trip summary_lsa_round_trip
        as_external_lsa_round_trip)
qed

section \<open>Encoding fixes length and checksum\<close>

text \<open>What \<^const>\<open>lsa_encode\<close> makes of an LSA: the same LSA with its length and checksum set.\<close>

definition lsa_finalize :: "Lsa \<Rightarrow> Lsa" where
  "lsa_finalize l =
     (let len = word_of_nat (20 + length (lsa_body_encode (body l)));
          h = (header l)\<lparr>h_length := len\<rparr>;
          (c1, c2) = fletcher16 (drop 2 (lsa_header_encode h @ lsa_body_encode (body l))) 14
      in l\<lparr>header := h\<lparr>ls_checksum := u16_of_be c1 c2\<rparr>\<rparr>)"

lemma low_octet: "ucast ((w :: u16) AND 0xFF) = (ucast w :: u8)"
proof -
  have "(0xFF :: u16) = mask 8" by (simp add: mask_eq_exp_minus_1)
  then show ?thesis by (auto simp: bit_eq_iff bit_simps)
qed

lemma header_set_length:
  "(lsa_header_encode h @ bs)[18 := ucast (drop_bit 8 len), 19 := ucast (len AND 0xFF)] =
   lsa_header_encode (h\<lparr>h_length := len\<rparr>) @ bs"
  unfolding low_octet by (simp add: lsa_header_encode_def be_bytes_defs)

lemma header_set_checksum:
  "(lsa_header_encode h @ bs)[16 := c1, 17 := c2] =
   lsa_header_encode (h\<lparr>ls_checksum := u16_of_be c1 c2\<rparr>) @ bs"
  by (simp add: lsa_header_encode_def u32_be_bytes_def u16_be_bytes_def [of "ls_age h"]
      u16_be_bytes_def [of "ls_checksum h"])

lemma lsa_encode_eq:
  "lsa_encode l =
     (if 20 + length (lsa_body_encode (body l)) > 65535 then Panic
      else Ok (lsa_header_encode (header (lsa_finalize l)) @ lsa_body_encode (body l)))"
  by (simp add: lsa_encode_def lsa_finalize_def Let_def header_set_length header_set_checksum
      split: prod.split)

lemma body_lsa_finalize [simp]: "body (lsa_finalize l) = body l"
  by (simp add: lsa_finalize_def Let_def split: prod.split)

lemma header_lsa_finalize:
  "header (lsa_finalize l) =
     (header l)\<lparr>h_length := word_of_nat (20 + length (lsa_body_encode (body l))),
               ls_checksum := ls_checksum (header (lsa_finalize l))\<rparr>"
  by (simp add: lsa_finalize_def Let_def split: prod.split)

lemma header_lsa_finalize_simps [simp]:
  "ls_age (header (lsa_finalize l)) = ls_age (header l)"
  "h_options (header (lsa_finalize l)) = h_options (header l)"
  "ls_type (header (lsa_finalize l)) = ls_type (header l)"
  "link_state_id (header (lsa_finalize l)) = link_state_id (header l)"
  "advertising_router (header (lsa_finalize l)) = advertising_router (header l)"
  "ls_sequence_number (header (lsa_finalize l)) = ls_sequence_number (header l)"
  "h_length (header (lsa_finalize l)) = word_of_nat (20 + length (lsa_body_encode (body l)))"
  by (subst header_lsa_finalize; simp)+

lemma lsa_key_finalize [simp]: "lsa_key (lsa_finalize l) = lsa_key l"
  by (simp add: lsa_key_def header_key_def)

text \<open>The checksummed bytes, split at the checksum field.\<close>

definition checksum_prefix :: "LsaHeader \<Rightarrow> u8 list" where
  "checksum_prefix h = [h_options h, lsa_type_to_u8 (ls_type h)] @ u32_be_bytes (link_state_id h) @
     u32_be_bytes (advertising_router h) @ u32_be_bytes (ls_sequence_number h)"

lemma length_checksum_prefix: "length (checksum_prefix h) = 14"
  by (simp add: checksum_prefix_def)

lemma checksummed_bytes:
  "drop 2 (lsa_header_encode h @ bs) =
   checksum_prefix h @ u16_be_bytes (ls_checksum h) @ u16_be_bytes (h_length h) @ bs"
  by (simp add: lsa_header_encode_def checksum_prefix_def u16_be_bytes_def [of "ls_age h"])

lemma fletcher16_ignores_checksum:
  "fletcher16 (drop 2 (lsa_header_encode (h\<lparr>ls_checksum := c\<rparr>) @ bs)) 14 =
   fletcher16 (drop 2 (lsa_header_encode h @ bs)) 14"
proof -
  have "checksum_prefix (h\<lparr>ls_checksum := c\<rparr>) = checksum_prefix h"
    by (simp add: checksum_prefix_def)
  then show ?thesis
    unfolding checksummed_bytes u16_be_bytes_def [of "ls_checksum _"] length_checksum_prefix [of h, symmetric]
    using fletcher16_field_irrelevant [of "checksum_prefix h"] by simp
qed

lemma lsa_finalize_idem: "lsa_finalize (lsa_finalize l) = lsa_finalize l"
proof -
  let ?b = "lsa_body_encode (body l)" and ?len = "word_of_nat (20 + length (lsa_body_encode (body l)))"
  let ?h = "(header l)\<lparr>h_length := ?len\<rparr>"
  obtain c1 c2 where c: "fletcher16 (drop 2 (lsa_header_encode ?h @ ?b)) 14 = (c1, c2)"
    by fastforce
  define f where "f = lsa_finalize l"
  have f: "f = l\<lparr>header := ?h\<lparr>ls_checksum := u16_of_be c1 c2\<rparr>\<rparr>"
    unfolding f_def lsa_finalize_def Let_def c prod.case ..
  have hf: "header f = ?h\<lparr>ls_checksum := u16_of_be c1 c2\<rparr>" and bf: "body f = body l"
    unfolding f by (cases l, simp)+
  have e1: "(header f)\<lparr>h_length := ?len\<rparr> = header f"
    and e2: "(header f)\<lparr>ls_checksum := u16_of_be c1 c2\<rparr> = header f"
    unfolding hf by (cases "header l", simp)+
  have e3: "fletcher16 (drop 2 (lsa_header_encode (header f) @ ?b)) 14 = (c1, c2)"
    unfolding hf fletcher16_ignores_checksum c ..
  show ?thesis
    unfolding f_def [symmetric] unfolding lsa_finalize_def [of f] Let_def bf e1 e3 prod.case e2 by simp
qed

lemma lsa_parse_encoded:
  assumes "wf_body (ls_type (header l)) (body l)" and "lsa_encode l = Ok buf"
  shows "lsa_parse (buf @ rest) = Ok (lsa_finalize l)"
proof -
  let ?n = "length (lsa_body_encode (body l))"
  from assms(2) have n: "20 + ?n \<le> 65535"
    and buf: "buf = lsa_header_encode (header (lsa_finalize l)) @ lsa_body_encode (body l)"
    by (auto simp: lsa_encode_eq split: if_splits)
  have len: "unat (word_of_nat (20 + ?n) :: u16) = 20 + ?n"
    using n by (simp only: unat_of_nat) simp
  have "lsa_header_parse (buf @ rest) = Ok (header (lsa_finalize l))"
    by (simp add: buf lsa_header_round_trip)
  moreover have "slice (buf @ rest) 20 (20 + min ?n (length (buf @ rest) - 20)) =
      (Ok (lsa_body_encode (body l)) :: u8 list parsed)"
    by (simp add: slice_def buf)
  moreover have "lsa_body_parse (ls_type (header l)) (lsa_body_encode (body l)) = Ok (body l)"
    using assms(1) n by (intro lsa_body_round_trip) simp_all
  moreover have "\<lparr>header = header (lsa_finalize l), body = body l\<rparr> = lsa_finalize l"
    by (simp add: Lsa.equality)
  ultimately show ?thesis
    using len by (simp add: lsa_parse_def LSA_HEADER_LEN_def del: of_nat_add)
qed

text \<open>
  C3. The Fletcher checksum written into an encoded LSA of at most 4105 bytes verifies.
\<close>

theorem lsa_encode_checksum_valid:
  assumes "lsa_encode l = Ok buf" and "length buf \<le> 4105"
  shows "fletcher16_verify (drop 2 buf)"
proof -
  let ?b = "lsa_body_encode (body l)"
  let ?h = "(header l)\<lparr>h_length := word_of_nat (20 + length ?b)\<rparr>"
  obtain c1 c2 where c: "fletcher16 (drop 2 (lsa_header_encode ?h @ ?b)) 14 = (c1, c2)"
    by fastforce
  let ?post = "u16_be_bytes (h_length ?h) @ ?b" and ?pre = "checksum_prefix ?h"
  have f: "header (lsa_finalize l) = ?h\<lparr>ls_checksum := u16_of_be c1 c2\<rparr>"
    unfolding lsa_finalize_def Let_def c prod.case by (cases l) simp
  from assms(1) have buf: "buf = lsa_header_encode (header (lsa_finalize l)) @ ?b"
    by (auto simp: lsa_encode_eq split: if_splits)
  have "fletcher16 (?pre @ [ucast (drop_bit 8 (ls_checksum ?h)), ucast (ls_checksum ?h)] @ ?post)
      (length ?pre) = (c1, c2)"
    using c unfolding checksummed_bytes by (simp add: u16_be_bytes_def [of "ls_checksum _"] length_checksum_prefix)
  moreover have "length ?pre + length ?post + 2 \<le> 4103"
    using assms(2) buf by (simp add: length_checksum_prefix)
  ultimately have "fletcher16_verify (?pre @ [c1, c2] @ ?post)"
    by (intro fletcher16_fill_verifies)
  moreover have "checksum_prefix (?h\<lparr>ls_checksum := u16_of_be c1 c2\<rparr>) = ?pre"
    by (simp add: checksum_prefix_def)
  ultimately show ?thesis
    unfolding buf checksummed_bytes f by (simp del: of_nat_add)
qed

section \<open>Parsing untrusted bytes\<close>

lemma router_links_no_panic: "router_links_parse n data off \<noteq> Panic"
  by (induction n data off rule: router_links_parse.induct)
    (auto simp: bindR_eq_Panic_iff slice_from_def router_link_no_panic)

lemma lsa_body_no_panic: "lsa_body_parse t data \<noteq> Panic"
proof (cases t)
  case Router
  then show ?thesis
    by (auto simp: bindR_eq_Panic_iff router_lsa_parse_def in_bounds router_links_no_panic)
next
  case Network
  then show ?thesis
    by (auto simp: bindR_eq_Panic_iff network_lsa_parse_def in_bounds ipv4_codec.run_no_panic)
qed (auto simp: bindR_eq_Panic_iff summary_lsa_parse_def as_external_lsa_parse_def in_bounds)

lemma lsa_header_parse_Ok_length: "lsa_header_parse data = Ok h \<Longrightarrow> 20 \<le> length data"
  by (auto simp: lsa_header_parse_def LSA_HEADER_LEN_def split: if_splits)

lemma lsa_no_panic: "lsa_parse data \<noteq> Panic"
  by (auto simp: lsa_parse_def bindR_eq_Panic_iff lsa_header_no_panic lsa_body_no_panic Let_def
      LSA_HEADER_LEN_def slice_def dest: lsa_header_parse_Ok_length split: if_splits)

lemma lsa_parse_wire_size: "lsa_parse data = Ok l \<Longrightarrow> 20 \<le> lsa_wire_size l"
  by (auto simp: lsa_parse_def bindR_eq_Ok_iff Let_def LSA_HEADER_LEN_def lsa_wire_size_def
      split: if_splits)

lemma lsa_parse_Ok_length: "lsa_parse data = Ok l \<Longrightarrow> 20 \<le> length data"
  by (auto simp: lsa_parse_def bindR_eq_Ok_iff dest: lsa_header_parse_Ok_length)

lemma ls_ack_no_panic: "ls_ack_parse data \<noteq> Panic"
  by (simp add: ls_ack_parse_def bindR_eq_Panic_iff header_codec.run_no_panic)

lemma ls_ack_round_trip: "ls_ack_parse (ls_ack_encode p) = Ok p"
proof -
  have "parse_fixed LSA_HEADER_LEN lsa_header_parse
      ([] @ concat (map lsa_header_encode (ack_headers p)) @ []) 0 = Ok (ack_headers p)"
    by (rule header_codec.parse_fixed_round_trip) (simp_all add: LSA_HEADER_LEN_def)
  then show ?thesis by (simp add: ls_ack_parse_def ls_ack_encode_def)
qed

theorem lsa_encode_checksum_valid_witness:
  "\<exists>buf. lsa_encode \<lparr>header = \<lparr>ls_age = 1, h_options = 2, ls_type = Network, link_state_id = 1,
     advertising_router = 2, ls_sequence_number = 3, ls_checksum = 0, h_length = 0\<rparr>,
     body = BNetwork \<lparr>n_network_mask = 0xFFFFFF00, attached_routers = [1]\<rparr>\<rparr> = Ok buf \<and>
   fletcher16_verify (drop 2 buf)"
  (is "\<exists>buf. lsa_encode ?l = Ok buf \<and> _")
proof -
  obtain buf where "lsa_encode ?l = Ok buf" "length buf \<le> 4105"
    by (simp add: lsa_encode_eq network_lsa_encode_def)
  then show ?thesis using lsa_encode_checksum_valid by blast
qed

end
