(* ===== verification/Packet_Bodies.thy ===== *)
theory Packet_Bodies
  imports Lsa_Codec
begin

text \<open>
  The packet bodies of \<^verbatim>\<open>src/packet/hello.rs\<close>, \<^verbatim>\<open>dd.rs\<close>, \<^verbatim>\<open>lsr.rs\<close> and \<^verbatim>\<open>lsu.rs\<close>: their parsers and
  encoders, the round trip of each, and that no parser panics.
\<close>

section \<open>Hello\<close>

text \<open>\<^verbatim>\<open>OspfOptions\<close> is a newtype over \<^verbatim>\<open>u8\<close>.\<close>

type_synonym OspfOptions = u8

definition E_BIT :: u8 where
  "E_BIT = 0x02"

definition options_standard :: OspfOptions where
  "options_standard = E_BIT"

definition HELLO_MIN_LEN :: nat where
  "HELLO_MIN_LEN = 20"

record HelloPacket =
  hp_network_mask :: ipv4
  hp_hello_interval :: u16
  hp_options :: OspfOptions
  hp_router_priority :: u8
  hp_router_dead_interval :: u32
  hp_designated_router :: ipv4
  hp_backup_designated_router :: ipv4
  hp_neighbors :: "ipv4 list"

definition hello_parse :: "u8 list \<Rightarrow> HelloPacket parsed" where
  "hello_parse data =
     (if length data < HELLO_MIN_LEN then Err (TooShort HELLO_MIN_LEN (length data))
      else
        bindR (u32_at data 0) (\<lambda>network_mask.
        bindR (u16_at data 4) (\<lambda>hello_interval.
        bindR (byte_at data 6) (\<lambda>options.
        bindR (byte_at data 7) (\<lambda>router_priority.
        bindR (u32_at data 8) (\<lambda>router_dead_interval.
        bindR (u32_at data 12) (\<lambda>designated_router.
        bindR (u32_at data 16) (\<lambda>backup_designated_router.
        bindR (slice_from data HELLO_MIN_LEN) (\<lambda>neighbor_data.
        bindR (parse_fixed 4 ipv4_parse neighbor_data 0) (\<lambda>neighbors.
        Ok \<lparr>hp_network_mask = network_mask, hp_hello_interval = hello_interval, hp_options = options,
            hp_router_priority = router_priority, hp_router_dead_interval = router_dead_interval,
            hp_designated_router = designated_router,
            hp_backup_designated_router = backup_designated_router,
            hp_neighbors = neighbors\<rparr>))))))))))"

definition hello_encode :: "HelloPacket \<Rightarrow> u8 list" where
  "hello_encode p =
     u32_be_bytes (hp_network_mask p) @ u16_be_bytes (hp_hello_interval p) @
     [hp_options p, hp_router_priority p] @ u32_be_bytes (hp_router_dead_interval p) @
     u32_be_bytes (hp_designated_router p) @ u32_be_bytes (hp_backup_designated_router p) @
     concat (map u32_be_bytes (hp_neighbors p))"

section \<open>Database Description\<close>

definition DD_FLAG_MS :: u8 where "DD_FLAG_MS = 0x01"
definition DD_FLAG_M :: u8 where "DD_FLAG_M = 0x02"
definition DD_FLAG_I :: u8 where "DD_FLAG_I = 0x04"

definition DD_MIN_LEN :: nat where
  "DD_MIN_LEN = 8"

record DbDescPacket =
  interface_mtu :: u16
  dd_options :: OspfOptions
  dd_flags :: u8
  dd_sequence_number :: u32
  lsa_headers :: "LsaHeader list"

definition dd_is_master :: "DbDescPacket \<Rightarrow> bool" where
  "dd_is_master p \<longleftrightarrow> dd_flags p AND DD_FLAG_MS \<noteq> 0"

definition dd_has_more :: "DbDescPacket \<Rightarrow> bool" where
  "dd_has_more p \<longleftrightarrow> dd_flags p AND DD_FLAG_M \<noteq> 0"

definition dd_is_init :: "DbDescPacket \<Rightarrow> bool" where
  "dd_is_init p \<longleftrightarrow> dd_flags p AND DD_FLAG_I \<noteq> 0"

definition dd_parse :: "u8 list \<Rightarrow> DbDescPacket parsed" where
  "dd_parse data =
     (if length data < DD_MIN_LEN then Err (TooShort DD_MIN_LEN (length data))
      else
        bindR (u16_at data 0) (\<lambda>mtu.
        bindR (byte_at data 2) (\<lambda>options.
        bindR (byte_at data 3) (\<lambda>flags.
        bindR (u32_at data 4) (\<lambda>sn.
        bindR (parse_fixed LSA_HEADER_LEN lsa_header_parse data DD_MIN_LEN) (\<lambda>hs.
        Ok \<lparr>interface_mtu = mtu, dd_options = options, dd_flags = flags,
            dd_sequence_number = sn, lsa_headers = hs\<rparr>))))))"

definition dd_encode :: "DbDescPacket \<Rightarrow> u8 list" where
  "dd_encode p =
     u16_be_bytes (interface_mtu p) @ [dd_options p, dd_flags p] @
     u32_be_bytes (dd_sequence_number p) @ concat (map lsa_header_encode (lsa_headers p))"

section \<open>Link State Request\<close>

record LsRequest =
  rq_ls_type :: LsaType
  rq_link_state_id :: ipv4
  rq_advertising_router :: ipv4

definition LS_REQUEST_ENTRY_LEN :: nat where
  "LS_REQUEST_ENTRY_LEN = 12"

definition ls_request_parse :: "u8 list \<Rightarrow> LsRequest parsed" where
  "ls_request_parse data =
     (if length data < LS_REQUEST_ENTRY_LEN then Err (TooShort LS_REQUEST_ENTRY_LEN (length data))
      else
        bindR (u32_at data 0) (\<lambda>v.
        bindR (ok_or (lsa_type_from_u8 (ucast v)) (BadLsaType (ucast v))) (\<lambda>t.
        bindR (u32_at data 4) (\<lambda>lsid.
        bindR (u32_at data 8) (\<lambda>adv.
        Ok \<lparr>rq_ls_type = t, rq_link_state_id = lsid, rq_advertising_router = adv\<rparr>)))))"

definition ls_request_encode :: "LsRequest \<Rightarrow> u8 list" where
  "ls_request_encode r =
     u32_be_bytes (ucast (lsa_type_to_u8 (rq_ls_type r))) @ u32_be_bytes (rq_link_state_id r) @
     u32_be_bytes (rq_advertising_router r)"

record LsRequestPacket =
  requests :: "LsRequest list"

definition lsr_parse :: "u8 list \<Rightarrow> LsRequestPacket parsed" where
  "lsr_parse data =
     bindR (parse_fixed LS_REQUEST_ENTRY_LEN ls_request_parse data 0) (\<lambda>rs. Ok \<lparr>requests = rs\<rparr>)"

definition lsr_encode :: "LsRequestPacket \<Rightarrow> u8 list" where
  "lsr_encode p = concat (map ls_request_encode (requests p))"

section \<open>Link State Update\<close>

record LsUpdatePacket =
  lsas :: "Lsa list"

text \<open>
  The loop \<^verbatim>\<open>for _ in 0..num_lsas\<close> with its \<^verbatim>\<open>break\<close> at the end of the buffer. The count comes from
  the wire and can be any 32-bit number.
\<close>

function lsu_lsas_parse :: "nat \<Rightarrow> u8 list \<Rightarrow> nat \<Rightarrow> Lsa list parsed" where
  "lsu_lsas_parse n data off =
     (if n = 0 \<or> length data \<le> off then Ok []
      else
        bindR (slice_from data off) (\<lambda>s.
        bindR (lsa_parse s) (\<lambda>l.
        bindR (lsu_lsas_parse (n - 1) data (off + lsa_wire_size l)) (\<lambda>ls. Ok (l # ls)))))"
  by pat_completeness auto
termination
  by (relation "measure (\<lambda>(n, data, off). n)") auto

declare lsu_lsas_parse.simps [simp del]

definition lsu_parse :: "u8 list \<Rightarrow> LsUpdatePacket parsed" where
  "lsu_parse data =
     (if length data < 4 then Err (TooShort 4 (length data))
      else
        bindR (u32_at data 0) (\<lambda>n.
        bindR (lsu_lsas_parse (unat n) data 4) (\<lambda>ls. Ok \<lparr>lsas = ls\<rparr>)))"

fun lsas_encode :: "Lsa list \<Rightarrow> u8 list parsed" where
  "lsas_encode [] = Ok []"
| "lsas_encode (l # ls) =
     bindR (lsa_encode l) (\<lambda>b. bindR (lsas_encode ls) (\<lambda>bs. Ok (b @ bs)))"

definition lsu_encode :: "LsUpdatePacket \<Rightarrow> u8 list parsed" where
  "lsu_encode p =
     bindR (lsas_encode (lsas p)) (\<lambda>bs. Ok (u32_be_bytes (word_of_nat (length (lsas p))) @ bs))"

section \<open>Round trips\<close>

interpretation request_codec: fixed_codec LS_REQUEST_ENTRY_LEN ls_request_encode ls_request_parse
proof (unfold_locales, goal_cases)
  case (3 x rest)
  define v :: u32 where "v = ucast (lsa_type_to_u8 (rq_ls_type x))"
  have "lsa_type_from_u8 (ucast v) = Some (rq_ls_type x)"
    unfolding v_def by (cases "rq_ls_type x") (simp_all add: lsa_type_from_u8_def)
  then show ?case
    unfolding ls_request_encode_def v_def [symmetric]
    by (simp add: LS_REQUEST_ENTRY_LEN_def ls_request_parse_def codec_eval)
next
  case (4 data)
  then show ?case
    by (auto simp: LS_REQUEST_ENTRY_LEN_def ls_request_parse_def in_bounds bindR_eq_Panic_iff)
qed (simp_all add: LS_REQUEST_ENTRY_LEN_def ls_request_encode_def)

lemma hello_round_trip: "hello_parse (hello_encode p) = Ok p"
proof -
  have "parse_fixed 4 ipv4_parse ([] @ concat (map u32_be_bytes (hp_neighbors p)) @ []) 0 =
      Ok (hp_neighbors p)"
    by (rule ipv4_codec.parse_fixed_round_trip) simp_all
  then have "parse_fixed 4 ipv4_parse (concat (map u32_be_bytes (hp_neighbors p))) 0 =
      Ok (hp_neighbors p)" by simp
  then obtain ns where "concat (map u32_be_bytes (hp_neighbors p)) = ns"
    and "parse_fixed 4 ipv4_parse ns 0 = Ok (hp_neighbors p)" by blast
  then show ?thesis
    unfolding hello_encode_def
    by (simp add: hello_parse_def codec_eval HELLO_MIN_LEN_def slice_from_def)
qed

lemma dd_round_trip: "dd_parse (dd_encode p) = Ok p"
proof -
  let ?pre = "u16_be_bytes (interface_mtu p) @ [dd_options p, dd_flags p] @
     u32_be_bytes (dd_sequence_number p)"
  have "parse_fixed LSA_HEADER_LEN lsa_header_parse
      (?pre @ concat (map lsa_header_encode (lsa_headers p)) @ []) 8 = Ok (lsa_headers p)"
    by (rule header_codec.parse_fixed_round_trip) (simp_all add: LSA_HEADER_LEN_def)
  then have hs: "parse_fixed LSA_HEADER_LEN lsa_header_parse (dd_encode p) 8 = Ok (lsa_headers p)"
    by (simp add: dd_encode_def)
  have "dd_encode p = ?pre @ concat (map lsa_header_encode (lsa_headers p))"
    by (simp add: dd_encode_def)
  then show ?thesis
    using hs by (cases p) (simp add: dd_parse_def read_defs be_bytes_defs DD_MIN_LEN_def)
qed

lemma lsr_round_trip: "lsr_parse (lsr_encode p) = Ok p"
proof -
  have "parse_fixed LS_REQUEST_ENTRY_LEN ls_request_parse
      ([] @ concat (map ls_request_encode (requests p)) @ []) 0 = Ok (requests p)"
    by (rule request_codec.parse_fixed_round_trip) (simp_all add: LS_REQUEST_ENTRY_LEN_def)
  then show ?thesis by (simp add: lsr_parse_def lsr_encode_def)
qed

lemma lsa_encode_Ok_length:
  "lsa_encode l = Ok buf \<Longrightarrow> length buf = lsa_wire_size (lsa_finalize l) \<and> 20 \<le> length buf"
  by (auto simp: lsa_encode_eq lsa_wire_size_def unat_of_nat split: if_splits simp del: of_nat_add)

lemma lsu_lsas_round_trip:
  assumes "lsas_encode ls = Ok buf" and "\<forall>l \<in> set ls. wf_body (ls_type (header l)) (body l)"
    and "off = length pre"
  shows "lsu_lsas_parse (length ls) (pre @ buf) off = Ok (map lsa_finalize ls)"
  using assms
proof (induction ls arbitrary: buf pre off)
  case Nil
  then show ?case by (simp add: lsu_lsas_parse.simps)
next
  case (Cons l ls)
  from Cons.prems(1) obtain b bs where b: "lsa_encode l = Ok b" and bs: "lsas_encode ls = Ok bs"
    and buf: "buf = b @ bs"
    by (auto simp: bindR_eq_Ok_iff)
  have len: "lsa_wire_size (lsa_finalize l) = length b" "20 \<le> length b"
    using lsa_encode_Ok_length [OF b] by simp_all
  have p: "lsa_parse (b @ bs) = Ok (lsa_finalize l)"
    using Cons.prems(2) b by (intro lsa_parse_encoded) simp_all
  have "lsu_lsas_parse (length ls) ((pre @ b) @ bs) (off + length b) = Ok (map lsa_finalize ls)"
    using Cons.prems by (intro Cons.IH bs) simp_all
  then show ?case
    using Cons.prems(3) len p by (subst lsu_lsas_parse.simps) (auto simp: buf slice_from_def)
qed

lemma lsu_round_trip:
  assumes "lsu_encode p = Ok buf" and "\<forall>l \<in> set (lsas p). wf_body (ls_type (header l)) (body l)"
    and "length (lsas p) < 2 ^ 32"
  shows "lsu_parse buf = Ok \<lparr>lsas = map lsa_finalize (lsas p)\<rparr>"
proof -
  let ?n = "word_of_nat (length (lsas p)) :: u32"
  from assms(1) obtain bs where bs: "lsas_encode (lsas p) = Ok bs" and buf: "buf = u32_be_bytes ?n @ bs"
    by (auto simp: lsu_encode_def bindR_eq_Ok_iff)
  have n: "unat ?n = length (lsas p)" using assms(3) by (simp add: unat_of_nat)
  have "lsu_lsas_parse (length (lsas p)) (u32_be_bytes ?n @ bs) 4 = Ok (map lsa_finalize (lsas p))"
    by (rule lsu_lsas_round_trip [OF bs assms(2)]) simp
  then show ?thesis
    by (simp add: lsu_parse_def buf u32_at_be_bytes n)
qed

section \<open>Parsing untrusted bytes\<close>

lemma hello_no_panic: "hello_parse data \<noteq> Panic"
  by (auto simp: hello_parse_def HELLO_MIN_LEN_def in_bounds bindR_eq_Panic_iff ipv4_codec.run_no_panic)

lemma dd_no_panic: "dd_parse data \<noteq> Panic"
  by (auto simp: dd_parse_def DD_MIN_LEN_def in_bounds bindR_eq_Panic_iff header_codec.run_no_panic)

lemma lsr_no_panic: "lsr_parse data \<noteq> Panic"
  by (simp add: lsr_parse_def bindR_eq_Panic_iff request_codec.run_no_panic)

lemma lsu_lsas_no_panic: "lsu_lsas_parse n data off \<noteq> Panic"
proof (induction n data off rule: lsu_lsas_parse.induct)
  case (1 n data off)
  then show ?case
    by (subst lsu_lsas_parse.simps) (auto simp: bindR_eq_Panic_iff slice_from_def lsa_no_panic)
qed

lemma lsu_no_panic: "lsu_parse data \<noteq> Panic"
  by (auto simp: lsu_parse_def in_bounds bindR_eq_Panic_iff lsu_lsas_no_panic)

text \<open>However large the count on the wire, the LSAs returned fit into the buffer.\<close>

text \<open>
  The number of LSAs a Link State Update yields is bounded by its declared count and by the
  bytes present, twenty per LSA, whatever count the sender declared.
\<close>

theorem lsu_lsas_bounded:
  "lsu_lsas_parse n data off = Ok ls \<Longrightarrow> 20 * length ls \<le> length data - off \<and> length ls \<le> n"
proof (induction n data off arbitrary: ls rule: lsu_lsas_parse.induct)
  case (1 n data off)
  show ?case
  proof (cases "n = 0 \<or> length data \<le> off")
    case True
    with "1.prems" show ?thesis by (subst (asm) lsu_lsas_parse.simps) auto
  next
    case False
    with "1.prems" obtain l ms where l: "lsa_parse (drop off data) = Ok l"
      and ms: "lsu_lsas_parse (n - 1) data (off + lsa_wire_size l) = Ok ms" and ls: "ls = l # ms"
      by (subst (asm) lsu_lsas_parse.simps) (auto simp: bindR_eq_Ok_iff slice_from_def)
    have "20 * length ms \<le> length data - (off + lsa_wire_size l) \<and> length ms \<le> n - 1"
      using False l ms by (intro "1.IH") (auto simp: slice_from_def)
    moreover have "20 \<le> lsa_wire_size l" "20 \<le> length data - off"
      using l by (auto dest: lsa_parse_wire_size lsa_parse_Ok_length)
    ultimately show ?thesis using False ls by auto
  qed
qed

theorem lsu_lsas_bounded_witness:
  "\<exists>ls. lsu_lsas_parse 4294967295 (u32_be_bytes 0xFFFFFFFF) 4 = Ok ls \<and> length ls = 0"
  using lsu_lsas_bounded [of 4294967295 "u32_be_bytes 0xFFFFFFFF" 4] by (simp add: lsu_lsas_parse.simps)

end
