(* ===== verification/Packet_Codec.thy ===== *)
theory Packet_Codec
  imports Packet_Bodies
begin

text \<open>
  \<^verbatim>\<open>src/packet/mod.rs\<close>: the 24-byte OSPF header, the packet as header and body, its encoder with the
  length and checksum fix-ups, and its parser. The theorems: encoding a packet and parsing the result
  gives the packet back (with length and checksum filled in), the checksum written verifies, and
  parsing arbitrary bytes never panics.
\<close>

section \<open>The header\<close>

datatype OspfPacketType =
  PT_Hello | PT_DatabaseDescription | PT_LinkStateRequest | PT_LinkStateUpdate | PT_LinkStateAck

definition packet_type_from_u8 :: "u8 \<Rightarrow> OspfPacketType option" where
  "packet_type_from_u8 v =
     (if v = 1 then Some PT_Hello
      else if v = 2 then Some PT_DatabaseDescription
      else if v = 3 then Some PT_LinkStateRequest
      else if v = 4 then Some PT_LinkStateUpdate
      else if v = 5 then Some PT_LinkStateAck
      else None)"

fun packet_type_to_u8 :: "OspfPacketType \<Rightarrow> u8" where
  "packet_type_to_u8 PT_Hello = 1"
| "packet_type_to_u8 PT_DatabaseDescription = 2"
| "packet_type_to_u8 PT_LinkStateRequest = 3"
| "packet_type_to_u8 PT_LinkStateUpdate = 4"
| "packet_type_to_u8 PT_LinkStateAck = 5"

definition OSPF_HEADER_LEN :: nat where
  "OSPF_HEADER_LEN = 24"

definition OSPF_VERSION :: u8 where
  "OSPF_VERSION = 2"

definition ALL_SPF_ROUTERS :: ipv4 where
  "ALL_SPF_ROUTERS = u32_of_be 224 0 0 5"

definition ALL_DR_ROUTERS :: ipv4 where
  "ALL_DR_ROUTERS = u32_of_be 224 0 0 6"

text \<open>The array \<^verbatim>\<open>[u8; 8]\<close> of the authentication field is a list; \<open>wf_header\<close> states its length.\<close>

record OspfHeader =
  oh_version :: u8
  packet_type :: OspfPacketType
  packet_length :: u16
  oh_router_id :: ipv4
  oh_area_id :: ipv4
  oh_checksum :: u16
  au_type :: u16
  authentication :: "u8 list"

definition wf_header :: "OspfHeader \<Rightarrow> bool" where
  "wf_header h \<longleftrightarrow> oh_version h = OSPF_VERSION \<and> length (authentication h) = 8"

definition ospf_header_parse :: "u8 list \<Rightarrow> OspfHeader parsed" where
  "ospf_header_parse data =
     (if length data < OSPF_HEADER_LEN then Err (TooShort OSPF_HEADER_LEN (length data))
      else
        bindR (byte_at data 0) (\<lambda>version.
        if version \<noteq> OSPF_VERSION then Err (BadVersion version)
        else
          bindR (byte_at data 1) (\<lambda>t.
          bindR (ok_or (packet_type_from_u8 t) (BadPacketType t)) (\<lambda>ptype.
          bindR (u16_at data 2) (\<lambda>plen.
          bindR (u32_at data 4) (\<lambda>rid.
          bindR (u32_at data 8) (\<lambda>aid.
          bindR (u16_at data 12) (\<lambda>cks.
          bindR (u16_at data 14) (\<lambda>au.
          bindR (slice data 16 24) (\<lambda>auth.
          Ok \<lparr>oh_version = version, packet_type = ptype, packet_length = plen,
              oh_router_id = rid, oh_area_id = aid, oh_checksum = cks,
              au_type = au, authentication = auth\<rparr>))))))))))"

definition ospf_header_encode :: "OspfHeader \<Rightarrow> u8 list" where
  "ospf_header_encode h =
     [oh_version h, packet_type_to_u8 (packet_type h)] @ u16_be_bytes (packet_length h) @
     u32_be_bytes (oh_router_id h) @ u32_be_bytes (oh_area_id h) @ u16_be_bytes (oh_checksum h) @
     u16_be_bytes (au_type h) @ authentication h"

definition ospf_header_new :: "OspfPacketType \<Rightarrow> ipv4 \<Rightarrow> ipv4 \<Rightarrow> OspfHeader" where
  "ospf_header_new ptype rid aid =
     \<lparr>oh_version = OSPF_VERSION, packet_type = ptype, packet_length = 0, oh_router_id = rid,
      oh_area_id = aid, oh_checksum = 0, au_type = 0, authentication = replicate 8 0\<rparr>"

section \<open>The packet checksum\<close>

text \<open>\<^verbatim>\<open>packet[a..b].copy_from_slice(xs)\<close> with \<^verbatim>\<open>b = a + xs.len()\<close>, inside the buffer.\<close>

definition write_at :: "nat \<Rightarrow> u8 list \<Rightarrow> u8 list \<Rightarrow> u8 list" where
  "write_at a xs buf = take a buf @ xs @ drop (a + length xs) buf"

definition set_ospf_checksum :: "u8 list \<Rightarrow> u8 list" where
  "set_ospf_checksum packet =
     (if length packet < OSPF_HEADER_LEN then packet
      else
        (let p = packet[12 := 0, 13 := 0];
             auth_save = take 8 (drop 16 p);
             p = write_at 16 (replicate 8 0) p;
             cksum = ip_checksum p;
             p = p[12 := ucast (drop_bit 8 cksum), 13 := ucast (cksum AND 0xFF)]
         in write_at 16 auth_save p))"

definition verify_ospf_checksum :: "u8 list \<Rightarrow> bool" where
  "verify_ospf_checksum packet \<longleftrightarrow>
     (if length packet < OSPF_HEADER_LEN then False
      else ip_checksum (write_at 16 (replicate 8 0) packet) = 0)"

section \<open>The packet\<close>

datatype OspfPacket =
    Hello OspfHeader HelloPacket
  | DatabaseDescription OspfHeader DbDescPacket
  | LinkStateRequest OspfHeader LsRequestPacket
  | LinkStateUpdate OspfHeader LsUpdatePacket
  | LinkStateAck OspfHeader LsAckPacket

definition packet_parse :: "u8 list \<Rightarrow> OspfPacket parsed" where
  "packet_parse data =
     bindR (ospf_header_parse data) (\<lambda>h.
     bindR (slice_from data OSPF_HEADER_LEN) (\<lambda>d.
     (case packet_type h of
        PT_Hello \<Rightarrow> bindR (hello_parse d) (\<lambda>p. Ok (Hello h p))
      | PT_DatabaseDescription \<Rightarrow> bindR (dd_parse d) (\<lambda>p. Ok (DatabaseDescription h p))
      | PT_LinkStateRequest \<Rightarrow> bindR (lsr_parse d) (\<lambda>p. Ok (LinkStateRequest h p))
      | PT_LinkStateUpdate \<Rightarrow> bindR (lsu_parse d) (\<lambda>p. Ok (LinkStateUpdate h p))
      | PT_LinkStateAck \<Rightarrow> bindR (ls_ack_parse d) (\<lambda>p. Ok (LinkStateAck h p)))))"

fun packet_header :: "OspfPacket \<Rightarrow> OspfHeader" where
  "packet_header (Hello h _) = h"
| "packet_header (DatabaseDescription h _) = h"
| "packet_header (LinkStateRequest h _) = h"
| "packet_header (LinkStateUpdate h _) = h"
| "packet_header (LinkStateAck h _) = h"

text \<open>The closure \<^verbatim>\<open>body_fn\<close> of the encoder. Only the LSU body can panic (in \<^const>\<open>lsa_encode\<close>).\<close>

fun packet_body_encode :: "OspfPacket \<Rightarrow> u8 list parsed" where
  "packet_body_encode (Hello _ p) = Ok (hello_encode p)"
| "packet_body_encode (DatabaseDescription _ p) = Ok (dd_encode p)"
| "packet_body_encode (LinkStateRequest _ p) = Ok (lsr_encode p)"
| "packet_body_encode (LinkStateUpdate _ p) = lsu_encode p"
| "packet_body_encode (LinkStateAck _ p) = Ok (ls_ack_encode p)"

definition packet_encode :: "OspfPacket \<Rightarrow> u8 list parsed" where
  "packet_encode p =
     bindR (packet_body_encode p) (\<lambda>b.
       let hdr = (packet_header p)\<lparr>oh_checksum := 0\<rparr>;
           buf = ospf_header_encode hdr @ b;
           pkt_len = (word_of_nat (length buf) :: u16);
           buf = buf[2 := ucast (drop_bit 8 pkt_len), 3 := ucast (pkt_len AND 0xFF)]
       in Ok (set_ospf_checksum buf))"

section \<open>Round trip\<close>

lemma packet_type_round_trip [simp]: "packet_type_from_u8 (packet_type_to_u8 t) = Some t"
  by (cases t) (simp_all add: packet_type_from_u8_def)

lemma length_ospf_header_encode [simp]: "length (ospf_header_encode h) = 16 + length (authentication h)"
  by (simp add: ospf_header_encode_def)

lemma length_8_eq: "length xs = 8 \<longleftrightarrow> (\<exists>a b c d e f g h. xs = [a, b, c, d, e, f, g, h])"
  by (auto simp: length_Suc_conv numeral_eq_Suc)

lemma ospf_header_round_trip:
  "wf_header h \<Longrightarrow> ospf_header_parse (ospf_header_encode h @ rest) = Ok h"
  by (cases h) (auto simp: wf_header_def ospf_header_parse_def ospf_header_encode_def codec_eval
      OSPF_HEADER_LEN_def slice_def length_8_eq)

text \<open>The packet with which \<^const>\<open>packet_encode\<close> ends: length and checksum set, LSAs finalised.\<close>

definition checksum_of :: "OspfHeader \<Rightarrow> u8 list \<Rightarrow> u16" where
  "checksum_of h b = ip_checksum (ospf_header_encode (h\<lparr>oh_checksum := 0, authentication := replicate 8 0\<rparr>) @ b)"

definition header_finalize :: "OspfHeader \<Rightarrow> u8 list \<Rightarrow> OspfHeader" where
  "header_finalize h b =
     (let h = h\<lparr>packet_length := word_of_nat (24 + length b)\<rparr> in h\<lparr>oh_checksum := checksum_of h b\<rparr>)"

fun packet_finalize :: "u8 list \<Rightarrow> OspfPacket \<Rightarrow> OspfPacket" where
  "packet_finalize b (Hello h p) = Hello (header_finalize h b) p"
| "packet_finalize b (DatabaseDescription h p) = DatabaseDescription (header_finalize h b) p"
| "packet_finalize b (LinkStateRequest h p) = LinkStateRequest (header_finalize h b) p"
| "packet_finalize b (LinkStateUpdate h p) =
     LinkStateUpdate (header_finalize h b) \<lparr>lsas = map lsa_finalize (lsas p)\<rparr>"
| "packet_finalize b (LinkStateAck h p) = LinkStateAck (header_finalize h b) p"

lemma set_packet_length:
  "(ospf_header_encode h @ b)[2 := ucast (drop_bit 8 len), 3 := ucast (len AND 0xFF)] =
   ospf_header_encode (h\<lparr>packet_length := len\<rparr>) @ b"
  unfolding low_octet by (simp add: ospf_header_encode_def u16_be_bytes_def)

lemma set_ospf_checksum_encode:
  assumes "length (authentication h) = 8"
  shows "set_ospf_checksum (ospf_header_encode h @ b) =
    ospf_header_encode (h\<lparr>oh_checksum := checksum_of h b\<rparr>) @ b"
  using assms unfolding length_8_eq
  by (cases h) (auto simp: set_ospf_checksum_def Let_def low_octet OSPF_HEADER_LEN_def write_at_def
      checksum_of_def ospf_header_encode_def be_bytes_defs numeral_eq_Suc)

lemma packet_encode_eq:
  assumes "length (authentication (packet_header p)) = 8"
  shows "packet_encode p =
    bindR (packet_body_encode p) (\<lambda>b. Ok (ospf_header_encode (header_finalize (packet_header p) b) @ b))"
proof -
  let ?h = "packet_header p"
  have "set_ospf_checksum
      (ospf_header_encode (?h\<lparr>oh_checksum := 0, packet_length := word_of_nat (24 + length b)\<rparr>) @ b) =
      ospf_header_encode (header_finalize ?h b) @ b" for b
    using assms
    by (subst set_ospf_checksum_encode) (simp_all add: header_finalize_def checksum_of_def Let_def)
  with assms show ?thesis
    unfolding packet_encode_def Let_def set_packet_length by simp
qed

lemma wf_header_finalize: "wf_header h \<Longrightarrow> wf_header (header_finalize h b)"
  by (simp add: wf_header_def header_finalize_def Let_def)

lemma packet_type_header_finalize [simp]: "packet_type (header_finalize h b) = packet_type h"
  by (simp add: header_finalize_def Let_def)

text \<open>The header names the body's type, and LSAs are encodable without loss.\<close>

fun wf_packet :: "OspfPacket \<Rightarrow> bool" where
  "wf_packet (Hello h p) \<longleftrightarrow> wf_header h \<and> packet_type h = PT_Hello"
| "wf_packet (DatabaseDescription h p) \<longleftrightarrow> wf_header h \<and> packet_type h = PT_DatabaseDescription"
| "wf_packet (LinkStateRequest h p) \<longleftrightarrow> wf_header h \<and> packet_type h = PT_LinkStateRequest"
| "wf_packet (LinkStateUpdate h p) \<longleftrightarrow> wf_header h \<and> packet_type h = PT_LinkStateUpdate \<and>
     length (lsas p) < 2 ^ 32 \<and> (\<forall>l \<in> set (lsas p). wf_body (ls_type (header l)) (body l))"
| "wf_packet (LinkStateAck h p) \<longleftrightarrow> wf_header h \<and> packet_type h = PT_LinkStateAck"

lemma wf_packet_header: "wf_packet p \<Longrightarrow> wf_header (packet_header p)"
  by (cases p) auto

lemma packet_parse_encoded:
  assumes "wf_packet p" and "packet_encode p = Ok buf"
  shows "packet_parse buf = Ok (packet_finalize (drop OSPF_HEADER_LEN buf) p)"
proof -
  have wfh: "wf_header (packet_header p)" using assms(1) by (rule wf_packet_header)
  with assms(2) obtain b where b: "packet_body_encode p = Ok b"
    and buf: "buf = ospf_header_encode (header_finalize (packet_header p) b) @ b"
    by (auto simp: packet_encode_eq wf_header_def bindR_eq_Ok_iff)
  let ?h = "header_finalize (packet_header p) b"
  have wf: "wf_header ?h" using wfh by (rule wf_header_finalize)
  have "ospf_header_parse buf = Ok ?h"
    unfolding buf by (rule ospf_header_round_trip [OF wf])
  moreover have d: "drop OSPF_HEADER_LEN buf = b" and "slice_from buf OSPF_HEADER_LEN = (Ok b :: u8 list parsed)"
    using wf by (simp_all add: buf slice_from_def OSPF_HEADER_LEN_def wf_header_def)
  ultimately show ?thesis
    unfolding d using assms(1) b
    by (cases p) (auto simp: packet_parse_def hello_round_trip dd_round_trip lsr_round_trip
        lsu_round_trip ls_ack_round_trip)
qed

text \<open>
  C1. Encoding a packet and parsing the bytes gives the packet back, with the header's length and
  checksum (and those of every LSA of an update) set to the values the encoder computes.
\<close>

theorem packet_round_trip:
  assumes "wf_packet p" and "packet_encode p = Ok buf"
  shows "packet_parse buf = Ok (packet_finalize (drop OSPF_HEADER_LEN buf) p)"
  by (rule packet_parse_encoded [OF assms])

section \<open>The checksum written verifies\<close>

text \<open>
  The checksum the encoder writes is accepted by the verifier, for every packet of at most
  131072 bytes (an IP datagram holds at most 65535).
\<close>

theorem packet_checksum_verifies:
  assumes "wf_header (packet_header p)" and "packet_encode p = Ok buf" and "length buf \<le> 131072"
  shows "verify_ospf_checksum buf"
proof -
  let ?h = "packet_header p"
  obtain b where b: "buf = ospf_header_encode (header_finalize ?h b) @ b"
    using assms(1,2) by (auto simp: packet_encode_eq wf_header_def bindR_eq_Ok_iff)
  define h where "h = ?h\<lparr>packet_length := word_of_nat (24 + length b)\<rparr>"
  let ?pre = "[oh_version h, packet_type_to_u8 (packet_type h)] @ u16_be_bytes (packet_length h) @
     u32_be_bytes (oh_router_id h) @ u32_be_bytes (oh_area_id h)"
  let ?post = "u16_be_bytes (au_type h) @ replicate 8 0 @ b"
  have hf: "header_finalize ?h b = h\<lparr>oh_checksum := checksum_of h b\<rparr>"
    by (simp add: header_finalize_def h_def Let_def)
  have auth: "length (authentication h) = 8" using assms(1) by (simp add: h_def wf_header_def)
  have "checksum_of h b = ip_checksum (?pre @ [0, 0] @ ?post)"
    by (simp add: checksum_of_def ospf_header_encode_def u16_be_bytes_def [of 0])
  moreover have "write_at 16 (replicate 8 0) buf = ?pre @ u16_be_bytes (checksum_of h b) @ ?post"
    using auth by (simp add: b hf write_at_def ospf_header_encode_def)
  moreover have "length ?pre + length ?post + 2 \<le> 131072"
    using assms(3) auth by (simp add: b hf)
  ultimately show ?thesis
    using ip_checksum_fill_verifies [of ?pre ?post] auth
    by (simp add: verify_ospf_checksum_def ip_checksum_verify_def b hf OSPF_HEADER_LEN_def)
qed

section \<open>Parsing untrusted bytes\<close>

lemma ospf_header_no_panic: "ospf_header_parse data \<noteq> Panic"
  by (auto simp: ospf_header_parse_def OSPF_HEADER_LEN_def in_bounds bindR_eq_Panic_iff split: if_splits)

lemma ospf_header_parse_Ok_length: "ospf_header_parse data = Ok h \<Longrightarrow> OSPF_HEADER_LEN \<le> length data"
  by (auto simp: ospf_header_parse_def split: if_splits)

text \<open>
  C2. Parsing never panics: for every byte sequence the parser returns a packet or an error.
\<close>

theorem packet_no_panic: "packet_parse data \<noteq> Panic"
  by (auto simp: packet_parse_def bindR_eq_Panic_iff ospf_header_no_panic slice_from_def
      hello_no_panic dd_no_panic lsr_no_panic lsu_no_panic ls_ack_no_panic
      dest: ospf_header_parse_Ok_length split: OspfPacketType.splits if_splits)

section \<open>Concrete packets\<close>

definition example_lsa :: Lsa where
  "example_lsa =
     \<lparr>header = \<lparr>ls_age = 1, h_options = 2, ls_type = Network, link_state_id = 0x0A000001,
        advertising_router = 0x01010101, ls_sequence_number = INITIAL_SEQUENCE_NUMBER,
        ls_checksum = 0, h_length = 0\<rparr>,
      body = BNetwork \<lparr>n_network_mask = 0xFFFFFF00, attached_routers = [0x01010101, 0x02020202]\<rparr>\<rparr>"

definition example_lsu :: OspfPacket where
  "example_lsu = LinkStateUpdate (ospf_header_new PT_LinkStateUpdate 0x01010101 0) \<lparr>lsas = [example_lsa]\<rparr>"

lemma wf_example_lsu [simp]: "wf_packet example_lsu"
  by (simp add: example_lsu_def example_lsa_def ospf_header_new_def wf_header_def)

lemma lsa_encode_example: "\<exists>buf. lsa_encode example_lsa = Ok buf \<and> length buf = 32"
  by (simp add: lsa_encode_eq example_lsa_def network_lsa_encode_def)

lemma packet_encode_example: "\<exists>buf. packet_encode example_lsu = Ok buf \<and> length buf = 60"
proof -
  obtain b where "lsa_encode example_lsa = Ok b" "length b = 32" using lsa_encode_example by blast
  then have "packet_body_encode example_lsu = Ok (u32_be_bytes 1 @ b)" "length (u32_be_bytes 1 @ b) = 36"
    by (simp_all add: example_lsu_def lsu_encode_def)
  then show ?thesis
    by (subst packet_encode_eq)
      (simp_all add: example_lsu_def ospf_header_new_def header_finalize_def Let_def)
qed

theorem packet_round_trip_witness:
  "\<exists>buf. wf_packet example_lsu \<and> packet_encode example_lsu = Ok buf \<and>
     packet_parse buf = Ok (packet_finalize (drop OSPF_HEADER_LEN buf) example_lsu)"
  using packet_round_trip [OF wf_example_lsu] packet_encode_example wf_example_lsu by blast

theorem packet_checksum_verifies_witness:
  "\<exists>buf. packet_encode example_lsu = Ok buf \<and> length buf = 60 \<and> verify_ospf_checksum buf"
  using packet_checksum_verifies [of example_lsu, OF wf_packet_header [OF wf_example_lsu]]
    packet_encode_example by fastforce

end
