(* ===== verification/Lsdb.thy ===== *)
theory Lsdb
  imports Packet_Codec
begin

text \<open>
  \<^verbatim>\<open>src/lsdb.rs\<close> and \<^verbatim>\<open>src/area.rs\<close>: the link-state database. Its entries are a hash map from LSA keys
  to LSAs with the instant of installation. The theorems: the well-formedness of the database is kept
  by every operation, installation keeps the freshest instance and, for copies of like age, does not depend
  on the order of arrival, ageing is bounded, and origination moves past the instance it replaces.
\<close>

section \<open>Entries\<close>

record LsdbEntry =
  entry_lsa :: Lsa
  installed_at :: instant
  self_originated :: bool

definition LS_REFRESH_TIME :: u16 where
  "LS_REFRESH_TIME = 1800"

text \<open>\<^verbatim>\<open>elapsed().as_secs() as u16\<close> keeps the low 16 bits; \<^verbatim>\<open>saturating_add\<close> stops at 65535.\<close>

definition u16_saturating_add :: "u16 \<Rightarrow> u16 \<Rightarrow> u16" where
  "u16_saturating_add a b = (if unat a + unat b > 65535 then 65535 else a + b)"

definition current_age :: "instant \<Rightarrow> LsdbEntry \<Rightarrow> u16" where
  "current_age now e =
     (let elapsed = word_of_nat (saturating_duration_since now (installed_at e) div 1000);
          age = u16_saturating_add (ls_age (header (entry_lsa e))) elapsed
      in min age MAX_AGE)"

definition is_max_age :: "instant \<Rightarrow> LsdbEntry \<Rightarrow> bool" where
  "is_max_age now e \<longleftrightarrow> current_age now e \<ge> MAX_AGE"

definition needs_refresh :: "instant \<Rightarrow> LsdbEntry \<Rightarrow> bool" where
  "needs_refresh now e \<longleftrightarrow> self_originated e \<and> current_age now e \<ge> LS_REFRESH_TIME"

section \<open>The database\<close>

record Lsdb =
  entries :: "(LsaKey \<times> LsdbEntry) list"
  lsdb_router_id :: ipv4

datatype InstallResult = New | Updated | Duplicate | Older

fun install_changed :: "InstallResult \<Rightarrow> bool" where
  "install_changed New = True"
| "install_changed Updated = True"
| "install_changed Duplicate = False"
| "install_changed Older = False"

definition lsdb_new :: "ipv4 \<Rightarrow> Lsdb" where
  "lsdb_new rid = \<lparr>entries = [], lsdb_router_id = rid\<rparr>"

definition lsdb_get :: "Lsdb \<Rightarrow> LsaKey \<Rightarrow> LsdbEntry option" where
  "lsdb_get db k = map_of (entries db) k"

definition with_seq :: "i32 \<Rightarrow> Lsa \<Rightarrow> Lsa" where
  "with_seq s l = l\<lparr>header := (header l)\<lparr>ls_sequence_number := s\<rparr>\<rparr>"

definition with_age :: "u16 \<Rightarrow> Lsa \<Rightarrow> Lsa" where
  "with_age a l = l\<lparr>header := (header l)\<lparr>ls_age := a\<rparr>\<rparr>"

definition bump_seq :: "LsaKey \<Rightarrow> i32 \<Rightarrow> Lsdb \<Rightarrow> bool \<times> Lsdb" where
  "bump_seq k new_seq db =
     (case lsdb_get db k of
        Some e \<Rightarrow>
          if sint (ls_sequence_number (header (entry_lsa e))) < sint new_seq then
            (True, db\<lparr>entries := AList.update k (e\<lparr>entry_lsa := with_seq new_seq (entry_lsa e)\<rparr>) (entries db)\<rparr>)
          else (False, db)
      | None \<Rightarrow> (False, db))"

definition all_headers :: "instant \<Rightarrow> Lsdb \<Rightarrow> LsaHeader list" where
  "all_headers now db =
     map (\<lambda>e. (header (entry_lsa e))\<lparr>ls_age := current_age now e\<rparr>)
       (filter (\<lambda>e. \<not> is_max_age now e) (map snd (entries db)))"

definition new_entry :: "instant \<Rightarrow> Lsdb \<Rightarrow> Lsa \<Rightarrow> LsdbEntry" where
  "new_entry now db l =
     \<lparr>entry_lsa = l, installed_at = now,
      self_originated = (advertising_router (header l) = lsdb_router_id db)\<rparr>"

definition lsdb_install :: "instant \<Rightarrow> Lsa \<Rightarrow> Lsdb \<Rightarrow> InstallResult \<times> Lsdb" where
  "lsdb_install now l db =
     (let k = lsa_key l;
          db' = db\<lparr>entries := AList.update k (new_entry now db l) (entries db)\<rparr>
      in case lsdb_get db k of
           Some existing \<Rightarrow>
             (case is_more_recent_than (header l) (header (entry_lsa existing)) of
                Greater \<Rightarrow> (Updated, db')
              | Equal \<Rightarrow> (Duplicate, db)
              | Less \<Rightarrow> (Older, db))
         | None \<Rightarrow> (New, db'))"

definition lsdb_remove :: "LsaKey \<Rightarrow> Lsdb \<Rightarrow> LsdbEntry option \<times> Lsdb" where
  "lsdb_remove k db = (lsdb_get db k, db\<lparr>entries := AList.delete k (entries db)\<rparr>)"

definition flush_max_age :: "instant \<Rightarrow> Lsdb \<Rightarrow> LsaKey list \<times> Lsdb" where
  "flush_max_age now db =
     (let max_age_keys = map fst (filter (\<lambda>(_, e). is_max_age now e) (entries db))
      in (max_age_keys, db\<lparr>entries := fold AList.delete max_age_keys (entries db)\<rparr>))"

definition self_originated_due_for_refresh :: "instant \<Rightarrow> Lsdb \<Rightarrow> LsaKey list" where
  "self_originated_due_for_refresh now db =
     map fst (filter (\<lambda>(_, e). needs_refresh now e) (entries db))"

definition as_lsa_map :: "instant \<Rightarrow> Lsdb \<Rightarrow> (LsaKey \<times> Lsa) list" where
  "as_lsa_map now db =
     map (\<lambda>(k, e). (k, with_age (current_age now e) (entry_lsa e)))
       (filter (\<lambda>(_, e). \<not> is_max_age now e) (entries db))"

text \<open>\<^verbatim>\<open>expect\<close> on a parse result, and \<^verbatim>\<open>Lsa::parse(&lsa.encode()).expect(..)\<close>.\<close>

fun expect :: "('e, 'a) outcome \<Rightarrow> ('e, 'a) outcome" where
  "expect (Ok x) = Ok x"
| "expect (Err _) = Panic"
| "expect Panic = Panic"

definition lsa_reparse :: "Lsa \<Rightarrow> Lsa parsed" where
  "lsa_reparse l = bindR (lsa_encode l) (\<lambda>b. expect (lsa_parse b))"

definition next_seq :: "Lsdb \<Rightarrow> LsaKey \<Rightarrow> i32" where
  "next_seq db k =
     (case lsdb_get db k of
        Some e \<Rightarrow> ls_sequence_number (header (entry_lsa e)) + 1
      | None \<Rightarrow> INITIAL_SEQUENCE_NUMBER)"

definition originate_router_lsa ::
  "instant \<Rightarrow> ipv4 \<Rightarrow> u8 \<Rightarrow> RouterLink list \<Rightarrow> u8 \<Rightarrow> Lsdb \<Rightarrow> (Lsa \<times> Lsdb) parsed" where
  "originate_router_lsa now rid flags links options db =
     (let k = \<lparr>key_type = Router, key_lsid = rid, key_adv = rid\<rparr>;
          seq = next_seq db k;
          b = \<lparr>r_flags = flags, r_links = links\<rparr>;
          len = word_of_nat (LSA_HEADER_LEN + length (router_lsa_encode b));
          l = \<lparr>header = \<lparr>ls_age = 0, h_options = options, ls_type = Router, link_state_id = rid,
                 advertising_router = rid, ls_sequence_number = seq, ls_checksum = 0, h_length = len\<rparr>,
               body = BRouter b\<rparr>
      in bindR (lsa_reparse l) (\<lambda>l'. Ok (l', snd (lsdb_install now l' db))))"

section \<open>Areas\<close>

datatype AreaType = Normal | Stub | Nssa

record Area =
  area_id :: ipv4
  area_type :: AreaType
  default_cost :: u32
  lsdb :: Lsdb

definition area_new :: "ipv4 \<Rightarrow> AreaType \<Rightarrow> ipv4 \<Rightarrow> Area" where
  "area_new aid ty rid = \<lparr>area_id = aid, area_type = ty, default_cost = 1, lsdb = lsdb_new rid\<rparr>"

definition is_backbone :: "Area \<Rightarrow> bool" where
  "is_backbone a \<longleftrightarrow> area_id a = UNSPECIFIED"

definition accepts_as_external :: "Area \<Rightarrow> bool" where
  "accepts_as_external a \<longleftrightarrow> area_type a = Normal"

section \<open>Ageing\<close>

lemma unat_u16_saturating_add: "unat (u16_saturating_add a b) = min 65535 (unat a + unat b)"
  by (auto simp: u16_saturating_add_def unat_add_small min_def)

lemma unat_MAX_AGE [simp]: "unat MAX_AGE = 3600"
  by (simp add: MAX_AGE_def)

lemma unat_min: "unat (min a b :: 'a :: len word) = min (unat a) (unat b)"
  by (simp add: min_def word_le_nat_alt)

lemma unat_current_age:
  "unat (current_age now e) =
     min 3600 (unat (ls_age (header (entry_lsa e))) +
       saturating_duration_since now (installed_at e) div 1000 mod 65536)"
  unfolding current_age_def Let_def unat_min unat_u16_saturating_add unat_MAX_AGE
  by (simp add: unat_of_nat min_def)

lemma current_age_le: "current_age now e \<le> MAX_AGE"
  by (simp add: word_le_nat_alt unat_current_age)

lemma is_max_age_iff: "is_max_age now e \<longleftrightarrow> current_age now e = MAX_AGE"
  using current_age_le [of now e] by (auto simp: is_max_age_def)

section \<open>Freshness\<close>

text \<open>The comparison is antisymmetric: swapping the operands reverses the answer.\<close>

lemma is_more_recent_than_swap:
  "is_more_recent_than b a = reverse_ord (is_more_recent_than a b)"
proof (cases "sint (ls_sequence_number a) = sint (ls_sequence_number b) \<and> ls_checksum a = ls_checksum b")
  case False
  then consider "sint (ls_sequence_number a) < sint (ls_sequence_number b)"
    | "sint (ls_sequence_number b) < sint (ls_sequence_number a)"
    | "sint (ls_sequence_number a) = sint (ls_sequence_number b)" "ls_checksum a < ls_checksum b"
    | "sint (ls_sequence_number a) = sint (ls_sequence_number b)" "ls_checksum b < ls_checksum a"
    by fastforce
  then show ?thesis by cases (simp_all add: is_more_recent_than_def cmp_eqs)
next
  case True
  define d where "d = nat \<bar>int (unat (ls_age a)) - int (unat (ls_age b))\<bar>"
  then have d: "nat \<bar>int (unat (ls_age b)) - int (unat (ls_age a))\<bar> = d"
    by (simp add: abs_minus_commute)
  consider "ls_age a < ls_age b" "\<not> ls_age b < ls_age a" "ls_age a \<noteq> ls_age b"
    | "ls_age b < ls_age a" "\<not> ls_age a < ls_age b" "ls_age a \<noteq> ls_age b"
    | "ls_age a = ls_age b" "d = 0"
    by (metis d_def abs_zero diff_self nat_zero_as_int order_less_asym linorder_neqE)
  then show ?thesis
    unfolding is_more_recent_than_def d d_def [symmetric]
    using True by cases (auto simp: cmp_def)
qed

lemma is_more_recent_than_refl [simp]: "is_more_recent_than a a = Equal"
  by (simp add: is_more_recent_than_def cmp_def)

text \<open>On instances that differ in sequence number or checksum it is a lexicographic order.\<close>

definition instance_id :: "Lsa \<Rightarrow> LsaKey \<times> int \<times> u16" where
  "instance_id l = (lsa_key l, sint (ls_sequence_number (header l)), ls_checksum (header l))"

definition fresher :: "Lsa \<Rightarrow> Lsa \<Rightarrow> bool" where
  "fresher a b \<longleftrightarrow>
     sint (ls_sequence_number (header b)) < sint (ls_sequence_number (header a)) \<or>
     sint (ls_sequence_number (header b)) = sint (ls_sequence_number (header a)) \<and>
       ls_checksum (header b) < ls_checksum (header a)"

lemma fresher_imp_Greater: "fresher a b \<Longrightarrow> is_more_recent_than (header a) (header b) = Greater"
  by (auto simp: fresher_def is_more_recent_than_def cmp_def split: ordering.split)

section \<open>The invariant\<close>

text \<open>
  Keys are distinct, an entry is stored under the key of its LSA, and it is marked self-originated
  exactly when the database's own router advertised it.
\<close>

definition lsdb_inv :: "Lsdb \<Rightarrow> bool" where
  "lsdb_inv db \<longleftrightarrow> distinct (map fst (entries db)) \<and>
     (\<forall>(k, e) \<in> set (entries db). lsa_key (entry_lsa e) = k \<and>
        self_originated e = (advertising_router (header (entry_lsa e)) = lsdb_router_id db))"

lemma lsdb_inv_get:
  "lsdb_inv db \<Longrightarrow> lsdb_get db k = Some e \<Longrightarrow> lsa_key (entry_lsa e) = k"
  by (auto simp: lsdb_inv_def lsdb_get_def dest: map_of_SomeD)

lemma lsdb_inv_new [simp]: "lsdb_inv (lsdb_new rid)"
  by (simp add: lsdb_inv_def lsdb_new_def)

lemma lsdb_inv_put:
  assumes "lsdb_inv db" and "lsa_key (entry_lsa e) = k"
    and "self_originated e = (advertising_router (header (entry_lsa e)) = lsdb_router_id db)"
  shows "lsdb_inv (db\<lparr>entries := AList.update k e (entries db)\<rparr>)"
proof -
  let ?P = "\<lambda>k e. lsa_key (entry_lsa e) = k \<and>
    self_originated e = (advertising_router (header (entry_lsa e)) = lsdb_router_id db)"
  have "\<forall>(k, e) \<in> set (AList.update k e (entries db)). ?P k e"
    by (rule hm.all_insert) (use assms in \<open>auto simp: lsdb_inv_def\<close>)
  with assms(1) show ?thesis
    by (simp add: lsdb_inv_def hm.invar_insert)
qed

lemma lsdb_inv_subset:
  "lsdb_inv db \<Longrightarrow> distinct (map fst es) \<Longrightarrow> set es \<subseteq> set (entries db) \<Longrightarrow> lsdb_inv (db\<lparr>entries := es\<rparr>)"
  by (auto simp: lsdb_inv_def)

lemma lsdb_router_id_install [simp]: "lsdb_router_id (snd (lsdb_install now l db)) = lsdb_router_id db"
  by (simp add: lsdb_install_def Let_def split: option.split ordering.split)

lemma lsdb_router_id_ops [simp]:
  "lsdb_router_id (snd (bump_seq k s db)) = lsdb_router_id db"
  "lsdb_router_id (snd (lsdb_remove k db)) = lsdb_router_id db"
  "lsdb_router_id (snd (flush_max_age now db)) = lsdb_router_id db"
  "lsdb_router_id (lsdb_new rid) = rid"
  by (simp_all add: bump_seq_def lsdb_remove_def flush_max_age_def lsdb_new_def Let_def split: option.split)

lemma lsdb_inv_install: "lsdb_inv db \<Longrightarrow> lsdb_inv (snd (lsdb_install now l db))"
  by (simp add: lsdb_install_def Let_def lsdb_inv_put new_entry_def split: option.split ordering.split)

lemma lsa_key_with_seq [simp]: "lsa_key (with_seq s l) = lsa_key l"
  by (simp add: with_seq_def lsa_key_def header_key_def)

lemma header_with_seq [simp]: "header (with_seq s l) = (header l)\<lparr>ls_sequence_number := s\<rparr>"
  by (simp add: with_seq_def)

lemma lsdb_inv_entry:
  "lsdb_inv db \<Longrightarrow> lsdb_get db k = Some e \<Longrightarrow>
   lsa_key (entry_lsa e) = k \<and>
   self_originated e = (advertising_router (header (entry_lsa e)) = lsdb_router_id db)"
  by (auto simp: lsdb_inv_def lsdb_get_def dest: map_of_SomeD)

lemma lsdb_inv_bump_seq: "lsdb_inv db \<Longrightarrow> lsdb_inv (snd (bump_seq k s db))"
  using lsdb_inv_entry [of db k]
  by (auto simp: bump_seq_def split: option.split intro!: lsdb_inv_put)

lemma lsdb_inv_remove: "lsdb_inv db \<Longrightarrow> lsdb_inv (snd (lsdb_remove k db))"
  by (auto simp: lsdb_remove_def lsdb_inv_def distinct_delete dest: hm.all_remove)

lemma fold_delete_filter: "fold AList.delete ks m = filter (\<lambda>(k, _). k \<notin> set ks) m"
proof (induction ks arbitrary: m)
  case (Cons k ks)
  then show ?case
    by (auto simp: AList.delete_eq intro!: filter_cong)
qed simp

lemma lsdb_inv_flush: "lsdb_inv db \<Longrightarrow> lsdb_inv (snd (flush_max_age now db))"
  unfolding flush_max_age_def Let_def snd_conv fold_delete_filter
  by (rule lsdb_inv_subset) (auto simp: lsdb_inv_def distinct_map_filter)

section \<open>Installation\<close>

lemma lsdb_get_install:
  "lsdb_get (snd (lsdb_install now l db)) k =
     (if k = lsa_key l \<and>
         (case lsdb_get db k of None \<Rightarrow> True
          | Some e \<Rightarrow> is_more_recent_than (header l) (header (entry_lsa e)) = Greater)
      then Some (new_entry now db l) else lsdb_get db k)"
  by (auto simp: lsdb_install_def Let_def lsdb_get_def hm.get_insert split: option.split ordering.split)

lemma install_result:
  "fst (lsdb_install now l db) =
     (case lsdb_get db (lsa_key l) of None \<Rightarrow> New
      | Some e \<Rightarrow> (case is_more_recent_than (header l) (header (entry_lsa e)) of
           Greater \<Rightarrow> Updated | Equal \<Rightarrow> Duplicate | Less \<Rightarrow> Older))"
  by (auto simp: lsdb_install_def Let_def split: option.split ordering.split)

lemma lsdb_get_new [simp]: "lsdb_get (lsdb_new rid) k = None"
  by (simp add: lsdb_get_def lsdb_new_def)

definition install_all :: "instant \<Rightarrow> Lsa list \<Rightarrow> Lsdb \<Rightarrow> Lsdb" where
  "install_all now ls db = fold (\<lambda>l db. snd (lsdb_install now l db)) ls db"

lemma install_all_router_id [simp]: "lsdb_router_id (install_all now ls db) = lsdb_router_id db"
  by (induction ls arbitrary: db) (simp_all add: install_all_def)

section \<open>Arrivals in any order\<close>

text \<open>LSAs that arrive one after another, each with the instant of its installation.\<close>

definition deliver :: "(instant \<times> Lsa) list \<Rightarrow> Lsdb \<Rightarrow> Lsdb" where
  "deliver arrivals db = fold (\<lambda>(now, l) db. snd (lsdb_install now l db)) arrivals db"

definition stored_lsas :: "Lsdb \<Rightarrow> Lsa set" where
  "stored_lsas db = entry_lsa ` snd ` set (entries db)"

text \<open>
  Step 4 of the comparison is not transitive: of three copies of one instance aged 0, 600 and 1200
  the first beats the third, and the second ties with both. Copies of one instance are therefore
  required to be within \<^verbatim>\<open>MaxAgeDiff\<close> of each other, unless one has reached MaxAge.
\<close>

definition ages_agree :: "Lsa set \<Rightarrow> bool" where
  "ages_agree A \<longleftrightarrow>
     (\<forall>a \<in> A. \<forall>b \<in> A. instance_id a = instance_id b \<longrightarrow>
        ls_age (header a) = MAX_AGE \<or> ls_age (header b) = MAX_AGE \<or>
        \<bar>int (unat (ls_age (header a))) - int (unat (ls_age (header b)))\<bar> \<le> 900)"

definition freshness_rank :: "Lsa \<Rightarrow> int" where
  "freshness_rank l =
     sint (ls_sequence_number (header l)) * 131072 + int (unat (ls_checksum (header l))) * 2 +
     (if ls_age (header l) = MAX_AGE then 1 else 0)"

lemma age_gap_not_transitive:
  "ls_age a = 0 \<Longrightarrow>
   is_more_recent_than a (a\<lparr>ls_age := 600\<rparr>) = Equal \<and>
   is_more_recent_than (a\<lparr>ls_age := 600\<rparr>) (a\<lparr>ls_age := 1200\<rparr>) = Equal \<and>
   is_more_recent_than a (a\<lparr>ls_age := 1200\<rparr>) = Greater"
  by (simp add: is_more_recent_than_def cmp_def MAX_AGE_def)

lemma cmp_mult_add:
  fixes x y :: int
  assumes "0 \<le> p" "p < m" "0 \<le> q" "q < m"
  shows "cmp (x * m + p) (y * m + q) = (if x = y then cmp p q else cmp x y)"
proof -
  consider "x = y" | "x + 1 \<le> y" | "y + 1 \<le> x" by linarith
  then show ?thesis
  proof cases
    case 2
    then have "(x + 1) * m \<le> y * m" using assms by (intro mult_right_mono) auto
    with 2 assms show ?thesis by (simp add: cmp_def algebra_simps)
  next
    case 3
    then have "(y + 1) * m \<le> x * m" using assms by (intro mult_right_mono) auto
    with 3 assms show ?thesis by (simp add: cmp_def algebra_simps)
  qed (simp add: cmp_def)
qed

lemma cmp_unat: "cmp (int (unat a)) (int (unat b)) = cmp a (b :: 'a :: len word)"
  by (simp only: cmp_def word_less_nat_alt word_unat_eq_iff of_nat_less_iff of_nat_eq_iff)

lemma is_more_recent_than_rank:
  assumes "ages_agree A" "a \<in> A" "b \<in> A" "lsa_key a = lsa_key b"
  shows "is_more_recent_than (header a) (header b) = cmp (freshness_rank a) (freshness_rank b)"
proof -
  let ?c = "\<lambda>l. int (unat (ls_checksum (header l)))"
  let ?m = "\<lambda>l. if ls_age (header l) = MAX_AGE then 1 else 0 :: int"
  let ?s = "\<lambda>l. sint (ls_sequence_number (header l))"
  have r: "freshness_rank l = ?s l * 131072 + (?c l * 2 + ?m l)"
    and c: "0 \<le> ?c l * 2 + ?m l" "?c l * 2 + ?m l < 131072" for l
    using unsigned_less [of "ls_checksum (header l)", where ?'a = int] by (auto simp: freshness_rank_def)
  have ages: "ls_age (header a) = MAX_AGE \<or> ls_age (header b) = MAX_AGE \<or>
      \<bar>int (unat (ls_age (header a))) - int (unat (ls_age (header b)))\<bar> \<le> 900"
    if "?s a = ?s b" "ls_checksum (header a) = ls_checksum (header b)"
    using assms that by (auto simp: ages_agree_def instance_id_def)
  have same: "?c a = ?c b \<longleftrightarrow> ls_checksum (header a) = ls_checksum (header b)"
    by (simp only: of_nat_eq_iff word_unat_eq_iff)
  have "cmp (?c a * 2 + ?m a) (?c b * 2 + ?m b) = (if ?c a = ?c b then cmp (?m a) (?m b) else cmp (?c a) (?c b))"
    by (rule cmp_mult_add) auto
  then have "cmp (freshness_rank a) (freshness_rank b) =
      (if ?s a = ?s b
       then if ls_checksum (header a) = ls_checksum (header b) then cmp (?m a) (?m b)
         else cmp (ls_checksum (header a)) (ls_checksum (header b))
       else cmp (?s a) (?s b))"
    by (simp only: r cmp_mult_add [OF c c] cmp_unat same)
  also have "\<dots> = is_more_recent_than (header a) (header b)"
  proof (cases "?s a = ?s b \<and> ls_checksum (header a) = ls_checksum (header b)")
    case True
    then show ?thesis using ages [OF conjunct1 conjunct2, OF True True]
      by (auto simp: is_more_recent_than_def cmp_def)
  next
    case False
    then show ?thesis by (auto simp: is_more_recent_than_def cmp_def)
  qed
  finally show ?thesis by simp
qed

definition holds_freshest :: "Lsa set \<Rightarrow> Lsdb \<Rightarrow> LsaKey \<Rightarrow> bool" where
  "holds_freshest A db k \<longleftrightarrow>
     (case lsdb_get db k of
        None \<Rightarrow> \<forall>l \<in> A. lsa_key l \<noteq> k
      | Some e \<Rightarrow> entry_lsa e \<in> A \<and> lsa_key (entry_lsa e) = k \<and>
          (\<forall>l \<in> A. lsa_key l = k \<longrightarrow> freshness_rank l \<le> freshness_rank (entry_lsa e)))"

lemma stored_lsas_get:
  assumes "lsdb_inv db"
  shows "l \<in> stored_lsas db \<longleftrightarrow> (\<exists>e. lsdb_get db (lsa_key l) = Some e \<and> l = entry_lsa e)"
proof
  assume "l \<in> stored_lsas db"
  then obtain k e where "(k, e) \<in> set (entries db)" "l = entry_lsa e"
    by (auto simp: stored_lsas_def)
  then show "\<exists>e. lsdb_get db (lsa_key l) = Some e \<and> l = entry_lsa e"
    using assms by (auto simp: lsdb_inv_def lsdb_get_def)
next
  assume "\<exists>e. lsdb_get db (lsa_key l) = Some e \<and> l = entry_lsa e"
  then obtain e where "(lsa_key l, e) \<in> set (entries db)" "l = entry_lsa e"
    by (auto simp: lsdb_get_def dest: map_of_SomeD)
  then show "l \<in> stored_lsas db" by (force simp: stored_lsas_def)
qed

lemma holds_freshest_start:
  assumes "lsdb_inv db"
  shows "holds_freshest (stored_lsas db) db k"
proof (cases "lsdb_get db k")
  case None
  then show ?thesis using stored_lsas_get [OF assms] by (fastforce simp: holds_freshest_def)
next
  case (Some e)
  have "entry_lsa e \<in> stored_lsas db"
    using Some lsdb_inv_get [OF assms Some] stored_lsas_get [OF assms, of "entry_lsa e"] by simp
  moreover have "freshness_rank l \<le> freshness_rank (entry_lsa e)" if "l \<in> stored_lsas db" "lsa_key l = k" for l
    using that Some stored_lsas_get [OF assms, of l] by auto
  ultimately show ?thesis
    using Some lsdb_inv_get [OF assms Some] by (auto simp: holds_freshest_def)
qed

lemma holds_freshest_install:
  assumes "holds_freshest A db k" "ages_agree B" "A \<subseteq> B" "l \<in> B"
  shows "holds_freshest (insert l A) (snd (lsdb_install now l db)) k"
proof (cases "lsa_key l = k")
  case False
  then show ?thesis
    using assms(1) by (auto simp: holds_freshest_def lsdb_get_install split: option.splits)
next
  case key: True
  show ?thesis
  proof (cases "lsdb_get db k")
    case None
    with assms(1) key show ?thesis
      by (auto simp: holds_freshest_def lsdb_get_install new_entry_def)
  next
    case (Some e)
    then have "entry_lsa e \<in> A" and k: "lsa_key (entry_lsa e) = k"
      using assms(1) by (auto simp: holds_freshest_def)
    then have "is_more_recent_than (header l) (header (entry_lsa e)) =
        cmp (freshness_rank l) (freshness_rank (entry_lsa e))"
      using assms key by (intro is_more_recent_than_rank [of B]) auto
    with Some assms(1) key k show ?thesis
      by (fastforce simp: holds_freshest_def lsdb_get_install new_entry_def cmp_def)
  qed
qed

lemma holds_freshest_deliver:
  assumes "lsdb_inv db" "ages_agree (stored_lsas db \<union> snd ` set as)"
  shows "holds_freshest (stored_lsas db \<union> snd ` set as) (deliver as db) k"
  using assms(2)
proof (induction as rule: rev_induct)
  case Nil
  then show ?case using assms(1) by (simp add: deliver_def holds_freshest_start)
next
  case (snoc a as)
  let ?A = "stored_lsas db \<union> snd ` set as"
  have "holds_freshest ?A (deliver as db) k"
    by (rule snoc.IH) (use snoc.prems in \<open>auto simp: ages_agree_def\<close>)
  then have "holds_freshest (insert (snd a) ?A) (snd (lsdb_install (fst a) (snd a) (deliver as db))) k"
    by (rule holds_freshest_install [OF _ snoc.prems]) auto
  then show ?case by (simp add: deliver_def split_def)
qed

section \<open>Origination\<close>

lemma lsa_reparse_eq:
  assumes "wf_body (ls_type (header l)) (body l)" and "20 + length (lsa_body_encode (body l)) \<le> 65535"
  shows "lsa_reparse l = Ok (lsa_finalize l)"
proof -
  obtain b where b: "lsa_encode l = Ok b" using assms(2) by (simp add: lsa_encode_eq)
  then have "lsa_parse (b @ []) = Ok (lsa_finalize l)" by (rule lsa_parse_encoded [OF assms(1)])
  with b show ?thesis by (simp add: lsa_reparse_def)
qed

lemma sint_succ:
  "s \<noteq> MAX_SEQUENCE_NUMBER \<Longrightarrow> sint (s + 1 :: i32) = sint s + 1"
proof -
  assume s: "s \<noteq> MAX_SEQUENCE_NUMBER"
  have "sint MAX_SEQUENCE_NUMBER = 2147483647" by (simp add: MAX_SEQUENCE_NUMBER_def)
  with s have "sint s \<noteq> 2147483647" by (metis signed_word_eqI)
  moreover have "- (2 ^ (LENGTH(32) - 1)) \<le> sint s" "sint s < 2 ^ (LENGTH(32) - 1)"
    using sint_greater_eq [of s] sint_less [of s] by simp_all
  ultimately have "sint s + 1 < 2 ^ 31" "- (2 ^ 31) \<le> sint s + 1" by simp_all
  then have "signed_take_bit 31 (sint s + 1) = sint s + 1"
    by (intro signed_take_bit_int_eq_self) simp_all
  then show ?thesis by (simp add: sint_word_ariths)
qed

lemma sint_MAX_SEQUENCE_NUMBER: "sint (MAX_SEQUENCE_NUMBER + 1) < sint MAX_SEQUENCE_NUMBER"
  by (simp add: MAX_SEQUENCE_NUMBER_def)

lemma newer_seq_Greater:
  "sint (ls_sequence_number b) < sint (ls_sequence_number a) \<Longrightarrow> is_more_recent_than a b = Greater"
  by (simp add: is_more_recent_than_def cmp_eqs)

lemma older_seq_Less:
  "sint (ls_sequence_number a) < sint (ls_sequence_number b) \<Longrightarrow> is_more_recent_than a b = Less"
  by (simp add: is_more_recent_than_def cmp_eqs)

text \<open>Installing an LSA with the sequence number \<^const>\<open>next_seq\<close> replaces what was there.\<close>

lemma install_next_seq:
  assumes "ls_sequence_number (header l) = next_seq db (lsa_key l)"
    and "\<And>e. lsdb_get db (lsa_key l) = Some e \<Longrightarrow>
      ls_sequence_number (header (entry_lsa e)) \<noteq> MAX_SEQUENCE_NUMBER"
  shows "lsdb_get (snd (lsdb_install now l db)) (lsa_key l) = Some (new_entry now db l)"
proof (cases "lsdb_get db (lsa_key l)")
  case None
  then show ?thesis by (simp add: lsdb_get_install)
next
  case (Some e)
  with assms have "is_more_recent_than (header l) (header (entry_lsa e)) = Greater"
    by (intro newer_seq_Greater) (simp add: next_seq_def sint_succ)
  with Some show ?thesis by (simp add: lsdb_get_install)
qed

definition router_lsa_draft :: "ipv4 \<Rightarrow> u8 \<Rightarrow> RouterLink list \<Rightarrow> u8 \<Rightarrow> Lsdb \<Rightarrow> Lsa" where
  "router_lsa_draft rid flags links options db =
     \<lparr>header = \<lparr>ls_age = 0, h_options = options, ls_type = Router, link_state_id = rid,
        advertising_router = rid,
        ls_sequence_number = next_seq db \<lparr>key_type = Router, key_lsid = rid, key_adv = rid\<rparr>,
        ls_checksum = 0,
        h_length = word_of_nat (20 + length (router_lsa_encode \<lparr>r_flags = flags, r_links = links\<rparr>))\<rparr>,
      body = BRouter \<lparr>r_flags = flags, r_links = links\<rparr>\<rparr>"

lemma originate_router_lsa_eq:
  assumes "\<forall>l \<in> set links. num_tos l = 0" and "length links \<le> 5459"
  shows "originate_router_lsa now rid flags links options db =
    (let l = lsa_finalize (router_lsa_draft rid flags links options db)
     in Ok (l, snd (lsdb_install now l db)))"
proof -
  have "length (router_lsa_encode \<lparr>r_flags = flags, r_links = links\<rparr>) = 4 + 12 * length links"
    by (simp add: router_lsa_encode_def length_concat o_def sum_list_triv)
  then have "lsa_reparse (router_lsa_draft rid flags links options db) =
      Ok (lsa_finalize (router_lsa_draft rid flags links options db))"
    using assms by (intro lsa_reparse_eq) (simp_all add: router_lsa_draft_def)
  then show ?thesis
    by (simp add: originate_router_lsa_def Let_def router_lsa_draft_def LSA_HEADER_LEN_def)
qed

section \<open>Properties\<close>

text \<open>Databases the operations can build from an empty one.\<close>

inductive lsdb_reach :: "ipv4 \<Rightarrow> Lsdb \<Rightarrow> bool" for rid where
  reach_new: "lsdb_reach rid (lsdb_new rid)"
| reach_install: "lsdb_reach rid db \<Longrightarrow> lsdb_reach rid (snd (lsdb_install now l db))"
| reach_bump: "lsdb_reach rid db \<Longrightarrow> lsdb_reach rid (snd (bump_seq k s db))"
| reach_remove: "lsdb_reach rid db \<Longrightarrow> lsdb_reach rid (snd (lsdb_remove k db))"
| reach_flush: "lsdb_reach rid db \<Longrightarrow> lsdb_reach rid (snd (flush_max_age now db))"
| reach_originate: "lsdb_reach rid db \<Longrightarrow>
    originate_router_lsa now rid' flags links options db = Ok (l, db') \<Longrightarrow> lsdb_reach rid db'"

lemma originate_is_install:
  "originate_router_lsa now rid flags links options db = Ok (l, db') \<Longrightarrow>
   db' = snd (lsdb_install now l db)"
  by (auto simp: originate_router_lsa_def Let_def bindR_eq_Ok_iff)

text \<open>
  C5. Every database built by the operations has distinct keys, stores each LSA under its own key,
  and marks exactly the LSAs of its own router as self-originated.
\<close>

theorem lsdb_reach_inv:
  assumes "lsdb_reach rid db"
  shows "lsdb_inv db \<and> lsdb_router_id db = rid"
  using assms
proof induction
  case (reach_originate db now rid' flags links options l db')
  then show ?case by (auto dest!: originate_is_install simp: lsdb_inv_install)
qed (simp_all add: lsdb_inv_install lsdb_inv_bump_seq lsdb_inv_remove lsdb_inv_flush)

text \<open>
  C6. Installation refines a map update guarded by freshness: the database changes at the LSA's key
  exactly when there was no instance or the LSA is more recent than it, the result reports this, and
  a result \<open>Older\<close> means that the stored instance is the more recent one.
\<close>

theorem install_refines_map_update:
  "lsdb_get (snd (lsdb_install now l db)) =
     (if install_changed (fst (lsdb_install now l db))
      then (lsdb_get db)(lsa_key l \<mapsto> new_entry now db l) else lsdb_get db) \<and>
   (install_changed (fst (lsdb_install now l db)) \<longleftrightarrow>
      (case lsdb_get db (lsa_key l) of None \<Rightarrow> True
       | Some e \<Rightarrow> is_more_recent_than (header l) (header (entry_lsa e)) = Greater)) \<and>
   (fst (lsdb_install now l db) = Older \<longleftrightarrow>
      (case lsdb_get db (lsa_key l) of None \<Rightarrow> False
       | Some e \<Rightarrow> is_more_recent_than (header (entry_lsa e)) (header l) = Greater))"
proof (cases "lsdb_get db (lsa_key l)")
  case None
  then show ?thesis by (auto simp: lsdb_get_install install_result fun_eq_iff)
next
  case (Some e)
  then show ?thesis
    using is_more_recent_than_swap [of "header (entry_lsa e)" "header l"]
    by (cases "is_more_recent_than (header l) (header (entry_lsa e))")
      (auto simp: lsdb_get_install install_result fun_eq_iff)
qed

text \<open>
  C7. The content of the database does not depend on the order in which LSAs arrive, at what instants,
  nor on how often each is received, as long as the copies of one instance that arrive or are stored
  differ in age by at most MaxAgeDiff or have reached MaxAge: from any well-formed database, two
  arrival sequences of the same LSAs leave under every key the same instance, at MaxAge after both or
  after neither, and no LSA that arrived or was stored before is more recent than it. (For copies further
  apart the comparison is not transitive, \<^verbatim>\<open>age_gap_not_transitive\<close>, and the age kept does depend on
  the order.)
\<close>

theorem install_order_independent:
  assumes "lsdb_inv db" and "snd ` set as = snd ` set bs"
    and "ages_agree (stored_lsas db \<union> snd ` set as)"
  shows "case lsdb_get (deliver as db) k of
      None \<Rightarrow> lsdb_get (deliver bs db) k = None \<and>
        (\<forall>l \<in> stored_lsas db \<union> snd ` set as. lsa_key l \<noteq> k)
    | Some e \<Rightarrow> entry_lsa e \<in> stored_lsas db \<union> snd ` set as \<and> lsa_key (entry_lsa e) = k \<and>
        (\<forall>l \<in> stored_lsas db \<union> snd ` set as. lsa_key l = k \<longrightarrow>
           is_more_recent_than (header l) (header (entry_lsa e)) \<noteq> Greater) \<and>
        (\<exists>e'. lsdb_get (deliver bs db) k = Some e' \<and>
           instance_id (entry_lsa e') = instance_id (entry_lsa e) \<and>
           (ls_age (header (entry_lsa e')) = MAX_AGE \<longleftrightarrow> ls_age (header (entry_lsa e)) = MAX_AGE) \<and>
           is_more_recent_than (header (entry_lsa e')) (header (entry_lsa e)) = Equal)"
proof -
  let ?A = "stored_lsas db \<union> snd ` set as"
  note A = holds_freshest_deliver [OF assms(1,3), of k, unfolded holds_freshest_def]
  have "ages_agree (stored_lsas db \<union> snd ` set bs)" using assms(2,3) by simp
  note B = holds_freshest_deliver [OF assms(1) this, of k, folded assms(2), unfolded holds_freshest_def]
  show ?thesis
  proof (cases "lsdb_get (deliver as db) k")
    case None
    with A B show ?thesis by (auto split: option.splits)
  next
    case (Some e)
    with A have e: "entry_lsa e \<in> ?A" "lsa_key (entry_lsa e) = k"
      "\<forall>l \<in> ?A. lsa_key l = k \<longrightarrow> freshness_rank l \<le> freshness_rank (entry_lsa e)" by auto
    with B obtain e' where e': "lsdb_get (deliver bs db) k = Some e'" "entry_lsa e' \<in> ?A"
      "lsa_key (entry_lsa e') = k"
      "\<forall>l \<in> ?A. lsa_key l = k \<longrightarrow> freshness_rank l \<le> freshness_rank (entry_lsa e')"
      by (auto split: option.splits)
    have rank: "freshness_rank (entry_lsa e') = freshness_rank (entry_lsa e)"
      using e e' by (intro antisym) auto
    then have same: "is_more_recent_than (header (entry_lsa e')) (header (entry_lsa e)) = Equal"
      using is_more_recent_than_rank [OF assms(3) e'(2) e(1)] e e' by (simp add: cmp_def)
    have "is_more_recent_than (header l) (header (entry_lsa e)) \<noteq> Greater" if "l \<in> ?A" "lsa_key l = k" for l
      using is_more_recent_than_rank [OF assms(3) that(1) e(1)] e that by (auto simp: cmp_def)
    moreover have "instance_id (entry_lsa e') = instance_id (entry_lsa e) \<and>
        (ls_age (header (entry_lsa e')) = MAX_AGE \<longleftrightarrow> ls_age (header (entry_lsa e)) = MAX_AGE)"
      using same e(2) e'(3)
      by (auto simp: is_more_recent_than_def instance_id_def cmp_def split: if_splits ordering.splits)
    ultimately show ?thesis using Some e e'(1) same by auto
  qed
qed

text \<open>
  Originating a Router-LSA never panics for up to 5459 links, and unless the stored sequence
  number is the largest one, the database then holds the LSA returned, with the next sequence number.
\<close>

theorem originate_router_lsa_supersedes:
  assumes "\<forall>l \<in> set links. num_tos l = 0" and "length links \<le> 5459"
    and "\<forall>e. lsdb_get db \<lparr>key_type = Router, key_lsid = rid, key_adv = rid\<rparr> = Some e \<longrightarrow>
      ls_sequence_number (header (entry_lsa e)) \<noteq> MAX_SEQUENCE_NUMBER"
  shows "\<exists>l db'. originate_router_lsa now rid flags links options db = Ok (l, db') \<and>
    body l = BRouter \<lparr>r_flags = flags, r_links = links\<rparr> \<and>
    ls_sequence_number (header l) = next_seq db \<lparr>key_type = Router, key_lsid = rid, key_adv = rid\<rparr> \<and>
    lsdb_get db' \<lparr>key_type = Router, key_lsid = rid, key_adv = rid\<rparr> = Some (new_entry now db l)"
proof -
  let ?k = "\<lparr>key_type = Router, key_lsid = rid, key_adv = rid\<rparr>"
  let ?l = "lsa_finalize (router_lsa_draft rid flags links options db)"
  have k: "lsa_key ?l = ?k" by (simp add: lsa_key_def header_key_def router_lsa_draft_def)
  have s: "ls_sequence_number (header ?l) = next_seq db ?k" by (simp add: router_lsa_draft_def)
  have "lsdb_get (snd (lsdb_install now ?l db)) (lsa_key ?l) = Some (new_entry now db ?l)"
    by (rule install_next_seq) (use assms(3) k s in auto)
  with k s show ?thesis
    by (simp add: originate_router_lsa_eq [OF assms(1,2)] Let_def router_lsa_draft_def)
qed

text \<open>
  At the largest sequence number the next one wraps to the smallest and the database refuses the
  new LSA: origination returns an LSA that is not installed.
\<close>

theorem originate_at_max_seq_rejected:
  assumes "\<forall>l \<in> set links. num_tos l = 0" and "length links \<le> 5459"
    and "lsdb_get db \<lparr>key_type = Router, key_lsid = rid, key_adv = rid\<rparr> = Some e"
    and "ls_sequence_number (header (entry_lsa e)) = MAX_SEQUENCE_NUMBER"
  shows "\<exists>l. originate_router_lsa now rid flags links options db = Ok (l, db) \<and>
    sint (ls_sequence_number (header l)) = - (2 ^ 31)"
proof -
  let ?k = "\<lparr>key_type = Router, key_lsid = rid, key_adv = rid\<rparr>"
  let ?l = "lsa_finalize (router_lsa_draft rid flags links options db)"
  have k: "lsa_key ?l = ?k" by (simp add: lsa_key_def header_key_def router_lsa_draft_def)
  have s: "ls_sequence_number (header ?l) = MAX_SEQUENCE_NUMBER + 1"
    using assms(3,4) by (simp add: router_lsa_draft_def next_seq_def)
  have "is_more_recent_than (header ?l) (header (entry_lsa e)) = Less"
    by (rule older_seq_Less) (simp only: s assms(4) sint_MAX_SEQUENCE_NUMBER)
  with assms(3) k have "snd (lsdb_install now ?l db) = db"
    by (simp add: lsdb_install_def Let_def)
  with s show ?thesis
    by (simp add: originate_router_lsa_eq [OF assms(1,2)] Let_def MAX_SEQUENCE_NUMBER_def)
qed

text \<open>
  Flushing removes exactly the entries that reached MaxAge and keeps every other one.
\<close>

theorem flush_max_age_get:
  assumes "lsdb_inv db"
  shows "lsdb_get (snd (flush_max_age now db)) k =
    (case lsdb_get db k of None \<Rightarrow> None | Some e \<Rightarrow> if is_max_age now e then None else Some e)"
proof -
  have "k \<in> set (map fst (filter (\<lambda>(_, e). is_max_age now e) (entries db))) \<longleftrightarrow>
      (\<exists>e. lsdb_get db k = Some e \<and> is_max_age now e)"
    using assms by (force simp: lsdb_inv_def lsdb_get_def hm.entries_get [symmetric])
  then show ?thesis
    by (auto simp: flush_max_age_def Let_def lsdb_get_def hm.get_fold_remove split: option.split)
qed

text \<open>
  The age of an entry is its age at installation plus the seconds since, capped at MaxAge, as long
  as it was installed less than 65536 seconds ago.
\<close>

theorem current_age_exact:
  assumes "saturating_duration_since now (installed_at e) < 65536000"
  shows "unat (current_age now e) =
    min 3600 (unat (ls_age (header (entry_lsa e))) + saturating_duration_since now (installed_at e) div 1000)"
  using assms by (simp add: unat_current_age)

text \<open>Beyond that the elapsed seconds wrap: an entry that has passed MaxAge becomes young again.\<close>

lemma current_age_wraps:
  "ls_age (header (entry_lsa e)) = 0 \<Longrightarrow> installed_at e = 0 \<Longrightarrow>
   current_age 65535999 e = MAX_AGE \<and> current_age 65536000 e = 0"
  by (simp add: word_unat_eq_iff unat_current_age saturating_duration_since_def)

section \<open>Concrete databases\<close>

definition example_db :: Lsdb where
  "example_db = snd (lsdb_install 0 example_lsa (lsdb_new 0x01010101))"

theorem lsdb_reach_inv_witness: "lsdb_inv example_db \<and> lsdb_router_id example_db = 0x01010101"
  by (rule lsdb_reach_inv) (simp add: example_db_def reach_new reach_install)

text \<open>A stored LSA, and two copies of it, one 600 seconds old and one at MaxAge, in either order.\<close>

definition copies_arriving :: "(instant \<times> Lsa) list" where
  "copies_arriving = [(5, with_age MAX_AGE example_lsa), (6, with_age 600 example_lsa)]"

definition copies_arriving_late :: "(instant \<times> Lsa) list" where
  "copies_arriving_late = [(9, with_age 600 example_lsa), (10, with_age MAX_AGE example_lsa), (11, with_age 600 example_lsa)]"

theorem install_order_independent_witness:
  "\<exists>e e'. lsdb_get (deliver copies_arriving example_db) (lsa_key example_lsa) = Some e \<and>
     lsdb_get (deliver copies_arriving_late example_db) (lsa_key example_lsa) = Some e' \<and>
     is_more_recent_than (header (with_age MAX_AGE example_lsa)) (header (entry_lsa e)) \<noteq> Greater \<and>
     is_more_recent_than (header (entry_lsa e')) (header (entry_lsa e)) = Equal"
proof -
  have s: "stored_lsas example_db = {example_lsa}"
    by (simp add: example_db_def stored_lsas_def lsdb_install_def lsdb_get_def lsdb_new_def new_entry_def)
  have k: "lsa_key (with_age a example_lsa) = lsa_key example_lsa" for a
    by (simp add: with_age_def lsa_key_def header_key_def)
  let ?A = "{example_lsa, with_age 600 example_lsa, with_age MAX_AGE example_lsa}"
  have A: "stored_lsas example_db \<union> snd ` set copies_arriving = ?A"
    by (auto simp: s copies_arriving_def)
  have "ages_agree (stored_lsas example_db \<union> snd ` set copies_arriving)"
    unfolding A by (auto simp: ages_agree_def with_age_def example_lsa_def MAX_AGE_def)
  moreover have "lsdb_inv example_db" by (simp add: example_db_def lsdb_inv_install)
  moreover have "snd ` set copies_arriving = snd ` set copies_arriving_late"
    by (auto simp: copies_arriving_def copies_arriving_late_def)
  ultimately have C: "case lsdb_get (deliver copies_arriving example_db) (lsa_key example_lsa) of
      None \<Rightarrow> lsdb_get (deliver copies_arriving_late example_db) (lsa_key example_lsa) = None \<and>
        (\<forall>l \<in> ?A. lsa_key l \<noteq> lsa_key example_lsa)
    | Some e \<Rightarrow> entry_lsa e \<in> ?A \<and> lsa_key (entry_lsa e) = lsa_key example_lsa \<and>
        (\<forall>l \<in> ?A. lsa_key l = lsa_key example_lsa \<longrightarrow>
           is_more_recent_than (header l) (header (entry_lsa e)) \<noteq> Greater) \<and>
        (\<exists>e'. lsdb_get (deliver copies_arriving_late example_db) (lsa_key example_lsa) = Some e' \<and>
           instance_id (entry_lsa e') = instance_id (entry_lsa e) \<and>
           (ls_age (header (entry_lsa e')) = MAX_AGE \<longleftrightarrow> ls_age (header (entry_lsa e)) = MAX_AGE) \<and>
           is_more_recent_than (header (entry_lsa e')) (header (entry_lsa e)) = Equal)"
    unfolding A [symmetric] by (intro install_order_independent) auto
  show ?thesis
  proof (cases "lsdb_get (deliver copies_arriving example_db) (lsa_key example_lsa)")
    case (Some e)
    with C k show ?thesis by auto
  qed (use C in simp)
qed

theorem originate_router_lsa_supersedes_witness:
  "\<exists>l db'. originate_router_lsa 5 9 0 [] 2 example_db = Ok (l, db') \<and>
    lsdb_get db' \<lparr>key_type = Router, key_lsid = 9, key_adv = 9\<rparr> = Some (new_entry 5 example_db l)"
proof -
  have "lsdb_get example_db \<lparr>key_type = Router, key_lsid = 9, key_adv = 9\<rparr> = None"
    by (simp add: example_db_def lsdb_get_install example_lsa_def lsa_key_def header_key_def)
  then show ?thesis
    using originate_router_lsa_supersedes [of "[]" example_db 9 5 0 2] by fastforce
qed

definition exhausted_db :: Lsdb where
  "exhausted_db =
     \<lparr>entries = [(\<lparr>key_type = Router, key_lsid = 9, key_adv = 9\<rparr>,
        \<lparr>entry_lsa = with_seq MAX_SEQUENCE_NUMBER example_lsa, installed_at = 0, self_originated = True\<rparr>)],
      lsdb_router_id = 9\<rparr>"

theorem originate_at_max_seq_rejected_witness:
  "\<exists>l. originate_router_lsa 5 9 0 [] 2 exhausted_db = Ok (l, exhausted_db) \<and>
    sint (ls_sequence_number (header l)) = - (2 ^ 31)"
  by (rule originate_at_max_seq_rejected [of _ _ _
        "\<lparr>entry_lsa = with_seq MAX_SEQUENCE_NUMBER example_lsa, installed_at = 0, self_originated = True\<rparr>"])
    (simp_all add: exhausted_db_def lsdb_get_def)

theorem flush_max_age_get_witness:
  "lsdb_get (snd (flush_max_age 4000000 example_db)) (lsa_key example_lsa) = None"
proof -
  have "lsdb_inv example_db" by (simp add: example_db_def lsdb_inv_install)
  from flush_max_age_get [OF this, of 4000000 "lsa_key example_lsa"] show ?thesis
    by (simp add: example_db_def lsdb_get_install is_max_age_def word_le_nat_alt unat_current_age
        new_entry_def saturating_duration_since_def)
qed

theorem current_age_exact_witness:
  "unat (current_age 100000 (new_entry 0 (lsdb_new 1) example_lsa)) = 101"
  using current_age_exact [of 100000 "new_entry 0 (lsdb_new 1) example_lsa"]
  by (simp add: new_entry_def saturating_duration_since_def example_lsa_def)

end
