(* ===== verification/Auth.thy ===== *)
theory Auth
  imports Packet_Codec
begin

text \<open>
  \<^verbatim>\<open>src/packet/auth.rs\<close>: null, simple and cryptographic authentication. MD5 and the three HMACs come
  from other crates: they are the fields of a record of functions that every operation takes, and
  what the code relies on, their output lengths, is the predicate \<open>wf_digests\<close>. The theorems: a packet
  to which authentication was applied verifies under the same key; what acceptance under a
  cryptographic key implies; and how the packet parser treats the digest that trails the packet.
\<close>

section \<open>Keys\<close>

datatype AuType = Null | Simple_Au | Crypto

definition au_type_from_u16 :: "u16 \<Rightarrow> AuType option" where
  "au_type_from_u16 v =
     (if v = 0 then Some Null else if v = 1 then Some Simple_Au else if v = 2 then Some Crypto else None)"

fun au_type_to_u16 :: "AuType \<Rightarrow> u16" where
  "au_type_to_u16 Null = 0"
| "au_type_to_u16 Simple_Au = 1"
| "au_type_to_u16 Crypto = 2"

datatype HmacAlgo = Sha256 | Sha384 | Sha512

fun digest_len :: "HmacAlgo \<Rightarrow> nat" where
  "digest_len Sha256 = 32"
| "digest_len Sha384 = 48"
| "digest_len Sha512 = 64"

datatype AuthKey =
    NoKey
  | Simple "u8 list"
  | Md5 u8 "u8 list"
  | HmacSha HmacAlgo u8 "u8 list"

fun key_au_type :: "AuthKey \<Rightarrow> AuType" where
  "key_au_type NoKey = Null"
| "key_au_type (Simple _) = Simple_Au"
| "key_au_type (Md5 _ _) = Crypto"
| "key_au_type (HmacSha _ _ _) = Crypto"

definition APAD :: "u8 list" where
  "APAD = concat (replicate 16 [0x87, 0x8F, 0xE1, 0xF3])"

text \<open>The hash functions of the crates \<^verbatim>\<open>md5\<close>, \<^verbatim>\<open>hmac\<close> and \<^verbatim>\<open>sha2\<close>; an HMAC takes the key first.\<close>

record digests =
  md5 :: "u8 list \<Rightarrow> u8 list"
  hmac_sha256 :: "u8 list \<Rightarrow> u8 list \<Rightarrow> u8 list"
  hmac_sha384 :: "u8 list \<Rightarrow> u8 list \<Rightarrow> u8 list"
  hmac_sha512 :: "u8 list \<Rightarrow> u8 list \<Rightarrow> u8 list"

definition wf_digests :: "digests \<Rightarrow> bool" where
  "wf_digests d \<longleftrightarrow>
     (\<forall>m. length (md5 d m) = 16) \<and> (\<forall>k m. length (hmac_sha256 d k m) = 32) \<and>
     (\<forall>k m. length (hmac_sha384 d k m) = 48) \<and> (\<forall>k m. length (hmac_sha512 d k m) = 64)"

fun hmac_sha :: "digests \<Rightarrow> HmacAlgo \<Rightarrow> u8 list \<Rightarrow> u8 list \<Rightarrow> u8 list" where
  "hmac_sha d Sha256 key data = hmac_sha256 d key data"
| "hmac_sha d Sha384 key data = hmac_sha384 d key data"
| "hmac_sha d Sha512 key data = hmac_sha512 d key data"

text \<open>A buffer of \<open>n\<close> zero bytes with the first \<open>n\<close> bytes of the key copied over it.\<close>

definition padded :: "nat \<Rightarrow> u8 list \<Rightarrow> u8 list" where
  "padded n key = write_at 0 (take n key) (replicate n 0)"

section \<open>Applying and verifying\<close>

fun apply_auth :: "digests \<Rightarrow> u8 list \<Rightarrow> AuthKey \<Rightarrow> u32 \<Rightarrow> u8 list parsed" where
  "apply_auth d packet NoKey s = Ok packet"
| "apply_auth d packet (Simple password) s =
     (if length packet < 24 then Ok packet
      else
        (let p = packet[14 := 0, 15 := 1];
             p = write_at 16 (replicate 8 0) p
         in Ok (write_at 16 (take 8 password) p)))"
| "apply_auth d packet (Md5 key_id key) s =
     (if length packet < 24 then Ok packet
      else
        (let p = packet[14 := 0, 15 := 2, 12 := 0, 13 := 0, 16 := 0, 17 := 0, 18 := key_id, 19 := 16];
             p = write_at 20 (u32_be_bytes s) p
         in Ok (p @ md5 d (p @ padded 16 key))))"
| "apply_auth d packet (HmacSha algo key_id key) s =
     (if length packet < 24 then Ok packet
      else
        (let n = digest_len algo;
             p = packet[14 := 0, 15 := 2, 12 := 0, 13 := 0, 16 := 0, 17 := 0, 18 := key_id,
                        19 := word_of_nat n];
             p = write_at 20 (u32_be_bytes s) p;
             p = p @ take n APAD;
             digest = hmac_sha d algo key p
         in if length digest = n then Ok (write_at (length p - n) digest p) else Panic))"

definition verify_auth :: "digests \<Rightarrow> u8 list \<Rightarrow> AuthKey \<Rightarrow> bool" where
  "verify_auth d packet key \<longleftrightarrow>
     (if length packet < OSPF_HEADER_LEN then False
      else if u16_of_be (packet ! 14) (packet ! 15) \<noteq> au_type_to_u16 (key_au_type key) then False
      else
        (case key of
           NoKey \<Rightarrow> True
         | Simple password \<Rightarrow> take 8 (drop 16 packet) = padded 8 password
         | Md5 key_id k \<Rightarrow>
             (if packet ! 18 \<noteq> key_id then False
              else if unat (packet ! 19) \<noteq> 16 then False
              else
                (let pkt_len = unat (u16_of_be (packet ! 2) (packet ! 3)) in
                 if pkt_len < OSPF_HEADER_LEN \<or> length packet < pkt_len + 16 then False
                 else take 16 (drop pkt_len packet) = md5 d (take pkt_len packet @ padded 16 k)))
         | HmacSha algo key_id k \<Rightarrow>
             (if packet ! 18 \<noteq> key_id then False
              else if unat (packet ! 19) \<noteq> digest_len algo then False
              else
                (let n = digest_len algo; pkt_len = unat (u16_of_be (packet ! 2) (packet ! 3)) in
                 if pkt_len < OSPF_HEADER_LEN \<or> length packet < pkt_len + n then False
                 else take n (drop pkt_len packet) =
                   hmac_sha d algo k (take pkt_len packet @ take n APAD)))))"

section \<open>Applied authentication verifies\<close>

lemma length_APAD [simp]: "length APAD = 64"
  by (simp add: APAD_def numeral_eq_Suc)

lemma digest_len_le: "digest_len a \<le> 64"
  by (cases a) auto

lemma length_hmac_sha: "wf_digests d \<Longrightarrow> length (hmac_sha d a k m) = digest_len a"
  by (cases a) (simp_all add: wf_digests_def)

lemma length_write_at [simp]: "a + length xs \<le> length p \<Longrightarrow> length (write_at a xs p) = length p"
  by (simp add: write_at_def)

lemma nth_write_at:
  "a + length xs \<le> length p \<Longrightarrow> i < length p \<Longrightarrow>
   write_at a xs p ! i = (if a \<le> i \<and> i < a + length xs then xs ! (i - a) else p ! i)"
  by (auto simp: write_at_def nth_append min_def)

lemma write_at_end: "length xs = length ys \<Longrightarrow> write_at (length p) xs (p @ ys) = p @ xs"
  by (simp add: write_at_def)

lemma length_padded [simp]: "length (padded n k) = n"
  by (simp add: padded_def)

lemma padded_at_field:
  assumes "24 \<le> length p"
  shows "take 8 (drop 16 (write_at 16 (take 8 k) (write_at 16 (replicate 8 0) p))) = padded 8 k"
  using assms by (intro nth_equalityI) (auto simp: nth_write_at padded_def)

text \<open>The two header fields the verifier reads besides the digest: the length and the type.\<close>

definition length_field :: "u8 list \<Rightarrow> nat" where
  "length_field p = unat (u16_of_be (p ! 2) (p ! 3))"

lemma apply_auth_verifies:
  assumes "wf_digests d" and "24 \<le> length p" and "length_field p = length p"
    and "key = NoKey \<Longrightarrow> u16_of_be (p ! 14) (p ! 15) = 0"
  obtains q where "apply_auth d p key s = Ok q" and "verify_auth d q key"
proof (cases key)
  case NoKey
  then show ?thesis using assms that by (auto simp: verify_auth_def OSPF_HEADER_LEN_def)
next
  case (Simple k)
  let ?q = "write_at 16 (take 8 k) (write_at 16 (replicate 8 0) (p[14 := 0, 15 := 1]))"
  have "apply_auth d p key s = Ok ?q" using Simple assms(2) by simp
  moreover have "verify_auth d ?q key"
    using Simple assms(2)
    by (simp add: verify_auth_def OSPF_HEADER_LEN_def padded_at_field nth_write_at u16_of_be_def)
  ultimately show ?thesis by (rule that)
next
  case (Md5 i k)
  let ?p = "write_at 20 (u32_be_bytes s)
    (p[14 := 0, 15 := 2, 12 := 0, 13 := 0, 16 := 0, 17 := 0, 18 := i, 19 := 16])"
  let ?q = "?p @ md5 d (?p @ padded 16 k)"
  have "apply_auth d p key s = Ok ?q" using Md5 assms(2) by (simp add: Let_def)
  moreover have len: "length ?p = length p" using assms(2) by simp
  have "verify_auth d ?q key"
    using Md5 assms len
    by (simp add: verify_auth_def OSPF_HEADER_LEN_def nth_append nth_write_at length_field_def
        wf_digests_def u16_of_be_def Let_def)
  ultimately show ?thesis by (intro that)
next
  case (HmacSha a i k)
  let ?p = "write_at 20 (u32_be_bytes s)
    (p[14 := 0, 15 := 2, 12 := 0, 13 := 0, 16 := 0, 17 := 0, 18 := i, 19 := word_of_nat (digest_len a)])"
  let ?q = "?p @ hmac_sha d a k (?p @ take (digest_len a) APAD)"
  have len: "length ?p = length p" using assms(2) by simp
  have n: "unat (word_of_nat (digest_len a) :: u8) = digest_len a" by (cases a) simp_all
  have "write_at (length ?p) (hmac_sha d a k (?p @ take (digest_len a) APAD)) (?p @ take (digest_len a) APAD) = ?q"
    using digest_len_le [of a] by (intro write_at_end) (simp add: length_hmac_sha [OF assms(1)])
  then have "apply_auth d p key s = Ok ?q"
    using HmacSha assms(1,2) digest_len_le [of a] len by (simp add: Let_def length_hmac_sha)
  moreover have "verify_auth d ?q key"
    using HmacSha assms len n
    by (simp add: verify_auth_def OSPF_HEADER_LEN_def nth_append nth_write_at length_field_def
        length_hmac_sha u16_of_be_def Let_def)
  ultimately show ?thesis by (rule that)
qed

lemma length_field_encoded:
  assumes "wf_header (packet_header p)" and "packet_encode p = Ok buf" and "length buf < 65536"
  shows "length_field buf = length buf" and "24 \<le> length buf"
    and "u16_of_be (buf ! 14) (buf ! 15) = au_type (packet_header p)"
proof -
  let ?h = "packet_header p"
  obtain b where b: "buf = ospf_header_encode (header_finalize ?h b) @ b"
    using assms(1,2) by (auto simp: packet_encode_eq wf_header_def bindR_eq_Ok_iff)
  have len: "length buf = 24 + length b"
    using assms(1) by (simp add: b header_finalize_def Let_def wf_header_def)
  have "u16_of_be (buf ! 2) (buf ! 3) = word_of_nat (24 + length b)"
    by (simp add: b ospf_header_encode_def be_bytes_defs header_finalize_def Let_def del: of_nat_add)
  with len assms(3) show "length_field buf = length buf"
    by (simp only: length_field_def unat_of_nat) simp
  show "24 \<le> length buf" using len by simp
  show "u16_of_be (buf ! 14) (buf ! 15) = au_type ?h"
    by (simp add: b ospf_header_encode_def be_bytes_defs header_finalize_def Let_def)
qed

text \<open>
  Whatever the key, a packet the daemon encodes and authenticates is accepted by a receiver with
  the same key.
\<close>

theorem encoded_packet_authenticates:
  assumes "wf_digests d" and "wf_header (packet_header p)" and "au_type (packet_header p) = 0"
    and "packet_encode p = Ok buf" and "length buf < 65536"
  shows "\<exists>q. apply_auth d buf key s = Ok q \<and> verify_auth d q key"
  using apply_auth_verifies [OF assms(1), of buf key s] length_field_encoded [OF assms(2,4,5)] assms(3)
  by metis

section \<open>What acceptance means\<close>

text \<open>Under a cryptographic key: the digest that follows the packet is the MAC of at least the whole header.\<close>

definition covered_by_mac :: "digests \<Rightarrow> u8 list \<Rightarrow> AuthKey \<Rightarrow> nat \<Rightarrow> bool" where
  "covered_by_mac d packet key n \<longleftrightarrow>
     24 \<le> n \<and> n = length_field packet \<and>
     (case key of
        Md5 i k \<Rightarrow> packet ! 18 = i \<and> n + 16 \<le> length packet \<and>
          take 16 (drop n packet) = md5 d (take n packet @ padded 16 k)
      | HmacSha a i k \<Rightarrow> packet ! 18 = i \<and> n + digest_len a \<le> length packet \<and>
          take (digest_len a) (drop n packet) = hmac_sha d a k (take n packet @ take (digest_len a) APAD)
      | _ \<Rightarrow> False)"

text \<open>
  C4. A packet accepted under an MD5 or HMAC-SHA key carries authentication type 2 and the key's id,
  and the digest after it is the MAC over a prefix that contains the whole 24-byte header.
\<close>

theorem verify_auth_crypto_sound:
  assumes "verify_auth d packet key" and "key_au_type key = Crypto"
  shows "u16_of_be (packet ! 14) (packet ! 15) = 2 \<and> (\<exists>n. covered_by_mac d packet key n)"
  using assms
  by (cases key) (auto simp: verify_auth_def covered_by_mac_def OSPF_HEADER_LEN_def length_field_def Let_def
      split: if_splits)

section \<open>The digest trailer and the packet parser\<close>

text \<open>
  The receive path hands the parser the whole datagram, digest included. Every four bytes of it
  become one more neighbor of a Hello, and a trailer of twenty bytes or more is read as an LSA header.
\<close>

text \<open>
  A Hello followed by authentication data parses to a Hello with one more neighbor for every
  four bytes of that data.
\<close>

theorem hello_parse_trailer:
  assumes "length t < 4"
  shows "hello_parse (hello_encode p @ concat (map u32_be_bytes extra) @ t) =
    Ok (p\<lparr>hp_neighbors := hp_neighbors p @ extra\<rparr>)"
proof -
  have "parse_fixed 4 ipv4_parse ([] @ concat (map u32_be_bytes (hp_neighbors p @ extra)) @ t) 0 =
      Ok (hp_neighbors p @ extra)"
    using assms by (intro ipv4_codec.parse_fixed_round_trip) simp_all
  then obtain ns where "concat (map u32_be_bytes (hp_neighbors p)) @ concat (map u32_be_bytes extra) @ t = ns"
    and "parse_fixed 4 ipv4_parse ns 0 = Ok (hp_neighbors p @ extra)" by simp
  then show ?thesis
    unfolding hello_encode_def
    by (simp add: hello_parse_def codec_eval HELLO_MIN_LEN_def slice_from_def)
qed

text \<open>
  A Database Description followed by at least twenty bytes of authentication data (every
  HMAC-SHA digest) is rejected unless the fourth byte of the digest happens to be an LSA type.
\<close>

theorem dd_parse_trailer:
  assumes "20 \<le> length t" and "lsa_type_from_u8 (t ! 3) = None"
  shows "dd_parse (dd_encode p @ t) = Err (BadLsaType (t ! 3))"
proof -
  let ?pre = "u16_be_bytes (interface_mtu p) @ [dd_options p, dd_flags p] @
     u32_be_bytes (dd_sequence_number p)"
  have "lsa_header_parse t = Err (BadLsaType (t ! 3))"
    using assms by (simp add: lsa_header_parse_def LSA_HEADER_LEN_def in_bounds)
  then have "parse_fixed LSA_HEADER_LEN lsa_header_parse t 0 = Err (BadLsaType (t ! 3))"
    using assms(1) by (subst parse_fixed.simps) (simp add: LSA_HEADER_LEN_def slice_from_def)
  then have "parse_fixed LSA_HEADER_LEN lsa_header_parse
      (?pre @ concat (map lsa_header_encode (lsa_headers p)) @ t) (length ?pre) = Err (BadLsaType (t ! 3))"
    by (simp only: header_codec.parse_fixed_prefix bindR.simps)
  moreover have "?pre @ concat (map lsa_header_encode (lsa_headers p)) @ t = dd_encode p @ t"
    by (simp add: dd_encode_def)
  ultimately have "parse_fixed LSA_HEADER_LEN lsa_header_parse (dd_encode p @ t) 8 = Err (BadLsaType (t ! 3))"
    by (simp only: length_append length_be_bytes) simp
  then show ?thesis
    unfolding dd_parse_def DD_MIN_LEN_def
    by (simp add: in_bounds dd_encode_def)
qed

section \<open>Concrete instances\<close>

definition toy_digests :: digests where
  "toy_digests =
     \<lparr>md5 = (\<lambda>m. replicate 16 (word_of_nat (length m))),
      hmac_sha256 = (\<lambda>k m. replicate 32 (word_of_nat (length k + length m))),
      hmac_sha384 = (\<lambda>k m. replicate 48 0), hmac_sha512 = (\<lambda>k m. replicate 64 0)\<rparr>"

lemma wf_toy_digests [simp]: "wf_digests toy_digests"
  by (simp add: toy_digests_def wf_digests_def)

theorem encoded_packet_authenticates_witness:
  "\<exists>buf q. packet_encode example_lsu = Ok buf \<and>
     apply_auth toy_digests buf (HmacSha Sha256 7 [1, 2, 3]) 1 = Ok q \<and>
     verify_auth toy_digests q (HmacSha Sha256 7 [1, 2, 3])"
proof -
  obtain buf where buf: "packet_encode example_lsu = Ok buf" "length buf = 60"
    using packet_encode_example by blast
  have "au_type (packet_header example_lsu) = 0"
    by (simp add: example_lsu_def ospf_header_new_def)
  note encoded_packet_authenticates
    [OF wf_toy_digests wf_packet_header [OF wf_example_lsu] this buf(1), of "HmacSha Sha256 7 [1, 2, 3]" 1]
  then show ?thesis using buf by auto
qed

definition example_authed :: "u8 list" where
  "example_authed = [2, 1, 0, 24, 0, 0, 0, 0, 0, 0, 0, 0, 0, 0, 0, 2, 0, 0, 7, 16, 0, 0, 0, 1] @ replicate 16 40"

theorem verify_auth_crypto_sound_witness:
  "verify_auth toy_digests example_authed (Md5 7 [1]) \<and>
   u16_of_be (example_authed ! 14) (example_authed ! 15) = 2 \<and>
   (\<exists>n. covered_by_mac toy_digests example_authed (Md5 7 [1]) n)"
proof -
  have "verify_auth toy_digests example_authed (Md5 7 [1])"
    by (simp add: verify_auth_def example_authed_def OSPF_HEADER_LEN_def u16_of_be_def toy_digests_def)
  then show ?thesis
    using verify_auth_crypto_sound [of toy_digests example_authed "Md5 7 [1]"] by simp
qed

definition example_hello :: HelloPacket where
  "example_hello =
     \<lparr>hp_network_mask = 0xFFFFFF00, hp_hello_interval = 10, hp_options = options_standard,
      hp_router_priority = 1, hp_router_dead_interval = 40, hp_designated_router = 0,
      hp_backup_designated_router = 0, hp_neighbors = [0x02020202]\<rparr>"

theorem hello_parse_trailer_witness:
  "hello_parse (hello_encode example_hello @ concat (map u32_be_bytes [1, 2, 3, 4]) @ []) =
   Ok (example_hello\<lparr>hp_neighbors := [0x02020202, 1, 2, 3, 4]\<rparr>)"
  using hello_parse_trailer [of "[]" example_hello "[1, 2, 3, 4]"] by (simp add: example_hello_def)

theorem dd_parse_trailer_witness:
  "dd_parse (dd_encode \<lparr>interface_mtu = 1500, dd_options = 2, dd_flags = 7, dd_sequence_number = 1,
     lsa_headers = []\<rparr> @ hmac_sha256 toy_digests [] []) = Err (BadLsaType 0)"
proof -
  have "hmac_sha256 toy_digests [] [] = replicate 32 0" by (simp add: toy_digests_def)
  moreover have "lsa_type_from_u8 0 = None" by (simp add: lsa_type_from_u8_def)
  ultimately show ?thesis
    using dd_parse_trailer [of "replicate 32 0"] by simp
qed

end
