(* ===== verification/Neighbor_Fsm.thy ===== *)
theory Neighbor_Fsm
  imports Packet_Codec
begin

text \<open>
  \<^verbatim>\<open>src/proto/neighbor.rs\<close>: the neighbor state machine. \<open>handle_event\<close> is the whole match of the source,
  ordered by event. The theorems: the result reports exactly the state changes, \<open>Full\<close> is entered only
  on \<open>ExchangeDone\<close> with nothing to request or on \<open>LoadingDone\<close>, every regression empties the exchange lists, and the events of an
  adjacency that forms lead to \<open>Full\<close>.
\<close>

section \<open>States\<close>

datatype NeighborState = Down | Attempt | Init | TwoWay | ExStart | Exchange | Loading | Full

text \<open>\<^verbatim>\<open>derive(PartialOrd, Ord)\<close>: the order of declaration.\<close>

fun state_rank :: "NeighborState \<Rightarrow> nat" where
  "state_rank Down = 0"
| "state_rank Attempt = 1"
| "state_rank Init = 2"
| "state_rank TwoWay = 3"
| "state_rank ExStart = 4"
| "state_rank Exchange = 5"
| "state_rank Loading = 6"
| "state_rank Full = 7"

lemma state_rank_inject [simp]: "state_rank s = state_rank t \<longleftrightarrow> s = t"
  by (cases s; cases t) simp_all

instantiation NeighborState :: linorder
begin

definition less_eq_NeighborState :: "NeighborState \<Rightarrow> NeighborState \<Rightarrow> bool" where
  "less_eq_NeighborState s t \<longleftrightarrow> state_rank s \<le> state_rank t"

definition less_NeighborState :: "NeighborState \<Rightarrow> NeighborState \<Rightarrow> bool" where
  "less_NeighborState s t \<longleftrightarrow> state_rank s < state_rank t"

instance
  by standard (auto simp: less_eq_NeighborState_def less_NeighborState_def)

end

lemmas state_order = less_eq_NeighborState_def less_NeighborState_def

definition is_two_way_or_better :: "NeighborState \<Rightarrow> bool" where
  "is_two_way_or_better s \<longleftrightarrow> s \<ge> TwoWay"

definition is_full :: "NeighborState \<Rightarrow> bool" where
  "is_full s \<longleftrightarrow> s = Full"

datatype NeighborEvent =
    HelloReceived | TwoWayReceived | NegotiationDone | ExchangeDone | BadLsReq | LoadingDone
  | AdjOk | SeqNumberMismatch | InactivityTimer | OneWay | LinkDown

record Neighbor =
  n_router_id :: ipv4
  n_address :: ipv4
  n_state :: NeighborState
  n_priority :: u8
  n_dr :: ipv4
  n_bdr :: ipv4
  n_options :: u8
  dd_seq_number :: u32
  is_master :: bool
  sent_m_clear :: bool
  last_dd :: "DbDescPacket option"
  ls_request_list :: "LsaKey list"
  ls_retransmit_list :: "LsaHeader list"
  db_summary_list :: "LsaHeader list"
  last_heard :: instant
  last_dd_sent :: instant
  last_lsr_sent :: instant

definition neighbor_new :: "instant \<Rightarrow> ipv4 \<Rightarrow> ipv4 \<Rightarrow> Neighbor" where
  "neighbor_new now rid addr =
     \<lparr>n_router_id = rid, n_address = addr, n_state = Down, n_priority = 0, n_dr = UNSPECIFIED,
      n_bdr = UNSPECIFIED, n_options = 0, dd_seq_number = 0, is_master = False, sent_m_clear = False,
      last_dd = None, ls_request_list = [], ls_retransmit_list = [], db_summary_list = [],
      last_heard = now, last_dd_sent = now - 10000, last_lsr_sent = now - 60000\<rparr>"

definition clear_lists :: "Neighbor \<Rightarrow> Neighbor" where
  "clear_lists n = n\<lparr>ls_request_list := [], ls_retransmit_list := [], db_summary_list := [], last_dd := None\<rparr>"

section \<open>Transitions\<close>

text \<open>The \<^verbatim>\<open>match (&self.state, event)\<close>: the target state, if any, and the neighbor after the arm's effects.\<close>

definition neighbor_transition ::
  "instant \<Rightarrow> NeighborEvent \<Rightarrow> bool \<Rightarrow> Neighbor \<Rightarrow> NeighborState option \<times> Neighbor" where
  "neighbor_transition now ev adj n =
     (case ev of
        HelloReceived \<Rightarrow>
          (if n_state n = Down \<or> n_state n = Attempt then Some Init else None, n\<lparr>last_heard := now\<rparr>)
      | TwoWayReceived \<Rightarrow>
          (if n_state n = Init then Some (if adj then ExStart else TwoWay) else None, n)
      | NegotiationDone \<Rightarrow> (if n_state n = ExStart then Some Exchange else None, n)
      | ExchangeDone \<Rightarrow>
          (if n_state n = Exchange then Some (if ls_request_list n = [] then Full else Loading) else None, n)
      | LoadingDone \<Rightarrow> (if n_state n = Loading then Some Full else None, n)
      | SeqNumberMismatch \<Rightarrow>
          (if n_state n \<ge> ExStart then (Some ExStart, clear_lists n) else (None, n))
      | BadLsReq \<Rightarrow>
          (if n_state n \<ge> ExStart then (Some ExStart, clear_lists n) else (None, n))
      | AdjOk \<Rightarrow>
          (if n_state n = TwoWay then (if adj then Some ExStart else None, n)
           else if n_state n \<ge> ExStart then
             (if \<not> adj then (Some TwoWay, clear_lists n) else (None, n))
           else (None, n))
      | OneWay \<Rightarrow> (if n_state n \<ge> TwoWay then (Some Init, clear_lists n) else (None, n))
      | InactivityTimer \<Rightarrow> (Some Down, clear_lists n)
      | LinkDown \<Rightarrow> (Some Down, clear_lists n))"

definition handle_event ::
  "instant \<Rightarrow> NeighborEvent \<Rightarrow> bool \<Rightarrow> Neighbor \<Rightarrow> NeighborState option \<times> Neighbor" where
  "handle_event now ev adj n =
     (case neighbor_transition now ev adj n of
        (Some s, n') \<Rightarrow> if s \<noteq> n_state n then (Some s, n'\<lparr>n_state := s\<rparr>) else (None, n')
      | (None, n') \<Rightarrow> (None, n'))"

section \<open>Lemmas\<close>

definition lists_empty :: "Neighbor \<Rightarrow> bool" where
  "lists_empty n \<longleftrightarrow> ls_request_list n = [] \<and> ls_retransmit_list n = [] \<and> db_summary_list n = [] \<and> last_dd n = None"

lemma lists_empty_clear [simp]: "lists_empty (clear_lists n)" "lists_empty (n\<lparr>n_state := s\<rparr>) = lists_empty n"
  by (simp_all add: lists_empty_def clear_lists_def)

lemma clear_lists_simps [simp]:
  "n_state (clear_lists n) = n_state n" "n_router_id (clear_lists n) = n_router_id n"
  "n_address (clear_lists n) = n_address n" "n_priority (clear_lists n) = n_priority n"
  "n_dr (clear_lists n) = n_dr n" "n_bdr (clear_lists n) = n_bdr n"
  "is_master (clear_lists n) = is_master n" "ls_request_list (clear_lists n) = []"
  "ls_retransmit_list (clear_lists n) = []"
  by (simp_all add: clear_lists_def)

lemmas handle_event_defs = handle_event_def neighbor_transition_def

lemma handle_event_result:
  "fst (handle_event now ev adj n) =
     (if n_state (snd (handle_event now ev adj n)) = n_state n then None
      else Some (n_state (snd (handle_event now ev adj n))))"
  by (cases ev) (auto simp: handle_event_defs)

lemma handle_event_identity [simp]:
  "n_router_id (snd (handle_event now ev adj n)) = n_router_id n"
  "n_address (snd (handle_event now ev adj n)) = n_address n"
  "n_priority (snd (handle_event now ev adj n)) = n_priority n"
  "n_dr (snd (handle_event now ev adj n)) = n_dr n"
  "n_bdr (snd (handle_event now ev adj n)) = n_bdr n"
  by (cases ev; simp add: handle_event_defs)+

text \<open>Below ExStart there is nothing to request, to retransmit or to describe.\<close>

definition nbr_inv :: "Neighbor \<Rightarrow> bool" where
  "nbr_inv n \<longleftrightarrow> (n_state n < ExStart \<longrightarrow> lists_empty n)"

lemma nbr_inv_new [simp]: "nbr_inv (neighbor_new now rid addr)"
  by (simp add: nbr_inv_def neighbor_new_def lists_empty_def)

lemma lists_empty_last_heard [simp]: "lists_empty (n\<lparr>last_heard := t\<rparr>) = lists_empty n"
  by (simp add: lists_empty_def)

lemma nbr_inv_handle_event: "nbr_inv n \<Longrightarrow> nbr_inv (snd (handle_event now ev adj n))"
  by (cases ev; cases "n_state n") (simp_all add: handle_event_defs nbr_inv_def state_order)

lemma handle_event_enters_Full:
  "n_state n \<noteq> Full \<Longrightarrow> n_state (snd (handle_event now ev adj n)) = Full \<Longrightarrow>
   n_state n = Exchange \<and> ev = ExchangeDone \<and> ls_request_list n = [] \<or> n_state n = Loading \<and> ev = LoadingDone"
  by (cases ev) (auto simp: handle_event_defs split: if_splits)

lemma handle_event_regression:
  "n_state (snd (handle_event now ev adj n)) < n_state n \<Longrightarrow> lists_empty (snd (handle_event now ev adj n))"
  by (cases ev; cases "n_state n") (simp_all add: handle_event_defs state_order split: if_splits)

section \<open>Properties\<close>

text \<open>
  C8. The neighbor state machine is sound on every event: the result is the new state exactly when
  the state changed; \<open>Full\<close> is entered only from \<open>Exchange\<close> on \<open>ExchangeDone\<close> with an empty request list
  or from \<open>Loading\<close> on \<open>LoadingDone\<close>; a transition to a lower state empties the request, retransmit
  and summary lists; and below \<open>ExStart\<close> they stay empty.
\<close>

theorem handle_event_sound:
  "let n' = snd (handle_event now ev adj n) in
     fst (handle_event now ev adj n) = (if n_state n' = n_state n then None else Some (n_state n')) \<and>
     (n_state n \<noteq> Full \<and> n_state n' = Full \<longrightarrow>
        n_state n = Exchange \<and> ev = ExchangeDone \<and> ls_request_list n = [] \<or>
        n_state n = Loading \<and> ev = LoadingDone) \<and>
     (n_state n' < n_state n \<longrightarrow> lists_empty n') \<and> (nbr_inv n \<longrightarrow> nbr_inv n')"
  unfolding Let_def
  by (intro conjI impI handle_event_result handle_event_regression nbr_inv_handle_event)
    (auto dest: handle_event_enters_Full)

definition example_neighbor :: Neighbor where
  "example_neighbor =
     (neighbor_new 0 0x02020202 0x0A000002)\<lparr>n_state := Exchange, ls_request_list := []\<rparr>"

theorem handle_event_sound_witness:
  "n_state (snd (handle_event 5 ExchangeDone True example_neighbor)) = Full \<and>
   fst (handle_event 5 ExchangeDone True example_neighbor) = Some Full"
  using handle_event_sound [of 5 ExchangeDone True example_neighbor]
  by (simp add: Let_def example_neighbor_def handle_event_defs neighbor_new_def)

fun run_events :: "instant \<Rightarrow> NeighborEvent list \<Rightarrow> Neighbor \<Rightarrow> Neighbor" where
  "run_events now [] n = n"
| "run_events now (ev # evs) n = run_events now evs (snd (handle_event now ev True n))"

text \<open>
  An adjacency that should form does: from any neighbor in \<open>Down\<close>, the events of a complete
  exchange lead to \<open>Full\<close>, through \<open>Loading\<close> when something was requested meanwhile and directly
  otherwise.
\<close>

theorem adjacency_reaches_Full:
  assumes "n_state n = Down"
  shows "n_state (snd (handle_event now ExchangeDone True
      ((run_events now [HelloReceived, TwoWayReceived, NegotiationDone] n)\<lparr>ls_request_list := reqs\<rparr>))) =
      (if reqs = [] then Full else Loading) \<and>
    n_state (run_events now [ExchangeDone, LoadingDone]
      ((run_events now [HelloReceived, TwoWayReceived, NegotiationDone] n)\<lparr>ls_request_list := reqs\<rparr>)) = Full"
  using assms by (simp_all add: handle_event_defs)

theorem adjacency_reaches_Full_witness:
  "n_state (run_events 0 [ExchangeDone, LoadingDone]
     ((run_events 0 [HelloReceived, TwoWayReceived, NegotiationDone] (neighbor_new 0 2 3))
       \<lparr>ls_request_list := [lsa_key example_lsa]\<rparr>)) = Full"
  using adjacency_reaches_Full [of "neighbor_new 0 2 3" 0 "[lsa_key example_lsa]"]
  by (simp add: neighbor_new_def)

end
