(* ===== verification/Interface_Fsm.thy ===== *)
theory Interface_Fsm
  imports Auth Neighbor_Fsm
begin

text \<open>
  \<^verbatim>\<open>src/proto/interface.rs\<close>: the interface, its state machine and the election of the designated router.
  The theorems: who can be elected, that the two offices go to different routers, that an incumbent is
  not displaced, that the outcome does not depend on the iteration order of the neighbor map, and that
  the state the interface enters matches the election.
\<close>

section \<open>The interface\<close>

datatype InterfaceState = If_Down | Loopback | Waiting | If_PointToPoint | DROther | Backup | DR

datatype NetworkType = Broadcast | PointToPoint | NonBroadcast | PointToMultipoint

record StaticNeighbor =
  sn_address :: ipv4
  sn_priority :: u8

datatype InterfaceEvent =
  InterfaceUp | WaitTimer | BackupSeen | NeighborChange | LoopInd | UnloopInd | InterfaceDown

record OspfInterface =
  if_name :: string
  sw_if_index :: u32
  if_address :: ipv4
  if_mask :: ipv4
  if_state :: InterfaceState
  network_type :: NetworkType
  if_area_id :: ipv4
  hello_interval :: u16
  dead_interval :: u32
  rxmt_interval :: u16
  if_cost :: u16
  if_priority :: u8
  if_passive :: bool
  static_neighbors :: "StaticNeighbor list"
  if_dr :: ipv4
  if_bdr :: ipv4
  if_options :: OspfOptions
  neighbors :: "(ipv4 \<times> Neighbor) list"
  next_hello :: instant
  wait_timer_expiry :: "instant option"
  auth_key :: AuthKey
  crypto_seq :: u32
  if_router_id :: ipv4
  dd_mtu :: u16

definition interface_new ::
  "instant \<Rightarrow> string \<Rightarrow> u32 \<Rightarrow> ipv4 \<Rightarrow> ipv4 \<Rightarrow> ipv4 \<Rightarrow> NetworkType \<Rightarrow> ipv4 \<Rightarrow> OspfInterface" where
  "interface_new now name idx addr msk area nt rid =
     \<lparr>if_name = name, sw_if_index = idx, if_address = addr, if_mask = msk, if_state = If_Down,
      network_type = nt, if_area_id = area, hello_interval = 10, dead_interval = 40, rxmt_interval = 5,
      if_cost = 10, if_priority = 1, if_passive = False, static_neighbors = [], if_dr = UNSPECIFIED,
      if_bdr = UNSPECIFIED, if_options = options_standard, neighbors = [], next_hello = now,
      wait_timer_expiry = None, auth_key = NoKey, crypto_seq = 0, if_router_id = rid, dd_mtu = 1500\<rparr>"

section \<open>Election of the designated router\<close>

record Candidate =
  c_router_id :: ipv4
  c_ip_address :: ipv4
  c_priority :: u8
  c_declared_dr :: ipv4
  c_declared_bdr :: ipv4

definition bdr_order :: "Candidate \<Rightarrow> Candidate \<Rightarrow> ordering" where
  "bdr_order a b =
     then_cmp (then_cmp
       (cmp (c_declared_bdr a = c_ip_address a) (c_declared_bdr b = c_ip_address b))
       (cmp (c_priority a) (c_priority b)))
       (cmp (c_router_id a) (c_router_id b))"

definition dr_order :: "Candidate \<Rightarrow> Candidate \<Rightarrow> ordering" where
  "dr_order a b = then_cmp (cmp (c_priority a) (c_priority b)) (cmp (c_router_id a) (c_router_id b))"

text \<open>One pass over the candidates: the elected DR and BDR.\<close>

definition elect_pass :: "Candidate list \<Rightarrow> ipv4 \<times> ipv4" where
  "elect_pass candidates =
     (let eligible = filter (\<lambda>c. c_priority c > 0) candidates;
          bdr = map_option c_ip_address
            (max_by bdr_order (filter (\<lambda>c. c_declared_dr c \<noteq> c_ip_address c) eligible));
          dr_declarer = map_option c_ip_address
            (max_by dr_order (filter (\<lambda>c. c_declared_dr c = c_ip_address c) eligible));
          new_dr = (case dr_declarer of Some d \<Rightarrow> d | None \<Rightarrow> (case bdr of Some b \<Rightarrow> b | None \<Rightarrow> UNSPECIFIED));
          new_bdr =
            (if Some new_dr = bdr then
               (case max_by dr_order (filter (\<lambda>c. c_priority c > 0 \<and> c_ip_address c \<noteq> new_dr) candidates) of
                  Some c \<Rightarrow> c_ip_address c | None \<Rightarrow> UNSPECIFIED)
             else (case bdr of Some b \<Rightarrow> b | None \<Rightarrow> UNSPECIFIED))
      in (new_dr, new_bdr))"

definition neighbor_candidate :: "Neighbor \<Rightarrow> Candidate" where
  "neighbor_candidate n =
     \<lparr>c_router_id = n_router_id n, c_ip_address = n_address n, c_priority = n_priority n,
      c_declared_dr = n_dr n, c_declared_bdr = n_bdr n\<rparr>"

definition self_candidate :: "OspfInterface \<Rightarrow> ipv4 \<Rightarrow> ipv4 \<Rightarrow> Candidate" where
  "self_candidate i self_dr self_bdr =
     \<lparr>c_router_id = if_router_id i, c_ip_address = if_address i, c_priority = if_priority i,
      c_declared_dr = self_dr, c_declared_bdr = self_bdr\<rparr>"

definition election_candidates :: "OspfInterface \<Rightarrow> ipv4 \<Rightarrow> ipv4 \<Rightarrow> Candidate list" where
  "election_candidates i self_dr self_bdr =
     map neighbor_candidate (filter (\<lambda>n. is_two_way_or_better (n_state n)) (map snd (neighbors i))) @
     [self_candidate i self_dr self_bdr]"

text \<open>The \<^verbatim>\<open>loop\<close>: at most one rerun, with our own declarations replaced by the first result.\<close>

definition dr_election_result :: "OspfInterface \<Rightarrow> ipv4 \<times> ipv4" where
  "dr_election_result i =
     (let (new_dr, new_bdr) = elect_pass (election_candidates i (if_dr i) (if_bdr i));
          had_prior_role = (if_dr i = if_address i \<or> if_bdr i = if_address i);
          was_dr = (if_dr i = if_address i);
          was_bdr = (if_bdr i = if_address i);
          is_dr = (new_dr = if_address i);
          is_bdr = (new_bdr = if_address i)
      in if had_prior_role \<and> (was_dr \<noteq> is_dr \<or> was_bdr \<noteq> is_bdr)
         then elect_pass (election_candidates i new_dr new_bdr)
         else (new_dr, new_bdr))"

definition run_dr_election :: "OspfInterface \<Rightarrow> InterfaceState \<times> OspfInterface" where
  "run_dr_election i =
     (let (new_dr, new_bdr) = dr_election_result i;
          i = i\<lparr>if_dr := new_dr, if_bdr := new_bdr\<rparr>
      in (if if_dr i = if_address i then DR
          else if if_bdr i = if_address i then Backup
          else DROther, i))"

section \<open>Adjacencies and events\<close>

definition should_form_adjacency :: "OspfInterface \<Rightarrow> Neighbor \<Rightarrow> bool" where
  "should_form_adjacency i n \<longleftrightarrow>
     (case network_type i of
        PointToPoint \<Rightarrow> True
      | PointToMultipoint \<Rightarrow> True
      | _ \<Rightarrow> if_state i = DR \<or> if_state i = Backup \<or> n_dr n = n_address n \<or> n_bdr n = n_address n)"

definition reevaluate_should_adj :: "OspfInterface \<Rightarrow> Neighbor \<Rightarrow> bool" where
  "reevaluate_should_adj i n \<longleftrightarrow>
     (case network_type i of
        PointToPoint \<Rightarrow> True
      | PointToMultipoint \<Rightarrow> True
      | _ \<Rightarrow> if_state i = DR \<or> if_state i = Backup \<or> n_dr n = n_address n \<or> n_bdr n = n_address n \<or>
             n_dr n = if_address i \<or> n_bdr n = if_address i)"

definition reevaluate_adjacencies :: "instant \<Rightarrow> OspfInterface \<Rightarrow> OspfInterface" where
  "reevaluate_adjacencies now i =
     (let ids = map fst (filter (\<lambda>(_, n). n_state n \<ge> TwoWay) (neighbors i))
      in i\<lparr>neighbors :=
            fold (modify_key (\<lambda>n. snd (handle_event now AdjOk (reevaluate_should_adj i n) n))) ids (neighbors i)\<rparr>)"

definition interface_transition ::
  "instant \<Rightarrow> InterfaceEvent \<Rightarrow> OspfInterface \<Rightarrow> InterfaceState option \<times> OspfInterface" where
  "interface_transition now ev i =
     (case ev of
        InterfaceUp \<Rightarrow>
          (if if_state i = If_Down then
             (case network_type i of
                PointToPoint \<Rightarrow> (Some If_PointToPoint, i)
              | PointToMultipoint \<Rightarrow> (Some If_PointToPoint, i)
              | _ \<Rightarrow>
                  (if if_priority i = 0 then (Some DROther, i)
                   else (Some Waiting, i\<lparr>wait_timer_expiry := Some (now + 1000 * int (unat (dead_interval i)))\<rparr>)))
           else (None, i))
      | WaitTimer \<Rightarrow>
          (if if_state i = Waiting then apfst Some (run_dr_election (i\<lparr>wait_timer_expiry := None\<rparr>)) else (None, i))
      | BackupSeen \<Rightarrow>
          (if if_state i = Waiting then apfst Some (run_dr_election (i\<lparr>wait_timer_expiry := None\<rparr>)) else (None, i))
      | NeighborChange \<Rightarrow>
          (if if_state i = DROther \<or> if_state i = Backup \<or> if_state i = DR then apfst Some (run_dr_election i)
           else (None, i))
      | LoopInd \<Rightarrow> (if if_state i = If_Down then Some Loopback else None, i)
      | UnloopInd \<Rightarrow> (if if_state i = Loopback then Some If_Down else None, i)
      | InterfaceDown \<Rightarrow>
          (Some If_Down, i\<lparr>neighbors := [], if_dr := UNSPECIFIED, if_bdr := UNSPECIFIED, wait_timer_expiry := None\<rparr>))"

definition interface_handle_event ::
  "instant \<Rightarrow> InterfaceEvent \<Rightarrow> OspfInterface \<Rightarrow> InterfaceState option \<times> OspfInterface" where
  "interface_handle_event now ev i =
     (case interface_transition now ev i of
        (Some s, i') \<Rightarrow>
          if s \<noteq> if_state i then
            (let i' = i'\<lparr>if_state := s\<rparr>;
                 i' = (if s = DR \<or> s = Backup \<or> s = DROther then reevaluate_adjacencies now i' else i')
             in (Some s, i'))
          else (None, i')
      | (None, i') \<Rightarrow> (None, i'))"

definition hello_destination :: "OspfInterface \<Rightarrow> ipv4" where
  "hello_destination i = ALL_SPF_ROUTERS"

section \<open>The two orders\<close>

definition dr_key :: "Candidate \<Rightarrow> u8 \<times> u32" where
  "dr_key c = (c_priority c, c_router_id c)"

definition bdr_key :: "Candidate \<Rightarrow> bool \<times> u8 \<times> u32" where
  "bdr_key c = (c_declared_bdr c = c_ip_address c, c_priority c, c_router_id c)"

interpretation dr_cmp: keyed_comparator dr_order dr_key
  by unfold_locales (auto simp: dr_order_def dr_key_def cmp_def)

interpretation bdr_cmp: keyed_comparator bdr_order bdr_key
  by unfold_locales (auto simp: bdr_order_def bdr_key_def cmp_def)

section \<open>Who is elected\<close>

text \<open>The address of a router that may hold an office: ours or that of a 2-way neighbor, with a non-zero priority.\<close>

definition contender :: "OspfInterface \<Rightarrow> ipv4 \<Rightarrow> bool" where
  "contender i a \<longleftrightarrow> if_address i = a \<and> if_priority i > 0 \<or>
     (\<exists>n \<in> snd ` set (neighbors i). is_two_way_or_better (n_state n) \<and> n_priority n > 0 \<and> n_address n = a)"

lemma contender_iff:
  "contender i a \<longleftrightarrow> (\<exists>c \<in> set (election_candidates i d b). c_priority c > 0 \<and> c_ip_address c = a)"
  by (force simp: contender_def election_candidates_def neighbor_candidate_def self_candidate_def)

lemma elect_pass_sound:
  assumes "elect_pass cs = (d, b)"
  shows "(if \<exists>c \<in> set cs. c_priority c > 0 then \<exists>c \<in> set cs. c_priority c > 0 \<and> c_ip_address c = d else d = 0) \<and>
    (b = 0 \<or> (\<exists>c \<in> set cs. c_priority c > 0 \<and> c_ip_address c = b)) \<and> (d = b \<longrightarrow> d = 0)"
proof -
  let ?e = "filter (\<lambda>c. c_priority c > 0) cs"
  let ?nd = "filter (\<lambda>c. c_declared_dr c \<noteq> c_ip_address c) ?e"
  let ?dd = "filter (\<lambda>c. c_declared_dr c = c_ip_address c) ?e"
  define bo where "bo = map_option c_ip_address (max_by bdr_order ?nd)"
  define dd where "dd = map_option c_ip_address (max_by dr_order ?dd)"
  let ?third = "\<lambda>d. max_by dr_order (filter (\<lambda>c. c_priority c > 0 \<and> c_ip_address c \<noteq> d) cs)"
  let ?D = "case dd of Some d \<Rightarrow> d | None \<Rightarrow> (case bo of Some b \<Rightarrow> b | None \<Rightarrow> 0)"
  let ?B = "\<lambda>d. if Some d = bo then (case ?third d of Some c \<Rightarrow> c_ip_address c | None \<Rightarrow> 0)
        else (case bo of Some b \<Rightarrow> b | None \<Rightarrow> 0)"
  have "(?D, ?B ?D) = (d, b)"
    using assms unfolding elect_pass_def Let_def bo_def [symmetric] dd_def [symmetric] .
  then have eqs: "?D = d \<and> ?B ?D = b" unfolding prod.inject .
  then have d: "d = ?D" by (rule conjunct1 [THEN sym])
  have b: "b = ?B d" using eqs [THEN conjunct2, THEN sym] unfolding eqs [THEN conjunct1] .
  have bS: "\<exists>c \<in> set cs. c_priority c > 0 \<and> c_ip_address c = x" if "bo = Some x" for x
    using that unfolding bo_def by (auto dest!: bdr_cmp.max_by_Some)
  have dS: "\<exists>c \<in> set cs. c_priority c > 0 \<and> c_ip_address c = x" if "dd = Some x" for x
    using that unfolding dd_def by (auto dest!: dr_cmp.max_by_Some)
  have N: "\<not> (\<exists>c \<in> set cs. c_priority c > 0)" if "bo = None" "dd = None"
    using that unfolding bo_def dd_def by (auto simp: filter_empty_conv)
  have T: "c \<in> set cs \<and> c_priority c > 0 \<and> c_ip_address c \<noteq> x" if "?third x = Some c" for x c
    using dr_cmp.max_by_Some [OF that] by simp
  have 1: "if \<exists>c \<in> set cs. c_priority c > 0 then \<exists>c \<in> set cs. c_priority c > 0 \<and> c_ip_address c = d else d = 0"
  proof (cases dd)
    case None
    show ?thesis
    proof (cases bo)
      case None
      with \<open>dd = None\<close> show ?thesis using d N by simp
    next
      case (Some x)
      then have "\<exists>c \<in> set cs. c_priority c > 0 \<and> c_ip_address c = d"
        using d \<open>dd = None\<close> bS [of x] by simp
      then show ?thesis unfolding if_bool_eq_conj by blast
    qed
  next
    case (Some x)
    then have "\<exists>c \<in> set cs. c_priority c > 0 \<and> c_ip_address c = d" using d dS [of x] by simp
    then show ?thesis unfolding if_bool_eq_conj by blast
  qed
  have 2: "b = 0 \<or> (\<exists>c \<in> set cs. c_priority c > 0 \<and> c_ip_address c = b)"
  proof (cases "Some d = bo")
    case True
    then have "b = 0 \<or> (\<exists>c. ?third d = Some c \<and> b = c_ip_address c)"
      using b by (cases "?third d") simp_all
    then show ?thesis using T by blast
  next
    case False
    then have "b = 0 \<or> bo = Some b" using b by (cases bo) simp_all
    then show ?thesis using bS by blast
  qed
  have 3: "d = b \<longrightarrow> d = 0"
  proof (cases "Some d = bo")
    case True
    then have "b = 0 \<or> (\<exists>c. ?third d = Some c \<and> b = c_ip_address c)"
      using b by (cases "?third d") simp_all
    then show ?thesis using T by blast
  next
    case False
    then show ?thesis using b by (cases bo) simp_all
  qed
  from 1 2 3 show ?thesis by blast
qed

lemma dr_election_result_pass:
  "\<exists>d b. dr_election_result i = elect_pass (election_candidates i d b)"
proof -
  let ?e = "elect_pass (election_candidates i (if_dr i) (if_bdr i))"
  have "dr_election_result i = ?e \<or>
      dr_election_result i = elect_pass (election_candidates i (fst ?e) (snd ?e))"
    by (cases ?e) (simp add: dr_election_result_def Let_def)
  then show ?thesis by blast
qed

lemma dr_election_outcome:
  assumes "dr_election_result i = (d, b)"
  shows "if \<exists>a. contender i a then contender i d else d = UNSPECIFIED"
    and "b = UNSPECIFIED \<or> contender i b" and "d = b \<longrightarrow> d = UNSPECIFIED"
proof -
  obtain x y where "dr_election_result i = elect_pass (election_candidates i x y)"
    using dr_election_result_pass by blast
  with assms have e: "elect_pass (election_candidates i x y) = (d, b)" by simp
  note c = contender_iff [of i _ x y]
  have ex: "(\<exists>a. contender i a) \<longleftrightarrow> (\<exists>c \<in> set (election_candidates i x y). c_priority c > 0)"
    unfolding c by blast
  show "if \<exists>a. contender i a then contender i d else d = UNSPECIFIED"
    using elect_pass_sound [OF e] unfolding ex unfolding c by (rule conjunct1)
  show "b = UNSPECIFIED \<or> contender i b" and "d = b \<longrightarrow> d = UNSPECIFIED"
    using elect_pass_sound [OF e] unfolding c by blast+
qed

text \<open>
  C9. The election gives an office only to routers with a non-zero priority that are in 2-way
  communication (or are the router itself); it elects a designated router whenever there is one; and
  the same router never holds both offices.
\<close>

theorem dr_election_sound:
  "case dr_election_result i of (d, b) \<Rightarrow>
     (if \<exists>a. contender i a then contender i d else d = UNSPECIFIED) \<and>
     (b = UNSPECIFIED \<or> contender i b) \<and> (d = b \<longrightarrow> d = UNSPECIFIED)"
  using dr_election_outcome [of i] by (cases "dr_election_result i") (simp del: split_paired_Ex)

section \<open>Incumbents\<close>

text \<open>
  \<open>cd\<close> is the only eligible candidate that declares itself DR, and \<open>cb\<close> the only other one that
  declares itself BDR.
\<close>

definition incumbents :: "Candidate list \<Rightarrow> Candidate \<Rightarrow> Candidate \<Rightarrow> bool" where
  "incumbents cs cd cb \<longleftrightarrow>
     cd \<in> set cs \<and> c_priority cd > 0 \<and> c_declared_dr cd = c_ip_address cd \<and>
     cb \<in> set cs \<and> c_priority cb > 0 \<and> c_declared_dr cb \<noteq> c_ip_address cb \<and>
     c_declared_bdr cb = c_ip_address cb \<and> c_ip_address cd \<noteq> c_ip_address cb \<and>
     (\<forall>c \<in> set cs. c_priority c > 0 \<longrightarrow> (c_declared_dr c = c_ip_address c \<longrightarrow> c = cd) \<and>
        (c_declared_dr c \<noteq> c_ip_address c \<and> c_declared_bdr c = c_ip_address c \<longrightarrow> c = cb))"

lemma elect_pass_incumbents:
  assumes "incumbents cs cd cb"
  shows "elect_pass cs = (c_ip_address cd, c_ip_address cb)"
proof -
  let ?e = "filter (\<lambda>c. c_priority c > 0) cs"
  have "max_by dr_order (filter (\<lambda>c. c_declared_dr c = c_ip_address c) ?e) = Some cd"
    using assms by (intro dr_cmp.max_by_unique) (auto simp: incumbents_def)
  moreover have "max_by bdr_order (filter (\<lambda>c. c_declared_dr c \<noteq> c_ip_address c) ?e) = Some cb"
    using assms by (intro bdr_cmp.max_by_unique) (auto simp: incumbents_def bdr_key_def)
  ultimately show ?thesis
    using assms by (auto simp: elect_pass_def Let_def incumbents_def)
qed

text \<open>
  The election is not preemptive: while the designated router and its backup keep declaring
  themselves and the interface agrees with them, the election confirms both, whatever the priorities
  of the other routers on the network.
\<close>

theorem dr_election_keeps_incumbents:
  assumes "incumbents (election_candidates i (if_dr i) (if_bdr i)) cd cb"
    and "if_dr i = c_ip_address cd" and "if_bdr i = c_ip_address cb"
  shows "dr_election_result i = (if_dr i, if_bdr i)"
  using elect_pass_incumbents [OF assms(1)] assms(2,3) by (simp add: dr_election_result_def Let_def)

section \<open>Independence of the map order\<close>

lemma elect_pass_cong:
  assumes "set cs = set cs'" and "inj_on c_router_id (set cs)"
  shows "elect_pass cs = elect_pass cs'"
proof -
  have d: "max_by dr_order (filter P cs) = max_by dr_order (filter P cs')" for P
    using assms by (intro dr_cmp.max_by_cong) (auto simp: inj_on_def dr_key_def)
  have b: "max_by bdr_order (filter P cs) = max_by bdr_order (filter P cs')" for P
    using assms by (intro bdr_cmp.max_by_cong) (auto simp: inj_on_def bdr_key_def)
  show ?thesis unfolding elect_pass_def Let_def filter_filter d b ..
qed

definition unique_router_ids :: "OspfInterface \<Rightarrow> bool" where
  "unique_router_ids i \<longleftrightarrow> inj_on n_router_id (snd ` set (neighbors i)) \<and>
     if_router_id i \<notin> n_router_id ` snd ` set (neighbors i)"

lemma inj_on_candidates:
  "unique_router_ids i \<Longrightarrow> inj_on c_router_id (set (election_candidates i d b))"
proof -
  assume u: "unique_router_ids i"
  let ?N = "{n \<in> snd ` set (neighbors i). is_two_way_or_better (n_state n)}"
  have r: "c_router_id \<circ> neighbor_candidate = n_router_id"
    by (simp add: fun_eq_iff neighbor_candidate_def)
  have "inj_on (c_router_id \<circ> neighbor_candidate) ?N"
    using u unfolding r unique_router_ids_def by (auto intro: inj_on_subset)
  then have "inj_on c_router_id (neighbor_candidate ` ?N)" by (rule inj_on_imageI)
  moreover have "c_router_id (self_candidate i d b) \<notin> c_router_id ` neighbor_candidate ` ?N"
    using u unfolding image_comp r unique_router_ids_def by (auto simp: self_candidate_def)
  moreover have "set (election_candidates i d b) = Set.insert (self_candidate i d b) (neighbor_candidate ` ?N)"
    by (auto simp: election_candidates_def)
  ultimately show ?thesis by (simp only: inj_on_insert) blast
qed

text \<open>
  The outcome of the election does not depend on the order in which the neighbor map is iterated,
  as long as no two routers on the network share a router id.
\<close>

theorem dr_election_order_independent:
  assumes "unique_router_ids i" and "set ns = set (neighbors i)"
  shows "dr_election_result (i\<lparr>neighbors := ns\<rparr>) = dr_election_result i"
proof -
  have "elect_pass (election_candidates (i\<lparr>neighbors := ns\<rparr>) d b) = elect_pass (election_candidates i d b)" for d b
  proof (rule elect_pass_cong [symmetric])
    show "set (election_candidates i d b) = set (election_candidates (i\<lparr>neighbors := ns\<rparr>) d b)"
      by (simp add: election_candidates_def self_candidate_def assms(2))
  qed (rule inj_on_candidates [OF assms(1)])
  then show ?thesis by (simp add: dr_election_result_def case_prod_beta Let_def)
qed

section \<open>Interface events\<close>

lemma reevaluate_fields [simp]:
  "if_state (reevaluate_adjacencies now i) = if_state i"
  "if_dr (reevaluate_adjacencies now i) = if_dr i"
  "if_bdr (reevaluate_adjacencies now i) = if_bdr i"
  "if_address (reevaluate_adjacencies now i) = if_address i"
  "if_priority (reevaluate_adjacencies now i) = if_priority i"
  "map fst (neighbors (reevaluate_adjacencies now i)) = map fst (neighbors i)"
  by (simp_all add: reevaluate_adjacencies_def Let_def)

lemma election_state:
  "fst (run_dr_election i) =
     (case dr_election_result i of (d, b) \<Rightarrow>
        if d = if_address i then DR else if b = if_address i then Backup else DROther)"
  by (simp add: run_dr_election_def Let_def split: prod.split)

lemma not_contender_not_elected:
  assumes "\<not> contender i (if_address i)" and "if_address i \<noteq> UNSPECIFIED"
  shows "fst (run_dr_election i) = DROther"
proof -
  obtain d b where r: "dr_election_result i = (d, b)" by fastforce
  have "d \<noteq> if_address i" "b \<noteq> if_address i"
    using dr_election_outcome(1,2) [OF r] assms by (auto split: if_splits)
  then show ?thesis by (simp add: election_state r)
qed

lemma contender_wait [simp]: "contender (i\<lparr>wait_timer_expiry := t\<rparr>) = contender i"
  by (simp add: contender_def fun_eq_iff)

text \<open>
  A router whose priority is zero never becomes DR or Backup: whatever event the interface handles,
  it does not enter those states, provided no neighbor uses the interface's own address.
\<close>

theorem priority_zero_never_elected:
  assumes "if_priority i = 0" and "if_address i \<noteq> UNSPECIFIED"
    and "\<forall>n \<in> snd ` set (neighbors i). n_address n \<noteq> if_address i"
    and "if_state i \<noteq> DR" and "if_state i \<noteq> Backup"
  shows "if_state (snd (interface_handle_event now ev i)) \<noteq> DR \<and>
    if_state (snd (interface_handle_event now ev i)) \<noteq> Backup"
proof -
  have c: "\<not> contender i (if_address i)" using assms(1,3) by (auto simp: contender_def)
  have e: "fst (run_dr_election (i\<lparr>wait_timer_expiry := t\<rparr>)) = DROther" for t
    using c assms(2) by (intro not_contender_not_elected) simp_all
  have e': "fst (run_dr_election i) = DROther"
    using c assms(2) by (rule not_contender_not_elected)
  have st: "if_state (snd (run_dr_election j)) = if_state j" for j
    by (simp add: run_dr_election_def Let_def split: prod.split)
  have "fst (interface_transition now ev i) \<notin> {Some DR, Some Backup}"
    and "if_state (snd (interface_transition now ev i)) = if_state i"
    using assms(1) e e' st
    by (cases ev; simp add: interface_transition_def split: NetworkType.split)+
  then show ?thesis
    using assms(4,5)
    by (cases "interface_transition now ev i")
      (auto simp: interface_handle_event_def Let_def split: option.split)
qed

section \<open>Concrete elections\<close>

definition example_if :: OspfInterface where
  "example_if =
     (interface_new 0 ''wan'' 1 0x0A000001 0xFFFFFF00 0 Broadcast 0x01010101)
       \<lparr>if_state := DROther, if_priority := 200, if_dr := 0x0A000002, if_bdr := 0x0A000003,
        neighbors := [(0x02020202, (neighbor_new 0 0x02020202 0x0A000002)
             \<lparr>n_state := Full, n_priority := 1, n_dr := 0x0A000002, n_bdr := 0x0A000003\<rparr>),
           (0x03030303, (neighbor_new 0 0x03030303 0x0A000003)
             \<lparr>n_state := Full, n_priority := 1, n_dr := 0x0A000002, n_bdr := 0x0A000003\<rparr>)]\<rparr>"

lemmas example_if_eval = example_if_def interface_new_def neighbor_new_def

theorem dr_election_sound_witness:
  "dr_election_result example_if = (0x0A000002, 0x0A000003) \<and>
   contender example_if 0x0A000002 \<and> contender example_if 0x0A000003"
  using dr_election_sound [of example_if]
  by (simp add: example_if_eval dr_election_result_def elect_pass_def election_candidates_def
      neighbor_candidate_def self_candidate_def is_two_way_or_better_def state_order contender_def
      bdr_order_def dr_order_def cmp_def)

theorem dr_election_keeps_incumbents_witness:
  "dr_election_result example_if = (0x0A000002, 0x0A000003)"
  using dr_election_keeps_incumbents [of example_if
      "neighbor_candidate (snd (neighbors example_if ! 0))" "neighbor_candidate (snd (neighbors example_if ! 1))"]
  by (simp add: example_if_eval election_candidates_def neighbor_candidate_def self_candidate_def
      is_two_way_or_better_def state_order incumbents_def)

theorem dr_election_order_independent_witness:
  "dr_election_result (example_if\<lparr>neighbors := rev (neighbors example_if)\<rparr>) = dr_election_result example_if"
  by (rule dr_election_order_independent)
    (simp add: example_if_eval unique_router_ids_def, rule set_rev)

theorem priority_zero_never_elected_witness:
  "if_state (snd (interface_handle_event 0 NeighborChange (example_if\<lparr>if_priority := 0\<rparr>))) \<noteq> DR \<and>
   if_state (snd (interface_handle_event 0 NeighborChange (example_if\<lparr>if_priority := 0\<rparr>))) \<noteq> Backup"
  by (rule priority_zero_never_elected) (simp_all add: example_if_eval)

end
