(* ===== verification/Shortest_Path.thy ===== *)
theory Shortest_Path
  imports Ospf_Prelude
begin

text \<open>
  Shortest paths in a graph with edge costs, and the invariant of Dijkstra's algorithm with a queue
  from which superseded entries are not removed: the form in which \<^verbatim>\<open>src/proto/spf.rs\<close> implements it.
  The state is abstract here: the set \<open>V\<close> of visited nodes, the partial distance map \<open>D\<close> and the set
  \<open>H\<close> of queue entries.
\<close>

inductive path_cost :: "('v \<Rightarrow> 'v \<Rightarrow> nat \<Rightarrow> bool) \<Rightarrow> 'v \<Rightarrow> 'v \<Rightarrow> nat \<Rightarrow> bool" for edge src where
  path_src: "path_cost edge src src 0"
| path_step: "path_cost edge src u n \<Longrightarrow> edge u v w \<Longrightarrow> path_cost edge src v (n + w)"

definition is_distance :: "('v \<Rightarrow> 'v \<Rightarrow> nat \<Rightarrow> bool) \<Rightarrow> 'v \<Rightarrow> 'v \<Rightarrow> nat \<Rightarrow> bool" where
  "is_distance edge src v d \<longleftrightarrow> path_cost edge src v d \<and> (\<forall>n. path_cost edge src v n \<longrightarrow> d \<le> n)"

lemma is_distance_unique: "is_distance edge src v d \<Longrightarrow> is_distance edge src v e \<Longrightarrow> d = e"
  by (auto simp: is_distance_def intro: antisym)

text \<open>\<^verbatim>\<open>D\<close> is at most \<open>n\<close> at \<open>v\<close>.\<close>

definition at_most :: "('v \<rightharpoonup> nat) \<Rightarrow> 'v \<Rightarrow> nat \<Rightarrow> bool" where
  "at_most D v n \<longleftrightarrow> (\<exists>d. D v = Some d \<and> d \<le> n)"

locale weighted_graph =
  fixes edge :: "'v \<Rightarrow> 'v \<Rightarrow> nat \<Rightarrow> bool"
    and src :: 'v
begin

text \<open>What holds throughout: distances are costs of paths, and every tentative one is queued.\<close>

definition base :: "'v set \<Rightarrow> ('v \<rightharpoonup> nat) \<Rightarrow> ('v \<times> nat) set \<Rightarrow> bool" where
  "base V D H \<longleftrightarrow> D src = Some 0 \<and> V \<subseteq> dom D \<and>
     (\<forall>v d. D v = Some d \<longrightarrow> path_cost edge src v d) \<and>
     (\<forall>v d. D v = Some d \<longrightarrow> v \<notin> V \<longrightarrow> (v, d) \<in> H) \<and>
     (\<forall>(v, c) \<in> H. at_most D v c)"

definition dinv :: "'v set \<Rightarrow> ('v \<rightharpoonup> nat) \<Rightarrow> ('v \<times> nat) set \<Rightarrow> bool" where
  "dinv V D H \<longleftrightarrow> base V D H \<and>
     (\<forall>v \<in> V. \<forall>(x, c) \<in> H. at_most D v c) \<and>
     (\<forall>u \<in> V. \<forall>v w d. edge u v w \<longrightarrow> D u = Some d \<longrightarrow> at_most D v (d + w))"

text \<open>While the edges of \<open>u\<close> are scanned: those in \<open>E\<close> are done.\<close>

definition scan :: "'v \<Rightarrow> nat \<Rightarrow> ('v \<times> nat) set \<Rightarrow> 'v set \<Rightarrow> ('v \<rightharpoonup> nat) \<Rightarrow> ('v \<times> nat) set \<Rightarrow> bool" where
  "scan u k E V D H \<longleftrightarrow> base V D H \<and> u \<in> V \<and> D u = Some k \<and>
     (\<forall>v \<in> V. at_most D v k) \<and> (\<forall>(x, c) \<in> H. k \<le> c) \<and>
     (\<forall>x \<in> V - {u}. \<forall>v w d. edge x v w \<longrightarrow> D x = Some d \<longrightarrow> at_most D v (d + w)) \<and>
     (\<forall>(v, w) \<in> E. at_most D v (k + w))"

lemma dinv_start: "dinv {} [src \<mapsto> 0] {(src, 0)}"
  by (auto simp: dinv_def base_def at_most_def path_src)

lemma dinv_pop_visited:
  "dinv V D H \<Longrightarrow> v \<in> V \<Longrightarrow> H' \<subseteq> H \<Longrightarrow> H - H' \<subseteq> {(v, c)} \<Longrightarrow> dinv V D H'"
  unfolding dinv_def base_def by blast

lemma at_most_mono: "at_most D v m \<Longrightarrow> m \<le> n \<Longrightarrow> at_most D v n"
  by (auto simp: at_most_def)

lemma scan_start:
  assumes "dinv V D H" and "(u, k) \<in> H" and "u \<notin> V" and "\<forall>(x, c) \<in> H. k \<le> c"
    and "H' \<subseteq> H" and "H - H' \<subseteq> {(u, k)}"
  shows "scan u k {} (Set.insert u V) D H'"
proof -
  from assms(1,2) obtain d where d: "D u = Some d" "d \<le> k"
    by (force simp: dinv_def base_def at_most_def)
  with assms(1,3) have "(u, d) \<in> H" by (simp add: dinv_def base_def)
  with assms(4) d have k: "D u = Some k" by force
  have V: "\<forall>v \<in> Set.insert u V. at_most D v k"
    using assms(1,2) k by (force simp: dinv_def at_most_def)
  have b: "base (Set.insert u V) D H'"
    unfolding base_def
  proof (intro conjI allI impI)
    show "D src = Some 0" and "Set.insert u V \<subseteq> dom D"
      using assms(1) k by (auto simp: dinv_def base_def)
    show "path_cost edge src v d" if "D v = Some d" for v d
      using assms(1) that by (simp add: dinv_def base_def)
    show "(v, d) \<in> H'" if "D v = Some d" "v \<notin> Set.insert u V" for v d
    proof -
      have "(v, d) \<in> H" using assms(1) that by (simp add: dinv_def base_def)
      then show ?thesis using assms(6) that(2) by blast
    qed
    show "\<forall>(v, c) \<in> H'. at_most D v c"
      using assms(1,5) unfolding dinv_def base_def by blast
  qed
  have "\<forall>(x, c) \<in> H'. k \<le> c" using assms(4,5) by blast
  moreover have "\<forall>x \<in> Set.insert u V - {u}. \<forall>v w d. edge x v w \<longrightarrow> D x = Some d \<longrightarrow> at_most D v (d + w)"
    using assms(1) unfolding dinv_def by blast
  ultimately show ?thesis
    using b k V unfolding scan_def by simp
qed

text \<open>An edge that improves the distance of its target.\<close>

lemma scan_improve:
  assumes "scan u k E V D H" and "edge u v w" and "\<not> at_most D v (k + w)"
  shows "scan u k (Set.insert (v, w) E) V (D(v \<mapsto> k + w)) (Set.insert (v, k + w) H)"
proof -
  let ?D = "D(v \<mapsto> k + w)"
  have base: "base V D H" and k: "D u = Some k" "u \<in> V" and vis: "\<forall>v \<in> V. at_most D v k"
    using assms(1) by (simp_all add: scan_def)
  have le: "at_most ?D x n" if "at_most D x n" for x n
    using that assms(3) by (auto simp: at_most_def)
  have new: "v \<notin> V" using vis assms(3) by (auto simp: at_most_def)
  have "v \<noteq> u" using k(2) new by blast
  have "v \<noteq> src" using base assms(3) by (auto simp: base_def at_most_def)
  have "path_cost edge src v (k + w)"
    using base k(1) assms(2) by (intro path_step [of edge src u k]) (simp_all add: base_def)
  then have "base V ?D (Set.insert (v, k + w) H)"
    using base new \<open>v \<noteq> src\<close> le unfolding base_def by (auto simp: at_most_def)
  moreover have "\<forall>x \<in> V - {u}. \<forall>y n d. edge x y n \<longrightarrow> ?D x = Some d \<longrightarrow> at_most ?D y (d + n)"
    using assms(1) new le by (auto simp: scan_def)
  moreover have "at_most ?D v (k + w)" by (simp add: at_most_def)
  ultimately show ?thesis
    using assms(1) k \<open>v \<noteq> u\<close> le unfolding scan_def by auto
qed

lemma scan_keep:
  "scan u k E V D H \<Longrightarrow> at_most D v (k + w) \<Longrightarrow> scan u k (Set.insert (v, w) E) V D H"
  by (simp add: scan_def)

lemma scan_done:
  assumes "scan u k E V D H" and "\<And>v w. edge u v w \<Longrightarrow> at_most D v (k + w)"
  shows "dinv V D H"
proof -
  have "\<forall>v \<in> V. \<forall>(x, c) \<in> H. at_most D v c"
    using assms(1) by (force simp: scan_def at_most_def)
  moreover have "\<forall>x \<in> V. \<forall>v w d. edge x v w \<longrightarrow> D x = Some d \<longrightarrow> at_most D v (d + w)"
  proof (intro ballI allI impI)
    fix x v w d assume x: "x \<in> V" "edge x v w" "D x = Some d"
    then show "at_most D v (d + w)"
      using assms by (cases "x = u") (auto simp: scan_def)
  qed
  ultimately show ?thesis using assms(1) by (simp add: dinv_def scan_def)
qed

text \<open>When the queue is empty the map holds exactly the distances.\<close>

lemma dinv_end_at_most:
  assumes "dinv V D {}" and "path_cost edge src v n"
  shows "at_most D v n"
  using assms(2)
proof induction
  case path_src
  then show ?case using assms(1) by (simp add: dinv_def base_def at_most_def)
next
  case (path_step u n v w)
  then obtain d where d: "D u = Some d" "d \<le> n" by (auto simp: at_most_def)
  then have "u \<in> V" using assms(1) by (auto simp: dinv_def base_def)
  with assms(1) d path_step have "at_most D v (d + w)" by (auto simp: dinv_def)
  with d(2) show ?case by (auto intro: at_most_mono)
qed

lemma dinv_end:
  assumes "dinv V D {}"
  shows "case D v of None \<Rightarrow> \<nexists>n. path_cost edge src v n | Some d \<Rightarrow> is_distance edge src v d"
proof (cases "D v")
  case None
  then show ?thesis using dinv_end_at_most [OF assms, of v] by (fastforce simp: at_most_def)
next
  case (Some d)
  then have "path_cost edge src v d" using assms by (simp add: dinv_def base_def)
  moreover have "d \<le> n" if "path_cost edge src v n" for n
    using dinv_end_at_most [OF assms that] Some by (simp add: at_most_def)
  ultimately show ?thesis using Some by (simp add: is_distance_def)
qed

end

end
