(* ===== verification/Spf.thy ===== *)
theory Spf
  imports Shortest_Path Packet_Codec
begin

text \<open>
  \<^verbatim>\<open>src/proto/spf.rs\<close>: Dijkstra's algorithm over the Router- and Network-LSAs of an area, the routes
  for stub links and transit networks, and the inter-area and external routes computed from the
  resulting router table. Costs are \<^verbatim>\<open>u32\<close> with wrap-around. The theorems: the loop ends, the
  distances are the shortest-path costs of the graph the LSAs describe (for up to 65536 Router-LSAs),
  the next hop of a router is the first hop of a shortest path, and the two copies of the loop agree.
\<close>

section \<open>Inputs and results\<close>

datatype OspfRouteKind = Intra | Inter | External1 | External2

record SpfRoute =
  prefix :: ipv4
  prefix_len :: u8
  next_hop :: ipv4
  route_cost :: u32
  route_sw_if_index :: u32
  route_kind :: OspfRouteKind

record SpfNode =
  node_router_id :: ipv4
  node_cost :: u32

definition spf_node_cmp :: "SpfNode \<Rightarrow> SpfNode \<Rightarrow> ordering" where
  "spf_node_cmp a b =
     then_cmp (cmp (node_cost b) (node_cost a)) (cmp (node_router_id a) (node_router_id b))"

record SpfInterface =
  si_address :: ipv4
  si_mask :: ipv4
  si_sw_if_index :: u32
  si_cost :: u16

record SpfNeighbor =
  snb_router_id :: ipv4
  snb_address :: ipv4
  snb_sw_if_index :: u32

record NextHop =
  nh_address :: ipv4
  nh_sw_if_index :: u32

definition no_next_hop :: NextHop where
  "no_next_hop = \<lparr>nh_address = UNSPECIFIED, nh_sw_if_index = 0\<rparr>"

text \<open>
  \<^verbatim>\<open>BinaryHeap\<close>: \<^verbatim>\<open>pop\<close> returns a greatest element; equal elements cannot be told apart, so a list
  from which a greatest element is removed is faithful.
\<close>

definition heap_push :: "SpfNode \<Rightarrow> SpfNode list \<Rightarrow> SpfNode list" where
  "heap_push n h = n # h"

definition heap_pop :: "SpfNode list \<Rightarrow> (SpfNode \<times> SpfNode list) option" where
  "heap_pop h = (case max_by spf_node_cmp h of None \<Rightarrow> None | Some m \<Rightarrow> Some (m, remove1 m h))"

text \<open>\<^verbatim>\<open>.collect()\<close> into a hash map: a later pair replaces an earlier one with the same key.\<close>

definition collect_map :: "('k \<times> 'v) list \<Rightarrow> ('k \<times> 'v) list" where
  "collect_map kvs = fold (\<lambda>(k, v) m. AList.update k v m) kvs []"

section \<open>Masks\<close>

definition mask_to_prefix_len :: "ipv4 \<Rightarrow> u8" where
  "mask_to_prefix_len m = word_of_nat (length (filter (bit m) [0..<32]))"

definition apply_mask :: "ipv4 \<Rightarrow> ipv4 \<Rightarrow> ipv4" where
  "apply_mask addr m = addr AND m"

section \<open>The graph of an area\<close>

text \<open>
  What both loops set up before they run. \<open>resolve_iface\<close> is the step between the neighbor table and
  the router id in the next-hop lookup on a transit network; only \<open>calculate_spf\<close> has it.
\<close>

record SpfContext =
  my_router_id :: ipv4
  router_lsas :: "(ipv4 \<times> Lsa) list"
  network_lsas :: "(ipv4 \<times> Lsa) list"
  neighbor_map :: "(ipv4 \<times> SpfNeighbor) list"
  iface_by_addr :: "(ipv4 \<times> SpfInterface) list"
  resolve_iface :: "ipv4 \<Rightarrow> ipv4 \<Rightarrow> ipv4 option"

definition find_router_iface_on_network :: "(ipv4 \<times> Lsa) list \<Rightarrow> ipv4 \<Rightarrow> ipv4 \<Rightarrow> ipv4 option" where
  "find_router_iface_on_network rlsas rid dr_addr =
     (case map_of rlsas rid of
        None \<Rightarrow> None
      | Some l \<Rightarrow>
          (case body l of
             BRouter r \<Rightarrow>
               map_option link_data
                 (List.find (\<lambda>k. link_type k = RL_TransitNetwork \<and> link_id k = dr_addr) (r_links r))
           | _ \<Rightarrow> None))"

definition spf_context ::
  "ipv4 \<Rightarrow> (LsaKey \<times> Lsa) list \<Rightarrow> SpfInterface list \<Rightarrow> SpfNeighbor list \<Rightarrow>
   ((ipv4 \<times> Lsa) list \<Rightarrow> ipv4 \<Rightarrow> ipv4 \<Rightarrow> ipv4 option) \<Rightarrow> SpfContext" where
  "spf_context my lsdb ifaces nbrs fallback =
     (let rl = collect_map (map (\<lambda>l. (advertising_router (header l), l))
                 (filter (\<lambda>l. ls_type (header l) = Router) (map snd lsdb)));
          nl = collect_map (map (\<lambda>l. (link_state_id (header l), l))
                 (filter (\<lambda>l. ls_type (header l) = Network) (map snd lsdb)))
      in \<lparr>my_router_id = my, router_lsas = rl, network_lsas = nl,
          neighbor_map = collect_map (map (\<lambda>n. (snb_router_id n, n)) nbrs),
          iface_by_addr = collect_map (map (\<lambda>i. (si_address i, i)) ifaces),
          resolve_iface = fallback rl\<rparr>)"

definition router_links :: "SpfContext \<Rightarrow> ipv4 \<Rightarrow> RouterLink list" where
  "router_links c rid =
     (case map_of (router_lsas c) rid of
        Some l \<Rightarrow> (case body l of BRouter r \<Rightarrow> r_links r | _ \<Rightarrow> [])
      | None \<Rightarrow> [])"

definition network_attached :: "SpfContext \<Rightarrow> ipv4 \<Rightarrow> ipv4 list" where
  "network_attached c dr_addr =
     (case map_of (network_lsas c) dr_addr of
        Some l \<Rightarrow> (case body l of BNetwork n \<Rightarrow> attached_routers n | _ \<Rightarrow> [])
      | None \<Rightarrow> [])"

section \<open>The loop\<close>

record SpfState =
  dist :: "(ipv4 \<times> u32) list"
  next_hops :: "(ipv4 \<times> NextHop) list"
  visited :: "ipv4 set"
  heap :: "SpfNode list"

definition dist_or_max :: "(ipv4 \<times> u32) list \<Rightarrow> ipv4 \<Rightarrow> u32" where
  "dist_or_max d v = (case map_of d v of Some x \<Rightarrow> x | None \<Rightarrow> - 1)"

definition new_cost_better :: "(ipv4 \<times> u32) list \<Rightarrow> ipv4 \<Rightarrow> u32 \<Rightarrow> bool" where
  "new_cost_better d v new_cost \<longleftrightarrow> new_cost < dist_or_max d v"

text \<open>The common tail of both link cases: record the cost, the next hop if there is one, and push.\<close>

definition spf_offer :: "ipv4 \<Rightarrow> u32 \<Rightarrow> NextHop option \<Rightarrow> SpfState \<Rightarrow> SpfState" where
  "spf_offer v new_cost nh st =
     (if new_cost_better (dist st) v new_cost then
        st\<lparr>dist := AList.update v new_cost (dist st),
           next_hops := (case nh of Some h \<Rightarrow> AList.update v h (next_hops st) | None \<Rightarrow> next_hops st),
           heap := heap_push \<lparr>node_router_id = v, node_cost = new_cost\<rparr> (heap st)\<rparr>
      else st)"

definition p2p_next_hop :: "SpfContext \<Rightarrow> ipv4 \<Rightarrow> ipv4 \<Rightarrow> SpfState \<Rightarrow> NextHop option" where
  "p2p_next_hop c rid neighbor_id st =
     (if rid = my_router_id c then
        map_option (\<lambda>n. \<lparr>nh_address = snb_address n, nh_sw_if_index = snb_sw_if_index n\<rparr>)
          (map_of (neighbor_map c) neighbor_id)
      else map_of (next_hops st) rid)"

definition transit_direct :: "SpfContext \<Rightarrow> RouterLink \<Rightarrow> ipv4 \<Rightarrow> NextHop" where
  "transit_direct c l attached =
     \<lparr>nh_address =
        (case map_of (neighbor_map c) attached of
           Some n \<Rightarrow> snb_address n
         | None \<Rightarrow> (case resolve_iface c attached (link_id l) of Some a \<Rightarrow> a | None \<Rightarrow> attached)),
      nh_sw_if_index =
        (case map_of (iface_by_addr c) (link_data l) of Some i \<Rightarrow> si_sw_if_index i | None \<Rightarrow> 0)\<rparr>"

definition transit_next_hop :: "SpfContext \<Rightarrow> ipv4 \<Rightarrow> RouterLink \<Rightarrow> ipv4 \<Rightarrow> SpfState \<Rightarrow> NextHop option" where
  "transit_next_hop c rid l attached st =
     (if rid = my_router_id c then Some (transit_direct c l attached) else map_of (next_hops st) rid)"

definition spf_relax_link :: "SpfContext \<Rightarrow> ipv4 \<Rightarrow> u32 \<Rightarrow> RouterLink \<Rightarrow> SpfState \<Rightarrow> SpfState" where
  "spf_relax_link c rid cost l st =
     (case link_type l of
        RL_PointToPoint \<Rightarrow>
          spf_offer (link_id l) (cost + ucast (rl_metric l)) (p2p_next_hop c rid (link_id l) st) st
      | RL_TransitNetwork \<Rightarrow>
          fold (\<lambda>attached st.
              if attached = rid then st
              else spf_offer attached (cost + ucast (rl_metric l)) (transit_next_hop c rid l attached st) st)
            (network_attached c (link_id l)) st
      | RL_StubNetwork \<Rightarrow> st
      | RL_VirtualLink \<Rightarrow> st)"

text \<open>One iteration of \<^verbatim>\<open>while let Some(..) = heap.pop()\<close>; \<open>None\<close> when the heap is empty.\<close>

definition spf_step :: "SpfContext \<Rightarrow> SpfState \<Rightarrow> SpfState option" where
  "spf_step c st =
     (case heap_pop (heap st) of
        None \<Rightarrow> None
      | Some (n, h) \<Rightarrow>
          (let rid = node_router_id n; st = st\<lparr>heap := h\<rparr> in
           if rid \<in> visited st then Some st
           else Some (fold (spf_relax_link c rid (node_cost n)) (router_links c rid)
                        (st\<lparr>visited := Set.insert rid (visited st)\<rparr>))))"

text \<open>The heap meets the contract of a queue that yields its cheapest entry.\<close>

locale min_queue =
  fixes push :: "'n \<Rightarrow> 'h \<Rightarrow> 'h"
    and pop :: "'h \<Rightarrow> ('n \<times> 'h) option"
    and elems :: "'h \<Rightarrow> 'n multiset"
    and key :: "'n \<Rightarrow> 'c :: linorder"
  assumes pop_None: "pop h = None \<longleftrightarrow> elems h = {#}"
    and pop_Some: "pop h = Some (m, h') \<Longrightarrow>
      elems h = add_mset m (elems h') \<and> (\<forall>x \<in># elems h. key m \<le> key x)"
    and elems_push: "elems (push n h) = add_mset n (elems h)"
begin

lemma pop_member: "pop h = Some (m, h') \<Longrightarrow> m \<in># elems h"
  by (drule pop_Some) simp

lemma pop_rest: "pop h = Some (m, h') \<Longrightarrow> set_mset (elems h') \<subseteq> set_mset (elems h)"
  by (drule pop_Some) auto

lemma pop_removed: "pop h = Some (m, h') \<Longrightarrow> set_mset (elems h) - set_mset (elems h') \<subseteq> {m}"
  by (drule pop_Some) auto

lemma pop_size: "pop h = Some (m, h') \<Longrightarrow> size (elems h') < size (elems h)"
  by (drule pop_Some) simp

end

definition node_key :: "SpfNode \<Rightarrow> nat \<times> u32" where
  "node_key n = (4294967295 - unat (node_cost n), node_router_id n)"

interpretation node_cmp: keyed_comparator spf_node_cmp node_key
proof
  fix a b :: SpfNode
  have "unat (node_cost a) \<le> 4294967295" "unat (node_cost b) \<le> 4294967295"
    using unat_u32_less [of "node_cost a"] unat_u32_less [of "node_cost b"] by simp_all
  then have "cmp (node_cost b) (node_cost a) =
      cmp (4294967295 - unat (node_cost a)) (4294967295 - unat (node_cost b))"
    by (auto simp: cmp_def word_less_nat_alt word_unat_eq_iff)
  then show "spf_node_cmp a b = cmp (node_key a) (node_key b)"
    unfolding spf_node_cmp_def node_key_def by (auto simp: cmp_def split: if_splits)
qed

interpretation spf_heap: min_queue heap_push heap_pop mset node_cost
proof
  show "heap_pop h = None \<longleftrightarrow> mset h = {#}" for h
    by (auto simp: heap_pop_def split: option.split)
  show "mset h = add_mset m (mset h') \<and> (\<forall>x \<in># mset h. node_cost m \<le> node_cost x)"
    if p: "heap_pop h = Some (m, h')" for h m h'
  proof -
    have m: "max_by spf_node_cmp h = Some m" "h' = remove1 m h"
      using p by (auto simp: heap_pop_def split: option.splits)
    have key: "m \<in> set h" "\<forall>x \<in> set h. node_key x \<le> node_key m"
      using node_cmp.max_by_Some [OF m(1)] by blast+
    have "node_cost m \<le> node_cost x" if "x \<in> set h" for x
    proof -
      have "4294967295 - unat (node_cost x) \<le> 4294967295 - unat (node_cost m)"
        using key(2) that by (fastforce simp: node_key_def less_eq_prod_def)
      then show ?thesis
        using unat_u32_less [of "node_cost x"] unat_u32_less [of "node_cost m"]
        by (simp add: word_le_nat_alt)
    qed
    with key(1) m(2) show ?thesis by simp
  qed
qed (simp add: heap_push_def)

subsection \<open>Termination\<close>

lemma visited_offer [simp]: "visited (spf_offer v n nh st) = visited st"
  by (simp add: spf_offer_def)

lemma visited_relax_link [simp]: "visited (spf_relax_link c rid cost l st) = visited st"
proof -
  have "visited (fold (\<lambda>a st. if a = rid then st else spf_offer a n (f a st) st) as st) = visited st" for f n as
    by (induction as arbitrary: st) auto
  then show ?thesis by (simp add: spf_relax_link_def split: RouterLinkType.split)
qed

lemma visited_relax_links [simp]: "visited (fold (spf_relax_link c rid cost) ls st) = visited st"
  by (induction ls arbitrary: st) auto

definition unvisited_lsas :: "SpfContext \<Rightarrow> SpfState \<Rightarrow> ipv4 set" where
  "unvisited_lsas c st = fst ` set (router_lsas c) - visited st"

lemma router_links_known: "router_links c rid \<noteq> [] \<Longrightarrow> rid \<in> fst ` set (router_lsas c)"
  by (auto simp: router_links_def split: option.splits dest!: map_of_SomeD intro: rev_image_eqI)

lemma spf_step_decreases:
  assumes "spf_step c st = Some st'"
  shows "card (unvisited_lsas c st') < card (unvisited_lsas c st) \<or>
    card (unvisited_lsas c st') = card (unvisited_lsas c st) \<and> length (heap st') < length (heap st)"
proof -
  from assms obtain n h where p: "heap_pop (heap st) = Some (n, h)"
    by (auto simp: spf_step_def split: option.splits)
  let ?r = "node_router_id n" and ?st = "st\<lparr>heap := h, visited := Set.insert (node_router_id n) (visited st)\<rparr>"
  have len: "length h < length (heap st)" using spf_heap.pop_size [OF p] by simp
  show ?thesis
  proof (cases "?r \<in> visited st")
    case True
    with assms p len show ?thesis by (auto simp: spf_step_def unvisited_lsas_def)
  next
    case False
    with assms p have st': "st' = fold (spf_relax_link c ?r (node_cost n)) (router_links c ?r) ?st"
      by (simp add: spf_step_def Let_def)
    have sub: "unvisited_lsas c st' = unvisited_lsas c st - {?r}"
      by (auto simp: st' unvisited_lsas_def)
    have fin: "finite (unvisited_lsas c st)" by (simp add: unvisited_lsas_def)
    show ?thesis
    proof (cases "router_links c ?r = []")
      case True
      then have "heap st' = h" by (simp add: st')
      with len show ?thesis
        unfolding sub using card_Diff1_le [of "unvisited_lsas c st" ?r] by auto
    next
      case links: False
      then have "?r \<in> unvisited_lsas c st"
        using False router_links_known by (simp add: unvisited_lsas_def)
      then show ?thesis unfolding sub using fin by (simp add: card_Diff1_less del: card_Diff_insert)
    qed
  qed
qed

function spf_loop :: "SpfContext \<Rightarrow> SpfState \<Rightarrow> SpfState" where
  "spf_loop c st = (case spf_step c st of None \<Rightarrow> st | Some st' \<Rightarrow> spf_loop c st')"
  by pat_completeness auto
termination
proof (relation "inv_image (less_than <*lex*> less_than) (\<lambda>(c, st). (card (unvisited_lsas c st), length (heap st)))")
  show "((c, st'), (c, st)) \<in> inv_image (less_than <*lex*> less_than)
      (\<lambda>(c, st). (card (unvisited_lsas c st), length (heap st)))"
    if "spf_step c st = Some st'" for c st st'
    using spf_step_decreases [OF that] by auto
qed (intro wf_inv_image wf_lex_prod wf_less_than)

declare spf_loop.simps [simp del]

definition spf_init :: "SpfContext \<Rightarrow> SpfState" where
  "spf_init c =
     \<lparr>dist = [(my_router_id c, 0)], next_hops = [], visited = {},
      heap = [\<lparr>node_router_id = my_router_id c, node_cost = 0\<rparr>]\<rparr>"

definition spf_run :: "SpfContext \<Rightarrow> SpfState" where
  "spf_run c = spf_loop c (spf_init c)"

section \<open>Routes\<close>

text \<open>Pass 2: the stub links of every router that has a distance, except our own.\<close>

definition stub_routes :: "SpfContext \<Rightarrow> SpfState \<Rightarrow> SpfRoute list" where
  "stub_routes c st =
     concat (map (\<lambda>(rid, cost).
         map (\<lambda>l.
             let nh = (case map_of (next_hops st) rid of Some h \<Rightarrow> h | None \<Rightarrow> no_next_hop)
             in \<lparr>prefix = link_id l, prefix_len = mask_to_prefix_len (link_data l),
                 next_hop = nh_address nh, route_cost = cost + ucast (rl_metric l),
                 route_sw_if_index = nh_sw_if_index nh, route_kind = Intra\<rparr>)
           (filter (\<lambda>l. link_type l = RL_StubNetwork \<and> rid \<noteq> my_router_id c) (router_links c rid)))
       (dist st))"

text \<open>Pass 3: the prefix of every transit network whose designated router has a distance.\<close>

definition transit_route :: "SpfContext \<Rightarrow> SpfState \<Rightarrow> ipv4 \<times> Lsa \<Rightarrow> SpfRoute list" where
  "transit_route c st = (\<lambda>(dr_addr, l).
     (case body l of
        BNetwork n \<Rightarrow>
          (let dr_router = advertising_router (header l) in
           (case map_of (dist st) dr_router of
              None \<Rightarrow> []
            | Some dr_cost \<Rightarrow>
                (if my_router_id c \<in> set (attached_routers n) then []
                 else
                   (let nh = (case map_of (next_hops st) dr_router of Some h \<Rightarrow> h | None \<Rightarrow> no_next_hop)
                    in [\<lparr>prefix = apply_mask dr_addr (n_network_mask n),
                         prefix_len = mask_to_prefix_len (n_network_mask n),
                         next_hop = nh_address nh, route_cost = dr_cost,
                         route_sw_if_index = nh_sw_if_index nh, route_kind = Intra\<rparr>]))))
      | _ \<Rightarrow> []))"

definition transit_routes :: "SpfContext \<Rightarrow> SpfState \<Rightarrow> SpfRoute list" where
  "transit_routes c st = concat (map (transit_route c st) (network_lsas c))"

definition calculate_spf ::
  "ipv4 \<Rightarrow> (LsaKey \<times> Lsa) list \<Rightarrow> SpfInterface list \<Rightarrow> SpfNeighbor list \<Rightarrow> SpfRoute list" where
  "calculate_spf my lsdb ifaces nbrs =
     (let c = spf_context my lsdb ifaces nbrs find_router_iface_on_network;
          st = spf_run c
      in stub_routes c st @ transit_routes c st)"

type_synonym router_paths = "(ipv4 \<times> (u32 \<times> NextHop)) list"

definition calculate_spf_with_paths ::
  "ipv4 \<Rightarrow> (LsaKey \<times> Lsa) list \<Rightarrow> SpfInterface list \<Rightarrow> SpfNeighbor list \<Rightarrow> SpfRoute list \<times> router_paths" where
  "calculate_spf_with_paths my lsdb ifaces nbrs =
     (let routes = calculate_spf my lsdb ifaces nbrs;
          st = spf_run (spf_context my lsdb ifaces nbrs (\<lambda>_ _ _. None));
          paths = fold (\<lambda>(rid, c) m.
              case map_of (next_hops st) rid of
                Some nh \<Rightarrow> AList.update rid (c, nh) m
              | None \<Rightarrow> if rid = my then AList.update rid (0, no_next_hop) m else m)
            (dist st) []
      in (routes, paths))"

definition u32_saturating_add :: "u32 \<Rightarrow> u32 \<Rightarrow> u32" where
  "u32_saturating_add a b = (if unat a + unat b > 4294967295 then - 1 else a + b)"

definition inter_area_route :: "router_paths \<Rightarrow> LsaKey \<times> Lsa \<Rightarrow> SpfRoute list" where
  "inter_area_route paths = (\<lambda>(k, l).
     (if key_type k \<noteq> SummaryNetwork then []
      else
        (case body l of
           BSummary s \<Rightarrow>
             (case map_of paths (advertising_router (header l)) of
                None \<Rightarrow> []
              | Some (abr_cost, nh) \<Rightarrow>
                  [\<lparr>prefix = apply_mask (link_state_id (header l)) (s_network_mask s),
                    prefix_len = mask_to_prefix_len (s_network_mask s), next_hop = nh_address nh,
                    route_cost = u32_saturating_add abr_cost (s_metric s),
                    route_sw_if_index = nh_sw_if_index nh, route_kind = Inter\<rparr>])
         | _ \<Rightarrow> [])))"

definition calculate_inter_area_routes :: "(LsaKey \<times> Lsa) list \<Rightarrow> router_paths \<Rightarrow> SpfRoute list" where
  "calculate_inter_area_routes lsdb paths = concat (map (inter_area_route paths) lsdb)"

definition external_route :: "router_paths \<Rightarrow> LsaKey \<times> Lsa \<Rightarrow> SpfRoute list" where
  "external_route paths = (\<lambda>(k, l).
     (if key_type k \<noteq> AsExternal then []
      else
        (case body l of
           BAsExternal e \<Rightarrow>
             (case map_of paths (advertising_router (header l)) of
                None \<Rightarrow> []
              | Some (asbr_cost, asbr_nh) \<Rightarrow>
                  [\<lparr>prefix = apply_mask (link_state_id (header l)) (e_network_mask e),
                    prefix_len = mask_to_prefix_len (e_network_mask e), next_hop = nh_address asbr_nh,
                    route_cost =
                      (if metric_type_2 e then e_metric e else u32_saturating_add asbr_cost (e_metric e)),
                    route_sw_if_index = nh_sw_if_index asbr_nh,
                    route_kind = (if metric_type_2 e then External2 else External1)\<rparr>])
         | _ \<Rightarrow> [])))"

definition calculate_external_routes :: "(LsaKey \<times> Lsa) list \<Rightarrow> router_paths \<Rightarrow> SpfRoute list" where
  "calculate_external_routes lsdb paths = concat (map (external_route paths) lsdb)"

section \<open>The graph the LSAs describe\<close>

definition spf_edge :: "SpfContext \<Rightarrow> ipv4 \<Rightarrow> ipv4 \<Rightarrow> nat \<Rightarrow> bool" where
  "spf_edge c u v w \<longleftrightarrow>
     (\<exists>l \<in> set (router_links c u). w = unat (rl_metric l) \<and>
        (link_type l = RL_PointToPoint \<and> v = link_id l \<or>
         link_type l = RL_TransitNetwork \<and> v \<noteq> u \<and> v \<in> set (network_attached c (link_id l))))"

interpretation spf_graph: weighted_graph "spf_edge c" "my_router_id c" for c .

text \<open>The next hop of a first link, and the paths that start with a first link with that next hop.\<close>

definition first_hop :: "SpfContext \<Rightarrow> NextHop \<Rightarrow> ipv4 \<Rightarrow> nat \<Rightarrow> bool" where
  "first_hop c nh v w \<longleftrightarrow>
     (\<exists>l \<in> set (router_links c (my_router_id c)). w = unat (rl_metric l) \<and>
        (link_type l = RL_PointToPoint \<and> v = link_id l \<and>
           (\<exists>n. map_of (neighbor_map c) v = Some n \<and>
              nh = \<lparr>nh_address = snb_address n, nh_sw_if_index = snb_sw_if_index n\<rparr>) \<or>
         link_type l = RL_TransitNetwork \<and> v \<noteq> my_router_id c \<and>
           v \<in> set (network_attached c (link_id l)) \<and> nh = transit_direct c l v))"

inductive path_via :: "SpfContext \<Rightarrow> NextHop \<Rightarrow> ipv4 \<Rightarrow> nat \<Rightarrow> bool" for c nh where
  via_first: "first_hop c nh v w \<Longrightarrow> path_via c nh v w"
| via_step: "path_via c nh u n \<Longrightarrow> spf_edge c u v w \<Longrightarrow> path_via c nh v (n + w)"

text \<open>Every point-to-point link of our own Router-LSA leads to a router in the neighbor table.\<close>

definition links_resolved :: "SpfContext \<Rightarrow> bool" where
  "links_resolved c \<longleftrightarrow>
     (\<forall>l \<in> set (router_links c (my_router_id c)). link_type l = RL_PointToPoint \<longrightarrow>
        map_of (neighbor_map c) (link_id l) \<noteq> None)"

section \<open>The invariant of the loop\<close>

definition dist_nat :: "SpfState \<Rightarrow> ipv4 \<rightharpoonup> nat" where
  "dist_nat st v = map_option unat (map_of (dist st) v)"

definition heap_nat :: "SpfState \<Rightarrow> (ipv4 \<times> nat) set" where
  "heap_nat st = (\<lambda>n. (node_router_id n, unat (node_cost n))) ` set (heap st)"

definition dist_bound :: "nat \<Rightarrow> SpfState \<Rightarrow> bool" where
  "dist_bound B st \<longleftrightarrow> (\<forall>v d. dist_nat st v = Some d \<longrightarrow> d \<le> B)"

definition hops_ok :: "SpfContext \<Rightarrow> SpfState \<Rightarrow> bool" where
  "hops_ok c st \<longleftrightarrow> (\<forall>v d. dist_nat st v = Some d \<longrightarrow> v \<noteq> my_router_id c \<longrightarrow>
     (\<exists>nh. map_of (next_hops st) v = Some nh \<and> path_via c nh v d))"

definition scan_ok :: "SpfContext \<Rightarrow> ipv4 \<Rightarrow> nat \<Rightarrow> nat \<Rightarrow> (ipv4 \<times> nat) set \<Rightarrow> SpfState \<Rightarrow> bool" where
  "scan_ok c u k B E st \<longleftrightarrow>
     spf_graph.scan c u k E (visited st) (dist_nat st) (heap_nat st) \<and> dist_bound B st \<and>
     (links_resolved c \<longrightarrow> hops_ok c st)"

lemma new_cost_better_iff:
  assumes "unat n < 4294967295"
  shows "new_cost_better (dist st) v n \<longleftrightarrow> \<not> at_most (dist_nat st) v (unat n)"
proof -
  have "unat (- 1 :: u32) = 4294967295" by (simp add: unsigned_minus_1_eq_mask mask_eq_exp_minus_1)
  with assms show ?thesis
    by (cases "map_of (dist st) v")
      (simp_all add: new_cost_better_def dist_or_max_def at_most_def dist_nat_def word_less_nat_alt not_le)
qed

text \<open>One offer, made along an edge of the node being scanned.\<close>

lemma scan_ok_offer:
  assumes ok: "scan_ok c u k B E st" and e: "spf_edge c u v w" and n: "unat n = k + w"
    and B: "k + w \<le> B" "B < 4294967295"
    and nh: "links_resolved c \<Longrightarrow> \<exists>h. nh = Some h \<and> path_via c h v (k + w)"
  shows "scan_ok c u k B (Set.insert (v, w) E) (spf_offer v n nh st)"
proof (cases "at_most (dist_nat st) v (k + w)")
  case True
  then have "spf_offer v n nh st = st"
    using n B by (simp add: spf_offer_def new_cost_better_iff)
  with ok True show ?thesis by (simp add: scan_ok_def spf_graph.scan_keep)
next
  case False
  let ?st = "spf_offer v n nh st"
  have st: "?st = st\<lparr>dist := AList.update v n (dist st),
      next_hops := (case nh of Some h \<Rightarrow> AList.update v h (next_hops st) | None \<Rightarrow> next_hops st),
      heap := heap_push \<lparr>node_router_id = v, node_cost = n\<rparr> (heap st)\<rparr>"
    using False n B by (simp add: spf_offer_def new_cost_better_iff)
  have D: "dist_nat ?st = (dist_nat st)(v \<mapsto> k + w)"
    unfolding st by (auto simp: dist_nat_def update_conv' n)
  have H: "heap_nat ?st = Set.insert (v, k + w) (heap_nat st)"
    unfolding st by (simp add: heap_nat_def heap_push_def n)
  have "spf_graph.scan c u k (Set.insert (v, w) E) (visited ?st) (dist_nat ?st) (heap_nat ?st)"
    unfolding D H using spf_graph.scan_improve [OF _ e False] ok by (simp add: scan_ok_def)
  moreover have "dist_bound B ?st"
    unfolding dist_bound_def D using ok B(1) by (auto simp: scan_ok_def dist_bound_def)
  moreover have "hops_ok c ?st" if r: "links_resolved c"
  proof -
    obtain h where h: "nh = Some h" "path_via c h v (k + w)" using nh [OF r] by blast
    have "next_hops ?st = AList.update v h (next_hops st)" unfolding st using h(1) by simp
    moreover have "hops_ok c st" using ok r by (simp add: scan_ok_def)
    ultimately show ?thesis
      unfolding hops_ok_def D using h(2) by (auto simp: update_conv')
  qed
  ultimately show ?thesis by (simp add: scan_ok_def)
qed

lemma scan_ok_node: "scan_ok c u k B E st \<Longrightarrow> dist_nat st u = Some k"
  by (simp add: scan_ok_def spf_graph.scan_def)

lemma inherited_hop:
  assumes "scan_ok c u k B E st" and "links_resolved c" and "u \<noteq> my_router_id c" and "spf_edge c u v w"
  shows "\<exists>h. map_of (next_hops st) u = Some h \<and> path_via c h v (k + w)"
proof -
  have "hops_ok c st" using assms(1,2) by (simp add: scan_ok_def)
  then obtain h where "map_of (next_hops st) u = Some h" "path_via c h u k"
    using scan_ok_node [OF assms(1)] assms(3) unfolding hops_ok_def by blast
  then show ?thesis using assms(4) by (blast intro: via_step)
qed

lemma scan_ok_my: "scan_ok c (my_router_id c) k B E st \<Longrightarrow> k = 0"
  by (auto simp: scan_ok_def spf_graph.scan_def spf_graph.base_def)

definition link_targets :: "SpfContext \<Rightarrow> ipv4 \<Rightarrow> RouterLink \<Rightarrow> (ipv4 \<times> nat) set" where
  "link_targets c u l =
     (case link_type l of
        RL_PointToPoint \<Rightarrow> {(link_id l, unat (rl_metric l))}
      | RL_TransitNetwork \<Rightarrow>
          (\<lambda>v. (v, unat (rl_metric l))) ` {v \<in> set (network_attached c (link_id l)). v \<noteq> u}
      | _ \<Rightarrow> {})"

lemma link_targets_iff:
  "(v, w) \<in> link_targets c u l \<longleftrightarrow> w = unat (rl_metric l) \<and>
     (link_type l = RL_PointToPoint \<and> v = link_id l \<or>
      link_type l = RL_TransitNetwork \<and> v \<noteq> u \<and> v \<in> set (network_attached c (link_id l)))"
  by (cases "link_type l") (auto simp: link_targets_def)

lemma spf_edge_targets: "spf_edge c u v w \<longleftrightarrow> (\<exists>l \<in> set (router_links c u). (v, w) \<in> link_targets c u l)"
  unfolding spf_edge_def link_targets_iff ..

lemma unat_offer:
  assumes "unat cost + unat (m :: u16) < 4294967296"
  shows "unat (cost + ucast m :: u32) = unat cost + unat m"
  using assms by (subst unat_add_small) simp_all

lemma scan_ok_relax_link:
  assumes ok: "scan_ok c u k B E st" and l: "l \<in> set (router_links c u)" and cost: "unat cost = k"
    and B: "k + 65535 \<le> B" "B < 4294967295"
  shows "scan_ok c u k B (E \<union> link_targets c u l) (spf_relax_link c u cost l st)"
proof -
  let ?w = "unat (rl_metric l)" and ?n = "cost + ucast (rl_metric l)"
  have w: "?w \<le> 65535" using unat_u16_less [of "rl_metric l"] by simp
  have n: "unat ?n = k + ?w" using cost w B by (subst unat_offer) simp_all
  have kB: "k + ?w \<le> B" using w B(1) by simp
  show ?thesis
  proof (cases "link_type l")
    case RL_PointToPoint
    have e: "spf_edge c u (link_id l) ?w" using l RL_PointToPoint by (auto simp: spf_edge_def)
    have "\<exists>h. p2p_next_hop c u (link_id l) st = Some h \<and> path_via c h (link_id l) (k + ?w)" if r: "links_resolved c"
    proof (cases "u = my_router_id c")
      case True
      then obtain nb where "map_of (neighbor_map c) (link_id l) = Some nb"
        using r l RL_PointToPoint by (auto simp: links_resolved_def)
      moreover have "k = 0" using ok True scan_ok_my by blast
      ultimately show ?thesis
        using True l RL_PointToPoint
        by (auto simp: p2p_next_hop_def first_hop_def intro!: via_first)
    next
      case False
      then show ?thesis using inherited_hop [OF ok r False e] by (simp add: p2p_next_hop_def)
    qed
    from scan_ok_offer [OF ok e n kB B(2) this] show ?thesis
      using RL_PointToPoint by (simp add: spf_relax_link_def link_targets_def)
  next
    case RL_TransitNetwork
    have "scan_ok c u k B (E \<union> (\<lambda>v. (v, ?w)) ` {v \<in> set as. v \<noteq> u})
        (fold (\<lambda>a st. if a = u then st else spf_offer a ?n (transit_next_hop c u l a st) st) as st)"
      if "set as \<subseteq> set (network_attached c (link_id l))" for as
      using ok that
    proof (induction as arbitrary: E st)
      case (Cons a as)
      show ?case
      proof (cases "a = u")
        case True
        have "{v \<in> set (a # as). v \<noteq> u} = {v \<in> set as. v \<noteq> u}" using True by auto
        with True Cons.IH [OF Cons.prems(1)] Cons.prems(2) show ?thesis by simp
      next
        case False
        have e: "spf_edge c u a ?w"
          using l RL_TransitNetwork False Cons.prems(2) by (auto simp: spf_edge_def)
        have "\<exists>h. transit_next_hop c u l a st = Some h \<and> path_via c h a (k + ?w)" if r: "links_resolved c"
        proof (cases "u = my_router_id c")
          case True
          moreover have "k = 0" using Cons.prems(1) True scan_ok_my by blast
          ultimately show ?thesis
            using l RL_TransitNetwork False Cons.prems(2)
            by (auto simp: transit_next_hop_def first_hop_def intro!: via_first)
        next
          case not_my: False
          then show ?thesis
            using inherited_hop [OF Cons.prems(1) r not_my e] by (simp add: transit_next_hop_def)
        qed
        note scan_ok_offer [OF Cons.prems(1) e n kB B(2) this]
        note Cons.IH [OF this]
        moreover have "E \<union> (\<lambda>v. (v, ?w)) ` {v \<in> set (a # as). v \<noteq> u} =
            Set.insert (a, ?w) E \<union> (\<lambda>v. (v, ?w)) ` {v \<in> set as. v \<noteq> u}"
          using False by auto
        ultimately show ?thesis using False Cons.prems(2) by simp
      qed
    qed simp
    from this [OF order_refl] show ?thesis
      using RL_TransitNetwork by (simp add: spf_relax_link_def link_targets_def)
  qed (use ok in \<open>simp_all add: spf_relax_link_def link_targets_def\<close>)
qed

lemma scan_ok_relax_links:
  assumes "scan_ok c u k B E st" and "set ls \<subseteq> set (router_links c u)" and "unat cost = k"
    and "k + 65535 \<le> B" "B < 4294967295"
  shows "scan_ok c u k B (E \<union> (\<Union>l \<in> set ls. link_targets c u l)) (fold (spf_relax_link c u cost) ls st)"
  using assms(1,2)
proof (induction ls arbitrary: E st)
  case (Cons l ls)
  have "scan_ok c u k B (E \<union> link_targets c u l) (spf_relax_link c u cost l st)"
    using Cons.prems assms(3-5) by (intro scan_ok_relax_link) auto
  from Cons.IH [OF this] Cons.prems(2) show ?case by (simp add: Un_assoc)
qed simp

definition lsa_routers :: "SpfContext \<Rightarrow> ipv4 set" where
  "lsa_routers c = fst ` set (router_lsas c)"

definition spf_inv :: "SpfContext \<Rightarrow> SpfState \<Rightarrow> bool" where
  "spf_inv c st \<longleftrightarrow>
     spf_graph.dinv c (visited st) (dist_nat st) (heap_nat st) \<and>
     dist_bound (65535 * card (visited st \<inter> lsa_routers c)) st \<and> (links_resolved c \<longrightarrow> hops_ok c st)"

lemma finite_lsa_routers [simp]: "finite (lsa_routers c)"
  by (simp add: lsa_routers_def)

lemma spf_inv_init: "spf_inv c (spf_init c)"
proof -
  have "dist_nat (spf_init c) = [my_router_id c \<mapsto> 0]"
    by (auto simp: spf_init_def dist_nat_def)
  moreover have "heap_nat (spf_init c) = {(my_router_id c, 0)}"
    by (simp add: spf_init_def heap_nat_def)
  ultimately show ?thesis
    using spf_graph.dinv_start [of c]
    by (auto simp: spf_inv_def spf_init_def dist_bound_def hops_ok_def split: if_splits)
qed

lemma heap_nat_pop:
  assumes "heap_pop (heap st) = Some (n, h)"
  shows "(node_router_id n, unat (node_cost n)) \<in> heap_nat st"
    and "\<forall>(x, k) \<in> heap_nat st. unat (node_cost n) \<le> k"
    and "heap_nat (st\<lparr>heap := h\<rparr>) \<subseteq> heap_nat st"
    and "heap_nat st - heap_nat (st\<lparr>heap := h\<rparr>) \<subseteq> {(node_router_id n, unat (node_cost n))}"
proof -
  have "mset (heap st) = add_mset n (mset h)" and m: "\<forall>x \<in> set (heap st). node_cost n \<le> node_cost x"
    using spf_heap.pop_Some [OF assms] by simp_all
  then have "set (heap st) = Set.insert n (set h)" by (metis set_mset_add_mset_insert set_mset_mset)
  with m show "(node_router_id n, unat (node_cost n)) \<in> heap_nat st"
    and "\<forall>(x, k) \<in> heap_nat st. unat (node_cost n) \<le> k"
    and "heap_nat (st\<lparr>heap := h\<rparr>) \<subseteq> heap_nat st"
    and "heap_nat st - heap_nat (st\<lparr>heap := h\<rparr>) \<subseteq> {(node_router_id n, unat (node_cost n))}"
    by (auto simp: heap_nat_def word_le_nat_alt)
qed

lemma spf_inv_visited:
  assumes "spf_inv c st" and "heap_pop (heap st) = Some (n, h)" and "node_router_id n \<in> visited st"
  shows "spf_inv c (st\<lparr>heap := h\<rparr>)"
proof -
  have "spf_graph.dinv c (visited st) (dist_nat st) (heap_nat (st\<lparr>heap := h\<rparr>))"
    using assms(1) spf_graph.dinv_pop_visited [OF _ assms(3) heap_nat_pop(3,4) [OF assms(2)]]
    by (simp add: spf_inv_def)
  moreover have "dist_nat (st\<lparr>heap := h\<rparr>) = dist_nat st" by (simp add: dist_nat_def fun_eq_iff)
  ultimately show ?thesis
    using assms(1) by (simp add: spf_inv_def dist_bound_def hops_ok_def)
qed

lemma dist_bound_mono: "dist_bound B st \<Longrightarrow> B \<le> C \<Longrightarrow> dist_bound C st"
  unfolding dist_bound_def by (meson order_trans)

lemma spf_inv_scan:
  assumes inv: "spf_inv c st" and p: "heap_pop (heap st) = Some (n, h)"
    and new: "node_router_id n \<notin> visited st" and few: "card (lsa_routers c) \<le> 65536"
  shows "spf_inv c (fold (spf_relax_link c (node_router_id n) (node_cost n))
    (router_links c (node_router_id n)) (st\<lparr>heap := h, visited := Set.insert (node_router_id n) (visited st)\<rparr>))"
    (is "spf_inv c (fold ?relax ?links ?st)")
proof -
  let ?u = "node_router_id n" and ?k = "unat (node_cost n)"
  let ?B = "65535 * card (visited st \<inter> lsa_routers c)"
  let ?B' = "65535 * card (visited ?st \<inter> lsa_routers c)"
  have same: "dist_nat ?st = dist_nat st" by (simp add: dist_nat_def fun_eq_iff)
  have hn: "heap_nat ?st = heap_nat (st\<lparr>heap := h\<rparr>)" by (simp add: heap_nat_def)
  have scan: "spf_graph.scan c ?u ?k {} (visited ?st) (dist_nat ?st) (heap_nat ?st)"
    unfolding same hn
    using spf_graph.scan_start [OF _ heap_nat_pop(1) [OF p] new heap_nat_pop(2,3,4) [OF p]] inv
    by (simp add: spf_inv_def)
  then have "dist_nat st ?u = Some ?k" unfolding same by (simp add: spf_graph.scan_def)
  then have kB: "?k \<le> ?B" using inv by (simp add: spf_inv_def dist_bound_def)
  have "card (visited st \<inter> lsa_routers c) \<le> card (visited ?st \<inter> lsa_routers c)"
    by (rule card_mono) auto
  then have BB: "?B \<le> ?B'" by simp
  have hops: "links_resolved c \<longrightarrow> hops_ok c ?st" using inv by (simp add: spf_inv_def hops_ok_def same)
  have "dist_bound ?B ?st" using inv by (simp add: spf_inv_def dist_bound_def same)
  then have "dist_bound ?B' ?st" using BB by (rule dist_bound_mono)
  with scan hops have ok: "scan_ok c ?u ?k ?B' {} ?st" unfolding scan_ok_def by blast
  have "scan_ok c ?u ?k ?B' ({} \<union> (\<Union>l \<in> set ?links. link_targets c ?u l)) (fold ?relax ?links ?st)"
  proof (cases "?links = []")
    case True
    with ok show ?thesis by simp
  next
    case False
    then have "?u \<in> lsa_routers c" using router_links_known by (simp add: lsa_routers_def)
    then have c1: "card (visited ?st \<inter> lsa_routers c) = Suc (card (visited st \<inter> lsa_routers c))"
      using new by simp
    have "card (visited ?st \<inter> lsa_routers c) \<le> card (lsa_routers c)"
      by (rule card_mono) auto
    then have "?B' < 4294967295" using few by simp
    moreover have "?k + 65535 \<le> ?B'" using kB unfolding c1 by simp
    ultimately show ?thesis using scan_ok_relax_links [OF ok order_refl refl] by blast
  qed
  then have fin: "spf_graph.scan c ?u ?k (\<Union>l \<in> set ?links. link_targets c ?u l)
        (visited ?st) (dist_nat (fold ?relax ?links ?st)) (heap_nat (fold ?relax ?links ?st))"
    and rest: "dist_bound ?B' (fold ?relax ?links ?st)" "links_resolved c \<longrightarrow> hops_ok c (fold ?relax ?links ?st)"
    by (simp_all add: scan_ok_def)
  have "spf_graph.dinv c (visited ?st) (dist_nat (fold ?relax ?links ?st)) (heap_nat (fold ?relax ?links ?st))"
    using fin
  proof (rule spf_graph.scan_done)
    fix v w assume "spf_edge c ?u v w"
    then have "(v, w) \<in> (\<Union>l \<in> set ?links. link_targets c ?u l)" by (simp add: spf_edge_targets)
    with fin show "at_most (dist_nat (fold ?relax ?links ?st)) v (?k + w)"
      unfolding spf_graph.scan_def by blast
  qed
  with rest show ?thesis by (simp add: spf_inv_def)
qed

lemma spf_inv_step:
  assumes "spf_inv c st" and "spf_step c st = Some st'" and "card (lsa_routers c) \<le> 65536"
  shows "spf_inv c st'"
proof -
  from assms(2) obtain n h where p: "heap_pop (heap st) = Some (n, h)"
    by (auto simp: spf_step_def split: option.splits)
  show ?thesis
    using assms(2) p spf_inv_visited [OF assms(1) p] spf_inv_scan [OF assms(1) p _ assms(3)]
    by (cases "node_router_id n \<in> visited st") (auto simp: spf_step_def Let_def)
qed

lemma spf_loop_rule:
  assumes "P st" and "\<And>s s'. P s \<Longrightarrow> spf_step c s = Some s' \<Longrightarrow> P s'"
  shows "P (spf_loop c st) \<and> heap (spf_loop c st) = []"
  using assms
proof (induction c st rule: spf_loop.induct)
  case (1 c st)
  show ?case
  proof (cases "spf_step c st")
    case None
    then have "heap st = []"
      using spf_heap.pop_None [of "heap st"] by (auto simp: spf_step_def Let_def split: option.splits if_splits)
    with None "1.prems"(1) show ?thesis by (subst (1 2) spf_loop.simps) simp
  next
    case (Some st')
    have "P st'" using "1.prems" Some by blast
    from "1.IH" [OF Some this "1.prems"(2)] Some show ?thesis by (subst (1 2) spf_loop.simps) simp
  qed
qed

lemma spf_run_inv:
  assumes "card (lsa_routers c) \<le> 65536"
  shows "spf_inv c (spf_run c)" and "heap (spf_run c) = []"
  using spf_loop_rule [of "spf_inv c" "spf_init c" c, OF spf_inv_init spf_inv_step [OF _ _ assms]]
  by (simp_all add: spf_run_def)

lemma spf_run_distances:
  assumes "card (lsa_routers c) \<le> 65536"
  shows "case map_of (dist (spf_run c)) v of
      None \<Rightarrow> \<nexists>n. path_cost (spf_edge c) (my_router_id c) v n
    | Some d \<Rightarrow> is_distance (spf_edge c) (my_router_id c) v (unat d)"
proof -
  have "spf_graph.dinv c (visited (spf_run c)) (dist_nat (spf_run c)) {}"
    using spf_run_inv [OF assms] by (simp add: spf_inv_def heap_nat_def)
  from spf_graph.dinv_end [OF this, of v] show ?thesis
    by (cases "map_of (dist (spf_run c)) v") (simp_all add: dist_nat_def)
qed

lemma spf_run_dist_iff:
  assumes "card (lsa_routers c) \<le> 65536"
  shows "map_of (dist (spf_run c)) v = Some d \<longleftrightarrow> is_distance (spf_edge c) (my_router_id c) v (unat d)"
proof (cases "map_of (dist (spf_run c)) v")
  case None
  with spf_run_distances [OF assms, of v] show ?thesis by (auto simp: is_distance_def)
next
  case (Some x)
  with spf_run_distances [OF assms, of v] show ?thesis
    by (auto dest: is_distance_unique simp: word_unat_eq_iff)
qed

lemma spf_run_dist_le:
  assumes "card (lsa_routers c) \<le> 65536" and "map_of (dist (spf_run c)) v = Some d"
  shows "unat d \<le> 65535 * 65536"
proof -
  have "unat d \<le> 65535 * card (visited (spf_run c) \<inter> lsa_routers c)"
  proof -
    have "dist_nat (spf_run c) v = Some (unat d)" using assms(2) by (simp add: dist_nat_def)
    then show ?thesis
      using spf_run_inv(1) [OF assms(1)] unfolding spf_inv_def dist_bound_def by blast
  qed
  also have "card (visited (spf_run c) \<inter> lsa_routers c) \<le> card (lsa_routers c)"
    by (rule card_mono) auto
  finally show ?thesis using assms(1) by simp
qed

lemma distinct_dist_offer: "distinct (map fst (dist st)) \<Longrightarrow> distinct (map fst (dist (spf_offer v n nh st)))"
  by (simp add: spf_offer_def distinct_update)

lemma fold_keeps: "P s \<Longrightarrow> (\<And>x s. P s \<Longrightarrow> P (f x s)) \<Longrightarrow> P (fold f xs s)"
  by (induction xs arbitrary: s) auto

lemma distinct_dist_relax_link:
  "distinct (map fst (dist st)) \<Longrightarrow> distinct (map fst (dist (spf_relax_link c rid cost l st)))"
  by (auto simp: spf_relax_link_def distinct_dist_offer split: RouterLinkType.split
      intro!: fold_keeps [of "\<lambda>st. distinct (map fst (dist st))"])

lemma distinct_dist_run: "distinct (map fst (dist (spf_run c)))"
proof -
  have "distinct (map fst (dist s'))" if "distinct (map fst (dist s))" "spf_step c s = Some s'" for s s'
    using that
    by (auto simp: spf_step_def Let_def distinct_dist_relax_link split: option.splits if_splits
        intro!: fold_keeps [of "\<lambda>st. distinct (map fst (dist st))"])
  then show ?thesis
    using spf_loop_rule [of "\<lambda>st. distinct (map fst (dist st))" "spf_init c" c]
    by (simp add: spf_run_def spf_init_def)
qed

section \<open>Both loops compute the same distances\<close>

definition same_search :: "SpfState \<Rightarrow> SpfState \<Rightarrow> bool" where
  "same_search s t \<longleftrightarrow> dist s = dist t \<and> visited s = visited t \<and> heap s = heap t"

lemma same_search_offer: "same_search s t \<Longrightarrow> same_search (spf_offer v n a s) (spf_offer v n b t)"
  by (simp add: same_search_def spf_offer_def)

lemma same_search_fold:
  "same_search s t \<Longrightarrow> (\<And>x s t. same_search s t \<Longrightarrow> same_search (f x s) (g x t)) \<Longrightarrow>
   same_search (fold f xs s) (fold g xs t)"
  by (induction xs arbitrary: s t) auto

lemma same_search_relax:
  assumes "network_lsas c = network_lsas c'" and "same_search s t"
  shows "same_search (spf_relax_link c rid cost l s) (spf_relax_link c' rid cost l t)"
proof -
  have "network_attached c = network_attached c'" using assms(1) by (simp add: network_attached_def fun_eq_iff)
  then show ?thesis
    using assms(2)
    by (auto simp: spf_relax_link_def same_search_offer split: RouterLinkType.split intro!: same_search_fold)
qed

lemma same_search_step:
  assumes "network_lsas c = network_lsas c'" and "router_lsas c = router_lsas c'" and "same_search s t"
  shows "rel_option same_search (spf_step c s) (spf_step c' t)"
proof -
  have "router_links c = router_links c'" using assms(2) by (simp add: router_links_def fun_eq_iff)
  moreover have "same_search (s\<lparr>heap := h\<rparr>) (t\<lparr>heap := h\<rparr>)"
    "same_search (s\<lparr>heap := h, visited := V\<rparr>) (t\<lparr>heap := h, visited := V\<rparr>)" for h V
    using assms(3) by (simp_all add: same_search_def)
  moreover have "heap s = heap t" "visited s = visited t" using assms(3) by (simp_all add: same_search_def)
  ultimately show ?thesis
    by (auto simp: spf_step_def Let_def split: option.split intro!: same_search_fold same_search_relax assms(1))
qed

lemma same_search_loop:
  assumes "network_lsas c = network_lsas c'" and "router_lsas c = router_lsas c'" and "same_search s t"
  shows "same_search (spf_loop c s) (spf_loop c' t)"
  using assms
proof (induction c s arbitrary: t rule: spf_loop.induct)
  case (1 c s)
  note step = same_search_step [OF "1.prems"]
  show ?case
  proof (cases "spf_step c s")
    case None
    with step have "spf_step c' t = None" by simp
    with None "1.prems"(3) show ?thesis by (subst (1 2) spf_loop.simps) simp
  next
    case (Some s')
    with step obtain t' where t': "spf_step c' t = Some t'" "same_search s' t'"
      by (auto simp: option_rel_Some1)
    from "1.IH" [OF Some "1.prems"(1,2) t'(2)] Some t'(1) show ?thesis
      by (subst (1 2) spf_loop.simps) simp
  qed
qed

section \<open>Contexts built from a database\<close>

lemma fst_set_update: "fst ` set (AList.update k v m) = Set.insert k (fst ` set m)"
  by (induction m) auto

lemma fst_fold_update:
  "fst ` set (fold (\<lambda>(k, v) m. AList.update k v m) kvs m) = fst ` set kvs \<union> fst ` set m"
  by (induction kvs arbitrary: m) (simp_all add: fst_set_update case_prod_beta)

lemma card_collect_map: "card (fst ` set (collect_map kvs)) \<le> length kvs"
  unfolding collect_map_def fst_fold_update using card_length [of "map fst kvs"] by simp

lemma card_lsa_routers: "card (lsa_routers (spf_context my db ifs nbrs f)) \<le> length db"
  unfolding lsa_routers_def spf_context_def Let_def
  by (simp add: le_trans [OF card_collect_map] le_trans [OF length_filter_le])

lemma my_router_id_context [simp]: "my_router_id (spf_context my db ifs nbrs f) = my"
  by (simp add: spf_context_def Let_def)

lemma lsas_context:
  "network_lsas (spf_context my db ifs nbrs f) = network_lsas (spf_context my db ifs nbrs g)"
  "router_lsas (spf_context my db ifs nbrs f) = router_lsas (spf_context my db ifs nbrs g)"
  by (simp_all add: spf_context_def Let_def)

lemma spf_edge_context:
  "spf_edge (spf_context my db ifs nbrs f) = spf_edge (spf_context my db ifs nbrs g)"
proof -
  let ?c = "spf_context my db ifs nbrs f" and ?d = "spf_context my db ifs nbrs g"
  have "router_links ?c = router_links ?d" "network_attached ?c = network_attached ?d"
    using lsas_context [of my db ifs nbrs f g] by (simp_all add: router_links_def network_attached_def fun_eq_iff)
  then show ?thesis by (simp add: spf_edge_def fun_eq_iff)
qed

text \<open>The router table returned beside the routes.\<close>

lemma router_paths_fold:
  assumes "distinct (map fst ds)"
  shows "map_of (fold (\<lambda>(rid, c) m.
      case NH rid of Some nh \<Rightarrow> AList.update rid (c, nh) m
      | None \<Rightarrow> if rid = my then AList.update rid (0, no_next_hop) m else m) ds m0) r =
    (case map_of ds r of
       None \<Rightarrow> map_of m0 r
     | Some c \<Rightarrow> (case NH r of Some nh \<Rightarrow> Some (c, nh)
         | None \<Rightarrow> if r = my then Some (0, no_next_hop) else map_of m0 r))"
  using assms
proof (induction ds arbitrary: m0)
  case (Cons p ds)
  obtain rid c where p: "p = (rid, c)" by fastforce
  have "map_of ds rid = None" using Cons.prems by (simp add: p map_of_eq_None_iff)
  then show ?case
    using Cons.IH Cons.prems by (auto simp: p update_conv' split: option.split)
qed simp

lemma router_paths_distance:
  assumes "length db \<le> 65536"
    and "map_of (snd (calculate_spf_with_paths my db ifs nbrs)) r = Some (d, nh)"
  shows "is_distance (spf_edge (spf_context my db ifs nbrs f)) my r (unat d)"
proof -
  let ?c = "spf_context my db ifs nbrs (\<lambda>_ _ _. None)"
  let ?st = "spf_run ?c"
  have few: "card (lsa_routers ?c) \<le> 65536" using card_lsa_routers assms(1) by (rule le_trans)
  have my: "map_of (dist ?st) my = Some 0"
    unfolding spf_run_dist_iff [OF few] by (simp add: is_distance_def path_src [of _ my])
  from assms(2) have "map_of (dist ?st) r = Some d \<or> r = my \<and> d = 0"
    by (auto simp: calculate_spf_with_paths_def Let_def router_paths_fold [OF distinct_dist_run]
        split: option.splits if_splits)
  with my have "map_of (dist ?st) r = Some d" by auto
  then have "is_distance (spf_edge ?c) my r (unat d)"
    using spf_run_dist_iff [OF few] by simp
  then show ?thesis by (simp only: spf_edge_context [of my db ifs nbrs "\<lambda>_ _ _. None" f])
qed

section \<open>Properties\<close>

text \<open>
  C10. For a database of at most 65536 LSAs the SPF run assigns a router a distance exactly when there is
  a path to it, and the distance is the cost of a cheapest path in the graph described by the Router- and
  Network-LSAs. No addition overflows.
\<close>

theorem spf_shortest_paths:
  assumes "length db \<le> 65536"
  shows "case map_of (dist (spf_run (spf_context my db ifs nbrs f))) v of
      None \<Rightarrow> \<nexists>n. path_cost (spf_edge (spf_context my db ifs nbrs f)) my v n
    | Some d \<Rightarrow> is_distance (spf_edge (spf_context my db ifs nbrs f)) my v (unat d)"
proof -
  have "card (lsa_routers (spf_context my db ifs nbrs f)) \<le> 65536"
    using card_lsa_routers assms by (rule le_trans)
  from spf_run_distances [OF this, of v, unfolded my_router_id_context] show ?thesis .
qed

text \<open>
  C11. The next hop recorded for a router is the next hop of the first link of a cheapest path to it,
  provided that every point-to-point link of our own Router-LSA leads to a known neighbor.
\<close>

theorem spf_next_hop_on_shortest_path:
  assumes "length db \<le> 65536" and "links_resolved (spf_context my db ifs nbrs f)" and "v \<noteq> my"
    and "is_distance (spf_edge (spf_context my db ifs nbrs f)) my v n"
  shows "\<exists>nh. map_of (next_hops (spf_run (spf_context my db ifs nbrs f))) v = Some nh \<and>
    path_via (spf_context my db ifs nbrs f) nh v n"
proof -
  let ?c = "spf_context my db ifs nbrs f"
  have few: "card (lsa_routers ?c) \<le> 65536" using card_lsa_routers assms(1) by (rule le_trans)
  have "dist_nat (spf_run ?c) v = Some n"
    using spf_run_distances [OF few, of v] assms(4)
    by (auto simp: dist_nat_def is_distance_def intro: antisym split: option.splits)
  moreover have "hops_ok ?c (spf_run ?c)"
    using spf_run_inv(1) [OF few] assms(2) by (simp add: spf_inv_def)
  ultimately show ?thesis using assms(3) unfolding hops_ok_def by simp
qed

text \<open>
  The routes of the second pass are exactly those to the stub links of the other reachable routers,
  each with the cost of a cheapest path to the router plus the metric of the link, without overflow.
\<close>

theorem stub_routes_exact:
  assumes "length db \<le> 65536"
  shows "(\<exists>r \<in> set (stub_routes (spf_context my db ifs nbrs f) (spf_run (spf_context my db ifs nbrs f))).
      prefix r = p \<and> prefix_len r = q \<and> unat (route_cost r) = k) \<longleftrightarrow>
    (\<exists>u n l. u \<noteq> my \<and> is_distance (spf_edge (spf_context my db ifs nbrs f)) my u n \<and>
      l \<in> set (router_links (spf_context my db ifs nbrs f) u) \<and> link_type l = RL_StubNetwork \<and>
      p = link_id l \<and> q = mask_to_prefix_len (link_data l) \<and> k = n + unat (rl_metric l))"
    (is "?L = ?R")
proof -
  let ?c = "spf_context my db ifs nbrs f"
  let ?ds = "dist (spf_run ?c)"
  have few: "card (lsa_routers ?c) \<le> 65536" using card_lsa_routers assms by (rule le_trans)
  have cost: "unat (d + ucast (rl_metric l) :: u32) = unat d + unat (rl_metric l)" if "map_of ?ds u = Some d" for u d l
    using spf_run_dist_le [OF few that] unat_u16_less [of "rl_metric l"] by (intro unat_offer) simp
  have "?L \<longleftrightarrow> (\<exists>(u, d) \<in> set ?ds. \<exists>l \<in> set (router_links ?c u). link_type l = RL_StubNetwork \<and> u \<noteq> my \<and>
      p = link_id l \<and> q = mask_to_prefix_len (link_data l) \<and> k = unat (d + ucast (rl_metric l)))"
    by (fastforce simp: stub_routes_def Let_def)
  also have "\<dots> \<longleftrightarrow> (\<exists>u d l. map_of ?ds u = Some d \<and> l \<in> set (router_links ?c u) \<and> link_type l = RL_StubNetwork \<and>
      u \<noteq> my \<and> p = link_id l \<and> q = mask_to_prefix_len (link_data l) \<and> k = unat d + unat (rl_metric l))"
    unfolding Bex_def split_paired_Ex case_prod_conv hm.entries_get [OF distinct_dist_run]
    using cost by metis
  also have "\<dots> \<longleftrightarrow> ?R"
  proof
    assume ?R
    then obtain u n l where R: "u \<noteq> my" "is_distance (spf_edge ?c) my u n" "l \<in> set (router_links ?c u)"
      "link_type l = RL_StubNetwork" "p = link_id l" "q = mask_to_prefix_len (link_data l)"
      "k = n + unat (rl_metric l)" by blast
    then obtain d where "map_of ?ds u = Some d"
      using spf_run_distances [OF few, of u] by (auto simp: is_distance_def split: option.splits)
    moreover from this have "unat d = n"
      using R(2) spf_run_dist_iff [OF few, of u d] by (simp add: is_distance_unique)
    ultimately show "\<exists>u d l. map_of ?ds u = Some d \<and> l \<in> set (router_links ?c u) \<and>
        link_type l = RL_StubNetwork \<and> u \<noteq> my \<and> p = link_id l \<and> q = mask_to_prefix_len (link_data l) \<and>
        k = unat d + unat (rl_metric l)"
      using R by blast
  qed (use spf_run_dist_iff [OF few] in auto)
  finally show ?thesis .
qed

text \<open>
  The second copy of the loop, in \<^verbatim>\<open>calculate_spf_with_paths\<close>, computes the same distances as the first,
  on every database, although it resolves next hops differently.
\<close>

theorem both_loops_agree:
  "dist (spf_run (spf_context my db ifs nbrs f)) = dist (spf_run (spf_context my db ifs nbrs g)) \<and>
   visited (spf_run (spf_context my db ifs nbrs f)) = visited (spf_run (spf_context my db ifs nbrs g))"
proof -
  have "spf_init (spf_context my db ifs nbrs f) = spf_init (spf_context my db ifs nbrs g)"
    by (simp add: spf_init_def)
  then have "same_search (spf_init (spf_context my db ifs nbrs f)) (spf_init (spf_context my db ifs nbrs g))"
    by (simp add: same_search_def)
  from same_search_loop [OF lsas_context this] show ?thesis
    by (simp add: spf_run_def same_search_def)
qed

text \<open>
  Every inter-area route comes from a Summary-LSA of an area border router that is reachable inside
  the area, and costs the cheapest path to it plus the metric of the LSA, capped at the largest \<^verbatim>\<open>u32\<close>.
\<close>

theorem inter_area_routes_sound:
  assumes "length db \<le> 65536"
    and "r \<in> set (calculate_inter_area_routes sdb (snd (calculate_spf_with_paths my db ifs nbrs)))"
  shows "\<exists>k l s n. (k, l) \<in> set sdb \<and> key_type k = SummaryNetwork \<and> body l = BSummary s \<and>
    is_distance (spf_edge (spf_context my db ifs nbrs f)) my (advertising_router (header l)) n \<and>
    prefix r = apply_mask (link_state_id (header l)) (s_network_mask s) \<and>
    unat (route_cost r) = min 4294967295 (n + unat (s_metric s)) \<and> route_kind r = Inter"
proof -
  let ?paths = "snd (calculate_spf_with_paths my db ifs nbrs)"
  have sat: "unat (u32_saturating_add a b) = min 4294967295 (unat a + unat b)" for a b
    by (auto simp: u32_saturating_add_def unat_add_small min_def unsigned_minus_1_eq_mask mask_eq_exp_minus_1)
  from assms(2) obtain k l where kl: "(k, l) \<in> set sdb" "r \<in> set (inter_area_route ?paths (k, l))"
    by (auto simp: calculate_inter_area_routes_def)
  then have key: "key_type k = SummaryNetwork" by (auto simp: inter_area_route_def split: if_splits)
  with kl(2) obtain s where s: "body l = BSummary s"
    by (cases "body l") (auto simp: inter_area_route_def)
  with key kl(2) obtain d nh where p: "map_of ?paths (advertising_router (header l)) = Some (d, nh)"
    by (cases "map_of ?paths (advertising_router (header l))") (auto simp: inter_area_route_def)
  with key s kl(2) have "prefix r = apply_mask (link_state_id (header l)) (s_network_mask s)"
    "route_cost r = u32_saturating_add d (s_metric s)" "route_kind r = Inter"
    by (auto simp: inter_area_route_def)
  with key s p kl(1) sat router_paths_distance [OF assms(1) p] show ?thesis by metis
qed

section \<open>A concrete area\<close>

definition example_router :: "ipv4 \<Rightarrow> RouterLink list \<Rightarrow> LsaKey \<times> Lsa" where
  "example_router rid ls =
     (\<lparr>key_type = Router, key_lsid = rid, key_adv = rid\<rparr>,
      \<lparr>header = \<lparr>ls_age = 1, h_options = 2, ls_type = Router, link_state_id = rid,
        advertising_router = rid, ls_sequence_number = 1, ls_checksum = 0, h_length = 0\<rparr>,
       body = BRouter \<lparr>r_flags = 0, r_links = ls\<rparr>\<rparr>)"

definition example_link :: "RouterLinkType \<Rightarrow> ipv4 \<Rightarrow> ipv4 \<Rightarrow> u16 \<Rightarrow> RouterLink" where
  "example_link t i d m = \<lparr>link_id = i, link_data = d, link_type = t, num_tos = 0, rl_metric = m\<rparr>"

definition example_area_db :: "(LsaKey \<times> Lsa) list" where
  "example_area_db =
     [example_router 1 [example_link RL_PointToPoint 2 0 10, example_link RL_PointToPoint 3 0 50],
      example_router 2 [example_link RL_PointToPoint 1 0 10, example_link RL_PointToPoint 3 0 5],
      example_router 3 [example_link RL_StubNetwork 0x0A000000 0xFF000000 7]]"

definition example_neighbors :: "SpfNeighbor list" where
  "example_neighbors =
     [\<lparr>snb_router_id = 2, snb_address = 22, snb_sw_if_index = 102\<rparr>,
      \<lparr>snb_router_id = 3, snb_address = 33, snb_sw_if_index = 103\<rparr>]"

definition example_context :: SpfContext where
  "example_context = spf_context 1 example_area_db [] example_neighbors find_router_iface_on_network"

lemmas example_context_eval = example_context_def spf_context_def Let_def example_area_db_def
  example_neighbors_def example_router_def example_link_def collect_map_def

lemmas spf_eval = spf_run_def spf_init_def spf_loop.simps spf_step_def heap_pop_def
  heap_push_def spf_node_cmp_def cmp_def router_links_def spf_relax_link_def spf_offer_def
  new_cost_better_def dist_or_max_def p2p_next_hop_def

lemma example_run:
  "map_of (dist (spf_run example_context)) 3 = Some 15 \<and>
   map_of (next_hops (spf_run example_context)) 3 = Some \<lparr>nh_address = 22, nh_sw_if_index = 102\<rparr>"
  by (simp add: example_context_eval spf_eval)

lemma length_example_area_db: "length example_area_db \<le> 65536"
  by (simp add: example_area_db_def)

theorem spf_shortest_paths_witness: "is_distance (spf_edge example_context) 1 3 15"
  using spf_shortest_paths [OF length_example_area_db, of 1 "[]" example_neighbors find_router_iface_on_network 3]
    example_run by (simp add: example_context_def)

lemma example_distance: "is_distance (spf_edge example_context) 1 3 15"
proof -
  have "card (lsa_routers example_context) \<le> 65536"
    unfolding example_context_def using card_lsa_routers length_example_area_db by (rule le_trans)
  from spf_run_dist_iff [OF this, of 3 15] example_run show ?thesis
    by (simp add: example_context_def)
qed

theorem spf_next_hop_on_shortest_path_witness:
  "\<exists>nh. map_of (next_hops (spf_run example_context)) 3 = Some nh \<and> path_via example_context nh 3 15"
  unfolding example_context_def
proof (rule spf_next_hop_on_shortest_path [OF length_example_area_db])
  show "links_resolved (spf_context 1 example_area_db [] example_neighbors find_router_iface_on_network)"
    by (simp add: links_resolved_def example_context_eval router_links_def)
qed (use example_distance in \<open>simp_all add: example_context_def\<close>)

theorem stub_routes_exact_witness:
  "\<exists>r \<in> set (stub_routes example_context (spf_run example_context)).
     prefix r = 0x0A000000 \<and> prefix_len r = mask_to_prefix_len 0xFF000000 \<and> unat (route_cost r) = 22"
proof -
  let ?l = "example_link RL_StubNetwork 0x0A000000 0xFF000000 7"
  have "?l \<in> set (router_links example_context 3)"
    by (simp add: example_context_eval router_links_def)
  moreover have "link_type ?l = RL_StubNetwork" "link_id ?l = 0x0A000000" "link_data ?l = 0xFF000000"
    "unat (rl_metric ?l) = 7"
    by (simp_all add: example_link_def)
  ultimately show ?thesis
    using example_distance
    unfolding example_context_def stub_routes_exact [OF length_example_area_db]
    by (intro exI [of _ 3] exI [of _ 15] exI [of _ ?l]) simp
qed

definition example_summary :: "(LsaKey \<times> Lsa) list" where
  "example_summary =
     [(\<lparr>key_type = SummaryNetwork, key_lsid = 0x0B000000, key_adv = 2\<rparr>,
       \<lparr>header = \<lparr>ls_age = 1, h_options = 2, ls_type = SummaryNetwork, link_state_id = 0x0B000000,
          advertising_router = 2, ls_sequence_number = 1, ls_checksum = 0, h_length = 0\<rparr>,
        body = BSummary \<lparr>s_network_mask = 0xFF000000, s_metric = 100\<rparr>\<rparr>)]"

lemma example_paths:
  "map_of (snd (calculate_spf_with_paths 1 example_area_db [] example_neighbors)) 2 =
     Some (10, \<lparr>nh_address = 22, nh_sw_if_index = 102\<rparr>)"
  by (simp add: calculate_spf_with_paths_def example_context_eval spf_eval)

theorem inter_area_routes_sound_witness:
  "\<exists>r \<in> set (calculate_inter_area_routes example_summary
       (snd (calculate_spf_with_paths 1 example_area_db [] example_neighbors))).
     \<exists>n. is_distance (spf_edge example_context) 1 2 n \<and> unat (route_cost r) = min 4294967295 (n + 100)"
proof -
  let ?rs = "calculate_inter_area_routes example_summary
       (snd (calculate_spf_with_paths 1 example_area_db [] example_neighbors))"
  obtain r where r: "r \<in> set ?rs"
    by (simp add: calculate_inter_area_routes_def inter_area_route_def example_summary_def example_paths)
  have "\<exists>n. is_distance (spf_edge example_context) 1 2 n \<and> unat (route_cost r) = min 4294967295 (n + 100)"
    using inter_area_routes_sound [OF length_example_area_db r, of find_router_iface_on_network]
    by (auto simp: example_summary_def example_context_def)
  with r show ?thesis by blast
qed

end
