(* ===== verification/Rib.thy ===== *)
theory Rib
  imports Spf
begin

text \<open>
  \<^verbatim>\<open>src/rib.rs\<close>: the cache of the last SPF output, keyed by prefix, and the split of the routes into
  one batch per route kind that \<^verbatim>\<open>src/rib_client.rs\<close> pushes. The theorems: the cache holds a cheapest route
  for every prefix, and the reported differences are zero exactly when nothing changed.
\<close>

section \<open>The cache\<close>

record RouteKey =
  rk_prefix :: ipv4
  rk_prefix_len :: u8

record RouteValue =
  rv_next_hop :: ipv4
  rv_cost :: u32
  rv_sw_if_index :: u32
  rv_kind :: OspfRouteKind

type_synonym OspfRib = "(RouteKey \<times> RouteValue) list"

definition route_key :: "SpfRoute \<Rightarrow> RouteKey" where
  "route_key r = \<lparr>rk_prefix = prefix r, rk_prefix_len = prefix_len r\<rparr>"

definition route_value :: "SpfRoute \<Rightarrow> RouteValue" where
  "route_value r =
     \<lparr>rv_next_hop = next_hop r, rv_cost = route_cost r, rv_sw_if_index = route_sw_if_index r,
      rv_kind = route_kind r\<rparr>"

definition rib_new :: OspfRib where
  "rib_new = []"

text \<open>\<^verbatim>\<open>new_map.entry(key).and_modify(..).or_insert(val)\<close> for one route.\<close>

definition rib_entry :: "SpfRoute \<Rightarrow> OspfRib \<Rightarrow> OspfRib" where
  "rib_entry r m =
     (case map_of m (route_key r) of
        Some existing \<Rightarrow>
          if route_cost r < rv_cost existing then AList.update (route_key r) (route_value r) m else m
      | None \<Rightarrow> AList.update (route_key r) (route_value r) m)"

definition apply_routes :: "SpfRoute list \<Rightarrow> OspfRib \<Rightarrow> (nat \<times> nat) \<times> OspfRib" where
  "apply_routes new_routes installed =
     (let new_map = fold rib_entry new_routes [];
          deleted = length (filter (\<lambda>(k, _). map_of new_map k = None) installed);
          added = length (filter (\<lambda>(k, v). map_of installed k \<noteq> Some v) new_map)
      in ((added, deleted), new_map))"

definition rib_clear :: "OspfRib \<Rightarrow> OspfRib" where
  "rib_clear m = []"

definition route_count :: "OspfRib \<Rightarrow> nat" where
  "route_count m = length m"

definition installed_routes :: "OspfRib \<Rightarrow> SpfRoute list" where
  "installed_routes m =
     map (\<lambda>(k, v). \<lparr>prefix = rk_prefix k, prefix_len = rk_prefix_len k, next_hop = rv_next_hop v,
        route_cost = rv_cost v, route_sw_if_index = rv_sw_if_index v, route_kind = rv_kind v\<rparr>) m"

section \<open>Batches for ribd\<close>

text \<open>The message types of ribd, as far as the conversion builds them.\<close>

datatype Source = OspfIntra | OspfInter | OspfExt1 | OspfExt2

record ProtoRoute =
  p_prefix :: "ipv4 \<times> u8"
  p_source :: Source
  p_next_hops :: "(ipv4 \<times> u32) list"
  p_metric :: u32
  p_tag :: u32
  p_admin_distance :: "u8 option"
  p_table_id :: u32

definition spf_route_to_proto :: "SpfRoute \<Rightarrow> Source \<Rightarrow> u32 \<Rightarrow> ProtoRoute" where
  "spf_route_to_proto r source table_id =
     \<lparr>p_prefix = (prefix r, prefix_len r), p_source = source,
      p_next_hops = [(next_hop r, route_sw_if_index r)], p_metric = route_cost r, p_tag = 0,
      p_admin_distance = None, p_table_id = table_id\<rparr>"

fun kind_source :: "OspfRouteKind \<Rightarrow> Source" where
  "kind_source Intra = OspfIntra"
| "kind_source Inter = OspfInter"
| "kind_source External1 = OspfExt1"
| "kind_source External2 = OspfExt2"

definition to_proto :: "u32 \<Rightarrow> (OspfRouteKind \<Rightarrow> u8 option) \<Rightarrow> SpfRoute \<Rightarrow> ProtoRoute" where
  "to_proto table_id ad_override r =
     (spf_route_to_proto r (kind_source (route_kind r)) table_id)
       \<lparr>p_admin_distance := ad_override (route_kind r)\<rparr>"

text \<open>
  The four bulk messages of \<^verbatim>\<open>push_v4\<close>, in the order they are sent; empty ones are sent too. The
  connection to ribd that carries them is not modelled.
\<close>

definition push_v4 ::
  "u32 \<Rightarrow> (OspfRouteKind \<Rightarrow> u8 option) \<Rightarrow> SpfRoute list \<Rightarrow> (Source \<times> ProtoRoute list) list" where
  "push_v4 table_id ad_override routes =
     (let of_kind = (\<lambda>k. map (to_proto table_id ad_override) (filter (\<lambda>r. route_kind r = k) routes))
      in [(OspfIntra, of_kind Intra), (OspfInter, of_kind Inter),
          (OspfExt1, of_kind External1), (OspfExt2, of_kind External2)])"

definition withdraw_v4 :: "(Source \<times> ProtoRoute list) list" where
  "withdraw_v4 = [(OspfIntra, []), (OspfInter, []), (OspfExt1, []), (OspfExt2, [])]"

section \<open>Lemmas\<close>

lemma map_of_rib_entry:
  "map_of (rib_entry r m) k =
     (if k = route_key r \<and> (case map_of m k of Some e \<Rightarrow> route_cost r < rv_cost e | None \<Rightarrow> True)
      then Some (route_value r) else map_of m k)"
  by (auto simp: rib_entry_def update_conv' split: option.split)

lemma distinct_rib_entry: "distinct (map fst m) \<Longrightarrow> distinct (map fst (rib_entry r m))"
  by (simp add: rib_entry_def distinct_update split: option.split)

lemma distinct_fold_rib_entry: "distinct (map fst m) \<Longrightarrow> distinct (map fst (fold rib_entry rs m))"
  by (induction rs arbitrary: m) (simp_all add: distinct_rib_entry)

text \<open>The entry of a key after the loop: a cheapest route with that key.\<close>

definition cheapest :: "SpfRoute set \<Rightarrow> RouteKey \<Rightarrow> RouteValue \<Rightarrow> bool" where
  "cheapest R k v \<longleftrightarrow> (\<exists>r \<in> R. route_key r = k \<and> v = route_value r) \<and>
     (\<forall>r \<in> R. route_key r = k \<longrightarrow> rv_cost v \<le> route_cost r)"

lemma fold_rib_entry_cheapest:
  "case map_of (fold rib_entry rs []) k of
     None \<Rightarrow> \<forall>r \<in> set rs. route_key r \<noteq> k | Some v \<Rightarrow> cheapest (set rs) k v"
proof (induction rs rule: rev_induct)
  case (snoc r rs)
  have cost: "rv_cost (route_value r) = route_cost r" for r by (simp add: route_value_def)
  show ?case
  proof (cases "map_of (fold rib_entry rs []) k")
    case None
    with snoc have "\<forall>r \<in> set rs. route_key r \<noteq> k" by simp
    with None cost show ?thesis by (auto simp: map_of_rib_entry cheapest_def)
  next
    case (Some v)
    with snoc have v: "cheapest (set rs) k v" by simp
    show ?thesis
    proof (cases "k = route_key r \<and> route_cost r < rv_cost v")
      case True
      then have "cheapest (set (rs @ [r])) k (route_value r)"
        using v cost by (fastforce simp: cheapest_def)
      with True Some show ?thesis by (simp add: map_of_rib_entry)
    next
      case False
      then have "cheapest (set (rs @ [r])) k v"
        using v by (auto simp: cheapest_def)
      with False Some show ?thesis by (auto simp: map_of_rib_entry)
    qed
  qed
qed simp

lemma diff_zero:
  assumes "distinct (map fst m)" and "distinct (map fst n)"
  shows "filter (\<lambda>(k, _). map_of n k = None) m = [] \<and> filter (\<lambda>(k, v). map_of m k \<noteq> Some v) n = [] \<longleftrightarrow>
    map_of m = map_of n"
proof
  assume L: "filter (\<lambda>(k, _). map_of n k = None) m = [] \<and> filter (\<lambda>(k, v). map_of m k \<noteq> Some v) n = []"
  show "map_of m = map_of n"
  proof
    fix k
    show "map_of m k = map_of n k"
    proof (cases "map_of n k")
      case None
      with L have "k \<notin> fst ` set m" by (auto simp: filter_empty_conv)
      with None show ?thesis by (metis map_of_eq_None_iff)
    next
      case (Some v)
      then have "(k, v) \<in> set n" by (rule map_of_SomeD)
      with L Some show ?thesis by (auto simp: filter_empty_conv)
    qed
  qed
next
  assume R: "map_of m = map_of n"
  have "map_of n k \<noteq> None" if "(k, v) \<in> set m" for k v
    using that assms(1) by (simp add: flip: R)
  moreover have "map_of m k = Some v" if "(k, v) \<in> set n" for k v
    using that assms(2) by (simp add: R)
  ultimately show "filter (\<lambda>(k, _). map_of n k = None) m = [] \<and> filter (\<lambda>(k, v). map_of m k \<noteq> Some v) n = []"
    by (fastforce simp: filter_empty_conv)
qed

section \<open>Properties\<close>

text \<open>
  After an update the cache has an entry for a prefix exactly when some route has that prefix, and the
  entry is one of the cheapest of them.
\<close>

theorem rib_holds_cheapest:
  "case map_of (snd (apply_routes rs m)) k of
     None \<Rightarrow> \<forall>r \<in> set rs. route_key r \<noteq> k | Some v \<Rightarrow> cheapest (set rs) k v"
  using fold_rib_entry_cheapest by (simp add: apply_routes_def Let_def)

definition example_route :: "u32 \<Rightarrow> SpfRoute" where
  "example_route k = \<lparr>prefix = 0x0A000000, prefix_len = 8, next_hop = k, route_cost = k,
     route_sw_if_index = 1, route_kind = Intra\<rparr>"

theorem rib_holds_cheapest_witness:
  "cheapest {example_route 20, example_route 10} (route_key (example_route 10)) (route_value (example_route 10)) \<and>
   map_of (snd (apply_routes [example_route 20, example_route 10] [])) (route_key (example_route 10)) =
     Some (route_value (example_route 10))"
proof -
  have "map_of (snd (apply_routes [example_route 20, example_route 10] [])) (route_key (example_route 10)) =
     Some (route_value (example_route 10))"
    by (simp add: apply_routes_def rib_entry_def route_key_def route_value_def example_route_def)
  then show ?thesis
    using rib_holds_cheapest [where rs = "[example_route 20, example_route 10]" and m = "[]"
        and k = "route_key (example_route 10)"]
    by simp
qed

text \<open>
  The update reports no additions and no deletions exactly when the content of the cache did not
  change; in particular applying the same routes twice reports nothing the second time.
\<close>

theorem apply_routes_diff:
  assumes "distinct (map fst m)"
  shows "(fst (apply_routes rs m) = (0, 0) \<longleftrightarrow> map_of (snd (apply_routes rs m)) = map_of m) \<and>
    fst (apply_routes rs (snd (apply_routes rs m))) = (0, 0)"
proof -
  let ?n = "fold rib_entry rs []"
  have d: "distinct (map fst ?n)" by (rule distinct_fold_rib_entry) simp
  from diff_zero [OF assms d] diff_zero [OF d d] show ?thesis
    by (auto simp: apply_routes_def Let_def)
qed

theorem apply_routes_diff_witness:
  "fst (apply_routes [example_route 20] (snd (apply_routes [example_route 20] []))) = (0, 0)"
  using apply_routes_diff [of "[]" "[example_route 20]"] by simp

text \<open>
  Every route is pushed in exactly one batch, the one of its kind and with its own source, cost and
  table id, and a batch is sent for each of the four kinds even when it is empty.
\<close>

theorem push_v4_partition:
  "map fst (push_v4 t ad rs) = map fst withdraw_v4 \<and>
   mset (concat (map snd (push_v4 t ad rs))) = mset (map (to_proto t ad) rs) \<and>
   (\<forall>(src, b) \<in> set (push_v4 t ad rs). \<forall>p \<in> set b. p_source p = src \<and> p_table_id p = t)"
proof -
  have "mset (concat (map snd (push_v4 t ad rs))) = mset (map (to_proto t ad) rs)"
  proof (induction rs)
    case (Cons r rs)
    then show ?case by (cases "route_kind r") (simp_all add: push_v4_def Let_def)
  qed (simp add: push_v4_def)
  then show ?thesis
    by (auto simp: push_v4_def withdraw_v4_def Let_def to_proto_def spf_route_to_proto_def)
qed

theorem push_v4_partition_witness:
  "mset (concat (map snd (push_v4 7 (\<lambda>_. None) [example_route 20, example_route 10]))) =
   mset (map (to_proto 7 (\<lambda>_. None)) [example_route 20, example_route 10])"
  using push_v4_partition [of 7 "\<lambda>_. None" "[example_route 20, example_route 10]"] by blast

end
