(* ===== verification/Instance_State.thy ===== *)
theory Instance_State
  imports Lsdb Interface_Fsm Rib
begin

text \<open>
  \<^verbatim>\<open>src/instance.rs\<close>, first part: the state of a protocol instance, its construction from the parsed
  configuration of \<^verbatim>\<open>src/config.rs\<close>, the SPF throttle, Hello processing, the neighbor timers and the
  reconciliation of interface state. The clock is the argument \<open>now\<close>. A match clause of a route-map
  is a value of the type variable \<open>'c\<close>: it belongs to the external crate \<^verbatim>\<open>ribd_routemap\<close>.
\<close>

section \<open>Configuration\<close>

record OspfInterfaceConfig =
  ic_name :: string
  ic_address :: ipv4
  ic_prefix_len :: u8
  ic_area_id :: ipv4
  ic_cost :: u16
  ic_passive :: bool
  ic_network_type :: string
  ic_hello_interval :: u16
  ic_dead_interval :: u32
  ic_priority :: u8
  ic_retransmit_interval :: u16
  ic_auth_key :: AuthKey
  ic_static_neighbors :: "(ipv4 \<times> u8) list"

record AreaConfig =
  ac_area_id :: ipv4
  ac_area_type :: AreaType
  ac_default_cost :: u32

datatype RedistributeSource = Connected | Static | Bgp | Kernel

record RedistributeConfig =
  rd_source :: RedistributeSource
  rd_metric :: u32
  rd_metric_type :: u8
  rd_route_map :: "string option"

record ParsedSummaryAddress =
  sa_prefix :: ipv4
  sa_prefix_len :: u8
  sa_no_advertise :: bool
  sa_tag :: u32
  sa_metric :: u32
  sa_metric_type :: u8

text \<open>What the daemon reads of the external \<^verbatim>\<open>RouteMap\<close>: statements with a match clause and an action.\<close>

datatype Action = Permit | Deny

record 'c Statement =
  stmt_match :: 'c
  stmt_action :: Action

type_synonym 'c RouteMap = "'c Statement list"

record 'c OspfDaemonConfig =
  dc_vrf_name :: "string option"
  dc_table_id_v4 :: u32
  dc_router_id :: ipv4
  dc_reference_bandwidth :: u32
  dc_spf_delay_ms :: u64
  dc_spf_holdtime_ms :: u64
  dc_spf_max_holdtime_ms :: u64
  dc_interfaces :: "OspfInterfaceConfig list"
  dc_redistribute :: "RedistributeConfig list"
  dc_areas :: "AreaConfig list"
  dc_distance :: "u8 option"
  dc_distance_intra :: "u8 option"
  dc_distance_inter :: "u8 option"
  dc_distance_external :: "u8 option"
  dc_default_originate :: bool
  dc_default_originate_metric :: u32
  dc_default_originate_metric_type :: u8
  dc_summary_addresses :: "ParsedSummaryAddress list"
  dc_route_maps :: "(string \<times> 'c RouteMap) list"

fun or_opt :: "'a option \<Rightarrow> 'a option \<Rightarrow> 'a option" where
  "or_opt (Some x) _ = Some x"
| "or_opt None y = y"

definition admin_distance_for :: "'c OspfDaemonConfig \<Rightarrow> OspfRouteKind \<Rightarrow> u8 option" where
  "admin_distance_for c kind =
     or_opt (case kind of Intra \<Rightarrow> dc_distance_intra c | Inter \<Rightarrow> dc_distance_inter c
             | External1 \<Rightarrow> dc_distance_external c | External2 \<Rightarrow> dc_distance_external c)
       (dc_distance c)"

definition redistribute_source_parse :: "string \<Rightarrow> RedistributeSource option" where
  "redistribute_source_parse s =
     (if s = ''connected'' then Some Connected else if s = ''static'' then Some Static
      else if s = ''bgp'' then Some Bgp else if s = ''kernel'' then Some Kernel else None)"

section \<open>Masks\<close>

text \<open>\<^verbatim>\<open>32 - len\<close> is a \<^verbatim>\<open>u8\<close> and the shift amount of a \<^verbatim>\<open>u32\<close> is taken modulo 32 in a release build.\<close>

definition prefix_len_to_mask :: "u8 \<Rightarrow> ipv4" where
  "prefix_len_to_mask len =
     (if len = 0 then UNSPECIFIED else push_bit (unat (32 - len) mod 32) (NOT 0))"

text \<open>\<^verbatim>\<open>u32::leading_ones\<close>.\<close>

definition mask_to_prefix_len_v4 :: "ipv4 \<Rightarrow> u8" where
  "mask_to_prefix_len_v4 m = word_of_nat (length (takeWhile (\<lambda>i. bit m (31 - i)) [0..<32]))"

definition prefix_covered_by :: "ipv4 \<Rightarrow> ipv4 \<Rightarrow> u8 \<Rightarrow> bool" where
  "prefix_covered_by addr summary_prefix summary_len \<longleftrightarrow>
     (if summary_len = 0 then True
      else if summary_len > 32 then False
      else (let m = push_bit (unat (32 - summary_len) mod 32) (NOT 0) in
            addr AND m = summary_prefix AND m))"

section \<open>The instance\<close>

record 'c OspfInstance =
  vrf_name :: "string option"
  router_id :: ipv4
  areas :: "(ipv4 \<times> Area) list"
  as_external_lsdb :: Lsdb
  redistribute :: "RedistributeConfig list"
  interfaces :: "OspfInterface list"
  spf_scheduled :: "instant option"
  spf_last_run :: "instant option"
  spf_hold_multiplier :: u32
  spf_delay_ms :: u64
  spf_holdtime_ms :: u64
  spf_max_holdtime_ms :: u64
  rib :: OspfRib
  summary_addresses :: "ParsedSummaryAddress list"
  route_maps :: "(string \<times> 'c RouteMap) list"

type_synonym response = "u32 \<times> ipv4 \<times> OspfPacket"

definition network_type_of :: "string \<Rightarrow> NetworkType" where
  "network_type_of s =
     (if s = ''point-to-point'' then PointToPoint
      else if s = ''non-broadcast'' then NonBroadcast
      else if s = ''point-to-multipoint'' then PointToMultipoint
      else Broadcast)"

definition interface_of_config :: "instant \<Rightarrow> ipv4 \<Rightarrow> OspfInterfaceConfig \<Rightarrow> OspfInterface" where
  "interface_of_config now rid c =
     (interface_new now (ic_name c) 0 (ic_address c) (prefix_len_to_mask (ic_prefix_len c)) (ic_area_id c)
        (network_type_of (ic_network_type c)) rid)
       \<lparr>hello_interval := ic_hello_interval c, dead_interval := ic_dead_interval c,
        rxmt_interval := ic_retransmit_interval c, if_cost := ic_cost c, if_priority := ic_priority c,
        auth_key := ic_auth_key c,
        static_neighbors := map (\<lambda>(a, p). \<lparr>sn_address = a, sn_priority = p\<rparr>) (ic_static_neighbors c)\<rparr>"

text \<open>\<^verbatim>\<open>areas.entry(id).or_insert_with(..)\<close>.\<close>

definition ensure_area :: "ipv4 \<Rightarrow> Area \<Rightarrow> (ipv4 \<times> Area) list \<Rightarrow> (ipv4 \<times> Area) list" where
  "ensure_area aid a m = (if map_of m aid = None then AList.update aid a m else m)"

definition area_of_config :: "ipv4 \<Rightarrow> (ipv4 \<times> (AreaType \<times> u32)) list \<Rightarrow> OspfInterfaceConfig \<Rightarrow> Area" where
  "area_of_config rid area_types c =
     (let (ty, cost) = (case map_of area_types (ic_area_id c) of Some p \<Rightarrow> p | None \<Rightarrow> (Normal, 1))
      in (area_new (ic_area_id c) ty rid)\<lparr>default_cost := cost\<rparr>)"

definition instance_new :: "instant \<Rightarrow> 'c OspfDaemonConfig \<Rightarrow> 'c OspfInstance" where
  "instance_new now config =
     (let rid = dc_router_id config;
          area_types = collect_map (map (\<lambda>a. (ac_area_id a, (ac_area_type a, ac_default_cost a))) (dc_areas config));
          areas = fold (\<lambda>c. ensure_area (ic_area_id c) (area_of_config rid area_types c)) (dc_interfaces config) [];
          areas = ensure_area UNSPECIFIED (area_new UNSPECIFIED Normal rid) areas
      in \<lparr>vrf_name = dc_vrf_name config, router_id = rid, areas = areas, as_external_lsdb = lsdb_new rid,
          redistribute = dc_redistribute config,
          interfaces = map (interface_of_config now rid) (filter (\<lambda>c. \<not> ic_passive c) (dc_interfaces config)),
          spf_scheduled = None, spf_last_run = None, spf_hold_multiplier = 0,
          spf_delay_ms = dc_spf_delay_ms config, spf_holdtime_ms = dc_spf_holdtime_ms config,
          spf_max_holdtime_ms = dc_spf_max_holdtime_ms config, rib = rib_new,
          summary_addresses = dc_summary_addresses config, route_maps = dc_route_maps config\<rparr>)"

definition instance_lsdb :: "'c OspfInstance \<Rightarrow> ipv4 \<Rightarrow> Lsdb option" where
  "instance_lsdb s aid = map_option lsdb (map_of (areas s) aid)"

definition is_abr :: "'c OspfInstance \<Rightarrow> bool" where
  "is_abr s \<longleftrightarrow>
     (let areas = set (map if_area_id (interfaces s)) in card areas \<ge> 2 \<and> UNSPECIFIED \<in> areas)"

text \<open>\<^verbatim>\<open>Iterator::position\<close>.\<close>

fun position :: "('a \<Rightarrow> bool) \<Rightarrow> 'a list \<Rightarrow> nat option" where
  "position P [] = None"
| "position P (x # xs) = (if P x then Some 0 else map_option Suc (position P xs))"

definition find_interface :: "'c OspfInstance \<Rightarrow> u32 \<Rightarrow> nat option" where
  "find_interface s idx = position (\<lambda>i. sw_if_index i = idx) (interfaces s)"

text \<open>The loop variable or index borrowed mutably: \<^verbatim>\<open>&mut self.interfaces[idx]\<close>, \<^verbatim>\<open>self.areas.get_mut(&id)\<close>.\<close>

definition update_iface :: "nat \<Rightarrow> (OspfInterface \<Rightarrow> OspfInterface) \<Rightarrow> 'c OspfInstance \<Rightarrow> 'c OspfInstance" where
  "update_iface idx f s = s\<lparr>interfaces := (interfaces s)[idx := f (interfaces s ! idx)]\<rparr>"

definition update_neighbor :: "ipv4 \<Rightarrow> (Neighbor \<Rightarrow> Neighbor) \<Rightarrow> OspfInterface \<Rightarrow> OspfInterface" where
  "update_neighbor nid f i = i\<lparr>neighbors := modify_key f nid (neighbors i)\<rparr>"

definition set_area_lsdb :: "ipv4 \<Rightarrow> Lsdb \<Rightarrow> 'c OspfInstance \<Rightarrow> 'c OspfInstance" where
  "set_area_lsdb aid db s = s\<lparr>areas := modify_key (\<lambda>a. a\<lparr>lsdb := db\<rparr>) aid (areas s)\<rparr>"

section \<open>The SPF throttle\<close>

definition schedule_spf :: "instant \<Rightarrow> 'c OspfInstance \<Rightarrow> 'c OspfInstance" where
  "schedule_spf now s =
     (let (delay, mult) =
        (case spf_last_run s of
           Some last_run \<Rightarrow>
             (let since_last = word_of_nat (saturating_duration_since now last_run) :: u64;
                  hold = spf_holdtime_ms s * push_bit (unat (min (spf_hold_multiplier s) 10)) 1;
                  hold = min hold (spf_max_holdtime_ms s)
              in if since_last \<ge> hold then (spf_delay_ms s, 0)
                 else (hold - since_last, u32_saturating_add (spf_hold_multiplier s) 1))
         | None \<Rightarrow> (spf_delay_ms s, spf_hold_multiplier s));
          scheduled_at = now + int (unat delay);
          s = s\<lparr>spf_hold_multiplier := mult\<rparr>
      in case spf_scheduled s of
           Some existing \<Rightarrow> if existing \<le> scheduled_at then s else s\<lparr>spf_scheduled := Some scheduled_at\<rparr>
         | None \<Rightarrow> s\<lparr>spf_scheduled := Some scheduled_at\<rparr>)"

definition spf_due :: "'c OspfInstance \<Rightarrow> instant option" where
  "spf_due s = spf_scheduled s"

section \<open>Hello\<close>

definition hello_adjacency :: "OspfInterface \<Rightarrow> Neighbor \<Rightarrow> bool" where
  "hello_adjacency i n \<longleftrightarrow>
     (case network_type i of
        PointToPoint \<Rightarrow> True
      | PointToMultipoint \<Rightarrow> True
      | _ \<Rightarrow> if_state i = DR \<or> if_state i = Backup \<or> n_dr n = n_address n \<or> n_bdr n = n_address n)"

text \<open>The block that updates the neighbor: its declared fields, HelloReceived, then the 2-way check.\<close>

definition hello_neighbor ::
  "instant \<Rightarrow> ipv4 \<Rightarrow> ipv4 \<Rightarrow> HelloPacket \<Rightarrow> OspfInterface \<Rightarrow> Neighbor \<Rightarrow> Neighbor" where
  "hello_neighbor now my_rid src hello i n =
     (let n = n\<lparr>n_priority := hp_router_priority hello, n_dr := hp_designated_router hello,
              n_bdr := hp_backup_designated_router hello, n_address := src\<rparr>;
          n = snd (handle_event now HelloReceived False n);
          two_way = (my_rid \<in> set (hp_neighbors hello))
      in if two_way \<and> n_state n = Init then
           snd (handle_event now TwoWayReceived (hello_adjacency i n) n)
         else if \<not> two_way \<and> n_state n \<ge> TwoWay then
           snd (handle_event now OneWay False n)
         else n)"

definition hello_interface ::
  "instant \<Rightarrow> ipv4 \<Rightarrow> ipv4 \<Rightarrow> OspfHeader \<Rightarrow> HelloPacket \<Rightarrow> OspfInterface \<Rightarrow> OspfInterface" where
  "hello_interface now my_rid src hdr hello i =
     (if hp_hello_interval hello \<noteq> hello_interval i \<or> hp_router_dead_interval hello \<noteq> dead_interval i then i
      else
        (let nid = oh_router_id hdr;
             old = (case map_of (neighbors i) nid of Some n \<Rightarrow> n | None \<Rightarrow> neighbor_new now nid src);
             new = hello_neighbor now my_rid src hello i old;
             i = i\<lparr>neighbors := AList.update nid new (neighbors i)\<rparr>;
             i = (if if_state i = Waiting \<and> (n_bdr new \<noteq> UNSPECIFIED \<or> n_dr new \<noteq> UNSPECIFIED)
                  then snd (interface_handle_event now BackupSeen i) else i);
             two_way_boundary_crossed = ((n_state old \<ge> TwoWay) \<noteq> (n_state new \<ge> TwoWay));
             dr_changed = (n_dr old \<noteq> n_dr new);
             bdr_changed = (n_bdr old \<noteq> n_bdr new)
         in if two_way_boundary_crossed \<or> dr_changed \<or> bdr_changed
            then snd (interface_handle_event now NeighborChange i) else i))"

definition process_hello ::
  "instant \<Rightarrow> nat \<Rightarrow> ipv4 \<Rightarrow> OspfHeader \<Rightarrow> HelloPacket \<Rightarrow> 'c OspfInstance \<Rightarrow> 'c OspfInstance" where
  "process_hello now idx src hdr hello s =
     update_iface idx (hello_interface now (router_id s) src hdr hello) s"

definition build_hello :: "'c OspfInstance \<Rightarrow> OspfInterface \<Rightarrow> OspfPacket" where
  "build_hello s i =
     Hello (ospf_header_new PT_Hello (router_id s) (if_area_id i))
       \<lparr>hp_network_mask = if_mask i, hp_hello_interval = hello_interval i, hp_options = if_options i,
        hp_router_priority = if_priority i, hp_router_dead_interval = dead_interval i,
        hp_designated_router = if_dr i, hp_backup_designated_router = if_bdr i,
        hp_neighbors = map n_router_id (filter (\<lambda>n. n_state n \<ge> Init) (map snd (neighbors i)))\<rparr>"

section \<open>Timers and interface state\<close>

definition dead_duration :: "OspfInterface \<Rightarrow> nat" where
  "dead_duration i = 1000 * unat (dead_interval i)"

definition neighbor_expired :: "instant \<Rightarrow> OspfInterface \<Rightarrow> Neighbor \<Rightarrow> bool" where
  "neighbor_expired now i n \<longleftrightarrow>
     n_state n \<noteq> Down \<and> saturating_duration_since now (last_heard n) \<ge> dead_duration i"

definition expire_neighbor :: "instant \<Rightarrow> ipv4 \<Rightarrow> OspfInterface \<Rightarrow> OspfInterface" where
  "expire_neighbor now nid i =
     (case map_of (neighbors i) nid of
        None \<Rightarrow> i
      | Some n \<Rightarrow>
          (let n' = snd (handle_event now InactivityTimer False n);
               i = i\<lparr>neighbors := AList.update nid n' (neighbors i)\<rparr>
           in if n_state n \<ge> TwoWay \<and> \<not> n_state n' \<ge> TwoWay
              then snd (interface_handle_event now NeighborChange i) else i))"

definition check_interface_timers :: "instant \<Rightarrow> OspfInterface \<Rightarrow> bool \<times> OspfInterface" where
  "check_interface_timers now i =
     (let expired = map fst (filter (\<lambda>(_, n). neighbor_expired now i n) (neighbors i))
      in (expired \<noteq> [], fold (expire_neighbor now) expired i))"

definition check_neighbor_timers :: "instant \<Rightarrow> 'c OspfInstance \<Rightarrow> bool \<times> 'c OspfInstance" where
  "check_neighbor_timers now s =
     (let rs = map (check_interface_timers now) (interfaces s)
      in (list_ex fst rs, s\<lparr>interfaces := map snd rs\<rparr>))"

definition refresh_interface :: "instant \<Rightarrow> ipv4 \<Rightarrow> ipv4 \<Rightarrow> bool \<Rightarrow> OspfInterface \<Rightarrow> bool \<times> OspfInterface" where
  "refresh_interface now addr msk oper_up i =
     (let (changed, i) =
        (if if_address i \<noteq> addr \<or> if_mask i \<noteq> msk then (True, i\<lparr>if_address := addr, if_mask := msk\<rparr>)
         else (False, i));
          was_up = (if_state i \<noteq> If_Down)
      in if oper_up \<and> \<not> was_up then (True, snd (interface_handle_event now InterfaceUp i))
         else if \<not> oper_up \<and> was_up then (True, snd (interface_handle_event now InterfaceDown i))
         else (changed, i))"

definition refresh_interface_state ::
  "instant \<Rightarrow> u32 \<Rightarrow> ipv4 \<Rightarrow> ipv4 \<Rightarrow> bool \<Rightarrow> 'c OspfInstance \<Rightarrow> bool \<times> 'c OspfInstance" where
  "refresh_interface_state now idx addr msk oper_up s =
     (case position (\<lambda>i. sw_if_index i = idx) (interfaces s) of
        None \<Rightarrow> (False, s)
      | Some k \<Rightarrow>
          (case refresh_interface now addr msk oper_up (interfaces s ! k) of
             (changed, i) \<Rightarrow> (changed, s\<lparr>interfaces := (interfaces s)[k := i]\<rparr>)))"

section \<open>The invariant of a neighbor and of an interface\<close>

text \<open>
  Nothing is requested, retransmitted or described before Exchange; Loading means that requests are
  outstanding, and Full that none are.
\<close>

definition nbr_ok :: "Neighbor \<Rightarrow> bool" where
  "nbr_ok n \<longleftrightarrow>
     (n_state n \<le> ExStart \<longrightarrow> ls_request_list n = [] \<and> ls_retransmit_list n = [] \<and> db_summary_list n = []) \<and>
     (n_state n = Loading \<longrightarrow> ls_request_list n \<noteq> []) \<and>
     (n_state n = Full \<longrightarrow> ls_request_list n = [])"

definition iface_ok :: "OspfInterface \<Rightarrow> bool" where
  "iface_ok i \<longleftrightarrow> distinct (map fst (neighbors i)) \<and>
     (\<forall>k n. map_of (neighbors i) k = Some n \<longrightarrow> n_router_id n = k \<and> nbr_ok n)"

lemma nbr_ok_new [simp]: "nbr_ok (neighbor_new now rid addr)"
  by (simp add: nbr_ok_def neighbor_new_def)

lemma nbr_ok_handle_event:
  "nbr_ok n \<Longrightarrow> ev \<notin> {LoadingDone, NegotiationDone} \<Longrightarrow> nbr_ok (snd (handle_event now ev adj n))"
  by (cases ev; cases "n_state n")
    (simp_all add: handle_event_defs nbr_ok_def state_order clear_lists_def)

lemma nbr_ok_fields [simp]:
  "nbr_ok (n\<lparr>n_priority := a\<rparr>) = nbr_ok n" "nbr_ok (n\<lparr>n_dr := b\<rparr>) = nbr_ok n"
  "nbr_ok (n\<lparr>n_bdr := b\<rparr>) = nbr_ok n" "nbr_ok (n\<lparr>n_address := b\<rparr>) = nbr_ok n"
  "nbr_ok (n\<lparr>last_dd := d\<rparr>) = nbr_ok n" "nbr_ok (n\<lparr>dd_seq_number := w\<rparr>) = nbr_ok n"
  "nbr_ok (n\<lparr>last_dd_sent := t\<rparr>) = nbr_ok n" "nbr_ok (n\<lparr>last_lsr_sent := t\<rparr>) = nbr_ok n"
  "nbr_ok (n\<lparr>is_master := c\<rparr>) = nbr_ok n" "nbr_ok (n\<lparr>sent_m_clear := c\<rparr>) = nbr_ok n"
  by (simp_all add: nbr_ok_def)

text \<open>Replacing the neighbor stored under a key.\<close>

lemma iface_ok_put:
  "iface_ok i \<Longrightarrow> n_router_id n = nid \<Longrightarrow> nbr_ok n \<Longrightarrow> iface_ok (i\<lparr>neighbors := AList.update nid n (neighbors i)\<rparr>)"
  by (auto simp: iface_ok_def hm.invar_insert hm.get_insert split: if_splits)

lemma iface_ok_get: "iface_ok i \<Longrightarrow> map_of (neighbors i) k = Some n \<Longrightarrow> n_router_id n = k \<and> nbr_ok n"
  by (simp add: iface_ok_def)

lemma iface_ok_neighbors: "neighbors i = neighbors j \<Longrightarrow> iface_ok i = iface_ok j"
  by (simp add: iface_ok_def)

lemma iface_ok_no_neighbors: "neighbors i = [] \<Longrightarrow> iface_ok i"
  by (simp add: iface_ok_def)

lemma iface_ok_modify:
  assumes "iface_ok i" and "\<And>n. nbr_ok n \<Longrightarrow> nbr_ok (g n)" and "\<And>n. n_router_id (g n) = n_router_id n"
  shows "iface_ok (i\<lparr>neighbors := modify_key g k (neighbors i)\<rparr>)"
  using assms by (auto simp: iface_ok_def map_of_modify_key split: if_splits)

lemma iface_ok_fold_modify:
  assumes "iface_ok i" and "\<And>n. nbr_ok n \<Longrightarrow> nbr_ok (g n)" and "\<And>n. n_router_id (g n) = n_router_id n"
  shows "iface_ok (i\<lparr>neighbors := fold (modify_key g) ks (neighbors i)\<rparr>)"
  using assms(1)
proof (induction ks arbitrary: i)
  case (Cons k ks)
  from Cons.IH [OF iface_ok_modify [OF Cons.prems assms(2,3)], of k] show ?case by simp
qed simp

lemma iface_ok_reevaluate: "iface_ok i \<Longrightarrow> iface_ok (reevaluate_adjacencies now i)"
  unfolding reevaluate_adjacencies_def Let_def
  by (rule iface_ok_fold_modify) (simp_all add: nbr_ok_handle_event)

text \<open>An event of the interface keeps the neighbors, re-evaluates their adjacencies or drops them all.\<close>

lemma run_dr_election_fields [simp]:
  "neighbors (snd (run_dr_election i)) = neighbors i"
  "if_area_id (snd (run_dr_election i)) = if_area_id i"
  "sw_if_index (snd (run_dr_election i)) = sw_if_index i"
  "if_router_id (snd (run_dr_election i)) = if_router_id i"
  "dead_interval (snd (run_dr_election i)) = dead_interval i"
  by (simp_all add: run_dr_election_def Let_def split: prod.split)

lemma reevaluate_more_fields [simp]:
  "if_area_id (reevaluate_adjacencies now i) = if_area_id i"
  "sw_if_index (reevaluate_adjacencies now i) = sw_if_index i"
  "dead_interval (reevaluate_adjacencies now i) = dead_interval i"
  by (simp_all add: reevaluate_adjacencies_def Let_def)

lemma interface_event_result:
  obtains j where "snd (interface_handle_event now ev i) = j \<or> snd (interface_handle_event now ev i) = reevaluate_adjacencies now j"
    and "neighbors j = neighbors i \<or> neighbors j = [] \<and> ev = InterfaceDown"
    and "if_area_id j = if_area_id i" and "sw_if_index j = sw_if_index i" and "dead_interval j = dead_interval i"
proof -
  obtain r j0 where t: "interface_transition now ev i = (r, j0)" by fastforce
  let ?j = "case r of None \<Rightarrow> j0 | Some s \<Rightarrow> if s \<noteq> if_state i then j0\<lparr>if_state := s\<rparr> else j0"
  have j0: "(neighbors j0 = neighbors i \<or> neighbors j0 = [] \<and> ev = InterfaceDown) \<and> if_area_id j0 = if_area_id i \<and>
      sw_if_index j0 = sw_if_index i \<and> dead_interval j0 = dead_interval i"
  proof -
    have "j0 = snd (interface_transition now ev i)" using t by simp
    then show ?thesis by (cases ev; cases "network_type i") (simp_all add: interface_transition_def)
  qed
  show ?thesis
    by (rule that [of ?j]) (use t j0 in \<open>auto simp: interface_handle_event_def Let_def split: option.split\<close>)
qed

lemma iface_ok_event: "iface_ok i \<Longrightarrow> iface_ok (snd (interface_handle_event now ev i))"
proof -
  assume ok: "iface_ok i"
  obtain j where j: "snd (interface_handle_event now ev i) = j \<or> snd (interface_handle_event now ev i) = reevaluate_adjacencies now j"
      "neighbors j = neighbors i \<or> neighbors j = [] \<and> ev = InterfaceDown"
    by (rule interface_event_result)
  have "iface_ok j" using j(2) ok iface_ok_neighbors [of j i] iface_ok_no_neighbors [of j] by blast
  with j(1) show ?thesis using iface_ok_reevaluate [of j now] by metis
qed

lemma interface_event_fields [simp]:
  "if_area_id (snd (interface_handle_event now ev i)) = if_area_id i"
  "sw_if_index (snd (interface_handle_event now ev i)) = sw_if_index i"
  "dead_interval (snd (interface_handle_event now ev i)) = dead_interval i"
  by (rule interface_event_result [of now ev i]; auto)+

end
