(* ===== verification/Instance_Inv.thy ===== *)
theory Instance_Inv
  imports Instance_State
begin

text \<open>
  The invariant of a protocol instance and the contracts under which its parts may change: an operation
  on an interface, on a neighbor, on a database. Each contract is a locale; the handlers of the other
  theories interpret it, and the preservation of the invariant is proved once, here. The properties of
  Hello processing, the neighbor timers and the SPF throttle follow.
\<close>

section \<open>The invariant of an instance\<close>

text \<open>\<open>P\<close> selects the LSA types a database may hold.\<close>

definition db_ok :: "(LsaType \<Rightarrow> bool) \<Rightarrow> ipv4 \<Rightarrow> Lsdb \<Rightarrow> bool" where
  "db_ok P rid db \<longleftrightarrow> lsdb_inv db \<and> lsdb_router_id db = rid \<and> (\<forall>k e. lsdb_get db k = Some e \<longrightarrow> P (key_type k))"

abbreviation area_scope :: "LsaType \<Rightarrow> bool" where
  "area_scope t \<equiv> t \<noteq> AsExternal"

abbreviation as_scope :: "LsaType \<Rightarrow> bool" where
  "as_scope t \<equiv> t = AsExternal"

definition inst_inv :: "'c OspfInstance \<Rightarrow> bool" where
  "inst_inv s \<longleftrightarrow>
     distinct (map fst (areas s)) \<and>
     (\<forall>aid a. map_of (areas s) aid = Some a \<longrightarrow> area_id a = aid \<and> db_ok area_scope (router_id s) (lsdb a)) \<and>
     db_ok as_scope (router_id s) (as_external_lsdb s) \<and>
     (\<forall>i \<in> set (interfaces s). iface_ok i \<and> if_area_id i \<in> set (map fst (areas s)))"

lemma inst_inv_area:
  "inst_inv s \<Longrightarrow> map_of (areas s) aid = Some a \<Longrightarrow> area_id a = aid \<and> db_ok area_scope (router_id s) (lsdb a)"
  by (simp add: inst_inv_def)

lemma inst_inv_ext: "inst_inv s \<Longrightarrow> db_ok as_scope (router_id s) (as_external_lsdb s)"
  by (simp add: inst_inv_def)

lemma inst_inv_iface:
  "inst_inv s \<Longrightarrow> i \<in> set (interfaces s) \<Longrightarrow> iface_ok i \<and> if_area_id i \<in> set (map fst (areas s))"
  by (auto simp: inst_inv_def)

text \<open>The invariant reads the areas, the AS-wide database, the interfaces and the router id only.\<close>

lemma inst_inv_cong:
  "areas s = areas t \<Longrightarrow> as_external_lsdb s = as_external_lsdb t \<Longrightarrow> interfaces s = interfaces t \<Longrightarrow>
   router_id s = router_id t \<Longrightarrow> inst_inv s = inst_inv t"
  by (simp add: inst_inv_def)

section \<open>Contract: operations on databases\<close>

locale db_op =
  fixes f :: "Lsdb \<Rightarrow> Lsdb"
    and P :: "LsaType \<Rightarrow> bool"
  assumes keeps_inv: "lsdb_inv db \<Longrightarrow> lsdb_inv (f db)"
    and keeps_rid: "lsdb_router_id (f db) = lsdb_router_id db"
    and keeps_scope: "lsdb_get (f db) k \<noteq> None \<Longrightarrow> lsdb_get db k \<noteq> None \<or> P (key_type k)"
begin

lemma db_ok_op: "db_ok P rid db \<Longrightarrow> db_ok P rid (f db)"
  using keeps_scope by (fastforce simp: db_ok_def keeps_inv keeps_rid)

end

lemma db_op_install: "P (ls_type (header l)) \<Longrightarrow> db_op (\<lambda>db. snd (lsdb_install now l db)) P"
  by unfold_locales
    (auto simp: lsdb_inv_install lsdb_get_install lsa_key_def header_key_def split: if_splits)

interpretation bump_op: db_op "\<lambda>db. snd (bump_seq k s db)" P for k s P
  by (unfold_locales, rule lsdb_inv_bump_seq)
    (auto simp: bump_seq_def lsdb_get_def hm.get_insert split: option.splits if_splits)

interpretation flush_op: db_op "\<lambda>db. snd (flush_max_age now db)" P for now P
  by (unfold_locales, rule lsdb_inv_flush)
    (auto simp: flush_max_age_def Let_def lsdb_get_def hm.get_fold_remove split: if_splits)

lemma db_ok_install:
  "db_ok P rid db \<Longrightarrow> P (ls_type (header l)) \<Longrightarrow> db_ok P rid (snd (lsdb_install now l db))"
  by (rule db_op.db_ok_op [OF db_op_install])

lemma db_ok_new [simp]: "db_ok P rid (lsdb_new rid)"
  by (simp add: db_ok_def)

lemma inst_inv_set_ext:
  "inst_inv s \<Longrightarrow> db_ok as_scope (router_id s) db \<Longrightarrow> inst_inv (s\<lparr>as_external_lsdb := db\<rparr>)"
  by (simp add: inst_inv_def)

lemma map_of_set_area_lsdb:
  "map_of (areas (set_area_lsdb aid db s)) k =
     (if k = aid then map_option (\<lambda>a. a\<lparr>lsdb := db\<rparr>) (map_of (areas s) k) else map_of (areas s) k)"
  by (simp add: set_area_lsdb_def map_of_modify_key)

lemma set_area_lsdb_fields [simp]:
  "interfaces (set_area_lsdb aid db s) = interfaces s" "router_id (set_area_lsdb aid db s) = router_id s"
  "as_external_lsdb (set_area_lsdb aid db s) = as_external_lsdb s"
  "redistribute (set_area_lsdb aid db s) = redistribute s" "route_maps (set_area_lsdb aid db s) = route_maps s"
  "map fst (areas (set_area_lsdb aid db s)) = map fst (areas s)"
  by (simp_all add: set_area_lsdb_def)

lemma inst_inv_set_area:
  "inst_inv s \<Longrightarrow> db_ok area_scope (router_id s) db \<Longrightarrow> inst_inv (set_area_lsdb aid db s)"
  by (auto simp: inst_inv_def map_of_set_area_lsdb split: if_splits)

section \<open>Contract: operations on interfaces and neighbors\<close>

lemma update_iface_fields [simp]:
  "areas (update_iface idx f s) = areas s" "router_id (update_iface idx f s) = router_id s"
  "as_external_lsdb (update_iface idx f s) = as_external_lsdb s"
  "length (interfaces (update_iface idx f s)) = length (interfaces s)"
  "redistribute (update_iface idx f s) = redistribute s"
  by (simp_all add: update_iface_def)

lemma nth_update_iface:
  "k < length (interfaces s) \<Longrightarrow>
   interfaces (update_iface idx f s) ! k = (if k = idx then f (interfaces s ! k) else interfaces s ! k)"
  by (simp add: update_iface_def)

lemma inst_inv_update_at:
  assumes "inst_inv s" and "idx < length (interfaces s)"
    and "iface_ok (f (interfaces s ! idx))" and "if_area_id (f (interfaces s ! idx)) = if_area_id (interfaces s ! idx)"
  shows "inst_inv (update_iface idx f s)"
proof -
  have "iface_ok j \<and> if_area_id j \<in> set (map fst (areas s))" if "j \<in> set (interfaces (update_iface idx f s))" for j
  proof -
    from that have "j = f (interfaces s ! idx) \<or> j \<in> set (interfaces s)"
      unfolding update_iface_def by (auto dest: set_update_subset_insert [THEN subsetD])
    then show ?thesis
      using assms(3,4) inst_inv_iface [OF assms(1)] nth_mem [OF assms(2)] by (metis (no_types, lifting))
  qed
  with assms(1) show ?thesis by (simp add: inst_inv_def)
qed

lemma update_iface_beyond: "\<not> idx < length (interfaces s) \<Longrightarrow> update_iface idx f s = s"
  by (simp add: update_iface_def list_update_beyond)

locale iface_op =
  fixes f :: "OspfInterface \<Rightarrow> OspfInterface"
  assumes keeps_ok: "iface_ok i \<Longrightarrow> iface_ok (f i)"
    and keeps_area: "if_area_id (f i) = if_area_id i"
    and keeps_index: "sw_if_index (f i) = sw_if_index i"
begin

lemma inst_inv_update: "inst_inv s \<Longrightarrow> inst_inv (update_iface idx f s)"
  by (cases "idx < length (interfaces s)")
    (simp_all add: inst_inv_update_at keeps_ok keeps_area inst_inv_iface update_iface_beyond)

lemma inst_inv_map: "inst_inv s \<Longrightarrow> inst_inv (s\<lparr>interfaces := map f (interfaces s)\<rparr>)"
  by (auto simp: inst_inv_def keeps_ok keeps_area)

lemma area_at: "if_area_id (interfaces (update_iface idx f s) ! k) = if_area_id (interfaces s ! k)"
  by (cases "idx < length (interfaces s)")
    (auto simp: update_iface_def nth_list_update keeps_area list_update_beyond)

lemma index_at: "sw_if_index (interfaces (update_iface idx f s) ! k) = sw_if_index (interfaces s ! k)"
  by (cases "idx < length (interfaces s)")
    (auto simp: update_iface_def nth_list_update keeps_index list_update_beyond)

lemma area_ids_map: "map if_area_id (map f is) = map if_area_id is"
  by (simp add: keeps_area)

end

locale nbr_op =
  fixes g :: "Neighbor \<Rightarrow> Neighbor"
  assumes keeps_nbr_ok: "nbr_ok n \<Longrightarrow> nbr_ok (g n)"
    and keeps_id: "n_router_id (g n) = n_router_id n"

sublocale nbr_op \<subseteq> upd: iface_op "update_neighbor nid g" for nid
  by unfold_locales (simp_all add: update_neighbor_def iface_ok_modify keeps_nbr_ok keeps_id)

interpretation stamp_lsr: nbr_op "\<lambda>n. n\<lparr>last_lsr_sent := now\<rparr>" for now
  by unfold_locales simp_all

interpretation bad_request: nbr_op "\<lambda>n. snd (handle_event now BadLsReq False n)" for now
  by unfold_locales (simp_all add: nbr_ok_handle_event)

text \<open>Writing back a neighbor computed from the stored one.\<close>

lemma inst_inv_put_neighbor:
  assumes "inst_inv s" and "nbr_ok n" and "n_router_id n = nid"
  shows "inst_inv (update_iface idx (update_neighbor nid (\<lambda>_. n)) s)"
proof (cases "idx < length (interfaces s) \<and> map_of (neighbors (interfaces s ! idx)) nid \<noteq> None")
  case True
  then have "iface_ok (interfaces s ! idx)" using inst_inv_iface [OF assms(1)] by simp
  with True assms show ?thesis
    by (intro inst_inv_update_at) (auto simp: update_neighbor_def modify_key_def iface_ok_put)
next
  case False
  then have "update_iface idx (update_neighbor nid (\<lambda>_. n)) s = s"
    by (auto simp: update_iface_beyond) (simp add: update_iface_def update_neighbor_def modify_key_def)
  with assms(1) show ?thesis by simp
qed

section \<open>What interface events leave alone\<close>

text \<open>
  What a neighbor declared and when it was heard, with all states from 2-Way on identified: re-evaluating
  an adjacency moves a neighbor only among those.
\<close>

definition nbr_view :: "Neighbor \<Rightarrow> NeighborState \<times> ipv4 \<times> u8 \<times> ipv4 \<times> ipv4 \<times> instant" where
  "nbr_view n =
     (if n_state n \<ge> TwoWay then TwoWay else n_state n, n_address n, n_priority n, n_dr n, n_bdr n, last_heard n)"

lemma nbr_view_AdjOk: "nbr_view (snd (handle_event now AdjOk adj n)) = nbr_view n"
  by (cases "n_state n") (simp_all add: nbr_view_def handle_event_defs state_order clear_lists_def)

lemma view_fold_modify:
  assumes "\<And>n. v (g n) = v n"
  shows "map_option v (map_of (fold (modify_key g) ks m) k) = map_option v (map_of m k)"
  by (induction ks arbitrary: m) (auto simp: map_of_modify_key assms option.map_comp o_def)

lemma view_event:
  assumes "ev \<noteq> InterfaceDown"
  shows "map_option nbr_view (map_of (neighbors (snd (interface_handle_event now ev i))) k) =
    map_option nbr_view (map_of (neighbors i) k)"
proof (rule interface_event_result [of now ev i])
  fix j
  assume "snd (interface_handle_event now ev i) = j \<or> snd (interface_handle_event now ev i) = reevaluate_adjacencies now j"
    and "neighbors j = neighbors i \<or> neighbors j = [] \<and> ev = InterfaceDown"
  with assms show ?thesis
    by (auto simp: reevaluate_adjacencies_def Let_def view_fold_modify nbr_view_AdjOk)
qed

section \<open>Hello processing\<close>

lemma hello_neighbor_id [simp]: "n_router_id (hello_neighbor now rid src hello i n) = n_router_id n"
  by (simp add: hello_neighbor_def Let_def)

lemma nbr_ok_hello_neighbor: "nbr_ok n \<Longrightarrow> nbr_ok (hello_neighbor now rid src hello i n)"
  by (simp add: hello_neighbor_def Let_def nbr_ok_handle_event)

lemma view_hello_neighbor:
  "nbr_view (hello_neighbor now rid src hello i n) =
     (if rid \<in> set (hp_neighbors hello) then TwoWay else Init, src, hp_router_priority hello,
      hp_designated_router hello, hp_backup_designated_router hello, now)"
  by (cases "n_state n")
    (simp_all add: hello_neighbor_def Let_def nbr_view_def handle_event_defs state_order clear_lists_def)

lemma hello_interface_cases:
  assumes "hp_hello_interval hello = hello_interval i" and "hp_router_dead_interval hello = dead_interval i"
  obtains n old where "n = hello_neighbor now rid src hello i old"
    and "map_of (neighbors i) (oh_router_id hdr) = Some old \<or>
      map_of (neighbors i) (oh_router_id hdr) = None \<and> old = neighbor_new now (oh_router_id hdr) src"
    and "hello_interface now rid src hdr hello i \<in>
      (let j = i\<lparr>neighbors := AList.update (oh_router_id hdr) n (neighbors i)\<rparr>;
           ev = (\<lambda>e j. snd (interface_handle_event now e j))
       in {j, ev BackupSeen j, ev NeighborChange j, ev NeighborChange (ev BackupSeen j)})"
proof -
  let ?old = "case map_of (neighbors i) (oh_router_id hdr) of Some n \<Rightarrow> n | None \<Rightarrow> neighbor_new now (oh_router_id hdr) src"
  show ?thesis
    by (rule that [of "hello_neighbor now rid src hello i ?old" ?old])
      (use assms in \<open>auto simp: hello_interface_def Let_def split: option.split\<close>)
qed

interpretation hello_op: iface_op "hello_interface now rid src hdr hello" for now rid src hdr hello
proof
  fix i
  show "if_area_id (hello_interface now rid src hdr hello i) = if_area_id i"
    and "sw_if_index (hello_interface now rid src hdr hello i) = sw_if_index i"
    by (simp_all add: hello_interface_def Let_def)
  assume ok: "iface_ok i"
  show "iface_ok (hello_interface now rid src hdr hello i)"
  proof (cases "hp_hello_interval hello = hello_interval i \<and> hp_router_dead_interval hello = dead_interval i")
    case True
    obtain n old where n: "n = hello_neighbor now rid src hello i old"
      and old: "map_of (neighbors i) (oh_router_id hdr) = Some old \<or>
        map_of (neighbors i) (oh_router_id hdr) = None \<and> old = neighbor_new now (oh_router_id hdr) src"
      and h: "hello_interface now rid src hdr hello i \<in>
        (let j = i\<lparr>neighbors := AList.update (oh_router_id hdr) n (neighbors i)\<rparr>;
             ev = (\<lambda>e j. snd (interface_handle_event now e j))
         in {j, ev BackupSeen j, ev NeighborChange j, ev NeighborChange (ev BackupSeen j)})"
      by (rule hello_interface_cases [OF True [THEN conjunct1] True [THEN conjunct2]])
    have "n_router_id old = oh_router_id hdr \<and> nbr_ok old"
      using old iface_ok_get [OF ok] by (auto simp: neighbor_new_def nbr_ok_def)
    then have "iface_ok (i\<lparr>neighbors := AList.update (oh_router_id hdr) n (neighbors i)\<rparr>)"
      by (intro iface_ok_put ok) (simp_all add: n nbr_ok_hello_neighbor)
    with h show ?thesis by (auto simp: Let_def iface_ok_event)
  qed (auto simp: hello_interface_def ok)
qed

text \<open>
  C12. A Hello with matching timers decides bidirectional communication, whatever it makes the interface
  do: afterwards the sender is a neighbor, at least in 2-Way exactly when the Hello lists this router and
  in Init otherwise, with the address, priority, DR and BDR it declared and a fresh inactivity timer; the
  other neighbors keep theirs, moving at most among the states from 2-Way on.
\<close>

theorem hello_decides_two_way:
  assumes "hp_hello_interval hello = hello_interval i" and "hp_router_dead_interval hello = dead_interval i"
  shows "map_option nbr_view (map_of (neighbors (hello_interface now rid src hdr hello i)) k) =
    (if k = oh_router_id hdr then
       Some (if rid \<in> set (hp_neighbors hello) then TwoWay else Init, src, hp_router_priority hello,
             hp_designated_router hello, hp_backup_designated_router hello, now)
     else map_option nbr_view (map_of (neighbors i) k))"
proof (rule hello_interface_cases [OF assms, where now = now and rid = rid and src = src and hdr = hdr])
  fix n old
  assume n: "n = hello_neighbor now rid src hello i old"
    and h: "hello_interface now rid src hdr hello i \<in>
      (let j = i\<lparr>neighbors := AList.update (oh_router_id hdr) n (neighbors i)\<rparr>;
           ev = (\<lambda>e j. snd (interface_handle_event now e j))
       in {j, ev BackupSeen j, ev NeighborChange j, ev NeighborChange (ev BackupSeen j)})"
  let ?j = "i\<lparr>neighbors := AList.update (oh_router_id hdr) n (neighbors i)\<rparr>"
  have "map_option nbr_view (map_of (neighbors (hello_interface now rid src hdr hello i)) k) =
      map_option nbr_view (map_of (neighbors ?j) k)"
    using h by (auto simp: Let_def view_event)
  then show ?thesis by (simp add: hm.get_insert n view_hello_neighbor)
qed

section \<open>The neighbor timers\<close>

definition view_down :: "NeighborState \<times> ipv4 \<times> u8 \<times> ipv4 \<times> ipv4 \<times> instant \<Rightarrow>
  NeighborState \<times> ipv4 \<times> u8 \<times> ipv4 \<times> ipv4 \<times> instant" where
  "view_down v = (Down, snd v)"

lemma view_down_idem [simp]: "view_down (view_down v) = view_down v"
  by (simp add: view_down_def)

lemma view_inactivity: "nbr_view (snd (handle_event now InactivityTimer adj n)) = view_down (nbr_view n)"
  by (simp add: nbr_view_def view_down_def handle_event_defs clear_lists_def state_order)

lemma view_expire:
  "map_option nbr_view (map_of (neighbors (expire_neighbor now nid i)) k) =
     map_option (if k = nid then view_down \<circ> nbr_view else nbr_view) (map_of (neighbors i) k)"
proof (cases "map_of (neighbors i) nid")
  case (Some n)
  let ?j = "i\<lparr>neighbors := AList.update nid (snd (handle_event now InactivityTimer False n)) (neighbors i)\<rparr>"
  have "map_option nbr_view (map_of (neighbors (expire_neighbor now nid i)) k) =
      map_option nbr_view (map_of (neighbors ?j) k)"
    unfolding expire_neighbor_def using view_event [of NeighborChange now ?j k] by (simp add: Some Let_def)
  with Some show ?thesis by (simp add: hm.get_insert view_inactivity)
qed (auto simp: expire_neighbor_def)

interpretation expire_op: iface_op "expire_neighbor now nid" for now nid
  by unfold_locales
    (auto simp: expire_neighbor_def Let_def iface_ok_put nbr_ok_handle_event iface_ok_get
      intro!: iface_ok_event split: option.split)

lemma dead_interval_expire [simp]: "dead_interval (expire_neighbor now nid i) = dead_interval i"
  by (simp add: expire_neighbor_def Let_def split: option.split)

lemma dead_interval_fold_expire [simp]: "dead_interval (fold (expire_neighbor now) ids i) = dead_interval i"
  by (induction ids arbitrary: i) simp_all

lemma view_fold_expire:
  "map_option nbr_view (map_of (neighbors (fold (expire_neighbor now) ids i)) k) =
     map_option (if k \<in> set ids then view_down \<circ> nbr_view else nbr_view) (map_of (neighbors i) k)"
proof (induction ids arbitrary: i)
  case (Cons nid ids)
  let ?e = "map_of (neighbors (expire_neighbor now nid i)) k"
  note e = view_expire [of now nid i k]
  have "map_option (view_down \<circ> nbr_view) ?e = map_option (view_down \<circ> nbr_view) (map_of (neighbors i) k)"
    unfolding option.map_comp [symmetric] e by (simp add: option.map_comp o_def)
  with Cons [of "expire_neighbor now nid i"] e show ?case
    by (cases "k \<in> set ids"; cases "k = nid") (simp_all add: o_def)
qed simp

interpretation timers_op: iface_op "\<lambda>i. snd (check_interface_timers now i)" for now
proof
  fix i
  have a: "P i \<Longrightarrow> (\<And>nid i. P i \<Longrightarrow> P (expire_neighbor now nid i)) \<Longrightarrow> P (fold (expire_neighbor now) ids i)" for P ids
    by (induction ids arbitrary: i) simp_all
  show "iface_ok i \<Longrightarrow> iface_ok (snd (check_interface_timers now i))"
    by (simp add: check_interface_timers_def a expire_op.keeps_ok)
  show "if_area_id (snd (check_interface_timers now i)) = if_area_id i"
    unfolding check_interface_timers_def Let_def snd_conv
    by (rule a [of "\<lambda>j. if_area_id j = if_area_id i"]) (simp_all add: expire_op.keeps_area)
  show "sw_if_index (snd (check_interface_timers now i)) = sw_if_index i"
    unfolding check_interface_timers_def Let_def snd_conv
    by (rule a [of "\<lambda>j. sw_if_index j = sw_if_index i"]) (simp_all add: expire_op.keeps_index)
qed

text \<open>
  The inactivity timer: after a check no neighbor that is not Down was last heard a dead interval ago
  or longer, a neighbor heard since then keeps its declared values and its 2-way relationship, and the
  check reports a change exactly when it took a neighbor down.
\<close>

theorem timers_expire_silent_neighbors:
  assumes "iface_ok i" and "check_interface_timers now i = (changed, i')"
  shows "(\<forall>k n. map_of (neighbors i') k = Some n \<longrightarrow> n_state n = Down \<or> now < last_heard n + int (dead_duration i)) \<and>
    (\<forall>k n. map_of (neighbors i) k = Some n \<longrightarrow> \<not> neighbor_expired now i n \<longrightarrow>
       map_option nbr_view (map_of (neighbors i') k) = Some (nbr_view n)) \<and>
    (changed \<longleftrightarrow> (\<exists>k n. map_of (neighbors i) k = Some n \<and> neighbor_expired now i n))"
proof -
  let ?ids = "map fst (filter (\<lambda>(_, n). neighbor_expired now i n) (neighbors i))"
  have d: "distinct (map fst (neighbors i))" using assms(1) by (simp add: iface_ok_def)
  have ids: "k \<in> set ?ids \<longleftrightarrow> (\<exists>n. map_of (neighbors i) k = Some n \<and> neighbor_expired now i n)" for k
    using d by (force simp: map_of_eq_Some_iff)
  have c: "changed \<longleftrightarrow> ?ids \<noteq> []" and i': "i' = fold (expire_neighbor now) ?ids i"
    using assms(2) by (auto simp: check_interface_timers_def Let_def)
  note v = view_fold_expire [of now ?ids i, folded i']
  have "n_state n = Down \<or> now < last_heard n + int (dead_duration i)" if n: "map_of (neighbors i') k = Some n" for k n
  proof (cases "k \<in> set ?ids")
    case True
    have "Some (nbr_view n) = map_option (view_down \<circ> nbr_view) (map_of (neighbors i) k)"
      using v [of k] n True by simp
    then obtain m where "nbr_view n = view_down (nbr_view m)" by (cases "map_of (neighbors i) k") auto
    then show ?thesis by (auto simp: nbr_view_def view_down_def split: if_splits)
  next
    case False
    then have "Some (nbr_view n) = map_option nbr_view (map_of (neighbors i) k)" using v [of k] n by simp
    then obtain m where m: "map_of (neighbors i) k = Some m" "nbr_view n = nbr_view m"
      by (cases "map_of (neighbors i) k") auto
    with False ids [of k] have "\<not> neighbor_expired now i m" by blast
    moreover have "n_state n = Down \<longleftrightarrow> n_state m = Down" "last_heard n = last_heard m"
      using m(2) by (auto simp: nbr_view_def state_order split: if_splits)
    ultimately show ?thesis by (auto simp: neighbor_expired_def)
  qed
  moreover have "?ids \<noteq> [] \<longleftrightarrow> (\<exists>k. k \<in> set ?ids)" by (metis ex_in_conv set_empty)
  then have "changed \<longleftrightarrow> (\<exists>k n. map_of (neighbors i) k = Some n \<and> neighbor_expired now i n)"
    unfolding c ids .
  moreover have "map_option nbr_view (map_of (neighbors i') k) = Some (nbr_view n)"
    if "map_of (neighbors i) k = Some n" "\<not> neighbor_expired now i n" for k n
    using that v [of k] ids [of k] by simp
  ultimately show ?thesis by blast
qed

section \<open>Interface state\<close>

interpretation refresh_op: iface_op "\<lambda>i. snd (refresh_interface now addr msk up i)" for now addr msk up
  by unfold_locales
    (auto simp: refresh_interface_def Let_def intro!: iface_ok_event
      elim: iface_ok_neighbors [THEN iffD1, rotated] split: if_splits)

section \<open>The SPF throttle\<close>

text \<open>The hold time before the next run: doubled with every request that came too early, up to a maximum.\<close>

definition hold_ms :: "'c OspfInstance \<Rightarrow> u64" where
  "hold_ms s = min (spf_holdtime_ms s * push_bit (unat (min (spf_hold_multiplier s) 10)) 1) (spf_max_holdtime_ms s)"

lemma schedule_spf_fields [simp]:
  "areas (schedule_spf now s) = areas s" "interfaces (schedule_spf now s) = interfaces s"
  "router_id (schedule_spf now s) = router_id s" "as_external_lsdb (schedule_spf now s) = as_external_lsdb s"
  "redistribute (schedule_spf now s) = redistribute s" "spf_last_run (schedule_spf now s) = spf_last_run s"
  by (simp_all add: schedule_spf_def Let_def split: option.split prod.split)

lemma inst_inv_schedule [simp]: "inst_inv (schedule_spf now s) = inst_inv s"
  by (rule inst_inv_cong) simp_all

lemma unat_elapsed:
  "r \<le> now \<Longrightarrow> now - r < 2 ^ 64 \<Longrightarrow> int (unat (word_of_nat (saturating_duration_since now r) :: u64)) = now - r"
proof -
  assume "r \<le> now" "now - r < 2 ^ 64"
  then have "nat (now - r) < 2 ^ 64" by simp
  then have "unat (word_of_nat (nat (now - r)) :: u64) = nat (now - r)" by (simp add: unat_of_nat)
  then show ?thesis using \<open>r \<le> now\<close> by (simp only: saturating_duration_since_def)
qed

lemma unat_diff_le: "b \<le> a \<Longrightarrow> int (unat (a - b :: u64)) = int (unat a) - int (unat b)"
  by (simp add: unat_sub word_le_nat_alt of_nat_diff)

text \<open>
  The SPF throttle: a request leaves a run scheduled, no later than a run that was already scheduled
  and within the larger of the initial delay and the maximal hold time from now; and when none was
  scheduled, the new run comes no earlier than the hold time after the last one.
\<close>

theorem schedule_spf_throttle:
  assumes "spf_last_run s = Some r" and "r \<le> now" and "now - r < 2 ^ 64"
  shows "\<exists>t. spf_scheduled (schedule_spf now s) = Some t \<and>
    (\<forall>e. spf_scheduled s = Some e \<longrightarrow> t \<le> e) \<and>
    (t \<le> now + int (unat (max (spf_delay_ms s) (spf_max_holdtime_ms s))) \<or> spf_scheduled s = Some t) \<and>
    (spf_scheduled s = None \<longrightarrow> r + int (unat (hold_ms s)) \<le> t)"
proof -
  let ?since = "word_of_nat (saturating_duration_since now r) :: u64"
  let ?d = "if hold_ms s \<le> ?since then spf_delay_ms s else hold_ms s - ?since"
  let ?t = "now + int (unat ?d)"
  note since = unat_elapsed [OF assms(2,3)]
  have sched: "spf_scheduled (schedule_spf now s) =
      (case spf_scheduled s of Some e \<Rightarrow> if e \<le> ?t then Some e else Some ?t | None \<Rightarrow> Some ?t)"
    by (simp add: schedule_spf_def assms(1) Let_def hold_ms_def split: option.split)
  have "?d \<le> max (spf_delay_ms s) (spf_max_holdtime_ms s)"
  proof (cases "hold_ms s \<le> ?since")
    case False
    then have "hold_ms s - ?since \<le> hold_ms s" by (simp add: word_le_nat_alt unat_sub)
    also have "\<dots> \<le> spf_max_holdtime_ms s" by (simp add: hold_ms_def)
    finally show ?thesis using False by (simp add: le_max_iff_disj)
  qed (simp add: le_max_iff_disj)
  then have hi: "?t \<le> now + int (unat (max (spf_delay_ms s) (spf_max_holdtime_ms s)))"
    by (simp only: word_le_nat_alt of_nat_le_iff add_le_cancel_left)
  have lo: "r + int (unat (hold_ms s)) \<le> ?t"
  proof (cases "hold_ms s \<le> ?since")
    case True
    then have "int (unat (hold_ms s)) \<le> int (unat ?since)" by (simp only: word_le_nat_alt of_nat_le_iff)
    with since have "r + int (unat (hold_ms s)) \<le> now" by simp
    with True show ?thesis by (simp add: add_increasing2)
  next
    case False
    then have "int (unat (hold_ms s - ?since)) = int (unat (hold_ms s)) - int (unat ?since)"
      by (intro unat_diff_le) simp
    with False since show ?thesis by simp
  qed
  show ?thesis unfolding sched using hi lo by (auto split: option.split)
qed

section \<open>Witnesses\<close>

definition example_hello :: "ipv4 list \<Rightarrow> HelloPacket" where
  "example_hello ns =
     \<lparr>hp_network_mask = 0xFFFFFF00, hp_hello_interval = 10, hp_options = options_standard,
      hp_router_priority = 1, hp_router_dead_interval = 40, hp_designated_router = 0,
      hp_backup_designated_router = 0, hp_neighbors = ns\<rparr>"

theorem hello_decides_two_way_witness:
  "map_option nbr_view (map_of (neighbors (hello_interface 7000 0x01010101 0x0A000009
      (ospf_header_new PT_Hello 0x09090909 0) (example_hello [0x01010101]) example_if)) 0x09090909) =
   Some (TwoWay, 0x0A000009, 1, 0, 0, 7000)"
  using hello_decides_two_way [where hello = "example_hello [0x01010101]" and i = example_if and now = 7000
      and rid = "0x01010101" and src = "0x0A000009" and hdr = "ospf_header_new PT_Hello 0x09090909 0"
      and k = "0x09090909"]
  by (simp add: example_hello_def example_if_eval ospf_header_new_def)

definition silent_if :: OspfInterface where
  "silent_if =
     (interface_new 0 ''e0'' 1 0x0A000001 0xFFFFFF00 0 Broadcast 0x01010101)
       \<lparr>neighbors := [(2, (neighbor_new 0 2 0x0A000002)\<lparr>n_state := Init\<rparr>),
                     (3, (neighbor_new 30000 3 0x0A000003)\<lparr>n_state := Init\<rparr>)]\<rparr>"

theorem timers_expire_silent_neighbors_witness:
  "fst (check_interface_timers 40000 silent_if)"
proof -
  have "iface_ok silent_if"
    by (simp add: iface_ok_def silent_if_def interface_new_def neighbor_new_def nbr_ok_def)
  from timers_expire_silent_neighbors [OF this, of 40000 "fst (check_interface_timers 40000 silent_if)"
      "snd (check_interface_timers 40000 silent_if)"]
  have "fst (check_interface_timers 40000 silent_if) \<longleftrightarrow>
      (\<exists>k n. map_of (neighbors silent_if) k = Some n \<and> neighbor_expired 40000 silent_if n)"
    by simp
  moreover have "map_of (neighbors silent_if) 2 = Some ((neighbor_new 0 2 0x0A000002)\<lparr>n_state := Init\<rparr>) \<and>
      neighbor_expired 40000 silent_if ((neighbor_new 0 2 0x0A000002)\<lparr>n_state := Init\<rparr>)"
    by (simp add: silent_if_def interface_new_def neighbor_new_def neighbor_expired_def dead_duration_def)
  ultimately show ?thesis by blast
qed

definition example_config :: "unit OspfDaemonConfig" where
  "example_config =
     \<lparr>dc_vrf_name = None, dc_table_id_v4 = 0, dc_router_id = 0x01010101, dc_reference_bandwidth = 100, dc_spf_delay_ms = 50, dc_spf_holdtime_ms = 200,
      dc_spf_max_holdtime_ms = 5000,
      dc_interfaces =
        [\<lparr>ic_name = ''e0'', ic_address = 0x0A000001, ic_prefix_len = 24, ic_area_id = 0, ic_cost = 10,
          ic_passive = False, ic_network_type = ''point-to-point'', ic_hello_interval = 10,
          ic_dead_interval = 40, ic_priority = 1, ic_retransmit_interval = 5, ic_auth_key = NoKey,
          ic_static_neighbors = []\<rparr>],
      dc_redistribute = [], dc_areas = [], dc_distance = None, dc_distance_intra = None,
      dc_distance_inter = None, dc_distance_external = None, dc_default_originate = False,
      dc_default_originate_metric = 1, dc_default_originate_metric_type = 2, dc_summary_addresses = [], dc_route_maps = []\<rparr>"

theorem schedule_spf_throttle_witness:
  "\<exists>t. spf_scheduled (schedule_spf 1100 ((instance_new 0 example_config)\<lparr>spf_last_run := Some 1000\<rparr>)) = Some t \<and>
     1200 \<le> t \<and> t \<le> 6100"
  using schedule_spf_throttle [of "(instance_new 0 example_config)\<lparr>spf_last_run := Some 1000\<rparr>" 1000 1100]
  by (auto simp: instance_new_def Let_def example_config_def hold_ms_def word_le_nat_alt max_def min_def)

end
