(* ===== verification/Origination.thy ===== *)
theory Origination
  imports Instance_Inv
begin

text \<open>
  \<^verbatim>\<open>src/instance.rs\<close>, third part: the LSAs the router originates about itself, and the SPF run over all
  areas. Origination builds a header and a body, encodes and re-parses them to obtain the checksum, and
  installs the result with the sequence number after the stored one. \<open>Panic\<close> is the outcome when an
  LSA does not fit into 65535 bytes.
\<close>

section \<open>The common tail of every origination\<close>

text \<open>
  \<^verbatim>\<open>lsa_total_length(body_buf.len())\<close>, the header with age 0 and checksum 0, \<^verbatim>\<open>lsa.encode()\<close> and
  \<^verbatim>\<open>Lsa::parse(&encoded)\<close>; \<open>None\<close> when the parser refuses it.
\<close>

definition checked_lsa :: "ipv4 \<Rightarrow> LsaType \<Rightarrow> ipv4 \<Rightarrow> i32 \<Rightarrow> LsaBody \<Rightarrow> Lsa option parsed" where
  "checked_lsa rid ty lsid sq b =
     bindR (lsa_total_length (length (lsa_body_encode b))) (\<lambda>len.
     bindR (lsa_encode
       \<lparr>header = \<lparr>ls_age = 0, h_options = options_standard, ls_type = ty, link_state_id = lsid,
          advertising_router = rid, ls_sequence_number = sq, ls_checksum = 0, h_length = len\<rparr>,
        body = b\<rparr>) (\<lambda>encoded.
     (case lsa_parse encoded of
        Ok l \<Rightarrow> Ok (Some l)
      | Err _ \<Rightarrow> Ok None
      | Panic \<Rightarrow> Panic)))"

text \<open>Look up the sequence number, build, install into the database and return the new LSA.\<close>

definition originate_into ::
  "instant \<Rightarrow> ipv4 \<Rightarrow> LsaType \<Rightarrow> ipv4 \<Rightarrow> LsaBody \<Rightarrow> Lsdb \<Rightarrow> (Lsa option \<times> Lsdb) parsed" where
  "originate_into now rid ty lsid b db =
     bindR (checked_lsa rid ty lsid (next_seq db \<lparr>key_type = ty, key_lsid = lsid, key_adv = rid\<rparr>) b) (\<lambda>r.
     (case r of
        None \<Rightarrow> Ok (None, db)
      | Some l \<Rightarrow> Ok (Some l, snd (lsdb_install now l db))))"

definition originate_in_area ::
  "instant \<Rightarrow> ipv4 \<Rightarrow> LsaType \<Rightarrow> ipv4 \<Rightarrow> LsaBody \<Rightarrow> 'c OspfInstance \<Rightarrow> ((ipv4 \<times> Lsa) list \<times> 'c OspfInstance) parsed" where
  "originate_in_area now aid ty lsid b s =
     (case map_of (areas s) aid of
        None \<Rightarrow> bindR (checked_lsa (router_id s) ty lsid INITIAL_SEQUENCE_NUMBER b) (\<lambda>_. Ok ([], s))
      | Some a \<Rightarrow>
          bindR (originate_into now (router_id s) ty lsid b (lsdb a)) (\<lambda>(r, db).
          Ok (case r of None \<Rightarrow> [] | Some l \<Rightarrow> [(aid, l)], set_area_lsdb aid db s)))"

text \<open>A loop whose body appends to the result and changes the instance, and may panic.\<close>

fun each :: "('x \<Rightarrow> 's \<Rightarrow> ('r list \<times> 's) parsed) \<Rightarrow> 'x list \<Rightarrow> 's \<Rightarrow> ('r list \<times> 's) parsed" where
  "each f [] s = Ok ([], s)"
| "each f (x # xs) s =
     bindR (f x s) (\<lambda>(r, s). bindR (each f xs s) (\<lambda>(rs, s). Ok (r @ rs, s)))"

section \<open>Router-LSAs\<close>

definition p2p_links :: "OspfInterface \<Rightarrow> RouterLink list" where
  "p2p_links i =
     map (\<lambda>n. \<lparr>link_id = n_router_id n, link_data = if_address i, link_type = RL_PointToPoint, num_tos = 0,
              rl_metric = if_cost i\<rparr>)
       (filter (\<lambda>n. n_state n = Full) (map snd (neighbors i)))"

definition stub_link :: "OspfInterface \<Rightarrow> RouterLink" where
  "stub_link i =
     \<lparr>link_id = apply_mask (if_address i) (if_mask i), link_data = if_mask i, link_type = RL_StubNetwork,
      num_tos = 0, rl_metric = if_cost i\<rparr>"

definition iface_links :: "OspfInterface \<Rightarrow> RouterLink list" where
  "iface_links i =
     (case network_type i of
        PointToPoint \<Rightarrow> p2p_links i @ [stub_link i]
      | PointToMultipoint \<Rightarrow>
          p2p_links i @
          [\<lparr>link_id = if_address i, link_data = u32_of_be 255 255 255 255, link_type = RL_StubNetwork,
            num_tos = 0, rl_metric = 0\<rparr>]
      | _ \<Rightarrow>
          if list_ex (\<lambda>n. n_state n = Full) (map snd (neighbors i)) then
            [\<lparr>link_id = if_dr i, link_data = if_address i, link_type = RL_TransitNetwork, num_tos = 0,
              rl_metric = if_cost i\<rparr>]
          else [stub_link i])"

definition area_links :: "OspfInterface list \<Rightarrow> ipv4 \<Rightarrow> RouterLink list" where
  "area_links ifs aid =
     concat (map iface_links (filter (\<lambda>i. if_area_id i = aid \<and> if_state i \<noteq> If_Down) ifs))"

definition router_flags :: "'c OspfInstance \<Rightarrow> u8" where
  "router_flags s = (if is_abr s then B_FLAG else 0) OR (if redistribute s \<noteq> [] then E_FLAG else 0)"

definition originate_router_lsa_in :: "instant \<Rightarrow> ipv4 \<Rightarrow> 'c OspfInstance \<Rightarrow> ((ipv4 \<times> Lsa) list \<times> 'c OspfInstance) parsed" where
  "originate_router_lsa_in now aid s =
     (let links = area_links (interfaces s) aid in
      if links = [] then Ok ([], s)
      else
        (case map_of (areas s) aid of
           None \<Rightarrow> Ok ([], s)
         | Some a \<Rightarrow>
             bindR (Lsdb.originate_router_lsa now (router_id s) (router_flags s) links options_standard (lsdb a))
               (\<lambda>(l, db). Ok ([(aid, l)], set_area_lsdb aid db s))))"

definition originate_router_lsas :: "instant \<Rightarrow> 'c OspfInstance \<Rightarrow> ((ipv4 \<times> Lsa) list \<times> 'c OspfInstance) parsed" where
  "originate_router_lsas now s = each (originate_router_lsa_in now) (map fst (areas s)) s"

text \<open>\<^verbatim>\<open>OspfInstance::originate_router_lsa\<close>: the first of the new Router-LSAs, or a placeholder.\<close>

definition first_router_lsa :: "instant \<Rightarrow> 'c OspfInstance \<Rightarrow> (Lsa \<times> 'c OspfInstance) parsed" where
  "first_router_lsa now s =
     bindR (originate_router_lsas now s) (\<lambda>(ls, s').
     Ok (case ls of
           (_, l) # _ \<Rightarrow> l
         | [] \<Rightarrow> \<lparr>header = \<lparr>ls_age = 0, h_options = 0, ls_type = Router, link_state_id = router_id s,
                    advertising_router = router_id s, ls_sequence_number = INITIAL_SEQUENCE_NUMBER,
                    ls_checksum = 0, h_length = 24\<rparr>,
                  body = BRouter \<lparr>r_flags = 0, r_links = []\<rparr>\<rparr>, s'))"

section \<open>Network-LSAs\<close>

definition dr_iface :: "OspfInterface \<Rightarrow> bool" where
  "dr_iface i \<longleftrightarrow> if_state i = DR \<and> network_type i = Broadcast \<and>
     list_ex (\<lambda>n. n_state n = Full) (map snd (neighbors i))"

definition network_body :: "ipv4 \<Rightarrow> OspfInterface \<Rightarrow> LsaBody" where
  "network_body rid i =
     BNetwork \<lparr>n_network_mask = if_mask i,
       attached_routers =
         sort (map n_router_id (filter (\<lambda>n. n_state n = Full) (map snd (neighbors i))) @ [rid])\<rparr>"

definition originate_network_lsas :: "instant \<Rightarrow> 'c OspfInstance \<Rightarrow> ((ipv4 \<times> Lsa) list \<times> 'c OspfInstance) parsed" where
  "originate_network_lsas now s =
     each (\<lambda>i s. originate_in_area now (if_area_id i) Network (if_address i) (network_body (router_id s) i) s)
       (filter dr_iface (interfaces s)) s"

section \<open>SPF inputs\<close>

definition spf_interfaces :: "'c OspfInstance \<Rightarrow> ipv4 \<Rightarrow> SpfInterface list" where
  "spf_interfaces s aid =
     map (\<lambda>i. \<lparr>si_address = if_address i, si_mask = if_mask i, si_sw_if_index = sw_if_index i, si_cost = if_cost i\<rparr>)
       (filter (\<lambda>i. if_state i \<noteq> If_Down \<and> if_area_id i = aid) (interfaces s))"

definition spf_neighbors :: "'c OspfInstance \<Rightarrow> ipv4 \<Rightarrow> SpfNeighbor list" where
  "spf_neighbors s aid =
     concat (map (\<lambda>i.
         map (\<lambda>n. \<lparr>snb_router_id = n_router_id n, snb_address = n_address n, snb_sw_if_index = sw_if_index i\<rparr>)
           (filter (\<lambda>n. n_state n \<ge> TwoWay) (map snd (neighbors i))))
       (filter (\<lambda>i. \<not> (if_state i = If_Down \<or> if_area_id i \<noteq> aid)) (interfaces s)))"

section \<open>Summary-LSAs\<close>

definition summary_source_routes :: "instant \<Rightarrow> 'c OspfInstance \<Rightarrow> ipv4 \<Rightarrow> SpfRoute list option" where
  "summary_source_routes now s aid =
     (if spf_interfaces s aid = [] then None
      else map_option (\<lambda>a. calculate_spf (router_id s) (as_lsa_map now (lsdb a)) (spf_interfaces s aid)
                              (spf_neighbors s aid))
             (map_of (areas s) aid))"

definition originate_default_summary ::
  "instant \<Rightarrow> ipv4 \<Rightarrow> 'c OspfInstance \<Rightarrow> ((ipv4 \<times> Lsa) list \<times> 'c OspfInstance) parsed" where
  "originate_default_summary now aid s =
     (case map_of (areas s) aid of
        None \<Rightarrow> Ok ([], s)
      | Some a \<Rightarrow>
          if area_type a = Normal then Ok ([], s)
          else if \<not> is_abr s then Ok ([], s)
          else originate_in_area now aid SummaryNetwork UNSPECIFIED
                 (BSummary \<lparr>s_network_mask = UNSPECIFIED, s_metric = default_cost a\<rparr>) s)"

definition already_local :: "'c OspfInstance \<Rightarrow> ipv4 \<Rightarrow> SpfRoute \<Rightarrow> bool" where
  "already_local s dest r \<longleftrightarrow>
     list_ex (\<lambda>i. if_area_id i = dest \<and> apply_mask (if_address i) (if_mask i) = prefix r) (interfaces s)"

definition originate_summary_route ::
  "instant \<Rightarrow> ipv4 \<Rightarrow> SpfRoute \<Rightarrow> 'c OspfInstance \<Rightarrow> ((ipv4 \<times> Lsa) list \<times> 'c OspfInstance) parsed" where
  "originate_summary_route now dest r s =
     (if already_local s dest r then Ok ([], s)
      else originate_in_area now dest SummaryNetwork (prefix r)
             (BSummary \<lparr>s_network_mask = prefix_len_to_mask (prefix_len r), s_metric = route_cost r\<rparr>) s)"

definition originate_summary_lsas :: "instant \<Rightarrow> 'c OspfInstance \<Rightarrow> ((ipv4 \<times> Lsa) list \<times> 'c OspfInstance) parsed" where
  "originate_summary_lsas now s =
     (if \<not> is_abr s then Ok ([], s)
      else
        (let area_ids = map fst (areas s);
             source_routes = map (\<lambda>aid. (aid, summary_source_routes now s aid)) area_ids
         in bindR (each (originate_default_summary now) area_ids s) (\<lambda>(ds, s).
            bindR (each (\<lambda>(src, routes) s.
                (case routes of
                   None \<Rightarrow> Ok ([], s)
                 | Some rs \<Rightarrow>
                     each (\<lambda>dest s.
                         if src = dest \<or> map_of (areas s) dest = None then Ok ([], s)
                         else each (originate_summary_route now dest) rs s)
                       area_ids s))
              source_routes s) (\<lambda>(ss, s).
            Ok (ds @ ss, s)))))"

section \<open>AS-External-LSAs\<close>

text \<open>One step of \<^verbatim>\<open>for key in to_flush\<close>: re-install at MaxAge with the next sequence number.\<close>

definition flush_external :: "instant \<Rightarrow> LsaKey \<Rightarrow> Lsdb \<Rightarrow> Lsdb parsed" where
  "flush_external now k db =
     (case lsdb_get db k of
        None \<Rightarrow> Ok db
      | Some e \<Rightarrow>
          (let l = with_seq (ls_sequence_number (header (entry_lsa e)) + 1) (with_age MAX_AGE (entry_lsa e))
           in bindR (lsa_encode l) (\<lambda>encoded.
              (case lsa_parse encoded of
                 Ok refreshed \<Rightarrow> Ok (snd (lsdb_install now refreshed db))
               | Err _ \<Rightarrow> Ok db
               | Panic \<Rightarrow> Panic))))"

fun flush_externals :: "instant \<Rightarrow> LsaKey list \<Rightarrow> Lsdb \<Rightarrow> Lsdb parsed" where
  "flush_externals now [] db = Ok db"
| "flush_externals now (k # ks) db = bindR (flush_external now k db) (flush_externals now ks)"

definition flush_self_externals_outside :: "instant \<Rightarrow> ipv4 list \<Rightarrow> 'c OspfInstance \<Rightarrow> 'c OspfInstance parsed" where
  "flush_self_externals_outside now keep s =
     (let to_flush = map header_key
            (filter (\<lambda>h. advertising_router h = router_id s \<and> link_state_id h \<notin> set keep)
              (all_headers now (as_external_lsdb s)))
      in bindR (flush_externals now to_flush (as_external_lsdb s)) (\<lambda>db. Ok (s\<lparr>as_external_lsdb := db\<rparr>)))"

definition originate_external :: "instant \<Rightarrow> ipv4 \<Rightarrow> AsExternalLsa \<Rightarrow> 'c OspfInstance \<Rightarrow> (Lsa list \<times> 'c OspfInstance) parsed" where
  "originate_external now lsid b s =
     bindR (originate_into now (router_id s) AsExternal lsid (BAsExternal b) (as_external_lsdb s)) (\<lambda>(r, db).
     Ok (case r of None \<Rightarrow> [] | Some l \<Rightarrow> [l], s\<lparr>as_external_lsdb := db\<rparr>))"

text \<open>
  The statements are walked in order; \<open>evaluate_universal\<close>, the external match of a clause against a
  prefix, is a parameter. The source of the route, a \<^verbatim>\<open>ribd_proto::Source\<close>, is always \<open>Connected\<close>.
\<close>

fun evaluate_route_map :: "('c \<Rightarrow> 'p \<Rightarrow> RedistributeSource \<Rightarrow> bool) \<Rightarrow> 'c RouteMap \<Rightarrow> 'p \<Rightarrow> RedistributeSource \<Rightarrow> bool" where
  "evaluate_route_map evaluate_universal [] p src = False"
| "evaluate_route_map evaluate_universal (st # sts) p src =
     (if \<not> evaluate_universal (stmt_match st) p src then evaluate_route_map evaluate_universal sts p src
      else stmt_action st = Permit)"

definition external_kept ::
  "('c \<Rightarrow> ipv4 \<times> u8 \<Rightarrow> RedistributeSource \<Rightarrow> bool) \<Rightarrow> ParsedSummaryAddress list \<Rightarrow> 'c RouteMap option \<Rightarrow> ipv4 \<times> ipv4 \<Rightarrow> bool" where
  "external_kept evaluate_universal summaries rm = (\<lambda>(p, m).
     (if list_ex (\<lambda>x. prefix_covered_by p (sa_prefix x) (sa_prefix_len x)) summaries then False
      else (case rm of
              None \<Rightarrow> True
            | Some stmts \<Rightarrow> evaluate_route_map evaluate_universal stmts (p, mask_to_prefix_len_v4 m) Connected)))"

definition originate_external_lsas ::
  "('c \<Rightarrow> ipv4 \<times> u8 \<Rightarrow> RedistributeSource \<Rightarrow> bool) \<Rightarrow> instant \<Rightarrow> RedistributeConfig list \<Rightarrow> (ipv4 \<times> ipv4) list \<Rightarrow>
   ParsedSummaryAddress list \<Rightarrow> 'c OspfInstance \<Rightarrow> (Lsa list \<times> 'c OspfInstance) parsed" where
  "originate_external_lsas evaluate_universal now redis externals summaries s =
     (case List.find (\<lambda>r. rd_source r = Connected) redis of
        None \<Rightarrow> bindR (flush_self_externals_outside now [] s) (\<lambda>s. Ok ([], s))
      | Some cfg \<Rightarrow>
          if rd_route_map cfg \<noteq> None \<and> map_of (route_maps s) (the (rd_route_map cfg)) = None then
            bindR (flush_self_externals_outside now [] s) (\<lambda>s. Ok ([], s))
          else
            (let rm = (case rd_route_map cfg of None \<Rightarrow> None | Some name \<Rightarrow> map_of (route_maps s) name);
                 kept = filter (external_kept evaluate_universal summaries rm) externals;
                 keep_keys = map fst kept @ map sa_prefix summaries @ [UNSPECIFIED]
             in bindR (flush_self_externals_outside now keep_keys s) (\<lambda>s.
                each (\<lambda>(p, m). originate_external now p
                    \<lparr>e_network_mask = m, metric_type_2 = (rd_metric_type cfg = 2), e_metric = rd_metric cfg,
                     forwarding_address = UNSPECIFIED, external_route_tag = 0\<rparr>) kept s)))"

definition originate_summary_address_lsas ::
  "instant \<Rightarrow> ParsedSummaryAddress list \<Rightarrow> 'c OspfInstance \<Rightarrow> (Lsa list \<times> 'c OspfInstance) parsed" where
  "originate_summary_address_lsas now es s =
     each (\<lambda>e. originate_external now (sa_prefix e)
         \<lparr>e_network_mask = prefix_len_to_mask (sa_prefix_len e), metric_type_2 = (sa_metric_type e = 2),
          e_metric = sa_metric e, forwarding_address = UNSPECIFIED, external_route_tag = sa_tag e\<rparr>)
       (filter (\<lambda>e. \<not> sa_no_advertise e) es) s"

definition originate_default_route_lsa :: "instant \<Rightarrow> u32 \<Rightarrow> u8 \<Rightarrow> 'c OspfInstance \<Rightarrow> (Lsa option \<times> 'c OspfInstance) parsed" where
  "originate_default_route_lsa now met metric_type s =
     bindR (originate_into now (router_id s) AsExternal UNSPECIFIED
        (BAsExternal \<lparr>e_network_mask = UNSPECIFIED, metric_type_2 = (metric_type = 2), e_metric = met,
          forwarding_address = UNSPECIFIED, external_route_tag = 0\<rparr>) (as_external_lsdb s)) (\<lambda>(r, db).
     Ok (r, s\<lparr>as_external_lsdb := db\<rparr>))"

definition as_external_refresh_due :: "instant \<Rightarrow> 'c OspfInstance \<Rightarrow> bool" where
  "as_external_refresh_due now s \<longleftrightarrow> self_originated_due_for_refresh now (as_external_lsdb s) \<noteq> []"

section \<open>The SPF run over all areas\<close>

definition area_routes :: "instant \<Rightarrow> 'c OspfInstance \<Rightarrow> ipv4 \<times> Area \<Rightarrow> SpfRoute list" where
  "area_routes now s = (\<lambda>(aid, a).
     (if spf_interfaces s aid = [] then []
      else
        (let lsa_map = as_lsa_map now (lsdb a);
             (intra, paths) = calculate_spf_with_paths (router_id s) lsa_map (spf_interfaces s aid) (spf_neighbors s aid)
         in intra @ calculate_inter_area_routes lsa_map paths)))"

definition backbone_paths :: "instant \<Rightarrow> 'c OspfInstance \<Rightarrow> router_paths" where
  "backbone_paths now s =
     (case map_of (areas s) UNSPECIFIED of
        None \<Rightarrow> []
      | Some a \<Rightarrow>
          if spf_interfaces s UNSPECIFIED = [] then []
          else snd (calculate_spf_with_paths (router_id s) (as_lsa_map now (lsdb a)) (spf_interfaces s UNSPECIFIED)
                      (spf_neighbors s UNSPECIFIED)))"

definition run_spf :: "instant \<Rightarrow> 'c OspfInstance \<Rightarrow> SpfRoute list \<times> 'c OspfInstance" where
  "run_spf now s =
     (concat (map (area_routes now s) (areas s)) @
      calculate_external_routes (as_lsa_map now (as_external_lsdb s)) (backbone_paths now s),
      s\<lparr>spf_scheduled := None, spf_last_run := Some now\<rparr>)"

section \<open>The LSA that origination builds\<close>

text \<open>A metric is written in 24 bits: what is originated carries the metric modulo \<open>2 ^ 24\<close>.\<close>

fun mask_body :: "LsaBody \<Rightarrow> LsaBody" where
  "mask_body (BSummary x) = BSummary (x\<lparr>s_metric := s_metric x AND mask 24\<rparr>)"
| "mask_body (BAsExternal x) = BAsExternal (x\<lparr>e_metric := e_metric x AND mask 24\<rparr>)"
| "mask_body b = b"

lemma u24_be_bytes_mask: "u24_be_bytes (w AND mask 24) = u24_be_bytes w"
  by (auto simp: u24_be_bytes_def bit_eq_iff bit_simps)

lemma encode_mask_body [simp]: "lsa_body_encode (mask_body b) = lsa_body_encode b"
  by (cases b) (simp_all add: summary_lsa_encode_def as_external_lsa_encode_def u24_be_bytes_mask)

lemma unat_mask24: "unat (w AND mask 24 :: u32) < 2 ^ 24"
proof -
  have "unat (take_bit 24 w) = unat w mod 2 ^ 24" by (rule unat_take_low)
  then show ?thesis by (simp add: take_bit_eq_mask)
qed

fun body_kind :: "LsaType \<Rightarrow> LsaBody \<Rightarrow> bool" where
  "body_kind Router (BRouter r) \<longleftrightarrow> (\<forall>l \<in> set (r_links r). num_tos l = 0)"
| "body_kind Network (BNetwork _) \<longleftrightarrow> True"
| "body_kind SummaryNetwork (BSummary _) \<longleftrightarrow> True"
| "body_kind SummaryAsbr (BSummary _) \<longleftrightarrow> True"
| "body_kind AsExternal (BAsExternal _) \<longleftrightarrow> True"
| "body_kind _ _ \<longleftrightarrow> False"

lemma wf_mask_body: "body_kind t b \<Longrightarrow> wf_body t (mask_body b)"
  using unat_mask24 by (induction t b rule: body_kind.induct) simp_all

definition originated_lsa :: "ipv4 \<Rightarrow> LsaType \<Rightarrow> ipv4 \<Rightarrow> i32 \<Rightarrow> LsaBody \<Rightarrow> Lsa" where
  "originated_lsa rid ty lsid sq b = lsa_finalize
     \<lparr>header = \<lparr>ls_age = 0, h_options = options_standard, ls_type = ty, link_state_id = lsid,
        advertising_router = rid, ls_sequence_number = sq, ls_checksum = 0,
        h_length = word_of_nat (20 + length (lsa_body_encode b))\<rparr>,
      body = mask_body b\<rparr>"

lemma originated_lsa_simps [simp]:
  "lsa_key (originated_lsa rid ty lsid sq b) = \<lparr>key_type = ty, key_lsid = lsid, key_adv = rid\<rparr>"
  "body (originated_lsa rid ty lsid sq b) = mask_body b"
  "ls_sequence_number (header (originated_lsa rid ty lsid sq b)) = sq"
  "ls_type (header (originated_lsa rid ty lsid sq b)) = ty"
  by (simp_all add: originated_lsa_def lsa_key_def header_key_def)

lemma reparse_masked:
  assumes "body_kind (ls_type (header l)) (body l)" and "20 + length (lsa_body_encode (body l)) \<le> 65535"
  shows "\<exists>buf. lsa_encode l = Ok buf \<and> lsa_parse buf = Ok (lsa_finalize (l\<lparr>body := mask_body (body l)\<rparr>))"
proof -
  let ?l = "l\<lparr>body := mask_body (body l)\<rparr>"
  obtain buf where buf: "lsa_encode ?l = Ok buf" using assms(2) by (simp add: lsa_encode_eq)
  moreover have "lsa_encode l = lsa_encode ?l" by (simp add: lsa_encode_def)
  moreover have "lsa_parse (buf @ []) = Ok (lsa_finalize ?l)"
    by (rule lsa_parse_encoded [OF _ buf]) (simp add: wf_mask_body assms(1))
  ultimately show ?thesis by simp
qed

lemma checked_lsa_eq:
  assumes "body_kind ty b" and "20 + length (lsa_body_encode b) \<le> 65535"
  shows "checked_lsa rid ty lsid sq b = Ok (Some (originated_lsa rid ty lsid sq b))"
  using reparse_masked [of "\<lparr>header = \<lparr>ls_age = 0, h_options = options_standard, ls_type = ty, link_state_id = lsid,
    advertising_router = rid, ls_sequence_number = sq, ls_checksum = 0,
    h_length = word_of_nat (20 + length (lsa_body_encode b))\<rparr>, body = b\<rparr>"] assms
  by (auto simp: checked_lsa_def lsa_total_length_def LSA_HEADER_LEN_def originated_lsa_def simp del: of_nat_add)

lemma originate_into_eq:
  assumes "body_kind ty b" and "20 + length (lsa_body_encode b) \<le> 65535"
  shows "originate_into now rid ty lsid b db =
    (let l = originated_lsa rid ty lsid (next_seq db \<lparr>key_type = ty, key_lsid = lsid, key_adv = rid\<rparr>) b
     in Ok (Some l, snd (lsdb_install now l db)))"
  by (simp add: originate_into_def checked_lsa_eq [OF assms] Let_def)

section \<open>Steps that return\<close>

text \<open>\<open>total I f\<close>: from a state in \<open>I\<close> the step returns, in a state in \<open>I\<close>.\<close>

definition total :: "('s \<Rightarrow> bool) \<Rightarrow> ('s \<Rightarrow> ('r \<times> 's) parsed) \<Rightarrow> bool" where
  "total I f \<longleftrightarrow> (\<forall>s. I s \<longrightarrow> (\<exists>r s'. f s = Ok (r, s') \<and> I s'))"

lemma totalI: "(\<And>s. I s \<Longrightarrow> \<exists>r s'. f s = Ok (r, s') \<and> I s') \<Longrightarrow> total I f"
  by (simp add: total_def)

lemma totalD: "total I f \<Longrightarrow> I s \<Longrightarrow> \<exists>r s'. f s = Ok (r, s') \<and> I s'"
  by (simp add: total_def)

lemma total_return: "total I (\<lambda>s. Ok (r s, s))"
  by (simp add: total_def)

lemma total_bind:
  assumes "total I f" and "\<And>r. total I (g r)"
  shows "total I (\<lambda>s. bindR (f s) (\<lambda>(r, s). g r s))"
proof (rule totalI)
  fix s assume "I s"
  then obtain r s' where "f s = Ok (r, s')" "I s'" using assms(1) by (blast dest: totalD)
  with assms(2) [of r] show "\<exists>r s'. bindR (f s) (\<lambda>(r, s). g r s) = Ok (r, s') \<and> I s'"
    by (simp add: total_def)
qed

lemma total_each:
  assumes "\<And>x. x \<in> set xs \<Longrightarrow> total I (f x)"
  shows "total I (each f xs)"
  using assms
proof (induction xs)
  case (Cons x xs)
  then have "total I (f x)" "total I (each f xs)" by simp_all
  then have "total I (\<lambda>s. bindR (f x s) (\<lambda>(r, s). bindR (each f xs s) (\<lambda>(rs, s). Ok (r @ rs, s))))"
    by (intro total_bind total_return)
  then show ?case by (simp add: total_def)
qed (simp add: total_def)

text \<open>What origination leaves alone: everything but the contents of the databases.\<close>

definition orig_frame :: "'c OspfInstance \<Rightarrow> 'c OspfInstance \<Rightarrow> bool" where
  "orig_frame s0 s \<longleftrightarrow> inst_inv s \<and> interfaces s = interfaces s0 \<and> router_id s = router_id s0 \<and>
     redistribute s = redistribute s0 \<and> route_maps s = route_maps s0 \<and> map fst (areas s) = map fst (areas s0)"

lemma orig_frame_refl: "inst_inv s \<Longrightarrow> orig_frame s s"
  by (simp add: orig_frame_def)

lemma orig_frame_set_area:
  "orig_frame s0 s \<Longrightarrow> db_ok area_scope (router_id s) db \<Longrightarrow> orig_frame s0 (set_area_lsdb aid db s)"
  by (simp add: orig_frame_def inst_inv_set_area)

lemma total_originate_in_area:
  assumes "body_kind ty b" and "20 + length (lsa_body_encode b) \<le> 65535" and "ty \<noteq> AsExternal"
  shows "total (orig_frame s0) (originate_in_area now aid ty lsid b)"
proof (rule totalI)
  fix s assume f: "orig_frame s0 s"
  then have inv: "inst_inv s" by (simp add: orig_frame_def)
  show "\<exists>r s'. originate_in_area now aid ty lsid b s = Ok (r, s') \<and> orig_frame s0 s'"
  proof (cases "map_of (areas s) aid")
    case None
    with f show ?thesis by (simp add: originate_in_area_def checked_lsa_eq [OF assms(1,2)])
  next
    case (Some a)
    have "db_ok area_scope (router_id s) (lsdb a)" using inst_inv_area [OF inv Some] by blast
    with Some f assms(3) show ?thesis
      by (simp add: originate_in_area_def originate_into_eq [OF assms(1,2)] Let_def orig_frame_set_area db_ok_install)
  qed
qed

text \<open>\<open>keeps I f\<close>: whenever the step returns, it does so in a state in \<open>I\<close>.\<close>

definition keeps :: "('s \<Rightarrow> bool) \<Rightarrow> ('s \<Rightarrow> ('r \<times> 's) parsed) \<Rightarrow> bool" where
  "keeps I f \<longleftrightarrow> (\<forall>s r s'. I s \<longrightarrow> f s = Ok (r, s') \<longrightarrow> I s')"

lemma keepsD: "keeps I f \<Longrightarrow> I s \<Longrightarrow> f s = Ok (r, s') \<Longrightarrow> I s'"
  unfolding keeps_def by blast

lemma total_keeps: "total I f \<Longrightarrow> keeps I f"
  by (fastforce simp: total_def keeps_def)

lemma keeps_each:
  assumes "\<And>x. x \<in> set xs \<Longrightarrow> keeps I (f x)"
  shows "keeps I (each f xs)"
proof -
  have "I s \<Longrightarrow> each f xs s = Ok (r, s') \<Longrightarrow> I s'" for s r s'
    using assms
  proof (induction xs arbitrary: s r)
    case (Cons x xs)
    from Cons.prems(2) obtain r1 s1 r2 where "f x s = Ok (r1, s1)" "each f xs s1 = Ok (r2, s')"
      by (auto simp: bindR_eq_Ok_iff)
    moreover from this(1) have "I s1" using Cons.prems(1,3) by (meson keepsD list.set_intros(1))
    ultimately show ?case using Cons.IH [of s1 r2] Cons.prems(3) by simp
  qed simp
  then show ?thesis by (simp add: keeps_def)
qed

lemma checked_lsa_Ok_length: "checked_lsa rid ty lsid sq b = Ok r \<Longrightarrow> 20 + length (lsa_body_encode b) \<le> 65535"
  by (auto simp: checked_lsa_def lsa_total_length_def LSA_HEADER_LEN_def split: if_splits)

lemma keeps_originate_in_area:
  assumes "body_kind ty b" and "ty \<noteq> AsExternal"
  shows "keeps (orig_frame s0) (originate_in_area now aid ty lsid b)"
proof (cases "20 + length (lsa_body_encode b) \<le> 65535")
  case True
  with assms show ?thesis by (intro total_keeps total_originate_in_area)
next
  case False
  then have "checked_lsa rid ty lsid sq b \<noteq> Ok r" for rid sq r using checked_lsa_Ok_length by blast
  then show ?thesis
    by (auto simp: keeps_def originate_in_area_def originate_into_def bindR_eq_Ok_iff split: option.splits)
qed

section \<open>Router-LSAs describe the interfaces\<close>

lemma length_iface_links: "length (iface_links i) \<le> Suc (length (neighbors i))"
  by (auto simp: iface_links_def p2p_links_def split: NetworkType.split)

lemma num_tos_iface_links: "l \<in> set (iface_links i) \<Longrightarrow> num_tos l = 0"
  by (auto simp: iface_links_def p2p_links_def stub_link_def split: NetworkType.splits if_splits)

lemma num_tos_area_links: "\<forall>l \<in> set (area_links ifs aid). num_tos l = 0"
  by (auto simp: area_links_def dest: num_tos_iface_links)

text \<open>The number of links of the router, over all its interfaces, is at most this.\<close>

definition link_bound :: "OspfInterface list \<Rightarrow> nat" where
  "link_bound ifs = sum_list (map (\<lambda>i. Suc (length (neighbors i))) ifs)"

lemma length_area_links: "length (area_links ifs aid) \<le> link_bound ifs"
proof (induction ifs)
  case (Cons i ifs)
  then show ?case using length_iface_links [of i] by (auto simp: area_links_def link_bound_def)
qed (simp add: area_links_def link_bound_def)

lemma link_bound_member: "i \<in> set ifs \<Longrightarrow> Suc (length (neighbors i)) \<le> link_bound ifs"
  by (induction ifs) (auto simp: link_bound_def)

lemma originate_router_lsa_in_eq:
  assumes "link_bound (interfaces s) \<le> 5459" and "area_links (interfaces s) aid \<noteq> []" and "map_of (areas s) aid = Some a"
  shows "originate_router_lsa_in now aid s =
    (let l = lsa_finalize (router_lsa_draft (router_id s) (router_flags s) (area_links (interfaces s) aid) options_standard (lsdb a))
     in Ok ([(aid, l)], set_area_lsdb aid (snd (lsdb_install now l (lsdb a))) s))"
proof -
  have "length (area_links (interfaces s) aid) \<le> 5459" using length_area_links assms(1) order_trans by blast
  from originate_router_lsa_eq [OF num_tos_area_links this] show ?thesis
    by (simp add: originate_router_lsa_in_def assms(2,3) Let_def)
qed

lemma ls_type_router_draft [simp]: "ls_type (header (router_lsa_draft rid fl ls op db)) = Router"
  by (simp add: router_lsa_draft_def)

lemma total_router_lsa_in:
  assumes "link_bound (interfaces s0) \<le> 5459"
  shows "total (orig_frame s0) (originate_router_lsa_in now aid)"
proof (rule totalI)
  fix s assume f: "orig_frame s0 s"
  then have inv: "inst_inv s" and ifs: "interfaces s = interfaces s0" by (simp_all add: orig_frame_def)
  show "\<exists>r s'. originate_router_lsa_in now aid s = Ok (r, s') \<and> orig_frame s0 s'"
  proof (cases "area_links (interfaces s) aid \<noteq> [] \<and> map_of (areas s) aid \<noteq> None")
    case True
    then obtain a where a: "map_of (areas s) aid = Some a" by auto
    then have "db_ok area_scope (router_id s) (lsdb a)" using inst_inv_area [OF inv] by blast
    with True f assms show ?thesis
      by (simp add: originate_router_lsa_in_eq [OF _ _ a] ifs Let_def orig_frame_set_area db_ok_install)
  next
    case False
    with f show ?thesis by (auto simp: originate_router_lsa_in_def Let_def)
  qed
qed

lemma total_router_lsas: "link_bound (interfaces s0) \<le> 5459 \<Longrightarrow> total (orig_frame s0) (originate_router_lsas now)"
  using total_each [of _ "orig_frame s0" "originate_router_lsa_in now"] total_router_lsa_in [of s0 now]
  by (auto simp: originate_router_lsas_def total_def)

lemma originate_router_lsa_type:
  assumes "Lsdb.originate_router_lsa now rid fl links op db = Ok (l, db')" and "\<forall>l \<in> set links. num_tos l = 0"
  shows "db' = snd (lsdb_install now l db) \<and> ls_type (header l) = Router"
proof -
  let ?d = "router_lsa_draft rid fl links op db"
  have r: "lsa_reparse ?d = Ok l" "db' = snd (lsdb_install now l db)"
    using assms(1) by (auto simp: originate_router_lsa_def router_lsa_draft_def Let_def LSA_HEADER_LEN_def bindR_eq_Ok_iff)
  have "20 + length (lsa_body_encode (body ?d)) \<le> 65535"
    using r(1) by (auto simp: lsa_reparse_def lsa_encode_eq bindR_eq_Ok_iff split: if_splits)
  then have "l = lsa_finalize ?d"
    using r(1) lsa_reparse_eq [of ?d] assms(2) by (simp add: router_lsa_draft_def)
  with r(2) show ?thesis by simp
qed

lemma keeps_router_lsas: "keeps (orig_frame s0) (originate_router_lsas now)"
proof -
  have "keeps (orig_frame s0) (originate_router_lsa_in now aid)" for aid
    by (auto simp: keeps_def originate_router_lsa_in_def Let_def bindR_eq_Ok_iff orig_frame_def
        intro!: inst_inv_set_area dest!: originate_router_lsa_type [OF _ num_tos_area_links]
        split: if_splits option.splits) (rule db_ok_install; drule (1) inst_inv_area; simp)
  then have "keeps (orig_frame s0) (each (originate_router_lsa_in now) aids)" for aids by (intro keeps_each)
  then show ?thesis by (auto simp: keeps_def originate_router_lsas_def)
qed

lemma keeps_network_lsas: "keeps (orig_frame s0) (originate_network_lsas now)"
proof -
  have a: "keeps (orig_frame s0) (originate_in_area now aid Network lsid (network_body rid i))" for aid lsid rid i
    by (rule keeps_originate_in_area) (simp_all add: network_body_def)
  have "keeps (orig_frame s0) (\<lambda>s. originate_in_area now (if_area_id i) Network (if_address i) (network_body (router_id s) i) s)" for i
    using a unfolding keeps_def by blast
  then have "keeps (orig_frame s0) (each (\<lambda>i s. originate_in_area now (if_area_id i) Network (if_address i)
      (network_body (router_id s) i) s) is)" for "is" by (intro keeps_each)
  then show ?thesis unfolding keeps_def originate_network_lsas_def by blast
qed

lemma total_network_lsas:
  assumes "link_bound (interfaces s0) \<le> 5459"
  shows "total (orig_frame s0) (originate_network_lsas now)"
proof -
  have "length (lsa_body_encode (network_body rid i)) \<le> 65515" if "i \<in> set (interfaces s0)" for rid i
  proof -
    have "length (filter (\<lambda>x. n_state (snd x) = Full) (neighbors i)) \<le> length (neighbors i)"
      by (rule length_filter_le)
    also have "\<dots> \<le> 5459" using link_bound_member [OF that] assms by linarith
    finally show ?thesis
      by (simp add: network_body_def network_lsa_encode_def length_concat o_def sum_list_triv)
  qed
  then have "total (orig_frame s0) (\<lambda>s. originate_in_area now (if_area_id i) Network (if_address i) (network_body rid i) s)"
    if "i \<in> set (interfaces s0)" for i rid
    using that by (intro total_originate_in_area) (simp_all add: network_body_def)
  then have "total (orig_frame s0) (\<lambda>s. originate_in_area now (if_area_id i) Network (if_address i) (network_body (router_id s) i) s)"
    if "i \<in> set (interfaces s0)" for i
    using that by (fastforce simp: total_def orig_frame_def)
  then have "total (orig_frame s0) (each (\<lambda>i s. originate_in_area now (if_area_id i) Network (if_address i)
      (network_body (router_id s) i) s) (filter dr_iface (interfaces s0)))"
    by (intro total_each) simp
  then show ?thesis by (auto simp: total_def originate_network_lsas_def orig_frame_def)
qed

lemma total_summary_lsas: "total (orig_frame s0) (originate_summary_lsas now)"
proof -
  have area: "total (orig_frame s0) (originate_in_area now aid SummaryNetwork lsid (BSummary b))" for aid lsid b
    by (rule total_originate_in_area) (simp_all add: summary_lsa_encode_def)
  have dflt: "total (orig_frame s0) (originate_default_summary now aid)" for aid
    using area by (auto simp: total_def originate_default_summary_def split: option.split)
  have route: "total (orig_frame s0) (originate_summary_route now dest r)" for dest r
    using area by (auto simp: total_def originate_summary_route_def)
  have dest: "total (orig_frame s0) (\<lambda>s. if src = dest \<or> map_of (areas s) dest = None then Ok ([], s)
      else each (originate_summary_route now dest) rs s)" for src dest rs
    using total_each [of rs "orig_frame s0" "originate_summary_route now dest"] route by (auto simp: total_def)
  have src: "total (orig_frame s0) ((\<lambda>(src, routes) s. case routes of None \<Rightarrow> Ok ([], s)
      | Some rs \<Rightarrow> each (\<lambda>dest s. if src = dest \<or> map_of (areas s) dest = None then Ok ([], s)
          else each (originate_summary_route now dest) rs s) aids s) p)" for aids p
    using total_each [OF dest] by (cases p; cases "snd p") (auto simp: total_return)
  show ?thesis
  proof (rule totalI)
    fix s assume s: "orig_frame s0 s"
    have "total (orig_frame s0) (\<lambda>s'. bindR (each (originate_default_summary now) aids s') (\<lambda>(ds, s').
        bindR (each (\<lambda>(src, routes) s. case routes of None \<Rightarrow> Ok ([], s)
          | Some rs \<Rightarrow> each (\<lambda>dest s. if src = dest \<or> map_of (areas s) dest = None then Ok ([], s)
              else each (originate_summary_route now dest) rs s) aids s) srcs s') (\<lambda>(ss, s'). Ok (ds @ ss, s'))))" for aids srcs
      by (intro total_bind total_each total_return dflt src)
    from totalD [OF this s] show "\<exists>r s'. originate_summary_lsas now s = Ok (r, s') \<and> orig_frame s0 s'"
      using s by (simp add: originate_summary_lsas_def Let_def)
  qed
qed

text \<open>The Router-LSA of an area, and the area once it is installed.\<close>

definition own_router_lsa :: "'c OspfInstance \<Rightarrow> ipv4 \<Rightarrow> Area \<Rightarrow> Lsa" where
  "own_router_lsa s aid a =
     lsa_finalize (router_lsa_draft (router_id s) (router_flags s) (area_links (interfaces s) aid) options_standard (lsdb a))"

definition with_own_router_lsa :: "instant \<Rightarrow> 'c OspfInstance \<Rightarrow> ipv4 \<Rightarrow> Area \<Rightarrow> Area" where
  "with_own_router_lsa now s aid a =
     (if area_links (interfaces s) aid = [] then a
      else a\<lparr>lsdb := snd (lsdb_install now (own_router_lsa s aid a) (lsdb a))\<rparr>)"

lemma orig_frame_flags: "orig_frame s0 s \<Longrightarrow> router_flags s = router_flags s0"
  by (simp add: orig_frame_def router_flags_def is_abr_def)

lemma router_lsa_step:
  assumes "orig_frame s0 s" and "link_bound (interfaces s0) \<le> 5459"
    and "map_of (areas s) aid = map_of (areas s0) aid"
  shows "\<exists>ls s'. originate_router_lsa_in now aid s = Ok (ls, s') \<and> orig_frame s0 s' \<and>
    (\<forall>k. map_of (areas s') k =
       (if k = aid then map_option (with_own_router_lsa now s0 aid) (map_of (areas s0) aid) else map_of (areas s) k)) \<and>
    (\<forall>a. map_of (areas s0) aid = Some a \<longrightarrow> area_links (interfaces s0) aid \<noteq> [] \<longrightarrow> (aid, own_router_lsa s0 aid a) \<in> set ls)"
proof -
  obtain ls s' where r: "originate_router_lsa_in now aid s = Ok (ls, s')" "orig_frame s0 s'"
    using totalD [OF total_router_lsa_in [OF assms(2)] assms(1)] by blast
  have f: "interfaces s = interfaces s0" "router_id s = router_id s0" "router_flags s = router_flags s0"
    using assms(1) orig_frame_flags by (auto simp: orig_frame_def)
  show ?thesis
  proof (cases "map_of (areas s0) aid = None \<or> area_links (interfaces s0) aid = []")
    case True
    then have "originate_router_lsa_in now aid s = Ok ([], s)"
      using assms(3) f(1) by (auto simp: originate_router_lsa_in_def Let_def)
    with True assms show ?thesis by (cases "map_of (areas s0) aid") (auto simp: with_own_router_lsa_def)
  next
    case False
    then obtain a where a: "map_of (areas s0) aid = Some a" by auto
    with False assms(2,3) f r(2) show ?thesis
      using originate_router_lsa_in_eq [of s aid a now] r(1)
      by (auto simp: Let_def own_router_lsa_def with_own_router_lsa_def map_of_set_area_lsdb)
  qed
qed

lemma each_router_lsa:
  assumes "orig_frame s0 s" and "link_bound (interfaces s0) \<le> 5459" and "distinct ks"
    and "\<forall>k \<in> set ks. map_of (areas s) k = map_of (areas s0) k"
  shows "\<exists>ls s'. each (originate_router_lsa_in now) ks s = Ok (ls, s') \<and> orig_frame s0 s' \<and>
    (\<forall>k. map_of (areas s') k =
       (if k \<in> set ks then map_option (with_own_router_lsa now s0 k) (map_of (areas s0) k) else map_of (areas s) k)) \<and>
    (\<forall>k \<in> set ks. \<forall>a. map_of (areas s0) k = Some a \<longrightarrow> area_links (interfaces s0) k \<noteq> [] \<longrightarrow>
       (k, own_router_lsa s0 k a) \<in> set ls)"
  using assms(1,3,4)
proof (induction ks arbitrary: s)
  case (Cons aid ks)
  obtain ls s1 where 1: "originate_router_lsa_in now aid s = Ok (ls, s1)" "orig_frame s0 s1"
    "\<And>k. map_of (areas s1) k =
       (if k = aid then map_option (with_own_router_lsa now s0 aid) (map_of (areas s0) aid) else map_of (areas s) k)"
    "\<And>a. map_of (areas s0) aid = Some a \<Longrightarrow> area_links (interfaces s0) aid \<noteq> [] \<Longrightarrow> (aid, own_router_lsa s0 aid a) \<in> set ls"
    using router_lsa_step [OF Cons.prems(1) assms(2), of aid now] Cons.prems(3) by auto
  have "\<forall>k \<in> set ks. map_of (areas s1) k = map_of (areas s0) k"
    using Cons.prems(2,3) by (auto simp: 1(3))
  with Cons.IH [OF 1(2)] Cons.prems(2) obtain ls' s2 where 2: "each (originate_router_lsa_in now) ks s1 = Ok (ls', s2)"
    "orig_frame s0 s2"
    "\<And>k. map_of (areas s2) k =
       (if k \<in> set ks then map_option (with_own_router_lsa now s0 k) (map_of (areas s0) k) else map_of (areas s1) k)"
    "\<And>k a. k \<in> set ks \<Longrightarrow> map_of (areas s0) k = Some a \<Longrightarrow> area_links (interfaces s0) k \<noteq> [] \<Longrightarrow>
       (k, own_router_lsa s0 k a) \<in> set ls'"
    by auto
  show ?case using 1 2 by auto
qed (simp add: assms)

lemma lsa_key_own_router_lsa [simp]:
  "lsa_key (own_router_lsa s aid a) = \<lparr>key_type = Router, key_lsid = router_id s, key_adv = router_id s\<rparr>"
  by (simp add: own_router_lsa_def lsa_key_def header_key_def router_lsa_draft_def)

text \<open>
  Origination of the Router-LSAs returns for up to 5459 links, and afterwards the database of every
  area holds a Router-LSA of this router whose links are exactly those of the interfaces of the area that
  are up, with the border and boundary flags of the router; the new LSAs are returned for flooding, and an
  area without such an interface is left as it was. (No stored Router-LSA has the largest sequence number.)
\<close>

theorem router_lsas_describe_interfaces:
  assumes "inst_inv s" and "link_bound (interfaces s) \<le> 5459"
    and "\<forall>aid a e. map_of (areas s) aid = Some a \<longrightarrow>
      lsdb_get (lsdb a) \<lparr>key_type = Router, key_lsid = router_id s, key_adv = router_id s\<rparr> = Some e \<longrightarrow>
      ls_sequence_number (header (entry_lsa e)) \<noteq> MAX_SEQUENCE_NUMBER"
  shows "\<exists>ls s'. originate_router_lsas now s = Ok (ls, s') \<and> inst_inv s' \<and>
    (\<forall>aid a. map_of (areas s) aid = Some a \<longrightarrow>
       (if area_links (interfaces s) aid = [] then map_of (areas s') aid = Some a
        else \<exists>a' e. map_of (areas s') aid = Some a' \<and>
          lsdb_get (lsdb a') \<lparr>key_type = Router, key_lsid = router_id s, key_adv = router_id s\<rparr> = Some e \<and>
          body (entry_lsa e) = BRouter \<lparr>r_flags = router_flags s, r_links = area_links (interfaces s) aid\<rparr> \<and>
          (aid, entry_lsa e) \<in> set ls))"
proof -
  have "distinct (map fst (areas s))" using assms(1) by (simp add: inst_inv_def)
  from each_router_lsa [OF orig_frame_refl [OF assms(1)] assms(2) this ballI [OF refl], of now]
  obtain ls s' where r: "originate_router_lsas now s = Ok (ls, s')" "orig_frame s s'"
    "\<forall>k. map_of (areas s') k = (if k \<in> set (map fst (areas s))
       then map_option (with_own_router_lsa now s k) (map_of (areas s) k) else map_of (areas s) k)"
    "\<forall>k \<in> set (map fst (areas s)). \<forall>a. map_of (areas s) k = Some a \<longrightarrow> area_links (interfaces s) k \<noteq> [] \<longrightarrow>
      (k, own_router_lsa s k a) \<in> set ls"
    unfolding originate_router_lsas_def by blast
  have "if area_links (interfaces s) aid = [] then map_of (areas s') aid = Some a
        else \<exists>a' e. map_of (areas s') aid = Some a' \<and>
          lsdb_get (lsdb a') \<lparr>key_type = Router, key_lsid = router_id s, key_adv = router_id s\<rparr> = Some e \<and>
          body (entry_lsa e) = BRouter \<lparr>r_flags = router_flags s, r_links = area_links (interfaces s) aid\<rparr> \<and>
          (aid, entry_lsa e) \<in> set ls" if a: "map_of (areas s) aid = Some a" for aid a
  proof -
    have k: "aid \<in> set (map fst (areas s))" using map_of_SomeD [OF a] by force
    let ?l = "own_router_lsa s aid a"
    have "lsdb_get (snd (lsdb_install now ?l (lsdb a))) (lsa_key ?l) = Some (new_entry now (lsdb a) ?l)"
      by (rule install_next_seq)
        (use assms(3) a in \<open>auto simp: own_router_lsa_def lsa_key_def header_key_def router_lsa_draft_def\<close>)
    then show ?thesis
      using r(3) [THEN spec, of aid] r(4) [THEN bspec, OF k] k a
      by (simp add: with_own_router_lsa_def new_entry_def) (simp add: own_router_lsa_def router_lsa_draft_def)
  qed
  moreover have "inst_inv s'" using r(2) by (simp add: orig_frame_def)
  ultimately show ?thesis using r(1) by blast
qed

section \<open>Redistribution\<close>

text \<open>The bodies of the AS-wide database are those of AS-External-LSAs.\<close>

definition ext_bodies :: "Lsdb \<Rightarrow> bool" where
  "ext_bodies db \<longleftrightarrow> db_ok as_scope (lsdb_router_id db) db \<and>
     (\<forall>k e. lsdb_get db k = Some e \<longrightarrow> (\<exists>x. body (entry_lsa e) = BAsExternal x))"

lemma ext_bodies_install:
  assumes "ext_bodies db" and "ls_type (header l) = AsExternal" and "body l = BAsExternal x"
  shows "ext_bodies (snd (lsdb_install now l db))"
  using assms by (auto simp: ext_bodies_def db_ok_install lsdb_get_install new_entry_def split: if_splits)

lemma length_external_body [simp]: "length (as_external_lsa_encode x) = 16"
  by (simp add: as_external_lsa_encode_def)

lemma flush_external_returns:
  assumes "ext_bodies db"
  shows "\<exists>db'. flush_external now k db = Ok db' \<and> ext_bodies db' \<and> lsdb_router_id db' = lsdb_router_id db"
proof (cases "lsdb_get db k")
  case None
  with assms show ?thesis by (simp add: flush_external_def)
next
  case (Some e)
  let ?l = "with_seq (ls_sequence_number (header (entry_lsa e)) + 1) (with_age MAX_AGE (entry_lsa e))"
  obtain x where x: "body (entry_lsa e) = BAsExternal x" using assms Some by (auto simp: ext_bodies_def)
  have t: "ls_type (header (entry_lsa e)) = AsExternal"
    using assms Some lsdb_inv_get [of db k e] by (auto simp: ext_bodies_def db_ok_def lsa_key_def header_key_def)
  have b: "body ?l = BAsExternal x" "ls_type (header ?l) = AsExternal" by (simp_all add: with_seq_def with_age_def x t)
  then have "\<exists>buf. lsa_encode ?l = Ok buf \<and> lsa_parse buf = Ok (lsa_finalize (?l\<lparr>body := mask_body (body ?l)\<rparr>))"
    by (intro reparse_masked) simp_all
  with Some b assms show ?thesis
    by (auto simp: flush_external_def Let_def intro!: ext_bodies_install)
qed

lemma flush_externals_return:
  "ext_bodies db \<Longrightarrow> \<exists>db'. flush_externals now ks db = Ok db' \<and> ext_bodies db' \<and> lsdb_router_id db' = lsdb_router_id db"
proof (induction ks arbitrary: db)
  case (Cons k ks)
  obtain db' where "flush_external now k db = Ok db'" "ext_bodies db'" "lsdb_router_id db' = lsdb_router_id db"
    using flush_external_returns [OF Cons.prems] by blast
  with Cons.IH [of db'] show ?case by auto
qed simp

lemma flush_outside_returns:
  assumes "ext_bodies (as_external_lsdb s)"
  shows "\<exists>s'. flush_self_externals_outside now keep s = Ok s' \<and> ext_bodies (as_external_lsdb s') \<and>
    router_id s' = router_id s \<and> route_maps s' = route_maps s"
  using flush_externals_return [OF assms, of now "map header_key
    (filter (\<lambda>h. advertising_router h = router_id s \<and> link_state_id h \<notin> set keep) (all_headers now (as_external_lsdb s)))"]
  by (auto simp: flush_self_externals_outside_def Let_def)

lemma originate_external_eq:
  "originate_external now lsid x s =
    (let l = originated_lsa (router_id s) AsExternal lsid
           (next_seq (as_external_lsdb s) \<lparr>key_type = AsExternal, key_lsid = lsid, key_adv = router_id s\<rparr>) (BAsExternal x)
     in Ok ([l], s\<lparr>as_external_lsdb := snd (lsdb_install now l (as_external_lsdb s))\<rparr>))"
  by (simp add: originate_external_def originate_into_eq Let_def)

lemma link_state_id_originated [simp]: "link_state_id (header (originated_lsa rid ty lsid sq b)) = lsid"
  by (simp add: originated_lsa_def)

lemma each_external:
  "\<exists>ls s'. each (\<lambda>p. originate_external now (f p) (g p)) ps s = Ok (ls, s') \<and>
     map (\<lambda>l. (link_state_id (header l), body l)) ls = map (\<lambda>p. (f p, mask_body (BAsExternal (g p)))) ps"
proof (induction ps arbitrary: s)
  case (Cons p ps)
  obtain l s1 where 1: "originate_external now (f p) (g p) s = Ok ([l], s1)"
      "link_state_id (header l) = f p" "body l = mask_body (BAsExternal (g p))"
    by (simp add: originate_external_eq Let_def del: mask_body.simps)
  obtain ls s2 where "each (\<lambda>p. originate_external now (f p) (g p)) ps s1 = Ok (ls, s2)"
      "map (\<lambda>l. (link_state_id (header l), body l)) ls = map (\<lambda>p. (f p, mask_body (BAsExternal (g p)))) ps"
    using Cons.IH by blast
  with 1 show ?case by simp
qed simp

text \<open>
  Redistribution of connected routes originates an AS-External-LSA for exactly the prefixes that lie
  in no configured summary range and that the route-map permits, in order, with the configured metric and
  metric type; without such a source, or when it names an unknown route-map, it originates none.
\<close>

theorem externals_filtered:
  assumes "ext_bodies (as_external_lsdb s)"
  shows "\<exists>ls s'. originate_external_lsas ev now redis externals summaries s = Ok (ls, s') \<and>
    (case List.find (\<lambda>r. rd_source r = Connected) redis of
       None \<Rightarrow> ls = []
     | Some cfg \<Rightarrow>
         (case rd_route_map cfg of
            Some name \<Rightarrow>
              (case map_of (route_maps s) name of
                 None \<Rightarrow> ls = []
               | Some stmts \<Rightarrow>
                   map (\<lambda>l. (link_state_id (header l), body l)) ls =
                   map (\<lambda>(p, m). (p, BAsExternal \<lparr>e_network_mask = m, metric_type_2 = (rd_metric_type cfg = 2),
                       e_metric = rd_metric cfg AND mask 24, forwarding_address = 0, external_route_tag = 0\<rparr>))
                     (filter (\<lambda>(p, m). (\<forall>x \<in> set summaries. \<not> prefix_covered_by p (sa_prefix x) (sa_prefix_len x)) \<and>
                        evaluate_route_map ev stmts (p, mask_to_prefix_len_v4 m) Connected) externals))
          | None \<Rightarrow>
              map (\<lambda>l. (link_state_id (header l), body l)) ls =
              map (\<lambda>(p, m). (p, BAsExternal \<lparr>e_network_mask = m, metric_type_2 = (rd_metric_type cfg = 2),
                  e_metric = rd_metric cfg AND mask 24, forwarding_address = 0, external_route_tag = 0\<rparr>))
                (filter (\<lambda>(p, m). \<forall>x \<in> set summaries. \<not> prefix_covered_by p (sa_prefix x) (sa_prefix_len x)) externals)))"
proof -
  have flush: "\<exists>ls s'. bindR (flush_self_externals_outside now [] s) (\<lambda>s. Ok ([], s)) = Ok (ls, s') \<and> ls = []"
    using flush_outside_returns [OF assms, of now "[]"] by auto
  have go: "\<exists>ls s'. bindR (flush_self_externals_outside now keep s) (each (\<lambda>(p, m). originate_external now p
        \<lparr>e_network_mask = m, metric_type_2 = (rd_metric_type cfg = 2), e_metric = rd_metric cfg,
         forwarding_address = 0, external_route_tag = 0\<rparr>) kept) = Ok (ls, s') \<and>
      map (\<lambda>l. (link_state_id (header l), body l)) ls =
        map (\<lambda>(p, m). (p, BAsExternal \<lparr>e_network_mask = m, metric_type_2 = (rd_metric_type cfg = 2),
           e_metric = rd_metric cfg AND mask 24, forwarding_address = 0, external_route_tag = 0\<rparr>)) kept" for keep cfg kept
    using flush_outside_returns [OF assms, of now keep]
      each_external [of now fst "\<lambda>p. \<lparr>e_network_mask = snd p, metric_type_2 = (rd_metric_type cfg = 2),
        e_metric = rd_metric cfg, forwarding_address = 0, external_route_tag = 0\<rparr>" kept]
    by (auto simp: case_prod_unfold)
  have kept: "external_kept ev summaries rm = (\<lambda>(p, m).
      (\<forall>x \<in> set summaries. \<not> prefix_covered_by p (sa_prefix x) (sa_prefix_len x)) \<and>
      (case rm of None \<Rightarrow> True | Some stmts \<Rightarrow> evaluate_route_map ev stmts (p, mask_to_prefix_len_v4 m) Connected))" for rm
    by (auto simp: external_kept_def fun_eq_iff list_ex_iff split: option.split)
  show ?thesis
  proof (cases "List.find (\<lambda>r. rd_source r = Connected) redis")
    case None
    with flush show ?thesis by (simp add: originate_external_lsas_def)
  next
    case (Some cfg)
    show ?thesis
    proof (cases "rd_route_map cfg")
      case None
      with Some go [of _ cfg] show ?thesis by (simp add: originate_external_lsas_def Let_def kept)
    next
      case name: (Some name)
      show ?thesis
      proof (cases "map_of (route_maps s) name")
        case None
        with Some name flush show ?thesis by (simp add: originate_external_lsas_def)
      next
        case (Some stmts)
        with \<open>List.find (\<lambda>r. rd_source r = Connected) redis = Some cfg\<close> name go [of _ cfg] show ?thesis
          by (simp add: originate_external_lsas_def Let_def kept)
      qed
    qed
  qed
qed

section \<open>Witnesses\<close>

definition example_instance :: "unit OspfInstance" where
  "example_instance = update_iface 0 (\<lambda>i. i\<lparr>if_state := If_PointToPoint\<rparr>) (instance_new 0 example_config)"

lemmas example_instance_eval =
  example_instance_def update_iface_def instance_new_def Let_def example_config_def interface_of_config_def
  interface_new_def ensure_area_def area_of_config_def area_new_def collect_map_def network_type_of_def

lemma example_instance_inv: "inst_inv example_instance"
  by (simp add: inst_inv_def example_instance_eval iface_ok_def)

lemma example_instance_simps:
  "link_bound (interfaces example_instance) = 1" "router_id example_instance = 0x01010101"
  "areas example_instance = [(0, area_new 0 Normal 0x01010101)]"
  "route_maps example_instance = []" "as_external_lsdb example_instance = lsdb_new 0x01010101"
  "length (area_links (interfaces example_instance) 0) = 1"
  by (simp_all add: example_instance_eval link_bound_def area_links_def iface_links_def p2p_links_def)

theorem router_lsas_describe_interfaces_witness:
  "\<exists>ls s' a' e. originate_router_lsas 5 example_instance = Ok (ls, s') \<and> map_of (areas s') 0 = Some a' \<and>
     lsdb_get (lsdb a') \<lparr>key_type = Router, key_lsid = 0x01010101, key_adv = 0x01010101\<rparr> = Some e \<and>
     body (entry_lsa e) = BRouter \<lparr>r_flags = router_flags example_instance,
       r_links = area_links (interfaces example_instance) 0\<rparr>"
proof -
  have ne: "area_links (interfaces example_instance) 0 \<noteq> []" using example_instance_simps(6) by auto
  have max: "\<forall>aid a e. map_of (areas example_instance) aid = Some a \<longrightarrow>
      lsdb_get (lsdb a) \<lparr>key_type = Router, key_lsid = router_id example_instance, key_adv = router_id example_instance\<rparr> = Some e \<longrightarrow>
      ls_sequence_number (header (entry_lsa e)) \<noteq> MAX_SEQUENCE_NUMBER"
    by (simp add: example_instance_simps area_new_def)
  have a: "map_of (areas example_instance) 0 = Some (area_new 0 Normal 0x01010101)"
    by (simp add: example_instance_simps)
  have "link_bound (interfaces example_instance) \<le> 5459" by (simp add: example_instance_simps)
  from router_lsas_describe_interfaces [OF example_instance_inv this max, of 5]
  obtain ls s' where r: "originate_router_lsas 5 example_instance = Ok (ls, s')"
    and "if area_links (interfaces example_instance) 0 = [] then map_of (areas s') 0 = Some (area_new 0 Normal 0x01010101)
        else \<exists>a' e. map_of (areas s') 0 = Some a' \<and>
          lsdb_get (lsdb a') \<lparr>key_type = Router, key_lsid = router_id example_instance,
            key_adv = router_id example_instance\<rparr> = Some e \<and>
          body (entry_lsa e) = BRouter \<lparr>r_flags = router_flags example_instance,
            r_links = area_links (interfaces example_instance) 0\<rparr> \<and> (0, entry_lsa e) \<in> set ls"
    using a by blast
  with ne r show ?thesis by (auto simp: example_instance_simps)
qed

lemma example_covered:
  "prefix_covered_by 0x0A010200 0x0A000000 8" "\<not> prefix_covered_by 0xC0A80100 0x0A000000 8"
  by code_simp+

theorem externals_filtered_witness:
  "\<exists>ls s'. originate_external_lsas (\<lambda>c p src. True) 5
      [\<lparr>rd_source = Connected, rd_metric = 20, rd_metric_type = 2, rd_route_map = None\<rparr>]
      [(0x0A010200, 0xFFFFFF00), (0xC0A80100, 0xFFFFFF00)]
      [\<lparr>sa_prefix = 0x0A000000, sa_prefix_len = 8, sa_no_advertise = True, sa_tag = 0, sa_metric = 1, sa_metric_type = 1\<rparr>]
      example_instance = Ok (ls, s') \<and> map (\<lambda>l. link_state_id (header l)) ls = [0xC0A80100]"
proof -
  have "ext_bodies (as_external_lsdb example_instance)" by (simp add: ext_bodies_def example_instance_simps)
  from externals_filtered [OF this, of "\<lambda>c p src. True" 5
      "[\<lparr>rd_source = Connected, rd_metric = 20, rd_metric_type = 2, rd_route_map = None\<rparr>]"
      "[(0x0A010200, 0xFFFFFF00), (0xC0A80100, 0xFFFFFF00)]"
      "[\<lparr>sa_prefix = 0x0A000000, sa_prefix_len = 8, sa_no_advertise = True, sa_tag = 0, sa_metric = 1, sa_metric_type = 1\<rparr>]"]
  obtain ls s' where r: "originate_external_lsas (\<lambda>c p src. True) 5
      [\<lparr>rd_source = Connected, rd_metric = 20, rd_metric_type = 2, rd_route_map = None\<rparr>]
      [(0x0A010200, 0xFFFFFF00), (0xC0A80100, 0xFFFFFF00)]
      [\<lparr>sa_prefix = 0x0A000000, sa_prefix_len = 8, sa_no_advertise = True, sa_tag = 0, sa_metric = 1, sa_metric_type = 1\<rparr>]
      example_instance = Ok (ls, s')"
    and m: "map (\<lambda>l. (link_state_id (header l), body l)) ls =
      [(0xC0A80100, BAsExternal \<lparr>e_network_mask = 0xFFFFFF00, metric_type_2 = True, e_metric = 20 AND mask 24,
         forwarding_address = 0, external_route_tag = 0\<rparr>)]"
    using example_covered by auto
  have "map (\<lambda>l. link_state_id (header l)) ls = map fst (map (\<lambda>l. (link_state_id (header l), body l)) ls)" by simp
  with r m show ?thesis by simp
qed

end
