(* ===== verification/Codec_V3.thy ===== *)
theory Codec_V3
  imports Wire
begin

text \<open>
  The wire format of OSPFv3 (\<^verbatim>\<open>src/packet_v3\<close>): the packet header, the five packet bodies, the LSA header,
  the LSA bodies and the variable-length IPv6 prefixes they carry. An encoder that slices the sixteen
  octets of an address may panic; the outcome of such an encoder is \<^const>\<open>Panic\<close>.
\<close>

section \<open>Errors and addresses\<close>

datatype PacketV3Error =
    TooShortV3 nat nat
  | BadVersionV3 u8
  | BadPacketTypeV3 u8
  | BadLsaTypeV3 u16
  | BadChecksumV3

type_synonym 'a parsed3 = "(PacketV3Error, 'a) outcome"

type_synonym ipv6 = "128 word"

text \<open>\<^verbatim>\<open>Ipv6Addr::octets\<close> and \<^verbatim>\<open>Ipv6Addr::from([u8; 16])\<close>.\<close>

definition ipv6_octets :: "ipv6 \<Rightarrow> u8 list" where
  "ipv6_octets a = map (\<lambda>i. ucast (drop_bit (8 * (15 - i)) a)) [0..<16]"

definition ipv6_from :: "u8 list \<Rightarrow> ipv6" where
  "ipv6_from bs = fold (\<lambda>b a. push_bit 8 a OR ucast b) bs 0"

definition ALL_SPF_ROUTERS_V6 :: ipv6 where
  "ALL_SPF_ROUTERS_V6 = 0xff020000000000000000000000000005"

definition ALL_DR_ROUTERS_V6 :: ipv6 where
  "ALL_DR_ROUTERS_V6 = 0xff020000000000000000000000000006"

section \<open>The packet header\<close>

definition OSPFV3_HEADER_LEN :: nat where
  "OSPFV3_HEADER_LEN = 16"

definition OSPFV3_VERSION :: u8 where
  "OSPFV3_VERSION = 3"

definition ospfv3_total_length :: "nat \<Rightarrow> u16 parsed3" where
  "ospfv3_total_length body_len =
     (if OSPFV3_HEADER_LEN + body_len > 65535 then Panic else Ok (word_of_nat (OSPFV3_HEADER_LEN + body_len)))"

datatype Ospfv3PacketType = V3_Hello | V3_DatabaseDescription | V3_LinkStateRequest | V3_LinkStateUpdate | V3_LinkStateAck

definition ospfv3_type_from_u8 :: "u8 \<Rightarrow> Ospfv3PacketType option" where
  "ospfv3_type_from_u8 v =
     (if v = 1 then Some V3_Hello else if v = 2 then Some V3_DatabaseDescription
      else if v = 3 then Some V3_LinkStateRequest else if v = 4 then Some V3_LinkStateUpdate
      else if v = 5 then Some V3_LinkStateAck else None)"

fun ospfv3_type_to_u8 :: "Ospfv3PacketType \<Rightarrow> u8" where
  "ospfv3_type_to_u8 V3_Hello = 1"
| "ospfv3_type_to_u8 V3_DatabaseDescription = 2"
| "ospfv3_type_to_u8 V3_LinkStateRequest = 3"
| "ospfv3_type_to_u8 V3_LinkStateUpdate = 4"
| "ospfv3_type_to_u8 V3_LinkStateAck = 5"

record Ospfv3Header =
  h3_version :: u8
  h3_packet_type :: Ospfv3PacketType
  h3_packet_length :: u16
  h3_router_id :: ipv4
  h3_area_id :: ipv4
  h3_checksum :: u16
  h3_instance_id :: u8

definition ospfv3_header_parse :: "u8 list \<Rightarrow> Ospfv3Header parsed3" where
  "ospfv3_header_parse data =
     (if length data < OSPFV3_HEADER_LEN then Err (TooShortV3 OSPFV3_HEADER_LEN (length data))
      else
        bindR (byte_at data 0) (\<lambda>v.
        if v \<noteq> OSPFV3_VERSION then Err (BadVersionV3 v)
        else
          bindR (byte_at data 1) (\<lambda>t.
          bindR (ok_or (ospfv3_type_from_u8 t) (BadPacketTypeV3 t)) (\<lambda>ty.
          bindR (u16_at data 2) (\<lambda>len.
          bindR (u32_at data 4) (\<lambda>rid.
          bindR (u32_at data 8) (\<lambda>aid.
          bindR (u16_at data 12) (\<lambda>ck.
          bindR (byte_at data 14) (\<lambda>iid.
          Ok \<lparr>h3_version = OSPFV3_VERSION, h3_packet_type = ty, h3_packet_length = len, h3_router_id = rid,
              h3_area_id = aid, h3_checksum = ck, h3_instance_id = iid\<rparr>)))))))))"

definition ospfv3_header_encode :: "Ospfv3Header \<Rightarrow> u8 list" where
  "ospfv3_header_encode h =
     [h3_version h, ospfv3_type_to_u8 (h3_packet_type h)] @ u16_be_bytes (h3_packet_length h) @
     u32_be_bytes (h3_router_id h) @ u32_be_bytes (h3_area_id h) @ u16_be_bytes (h3_checksum h) @
     [h3_instance_id h, 0]"

definition ospfv3_header_new :: "Ospfv3PacketType \<Rightarrow> ipv4 \<Rightarrow> ipv4 \<Rightarrow> Ospfv3Header" where
  "ospfv3_header_new ty rid aid =
     \<lparr>h3_version = OSPFV3_VERSION, h3_packet_type = ty, h3_packet_length = 0, h3_router_id = rid,
      h3_area_id = aid, h3_checksum = 0, h3_instance_id = 0\<rparr>"

section \<open>The LSA header\<close>

definition LSA_V3_HEADER_LEN :: nat where
  "LSA_V3_HEADER_LEN = 20"

definition lsa_v3_total_length :: "nat \<Rightarrow> u16 parsed3" where
  "lsa_v3_total_length body_len =
     (if LSA_V3_HEADER_LEN + body_len > 65535 then Panic else Ok (word_of_nat (LSA_V3_HEADER_LEN + body_len)))"

datatype LsaV3Type =
    RouterV3 | NetworkV3 | InterAreaPrefixV3 | InterAreaRouterV3 | AsExternalV3 | NssaV3 | LinkV3 | IntraAreaPrefixV3

definition lsa_v3_type_from_u16 :: "u16 \<Rightarrow> LsaV3Type option" where
  "lsa_v3_type_from_u16 v =
     (if v = 0x2001 then Some RouterV3 else if v = 0x2002 then Some NetworkV3
      else if v = 0x2003 then Some InterAreaPrefixV3 else if v = 0x2004 then Some InterAreaRouterV3
      else if v = 0x4005 then Some AsExternalV3 else if v = 0x2007 then Some NssaV3
      else if v = 0x0008 then Some LinkV3 else if v = 0x2009 then Some IntraAreaPrefixV3 else None)"

fun lsa_v3_type_to_u16 :: "LsaV3Type \<Rightarrow> u16" where
  "lsa_v3_type_to_u16 RouterV3 = 0x2001"
| "lsa_v3_type_to_u16 NetworkV3 = 0x2002"
| "lsa_v3_type_to_u16 InterAreaPrefixV3 = 0x2003"
| "lsa_v3_type_to_u16 InterAreaRouterV3 = 0x2004"
| "lsa_v3_type_to_u16 AsExternalV3 = 0x4005"
| "lsa_v3_type_to_u16 NssaV3 = 0x2007"
| "lsa_v3_type_to_u16 LinkV3 = 0x0008"
| "lsa_v3_type_to_u16 IntraAreaPrefixV3 = 0x2009"

record LsaV3Header =
  l3_age :: u16
  l3_type :: LsaV3Type
  l3_lsid :: ipv4
  l3_adv :: ipv4
  l3_seq :: i32
  l3_checksum :: u16
  l3_length :: u16

definition lsa_v3_header_parse :: "u8 list \<Rightarrow> LsaV3Header parsed3" where
  "lsa_v3_header_parse data =
     (if length data < LSA_V3_HEADER_LEN then Err (TooShortV3 LSA_V3_HEADER_LEN (length data))
      else
        bindR (u16_at data 0) (\<lambda>age.
        bindR (u16_at data 2) (\<lambda>t.
        bindR (ok_or (lsa_v3_type_from_u16 t) (BadLsaTypeV3 t)) (\<lambda>ty.
        bindR (u32_at data 4) (\<lambda>lsid.
        bindR (u32_at data 8) (\<lambda>adv.
        bindR (u32_at data 12) (\<lambda>sq.
        bindR (u16_at data 16) (\<lambda>ck.
        bindR (u16_at data 18) (\<lambda>len.
        Ok \<lparr>l3_age = age, l3_type = ty, l3_lsid = lsid, l3_adv = adv, l3_seq = sq, l3_checksum = ck,
            l3_length = len\<rparr>)))))))))"

definition lsa_v3_header_encode :: "LsaV3Header \<Rightarrow> u8 list" where
  "lsa_v3_header_encode h =
     u16_be_bytes (l3_age h) @ u16_be_bytes (lsa_v3_type_to_u16 (l3_type h)) @ u32_be_bytes (l3_lsid h) @
     u32_be_bytes (l3_adv h) @ u32_be_bytes (l3_seq h) @ u16_be_bytes (l3_checksum h) @ u16_be_bytes (l3_length h)"

section \<open>Prefixes\<close>

record Ospfv3Prefix =
  pf_length :: u8
  pf_options :: u8
  pf_metric :: u16
  pf_address :: ipv6

definition prefix_word_count :: "u8 \<Rightarrow> nat" where
  "prefix_word_count len = (unat len + 31) div 32"

definition prefix_wire_size :: "Ospfv3Prefix \<Rightarrow> nat" where
  "prefix_wire_size p = 4 + prefix_word_count (pf_length p) * 4"

definition prefix_parse :: "u8 list \<Rightarrow> (Ospfv3Prefix \<times> nat) parsed3" where
  "prefix_parse data =
     (if length data < 4 then Err (TooShortV3 4 (length data))
      else
        bindR (byte_at data 0) (\<lambda>len.
        bindR (byte_at data 1) (\<lambda>opts.
        bindR (u16_at data 2) (\<lambda>met.
        (let prefix_bytes = prefix_word_count len * 4;
             total = 4 + prefix_bytes
         in if length data < total then Err (TooShortV3 total (length data))
            else
              bindR (slice data 4 (4 + min prefix_bytes 16)) (\<lambda>bs.
              Ok (\<lparr>pf_length = len, pf_options = opts, pf_metric = met,
                   pf_address = ipv6_from (bs @ replicate (16 - min prefix_bytes 16) 0)\<rparr>, total)))))))"

definition prefix_encode :: "Ospfv3Prefix \<Rightarrow> u8 list parsed3" where
  "prefix_encode p =
     bindR (slice (ipv6_octets (pf_address p)) 0 (prefix_word_count (pf_length p) * 4)) (\<lambda>bs.
     Ok ([pf_length p, pf_options p] @ u16_be_bytes (pf_metric p) @ bs))"

text \<open>\<^verbatim>\<open>for _ in 0..num_prefixes { if off >= data.len() { break; } .. }\<close>\<close>

fun prefixes_parse :: "nat \<Rightarrow> u8 list \<Rightarrow> nat \<Rightarrow> Ospfv3Prefix list parsed3" where
  "prefixes_parse 0 data off = Ok []"
| "prefixes_parse (Suc n) data off =
     (if length data \<le> off then Ok []
      else
        bindR (slice_from data off) (\<lambda>s.
        bindR (prefix_parse s) (\<lambda>(p, consumed).
        bindR (prefixes_parse n data (off + consumed)) (\<lambda>ps. Ok (p # ps)))))"

fun prefixes_encode :: "Ospfv3Prefix list \<Rightarrow> u8 list parsed3" where
  "prefixes_encode [] = Ok []"
| "prefixes_encode (p # ps) =
     bindR (prefix_encode p) (\<lambda>b. bindR (prefixes_encode ps) (\<lambda>bs. Ok (b @ bs)))"

section \<open>LSA bodies\<close>

record RouterLinkV3 =
  rl3_type :: u8
  rl3_metric :: u16
  rl3_interface_id :: u32
  rl3_neighbor_interface_id :: u32
  rl3_neighbor_router_id :: ipv4

definition router_link_v3_parse :: "u8 list \<Rightarrow> RouterLinkV3 parsed3" where
  "router_link_v3_parse data =
     (if length data < 16 then Err (TooShortV3 16 (length data))
      else
        bindR (byte_at data 0) (\<lambda>t.
        bindR (u16_at data 2) (\<lambda>met.
        bindR (u32_at data 4) (\<lambda>iid.
        bindR (u32_at data 8) (\<lambda>nid.
        bindR (u32_at data 12) (\<lambda>rid.
        Ok \<lparr>rl3_type = t, rl3_metric = met, rl3_interface_id = iid, rl3_neighbor_interface_id = nid,
            rl3_neighbor_router_id = rid\<rparr>))))))"

definition router_link_v3_encode :: "RouterLinkV3 \<Rightarrow> u8 list" where
  "router_link_v3_encode l =
     [rl3_type l, 0] @ u16_be_bytes (rl3_metric l) @ u32_be_bytes (rl3_interface_id l) @
     u32_be_bytes (rl3_neighbor_interface_id l) @ u32_be_bytes (rl3_neighbor_router_id l)"

definition TYPE_POINT_TO_POINT :: u8 where "TYPE_POINT_TO_POINT = 1"
definition TYPE_TRANSIT_NETWORK :: u8 where "TYPE_TRANSIT_NETWORK = 2"

record RouterLsaV3 =
  r3_flags :: u8
  r3_options :: u32
  r3_links :: "RouterLinkV3 list"

definition V3_FLAG_E :: u8 where "V3_FLAG_E = 0x02"
definition V3_FLAG_B :: u8 where "V3_FLAG_B = 0x01"

definition router_lsa_v3_parse :: "u8 list \<Rightarrow> RouterLsaV3 parsed3" where
  "router_lsa_v3_parse data =
     (if length data < 4 then Err (TooShortV3 4 (length data))
      else
        bindR (byte_at data 0) (\<lambda>fl.
        bindR (u24_at data 1) (\<lambda>opts.
        bindR (parse_fixed 16 router_link_v3_parse data 4) (\<lambda>ls.
        Ok \<lparr>r3_flags = fl, r3_options = opts, r3_links = ls\<rparr>))))"

definition router_lsa_v3_encode :: "RouterLsaV3 \<Rightarrow> u8 list" where
  "router_lsa_v3_encode r =
     [r3_flags r] @ u24_be_bytes (r3_options r) @ concat (map router_link_v3_encode (r3_links r))"

record NetworkLsaV3 =
  n3_options :: u32
  n3_attached_routers :: "ipv4 list"

definition address_parse :: "u8 list \<Rightarrow> ipv4 parsed3" where
  "address_parse data = u32_at data 0"

definition network_lsa_v3_parse :: "u8 list \<Rightarrow> NetworkLsaV3 parsed3" where
  "network_lsa_v3_parse data =
     (if length data < 4 then Err (TooShortV3 4 (length data))
      else
        bindR (u24_at data 1) (\<lambda>opts.
        bindR (parse_fixed 4 address_parse data 4) (\<lambda>rs.
        Ok \<lparr>n3_options = opts, n3_attached_routers = rs\<rparr>)))"

definition network_lsa_v3_encode :: "NetworkLsaV3 \<Rightarrow> u8 list" where
  "network_lsa_v3_encode n =
     [0] @ u24_be_bytes (n3_options n) @ concat (map u32_be_bytes (n3_attached_routers n))"

record LinkLsaV3 =
  ll_priority :: u8
  ll_options :: u32
  ll_address :: ipv6
  ll_prefixes :: "Ospfv3Prefix list"

definition link_lsa_v3_parse :: "u8 list \<Rightarrow> LinkLsaV3 parsed3" where
  "link_lsa_v3_parse data =
     (if length data < 24 then Err (TooShortV3 24 (length data))
      else
        bindR (byte_at data 0) (\<lambda>prio.
        bindR (u24_at data 1) (\<lambda>opts.
        bindR (slice data 4 20) (\<lambda>lla.
        bindR (u32_at data 20) (\<lambda>num.
        bindR (prefixes_parse (unat num) data 24) (\<lambda>ps.
        Ok \<lparr>ll_priority = prio, ll_options = opts, ll_address = ipv6_from lla, ll_prefixes = ps\<rparr>))))))"

definition link_lsa_v3_encode :: "LinkLsaV3 \<Rightarrow> u8 list parsed3" where
  "link_lsa_v3_encode l =
     bindR (prefixes_encode (ll_prefixes l)) (\<lambda>ps.
     Ok ([ll_priority l] @ u24_be_bytes (ll_options l) @ ipv6_octets (ll_address l) @
         u32_be_bytes (word_of_nat (length (ll_prefixes l))) @ ps))"

record IntraAreaPrefixLsaV3 =
  iap_ls_type :: u16
  iap_lsid :: ipv4
  iap_adv :: ipv4
  iap_prefixes :: "Ospfv3Prefix list"

definition intra_area_prefix_parse :: "u8 list \<Rightarrow> IntraAreaPrefixLsaV3 parsed3" where
  "intra_area_prefix_parse data =
     (if length data < 12 then Err (TooShortV3 12 (length data))
      else
        bindR (u16_at data 0) (\<lambda>num.
        bindR (u16_at data 2) (\<lambda>t.
        bindR (u32_at data 4) (\<lambda>lsid.
        bindR (u32_at data 8) (\<lambda>adv.
        bindR (prefixes_parse (unat num) data 12) (\<lambda>ps.
        Ok \<lparr>iap_ls_type = t, iap_lsid = lsid, iap_adv = adv, iap_prefixes = ps\<rparr>))))))"

definition intra_area_prefix_encode :: "IntraAreaPrefixLsaV3 \<Rightarrow> u8 list parsed3" where
  "intra_area_prefix_encode l =
     bindR (prefixes_encode (iap_prefixes l)) (\<lambda>ps.
     Ok (u16_be_bytes (word_of_nat (length (iap_prefixes l))) @ u16_be_bytes (iap_ls_type l) @
         u32_be_bytes (iap_lsid l) @ u32_be_bytes (iap_adv l) @ ps))"

record InterAreaPrefixLsaV3 =
  iep_metric :: u32
  iep_prefix :: Ospfv3Prefix

definition inter_area_prefix_parse :: "u8 list \<Rightarrow> InterAreaPrefixLsaV3 parsed3" where
  "inter_area_prefix_parse data =
     (if length data < 4 then Err (TooShortV3 4 (length data))
      else
        bindR (u24_at data 1) (\<lambda>met.
        bindR (slice_from data 4) (\<lambda>s.
        bindR (prefix_parse s) (\<lambda>(p, _).
        Ok \<lparr>iep_metric = met, iep_prefix = p\<rparr>))))"

definition inter_area_prefix_encode :: "InterAreaPrefixLsaV3 \<Rightarrow> u8 list parsed3" where
  "inter_area_prefix_encode l =
     bindR (prefix_encode (iep_prefix l)) (\<lambda>p. Ok ([0] @ u24_be_bytes (iep_metric l) @ p))"

record AsExternalLsaV3 =
  ae_type_2 :: bool
  ae_fwd_present :: bool
  ae_tag_present :: bool
  ae_metric :: u32
  ae_prefix :: Ospfv3Prefix
  ae_ls_type :: u16
  ae_fwd :: "ipv6 option"
  ae_tag :: "u32 option"
  ae_lsid :: "ipv4 option"

definition AE_FLAG_E :: u8 where "AE_FLAG_E = 0x04"
definition AE_FLAG_F :: u8 where "AE_FLAG_F = 0x02"
definition AE_FLAG_T :: u8 where "AE_FLAG_T = 0x01"

text \<open>An optional field: present when \<open>b\<close> holds, and then \<open>w\<close> bytes long.\<close>

definition optional_field ::
  "bool \<Rightarrow> nat \<Rightarrow> (u8 list \<Rightarrow> nat \<Rightarrow> 'a parsed3) \<Rightarrow> u8 list \<Rightarrow> nat \<Rightarrow> ('a option \<times> nat) parsed3" where
  "optional_field b w f data off =
     (if b then
        (if length data < off + w then Err (TooShortV3 (off + w) (length data))
         else bindR (f data off) (\<lambda>x. Ok (Some x, off + w)))
      else Ok (None, off))"

definition as_external_v3_parse :: "u8 list \<Rightarrow> AsExternalLsaV3 parsed3" where
  "as_external_v3_parse data =
     (if length data < 4 then Err (TooShortV3 4 (length data))
      else
        bindR (byte_at data 0) (\<lambda>fl.
        bindR (u24_at data 1) (\<lambda>met.
        bindR (slice_from data 4) (\<lambda>s.
        bindR (prefix_parse s) (\<lambda>(p, consumed).
        bindR (optional_field (fl AND AE_FLAG_F \<noteq> 0) 16
                (\<lambda>d off. bindR (slice d off (off + 16)) (\<lambda>bs. Ok (ipv6_from bs))) data (4 + consumed)) (\<lambda>(fwd, off).
        bindR (optional_field (fl AND AE_FLAG_T \<noteq> 0) 4 u32_at data off) (\<lambda>(tag, off).
        bindR (optional_field (pf_metric p \<noteq> 0) 4 u32_at data off) (\<lambda>(lsid, _).
        Ok \<lparr>ae_type_2 = (fl AND AE_FLAG_E \<noteq> 0), ae_fwd_present = (fl AND AE_FLAG_F \<noteq> 0),
            ae_tag_present = (fl AND AE_FLAG_T \<noteq> 0), ae_metric = met, ae_prefix = p,
            ae_ls_type = pf_metric p, ae_fwd = fwd, ae_tag = tag, ae_lsid = lsid\<rparr>))))))))"

definition option_bytes :: "('a \<Rightarrow> u8 list) \<Rightarrow> 'a option \<Rightarrow> u8 list" where
  "option_bytes f x = (case x of None \<Rightarrow> [] | Some v \<Rightarrow> f v)"

definition as_external_v3_encode :: "AsExternalLsaV3 \<Rightarrow> u8 list parsed3" where
  "as_external_v3_encode a =
     (let flags = (if ae_type_2 a then AE_FLAG_E else 0) OR (if ae_fwd_present a then AE_FLAG_F else 0) OR
            (if ae_tag_present a then AE_FLAG_T else 0)
      in bindR (prefix_encode ((ae_prefix a)\<lparr>pf_metric := ae_ls_type a\<rparr>)) (\<lambda>p.
         Ok ([flags] @ u24_be_bytes (ae_metric a) @ p @ option_bytes ipv6_octets (ae_fwd a) @
             option_bytes u32_be_bytes (ae_tag a) @ option_bytes u32_be_bytes (ae_lsid a))))"

section \<open>Addresses survive\<close>

lemma bit_ipv6_from:
  "bit (ipv6_from bs) n \<longleftrightarrow> n < 128 \<and> n < 8 * length bs \<and> bit (rev bs ! (n div 8)) (n mod 8)"
proof (induction bs arbitrary: n rule: rev_induct)
  case (snoc b bs)
  show ?case
  proof (cases "n < 8")
    case True
    then show ?thesis by (simp add: ipv6_from_def bit_simps)
  next
    case False
    then have "n div 8 = Suc ((n - 8) div 8)" "n mod 8 = (n - 8) mod 8"
      by (simp_all add: le_div_geq le_mod_geq)
    with False snoc [of "n - 8"] show ?thesis
      by (auto simp: ipv6_from_def bit_simps not_bit_u8_beyond)
  qed
qed (simp add: ipv6_from_def)

lemma length_ipv6_octets [simp]: "length (ipv6_octets a) = 16"
  by (simp add: ipv6_octets_def)

lemma ipv6_from_octets [simp]: "ipv6_from (ipv6_octets a) = a"
proof (rule bit_word_eqI)
  fix n assume n: "n < LENGTH(128)"
  then have "n div 8 < 16" by simp
  moreover have "[0..<16] ! (15 - n div 8) = 15 - n div 8" by (subst nth_upt) simp_all
  ultimately have "rev (ipv6_octets a) ! (n div 8) = ucast (drop_bit (8 * (n div 8)) a)"
    by (simp add: rev_nth ipv6_octets_def)
  with n show "bit (ipv6_from (ipv6_octets a)) n = bit a n"
    by (simp add: bit_ipv6_from bit_simps)
qed

section \<open>Round trips\<close>

lemmas codec3_eval = be_bytes_defs read_defs LSA_V3_HEADER_LEN_def

lemma lsa_v3_type_round_trip [simp]: "lsa_v3_type_from_u16 (lsa_v3_type_to_u16 t) = Some t"
  by (cases t) (simp_all add: lsa_v3_type_from_u16_def)

lemma ospfv3_type_round_trip [simp]: "ospfv3_type_from_u8 (ospfv3_type_to_u8 t) = Some t"
  by (cases t) (simp_all add: ospfv3_type_from_u8_def)

lemma ospfv3_header_round_trip:
  "h3_version h = OSPFV3_VERSION \<Longrightarrow> ospfv3_header_parse (ospfv3_header_encode h @ rest) = Ok h"
  by (cases h) (simp add: ospfv3_header_parse_def ospfv3_header_encode_def codec3_eval OSPFV3_HEADER_LEN_def)

interpretation address_codec: fixed_codec 4 u32_be_bytes address_parse
  by unfold_locales (simp_all add: address_parse_def u32_at_Ok, simp_all add: codec3_eval)

interpretation link3_codec: fixed_codec 16 router_link_v3_encode router_link_v3_parse
proof (unfold_locales, goal_cases)
  case (3 l rest)
  then show ?case by (cases l) (simp add: router_link_v3_parse_def router_link_v3_encode_def codec3_eval)
qed (auto simp: router_link_v3_encode_def router_link_v3_parse_def in_bounds bindR_eq_Panic_iff)

interpretation header3_codec: fixed_codec LSA_V3_HEADER_LEN lsa_v3_header_encode lsa_v3_header_parse
proof (unfold_locales, goal_cases)
  case (3 h rest)
  then show ?case
    by (cases h) (simp add: lsa_v3_header_parse_def lsa_v3_header_encode_def codec3_eval del: lsa_v3_type_to_u16.simps)
qed (auto simp: lsa_v3_header_encode_def lsa_v3_header_parse_def LSA_V3_HEADER_LEN_def in_bounds bindR_eq_Panic_iff)

text \<open>A prefix has at most 128 bits, and the octets behind the encoded ones are zero.\<close>

definition wf_prefix :: "Ospfv3Prefix \<Rightarrow> bool" where
  "wf_prefix p \<longleftrightarrow> unat (pf_length p) \<le> 128 \<and>
     drop (prefix_word_count (pf_length p) * 4) (ipv6_octets (pf_address p)) =
       replicate (16 - prefix_word_count (pf_length p) * 4) 0"

lemma prefix_words: "prefix_word_count len * 4 \<le> 16 \<longleftrightarrow> unat len \<le> 128"
  by (auto simp: prefix_word_count_def)

lemma prefix_encode_eq:
  "prefix_encode p =
     (if unat (pf_length p) \<le> 128 then
        Ok ([pf_length p, pf_options p] @ u16_be_bytes (pf_metric p) @
            take (prefix_word_count (pf_length p) * 4) (ipv6_octets (pf_address p)))
      else Panic)"
  using prefix_words [of "pf_length p"] by (auto simp: prefix_encode_def slice_def)

lemma prefix_round_trip:
  assumes "wf_prefix p" and "prefix_encode p = Ok b"
  shows "prefix_parse (b @ rest) = Ok (p, prefix_wire_size p) \<and> length b = prefix_wire_size p"
proof -
  let ?k = "prefix_word_count (pf_length p) * 4"
  have k: "?k \<le> 16" using assms(1) prefix_words by (simp add: wf_prefix_def)
  have b: "b = [pf_length p, pf_options p] @ u16_be_bytes (pf_metric p) @ take ?k (ipv6_octets (pf_address p))"
    using assms(2) by (simp add: prefix_encode_eq split: if_splits)
  have "take ?k (ipv6_octets (pf_address p)) @ replicate (16 - ?k) 0 = ipv6_octets (pf_address p)"
    using assms(1) append_take_drop_id [of ?k "ipv6_octets (pf_address p)"] by (simp add: wf_prefix_def)
  then have a: "ipv6_from (take ?k (ipv6_octets (pf_address p)) @ replicate (16 - ?k) 0) = pf_address p" by simp
  show ?thesis
    using k a by (cases p) (simp add: b prefix_parse_def codec3_eval slice_def prefix_wire_size_def Let_def min_def)
qed

lemma prefixes_round_trip:
  assumes "\<forall>p \<in> set ps. wf_prefix p" and "prefixes_encode ps = Ok b" and "off = length pre"
  shows "prefixes_parse (length ps) (pre @ b @ rest) off = Ok ps"
  using assms
proof (induction ps arbitrary: pre b off)
  case (Cons p ps)
  then obtain b1 b2 where b: "prefix_encode p = Ok b1" "prefixes_encode ps = Ok b2" "b = b1 @ b2"
    by (auto simp: bindR_eq_Ok_iff)
  have p: "prefix_parse (b1 @ b2 @ rest) = Ok (p, prefix_wire_size p)" "length b1 = prefix_wire_size p"
    using prefix_round_trip [OF _ b(1)] Cons.prems(1) by auto
  then have "0 < length b1" by (simp add: prefix_wire_size_def)
  moreover have "prefixes_parse (length ps) ((pre @ b1) @ b2 @ rest) (off + prefix_wire_size p) = Ok ps"
    by (rule Cons.IH) (use Cons.prems b p(2) in simp_all)
  ultimately show ?case using Cons.prems(3) p(1) by (simp add: b(3) slice_from_def)
qed simp

lemma router_lsa_v3_round_trip:
  assumes "unat (r3_options r) < 2 ^ 24"
  shows "router_lsa_v3_parse (router_lsa_v3_encode r) = Ok r"
proof -
  let ?pre = "[r3_flags r] @ u24_be_bytes (r3_options r)"
  have "parse_fixed 16 router_link_v3_parse (?pre @ concat (map router_link_v3_encode (r3_links r)) @ []) 4 = Ok (r3_links r)"
    by (rule link3_codec.parse_fixed_round_trip) simp_all
  then show ?thesis
    using u24_fits [OF assms] by (cases r) (simp add: router_lsa_v3_parse_def router_lsa_v3_encode_def codec3_eval u24_of_be_bytes)
qed

lemma network_lsa_v3_round_trip:
  assumes "unat (n3_options n) < 2 ^ 24"
  shows "network_lsa_v3_parse (network_lsa_v3_encode n) = Ok n"
proof -
  let ?pre = "[0] @ u24_be_bytes (n3_options n)"
  have "parse_fixed 4 address_parse (?pre @ concat (map u32_be_bytes (n3_attached_routers n)) @ []) 4 = Ok (n3_attached_routers n)"
    by (rule address_codec.parse_fixed_round_trip) simp_all
  then show ?thesis
    using u24_fits [OF assms] by (cases n) (simp add: network_lsa_v3_parse_def network_lsa_v3_encode_def read_defs
        u24_be_bytes_def u24_of_be_bytes)
qed

lemma link_lsa_v3_round_trip:
  assumes "unat (ll_options l) < 2 ^ 24" and "\<forall>p \<in> set (ll_prefixes l). wf_prefix p"
    and "length (ll_prefixes l) < 2 ^ 32" and "link_lsa_v3_encode l = Ok b"
  shows "link_lsa_v3_parse b = Ok l"
proof -
  let ?n = "word_of_nat (length (ll_prefixes l)) :: u32"
  let ?pre = "[ll_priority l] @ u24_be_bytes (ll_options l) @ ipv6_octets (ll_address l) @ u32_be_bytes ?n"
  from assms(4) obtain ps where ps: "prefixes_encode (ll_prefixes l) = Ok ps" and b: "b = ?pre @ ps"
    by (auto simp: link_lsa_v3_encode_def bindR_eq_Ok_iff)
  have n: "unat ?n = length (ll_prefixes l)" using assms(3) by (simp add: unat_of_nat)
  have "prefixes_parse (length (ll_prefixes l)) (?pre @ ps @ []) 24 = Ok (ll_prefixes l)"
    by (rule prefixes_round_trip [OF assms(2) ps]) simp
  then show ?thesis
    using u24_fits [OF assms(1)] n
    by (cases l) (simp add: b link_lsa_v3_parse_def codec3_eval u24_of_be_bytes slice_def byte_at_append)
qed

lemma intra_area_prefix_round_trip:
  assumes "\<forall>p \<in> set (iap_prefixes l). wf_prefix p" and "length (iap_prefixes l) < 2 ^ 16"
    and "intra_area_prefix_encode l = Ok b"
  shows "intra_area_prefix_parse b = Ok l"
proof -
  let ?n = "word_of_nat (length (iap_prefixes l)) :: u16"
  let ?pre = "u16_be_bytes ?n @ u16_be_bytes (iap_ls_type l) @ u32_be_bytes (iap_lsid l) @ u32_be_bytes (iap_adv l)"
  from assms(3) obtain ps where ps: "prefixes_encode (iap_prefixes l) = Ok ps" and b: "b = ?pre @ ps"
    by (auto simp: intra_area_prefix_encode_def bindR_eq_Ok_iff)
  have n: "unat ?n = length (iap_prefixes l)" using assms(2) by (simp add: unat_of_nat)
  have "prefixes_parse (length (iap_prefixes l)) (?pre @ ps @ []) 12 = Ok (iap_prefixes l)"
    by (rule prefixes_round_trip [OF assms(1) ps]) simp
  then show ?thesis
    using n by (cases l) (simp add: b intra_area_prefix_parse_def codec3_eval)
qed

lemma inter_area_prefix_round_trip:
  assumes "unat (iep_metric l) < 2 ^ 24" and "wf_prefix (iep_prefix l)" and "inter_area_prefix_encode l = Ok b"
  shows "inter_area_prefix_parse b = Ok l"
proof -
  from assms(3) obtain p where p: "prefix_encode (iep_prefix l) = Ok p" and b: "b = [0] @ u24_be_bytes (iep_metric l) @ p"
    by (auto simp: inter_area_prefix_encode_def bindR_eq_Ok_iff)
  have "prefix_parse p = Ok (iep_prefix l, prefix_wire_size (iep_prefix l))"
    using prefix_round_trip [OF assms(2) p, of "[]"] by simp
  then show ?thesis
    using u24_fits [OF assms(1)]
    by (cases l) (simp add: b inter_area_prefix_parse_def codec3_eval u24_of_be_bytes slice_from_def)
qed

text \<open>The presence flags agree with the fields, and the reference type is the one in the prefix.\<close>

definition wf_external :: "AsExternalLsaV3 \<Rightarrow> bool" where
  "wf_external a \<longleftrightarrow> unat (ae_metric a) < 2 ^ 24 \<and> wf_prefix (ae_prefix a) \<and> pf_metric (ae_prefix a) = ae_ls_type a \<and>
     ae_fwd_present a = (ae_fwd a \<noteq> None) \<and> ae_tag_present a = (ae_tag a \<noteq> None) \<and> (ae_ls_type a \<noteq> 0) = (ae_lsid a \<noteq> None)"

lemma optional_v6:
  "optional_field (x \<noteq> None) 16 (\<lambda>d off. bindR (slice d off (off + 16)) (\<lambda>bs. Ok (ipv6_from bs)))
     (pre @ option_bytes ipv6_octets x @ rest) (length pre) = Ok (x, length pre + length (option_bytes ipv6_octets x))"
  by (cases x) (simp_all add: optional_field_def option_bytes_def slice_def)

lemma optional_u32:
  "optional_field (x \<noteq> None) 4 u32_at (pre @ option_bytes u32_be_bytes x @ rest) (length pre) =
     Ok (x, length pre + length (option_bytes u32_be_bytes x))"
  by (cases x) (simp_all add: optional_field_def option_bytes_def read_defs u32_be_bytes_def byte_at_append)

lemma as_external_v3_round_trip:
  assumes "wf_external a" and "as_external_v3_encode a = Ok b"
  shows "as_external_v3_parse b = Ok a"
proof -
  let ?fl = "(if ae_type_2 a then AE_FLAG_E else 0) OR (if ae_fwd_present a then AE_FLAG_F else 0) OR
    (if ae_tag_present a then AE_FLAG_T else 0)"
  have flags: "(?fl AND AE_FLAG_E \<noteq> 0) = ae_type_2 a" "(?fl AND AE_FLAG_F \<noteq> 0) = (ae_fwd a \<noteq> None)"
      "(?fl AND AE_FLAG_T \<noteq> 0) = (ae_tag a \<noteq> None)"
    using assms(1) by (auto simp: wf_external_def AE_FLAG_E_def AE_FLAG_F_def AE_FLAG_T_def)
  define fl where "fl = ?fl"
  have same: "(ae_prefix a)\<lparr>pf_metric := ae_ls_type a\<rparr> = ae_prefix a"
    using assms(1) by (simp add: wf_external_def Ospfv3Prefix.equality)
  let ?o1 = "option_bytes ipv6_octets (ae_fwd a)" and ?o2 = "option_bytes u32_be_bytes (ae_tag a)"
    and ?o3 = "option_bytes u32_be_bytes (ae_lsid a)"
  from assms(2) obtain p where p: "prefix_encode (ae_prefix a) = Ok p"
      and b: "b = [fl] @ u24_be_bytes (ae_metric a) @ p @ ?o1 @ ?o2 @ ?o3"
    by (auto simp: as_external_v3_encode_def Let_def bindR_eq_Ok_iff same fl_def)
  have pp: "prefix_parse (p @ ?o1 @ ?o2 @ ?o3) = Ok (ae_prefix a, length p)"
    using prefix_round_trip [OF _ p, of "?o1 @ ?o2 @ ?o3"] assms(1) by (simp add: wf_external_def)
  let ?pre = "[fl] @ u24_be_bytes (ae_metric a) @ p"
  have pre: "length ?pre = 4 + length p" by simp
  note o = optional_v6 [of "ae_fwd a" ?pre "?o2 @ ?o3"] optional_u32 [of "ae_tag a" "?pre @ ?o1" ?o3]
    optional_u32 [of "ae_lsid a" "?pre @ ?o1 @ ?o2" "[]"]
  have "(pf_metric (ae_prefix a) \<noteq> 0) = (ae_lsid a \<noteq> None)" using assms(1) by (simp add: wf_external_def)
  moreover have "bindR (byte_at b 0) f = f fl" "bindR (u24_at b 1) g = g (ae_metric a)" "bindR (slice_from b 4) h = h (p @ ?o1 @ ?o2 @ ?o3)"
    for f :: "u8 \<Rightarrow> AsExternalLsaV3 parsed3" and g :: "u32 \<Rightarrow> AsExternalLsaV3 parsed3" and h :: "u8 list \<Rightarrow> AsExternalLsaV3 parsed3"
    using u24_fits [of "ae_metric a"] assms(1)
    by (simp_all add: b read_defs u24_be_bytes_def u24_of_be_bytes slice_from_def wf_external_def)
  moreover have "length b \<ge> 4" by (simp add: b)
  ultimately show ?thesis
    using o pp assms(1) flags [folded fl_def] unfolding as_external_v3_parse_def
    by (cases a) (simp add: b add.assoc wf_external_def)
qed

section \<open>Untrusted bytes\<close>

lemma prefix_no_panic: "prefix_parse data \<noteq> Panic"
  by (auto simp: prefix_parse_def Let_def in_bounds bindR_eq_Panic_iff)

lemma prefixes_no_panic: "prefixes_parse n data off \<noteq> Panic"
  by (induction n data off rule: prefixes_parse.induct)
    (auto simp: bindR_eq_Panic_iff slice_from_def prefix_no_panic)

lemma optional_no_panic:
  "(length data \<ge> off + w \<Longrightarrow> f data off \<noteq> Panic) \<Longrightarrow> optional_field b w f data off \<noteq> Panic"
  by (auto simp: optional_field_def bindR_eq_Panic_iff)

lemma as_external_v3_no_panic: "as_external_v3_parse data \<noteq> Panic"
  by (auto simp: as_external_v3_parse_def in_bounds bindR_eq_Panic_iff prefix_no_panic intro!: optional_no_panic)

end
