(* ===== verification/Packets_V3.thy ===== *)
theory Packets_V3
  imports Codec_V3
begin

text \<open>
  The packet bodies of OSPFv3 (\<^verbatim>\<open>src/packet_v3/hello.rs\<close>, \<^verbatim>\<open>dd.rs\<close>, \<^verbatim>\<open>lsr.rs\<close>, \<^verbatim>\<open>lsu.rs\<close>, \<^verbatim>\<open>lsack.rs\<close>), and what
  holds of the whole codec: everything written is read back, no parser panics, and the one encoder that
  can panic does so exactly on prefixes longer than an address.
\<close>

section \<open>Hello\<close>

definition HELLO_V3_MIN_LEN :: nat where
  "HELLO_V3_MIN_LEN = 20"

text \<open>\<^verbatim>\<open>Options::standard()\<close>: V6, E and R.\<close>

definition options_v3_standard :: u32 where
  "options_v3_standard = 0x01 OR 0x02 OR 0x10"

record HelloV3Packet =
  hv_interface_id :: u32
  hv_router_priority :: u8
  hv_options :: u32
  hv_hello_interval :: u16
  hv_router_dead_interval :: u16
  hv_dr :: ipv4
  hv_bdr :: ipv4
  hv_neighbors :: "ipv4 list"

definition hello_v3_parse :: "u8 list \<Rightarrow> HelloV3Packet parsed3" where
  "hello_v3_parse data =
     (if length data < HELLO_V3_MIN_LEN then Err (TooShortV3 HELLO_V3_MIN_LEN (length data))
      else
        bindR (u32_at data 0) (\<lambda>iid.
        bindR (byte_at data 4) (\<lambda>prio.
        bindR (u24_at data 5) (\<lambda>opts.
        bindR (u16_at data 8) (\<lambda>hi.
        bindR (u16_at data 10) (\<lambda>di.
        bindR (u32_at data 12) (\<lambda>dr.
        bindR (u32_at data 16) (\<lambda>bdr.
        bindR (parse_fixed 4 address_parse data HELLO_V3_MIN_LEN) (\<lambda>ns.
        Ok \<lparr>hv_interface_id = iid, hv_router_priority = prio, hv_options = opts, hv_hello_interval = hi,
            hv_router_dead_interval = di, hv_dr = dr, hv_bdr = bdr, hv_neighbors = ns\<rparr>)))))))))"

definition hello_v3_encode :: "HelloV3Packet \<Rightarrow> u8 list" where
  "hello_v3_encode p =
     u32_be_bytes (hv_interface_id p) @ [hv_router_priority p] @ u24_be_bytes (hv_options p) @
     u16_be_bytes (hv_hello_interval p) @ u16_be_bytes (hv_router_dead_interval p) @
     u32_be_bytes (hv_dr p) @ u32_be_bytes (hv_bdr p) @ concat (map u32_be_bytes (hv_neighbors p))"

section \<open>Database Description\<close>

definition DD_V3_MIN_LEN :: nat where
  "DD_V3_MIN_LEN = 12"

definition DD_V3_FLAG_MS :: u8 where "DD_V3_FLAG_MS = 0x01"
definition DD_V3_FLAG_M :: u8 where "DD_V3_FLAG_M = 0x02"
definition DD_V3_FLAG_I :: u8 where "DD_V3_FLAG_I = 0x04"

record DbDescV3Packet =
  dv_options :: u32
  dv_interface_mtu :: u16
  dv_flags :: u8
  dv_sequence_number :: u32
  dv_lsa_headers :: "LsaV3Header list"

definition dd_v3_is_master :: "DbDescV3Packet \<Rightarrow> bool" where
  "dd_v3_is_master p \<longleftrightarrow> dv_flags p AND DD_V3_FLAG_MS \<noteq> 0"

definition dd_v3_has_more :: "DbDescV3Packet \<Rightarrow> bool" where
  "dd_v3_has_more p \<longleftrightarrow> dv_flags p AND DD_V3_FLAG_M \<noteq> 0"

definition dd_v3_is_init :: "DbDescV3Packet \<Rightarrow> bool" where
  "dd_v3_is_init p \<longleftrightarrow> dv_flags p AND DD_V3_FLAG_I \<noteq> 0"

definition dd_v3_parse :: "u8 list \<Rightarrow> DbDescV3Packet parsed3" where
  "dd_v3_parse data =
     (if length data < DD_V3_MIN_LEN then Err (TooShortV3 DD_V3_MIN_LEN (length data))
      else
        bindR (u24_at data 1) (\<lambda>opts.
        bindR (u16_at data 4) (\<lambda>mtu.
        bindR (byte_at data 7) (\<lambda>fl.
        bindR (u32_at data 8) (\<lambda>sq.
        bindR (parse_fixed LSA_V3_HEADER_LEN lsa_v3_header_parse data DD_V3_MIN_LEN) (\<lambda>hs.
        Ok \<lparr>dv_options = opts, dv_interface_mtu = mtu, dv_flags = fl, dv_sequence_number = sq,
            dv_lsa_headers = hs\<rparr>))))))"

definition dd_v3_encode :: "DbDescV3Packet \<Rightarrow> u8 list" where
  "dd_v3_encode p =
     [0] @ u24_be_bytes (dv_options p) @ u16_be_bytes (dv_interface_mtu p) @ [0, dv_flags p] @
     u32_be_bytes (dv_sequence_number p) @ concat (map lsa_v3_header_encode (dv_lsa_headers p))"

section \<open>Link State Request and Acknowledgment\<close>

definition LS_REQUEST_V3_ENTRY_LEN :: nat where
  "LS_REQUEST_V3_ENTRY_LEN = 12"

record LsRequestV3 =
  rq3_type :: LsaV3Type
  rq3_lsid :: ipv4
  rq3_adv :: ipv4

definition ls_request_v3_parse :: "u8 list \<Rightarrow> LsRequestV3 parsed3" where
  "ls_request_v3_parse data =
     (if length data < LS_REQUEST_V3_ENTRY_LEN then Err (TooShortV3 LS_REQUEST_V3_ENTRY_LEN (length data))
      else
        bindR (u16_at data 2) (\<lambda>t.
        bindR (ok_or (lsa_v3_type_from_u16 t) (BadLsaTypeV3 t)) (\<lambda>ty.
        bindR (u32_at data 4) (\<lambda>lsid.
        bindR (u32_at data 8) (\<lambda>adv.
        Ok \<lparr>rq3_type = ty, rq3_lsid = lsid, rq3_adv = adv\<rparr>)))))"

definition ls_request_v3_encode :: "LsRequestV3 \<Rightarrow> u8 list" where
  "ls_request_v3_encode r =
     [0, 0] @ u16_be_bytes (lsa_v3_type_to_u16 (rq3_type r)) @ u32_be_bytes (rq3_lsid r) @ u32_be_bytes (rq3_adv r)"

definition lsr_v3_parse :: "u8 list \<Rightarrow> LsRequestV3 list parsed3" where
  "lsr_v3_parse data = parse_fixed LS_REQUEST_V3_ENTRY_LEN ls_request_v3_parse data 0"

definition lsr_v3_encode :: "LsRequestV3 list \<Rightarrow> u8 list" where
  "lsr_v3_encode rs = concat (map ls_request_v3_encode rs)"

definition ls_ack_v3_parse :: "u8 list \<Rightarrow> LsaV3Header list parsed3" where
  "ls_ack_v3_parse data = parse_fixed LSA_V3_HEADER_LEN lsa_v3_header_parse data 0"

definition ls_ack_v3_encode :: "LsaV3Header list \<Rightarrow> u8 list" where
  "ls_ack_v3_encode hs = concat (map lsa_v3_header_encode hs)"

section \<open>Link State Update\<close>

text \<open>An LSA is carried as its header and all its bytes, the header's included.\<close>

record LsaV3Raw =
  raw_header :: LsaV3Header
  raw_bytes :: "u8 list"

definition LSU_V3_MIN_LEN :: nat where
  "LSU_V3_MIN_LEN = 4"

fun lsu_v3_lsas_parse :: "nat \<Rightarrow> u8 list \<Rightarrow> nat \<Rightarrow> LsaV3Raw list parsed3" where
  "lsu_v3_lsas_parse 0 data off = Ok []"
| "lsu_v3_lsas_parse (Suc n) data off =
     (if off + LSA_V3_HEADER_LEN > length data then Err (TooShortV3 (off + LSA_V3_HEADER_LEN) (length data))
      else
        bindR (slice_from data off) (\<lambda>s.
        bindR (lsa_v3_header_parse s) (\<lambda>h.
        (let len = unat (l3_length h) in
         if off + len > length data \<or> len < LSA_V3_HEADER_LEN then Err (TooShortV3 (off + len) (length data))
         else
           bindR (slice data off (off + len)) (\<lambda>raw.
           bindR (lsu_v3_lsas_parse n data (off + len)) (\<lambda>ls.
           Ok (\<lparr>raw_header = h, raw_bytes = raw\<rparr> # ls)))))))"

definition lsu_v3_parse :: "u8 list \<Rightarrow> LsaV3Raw list parsed3" where
  "lsu_v3_parse data =
     (if length data < LSU_V3_MIN_LEN then Err (TooShortV3 LSU_V3_MIN_LEN (length data))
      else
        bindR (u32_at data 0) (\<lambda>count. lsu_v3_lsas_parse (unat count) data LSU_V3_MIN_LEN))"

definition lsu_v3_encode :: "LsaV3Raw list \<Rightarrow> u8 list" where
  "lsu_v3_encode ls = u32_be_bytes (word_of_nat (length ls)) @ concat (map raw_bytes ls)"

section \<open>Round trips\<close>

lemma hello_v3_round_trip:
  assumes "unat (hv_options p) < 2 ^ 24"
  shows "hello_v3_parse (hello_v3_encode p) = Ok p"
proof -
  let ?pre = "u32_be_bytes (hv_interface_id p) @ [hv_router_priority p] @ u24_be_bytes (hv_options p) @
     u16_be_bytes (hv_hello_interval p) @ u16_be_bytes (hv_router_dead_interval p) @
     u32_be_bytes (hv_dr p) @ u32_be_bytes (hv_bdr p)"
  define ns where "ns = concat (map u32_be_bytes (hv_neighbors p))"
  have "parse_fixed 4 address_parse (?pre @ concat (map u32_be_bytes (hv_neighbors p)) @ []) 20 = Ok (hv_neighbors p)"
    by (rule address_codec.parse_fixed_round_trip) simp_all
  then have "parse_fixed 4 address_parse (?pre @ ns) 20 = Ok (hv_neighbors p)" by (simp add: ns_def)
  moreover have "hello_v3_encode p = ?pre @ ns" by (simp add: hello_v3_encode_def ns_def)
  ultimately show ?thesis
    using u24_fits [OF assms] by (cases p) (simp add: hello_v3_parse_def codec3_eval HELLO_V3_MIN_LEN_def u24_of_be_bytes)
qed

lemma dd_v3_round_trip:
  assumes "unat (dv_options p) < 2 ^ 24"
  shows "dd_v3_parse (dd_v3_encode p) = Ok p"
proof -
  let ?pre = "[0] @ u24_be_bytes (dv_options p) @ u16_be_bytes (dv_interface_mtu p) @ [0, dv_flags p] @
     u32_be_bytes (dv_sequence_number p)"
  define hs where "hs = concat (map lsa_v3_header_encode (dv_lsa_headers p))"
  have "parse_fixed LSA_V3_HEADER_LEN lsa_v3_header_parse (?pre @ concat (map lsa_v3_header_encode (dv_lsa_headers p)) @ []) 12 =
      Ok (dv_lsa_headers p)"
    by (rule header3_codec.parse_fixed_round_trip) (simp_all add: LSA_V3_HEADER_LEN_def)
  then have "parse_fixed LSA_V3_HEADER_LEN lsa_v3_header_parse (?pre @ hs) 12 = Ok (dv_lsa_headers p)" by (simp add: hs_def)
  moreover have "dd_v3_encode p = ?pre @ hs" by (simp add: dd_v3_encode_def hs_def)
  ultimately show ?thesis
    using u24_fits [OF assms] by (cases p) (simp add: dd_v3_parse_def be_bytes_defs read_defs DD_V3_MIN_LEN_def u24_of_be_bytes)
qed

interpretation request3_codec: fixed_codec LS_REQUEST_V3_ENTRY_LEN ls_request_v3_encode ls_request_v3_parse
proof (unfold_locales, goal_cases)
  case (3 r rest)
  then show ?case
    by (cases r) (simp add: ls_request_v3_parse_def ls_request_v3_encode_def codec3_eval LS_REQUEST_V3_ENTRY_LEN_def
        del: lsa_v3_type_to_u16.simps)
qed (auto simp: ls_request_v3_encode_def ls_request_v3_parse_def LS_REQUEST_V3_ENTRY_LEN_def in_bounds bindR_eq_Panic_iff)

lemma lsr_v3_round_trip: "lsr_v3_parse (lsr_v3_encode rs) = Ok rs"
  using request3_codec.parse_fixed_round_trip [of "[]" 0 "[]" rs]
  by (simp add: lsr_v3_parse_def lsr_v3_encode_def LS_REQUEST_V3_ENTRY_LEN_def)

lemma ls_ack_v3_round_trip: "ls_ack_v3_parse (ls_ack_v3_encode hs) = Ok hs"
  using header3_codec.parse_fixed_round_trip [of "[]" 0 "[]" hs]
  by (simp add: ls_ack_v3_parse_def ls_ack_v3_encode_def LSA_V3_HEADER_LEN_def)

text \<open>The bytes of a raw LSA start with its header, and their number is the length it declares.\<close>

definition wf_raw :: "LsaV3Raw \<Rightarrow> bool" where
  "wf_raw l \<longleftrightarrow> take LSA_V3_HEADER_LEN (raw_bytes l) = lsa_v3_header_encode (raw_header l) \<and>
     unat (l3_length (raw_header l)) = length (raw_bytes l)"

lemma wf_raw_cases:
  assumes "wf_raw l"
  obtains body where "raw_bytes l = lsa_v3_header_encode (raw_header l) @ body"
    and "LSA_V3_HEADER_LEN \<le> length (raw_bytes l)" and "unat (l3_length (raw_header l)) = length (raw_bytes l)"
proof -
  from assms have "raw_bytes l = lsa_v3_header_encode (raw_header l) @ drop LSA_V3_HEADER_LEN (raw_bytes l)"
    by (metis append_take_drop_id wf_raw_def)
  moreover from arg_cong [OF this, of length] have "LSA_V3_HEADER_LEN \<le> length (raw_bytes l)"
    by (simp add: header3_codec.length_enc)
  ultimately show ?thesis using that assms by (simp add: wf_raw_def)
qed

lemma lsu_v3_lsas_round_trip:
  assumes "\<forall>l \<in> set ls. wf_raw l" and "off = length pre"
  shows "lsu_v3_lsas_parse (length ls) (pre @ concat (map raw_bytes ls)) off = Ok ls"
  using assms
proof (induction ls arbitrary: pre off)
  case (Cons l ls)
  obtain body where l: "raw_bytes l = lsa_v3_header_encode (raw_header l) @ body"
      "LSA_V3_HEADER_LEN \<le> length (raw_bytes l)" "unat (l3_length (raw_header l)) = length (raw_bytes l)"
    using wf_raw_cases [of l] Cons.prems(1) by auto
  have "lsa_v3_header_parse (raw_bytes l @ concat (map raw_bytes ls)) = Ok (raw_header l)"
    unfolding l(1) append_assoc by (rule header3_codec.dec_enc)
  moreover have "lsu_v3_lsas_parse (length ls) ((pre @ raw_bytes l) @ concat (map raw_bytes ls)) (off + length (raw_bytes l)) = Ok ls"
    by (rule Cons.IH) (use Cons.prems in simp_all)
  ultimately show ?case
    using Cons.prems(2) l(2,3) by (cases l) (simp add: slice_from_def slice_def Let_def)
qed simp

lemma lsu_v3_round_trip:
  assumes "\<forall>l \<in> set ls. wf_raw l" and "length ls < 2 ^ 32"
  shows "lsu_v3_parse (lsu_v3_encode ls) = Ok ls"
proof -
  have n: "unat (word_of_nat (length ls) :: u32) = length ls" using assms(2) by (simp add: unat_of_nat)
  have "lsu_v3_lsas_parse (length ls) (u32_be_bytes (word_of_nat (length ls)) @ concat (map raw_bytes ls)) 4 = Ok ls"
    by (rule lsu_v3_lsas_round_trip [OF assms(1)]) simp
  then show ?thesis
    by (simp add: lsu_v3_parse_def lsu_v3_encode_def LSU_V3_MIN_LEN_def n codec3_eval)
qed

text \<open>Conversely, whatever an update is parsed into has this shape.\<close>

lemma lsu_v3_lsas_wf:
  "lsu_v3_lsas_parse n data off = Ok ls \<Longrightarrow>
   \<forall>l \<in> set ls. unat (l3_length (raw_header l)) = length (raw_bytes l) \<and> LSA_V3_HEADER_LEN \<le> length (raw_bytes l) \<and>
     lsa_v3_header_parse (raw_bytes l) = Ok (raw_header l)"
proof (induction n arbitrary: off ls)
  case (Suc n)
  from Suc.prems obtain h raw ms where h: "lsa_v3_header_parse (drop off data) = Ok h"
      and len: "off + unat (l3_length h) \<le> length data" "LSA_V3_HEADER_LEN \<le> unat (l3_length h)"
      and raw: "raw = take (unat (l3_length h)) (drop off data)"
      and ms: "lsu_v3_lsas_parse n data (off + unat (l3_length h)) = Ok ms" and ls: "ls = \<lparr>raw_header = h, raw_bytes = raw\<rparr> # ms"
    by (auto simp: slice_from_def slice_def Let_def bindR_eq_Ok_iff split: if_splits)
  have "lsa_v3_header_parse raw = Ok h"
    using h len by (simp add: raw lsa_v3_header_parse_def LSA_V3_HEADER_LEN_def read_defs byte_at_def split: if_splits)
  with Suc.IH [OF ms] len show ?case by (simp add: ls raw)
qed simp

text \<open>
  C27. Every OSPFv3 packet written is read back: the header, Hello, Database Description, Request,
  Acknowledgment and Update, with options of 24 bits and LSAs whose bytes are those of their header.
\<close>

theorem v3_packets_round_trip:
  assumes "h3_version h = OSPFV3_VERSION" and "unat (hv_options hello) < 2 ^ 24" and "unat (dv_options dd) < 2 ^ 24"
    and "\<forall>l \<in> set ls. wf_raw l" and "length ls < 2 ^ 32"
  shows "ospfv3_header_parse (ospfv3_header_encode h @ rest) = Ok h \<and>
    hello_v3_parse (hello_v3_encode hello) = Ok hello \<and> dd_v3_parse (dd_v3_encode dd) = Ok dd \<and>
    lsr_v3_parse (lsr_v3_encode rs) = Ok rs \<and> ls_ack_v3_parse (ls_ack_v3_encode hs) = Ok hs \<and>
    lsu_v3_parse (lsu_v3_encode ls) = Ok ls"
  using assms by (simp add: ospfv3_header_round_trip hello_v3_round_trip dd_v3_round_trip lsr_v3_round_trip
      ls_ack_v3_round_trip lsu_v3_round_trip)

lemma prefixes_encode_total: "\<forall>p \<in> set ps. wf_prefix p \<Longrightarrow> \<exists>b. prefixes_encode ps = Ok b"
  by (induction ps) (auto simp: prefix_encode_eq wf_prefix_def)

lemma v3_bodies_encode:
  "\<forall>p \<in> set (ll_prefixes l). wf_prefix p \<Longrightarrow> \<exists>b. link_lsa_v3_encode l = Ok b"
  "\<forall>p \<in> set (iap_prefixes i). wf_prefix p \<Longrightarrow> \<exists>b. intra_area_prefix_encode i = Ok b"
  "wf_prefix (iep_prefix e) \<Longrightarrow> \<exists>b. inter_area_prefix_encode e = Ok b"
  "wf_external a \<Longrightarrow> \<exists>b. as_external_v3_encode a = Ok b"
  using prefixes_encode_total
  by (fastforce simp: link_lsa_v3_encode_def intra_area_prefix_encode_def inter_area_prefix_encode_def
      as_external_v3_encode_def prefix_encode_eq wf_prefix_def wf_external_def Let_def)+

text \<open>
  Every OSPFv3 LSA body is written without a panic and read back, where options and metrics
  fit into 24 bits, prefixes have at most 128 bits and are cut to whole words, and optional fields agree with their flags.
\<close>

theorem v3_bodies_round_trip:
  assumes "unat (r3_options r) < 2 ^ 24" and "unat (n3_options n) < 2 ^ 24"
    and "unat (ll_options l) < 2 ^ 24 \<and> length (ll_prefixes l) < 2 ^ 32 \<and> (\<forall>p \<in> set (ll_prefixes l). wf_prefix p)"
    and "length (iap_prefixes i) < 2 ^ 16 \<and> (\<forall>p \<in> set (iap_prefixes i). wf_prefix p)"
    and "unat (iep_metric e) < 2 ^ 24 \<and> wf_prefix (iep_prefix e)" and "wf_external a"
  shows "router_lsa_v3_parse (router_lsa_v3_encode r) = Ok r \<and> network_lsa_v3_parse (network_lsa_v3_encode n) = Ok n \<and>
    (\<exists>b. link_lsa_v3_encode l = Ok b \<and> link_lsa_v3_parse b = Ok l) \<and>
    (\<exists>b. intra_area_prefix_encode i = Ok b \<and> intra_area_prefix_parse b = Ok i) \<and>
    (\<exists>b. inter_area_prefix_encode e = Ok b \<and> inter_area_prefix_parse b = Ok e) \<and>
    (\<exists>b. as_external_v3_encode a = Ok b \<and> as_external_v3_parse b = Ok a)"
  using assms v3_bodies_encode router_lsa_v3_round_trip network_lsa_v3_round_trip link_lsa_v3_round_trip
    intra_area_prefix_round_trip inter_area_prefix_round_trip as_external_v3_round_trip by meson

section \<open>Untrusted bytes\<close>

lemma lsa_v3_header_no_panic: "lsa_v3_header_parse data \<noteq> Panic"
  by (auto simp: lsa_v3_header_parse_def LSA_V3_HEADER_LEN_def in_bounds bindR_eq_Panic_iff)

lemma lsu_v3_lsas_no_panic: "lsu_v3_lsas_parse n data off \<noteq> Panic"
proof (induction n arbitrary: off)
  case (Suc n)
  then show ?case
    by (auto simp: bindR_eq_Panic_iff slice_from_def slice_def Let_def LSA_V3_HEADER_LEN_def lsa_v3_header_no_panic)
qed simp

text \<open>
  C28. No OSPFv3 parser panics, whatever bytes arrive; the link is not authenticated, so any host on it
  can send them.
\<close>

theorem v3_parsers_no_panic:
  "ospfv3_header_parse data \<noteq> Panic \<and> hello_v3_parse data \<noteq> Panic \<and> dd_v3_parse data \<noteq> Panic \<and>
   lsr_v3_parse data \<noteq> Panic \<and> ls_ack_v3_parse data \<noteq> Panic \<and> lsu_v3_parse data \<noteq> Panic \<and>
   router_lsa_v3_parse data \<noteq> Panic \<and> network_lsa_v3_parse data \<noteq> Panic \<and> link_lsa_v3_parse data \<noteq> Panic \<and>
   intra_area_prefix_parse data \<noteq> Panic \<and> inter_area_prefix_parse data \<noteq> Panic \<and> as_external_v3_parse data \<noteq> Panic"
proof (intro conjI)
  show "ospfv3_header_parse data \<noteq> Panic"
    by (auto simp: ospfv3_header_parse_def OSPFV3_HEADER_LEN_def in_bounds bindR_eq_Panic_iff)
  show "hello_v3_parse data \<noteq> Panic"
    by (auto simp: hello_v3_parse_def HELLO_V3_MIN_LEN_def in_bounds bindR_eq_Panic_iff address_codec.run_no_panic)
  show "dd_v3_parse data \<noteq> Panic"
    by (auto simp: dd_v3_parse_def DD_V3_MIN_LEN_def in_bounds bindR_eq_Panic_iff header3_codec.run_no_panic)
  show "lsr_v3_parse data \<noteq> Panic" "ls_ack_v3_parse data \<noteq> Panic"
    by (simp_all add: lsr_v3_parse_def ls_ack_v3_parse_def request3_codec.run_no_panic header3_codec.run_no_panic)
  show "lsu_v3_parse data \<noteq> Panic"
    by (auto simp: lsu_v3_parse_def LSU_V3_MIN_LEN_def in_bounds lsu_v3_lsas_no_panic)
  show "router_lsa_v3_parse data \<noteq> Panic" "network_lsa_v3_parse data \<noteq> Panic"
    by (auto simp: router_lsa_v3_parse_def network_lsa_v3_parse_def in_bounds bindR_eq_Panic_iff
        link3_codec.run_no_panic address_codec.run_no_panic)
  show "link_lsa_v3_parse data \<noteq> Panic" "intra_area_prefix_parse data \<noteq> Panic" "inter_area_prefix_parse data \<noteq> Panic"
    by (auto simp: link_lsa_v3_parse_def intra_area_prefix_parse_def inter_area_prefix_parse_def in_bounds
        bindR_eq_Panic_iff prefixes_no_panic prefix_no_panic)
qed (rule as_external_v3_no_panic)

text \<open>
  Encoding a prefix panics exactly when its length exceeds 128 bits, and the parser accepts such a
  prefix: a prefix taken from a received LSA cannot be written again safely.
\<close>

theorem prefix_encode_panics:
  "(prefix_encode p = Panic \<longleftrightarrow> 128 < unat (pf_length p)) \<and>
   (\<exists>data q. prefix_parse data = Ok (q, length data) \<and> prefix_encode q = Panic)"
proof
  show "prefix_encode p = Panic \<longleftrightarrow> 128 < unat (pf_length p)" by (auto simp: prefix_encode_eq)
  have "prefix_parse (129 # 0 # 0 # 0 # replicate 20 0) =
      Ok (\<lparr>pf_length = 129, pf_options = 0, pf_metric = u16_of_be 0 0, pf_address = ipv6_from (replicate 16 0)\<rparr>, 24)"
    by (simp add: prefix_parse_def prefix_word_count_def Let_def slice_def read_defs)
  then show "\<exists>data q. prefix_parse data = Ok (q, length data) \<and> prefix_encode q = Panic"
    by (intro exI [of _ "129 # 0 # 0 # 0 # replicate 20 0"]) (simp add: prefix_encode_eq)
qed

section \<open>Witnesses\<close>

definition example_prefix :: Ospfv3Prefix where
  "example_prefix = \<lparr>pf_length = 128, pf_options = 0, pf_metric = 0, pf_address = 0x20010db8000000010000000000000000\<rparr>"

lemma wf_example_prefix: "wf_prefix example_prefix"
  by (simp add: wf_prefix_def example_prefix_def prefix_word_count_def)

theorem v3_packets_round_trip_witness:
  "hello_v3_parse (hello_v3_encode \<lparr>hv_interface_id = 3, hv_router_priority = 1, hv_options = options_v3_standard,
      hv_hello_interval = 10, hv_router_dead_interval = 40, hv_dr = 1, hv_bdr = 2, hv_neighbors = [7]\<rparr>) =
   Ok \<lparr>hv_interface_id = 3, hv_router_priority = 1, hv_options = options_v3_standard,
      hv_hello_interval = 10, hv_router_dead_interval = 40, hv_dr = 1, hv_bdr = 2, hv_neighbors = [7]\<rparr>"
  using v3_packets_round_trip [of "ospfv3_header_new V3_Hello 1 0" "\<lparr>hv_interface_id = 3, hv_router_priority = 1,
      hv_options = options_v3_standard, hv_hello_interval = 10, hv_router_dead_interval = 40, hv_dr = 1, hv_bdr = 2,
      hv_neighbors = [7]\<rparr>" "\<lparr>dv_options = 0, dv_interface_mtu = 1500, dv_flags = 0, dv_sequence_number = 9, dv_lsa_headers = []\<rparr>" "[]"]
  by (simp add: ospfv3_header_new_def options_v3_standard_def)

theorem v3_bodies_round_trip_witness:
  "\<exists>b. intra_area_prefix_encode \<lparr>iap_ls_type = 0x2001, iap_lsid = 0, iap_adv = 1, iap_prefixes = [example_prefix]\<rparr> = Ok b \<and>
     intra_area_prefix_parse b = Ok \<lparr>iap_ls_type = 0x2001, iap_lsid = 0, iap_adv = 1, iap_prefixes = [example_prefix]\<rparr>"
proof -
  have w: "wf_external \<lparr>ae_type_2 = True, ae_fwd_present = False, ae_tag_present = True, ae_metric = 20, ae_prefix = example_prefix,
      ae_ls_type = 0, ae_fwd = None, ae_tag = Some 5, ae_lsid = None\<rparr>"
    using wf_example_prefix by (simp add: wf_external_def) (simp add: example_prefix_def)
  show ?thesis
    using v3_bodies_round_trip [OF _ _ _ _ _ w, of "\<lparr>r3_flags = 0, r3_options = 0, r3_links = []\<rparr>"
        "\<lparr>n3_options = 0, n3_attached_routers = []\<rparr>"
        "\<lparr>ll_priority = 1, ll_options = 0, ll_address = 1, ll_prefixes = [example_prefix]\<rparr>"
        "\<lparr>iap_ls_type = 0x2001, iap_lsid = 0, iap_adv = 1, iap_prefixes = [example_prefix]\<rparr>"
        "\<lparr>iep_metric = 3, iep_prefix = example_prefix\<rparr>"] wf_example_prefix
    by simp
qed

end
