(* ===== verification/Lsdb_V3.thy ===== *)
theory Lsdb_V3
  imports Packets_V3
begin

text \<open>
  \<^verbatim>\<open>src/lsdb_v3.rs\<close>: the OSPFv3 link-state database. LSAs are kept as received, keyed by scope, type,
  link-state id and advertising router; a generation counter tells the daemon when SPF has to run again.
  Unlike the OSPFv2 database this one does not compare instances: \<^verbatim>\<open>insert\<close> always replaces.
\<close>

section \<open>The database\<close>

record LsaKeyV3 =
  k3_area :: "ipv4 option"
  k3_type :: LsaV3Type
  k3_lsid :: ipv4
  k3_adv :: ipv4

record LsaEntryV3 =
  e3_header :: LsaV3Header
  e3_raw :: "u8 list"
  e3_area :: "ipv4 option"

record LsdbV3 =
  entries3 :: "(LsaKeyV3 \<times> LsaEntryV3) list"
  generation3 :: u64

definition lsdb3_new :: LsdbV3 where
  "lsdb3_new = \<lparr>entries3 = [], generation3 = 0\<rparr>"

definition entry3_key :: "LsaEntryV3 \<Rightarrow> LsaKeyV3" where
  "entry3_key e = \<lparr>k3_area = e3_area e, k3_type = l3_type (e3_header e),
     k3_lsid = l3_lsid (e3_header e), k3_adv = l3_adv (e3_header e)\<rparr>"

text \<open>Whether the entry is another instance than the one held.\<close>

definition lsdb3_changed :: "LsaEntryV3 \<Rightarrow> LsdbV3 \<Rightarrow> bool" where
  "lsdb3_changed e db =
     (case map_of (entries3 db) (entry3_key e) of
        Some existing \<Rightarrow>
          l3_seq (e3_header existing) \<noteq> l3_seq (e3_header e) \<or>
          l3_checksum (e3_header existing) \<noteq> l3_checksum (e3_header e)
      | None \<Rightarrow> True)"

definition lsdb3_insert :: "LsaEntryV3 \<Rightarrow> LsdbV3 \<Rightarrow> LsdbV3" where
  "lsdb3_insert e db =
     \<lparr>entries3 = AList.update (entry3_key e) e (entries3 db),
      generation3 = (if lsdb3_changed e db then generation3 db + 1 else generation3 db)\<rparr>"

definition lsdb3_get :: "LsdbV3 \<Rightarrow> LsaKeyV3 \<Rightarrow> LsaEntryV3 option" where
  "lsdb3_get db k = map_of (entries3 db) k"

definition lsdb3_len :: "LsdbV3 \<Rightarrow> nat" where
  "lsdb3_len db = length (entries3 db)"

definition lsdb3_is_empty :: "LsdbV3 \<Rightarrow> bool" where
  "lsdb3_is_empty db \<longleftrightarrow> entries3 db = []"

definition lsdb3_iter :: "LsdbV3 \<Rightarrow> LsaEntryV3 list" where
  "lsdb3_iter db = map snd (entries3 db)"

definition lsdb3_headers :: "LsdbV3 \<Rightarrow> LsaV3Header list" where
  "lsdb3_headers db = map e3_header (lsdb3_iter db)"

section \<open>Invariant\<close>

text \<open>Keys are distinct and every entry lies under its own key.\<close>

definition lsdb3_inv :: "LsdbV3 \<Rightarrow> bool" where
  "lsdb3_inv db \<longleftrightarrow> distinct (map fst (entries3 db)) \<and> (\<forall>(k, e) \<in> set (entries3 db). k = entry3_key e)"

lemma lsdb3_inv_new [simp]: "lsdb3_inv lsdb3_new"
  by (simp add: lsdb3_inv_def lsdb3_new_def)

lemma lsdb3_inv_insert [simp]: "lsdb3_inv db \<Longrightarrow> lsdb3_inv (lsdb3_insert e db)"
  using hm.all_insert [of "entries3 db" "\<lambda>k e. k = entry3_key e" "entry3_key e" e]
  by (simp add: lsdb3_inv_def lsdb3_insert_def distinct_update)

lemma lsdb3_get_insert:
  "lsdb3_get (lsdb3_insert e db) k = (if k = entry3_key e then Some e else lsdb3_get db k)"
  by (simp add: lsdb3_get_def lsdb3_insert_def update_conv')

lemma lsdb3_get_key: "lsdb3_inv db \<Longrightarrow> lsdb3_get db k = Some e \<Longrightarrow> entry3_key e = k"
  by (auto simp: lsdb3_inv_def lsdb3_get_def dest!: map_of_SomeD)

lemma set_lsdb3_iter: "lsdb3_inv db \<Longrightarrow> e \<in> set (lsdb3_iter db) \<longleftrightarrow> lsdb3_get db (entry3_key e) = Some e"
  by (force simp: lsdb3_inv_def lsdb3_get_def lsdb3_iter_def map_of_eq_Some_iff)

section \<open>The generation counter\<close>

text \<open>What SPF reads of an entry beyond its key: which instance it is.\<close>

definition instance3 :: "LsaEntryV3 \<Rightarrow> i32 \<times> u16" where
  "instance3 e = (l3_seq (e3_header e), l3_checksum (e3_header e))"

definition instances3 :: "LsdbV3 \<Rightarrow> LsaKeyV3 \<Rightarrow> (i32 \<times> u16) option" where
  "instances3 db k = map_option instance3 (lsdb3_get db k)"

lemma instances3_insert: "instances3 (lsdb3_insert e db) = (instances3 db)(entry3_key e \<mapsto> instance3 e)"
  by (simp add: fun_eq_iff instances3_def lsdb3_get_insert)

lemma lsdb3_changed_iff: "lsdb3_changed e db \<longleftrightarrow> instances3 (lsdb3_insert e db) \<noteq> instances3 db"
proof -
  have "(instances3 db)(entry3_key e \<mapsto> instance3 e) = instances3 db \<longleftrightarrow> instances3 db (entry3_key e) = Some (instance3 e)"
    by (metis fun_upd_same fun_upd_triv)
  then show ?thesis
    by (auto simp: instances3_insert lsdb3_changed_def instances3_def lsdb3_get_def instance3_def split: option.split)
qed

text \<open>How many of the insertions change the instances held.\<close>

fun content_changes :: "LsaEntryV3 list \<Rightarrow> LsdbV3 \<Rightarrow> nat" where
  "content_changes [] db = 0"
| "content_changes (e # es) db =
     (if instances3 (lsdb3_insert e db) \<noteq> instances3 db then 1 else 0) + content_changes es (lsdb3_insert e db)"

lemma generation3_counts:
  "generation3 (fold lsdb3_insert es db) = generation3 db + word_of_nat (content_changes es db)"
proof (induction es arbitrary: db)
  case (Cons e es)
  have "generation3 (lsdb3_insert e db) =
      generation3 db + word_of_nat (if instances3 (lsdb3_insert e db) \<noteq> instances3 db then 1 else 0)"
    using lsdb3_changed_iff [of e db] by (simp add: lsdb3_insert_def)
  with Cons show ?case by simp
qed simp

lemma content_changes_zero: "content_changes es db = 0 \<Longrightarrow> instances3 (fold lsdb3_insert es db) = instances3 db"
  by (induction es arbitrary: db) (auto split: if_splits)

lemma content_changes_le: "content_changes es db \<le> length es"
  by (induction es arbitrary: db) (auto intro: le_SucI)

text \<open>
  The database is a map from keys to entries in which an insertion always replaces, whatever instance
  was held. The generation counter rises by one for every insertion that changes which instance is held
  under a key and by nothing else; so a daemon that sees the same value again after fewer than \<open>2^64\<close>
  insertions has missed no change.
\<close>

theorem lsdb3_insert_refines:
  "lsdb3_get (lsdb3_insert e db) = (lsdb3_get db)(entry3_key e \<mapsto> e) \<and>
   generation3 (fold lsdb3_insert es db) = generation3 db + word_of_nat (content_changes es db) \<and>
   (length es < 2 ^ 64 \<longrightarrow> generation3 (fold lsdb3_insert es db) = generation3 db \<longrightarrow>
      instances3 (fold lsdb3_insert es db) = instances3 db)"
proof (intro conjI impI)
  show "lsdb3_get (lsdb3_insert e db) = (lsdb3_get db)(entry3_key e \<mapsto> e)"
    by (simp add: fun_eq_iff lsdb3_get_insert)
  show "generation3 (fold lsdb3_insert es db) = generation3 db + word_of_nat (content_changes es db)"
    by (rule generation3_counts)
  assume len: "length es < 2 ^ 64" and "generation3 (fold lsdb3_insert es db) = generation3 db"
  then have "(word_of_nat (content_changes es db) :: u64) = 0" by (simp add: generation3_counts)
  then have "content_changes es db mod 2 ^ 64 = 0" using unat_of_nat [of "content_changes es db", where 'a = 64] by simp
  moreover have "content_changes es db < 2 ^ 64" using content_changes_le [of es db] len by linarith
  ultimately show "instances3 (fold lsdb3_insert es db) = instances3 db"
    by (intro content_changes_zero) simp
qed

definition example_entry3 :: "i32 \<Rightarrow> u16 \<Rightarrow> LsaEntryV3" where
  "example_entry3 seq ck = \<lparr>e3_header = \<lparr>l3_age = 0, l3_type = IntraAreaPrefixV3, l3_lsid = 5, l3_adv = 9, l3_seq = seq,
     l3_checksum = ck, l3_length = 24\<rparr>, e3_raw = replicate 24 0, e3_area = Some 0\<rparr>"

theorem lsdb3_insert_refines_witness:
  "instances3 (fold lsdb3_insert [example_entry3 1 7, example_entry3 1 7] (lsdb3_insert (example_entry3 1 7) lsdb3_new)) =
     instances3 (lsdb3_insert (example_entry3 1 7) lsdb3_new)"
  using lsdb3_insert_refines [of _ "lsdb3_insert (example_entry3 1 7) lsdb3_new" "[example_entry3 1 7, example_entry3 1 7]"]
  by (simp add: lsdb3_insert_def lsdb3_new_def lsdb3_changed_def example_entry3_def entry3_key_def)

end
