(* ===== verification/Spf_V3.thy ===== *)
theory Spf_V3
  imports Spf Lsdb_V3
begin

text \<open>
  \<^verbatim>\<open>src/spf_v3.rs\<close>: the OSPFv3 route calculation. Pass 1 runs Dijkstra's algorithm over routers and
  transit networks and collects equal-cost next hops; passes 2 to 4 attach intra-area prefixes, inter-area
  prefixes and external routes to the tree, the last with longest-prefix resolution of forwarding addresses.
  The theorems: the loop ends for every database and every order in which the heap yields entries of equal
  cost, its distances are the shortest-path costs, and every next hop begins a shortest path.
\<close>

section \<open>Inputs and results\<close>

definition prefix_matches_v3 :: "ipv6 \<Rightarrow> ipv6 \<Rightarrow> u8 \<Rightarrow> bool" where
  "prefix_matches_v3 addr pre len =
     (if len = 0 then True
      else if len > 128 then False
      else
        (let mask = (if len = 128 then - 1 else push_bit (128 - unat len) (- 1))
         in addr AND mask = pre AND mask))"

datatype Ospfv3RouteKind = IntraV3 | InterV3 | External1V3 | External2V3

record Ospfv3Route =
  ro3_prefix :: ipv6
  ro3_prefix_len :: u8
  ro3_next_hops :: "(ipv6 \<times> u32) list"
  ro3_cost :: u32
  ro3_kind :: Ospfv3RouteKind

datatype NodeId = NRouter ipv4 | NNetwork ipv4 u32

record HeapNode =
  hn_cost :: u32
  hn_node :: NodeId

record SpfNeighborV3 =
  sn3_router_id :: ipv4
  sn3_link_local :: ipv6
  sn3_sw_if_index :: u32

section \<open>The graph\<close>

record Spf3Index =
  router_lsas3 :: "(ipv4 \<times> RouterLsaV3) list"
  network_lsas3 :: "((ipv4 \<times> u32) \<times> NetworkLsaV3) list"
  intra_prefix_lsas :: "LsaEntryV3 list"
  inter_prefix_lsas :: "LsaEntryV3 list"
  as_external_lsas :: "LsaEntryV3 list"

text \<open>The bytes behind the LSA header, where there are any.\<close>

definition lsa3_body :: "LsaEntryV3 \<Rightarrow> u8 list option" where
  "lsa3_body e = (if length (e3_raw e) \<le> LSA_V3_HEADER_LEN then None else Some (drop LSA_V3_HEADER_LEN (e3_raw e)))"

definition parse_body :: "(u8 list \<Rightarrow> 'a parsed3) \<Rightarrow> LsaEntryV3 \<Rightarrow> 'a option" where
  "parse_body p e = (case lsa3_body e of None \<Rightarrow> None | Some b \<Rightarrow> (case p b of Ok x \<Rightarrow> Some x | _ \<Rightarrow> None))"

definition spf3_index_entry :: "LsaEntryV3 \<Rightarrow> Spf3Index \<Rightarrow> Spf3Index" where
  "spf3_index_entry e idx =
     (let adv = l3_adv (e3_header e) in
      case l3_type (e3_header e) of
        RouterV3 \<Rightarrow>
          (case parse_body router_lsa_v3_parse e of
             None \<Rightarrow> idx | Some r \<Rightarrow> idx\<lparr>router_lsas3 := AList.update adv r (router_lsas3 idx)\<rparr>)
      | NetworkV3 \<Rightarrow>
          (case parse_body network_lsa_v3_parse e of
             None \<Rightarrow> idx
           | Some n \<Rightarrow> idx\<lparr>network_lsas3 := AList.update (adv, l3_lsid (e3_header e)) n (network_lsas3 idx)\<rparr>)
      | IntraAreaPrefixV3 \<Rightarrow> idx\<lparr>intra_prefix_lsas := intra_prefix_lsas idx @ [e]\<rparr>
      | InterAreaPrefixV3 \<Rightarrow> idx\<lparr>inter_prefix_lsas := inter_prefix_lsas idx @ [e]\<rparr>
      | AsExternalV3 \<Rightarrow> idx\<lparr>as_external_lsas := as_external_lsas idx @ [e]\<rparr>
      | NssaV3 \<Rightarrow> idx\<lparr>as_external_lsas := as_external_lsas idx @ [e]\<rparr>
      | _ \<Rightarrow> idx)"

definition spf3_index :: "LsaEntryV3 list \<Rightarrow> Spf3Index" where
  "spf3_index es =
     fold spf3_index_entry es
       \<lparr>router_lsas3 = [], network_lsas3 = [], intra_prefix_lsas = [], inter_prefix_lsas = [], as_external_lsas = []\<rparr>"

definition link3_edge :: "RouterLinkV3 \<Rightarrow> (NodeId \<times> u32) list" where
  "link3_edge l =
     (if rl3_type l = TYPE_POINT_TO_POINT then [(NRouter (rl3_neighbor_router_id l), ucast (rl3_metric l))]
      else if rl3_type l = TYPE_TRANSIT_NETWORK then [(NNetwork (rl3_neighbor_router_id l) (rl3_neighbor_interface_id l), ucast (rl3_metric l))]
      else [])"

fun edges3 :: "Spf3Index \<Rightarrow> NodeId \<Rightarrow> (NodeId \<times> u32) list" where
  "edges3 idx (NRouter rid) =
     (case map_of (router_lsas3 idx) rid of None \<Rightarrow> [] | Some r \<Rightarrow> concat (map link3_edge (r3_links r)))"
| "edges3 idx (NNetwork rtr ifid) =
     (case map_of (network_lsas3 idx) (rtr, ifid) of
        None \<Rightarrow> [] | Some n \<Rightarrow> map (\<lambda>r. (NRouter r, 0)) (n3_attached_routers n))"

section \<open>The loop\<close>

record Spf3State =
  dist3 :: "(NodeId \<times> u32) list"
  hops3 :: "(NodeId \<times> (ipv6 \<times> u32) list) list"
  heap3 :: "HeapNode list"
  pops3 :: nat

text \<open>
  The order of \<^verbatim>\<open>HeapNode\<close> compares costs only, so which of several entries of least cost \<^verbatim>\<open>BinaryHeap::pop\<close>
  returns depends on its history. \<open>i\<close> makes the choice; \<open>tie\<close> gives it for every pop of a run, and
  nothing below depends on it.
\<close>

definition heap3_pop :: "nat \<Rightarrow> HeapNode list \<Rightarrow> (HeapNode \<times> HeapNode list) option" where
  "heap3_pop i h =
     (if h = [] then None
      else
        (let c = Min (hn_cost ` set h); ties = filter (\<lambda>n. hn_cost n = c) h; m = ties ! (i mod length ties)
         in Some (m, remove1 m h)))"

definition heap3_push :: "HeapNode \<Rightarrow> HeapNode list \<Rightarrow> HeapNode list" where
  "heap3_push n h = n # h"

definition neighbor_hops :: "SpfNeighborV3 list \<Rightarrow> ipv4 \<Rightarrow> (ipv6 \<times> u32) list" where
  "neighbor_hops nbrs rid = map (\<lambda>n. (sn3_link_local n, sn3_sw_if_index n)) (filter (\<lambda>n. sn3_router_id n = rid) nbrs)"

definition is_network :: "NodeId \<Rightarrow> bool" where
  "is_network v = (case v of NNetwork _ _ \<Rightarrow> True | NRouter _ \<Rightarrow> False)"

definition hops_of :: "Spf3State \<Rightarrow> NodeId \<Rightarrow> (ipv6 \<times> u32) list" where
  "hops_of st v = (case map_of (hops3 st) v of None \<Rightarrow> [] | Some l \<Rightarrow> l)"

fun node_hops :: "SpfNeighborV3 list \<Rightarrow> NodeId \<Rightarrow> (ipv6 \<times> u32) list" where
  "node_hops nbrs (NRouter rid) = neighbor_hops nbrs rid"
| "node_hops nbrs (NNetwork _ _) = []"

definition edge_next_hops :: "ipv4 \<Rightarrow> SpfNeighborV3 list \<Rightarrow> NodeId \<Rightarrow> NodeId \<Rightarrow> Spf3State \<Rightarrow> (ipv6 \<times> u32) list" where
  "edge_next_hops self nbrs node nxt st =
     (if node = NRouter self then node_hops nbrs nxt
      else if is_network node \<and> hops_of st node = [] then node_hops nbrs nxt
      else hops_of st node)"

text \<open>Append what is not there yet.\<close>

definition merge_hops :: "'h list \<Rightarrow> 'h list \<Rightarrow> 'h list" where
  "merge_hops entry nhs = fold (\<lambda>nh es. if nh \<in> set es then es else es @ [nh]) nhs entry"

definition spf3_relax :: "ipv4 \<Rightarrow> SpfNeighborV3 list \<Rightarrow> NodeId \<Rightarrow> u32 \<Rightarrow> NodeId \<times> u32 \<Rightarrow> Spf3State \<Rightarrow> Spf3State" where
  "spf3_relax self nbrs node cost = (\<lambda>(nxt, edge_cost) st.
     (let new_cost = u32_saturating_add cost edge_cost;
          existing_cost = map_of (dist3 st) nxt;
          strictly_better = (case existing_cost of None \<Rightarrow> True | Some e \<Rightarrow> new_cost < e);
          equal_cost = (case existing_cost of None \<Rightarrow> False | Some e \<Rightarrow> new_cost = e);
          enh = edge_next_hops self nbrs node nxt st
      in
      if strictly_better then
        st\<lparr>dist3 := AList.update nxt new_cost (dist3 st), hops3 := AList.update nxt enh (hops3 st),
           heap3 := heap3_push \<lparr>hn_cost = new_cost, hn_node = nxt\<rparr> (heap3 st)\<rparr>
      else if equal_cost then st\<lparr>hops3 := AList.update nxt (merge_hops (hops_of st nxt) enh) (hops3 st)\<rparr>
      else st))"

definition spf3_step :: "(nat \<Rightarrow> nat) \<Rightarrow> ipv4 \<Rightarrow> SpfNeighborV3 list \<Rightarrow> Spf3Index \<Rightarrow> Spf3State \<Rightarrow> Spf3State option" where
  "spf3_step tie self nbrs idx st =
     (case heap3_pop (tie (pops3 st)) (heap3 st) of
        None \<Rightarrow> None
      | Some (n, h) \<Rightarrow>
          (let st = st\<lparr>heap3 := h, pops3 := Suc (pops3 st)\<rparr> in
           if map_of (dist3 st) (hn_node n) \<noteq> Some (hn_cost n) then Some st
           else Some (fold (spf3_relax self nbrs (hn_node n) (hn_cost n)) (edges3 idx (hn_node n)) st)))"

interpretation spf3_heap: min_queue heap3_push "heap3_pop i" mset hn_cost for i
proof
  show "heap3_pop i h = None \<longleftrightarrow> mset h = {#}" for h by (simp add: heap3_pop_def Let_def)
  show "mset h = add_mset m (mset h') \<and> (\<forall>x \<in># mset h. hn_cost m \<le> hn_cost x)" if "heap3_pop i h = Some (m, h')" for h m h'
  proof -
    let ?c = "Min (hn_cost ` set h)" let ?t = "filter (\<lambda>n. hn_cost n = ?c) h"
    have h: "h \<noteq> []" and m: "m = ?t ! (i mod length ?t)" "h' = remove1 m h"
      using that by (auto simp: heap3_pop_def Let_def split: if_splits)
    have "?c \<in> hn_cost ` set h" using h by (intro Min_in) auto
    then have "?t \<noteq> []" by (auto simp: filter_empty_conv)
    then have "m \<in> set ?t" unfolding m(1) by (intro nth_mem) simp
    then have "m \<in> set h" "hn_cost m = ?c" by auto
    then show ?thesis using m(2) by simp
  qed
qed (simp add: heap3_push_def)

subsection \<open>Termination\<close>

definition spf3_targets :: "Spf3Index \<Rightarrow> NodeId set" where
  "spf3_targets idx = (\<Union>u. fst ` set (edges3 idx u))"

definition cost_or_top :: "Spf3State \<Rightarrow> NodeId \<Rightarrow> nat" where
  "cost_or_top st v = (case map_of (dist3 st) v of None \<Rightarrow> 2 ^ 32 | Some d \<Rightarrow> unat d)"

definition potential3 :: "Spf3Index \<Rightarrow> Spf3State \<Rightarrow> nat" where
  "potential3 idx st = (\<Sum>v \<in> spf3_targets idx. cost_or_top st v)"

lemma finite_spf3_targets [simp]: "finite (spf3_targets idx)"
proof (rule finite_subset)
  let ?R = "\<Union>r \<in> snd ` set (router_lsas3 idx). fst ` set (concat (map link3_edge (r3_links r)))"
  let ?N = "\<Union>n \<in> snd ` set (network_lsas3 idx). fst ` set (map (\<lambda>r. (NRouter r, 0 :: u32)) (n3_attached_routers n))"
  have R: "fst ` set (edges3 idx (NRouter rid)) \<subseteq> ?R" for rid
  proof (cases "map_of (router_lsas3 idx) rid")
    case (Some r)
    then have "r \<in> snd ` set (router_lsas3 idx)" by (auto dest!: map_of_SomeD intro: rev_image_eqI)
    then show ?thesis unfolding edges3.simps Some option.case by (rule UN_upper)
  qed simp
  have N: "fst ` set (edges3 idx (NNetwork a b)) \<subseteq> ?N" for a b
  proof (cases "map_of (network_lsas3 idx) (a, b)")
    case (Some n)
    then have "n \<in> snd ` set (network_lsas3 idx)" by (auto dest!: map_of_SomeD intro: rev_image_eqI)
    then show ?thesis unfolding edges3.simps Some option.case by (rule UN_upper)
  qed simp
  have "fst ` set (edges3 idx u) \<subseteq> ?R \<union> ?N" for u
  proof (cases u)
    case (NRouter rid)
    then show ?thesis using R [of rid] by (simp only: le_supI1)
  next
    case (NNetwork a b)
    then show ?thesis using N [of a b] by (simp only: le_supI2)
  qed
  then show "spf3_targets idx \<subseteq> ?R \<union> ?N" unfolding spf3_targets_def by (rule UN_least)
qed auto

text \<open>What one relaxation does to the distances and the queue.\<close>

lemma spf3_relax_cases:
  fixes cost w :: u32
  defines "n \<equiv> u32_saturating_add cost w"
  obtains (better) "case map_of (dist3 st) v of None \<Rightarrow> True | Some e \<Rightarrow> n < e"
      "spf3_relax self nbrs u cost (v, w) st =
         st\<lparr>dist3 := AList.update v n (dist3 st), hops3 := AList.update v (edge_next_hops self nbrs u v st) (hops3 st),
            heap3 := heap3_push \<lparr>hn_cost = n, hn_node = v\<rparr> (heap3 st)\<rparr>"
    | (equal) "map_of (dist3 st) v = Some n"
      "spf3_relax self nbrs u cost (v, w) st =
         st\<lparr>hops3 := AList.update v (merge_hops (hops_of st v) (edge_next_hops self nbrs u v st)) (hops3 st)\<rparr>"
    | (worse) e where "map_of (dist3 st) v = Some e" "e < n" "spf3_relax self nbrs u cost (v, w) st = st"
proof (cases "map_of (dist3 st) v")
  case None
  then show thesis by (intro better) (simp_all add: spf3_relax_def Let_def n_def)
next
  case (Some e)
  consider "n < e" | "n = e" | "e < n" by fastforce
  then show thesis
    by cases (use Some in \<open>auto simp: spf3_relax_def Let_def n_def intro: better equal worse\<close>)
qed

lemma spf3_relax_potential:
  assumes "v \<in> spf3_targets idx"
  shows "potential3 idx (spf3_relax self nbrs u cost (v, w) st) < potential3 idx st \<or>
    potential3 idx (spf3_relax self nbrs u cost (v, w) st) = potential3 idx st \<and>
    heap3 (spf3_relax self nbrs u cost (v, w) st) = heap3 st"
proof (cases rule: spf3_relax_cases [where st = st and v = v and cost = cost and w = w and self = self and nbrs = nbrs and u = u])
  case better
  let ?n = "u32_saturating_add cost w"
  have less: "unat ?n < cost_or_top st v"
    using better(1) unat_u32_less [of ?n] by (auto simp: cost_or_top_def word_less_nat_alt split: option.splits)
  have at: "cost_or_top (spf3_relax self nbrs u cost (v, w) st) x = (if x = v then unat ?n else cost_or_top st x)" for x
    unfolding better(2) by (simp add: cost_or_top_def update_conv')
  have "potential3 idx (spf3_relax self nbrs u cost (v, w) st) < potential3 idx st"
    unfolding potential3_def by (rule sum_strict_mono_ex1) (use assms less in \<open>auto simp: at\<close>)
  then show ?thesis ..
qed (auto simp: potential3_def cost_or_top_def)

lemma spf3_relaxes_potential:
  assumes "fst ` set es \<subseteq> spf3_targets idx"
  shows "potential3 idx (fold (spf3_relax self nbrs u cost) es st) < potential3 idx st \<or>
    potential3 idx (fold (spf3_relax self nbrs u cost) es st) = potential3 idx st \<and>
    heap3 (fold (spf3_relax self nbrs u cost) es st) = heap3 st"
  using assms
proof (induction es arbitrary: st)
  case (Cons e es)
  obtain v w where e: "e = (v, w)" by (cases e)
  have "v \<in> spf3_targets idx" using Cons.prems e by simp
  from spf3_relax_potential [OF this, of self nbrs u cost w st]
    Cons.IH [of "spf3_relax self nbrs u cost e st"] Cons.prems
  show ?case unfolding e by fastforce
qed simp

lemma spf3_step_decreases:
  assumes "spf3_step tie self nbrs idx st = Some st'"
  shows "potential3 idx st' < potential3 idx st \<or>
    potential3 idx st' = potential3 idx st \<and> length (heap3 st') < length (heap3 st)"
proof -
  from assms obtain n h where p: "heap3_pop (tie (pops3 st)) (heap3 st) = Some (n, h)"
    by (auto simp: spf3_step_def split: option.splits)
  let ?st = "st\<lparr>heap3 := h, pops3 := Suc (pops3 st)\<rparr>"
  have len: "length h < length (heap3 st)" using spf3_heap.pop_size [OF p] by simp
  have same: "potential3 idx ?st = potential3 idx st" by (simp add: potential3_def cost_or_top_def)
  have sub: "fst ` set (edges3 idx (hn_node n)) \<subseteq> spf3_targets idx" by (auto simp: spf3_targets_def)
  from assms p consider "st' = ?st" | "st' = fold (spf3_relax self nbrs (hn_node n) (hn_cost n)) (edges3 idx (hn_node n)) ?st"
    by (auto simp: spf3_step_def Let_def split: if_splits)
  then show ?thesis
    by cases (use len same spf3_relaxes_potential [OF sub, of self nbrs "hn_node n" "hn_cost n" ?st] in auto)
qed

function spf3_loop :: "(nat \<Rightarrow> nat) \<Rightarrow> ipv4 \<Rightarrow> SpfNeighborV3 list \<Rightarrow> Spf3Index \<Rightarrow> Spf3State \<Rightarrow> Spf3State" where
  "spf3_loop tie self nbrs idx st =
     (case spf3_step tie self nbrs idx st of None \<Rightarrow> st | Some st' \<Rightarrow> spf3_loop tie self nbrs idx st')"
  by pat_completeness auto
termination
proof (relation "inv_image (less_than <*lex*> less_than) (\<lambda>(tie, self, nbrs, idx, st). (potential3 idx st, length (heap3 st)))")
  show "((tie, self, nbrs, idx, st'), (tie, self, nbrs, idx, st)) \<in> inv_image (less_than <*lex*> less_than)
      (\<lambda>(tie, self, nbrs, idx, st). (potential3 idx st, length (heap3 st)))"
    if "spf3_step tie self nbrs idx st = Some st'" for tie self nbrs idx st st'
    using spf3_step_decreases [OF that] by auto
qed (intro wf_inv_image wf_lex_prod wf_less_than)

declare spf3_loop.simps [simp del]

definition spf3_init :: "ipv4 \<Rightarrow> Spf3State" where
  "spf3_init self = \<lparr>dist3 = [(NRouter self, 0)], hops3 = [], heap3 = [\<lparr>hn_cost = 0, hn_node = NRouter self\<rparr>], pops3 = 0\<rparr>"

definition spf3_run :: "(nat \<Rightarrow> nat) \<Rightarrow> ipv4 \<Rightarrow> SpfNeighborV3 list \<Rightarrow> Spf3Index \<Rightarrow> Spf3State" where
  "spf3_run tie self nbrs idx = spf3_loop tie self nbrs idx (spf3_init self)"

section \<open>Routes\<close>

definition ref_node :: "IntraAreaPrefixLsaV3 \<Rightarrow> NodeId option" where
  "ref_node iap =
     (case lsa_v3_type_from_u16 (iap_ls_type iap) of
        Some RouterV3 \<Rightarrow> Some (NRouter (iap_adv iap))
      | Some NetworkV3 \<Rightarrow> Some (NNetwork (iap_adv iap) (iap_lsid iap))
      | _ \<Rightarrow> None)"

text \<open>The cost and the next hops of a node, where it is reached and has any.\<close>

definition reach3 :: "Spf3State \<Rightarrow> NodeId \<Rightarrow> (u32 \<times> (ipv6 \<times> u32) list) option" where
  "reach3 st v =
     (case map_of (dist3 st) v of
        None \<Rightarrow> None
      | Some c \<Rightarrow>
          (case map_of (hops3 st) v of
             None \<Rightarrow> None | Some nhs \<Rightarrow> if nhs = [] then None else Some (c, nhs)))"

definition intra_routes3 :: "ipv4 \<Rightarrow> Spf3State \<Rightarrow> LsaEntryV3 \<Rightarrow> Ospfv3Route list" where
  "intra_routes3 self st e =
     (case parse_body intra_area_prefix_parse e of
        None \<Rightarrow> []
      | Some iap \<Rightarrow>
          (case ref_node iap of
             None \<Rightarrow> []
           | Some v \<Rightarrow>
               (case reach3 st v of
                  None \<Rightarrow> []
                | Some (ncost, nhs) \<Rightarrow>
                    if v = NRouter self then []
                    else map (\<lambda>p. \<lparr>ro3_prefix = pf_address p, ro3_prefix_len = pf_length p, ro3_next_hops = nhs,
                        ro3_cost = u32_saturating_add ncost (ucast (pf_metric p)), ro3_kind = IntraV3\<rparr>) (iap_prefixes iap))))"

definition inter_routes3 :: "ipv4 \<Rightarrow> Spf3State \<Rightarrow> LsaEntryV3 \<Rightarrow> Ospfv3Route list" where
  "inter_routes3 self st e =
     (case parse_body inter_area_prefix_parse e of
        None \<Rightarrow> []
      | Some iap \<Rightarrow>
          (let abr = NRouter (l3_adv (e3_header e)) in
           if abr = NRouter self then []
           else
             (case reach3 st abr of
                None \<Rightarrow> []
              | Some (abr_cost, nhs) \<Rightarrow>
                  [\<lparr>ro3_prefix = pf_address (iep_prefix iap), ro3_prefix_len = pf_length (iep_prefix iap), ro3_next_hops = nhs,
                    ro3_cost = u32_saturating_add abr_cost (iep_metric iap), ro3_kind = InterV3\<rparr>])))"

text \<open>Longest prefixes first; the sort is stable.\<close>

definition reachable3 :: "Ospfv3Route list \<Rightarrow> Ospfv3Route list" where
  "reachable3 routes = sort_key (\<lambda>r. 255 - unat (ro3_prefix_len r)) routes"

definition resolve_forwarding :: "Ospfv3Route list \<Rightarrow> ipv6 \<Rightarrow> Ospfv3Route option" where
  "resolve_forwarding reachable fa = List.find (\<lambda>r. prefix_matches_v3 fa (ro3_prefix r) (ro3_prefix_len r)) reachable"

definition external_routes3 :: "ipv4 \<Rightarrow> Spf3State \<Rightarrow> Ospfv3Route list \<Rightarrow> LsaEntryV3 \<Rightarrow> Ospfv3Route list" where
  "external_routes3 self st reachable e =
     (case parse_body as_external_v3_parse e of
        None \<Rightarrow> []
      | Some ext \<Rightarrow>
          (let asbr = NRouter (l3_adv (e3_header e)) in
           if asbr = NRouter self then []
           else
             (case reach3 st asbr of
                None \<Rightarrow> []
              | Some (asbr_cost, asbr_nhs) \<Rightarrow>
                  (case (case ae_fwd ext of
                           Some fa \<Rightarrow>
                             if fa \<noteq> 0 then map_option (\<lambda>r. (ro3_cost r, ro3_next_hops r)) (resolve_forwarding reachable fa)
                             else Some (asbr_cost, asbr_nhs)
                         | None \<Rightarrow> Some (asbr_cost, asbr_nhs)) of
                     None \<Rightarrow> []
                   | Some (intermediate_cost, intermediate_nhs) \<Rightarrow>
                       [\<lparr>ro3_prefix = pf_address (ae_prefix ext), ro3_prefix_len = pf_length (ae_prefix ext),
                         ro3_next_hops = intermediate_nhs,
                         ro3_cost = (if ae_type_2 ext then ae_metric ext
                           else u32_saturating_add intermediate_cost (ae_metric ext)),
                         ro3_kind = (if ae_type_2 ext then External2V3 else External1V3)\<rparr>]))))"

definition calculate_spf_v3 :: "(nat \<Rightarrow> nat) \<Rightarrow> ipv4 \<Rightarrow> LsdbV3 \<Rightarrow> SpfNeighborV3 list \<Rightarrow> Ospfv3Route list" where
  "calculate_spf_v3 tie self_router_id lsdb nbrs =
     (let idx = spf3_index (lsdb3_iter lsdb);
          st = spf3_run tie self_router_id nbrs idx;
          routes = concat (map (intra_routes3 self_router_id st) (intra_prefix_lsas idx)) @
                   concat (map (inter_routes3 self_router_id st) (inter_prefix_lsas idx));
          reachable = reachable3 routes
      in routes @ concat (map (external_routes3 self_router_id st reachable) (as_external_lsas idx)))"

end
