(* ===== verification/Spf_V3_Paths.thy ===== *)
theory Spf_V3_Paths
  imports Spf_V3
begin

text \<open>
  Correctness of the OSPFv3 route calculation: the distances of pass 1 are shortest-path costs, every next
  hop begins a shortest path, the routes of passes 2 to 4 cost what they should, and forwarding addresses are
  resolved by the longest matching prefix. All of it holds for every order of ties in the heap.
\<close>

section \<open>The graph and its paths\<close>

definition spf3_edge :: "Spf3Index \<Rightarrow> NodeId \<Rightarrow> NodeId \<Rightarrow> nat \<Rightarrow> bool" where
  "spf3_edge idx u v w \<longleftrightarrow> (\<exists>c. (v, c) \<in> set (edges3 idx u) \<and> w = unat c)"

interpretation spf3_graph: weighted_graph "spf3_edge idx" "NRouter self" for idx self .

lemma edges3_cost:
  assumes "(v, c) \<in> set (edges3 idx u)"
  shows "unat c \<le> 65535" and "is_network u \<Longrightarrow> c = 0 \<and> (\<exists>r. v = NRouter r)"
proof -
  have m: "unat (ucast (m :: u16) :: u32) \<le> 65535" for m
    using unat_u16_less [of m] by simp
  have l: "(v, c) \<in> set (link3_edge k) \<Longrightarrow> unat c \<le> 65535" for k
    using m by (auto simp: link3_edge_def split: if_splits)
  show "unat c \<le> 65535"
    using assms l by (cases u) (auto split: option.splits)
  show "c = 0 \<and> (\<exists>r. v = NRouter r)" if "is_network u"
    using that assms by (cases u) (auto simp: is_network_def split: option.splits)
qed

text \<open>\<open>nh\<close> is the first hop of a path of cost \<open>n\<close> to \<open>v\<close>: a neighbor at the end of a link of ours, or a
  neighbor on a network of ours.\<close>

inductive first_hop3 :: "Spf3Index \<Rightarrow> ipv4 \<Rightarrow> SpfNeighborV3 list \<Rightarrow> ipv6 \<times> u32 \<Rightarrow> NodeId \<Rightarrow> nat \<Rightarrow> bool"
  for idx self nbrs nh where
  hop_direct: "spf3_edge idx (NRouter self) (NRouter r) w \<Longrightarrow> nh \<in> set (neighbor_hops nbrs r) \<Longrightarrow>
    first_hop3 idx self nbrs nh (NRouter r) w"
| hop_attached: "spf3_edge idx (NRouter self) (NNetwork a b) w \<Longrightarrow> spf3_edge idx (NNetwork a b) (NRouter r) z \<Longrightarrow>
    nh \<in> set (neighbor_hops nbrs r) \<Longrightarrow> first_hop3 idx self nbrs nh (NRouter r) (w + z)"
| hop_step: "first_hop3 idx self nbrs nh u n \<Longrightarrow> spf3_edge idx u v w \<Longrightarrow> first_hop3 idx self nbrs nh v (n + w)"

lemma first_hop3_path: "first_hop3 idx self nbrs nh v n \<Longrightarrow> path_cost (spf3_edge idx) (NRouter self) v n"
proof (induction rule: first_hop3.induct)
  let ?path = "path_cost (spf3_edge idx) (NRouter self)"
  have one: "?path v w" if "spf3_edge idx (NRouter self) v w" for v w
    using path_step [of "spf3_edge idx" "NRouter self", OF path_src that] by simp
  case (hop_direct r w)
  then show ?case by (intro one)
next
  case (hop_attached a b w r z)
  then show ?case
    using path_step [of "spf3_edge idx" "NRouter self" _ w] path_step [of "spf3_edge idx" "NRouter self" _ 0, OF path_src]
    by fastforce
qed (rule path_step)

text \<open>Every router next to us, over a link or a network, is among the neighbors learned from Hellos.\<close>

definition neighbors_resolved :: "Spf3Index \<Rightarrow> ipv4 \<Rightarrow> SpfNeighborV3 list \<Rightarrow> bool" where
  "neighbors_resolved idx self nbrs \<longleftrightarrow>
     (\<forall>(v, _) \<in> set (edges3 idx (NRouter self)).
        case v of
          NRouter r \<Rightarrow> r = self \<or> neighbor_hops nbrs r \<noteq> []
        | NNetwork _ _ \<Rightarrow> \<forall>(x, _) \<in> set (edges3 idx v). x = NRouter self \<or> node_hops nbrs x \<noteq> [])"

lemma resolved_direct:
  "neighbors_resolved idx self nbrs \<Longrightarrow> spf3_edge idx (NRouter self) (NRouter r) w \<Longrightarrow> r = self \<or> neighbor_hops nbrs r \<noteq> []"
  by (fastforce simp: neighbors_resolved_def spf3_edge_def)

lemma resolved_attached:
  "neighbors_resolved idx self nbrs \<Longrightarrow> spf3_edge idx (NRouter self) (NNetwork a b) w \<Longrightarrow>
   spf3_edge idx (NNetwork a b) (NRouter r) z \<Longrightarrow> r = self \<or> neighbor_hops nbrs r \<noteq> []"
  unfolding neighbors_resolved_def spf3_edge_def
  by (fastforce simp del: edges3.simps)

section \<open>The invariant of the loop\<close>

definition dist3_nat :: "Spf3State \<Rightarrow> NodeId \<rightharpoonup> nat" where
  "dist3_nat st v = map_option unat (map_of (dist3 st) v)"

definition heap3_nat :: "Spf3State \<Rightarrow> (NodeId \<times> nat) set" where
  "heap3_nat st = (\<lambda>n. (hn_node n, unat (hn_cost n))) ` set (heap3 st)"

definition hops3_ok :: "Spf3Index \<Rightarrow> ipv4 \<Rightarrow> SpfNeighborV3 list \<Rightarrow> Spf3State \<Rightarrow> bool" where
  "hops3_ok idx self nbrs st \<longleftrightarrow> (\<forall>v d. dist3_nat st v = Some d \<longrightarrow>
     (\<forall>nh \<in> set (hops_of st v). first_hop3 idx self nbrs nh v d) \<and>
     (hops_of st v = [] \<longrightarrow> v = NRouter self \<or> is_network v \<and> spf3_edge idx (NRouter self) v d))"

text \<open>The queue holds no entry twice, and none for a settled node at its distance; distances are bounded.\<close>

definition queue3_ok :: "nat \<Rightarrow> NodeId set \<Rightarrow> Spf3State \<Rightarrow> bool" where
  "queue3_ok B V st \<longleftrightarrow> distinct (heap3 st) \<and> (\<forall>v \<in> V. \<forall>d. dist3_nat st v = Some d \<longrightarrow> (v, d) \<notin> heap3_nat st) \<and>
     (\<forall>v d. dist3_nat st v = Some d \<longrightarrow> d \<le> B)"

lemma queue3_ok_mono: "queue3_ok B V st \<Longrightarrow> B \<le> C \<Longrightarrow> queue3_ok C V st"
  unfolding queue3_ok_def by (meson order_trans)

definition scan3_ok ::
  "Spf3Index \<Rightarrow> ipv4 \<Rightarrow> SpfNeighborV3 list \<Rightarrow> NodeId \<Rightarrow> nat \<Rightarrow> nat \<Rightarrow> (NodeId \<times> nat) set \<Rightarrow> NodeId set \<Rightarrow> Spf3State \<Rightarrow> bool" where
  "scan3_ok idx self nbrs u k B E V st \<longleftrightarrow>
     spf3_graph.scan idx self u k E V (dist3_nat st) (heap3_nat st) \<and> queue3_ok B V st \<and>
     (neighbors_resolved idx self nbrs \<longrightarrow> hops3_ok idx self nbrs st)"

lemma set_merge_hops [simp]: "set (merge_hops a b) = set a \<union> set b"
  by (induction b arbitrary: a) (auto simp: merge_hops_def)

lemma merge_hops_Nil [simp]: "merge_hops a b = [] \<longleftrightarrow> a = [] \<and> b = []"
  by (metis set_merge_hops set_empty2 Un_empty)

lemma distinct_merge_hops: "distinct a \<Longrightarrow> distinct (merge_hops a b)"
  by (induction b arbitrary: a) (auto simp: merge_hops_def)

lemma edge_next_hops_ok:
  assumes ok: "hops3_ok idx self nbrs st" and res: "neighbors_resolved idx self nbrs"
    and u: "dist3_nat st u = Some k" "dist3_nat st (NRouter self) = Some 0" and e: "spf3_edge idx u v w"
  shows "\<forall>nh \<in> set (edge_next_hops self nbrs u v st). first_hop3 idx self nbrs nh v (k + w)"
    and "edge_next_hops self nbrs u v st = [] \<Longrightarrow> v = NRouter self \<or> is_network v \<and> spf3_edge idx (NRouter self) v (k + w)"
proof -
  consider (self) "u = NRouter self" | (net) "u \<noteq> NRouter self" "is_network u" "hops_of st u = []"
    | (inherit) "u \<noteq> NRouter self" "\<not> (is_network u \<and> hops_of st u = [])" by blast
  then have "(\<forall>nh \<in> set (edge_next_hops self nbrs u v st). first_hop3 idx self nbrs nh v (k + w)) \<and>
    (edge_next_hops self nbrs u v st = [] \<longrightarrow> v = NRouter self \<or> is_network v \<and> spf3_edge idx (NRouter self) v (k + w))"
  proof cases
    case self
    then have "k = 0" using u by simp
    with self e res show ?thesis
      by (cases v) (auto simp: edge_next_hops_def is_network_def intro: hop_direct dest: resolved_direct)
  next
    case net
    then obtain a b where ab: "u = NNetwork a b" by (auto simp: is_network_def split: NodeId.splits)
    have at: "spf3_edge idx (NRouter self) (NNetwork a b) k"
      using ok u(1) net ab by (auto simp: hops3_ok_def)
    obtain r where r: "v = NRouter r" using e edges3_cost(2) net(2) unfolding spf3_edge_def by blast
    show ?thesis
      using net e at res unfolding ab r
      by (auto simp: edge_next_hops_def intro: hop_attached dest: resolved_attached)
  next
    case inherit
    then have "edge_next_hops self nbrs u v st = hops_of st u" "hops_of st u \<noteq> []"
      using ok u(1) by (auto simp: edge_next_hops_def hops3_ok_def)
    then show ?thesis using ok u(1) e by (auto simp: hops3_ok_def intro: hop_step)
  qed
  then show "\<forall>nh \<in> set (edge_next_hops self nbrs u v st). first_hop3 idx self nbrs nh v (k + w)"
    and "edge_next_hops self nbrs u v st = [] \<Longrightarrow> v = NRouter self \<or> is_network v \<and> spf3_edge idx (NRouter self) v (k + w)"
    by blast+
qed

lemma unat_saturating:
  "unat (a :: u32) + unat b < 2 ^ 32 \<Longrightarrow> unat (u32_saturating_add a b) = unat a + unat b"
  by (simp add: u32_saturating_add_def unat_add_small)

lemma scan3_ok_relax:
  assumes ok: "scan3_ok idx self nbrs u k B E V st" and e: "(v, w) \<in> set (edges3 idx u)" and c: "unat cost = k"
    and B: "k + unat w \<le> B" "B < 2 ^ 32"
  shows "scan3_ok idx self nbrs u k B (Set.insert (v, unat w) E) V (spf3_relax self nbrs u cost (v, w) st)"
proof -
  have n: "unat (u32_saturating_add cost w) = k + unat w" using unat_saturating [of cost w] B c by simp
  have edge: "spf3_edge idx u v (unat w)" using e by (auto simp: spf3_edge_def)
  have scan: "spf3_graph.scan idx self u k E V (dist3_nat st) (heap3_nat st)" and q: "queue3_ok B V st"
    using ok by (simp_all add: scan3_ok_def)
  then have base: "spf3_graph.base idx self V (dist3_nat st) (heap3_nat st)" and Du: "dist3_nat st u = Some k"
    and V: "\<forall>x \<in> V. at_most (dist3_nat st) x k"
    by (simp_all add: spf3_graph.scan_def)
  have start: "dist3_nat st (NRouter self) = Some 0" using base by (simp add: spf3_graph.base_def)
  note enh = edge_next_hops_ok [OF _ _ Du start edge, of nbrs]
  show ?thesis
  proof (cases rule: spf3_relax_cases [where st = st and v = v and cost = cost and w = w and self = self and nbrs = nbrs and u = u])
    case better
    let ?st = "spf3_relax self nbrs u cost (v, w) st"
    have no: "\<not> at_most (dist3_nat st) v (k + unat w)"
      using better(1) n by (auto simp: at_most_def dist3_nat_def word_less_nat_alt split: option.splits)
    have D: "dist3_nat ?st = (dist3_nat st)(v \<mapsto> k + unat w)"
      unfolding better(2) by (auto simp: dist3_nat_def update_conv' n)
    have H: "heap3_nat ?st = Set.insert (v, k + unat w) (heap3_nat st)"
      unfolding better(2) by (simp add: heap3_nat_def heap3_push_def n)
    have hops: "hops_of ?st x = (if x = v then edge_next_hops self nbrs u v st else hops_of st x)" for x
      unfolding better(2) by (simp add: hops_of_def update_conv')
    have vV: "v \<notin> V" using V no by (auto simp: at_most_def)
    have "(v, k + unat w) \<notin> heap3_nat st" using base no by (auto simp: spf3_graph.base_def)
    then have "\<lparr>hn_cost = u32_saturating_add cost w, hn_node = v\<rparr> \<notin> set (heap3 st)"
      unfolding heap3_nat_def n [symmetric] by (force intro: rev_image_eqI)
    then have "queue3_ok B V ?st"
      using q vV B(1) unfolding queue3_ok_def D H by (auto simp: better(2) heap3_push_def)
    moreover have "hops3_ok idx self nbrs ?st" if "neighbors_resolved idx self nbrs"
      using enh that ok unfolding hops3_ok_def D hops by (auto simp: scan3_ok_def hops3_ok_def)
    moreover have "spf3_graph.scan idx self u k (Set.insert (v, unat w) E) V (dist3_nat ?st) (heap3_nat ?st)"
      unfolding D H by (rule spf3_graph.scan_improve [OF scan edge no])
    ultimately show ?thesis by (simp add: scan3_ok_def)
  next
    case equal
    let ?st = "spf3_relax self nbrs u cost (v, w) st"
    have same: "dist3_nat ?st = dist3_nat st" "heap3_nat ?st = heap3_nat st" "heap3 ?st = heap3 st"
      unfolding equal(2) by (simp_all add: dist3_nat_def heap3_nat_def fun_eq_iff)
    have v: "dist3_nat st v = Some (k + unat w)" using equal(1) n by (simp add: dist3_nat_def)
    have hops: "hops_of ?st x = (if x = v then merge_hops (hops_of st v) (edge_next_hops self nbrs u v st) else hops_of st x)" for x
      unfolding equal(2) by (simp add: hops_of_def update_conv')
    have "hops3_ok idx self nbrs ?st" if "neighbors_resolved idx self nbrs"
      using enh that ok v unfolding hops3_ok_def same hops by (auto simp: scan3_ok_def hops3_ok_def)
    moreover have "spf3_graph.scan idx self u k (Set.insert (v, unat w) E) V (dist3_nat st) (heap3_nat st)"
      by (rule spf3_graph.scan_keep [OF scan]) (use v in \<open>simp add: at_most_def\<close>)
    ultimately show ?thesis using q by (simp add: scan3_ok_def same queue3_ok_def)
  next
    case (worse e')
    have "spf3_graph.scan idx self u k (Set.insert (v, unat w) E) V (dist3_nat st) (heap3_nat st)"
      by (rule spf3_graph.scan_keep [OF scan]) (use worse n in \<open>simp add: at_most_def dist3_nat_def word_less_nat_alt\<close>)
    with ok worse(3) show ?thesis by (simp add: scan3_ok_def)
  qed
qed

lemma scan3_ok_relaxes:
  assumes "scan3_ok idx self nbrs u k B E V st" and "set es \<subseteq> set (edges3 idx u)" and "unat cost = k"
    and "\<forall>(v, w) \<in> set es. k + unat w \<le> B" "B < 2 ^ 32"
  shows "scan3_ok idx self nbrs u k B (E \<union> (\<lambda>(v, w). (v, unat w)) ` set es) V (fold (spf3_relax self nbrs u cost) es st)"
  using assms(1,2,4)
proof (induction es arbitrary: E st)
  case (Cons e es)
  obtain v w where e: "e = (v, w)" by (cases e)
  have "scan3_ok idx self nbrs u k B (Set.insert (v, unat w) E) V (spf3_relax self nbrs u cost (v, w) st)"
    by (rule scan3_ok_relax [OF Cons.prems(1) _ assms(3) _ assms(5)]) (use Cons.prems e in auto)
  from Cons.IH [OF this] Cons.prems show ?case by (simp add: e)
qed simp

definition lsa3_routers :: "Spf3Index \<Rightarrow> NodeId set" where
  "lsa3_routers idx = NRouter ` fst ` set (router_lsas3 idx)"

definition lsa3_nodes :: "Spf3Index \<Rightarrow> NodeId set" where
  "lsa3_nodes idx = lsa3_routers idx \<union> (\<lambda>(r, i). NNetwork r i) ` fst ` set (network_lsas3 idx)"

lemma edges3_known: "edges3 idx u \<noteq> [] \<Longrightarrow> u \<in> lsa3_nodes idx \<and> (is_network u \<or> u \<in> lsa3_routers idx)"
proof (cases u)
  case (NRouter rid)
  moreover assume "edges3 idx u \<noteq> []"
  ultimately have "map_of (router_lsas3 idx) rid \<noteq> None" by (auto split: option.splits)
  with NRouter show ?thesis by (simp add: lsa3_nodes_def lsa3_routers_def map_of_eq_None_iff)
next
  case (NNetwork a b)
  moreover assume "edges3 idx u \<noteq> []"
  ultimately have "map_of (network_lsas3 idx) (a, b) \<noteq> None" by (auto split: option.splits)
  then have "(a, b) \<in> fst ` set (network_lsas3 idx)" by (simp add: map_of_eq_None_iff)
  with NNetwork show ?thesis by (auto simp: lsa3_nodes_def is_network_def)
qed

text \<open>Work done and outstanding is paid for by the links of the settled nodes.\<close>

definition work3_ok :: "Spf3Index \<Rightarrow> NodeId set \<Rightarrow> Spf3State \<Rightarrow> bool" where
  "work3_ok idx V st \<longleftrightarrow>
     pops3 st + length (heap3 st) \<le> Suc (\<Sum>u \<in> V \<inter> lsa3_nodes idx. length (edges3 idx u))"

lemma spf3_relax_work:
  "pops3 (spf3_relax self nbrs u cost e st) = pops3 st \<and>
   length (heap3 (spf3_relax self nbrs u cost e st)) \<le> Suc (length (heap3 st))"
  by (cases e) (simp add: spf3_relax_def Let_def heap3_push_def split: option.split)

lemma spf3_relaxes_work:
  "pops3 (fold (spf3_relax self nbrs u cost) es st) = pops3 st \<and>
   length (heap3 (fold (spf3_relax self nbrs u cost) es st)) \<le> length (heap3 st) + length es"
proof (induction es arbitrary: st)
  case (Cons e es)
  from Cons.IH [of "spf3_relax self nbrs u cost e st"] spf3_relax_work [of self nbrs u cost e st]
  show ?case by simp
qed simp

definition spf3_inv :: "Spf3Index \<Rightarrow> ipv4 \<Rightarrow> SpfNeighborV3 list \<Rightarrow> Spf3State \<Rightarrow> bool" where
  "spf3_inv idx self nbrs st \<longleftrightarrow> (\<exists>V. spf3_graph.dinv idx self V (dist3_nat st) (heap3_nat st) \<and>
     queue3_ok (65535 * card (V \<inter> lsa3_routers idx)) V st \<and> work3_ok idx V st \<and>
     (neighbors_resolved idx self nbrs \<longrightarrow> hops3_ok idx self nbrs st))"

lemma finite_lsa3_routers [simp]: "finite (lsa3_routers idx)"
  by (simp add: lsa3_routers_def)

lemma finite_lsa3_nodes [simp]: "finite (lsa3_nodes idx)"
  by (simp add: lsa3_nodes_def)

lemma spf3_inv_init: "spf3_inv idx self nbrs (spf3_init self)"
proof -
  have D: "dist3_nat (spf3_init self) = [NRouter self \<mapsto> 0]" by (auto simp: spf3_init_def dist3_nat_def)
  have H: "heap3_nat (spf3_init self) = {(NRouter self, 0)}" by (simp add: spf3_init_def heap3_nat_def)
  have "hops3_ok idx self nbrs (spf3_init self)"
    by (auto simp: hops3_ok_def D hops_of_def) (auto simp: spf3_init_def split: if_splits)
  moreover have "queue3_ok 0 {} (spf3_init self)"
    by (auto simp: queue3_ok_def D H split: if_splits) (simp add: spf3_init_def)
  moreover have "work3_ok idx {} (spf3_init self)" by (simp add: work3_ok_def spf3_init_def)
  ultimately show ?thesis
    using spf3_graph.dinv_start [of idx self] unfolding spf3_inv_def D H by (intro exI [of _ "{}"]) simp
qed

lemma heap3_nat_pop:
  assumes "heap3_pop i (heap3 st) = Some (n, h)"
  shows "(hn_node n, unat (hn_cost n)) \<in> heap3_nat st"
    and "\<forall>(x, k) \<in> heap3_nat st. unat (hn_cost n) \<le> k"
    and "heap3_nat st = Set.insert (hn_node n, unat (hn_cost n)) (heap3_nat (st\<lparr>heap3 := h, pops3 := j\<rparr>))"
    and "distinct (heap3 st) \<Longrightarrow> distinct h \<and> (hn_node n, unat (hn_cost n)) \<notin> heap3_nat (st\<lparr>heap3 := h, pops3 := j\<rparr>)"
proof -
  have ms: "mset (heap3 st) = add_mset n (mset h)" and m: "\<forall>x \<in> set (heap3 st). hn_cost n \<le> hn_cost x"
    using spf3_heap.pop_Some [OF assms] by simp_all
  then have set: "set (heap3 st) = Set.insert n (set h)" by (metis set_mset_add_mset_insert set_mset_mset)
  with m show "(hn_node n, unat (hn_cost n)) \<in> heap3_nat st"
    and "\<forall>(x, k) \<in> heap3_nat st. unat (hn_cost n) \<le> k"
    and "heap3_nat st = Set.insert (hn_node n, unat (hn_cost n)) (heap3_nat (st\<lparr>heap3 := h, pops3 := j\<rparr>))"
    by (auto simp: heap3_nat_def word_le_nat_alt)
  assume "distinct (heap3 st)"
  moreover have "mset (heap3 st) = mset (n # h)" using ms by simp
  ultimately have d: "distinct (n # h)" by (metis mset_eq_imp_distinct_iff)
  have "x = n" if "hn_node x = hn_node n" "unat (hn_cost x) = unat (hn_cost n)" for x :: HeapNode
    using that by (intro HeapNode.equality) (simp_all add: word_unat_eq_iff)
  with d show "distinct h \<and> (hn_node n, unat (hn_cost n)) \<notin> heap3_nat (st\<lparr>heap3 := h, pops3 := j\<rparr>)"
    by (auto simp: heap3_nat_def)
qed

text \<open>An entry that has been superseded: its node is settled.\<close>

lemma spf3_inv_stale:
  assumes inv: "spf3_inv idx self nbrs st" and p: "heap3_pop i (heap3 st) = Some (n, h)"
    and stale: "map_of (dist3 st) (hn_node n) \<noteq> Some (hn_cost n)" and j: "j = Suc (pops3 st)"
  shows "spf3_inv idx self nbrs (st\<lparr>heap3 := h, pops3 := j\<rparr>)" (is "spf3_inv idx self nbrs ?st")
proof -
  let ?u = "hn_node n" and ?k = "unat (hn_cost n)"
  note pop = heap3_nat_pop(1,2) [OF p] heap3_nat_pop(3,4) [OF p, where j = j]
  from inv obtain V where V: "spf3_graph.dinv idx self V (dist3_nat st) (heap3_nat st)"
      "queue3_ok (65535 * card (V \<inter> lsa3_routers idx)) V st" "neighbors_resolved idx self nbrs \<longrightarrow> hops3_ok idx self nbrs st"
      "work3_ok idx V st"
    by (auto simp: spf3_inv_def)
  then have base: "spf3_graph.base idx self V (dist3_nat st) (heap3_nat st)" by (simp add: spf3_graph.dinv_def)
  have "at_most (dist3_nat st) ?u ?k" using base pop(1) unfolding spf3_graph.base_def by blast
  then obtain d where d: "dist3_nat st ?u = Some d" "d \<le> ?k" by (auto simp: at_most_def)
  with stale have "d < ?k" by (auto simp: dist3_nat_def order_le_less word_unat_eq_iff)
  have "?u \<in> V"
  proof (rule ccontr)
    assume "?u \<notin> V"
    then have "(?u, d) \<in> heap3_nat st" using base d(1) by (simp add: spf3_graph.base_def)
    then have "?k \<le> d" using pop(2) by blast
    with \<open>d < ?k\<close> show False by simp
  qed
  then have "spf3_graph.dinv idx self V (dist3_nat st) (heap3_nat ?st)"
    using spf3_graph.dinv_pop_visited [OF V(1), of ?u "heap3_nat ?st" ?k] pop(3) by auto
  moreover have same: "dist3_nat ?st = dist3_nat st" "hops_of ?st = hops_of st" by (simp_all add: dist3_nat_def hops_of_def fun_eq_iff)
  moreover have "heap3_nat ?st \<subseteq> heap3_nat st" using pop(3) by blast
  then have "queue3_ok (65535 * card (V \<inter> lsa3_routers idx)) V ?st"
    using V(2) pop(4) unfolding queue3_ok_def same by auto
  moreover have "work3_ok idx V ?st"
    using V(4) spf3_heap.pop_size [OF p] unfolding work3_ok_def j by simp
  ultimately show ?thesis using V(3) by (auto simp: spf3_inv_def hops3_ok_def)
qed

lemma spf3_inv_scan:
  assumes inv: "spf3_inv idx self nbrs st" and p: "heap3_pop i (heap3 st) = Some (n, h)"
    and cur: "map_of (dist3 st) (hn_node n) = Some (hn_cost n)" and few: "card (lsa3_routers idx) \<le> 65537"
    and j: "j = Suc (pops3 st)"
  shows "spf3_inv idx self nbrs (fold (spf3_relax self nbrs (hn_node n) (hn_cost n)) (edges3 idx (hn_node n))
    (st\<lparr>heap3 := h, pops3 := j\<rparr>))" (is "spf3_inv idx self nbrs (fold ?relax ?es ?st)")
proof -
  let ?u = "hn_node n" and ?k = "unat (hn_cost n)" and ?fin = "fold ?relax ?es ?st"
  note pop = heap3_nat_pop(1,2) [OF p] heap3_nat_pop(3,4) [OF p, where j = j]
  from inv obtain V where V: "spf3_graph.dinv idx self V (dist3_nat st) (heap3_nat st)"
      "queue3_ok (65535 * card (V \<inter> lsa3_routers idx)) V st" "neighbors_resolved idx self nbrs \<longrightarrow> hops3_ok idx self nbrs st"
      "work3_ok idx V st"
    by (auto simp: spf3_inv_def)
  let ?V = "Set.insert ?u V" and ?B = "65535 * card (V \<inter> lsa3_routers idx)"
  let ?B' = "65535 * card (?V \<inter> lsa3_routers idx)"
  have same: "dist3_nat ?st = dist3_nat st" "hops_of ?st = hops_of st" by (simp_all add: dist3_nat_def hops_of_def fun_eq_iff)
  have Du: "dist3_nat st ?u = Some ?k" using cur by (simp add: dist3_nat_def)
  have new: "?u \<notin> V" using V(2) Du pop(1) by (auto simp: queue3_ok_def)
  have kB: "?k \<le> ?B" using V(2) Du by (simp add: queue3_ok_def)
  have "card (V \<inter> lsa3_routers idx) \<le> card (?V \<inter> lsa3_routers idx)" by (rule card_mono) auto
  then have BB: "?B \<le> ?B'" by simp
  have "card (?V \<inter> lsa3_routers idx) \<le> card (lsa3_routers idx)" by (rule card_mono) auto
  then have lim: "?B' < 2 ^ 32" using few by simp
  have room: "?k + unat w \<le> ?B'" if e: "(v, w) \<in> set ?es" for v w
  proof (cases "is_network ?u")
    case True
    with e edges3_cost(2) kB BB show ?thesis by fastforce
  next
    case False
    moreover have "?es \<noteq> []" using e by auto
    ultimately have "?u \<in> lsa3_routers idx" using edges3_known by blast
    with new have "card (?V \<inter> lsa3_routers idx) = Suc (card (V \<inter> lsa3_routers idx))" by simp
    with kB edges3_cost(1) [OF e] show ?thesis by simp
  qed
  have "spf3_graph.scan idx self ?u ?k {} ?V (dist3_nat ?st) (heap3_nat ?st)"
    unfolding same by (rule spf3_graph.scan_start [OF V(1) pop(1) new pop(2)]) (use pop(3) in auto)
  moreover have "queue3_ok ?B ?V ?st"
    using V(2) pop(3,4) Du unfolding queue3_ok_def same by auto
  then have "queue3_ok ?B' ?V ?st" using BB by (rule queue3_ok_mono)
  ultimately have "scan3_ok idx self nbrs ?u ?k ?B' {} ?V ?st"
    using V(3) by (simp add: scan3_ok_def hops3_ok_def same)
  moreover have "\<forall>(v, w) \<in> set ?es. ?k + unat w \<le> ?B'" using room by blast
  ultimately have ok: "scan3_ok idx self nbrs ?u ?k ?B' ((\<lambda>(v, w). (v, unat w)) ` set ?es) ?V ?fin"
    using scan3_ok_relaxes [OF _ order_refl refl _ lim, where E = "{}" and st = ?st] by simp
  then have scan: "spf3_graph.scan idx self ?u ?k ((\<lambda>(v, w). (v, unat w)) ` set ?es) ?V (dist3_nat ?fin) (heap3_nat ?fin)"
    by (simp add: scan3_ok_def)
  have "spf3_graph.dinv idx self ?V (dist3_nat ?fin) (heap3_nat ?fin)"
    using scan
  proof (rule spf3_graph.scan_done)
    fix v w assume "spf3_edge idx ?u v w"
    then have "(v, w) \<in> (\<lambda>(v, w). (v, unat w)) ` set ?es" by (force simp: spf3_edge_def)
    with scan show "at_most (dist3_nat ?fin) v (?k + w)" unfolding spf3_graph.scan_def by blast
  qed
  moreover have "work3_ok idx ?V ?fin"
  proof -
    have "(\<Sum>x \<in> ?V \<inter> lsa3_nodes idx. length (edges3 idx x)) = (\<Sum>x \<in> V \<inter> lsa3_nodes idx. length (edges3 idx x)) + length ?es"
    proof (cases "?u \<in> lsa3_nodes idx")
      case False
      then have "?es = []" using edges3_known by blast
      with False show ?thesis by simp
    qed (use new in simp)
    then show ?thesis
      using V(4) spf3_heap.pop_size [OF p] spf3_relaxes_work [of self nbrs ?u "hn_cost n" ?es ?st]
      unfolding work3_ok_def by (simp add: j)
  qed
  ultimately show ?thesis using ok unfolding spf3_inv_def scan3_ok_def by blast
qed

lemma spf3_inv_step:
  assumes "spf3_inv idx self nbrs st" and "spf3_step tie self nbrs idx st = Some st'" and "card (lsa3_routers idx) \<le> 65537"
  shows "spf3_inv idx self nbrs st'"
proof -
  from assms(2) obtain n h where p: "heap3_pop (tie (pops3 st)) (heap3 st) = Some (n, h)"
    by (auto simp: spf3_step_def split: option.splits)
  show ?thesis
    using assms(2) p spf3_inv_stale [OF assms(1) p _ refl] spf3_inv_scan [OF assms(1) p _ assms(3) refl]
    by (cases "map_of (dist3 st) (hn_node n) = Some (hn_cost n)") (auto simp: spf3_step_def Let_def)
qed

lemma spf3_loop_rule:
  assumes "P st" and "\<And>s s'. P s \<Longrightarrow> spf3_step tie self nbrs idx s = Some s' \<Longrightarrow> P s'"
  shows "P (spf3_loop tie self nbrs idx st) \<and> heap3 (spf3_loop tie self nbrs idx st) = []"
  using assms
proof (induction tie self nbrs idx st rule: spf3_loop.induct)
  case (1 tie self nbrs idx st)
  show ?case
  proof (cases "spf3_step tie self nbrs idx st")
    case None
    then have "heap3 st = []"
      using spf3_heap.pop_None [of _ "heap3 st"] by (auto simp: spf3_step_def Let_def split: option.splits if_splits)
    with None "1.prems"(1) show ?thesis by (subst (1 2) spf3_loop.simps) simp
  next
    case (Some st')
    have "P st'" using "1.prems" Some by blast
    from "1.IH" [OF Some this "1.prems"(2)] Some show ?thesis by (subst (1 2) spf3_loop.simps) simp
  qed
qed

lemma spf3_run_inv:
  assumes "card (lsa3_routers idx) \<le> 65537"
  shows "spf3_inv idx self nbrs (spf3_run tie self nbrs idx)" and "heap3 (spf3_run tie self nbrs idx) = []"
  using spf3_loop_rule [of "spf3_inv idx self nbrs" "spf3_init self" tie self nbrs idx, OF spf3_inv_init spf3_inv_step [OF _ _ assms]]
  by (simp_all add: spf3_run_def)

lemma spf3_run_distances:
  assumes "card (lsa3_routers idx) \<le> 65537"
  shows "case map_of (dist3 (spf3_run tie self nbrs idx)) v of
      None \<Rightarrow> \<nexists>n. path_cost (spf3_edge idx) (NRouter self) v n
    | Some d \<Rightarrow> is_distance (spf3_edge idx) (NRouter self) v (unat d)"
proof -
  obtain V where "spf3_graph.dinv idx self V (dist3_nat (spf3_run tie self nbrs idx)) {}"
    using spf3_run_inv [OF assms, where self = self and nbrs = nbrs and tie = tie] by (auto simp: spf3_inv_def heap3_nat_def)
  from spf3_graph.dinv_end [OF this, of v] show ?thesis
    by (cases "map_of (dist3 (spf3_run tie self nbrs idx)) v") (simp_all add: dist3_nat_def)
qed

section \<open>From the database to the graph\<close>

lemma router_keys_index:
  "fst ` set (router_lsas3 (fold spf3_index_entry es idx)) \<subseteq>
     fst ` set (router_lsas3 idx) \<union> (\<lambda>e. l3_adv (e3_header e)) ` set es"
proof (induction es arbitrary: idx)
  case (Cons e es)
  have "fst ` set (router_lsas3 (spf3_index_entry e idx)) \<subseteq> Set.insert (l3_adv (e3_header e)) (fst ` set (router_lsas3 idx))"
    by (cases "l3_type (e3_header e)") (auto simp: spf3_index_entry_def Let_def fst_set_update split: option.split)
  with Cons.IH [of "spf3_index_entry e idx"] show ?case unfolding fold_simps list.set image_insert by blast
qed simp

lemma card_lsa3_routers: "card (lsa3_routers (spf3_index (lsdb3_iter db))) \<le> lsdb3_len db"
proof -
  have "card (lsa3_routers (spf3_index (lsdb3_iter db))) \<le> card ((\<lambda>e. l3_adv (e3_header e)) ` set (lsdb3_iter db))"
  proof -
    have "card (lsa3_routers (spf3_index (lsdb3_iter db))) \<le> card (fst ` set (router_lsas3 (spf3_index (lsdb3_iter db))))"
      unfolding lsa3_routers_def by (rule card_image_le) simp
    also have "\<dots> \<le> card ((\<lambda>e. l3_adv (e3_header e)) ` set (lsdb3_iter db))"
      by (rule card_mono) (use router_keys_index [of "lsdb3_iter db"] in \<open>force simp: spf3_index_def\<close>)+
    finally show ?thesis .
  qed
  also have "\<dots> \<le> length (lsdb3_iter db)" by (meson card_image_le card_length List.finite_set order_trans)
  finally show ?thesis by (simp add: lsdb3_iter_def lsdb3_len_def)
qed

lemma index_lists:
  "intra_prefix_lsas (fold spf3_index_entry es idx) = intra_prefix_lsas idx @ filter (\<lambda>e. l3_type (e3_header e) = IntraAreaPrefixV3) es"
  "inter_prefix_lsas (fold spf3_index_entry es idx) = inter_prefix_lsas idx @ filter (\<lambda>e. l3_type (e3_header e) = InterAreaPrefixV3) es"
  "as_external_lsas (fold spf3_index_entry es idx) =
     as_external_lsas idx @ filter (\<lambda>e. l3_type (e3_header e) \<in> {AsExternalV3, NssaV3}) es"
  by (induction es arbitrary: idx)
    (auto simp: spf3_index_entry_def Let_def split: LsaV3Type.splits option.splits)

lemma spf3_run_dist_iff:
  assumes "card (lsa3_routers idx) \<le> 65537"
  shows "map_of (dist3 (spf3_run tie self nbrs idx)) v = Some c \<longleftrightarrow> is_distance (spf3_edge idx) (NRouter self) v (unat c)"
    and "is_distance (spf3_edge idx) (NRouter self) v d \<Longrightarrow> \<exists>c :: u32. d = unat c"
proof -
  note run = spf3_run_distances [OF assms, where tie = tie and self = self and nbrs = nbrs and v = v]
  have L: "is_distance (spf3_edge idx) (NRouter self) v d \<Longrightarrow>
      \<exists>x. map_of (dist3 (spf3_run tie self nbrs idx)) v = Some x \<and> d = unat x" for d
    using run by (cases "map_of (dist3 (spf3_run tie self nbrs idx)) v") (auto simp: is_distance_def intro: antisym)
  show "map_of (dist3 (spf3_run tie self nbrs idx)) v = Some c \<longleftrightarrow> is_distance (spf3_edge idx) (NRouter self) v (unat c)"
  proof
    assume "is_distance (spf3_edge idx) (NRouter self) v (unat c)"
    from L [OF this] show "map_of (dist3 (spf3_run tie self nbrs idx)) v = Some c" by (auto simp: word_unat_eq_iff)
  qed (use run in simp)
  show "is_distance (spf3_edge idx) (NRouter self) v d \<Longrightarrow> \<exists>c :: u32. d = unat c" using L by blast
qed

section \<open>Properties\<close>

text \<open>
  C29. For every database with at most 65537 LSAs, whatever order the heap yields entries of equal cost in:
  pass 1 assigns a cost exactly to the nodes a path leads to, and it is the cost of a shortest one. The
  sums do not saturate.
\<close>

theorem v3_spf_shortest_paths:
  assumes "lsdb3_len db \<le> 65537" and "idx = spf3_index (lsdb3_iter db)"
  shows "case map_of (dist3 (spf3_run tie self nbrs idx)) v of
      None \<Rightarrow> \<nexists>n. path_cost (spf3_edge idx) (NRouter self) v n
    | Some d \<Rightarrow> is_distance (spf3_edge idx) (NRouter self) v (unat d)"
proof -
  have "card (lsa3_routers idx) \<le> 65537" using card_lsa3_routers [of db] assms by simp
  then show ?thesis by (rule spf3_run_distances)
qed

text \<open>
  C30. The loop of pass 1 ends with an empty heap for every database and every order of ties; with at most
  65537 LSAs it pops at most one entry per link of the LSAs, and one more.
\<close>

theorem v3_spf_loop_ends:
  "heap3 (spf3_run tie self nbrs idx) = [] \<and> spf3_step tie self nbrs idx (spf3_run tie self nbrs idx) = None \<and>
   (card (lsa3_routers idx) \<le> 65537 \<longrightarrow>
     pops3 (spf3_run tie self nbrs idx) \<le> Suc (\<Sum>u \<in> lsa3_nodes idx. length (edges3 idx u)))"
proof (intro conjI impI)
  show h: "heap3 (spf3_run tie self nbrs idx) = []"
    using spf3_loop_rule [of "\<lambda>_. True"] by (simp add: spf3_run_def)
  then show "spf3_step tie self nbrs idx (spf3_run tie self nbrs idx) = None"
    by (simp add: spf3_step_def heap3_pop_def)
  assume "card (lsa3_routers idx) \<le> 65537"
  then obtain V where "work3_ok idx V (spf3_run tie self nbrs idx)"
    using spf3_run_inv(1) [of idx self nbrs tie] by (auto simp: spf3_inv_def)
  then have "pops3 (spf3_run tie self nbrs idx) \<le> Suc (\<Sum>u \<in> V \<inter> lsa3_nodes idx. length (edges3 idx u))"
    by (simp add: work3_ok_def h)
  also have "(\<Sum>u \<in> V \<inter> lsa3_nodes idx. length (edges3 idx u)) \<le> (\<Sum>u \<in> lsa3_nodes idx. length (edges3 idx u))"
    by (rule sum_mono2) auto
  finally show "pops3 (spf3_run tie self nbrs idx) \<le> Suc (\<Sum>u \<in> lsa3_nodes idx. length (edges3 idx u))" by simp
qed

text \<open>
  When every router next to us is a known neighbor, every node with a cost other than ourselves and the
  networks we are attached to has next hops, and each of them is the first hop of a shortest path.
\<close>

theorem v3_next_hops_on_shortest_paths:
  assumes "lsdb3_len db \<le> 65537" and "idx = spf3_index (lsdb3_iter db)" and "neighbors_resolved idx self nbrs"
    and "map_of (dist3 (spf3_run tie self nbrs idx)) v = Some d"
  shows "(\<forall>nh \<in> set (hops_of (spf3_run tie self nbrs idx) v). first_hop3 idx self nbrs nh v (unat d)) \<and>
    is_distance (spf3_edge idx) (NRouter self) v (unat d) \<and>
    (hops_of (spf3_run tie self nbrs idx) v = [] \<longrightarrow>
       v = NRouter self \<or> is_network v \<and> spf3_edge idx (NRouter self) v (unat d))"
proof -
  have few: "card (lsa3_routers idx) \<le> 65537" using card_lsa3_routers [of db] assms(1,2) by simp
  have "hops3_ok idx self nbrs (spf3_run tie self nbrs idx)"
    using spf3_run_inv(1) [OF few, of self nbrs tie] assms(3) by (auto simp: spf3_inv_def)
  then show ?thesis
    using spf3_run_distances [OF few, where tie = tie and self = self and nbrs = nbrs and v = v] assms(4) by (simp add: hops3_ok_def dist3_nat_def)
qed

text \<open>
  What a router advertises: entry \<open>e\<close> attaches the prefix \<open>p/l\<close> at metric \<open>m\<close> to the node \<open>v\<close>, other than the
  calculating router itself.
\<close>

definition advertises3 :: "ipv4 \<Rightarrow> LsaEntryV3 \<Rightarrow> ipv6 \<Rightarrow> u8 \<Rightarrow> NodeId \<Rightarrow> u32 \<Rightarrow> Ospfv3RouteKind \<Rightarrow> bool" where
  "advertises3 self e p l v m kind \<longleftrightarrow> v \<noteq> NRouter self \<and>
     (kind = IntraV3 \<and> l3_type (e3_header e) = IntraAreaPrefixV3 \<and>
        (\<exists>iap. parse_body intra_area_prefix_parse e = Some iap \<and> ref_node iap = Some v \<and>
           (\<exists>x \<in> set (iap_prefixes iap). p = pf_address x \<and> l = pf_length x \<and> m = ucast (pf_metric x))) \<or>
      kind = InterV3 \<and> l3_type (e3_header e) = InterAreaPrefixV3 \<and> v = NRouter (l3_adv (e3_header e)) \<and>
        (\<exists>iap. parse_body inter_area_prefix_parse e = Some iap \<and> p = pf_address (iep_prefix iap) \<and>
           l = pf_length (iep_prefix iap) \<and> m = iep_metric iap))"

lemma intra_routes3_mem:
  "r \<in> set (intra_routes3 self st e) \<longleftrightarrow>
   (\<exists>iap v c nhs x. parse_body intra_area_prefix_parse e = Some iap \<and> ref_node iap = Some v \<and> reach3 st v = Some (c, nhs) \<and>
      v \<noteq> NRouter self \<and> x \<in> set (iap_prefixes iap) \<and>
      r = \<lparr>ro3_prefix = pf_address x, ro3_prefix_len = pf_length x, ro3_next_hops = nhs,
           ro3_cost = u32_saturating_add c (ucast (pf_metric x)), ro3_kind = IntraV3\<rparr>)"
proof (cases "parse_body intra_area_prefix_parse e")
  case (Some iap)
  then show ?thesis
  proof (cases "ref_node iap")
    case (Some v)
    with \<open>parse_body intra_area_prefix_parse e = Some iap\<close> show ?thesis
      by (cases "reach3 st v") (auto simp: intra_routes3_def)
  qed (simp add: intra_routes3_def)
qed (simp add: intra_routes3_def)

lemma intra_routes3_iff:
  "r \<in> set (intra_routes3 self st e) \<and> l3_type (e3_header e) = IntraAreaPrefixV3 \<longleftrightarrow>
   ro3_kind r = IntraV3 \<and> (\<exists>v m c. advertises3 self e (ro3_prefix r) (ro3_prefix_len r) v m IntraV3 \<and>
     reach3 st v = Some (c, ro3_next_hops r) \<and> ro3_cost r = u32_saturating_add c m)"
  unfolding intra_routes3_mem advertises3_def by (cases r) (simp, blast)

lemma inter_routes3_iff:
  "r \<in> set (inter_routes3 self st e) \<and> l3_type (e3_header e) = InterAreaPrefixV3 \<longleftrightarrow>
   ro3_kind r = InterV3 \<and> (\<exists>v m c. advertises3 self e (ro3_prefix r) (ro3_prefix_len r) v m InterV3 \<and>
     reach3 st v = Some (c, ro3_next_hops r) \<and> ro3_cost r = u32_saturating_add c m)"
proof (cases "parse_body inter_area_prefix_parse e")
  case (Some iap)
  then show ?thesis
    by (cases r; cases "reach3 st (NRouter (l3_adv (e3_header e)))") (auto simp: inter_routes3_def advertises3_def Let_def)
qed (simp add: inter_routes3_def advertises3_def)

lemma external_kind: "r \<in> set (external_routes3 self st rs e) \<Longrightarrow> ro3_kind r \<in> {External1V3, External2V3}"
  by (auto simp: external_routes3_def Let_def split: option.splits prod.splits if_splits)

lemma internal_kinds:
  "r \<in> set (intra_routes3 self st e) \<Longrightarrow> ro3_kind r = IntraV3"
  "r \<in> set (inter_routes3 self st e) \<Longrightarrow> ro3_kind r = InterV3"
  by (auto simp: intra_routes3_def inter_routes3_def Let_def split: option.splits prod.splits if_splits)

lemma unat_saturating_add: "unat (u32_saturating_add a b) = min 4294967295 (unat a + unat b)"
  by (auto simp: u32_saturating_add_def unat_add_small min_def unsigned_minus_1_eq_mask mask_eq_exp_minus_1)

lemma internal_routes_iff:
  assumes "ro3_kind r \<in> {IntraV3, InterV3}"
  shows "r \<in> set (calculate_spf_v3 tie self db nbrs) \<longleftrightarrow>
    (\<exists>e \<in> set (lsdb3_iter db). \<exists>v m c. advertises3 self e (ro3_prefix r) (ro3_prefix_len r) v m (ro3_kind r) \<and>
       reach3 (spf3_run tie self nbrs (spf3_index (lsdb3_iter db))) v = Some (c, ro3_next_hops r) \<and>
       ro3_cost r = u32_saturating_add c m)"
proof -
  let ?idx = "spf3_index (lsdb3_iter db)" let ?st = "spf3_run tie self nbrs ?idx"
  have "r \<in> set (calculate_spf_v3 tie self db nbrs) \<longleftrightarrow>
      (\<exists>e \<in> set (intra_prefix_lsas ?idx). r \<in> set (intra_routes3 self ?st e)) \<or>
      (\<exists>e \<in> set (inter_prefix_lsas ?idx). r \<in> set (inter_routes3 self ?st e))"
    using assms external_kind [of r self ?st] by (fastforce simp: calculate_spf_v3_def Let_def)
  also have "\<dots> \<longleftrightarrow>
      (\<exists>e \<in> set (lsdb3_iter db). r \<in> set (intra_routes3 self ?st e) \<and> l3_type (e3_header e) = IntraAreaPrefixV3 \<or>
         r \<in> set (inter_routes3 self ?st e) \<and> l3_type (e3_header e) = InterAreaPrefixV3)"
    by (auto simp: spf3_index_def index_lists)
  also have "\<dots> \<longleftrightarrow> (\<exists>e \<in> set (lsdb3_iter db). \<exists>v m c. advertises3 self e (ro3_prefix r) (ro3_prefix_len r) v m (ro3_kind r) \<and>
       reach3 ?st v = Some (c, ro3_next_hops r) \<and> ro3_cost r = u32_saturating_add c m)"
    unfolding intra_routes3_iff inter_routes3_iff using assms by (elim insertE emptyE) simp_all
  finally show ?thesis .
qed

lemma reach3_iff:
  assumes "lsdb3_len db \<le> 65537" and "idx = spf3_index (lsdb3_iter db)"
  shows "reach3 (spf3_run tie self nbrs idx) v = Some (c, nhs) \<longleftrightarrow>
    is_distance (spf3_edge idx) (NRouter self) v (unat c) \<and> nhs = hops_of (spf3_run tie self nbrs idx) v \<and> nhs \<noteq> []"
proof -
  have few: "card (lsa3_routers idx) \<le> 65537" using card_lsa3_routers [of db] assms by simp
  show ?thesis
    unfolding spf3_run_dist_iff(1) [OF few, symmetric, where tie = tie and nbrs = nbrs]
    by (auto simp: reach3_def hops_of_def split: option.splits)
qed

text \<open>
  C31. The intra- and inter-area routes are exactly the advertised prefixes whose node has next hops: each has
  the next hops of its node and costs the shortest path to it plus the advertised metric, cut at the
  largest \<open>u32\<close>.
\<close>

theorem v3_internal_routes_exact:
  assumes "lsdb3_len db \<le> 65537" and "idx = spf3_index (lsdb3_iter db)" and "ro3_kind r \<in> {IntraV3, InterV3}"
  shows "r \<in> set (calculate_spf_v3 tie self db nbrs) \<longleftrightarrow>
    (\<exists>e \<in> set (lsdb3_iter db). \<exists>v m d. advertises3 self e (ro3_prefix r) (ro3_prefix_len r) v m (ro3_kind r) \<and>
       is_distance (spf3_edge idx) (NRouter self) v d \<and> ro3_next_hops r = hops_of (spf3_run tie self nbrs idx) v \<and>
       ro3_next_hops r \<noteq> [] \<and> unat (ro3_cost r) = min 4294967295 (d + unat m))"
proof -
  have cost: "(\<exists>c. reach3 (spf3_run tie self nbrs idx) v = Some (c, ro3_next_hops r) \<and> ro3_cost r = u32_saturating_add c m) \<longleftrightarrow>
      (\<exists>d. is_distance (spf3_edge idx) (NRouter self) v d \<and> ro3_next_hops r = hops_of (spf3_run tie self nbrs idx) v \<and>
         ro3_next_hops r \<noteq> [] \<and> unat (ro3_cost r) = min 4294967295 (d + unat m))" (is "?L \<longleftrightarrow> ?R") for v m
  proof
    assume ?L
    then show ?R unfolding reach3_iff [OF assms(1,2)] by (auto simp: unat_saturating_add)
  next
    assume ?R
    then obtain d where d: "is_distance (spf3_edge idx) (NRouter self) v d"
        "ro3_next_hops r = hops_of (spf3_run tie self nbrs idx) v" "ro3_next_hops r \<noteq> []"
        "unat (ro3_cost r) = min 4294967295 (d + unat m)" by blast
    have few: "card (lsa3_routers idx) \<le> 65537" using card_lsa3_routers [of db] assms(1,2) by simp
    then obtain c :: u32 where "d = unat c" using spf3_run_dist_iff(2) d(1) by blast
    with d show ?L
      unfolding reach3_iff [OF assms(1,2)]
      by (intro exI [of _ c]) (auto simp: word_unat_eq_iff unat_saturating_add)
  qed
  show ?thesis
    unfolding internal_routes_iff [OF assms(3)] assms(2) [symmetric] using cost by blast
qed

text \<open>Matching is agreement on the leading bits.\<close>

lemma prefix_matches_v3_iff:
  "prefix_matches_v3 a p len \<longleftrightarrow> unat len \<le> 128 \<and> (\<forall>i < unat len. bit a (127 - i) = bit p (127 - i))"
proof (cases "unat len = 0 \<or> 128 < unat len")
  case True
  then show ?thesis
    by (auto simp: prefix_matches_v3_def word_less_nat_alt unat_eq_0)
next
  case False
  let ?n = "unat len" let ?mask = "if len = 128 then - 1 else push_bit (128 - ?n) (- 1) :: ipv6"
  have n: "0 < ?n" "?n \<le> 128" using False by auto
  have mask: "bit ?mask j \<longleftrightarrow> 128 - ?n \<le> j \<and> j < 128" for j
    by (auto simp: bit_push_bit_iff bit_not_iff bit_mask_iff dest: bit_imp_le_length)
  have "prefix_matches_v3 a p len \<longleftrightarrow> a AND ?mask = p AND ?mask"
    using n by (auto simp: prefix_matches_v3_def Let_def word_less_nat_alt)
  also have "\<dots> \<longleftrightarrow> (\<forall>j < 128. 128 - ?n \<le> j \<longrightarrow> bit a j = bit p j)"
  proof -
    define M where "M = ?mask"
    have "bit M j \<longleftrightarrow> 128 - ?n \<le> j \<and> j < 128" for j using mask by (simp only: M_def)
    then have "a AND M = p AND M \<longleftrightarrow> (\<forall>j < 128. 128 - ?n \<le> j \<longrightarrow> bit a j = bit p j)"
      by (auto simp: bit_eq_iff [of "a AND M"] bit_and_iff)
    then show ?thesis by (simp only: M_def)
  qed
  also have "\<dots> \<longleftrightarrow> (\<forall>i < ?n. bit a (127 - i) = bit p (127 - i))"
  proof (rule iffI; intro allI impI)
    fix j assume "\<forall>i < ?n. bit a (127 - i) = bit p (127 - i)" and j: "j < 128" "128 - ?n \<le> j"
    moreover have "127 - j < ?n" using j n by arith
    ultimately have "bit a (127 - (127 - j)) = bit p (127 - (127 - j))" by blast
    with j show "bit a j = bit p j" by simp
  qed (use n in simp)
  finally show ?thesis using n by simp
qed

lemma find_sorted:
  assumes "sorted (map f xs)"
  shows "case List.find P xs of None \<Rightarrow> \<forall>x \<in> set xs. \<not> P x
    | Some x \<Rightarrow> x \<in> set xs \<and> P x \<and> (\<forall>y \<in> set xs. P y \<longrightarrow> f x \<le> f y)"
  using assms by (induction xs) (auto split: option.splits)

text \<open>
  A forwarding address is resolved by a route with the longest prefix among all intra- and inter-area
  routes that agree with it in the bits of their prefix; it is unresolved only when none does.
\<close>

theorem v3_forwarding_longest_match:
  "case resolve_forwarding (reachable3 routes) fa of
     None \<Rightarrow> \<forall>r \<in> set routes. \<not> prefix_matches_v3 fa (ro3_prefix r) (ro3_prefix_len r)
   | Some r \<Rightarrow> r \<in> set routes \<and> unat (ro3_prefix_len r) \<le> 128 \<and>
       (\<forall>i < unat (ro3_prefix_len r). bit fa (127 - i) = bit (ro3_prefix r) (127 - i)) \<and>
       (\<forall>q \<in> set routes. prefix_matches_v3 fa (ro3_prefix q) (ro3_prefix_len q) \<longrightarrow> ro3_prefix_len q \<le> ro3_prefix_len r)"
proof -
  let ?P = "\<lambda>r. prefix_matches_v3 fa (ro3_prefix r) (ro3_prefix_len r)" and ?f = "\<lambda>r. 255 - unat (ro3_prefix_len r)"
  have le: "?f x \<le> ?f y \<longleftrightarrow> ro3_prefix_len y \<le> ro3_prefix_len x" for x y
    using unat_u8_less [of "ro3_prefix_len x"] unat_u8_less [of "ro3_prefix_len y"] unfolding word_le_nat_alt by arith
  have "sorted (map ?f (reachable3 routes))" by (simp add: reachable3_def)
  from find_sorted [OF this, of ?P] show ?thesis
    unfolding resolve_forwarding_def le
    by (cases "List.find ?P (reachable3 routes)") (auto simp: reachable3_def prefix_matches_v3_iff)
qed

section \<open>An example network\<close>

text \<open>
  Router 1 reaches router 2 over a link of cost 2 and, at the same cost, through router 3 and the network
  of router 3; router 4 lies behind router 2.
\<close>

definition example_index3 :: Spf3Index where
  "example_index3 =
     \<lparr>router_lsas3 =
        [(1, \<lparr>r3_flags = 0, r3_options = 0, r3_links =
           [\<lparr>rl3_type = TYPE_POINT_TO_POINT, rl3_metric = 2, rl3_interface_id = 1, rl3_neighbor_interface_id = 1, rl3_neighbor_router_id = 2\<rparr>,
            \<lparr>rl3_type = TYPE_POINT_TO_POINT, rl3_metric = 1, rl3_interface_id = 2, rl3_neighbor_interface_id = 1, rl3_neighbor_router_id = 3\<rparr>]\<rparr>),
         (2, \<lparr>r3_flags = 0, r3_options = 0, r3_links =
           [\<lparr>rl3_type = TYPE_POINT_TO_POINT, rl3_metric = 1, rl3_interface_id = 2, rl3_neighbor_interface_id = 1, rl3_neighbor_router_id = 4\<rparr>]\<rparr>),
         (3, \<lparr>r3_flags = 0, r3_options = 0, r3_links =
           [\<lparr>rl3_type = TYPE_TRANSIT_NETWORK, rl3_metric = 1, rl3_interface_id = 7, rl3_neighbor_interface_id = 7, rl3_neighbor_router_id = 3\<rparr>]\<rparr>)],
      network_lsas3 = [((3, 7), \<lparr>n3_options = 0, n3_attached_routers = [2, 3]\<rparr>)],
      intra_prefix_lsas = [], inter_prefix_lsas = [], as_external_lsas = []\<rparr>"

definition example_neighbors3 :: "SpfNeighborV3 list" where
  "example_neighbors3 =
     [\<lparr>sn3_router_id = 2, sn3_link_local = 0xa, sn3_sw_if_index = 1\<rparr>, \<lparr>sn3_router_id = 3, sn3_link_local = 0xb, sn3_sw_if_index = 2\<rparr>]"

lemmas spf3_eval = spf3_run_def spf3_init_def spf3_loop.simps spf3_step_def heap3_pop_def heap3_push_def Let_def
  spf3_relax_def edge_next_hops_def neighbor_hops_def is_network_def hops_of_def merge_hops_def
  u32_saturating_add_def example_index3_def example_neighbors3_def link3_edge_def TYPE_POINT_TO_POINT_def TYPE_TRANSIT_NETWORK_def

text \<open>
  Equal-cost next hops that arrive over a network after its router has been scanned are not passed on: the
  next hops of router 4 depend on the order in which the heap yields the entries of cost 2.
\<close>

lemma ecmp_depends_on_ties:
  "hops_of (spf3_run (\<lambda>_. 0) 1 example_neighbors3 example_index3) (NRouter 4) \<noteq>
   hops_of (spf3_run (\<lambda>_. 1) 1 example_neighbors3 example_index3) (NRouter 4)"
proof -
  have "hops_of (spf3_run (\<lambda>_. 0) 1 example_neighbors3 example_index3) (NRouter 4) = [(0xa, 1), (0xb, 2)]"
    by (simp add: spf3_eval)
  moreover have "hops_of (spf3_run (\<lambda>_. 1) 1 example_neighbors3 example_index3) (NRouter 4) = [(0xa, 1)]"
    by (simp add: spf3_eval)
  ultimately show ?thesis by simp
qed

section \<open>Witnesses\<close>

definition example_lsa3 :: "LsaV3Type \<Rightarrow> ipv4 \<Rightarrow> u8 list \<Rightarrow> LsaKeyV3 \<times> LsaEntryV3" where
  "example_lsa3 t adv b =
     (\<lparr>k3_area = Some 0, k3_type = t, k3_lsid = 0, k3_adv = adv\<rparr>,
      \<lparr>e3_header = \<lparr>l3_age = 1, l3_type = t, l3_lsid = 0, l3_adv = adv, l3_seq = 1, l3_checksum = 0, l3_length = 0\<rparr>,
       e3_raw = replicate 20 0 @ b, e3_area = Some 0\<rparr>)"

definition example_iap :: IntraAreaPrefixLsaV3 where
  "example_iap = \<lparr>iap_ls_type = 0x2001, iap_lsid = 0, iap_adv = 2, iap_prefixes = [example_prefix]\<rparr>"

definition example_rlsa :: RouterLsaV3 where
  "example_rlsa = \<lparr>r3_flags = 0, r3_options = 0, r3_links =
     [\<lparr>rl3_type = TYPE_POINT_TO_POINT, rl3_metric = 5, rl3_interface_id = 1, rl3_neighbor_interface_id = 1, rl3_neighbor_router_id = 2\<rparr>]\<rparr>"

definition example_db3 :: LsdbV3 where
  "example_db3 = \<lparr>entries3 = [example_lsa3 RouterV3 1 (router_lsa_v3_encode example_rlsa),
     example_lsa3 IntraAreaPrefixV3 2 (case intra_area_prefix_encode example_iap of Ok b \<Rightarrow> b | _ \<Rightarrow> [])], generation3 = 2\<rparr>"

lemma parse_example:
  "b \<noteq> [] \<Longrightarrow> parse_body p (snd (example_lsa3 t adv b)) = (case p b of Ok x \<Rightarrow> Some x | _ \<Rightarrow> None)"
  by (simp add: parse_body_def lsa3_body_def example_lsa3_def LSA_V3_HEADER_LEN_def)

lemma example_iap_bytes:
  obtains b where "intra_area_prefix_encode example_iap = Ok b" "intra_area_prefix_parse b = Ok example_iap" "b \<noteq> []"
proof -
  obtain b where b: "intra_area_prefix_encode example_iap = Ok b"
    using v3_bodies_encode(2) [of example_iap] wf_example_prefix by (auto simp: example_iap_def)
  moreover have "intra_area_prefix_parse b = Ok example_iap"
    using intra_area_prefix_round_trip [OF _ _ b] wf_example_prefix by (simp add: example_iap_def)
  moreover from this have "b \<noteq> []" by (auto simp: intra_area_prefix_parse_def)
  ultimately show thesis by (rule that)
qed

lemma example_index3_db:
  "spf3_index (lsdb3_iter example_db3) =
     \<lparr>router_lsas3 = [(1, example_rlsa)], network_lsas3 = [],
      intra_prefix_lsas = [snd (example_lsa3 IntraAreaPrefixV3 2 (case intra_area_prefix_encode example_iap of Ok b \<Rightarrow> b | _ \<Rightarrow> []))],
      inter_prefix_lsas = [], as_external_lsas = []\<rparr>"
proof -
  have "router_lsa_v3_parse (router_lsa_v3_encode example_rlsa) = Ok example_rlsa"
    by (rule router_lsa_v3_round_trip) (simp add: example_rlsa_def)
  moreover have "router_lsa_v3_encode example_rlsa \<noteq> []" by (simp add: router_lsa_v3_encode_def)
  ultimately have "parse_body router_lsa_v3_parse (snd (example_lsa3 RouterV3 1 (router_lsa_v3_encode example_rlsa))) = Some example_rlsa"
    by (simp add: parse_example)
  moreover have "l3_type (e3_header (snd (example_lsa3 t a b))) = t" "l3_adv (e3_header (snd (example_lsa3 t a b))) = a" for t a b
    by (simp_all add: example_lsa3_def)
  ultimately show ?thesis
    by (simp add: spf3_index_def lsdb3_iter_def example_db3_def spf3_index_entry_def Let_def)
qed

lemma example_run3:
  "map_of (dist3 (spf3_run (\<lambda>_. 0) 1 example_neighbors3 (spf3_index (lsdb3_iter example_db3)))) (NRouter 2) = Some 5"
  "hops_of (spf3_run (\<lambda>_. 0) 1 example_neighbors3 (spf3_index (lsdb3_iter example_db3))) (NRouter 2) = [(0xa, 1)]"
  by (simp_all add: example_index3_db example_rlsa_def spf3_eval)

lemma len_example_db3: "lsdb3_len example_db3 \<le> 65537"
  by (simp add: lsdb3_len_def example_db3_def)

lemma resolved_example: "neighbors_resolved (spf3_index (lsdb3_iter example_db3)) 1 example_neighbors3"
  by (simp add: neighbors_resolved_def example_index3_db example_rlsa_def spf3_eval)

theorem v3_spf_shortest_paths_witness: "is_distance (spf3_edge (spf3_index (lsdb3_iter example_db3))) (NRouter 1) (NRouter 2) 5"
  using v3_spf_shortest_paths [OF len_example_db3 refl, where tie = "\<lambda>_. 0" and self = 1 and nbrs = example_neighbors3 and v = "NRouter 2"] example_run3(1) by simp

theorem v3_spf_loop_ends_witness: "pops3 (spf3_run (\<lambda>_. 0) 1 example_neighbors3 example_index3) \<le> 7"
proof -
  have "lsa3_nodes example_index3 = {NRouter 1, NRouter 2, NRouter 3, NNetwork 3 7}"
    by (auto simp: lsa3_nodes_def lsa3_routers_def example_index3_def)
  then show ?thesis
    using v3_spf_loop_ends [of "\<lambda>_. 0" 1 example_neighbors3 example_index3]
    by (simp add: lsa3_routers_def) (simp add: example_index3_def link3_edge_def TYPE_POINT_TO_POINT_def TYPE_TRANSIT_NETWORK_def)
qed

theorem v3_next_hops_on_shortest_paths_witness:
  "first_hop3 (spf3_index (lsdb3_iter example_db3)) 1 example_neighbors3 (0xa, 1) (NRouter 2) 5"
  using v3_next_hops_on_shortest_paths [OF len_example_db3 refl resolved_example example_run3(1)] example_run3(2) by simp

theorem v3_internal_routes_exact_witness:
  "\<lparr>ro3_prefix = pf_address example_prefix, ro3_prefix_len = 128, ro3_next_hops = [(0xa, 1)], ro3_cost = 5, ro3_kind = IntraV3\<rparr>
     \<in> set (calculate_spf_v3 (\<lambda>_. 0) 1 example_db3 example_neighbors3)"
proof -
  obtain b where b: "intra_area_prefix_encode example_iap = Ok b" "intra_area_prefix_parse b = Ok example_iap" "b \<noteq> []"
    by (rule example_iap_bytes)
  let ?e = "snd (example_lsa3 IntraAreaPrefixV3 2 b)"
  have "?e \<in> set (lsdb3_iter example_db3)" by (simp add: lsdb3_iter_def example_db3_def b)
  moreover have "advertises3 1 ?e (pf_address example_prefix) 128 (NRouter 2) 0 IntraV3"
    using parse_example [OF b(3), of intra_area_prefix_parse] b(2)
    by (simp add: advertises3_def example_lsa3_def example_iap_def ref_node_def lsa_v3_type_from_u16_def example_prefix_def)
  moreover have "is_distance (spf3_edge (spf3_index (lsdb3_iter example_db3))) (NRouter 1) (NRouter 2) 5"
    using spf3_run_dist_iff(1) [THEN iffD1, OF _ example_run3(1)] card_lsa3_routers [of example_db3] len_example_db3 by simp
  ultimately show ?thesis
    using v3_internal_routes_exact [OF len_example_db3 refl, of "\<lparr>ro3_prefix = pf_address example_prefix, ro3_prefix_len = 128,
        ro3_next_hops = [(0xa, 1)], ro3_cost = 5, ro3_kind = IntraV3\<rparr>" "\<lambda>_. 0" 1 example_neighbors3] example_run3(2)
    by (fastforce)
qed

theorem v3_forwarding_longest_match_witness:
  "\<exists>r. resolve_forwarding (reachable3 [\<lparr>ro3_prefix = 0, ro3_prefix_len = 0, ro3_next_hops = [], ro3_cost = 1, ro3_kind = IntraV3\<rparr>,
       \<lparr>ro3_prefix = 0, ro3_prefix_len = 8, ro3_next_hops = [], ro3_cost = 2, ro3_kind = InterV3\<rparr>]) 0 = Some r \<and> 8 \<le> ro3_prefix_len r"
  (is "\<exists>r. resolve_forwarding (reachable3 ?rs) 0 = Some r \<and> _")
proof -
  have "prefix_matches_v3 0 (ro3_prefix (?rs ! 1)) (ro3_prefix_len (?rs ! 1))" by (simp add: prefix_matches_v3_def)
  then show ?thesis
    using v3_forwarding_longest_match [of ?rs 0] by (cases "resolve_forwarding (reachable3 ?rs) 0") auto
qed

end
