(* ===== verification/Rib_V3.thy ===== *)
theory Rib_V3
  imports Rib Spf_V3_Paths
begin

text \<open>
  \<^verbatim>\<open>src/rib_v3.rs\<close>: the cache of the last OSPFv3 routes, which keeps the cheapest route of a prefix and merges
  the next hops of equally cheap ones, and the batches \<^verbatim>\<open>src/rib_client.rs\<close> pushes for OSPFv3.
\<close>

section \<open>The cache\<close>

record RouteKeyV3 =
  rk3_prefix :: ipv6
  rk3_prefix_len :: u8

record RouteValueV3 =
  rv3_next_hops :: "(ipv6 \<times> u32) list"
  rv3_cost :: u32

type_synonym OspfRibV3 = "(RouteKeyV3 \<times> RouteValueV3) list"

definition rib3_new :: OspfRibV3 where
  "rib3_new = []"

definition route3_key :: "Ospfv3Route \<Rightarrow> RouteKeyV3" where
  "route3_key r = \<lparr>rk3_prefix = ro3_prefix r, rk3_prefix_len = ro3_prefix_len r\<rparr>"

definition route3_value :: "Ospfv3Route \<Rightarrow> RouteValueV3" where
  "route3_value r = \<lparr>rv3_next_hops = ro3_next_hops r, rv3_cost = ro3_cost r\<rparr>"

definition rib3_entry :: "Ospfv3Route \<Rightarrow> OspfRibV3 \<Rightarrow> OspfRibV3" where
  "rib3_entry r m =
     (case map_of m (route3_key r) of
        Some e \<Rightarrow>
          if ro3_cost r < rv3_cost e then AList.update (route3_key r) (route3_value r) m
          else if ro3_cost r = rv3_cost e then
            AList.update (route3_key r) (e\<lparr>rv3_next_hops := merge_hops (rv3_next_hops e) (ro3_next_hops r)\<rparr>) m
          else m
      | None \<Rightarrow> AList.update (route3_key r) (route3_value r) m)"

definition apply_routes_v3 :: "Ospfv3Route list \<Rightarrow> OspfRibV3 \<Rightarrow> (nat \<times> nat) \<times> OspfRibV3" where
  "apply_routes_v3 new_routes installed =
     (let new_map = fold rib3_entry new_routes [];
          deleted = length (filter (\<lambda>(k, _). map_of new_map k = None) installed);
          added = length (filter (\<lambda>(k, v). map_of installed k \<noteq> Some v) new_map)
      in ((added, deleted), new_map))"

definition rib3_clear :: "OspfRibV3 \<Rightarrow> OspfRibV3" where
  "rib3_clear m = []"

definition route3_count :: "OspfRibV3 \<Rightarrow> nat" where
  "route3_count m = length m"

section \<open>Batches for ribd\<close>

datatype SourceV6 = Ospf6Intra | Ospf6Inter | Ospf6Ext1 | Ospf6Ext2

record ProtoRouteV6 =
  p6_prefix :: "ipv6 \<times> u8"
  p6_source :: SourceV6
  p6_next_hops :: "(ipv6 \<times> u32) list"
  p6_metric :: u32
  p6_tag :: u32
  p6_admin_distance :: "u8 option"
  p6_table_id :: u32

definition ospfv3_route_to_proto :: "Ospfv3Route \<Rightarrow> SourceV6 \<Rightarrow> u32 \<Rightarrow> ProtoRouteV6" where
  "ospfv3_route_to_proto r source table_id =
     \<lparr>p6_prefix = (ro3_prefix r, ro3_prefix_len r), p6_source = source, p6_next_hops = ro3_next_hops r,
      p6_metric = ro3_cost r, p6_tag = 0, p6_admin_distance = None, p6_table_id = table_id\<rparr>"

fun kind_source_v6 :: "Ospfv3RouteKind \<Rightarrow> SourceV6" where
  "kind_source_v6 IntraV3 = Ospf6Intra"
| "kind_source_v6 InterV3 = Ospf6Inter"
| "kind_source_v6 External1V3 = Ospf6Ext1"
| "kind_source_v6 External2V3 = Ospf6Ext2"

definition to_proto_v6 :: "u32 \<Rightarrow> (Ospfv3RouteKind \<Rightarrow> u8 option) \<Rightarrow> Ospfv3Route \<Rightarrow> ProtoRouteV6" where
  "to_proto_v6 table_id ad_override r =
     (ospfv3_route_to_proto r (kind_source_v6 (ro3_kind r)) table_id)\<lparr>p6_admin_distance := ad_override (ro3_kind r)\<rparr>"

definition push_v6 ::
  "u32 \<Rightarrow> (Ospfv3RouteKind \<Rightarrow> u8 option) \<Rightarrow> Ospfv3Route list \<Rightarrow> (SourceV6 \<times> ProtoRouteV6 list) list" where
  "push_v6 table_id ad_override routes =
     (let of_kind = (\<lambda>k. map (to_proto_v6 table_id ad_override) (filter (\<lambda>r. ro3_kind r = k) routes))
      in [(Ospf6Intra, of_kind IntraV3), (Ospf6Inter, of_kind InterV3),
          (Ospf6Ext1, of_kind External1V3), (Ospf6Ext2, of_kind External2V3)])"

definition withdraw_v6 :: "(SourceV6 \<times> ProtoRouteV6 list) list" where
  "withdraw_v6 = [(Ospf6Intra, []), (Ospf6Inter, []), (Ospf6Ext1, []), (Ospf6Ext2, [])]"

section \<open>What the cache holds\<close>

lemma distinct_rib3_entry: "distinct (map fst m) \<Longrightarrow> distinct (map fst (rib3_entry r m))"
  by (simp add: rib3_entry_def distinct_update split: option.split)

lemma distinct_fold_rib3_entry: "distinct (map fst m) \<Longrightarrow> distinct (map fst (fold rib3_entry rs m))"
  by (induction rs arbitrary: m) (simp_all add: distinct_rib3_entry)

text \<open>The value is of least cost among the routes of the key, and has the next hops of all of that cost.\<close>

definition best3 :: "Ospfv3Route list \<Rightarrow> RouteKeyV3 \<Rightarrow> RouteValueV3 \<Rightarrow> bool" where
  "best3 rs k v \<longleftrightarrow> (\<exists>r \<in> set rs. route3_key r = k \<and> ro3_cost r = rv3_cost v) \<and>
     (\<forall>r \<in> set rs. route3_key r = k \<longrightarrow> rv3_cost v \<le> ro3_cost r) \<and>
     set (rv3_next_hops v) = (\<Union>r \<in> {r \<in> set rs. route3_key r = k \<and> ro3_cost r = rv3_cost v}. set (ro3_next_hops r))"

lemma map_of_rib3_entry:
  "map_of (rib3_entry r m) k =
     (if k = route3_key r then
        (case map_of m k of
           None \<Rightarrow> Some (route3_value r)
         | Some e \<Rightarrow>
             if ro3_cost r < rv3_cost e then Some (route3_value r)
             else if ro3_cost r = rv3_cost e then Some (e\<lparr>rv3_next_hops := merge_hops (rv3_next_hops e) (ro3_next_hops r)\<rparr>)
             else Some e)
      else map_of m k)"
  by (auto simp: rib3_entry_def update_conv' split: option.split)

lemma best3_first: "\<forall>r \<in> set rs. route3_key r \<noteq> k \<Longrightarrow> route3_key r = k \<Longrightarrow> best3 (rs @ [r]) k (route3_value r)"
  by (auto simp: best3_def route3_value_def)

lemma best3_cheaper: "best3 rs k v \<Longrightarrow> route3_key r = k \<Longrightarrow> ro3_cost r < rv3_cost v \<Longrightarrow> best3 (rs @ [r]) k (route3_value r)"
proof -
  assume v: "best3 rs k v" and r: "route3_key r = k" "ro3_cost r < rv3_cost v"
  have gt: "ro3_cost r < ro3_cost x" if "x \<in> set rs" "route3_key x = k" for x
  proof -
    have "rv3_cost v \<le> ro3_cost x" using v that unfolding best3_def by blast
    with r(2) show ?thesis by (rule order_less_le_trans)
  qed
  then have "{x \<in> set (rs @ [r]). route3_key x = k \<and> ro3_cost x = ro3_cost r} = {r}" using r(1) by fastforce
  with gt r(1) show ?thesis by (auto simp: best3_def route3_value_def intro: order_less_imp_le)
qed

lemma best3_equal:
  "best3 rs k v \<Longrightarrow> route3_key r = k \<Longrightarrow> ro3_cost r = rv3_cost v \<Longrightarrow>
   best3 (rs @ [r]) k (v\<lparr>rv3_next_hops := merge_hops (rv3_next_hops v) (ro3_next_hops r)\<rparr>)"
  unfolding best3_def by auto

lemma best3_other: "best3 rs k v \<Longrightarrow> route3_key r \<noteq> k \<or> rv3_cost v < ro3_cost r \<Longrightarrow> best3 (rs @ [r]) k v"
  unfolding best3_def by auto

lemma fold_rib3_entry_best:
  "case map_of (fold rib3_entry rs []) k of
     None \<Rightarrow> \<forall>r \<in> set rs. route3_key r \<noteq> k | Some v \<Rightarrow> best3 rs k v"
proof (induction rs rule: rev_induct)
  case (snoc r rs)
  show ?case
  proof (cases "map_of (fold rib3_entry rs []) k")
    case None
    with snoc best3_first [of rs k r] show ?thesis by (auto simp: map_of_rib3_entry)
  next
    case (Some v)
    with snoc have v: "best3 rs k v" by simp
    show ?thesis
      using Some best3_cheaper [OF v, of r] best3_equal [OF v, of r] best3_other [OF v, of r]
      by (auto simp: map_of_rib3_entry)
  qed
qed simp

text \<open>
  C32. After an update the OSPFv3 cache has an entry for a prefix exactly when some route has that prefix. The
  entry has the least cost of these routes and the next hops of all routes of that cost. The numbers of
  added and deleted entries are both zero exactly when the cache did not change.
\<close>

theorem rib3_merges_cheapest:
  assumes "distinct (map fst m)"
  shows "(case map_of (snd (apply_routes_v3 rs m)) k of
       None \<Rightarrow> \<forall>r \<in> set rs. route3_key r \<noteq> k | Some v \<Rightarrow> best3 rs k v) \<and>
    (fst (apply_routes_v3 rs m) = (0, 0) \<longleftrightarrow> map_of (snd (apply_routes_v3 rs m)) = map_of m)"
proof
  show "case map_of (snd (apply_routes_v3 rs m)) k of
       None \<Rightarrow> \<forall>r \<in> set rs. route3_key r \<noteq> k | Some v \<Rightarrow> best3 rs k v"
    using fold_rib3_entry_best by (simp add: apply_routes_v3_def Let_def)
  show "fst (apply_routes_v3 rs m) = (0, 0) \<longleftrightarrow> map_of (snd (apply_routes_v3 rs m)) = map_of m"
    using diff_zero [OF assms distinct_fold_rib3_entry [of "[]" rs]] by (auto simp: apply_routes_v3_def Let_def)
qed

theorem rib3_merges_cheapest_witness:
  "\<exists>v. map_of (snd (apply_routes_v3 [\<lparr>ro3_prefix = 1, ro3_prefix_len = 64, ro3_next_hops = [(10, 1)], ro3_cost = 5, ro3_kind = IntraV3\<rparr>,
        \<lparr>ro3_prefix = 1, ro3_prefix_len = 64, ro3_next_hops = [(11, 2)], ro3_cost = 5, ro3_kind = InterV3\<rparr>] []))
      \<lparr>rk3_prefix = 1, rk3_prefix_len = 64\<rparr> = Some v \<and>
    best3 [\<lparr>ro3_prefix = 1, ro3_prefix_len = 64, ro3_next_hops = [(10, 1)], ro3_cost = 5, ro3_kind = IntraV3\<rparr>,
        \<lparr>ro3_prefix = 1, ro3_prefix_len = 64, ro3_next_hops = [(11, 2)], ro3_cost = 5, ro3_kind = InterV3\<rparr>]
      \<lparr>rk3_prefix = 1, rk3_prefix_len = 64\<rparr> v"
  (is "\<exists>v. map_of (snd (apply_routes_v3 ?rs [])) ?k = Some v \<and> _")
proof -
  have "case map_of (snd (apply_routes_v3 ?rs [])) ?k of
       None \<Rightarrow> \<forall>r \<in> set ?rs. route3_key r \<noteq> ?k | Some v \<Rightarrow> best3 ?rs ?k v"
    using rib3_merges_cheapest [of "[]" ?rs ?k] by simp
  then show ?thesis
    by (cases "map_of (snd (apply_routes_v3 ?rs [])) ?k") (simp_all add: route3_key_def)
qed

end
