(* ===== verification/Instance_V3.thy ===== *)
theory Instance_V3
  imports Origination Rib_V3
begin

text \<open>
  \<^verbatim>\<open>src/instance_v3.rs\<close>, first part: the state of an OSPFv3 instance, its interfaces and neighbors, Hello
  processing, the election of the designated router, the timers, the reconciliation of interface state and
  the reload of the configuration. Every handler reads the clock once, as the argument \<open>now\<close>. The election is
  shown to be the one of OSPFv2 on router ids in place of addresses.
\<close>

section \<open>State\<close>

datatype NeighborStateV3 = DownV3 | InitV3 | TwoWayV3 | ExStartV3 | ExchangeV3 | LoadingV3 | FullV3

fun state3_rank :: "NeighborStateV3 \<Rightarrow> nat" where
  "state3_rank DownV3 = 0"
| "state3_rank InitV3 = 1"
| "state3_rank TwoWayV3 = 2"
| "state3_rank ExStartV3 = 3"
| "state3_rank ExchangeV3 = 4"
| "state3_rank LoadingV3 = 5"
| "state3_rank FullV3 = 6"

lemma state3_rank_inj: "state3_rank s = state3_rank t \<Longrightarrow> s = t"
  by (cases s; cases t) simp_all

instantiation NeighborStateV3 :: linorder
begin

definition less_eq_NeighborStateV3 :: "NeighborStateV3 \<Rightarrow> NeighborStateV3 \<Rightarrow> bool" where
  "less_eq_NeighborStateV3 s t \<longleftrightarrow> state3_rank s \<le> state3_rank t"

definition less_NeighborStateV3 :: "NeighborStateV3 \<Rightarrow> NeighborStateV3 \<Rightarrow> bool" where
  "less_NeighborStateV3 s t \<longleftrightarrow> state3_rank s < state3_rank t"

instance
  by standard (auto simp: less_eq_NeighborStateV3_def less_NeighborStateV3_def intro: state3_rank_inj)

end

lemmas state3_order = less_eq_NeighborStateV3_def less_NeighborStateV3_def

record NeighborV3 =
  nb3_router_id :: ipv4
  nb3_interface_id :: u32
  nb3_link_local :: ipv6
  nb3_priority :: u8
  nb3_dr :: ipv4
  nb3_bdr :: ipv4
  nb3_state :: NeighborStateV3
  nb3_last_hello :: instant
  nb3_dd_master :: bool
  nb3_dd_seq :: u32
  nb3_summary_recv :: "LsaV3Header list"
  nb3_summary_tx :: "LsaV3Header list"
  nb3_last_dd_tx :: "DbDescV3Packet option"
  nb3_last_dd_sent :: instant
  nb3_response_pending :: bool
  nb3_request_list :: "LsaV3Header list"
  nb3_pending_acks :: "LsaV3Header list"
  nb3_pending_lsu :: "LsaV3Raw list"
  nb3_lsr_pending :: bool
  nb3_last_lsr_sent :: "instant option"
  nb3_send_final :: bool
  nb3_peer_done :: bool

datatype InterfaceStateV3 = IfDownV3 | WaitingV3 | DRV3 | BackupV3 | DROtherV3 | PointToPointV3

datatype NetworkTypeV3 = NetBroadcastV3 | NetPointToPointV3 | NetNonBroadcastV3 | NetPointToMultipointV3

text \<open>The network types that elect a designated router.\<close>

definition elects_dr :: "NetworkTypeV3 \<Rightarrow> bool" where
  "elects_dr t = (case t of NetBroadcastV3 \<Rightarrow> True | NetNonBroadcastV3 \<Rightarrow> True | _ \<Rightarrow> False)"

record StaticNeighborV3 =
  st3_link_local :: ipv6
  st3_priority :: u8

record IoInterfaceV3 =
  io3_name :: string
  io3_sw_if_index :: u32
  io3_kernel_ifindex :: u32
  io3_link_local :: ipv6
  io3_mac_address :: "u8 list"
  io3_outer_vlan_id :: "u16 option"
  io3_inner_vlan_id :: "u16 option"

record RxPacketV3 =
  rx3_sw_if_index :: u32
  rx3_src_addr :: ipv6
  rx3_dst_addr :: ipv6
  rx3_data :: "u8 list"

record TxPacketV3 =
  tx3_sw_if_index :: u32
  tx3_src_addr :: ipv6
  tx3_dst_addr :: ipv6
  tx3_data :: "u8 list"

record InterfaceV3 =
  if3_io :: IoInterfaceV3
  if3_area_id :: ipv4
  if3_interface_id :: u32
  if3_network_type :: NetworkTypeV3
  if3_hello_interval :: u16
  if3_dead_interval :: u16
  if3_retransmit_interval :: u16
  if3_transmit_delay :: u16
  if3_priority :: u8
  if3_cost :: u16
  if3_instance_id :: u8
  if3_state :: InterfaceStateV3
  if3_dr :: ipv4
  if3_bdr :: ipv4
  if3_neighbors :: "(ipv4 \<times> NeighborV3) list"
  if3_last_hello_sent :: instant
  if3_needs_refresh :: bool
  if3_global_prefixes :: "(ipv6 \<times> u8) list"
  if3_static_neighbors :: "StaticNeighborV3 list"

record ParsedSummaryAddress6 =
  s6_prefix :: ipv6
  s6_prefix_len :: u8
  s6_no_advertise :: bool
  s6_tag :: u32
  s6_metric :: u32
  s6_metric_type :: u8

record Ospf6InterfaceConfig =
  ic6_name :: string
  ic6_area_id :: ipv4
  ic6_cost :: u16
  ic6_passive :: bool
  ic6_network_type :: string
  ic6_hello_interval :: u16
  ic6_dead_interval :: u32
  ic6_priority :: u8
  ic6_instance_id :: u8
  ic6_retransmit_interval :: u16
  ic6_transmit_delay :: u16
  ic6_static_neighbors :: "(ipv6 \<times> u8) list"

record 'c Ospf6DaemonConfig =
  d6_vrf_name :: "string option"
  d6_table_id_v6 :: u32
  d6_router_id :: ipv4
  d6_reference_bandwidth :: u32
  d6_interfaces :: "Ospf6InterfaceConfig list"
  d6_redistribute :: "RedistributeConfig list"
  d6_areas :: "AreaConfig list"
  d6_distance :: "u8 option"
  d6_default_originate :: bool
  d6_default_originate_metric :: u32
  d6_default_originate_metric_type :: u8
  d6_summary_addresses :: "ParsedSummaryAddress6 list"
  d6_route_maps :: "(string \<times> 'c RouteMap) list"

record 'c InstanceV3 =
  i3_vrf_name :: "string option"
  i3_router_id :: ipv4
  i3_interfaces :: "(u32 \<times> InterfaceV3) list"
  i3_lsdb :: LsdbV3
  i3_area_types :: "(ipv4 \<times> AreaType) list"
  i3_asbr :: bool
  i3_redistribute :: "RedistributeConfig list"
  i3_route_maps :: "(string \<times> 'c RouteMap) list"
  i3_summary_addresses :: "ParsedSummaryAddress6 list"
  i3_installed_route_count :: nat

definition instance3_new :: "ipv4 \<Rightarrow> 'c InstanceV3" where
  "instance3_new rid =
     \<lparr>i3_vrf_name = None, i3_router_id = rid, i3_interfaces = [], i3_lsdb = lsdb3_new, i3_area_types = [], i3_asbr = False,
      i3_redistribute = [], i3_route_maps = [], i3_summary_addresses = [], i3_installed_route_count = 0\<rparr>"

definition set_area_type :: "ipv4 \<Rightarrow> AreaType \<Rightarrow> 'c InstanceV3 \<Rightarrow> 'c InstanceV3" where
  "set_area_type aid t s = s\<lparr>i3_area_types := AList.update aid t (i3_area_types s)\<rparr>"

definition area_type3 :: "'c InstanceV3 \<Rightarrow> ipv4 \<Rightarrow> AreaType" where
  "area_type3 s aid = (case map_of (i3_area_types s) aid of Some t \<Rightarrow> t | None \<Rightarrow> Normal)"

text \<open>A \<^verbatim>\<open>HashSet\<close> of area ids, in the order of first occurrence.\<close>

definition is_abr3 :: "'c InstanceV3 \<Rightarrow> bool" where
  "is_abr3 s =
     (let areas = remdups (map if3_area_id (filter (\<lambda>i. if3_state i \<noteq> IfDownV3) (map snd (i3_interfaces s))))
      in 2 \<le> length areas \<and> UNSPECIFIED \<in> set areas)"

definition is_asbr3 :: "'c InstanceV3 \<Rightarrow> bool" where
  "is_asbr3 s = i3_asbr s"

definition set_asbr :: "bool \<Rightarrow> 'c InstanceV3 \<Rightarrow> 'c InstanceV3" where
  "set_asbr b s = s\<lparr>i3_asbr := b\<rparr>"

definition areas3 :: "'c InstanceV3 \<Rightarrow> ipv4 list" where
  "areas3 s = remdups (map (if3_area_id \<circ> snd) (i3_interfaces s))"

definition up_state :: "NetworkTypeV3 \<Rightarrow> InterfaceStateV3" where
  "up_state t = (if elects_dr t then WaitingV3 else PointToPointV3)"

definition add_interface_full ::
  "instant \<Rightarrow> IoInterfaceV3 \<Rightarrow> ipv4 \<Rightarrow> NetworkTypeV3 \<Rightarrow> u16 \<Rightarrow> u16 \<Rightarrow> u8 \<Rightarrow> (ipv6 \<times> u8) list \<Rightarrow> u16 \<Rightarrow> u16 \<Rightarrow> u16 \<Rightarrow>
   'c InstanceV3 \<Rightarrow> 'c InstanceV3" where
  "add_interface_full now io aid ntype hello dead prio prefixes rxmt delay cost s =
     s\<lparr>i3_interfaces := AList.update (io3_sw_if_index io)
        \<lparr>if3_io = io, if3_area_id = aid, if3_interface_id = io3_kernel_ifindex io, if3_network_type = ntype,
         if3_hello_interval = hello, if3_dead_interval = dead, if3_retransmit_interval = rxmt, if3_transmit_delay = delay,
         if3_priority = prio, if3_cost = cost, if3_instance_id = 0, if3_state = up_state ntype,
         if3_dr = UNSPECIFIED, if3_bdr = UNSPECIFIED, if3_neighbors = [], if3_last_hello_sent = now - 3600000,
         if3_needs_refresh = True, if3_global_prefixes = prefixes, if3_static_neighbors = []\<rparr> (i3_interfaces s)\<rparr>"

definition add_interface ::
  "instant \<Rightarrow> IoInterfaceV3 \<Rightarrow> ipv4 \<Rightarrow> NetworkTypeV3 \<Rightarrow> u16 \<Rightarrow> u16 \<Rightarrow> u8 \<Rightarrow> (ipv6 \<times> u8) list \<Rightarrow> 'c InstanceV3 \<Rightarrow> 'c InstanceV3" where
  "add_interface now io aid ntype hello dead prio prefixes s =
     add_interface_full now io aid ntype hello dead prio prefixes 5 1 10 s"

definition set_static_neighbors_v3 :: "u32 \<Rightarrow> StaticNeighborV3 list \<Rightarrow> 'c InstanceV3 \<Rightarrow> 'c InstanceV3" where
  "set_static_neighbors_v3 sw ns s =
     s\<lparr>i3_interfaces := modify_key (\<lambda>i. i\<lparr>if3_static_neighbors := ns\<rparr>) sw (i3_interfaces s)\<rparr>"

section \<open>Election of the designated router\<close>

record CandidateV3 =
  c3_router_id :: ipv4
  c3_priority :: u8
  c3_declared_dr :: ipv4
  c3_declared_bdr :: ipv4

definition neighbor3_candidate :: "NeighborV3 \<Rightarrow> CandidateV3" where
  "neighbor3_candidate n =
     \<lparr>c3_router_id = nb3_router_id n, c3_priority = nb3_priority n, c3_declared_dr = nb3_dr n, c3_declared_bdr = nb3_bdr n\<rparr>"

definition election3_candidates :: "ipv4 \<Rightarrow> InterfaceV3 \<Rightarrow> ipv4 \<Rightarrow> ipv4 \<Rightarrow> CandidateV3 list" where
  "election3_candidates self i dr bdr =
     map neighbor3_candidate (filter (\<lambda>n. nb3_state n \<ge> TwoWayV3 \<and> nb3_priority n > 0) (map snd (if3_neighbors i))) @
     (if if3_priority i > 0 then
        [\<lparr>c3_router_id = self, c3_priority = if3_priority i, c3_declared_dr = dr, c3_declared_bdr = bdr\<rparr>]
      else [])"

definition bdr3_order :: "CandidateV3 \<Rightarrow> CandidateV3 \<Rightarrow> ordering" where
  "bdr3_order a b =
     then_cmp (then_cmp
       (cmp (c3_declared_bdr a = c3_router_id a) (c3_declared_bdr b = c3_router_id b))
       (cmp (c3_priority a) (c3_priority b)))
       (cmp (c3_router_id a) (c3_router_id b))"

definition dr3_order :: "CandidateV3 \<Rightarrow> CandidateV3 \<Rightarrow> ordering" where
  "dr3_order a b = then_cmp (cmp (c3_priority a) (c3_priority b)) (cmp (c3_router_id a) (c3_router_id b))"

definition elect3_pass :: "CandidateV3 list \<Rightarrow> ipv4 \<times> ipv4" where
  "elect3_pass candidates =
     (let bdr = map_option c3_router_id (max_by bdr3_order (filter (\<lambda>c. c3_declared_dr c \<noteq> c3_router_id c) candidates));
          dr_declarer = map_option c3_router_id (max_by dr3_order (filter (\<lambda>c. c3_declared_dr c = c3_router_id c) candidates));
          new_dr = (case dr_declarer of Some d \<Rightarrow> d | None \<Rightarrow> (case bdr of Some b \<Rightarrow> b | None \<Rightarrow> UNSPECIFIED));
          new_bdr =
            (if Some new_dr = bdr then
               (case max_by dr3_order (filter (\<lambda>c. c3_router_id c \<noteq> new_dr) candidates) of
                  Some c \<Rightarrow> c3_router_id c | None \<Rightarrow> UNSPECIFIED)
             else (case bdr of Some b \<Rightarrow> b | None \<Rightarrow> UNSPECIFIED))
      in (new_dr, new_bdr))"

definition election3_result :: "ipv4 \<Rightarrow> InterfaceV3 \<Rightarrow> ipv4 \<times> ipv4" where
  "election3_result self i =
     (let (new_dr, new_bdr) = elect3_pass (election3_candidates self i (if3_dr i) (if3_bdr i));
          had_prior_role = (if3_dr i = self \<or> if3_bdr i = self)
      in if had_prior_role \<and> ((if3_dr i = self) \<noteq> (new_dr = self) \<or> (if3_bdr i = self) \<noteq> (new_bdr = self))
         then elect3_pass (election3_candidates self i new_dr new_bdr)
         else (new_dr, new_bdr))"

definition dr_election_v3 :: "ipv4 \<Rightarrow> InterfaceV3 \<Rightarrow> InterfaceV3" where
  "dr_election_v3 self i =
     (let (new_dr, new_bdr) = election3_result self i
      in i\<lparr>if3_dr := new_dr, if3_bdr := new_bdr,
           if3_state := (if new_dr = self then DRV3 else if new_bdr = self then BackupV3 else DROtherV3)\<rparr>)"

section \<open>Hello\<close>

definition build_v3_packet ::
  "ipv4 \<Rightarrow> ipv4 \<Rightarrow> u8 \<Rightarrow> Ospfv3PacketType \<Rightarrow> u8 list \<Rightarrow> u32 \<Rightarrow> ipv6 \<Rightarrow> ipv6 \<Rightarrow> TxPacketV3 parsed3" where
  "build_v3_packet rid aid inst ptype bytes sw src dst =
     bindR (ospfv3_total_length (length bytes)) (\<lambda>len.
     Ok \<lparr>tx3_sw_if_index = sw, tx3_src_addr = src, tx3_dst_addr = dst,
         tx3_data = ospfv3_header_encode ((ospfv3_header_new ptype rid aid)\<lparr>h3_packet_length := len, h3_instance_id := inst\<rparr>) @ bytes\<rparr>)"

definition encode_hello :: "ipv4 \<Rightarrow> InterfaceV3 \<Rightarrow> u8 list parsed3" where
  "encode_hello rid i =
     (let bytes = hello_v3_encode \<lparr>hv_interface_id = if3_interface_id i, hv_router_priority = if3_priority i,
            hv_options = options_v3_standard, hv_hello_interval = if3_hello_interval i,
            hv_router_dead_interval = if3_dead_interval i, hv_dr = if3_dr i, hv_bdr = if3_bdr i,
            hv_neighbors = map fst (if3_neighbors i)\<rparr>
      in bindR (ospfv3_total_length (length bytes)) (\<lambda>len.
         Ok (ospfv3_header_encode ((ospfv3_header_new V3_Hello rid (if3_area_id i))\<lparr>h3_packet_length := len,
               h3_instance_id := if3_instance_id i\<rparr>) @ bytes)))"

text \<open>A loop over the interfaces that sends packets; one iteration may panic.\<close>

fun each3 :: "('k \<Rightarrow> 'i \<Rightarrow> ('o list \<times> 'i) parsed3) \<Rightarrow> ('k \<times> 'i) list \<Rightarrow> ('o list \<times> ('k \<times> 'i) list) parsed3" where
  "each3 f [] = Ok ([], [])"
| "each3 f ((k, i) # m) =
     bindR (f k i) (\<lambda>(out, i'). bindR (each3 f m) (\<lambda>(outs, m'). Ok (out @ outs, (k, i') # m')))"

definition hello_tick_iface :: "instant \<Rightarrow> ipv4 \<Rightarrow> u32 \<Rightarrow> InterfaceV3 \<Rightarrow> (TxPacketV3 list \<times> InterfaceV3) parsed3" where
  "hello_tick_iface now rid sw i =
     (if if3_state i = IfDownV3 then Ok ([], i)
      else if saturating_duration_since now (if3_last_hello_sent i) \<ge> 1000 * unat (if3_hello_interval i) then
        (let i = i\<lparr>if3_last_hello_sent := now\<rparr> in
         bindR (encode_hello rid i) (\<lambda>bytes.
           (let dests = (if if3_network_type i = NetNonBroadcastV3 then map st3_link_local (if3_static_neighbors i)
                         else [ALL_SPF_ROUTERS_V6])
            in Ok (map (\<lambda>dst. \<lparr>tx3_sw_if_index = io3_sw_if_index (if3_io i), tx3_src_addr = io3_link_local (if3_io i),
                       tx3_dst_addr = dst, tx3_data = bytes\<rparr>) dests, i))))
      else Ok ([], i))"

definition hello_tick :: "instant \<Rightarrow> 'c InstanceV3 \<Rightarrow> (TxPacketV3 list \<times> 'c InstanceV3) parsed3" where
  "hello_tick now s =
     bindR (each3 (hello_tick_iface now (i3_router_id s)) (i3_interfaces s)) (\<lambda>(out, m). Ok (out, s\<lparr>i3_interfaces := m\<rparr>))"

definition new_neighbor3 :: "instant \<Rightarrow> ipv4 \<Rightarrow> ipv6 \<Rightarrow> HelloV3Packet \<Rightarrow> NeighborV3" where
  "new_neighbor3 now src addr hello =
     \<lparr>nb3_router_id = src, nb3_interface_id = hv_interface_id hello, nb3_link_local = addr,
      nb3_priority = hv_router_priority hello, nb3_dr = hv_dr hello, nb3_bdr = hv_bdr hello, nb3_state = DownV3,
      nb3_last_hello = now, nb3_dd_master = False, nb3_dd_seq = 0, nb3_summary_recv = [], nb3_summary_tx = [],
      nb3_last_dd_tx = None, nb3_last_dd_sent = now - 3600000, nb3_response_pending = False, nb3_request_list = [],
      nb3_pending_acks = [], nb3_pending_lsu = [], nb3_lsr_pending = False, nb3_last_lsr_sent = None,
      nb3_send_final = False, nb3_peer_done = False\<rparr>"

text \<open>The states a Hello takes a neighbor through, before the adjacency decision.\<close>

definition hello3_state :: "bool \<Rightarrow> NeighborStateV3 \<Rightarrow> NeighborStateV3" where
  "hello3_state peer_saw_us st =
     (let st = (if st = DownV3 then InitV3 else st)
      in if peer_saw_us then (if st = InitV3 then TwoWayV3 else st)
         else if st \<ge> TwoWayV3 then InitV3 else st)"

definition hello3_neighbor :: "instant \<Rightarrow> ipv4 \<Rightarrow> ipv6 \<Rightarrow> HelloV3Packet \<Rightarrow> NeighborV3 \<Rightarrow> NeighborV3" where
  "hello3_neighbor now rid addr hello n =
     n\<lparr>nb3_last_hello := now, nb3_interface_id := hv_interface_id hello, nb3_link_local := addr,
       nb3_priority := hv_router_priority hello, nb3_dr := hv_dr hello, nb3_bdr := hv_bdr hello,
       nb3_state := hello3_state (rid \<in> set (hv_neighbors hello)) (nb3_state n)\<rparr>"

definition should_adj :: "ipv4 \<Rightarrow> InterfaceV3 \<Rightarrow> NeighborV3 \<Rightarrow> bool" where
  "should_adj rid i n =
     (if elects_dr (if3_network_type i) then
        if3_state i = DRV3 \<or> if3_state i = BackupV3 \<or> nb3_dr n = nb3_router_id n \<or> nb3_bdr n = nb3_router_id n \<or>
        nb3_dr n = rid \<or> nb3_bdr n = rid
      else True)"

definition adj_ok3 :: "ipv4 \<Rightarrow> InterfaceV3 \<Rightarrow> NeighborV3 \<Rightarrow> NeighborV3" where
  "adj_ok3 rid i n =
     (if should_adj rid i n \<and> nb3_state n = TwoWayV3 then n\<lparr>nb3_state := ExStartV3, nb3_dd_seq := 0\<rparr> else n)"

definition process_hello_v3 :: "instant \<Rightarrow> ipv4 \<Rightarrow> ipv4 \<Rightarrow> ipv6 \<Rightarrow> HelloV3Packet \<Rightarrow> InterfaceV3 \<Rightarrow> InterfaceV3" where
  "process_hello_v3 now rid src addr hello i =
     (if if3_state i = IfDownV3 then i
      else if hv_hello_interval hello \<noteq> if3_hello_interval i \<or> hv_router_dead_interval hello \<noteq> if3_dead_interval i then i
      else
        (let n = (case map_of (if3_neighbors i) src of Some n \<Rightarrow> n | None \<Rightarrow> new_neighbor3 now src addr hello);
             i = i\<lparr>if3_neighbors := AList.update src (hello3_neighbor now rid addr hello n) (if3_neighbors i)\<rparr>;
             i = (if elects_dr (if3_network_type i) then dr_election_v3 rid i else i)
         in i\<lparr>if3_neighbors := modify_key (adj_ok3 rid i) src (if3_neighbors i)\<rparr>))"

section \<open>Timers and interface state\<close>

definition expire_iface :: "instant \<Rightarrow> ipv4 \<Rightarrow> InterfaceV3 \<Rightarrow> InterfaceV3" where
  "expire_iface now rid i =
     (let alive = filter (\<lambda>(_, n). saturating_duration_since now (nb3_last_hello n) < 1000 * unat (if3_dead_interval i)) (if3_neighbors i);
          j = i\<lparr>if3_neighbors := alive\<rparr>
      in if length alive \<noteq> length (if3_neighbors i) \<and> elects_dr (if3_network_type i) then dr_election_v3 rid j else j)"

definition expire_neighbors :: "instant \<Rightarrow> 'c InstanceV3 \<Rightarrow> 'c InstanceV3" where
  "expire_neighbors now s = s\<lparr>i3_interfaces := map_values (\<lambda>_. expire_iface now (i3_router_id s)) (i3_interfaces s)\<rparr>"

definition tear_down :: "InterfaceV3 \<Rightarrow> InterfaceV3" where
  "tear_down i = i\<lparr>if3_state := IfDownV3, if3_neighbors := [], if3_dr := UNSPECIFIED, if3_bdr := UNSPECIFIED\<rparr>"

definition refresh_iface3 :: "ipv6 option \<Rightarrow> (ipv6 \<times> u8) list \<Rightarrow> bool \<Rightarrow> InterfaceV3 \<Rightarrow> bool \<times> InterfaceV3" where
  "refresh_iface3 ll prefixes oper_up i =
     (let (c1, i) =
            (case ll of
               Some a \<Rightarrow> if io3_link_local (if3_io i) \<noteq> a then (True, i\<lparr>if3_io := (if3_io i)\<lparr>io3_link_local := a\<rparr>\<rparr>) else (False, i)
             | None \<Rightarrow> if if3_state i \<noteq> IfDownV3 then (True, tear_down i) else (False, i));
          (c2, i) = (if if3_global_prefixes i \<noteq> prefixes then (True, i\<lparr>if3_global_prefixes := prefixes\<rparr>) else (False, i));
          was_up = (if3_state i \<noteq> IfDownV3);
          (c3, i) =
            (if oper_up \<and> \<not> was_up then (True, i\<lparr>if3_state := up_state (if3_network_type i)\<rparr>)
             else if \<not> oper_up \<and> was_up then (True, tear_down i)
             else (False, i));
          changed = (c1 \<or> c2 \<or> c3)
      in (changed, if changed then i\<lparr>if3_needs_refresh := True\<rparr> else i))"

definition refresh_interface_state_v3 ::
  "u32 \<Rightarrow> ipv6 option \<Rightarrow> (ipv6 \<times> u8) list \<Rightarrow> bool \<Rightarrow> 'c InstanceV3 \<Rightarrow> bool \<times> 'c InstanceV3" where
  "refresh_interface_state_v3 sw ll prefixes oper_up s =
     (case map_of (i3_interfaces s) sw of
        None \<Rightarrow> (False, s)
      | Some i \<Rightarrow>
          (let (changed, i') = refresh_iface3 ll prefixes oper_up i
           in (changed, s\<lparr>i3_interfaces := AList.update sw i' (i3_interfaces s)\<rparr>)))"

section \<open>Reload\<close>

definition reload3_iface :: "Ospf6InterfaceConfig \<Rightarrow> InterfaceV3 \<Rightarrow> bool \<times> InterfaceV3" where
  "reload3_iface c i =
     (let dead = (ucast (ic6_dead_interval c) :: u16);
          dirty = (if3_priority i \<noteq> ic6_priority c \<or> if3_cost i \<noteq> ic6_cost c);
          changed = (dirty \<or> if3_hello_interval i \<noteq> ic6_hello_interval c \<or> if3_dead_interval i \<noteq> dead \<or>
            if3_retransmit_interval i \<noteq> ic6_retransmit_interval c \<or> if3_transmit_delay i \<noteq> ic6_transmit_delay c)
      in (changed,
          i\<lparr>if3_priority := ic6_priority c, if3_cost := ic6_cost c, if3_hello_interval := ic6_hello_interval c,
            if3_dead_interval := dead, if3_retransmit_interval := ic6_retransmit_interval c,
            if3_transmit_delay := ic6_transmit_delay c, if3_needs_refresh := if3_needs_refresh i \<or> dirty\<rparr>))"

definition reload3_one :: "Ospf6InterfaceConfig \<Rightarrow> bool \<times> (u32 \<times> InterfaceV3) list \<Rightarrow> bool \<times> (u32 \<times> InterfaceV3) list" where
  "reload3_one c = (\<lambda>(changed, m).
     (case List.find (\<lambda>(_, i). io3_name (if3_io i) = ic6_name c) m of
        None \<Rightarrow> (changed, m)
      | Some (k, i) \<Rightarrow> (let (ch, i') = reload3_iface c i in (changed \<or> ch, AList.update k i' m))))"

definition reload_config_v3 :: "'c Ospf6DaemonConfig \<Rightarrow> 'c InstanceV3 \<Rightarrow> bool \<times> 'c InstanceV3" where
  "reload_config_v3 new s =
     (let (c1, m) = fold reload3_one (d6_interfaces new) (False, i3_interfaces s);
          s = s\<lparr>i3_interfaces := m\<rparr>;
          c2 = (i3_redistribute s \<noteq> d6_redistribute new);
          s = (if c2 then s\<lparr>i3_redistribute := d6_redistribute new, i3_asbr := (d6_redistribute new \<noteq> [])\<rparr> else s);
          s = s\<lparr>i3_route_maps := d6_route_maps new\<rparr>;
          c3 = (i3_summary_addresses s \<noteq> d6_summary_addresses new);
          s = (if c3 then s\<lparr>i3_summary_addresses := d6_summary_addresses new\<rparr> else s)
      in (c1 \<or> c2 \<or> c3, s))"

definition spf_neighbors_v3 :: "'c InstanceV3 \<Rightarrow> SpfNeighborV3 list" where
  "spf_neighbors_v3 s =
     concat (map (\<lambda>(_, i). map (\<lambda>(_, n). \<lparr>sn3_router_id = nb3_router_id n, sn3_link_local = nb3_link_local n,
         sn3_sw_if_index = io3_sw_if_index (if3_io i)\<rparr>) (filter (\<lambda>(_, n). nb3_state n = FullV3) (if3_neighbors i))) (i3_interfaces s))"

end
