(* ===== verification/Text_Addr.thy ===== *)
theory Text_Addr
  imports Codec_V3
begin

text \<open>
  Numbers and addresses as text: what the program uses of the \<^verbatim>\<open>FromStr\<close> and \<^verbatim>\<open>Display\<close> implementations of the standard
  library for \<^verbatim>\<open>u8\<close>, \<^verbatim>\<open>u32\<close>, \<^verbatim>\<open>Ipv4Addr\<close> and \<^verbatim>\<open>Ipv6Addr\<close>, and of \<^verbatim>\<open>str\<close>. A string is the list of its bytes.
\<close>

section \<open>Strings\<close>

text \<open>\<^verbatim>\<open>str::to_ascii_lowercase\<close>, \<^verbatim>\<open>starts_with\<close>, \<^verbatim>\<open>contains\<close>, \<^verbatim>\<open>split_once\<close> and \<^verbatim>\<open>as_bytes\<close>.\<close>

definition ascii_lower :: "char \<Rightarrow> char" where
  "ascii_lower c = (let n = of_char c :: nat in if 65 \<le> n \<and> n \<le> 90 then char_of (n + 32) else c)"

definition starts_with :: "string \<Rightarrow> string \<Rightarrow> bool" where
  "starts_with s p \<longleftrightarrow> take (length p) s = p"

fun str_contains :: "string \<Rightarrow> string \<Rightarrow> bool" where
  "str_contains [] p \<longleftrightarrow> p = []"
| "str_contains (c # s) p \<longleftrightarrow> starts_with (c # s) p \<or> str_contains s p"

fun split_once :: "char \<Rightarrow> string \<Rightarrow> (string \<times> string) option" where
  "split_once d [] = None"
| "split_once d (c # s) = (if c = d then Some ([], s) else map_option (apfst ((#) c)) (split_once d s))"

definition as_bytes :: "string \<Rightarrow> u8 list" where
  "as_bytes s = map of_char s"

section \<open>Numbers\<close>

definition to_digit :: "nat \<Rightarrow> char \<Rightarrow> nat option" where
  "to_digit radix c =
     (let n = of_char c :: nat;
          d = (if 48 \<le> n \<and> n \<le> 57 then n - 48
               else if 97 \<le> n \<and> n \<le> 122 then n - 87
               else if 65 \<le> n \<and> n \<le> 90 then n - 55
               else radix)
      in if d < radix then Some d else None)"

text \<open>The longest prefix of digits, and the number they denote.\<close>

fun digits :: "nat \<Rightarrow> string \<Rightarrow> nat list \<times> string" where
  "digits radix [] = ([], [])"
| "digits radix (c # s) =
     (case to_digit radix c of
        None \<Rightarrow> ([], c # s)
      | Some d \<Rightarrow> apfst ((#) d) (digits radix s))"

definition number :: "nat \<Rightarrow> nat list \<Rightarrow> nat" where
  "number radix ds = foldl (\<lambda>n d. n * radix + d) 0 ds"

text \<open>\<^verbatim>\<open>FromStr\<close> of an unsigned integer below \<open>bound\<close>: one plus sign is allowed, nothing may follow.\<close>

definition unsigned_from_str :: "nat \<Rightarrow> string \<Rightarrow> nat option" where
  "unsigned_from_str bound s =
     (let (ds, rest) = digits 10 (if take 1 s = ''+'' then drop 1 s else s)
      in if ds \<noteq> [] \<and> rest = [] \<and> number 10 ds < bound then Some (number 10 ds) else None)"

definition u8_from_str :: "string \<Rightarrow> u8 option" where
  "u8_from_str s = map_option of_nat (unsigned_from_str 256 s)"

definition u32_from_str :: "string \<Rightarrow> u32 option" where
  "u32_from_str s = map_option of_nat (unsigned_from_str 4294967296 s)"

definition digit_char :: "nat \<Rightarrow> char" where
  "digit_char d = char_of (48 + d)"

fun decimal :: "nat \<Rightarrow> string" where
  "decimal n = (if n < 10 then [digit_char n] else decimal (n div 10) @ [digit_char (n mod 10)])"

declare decimal.simps [simp del]

section \<open>Addresses\<close>

text \<open>The parser of \<^verbatim>\<open>core::net\<close>: each function consumes a prefix of the input or fails.\<close>

definition read_number :: "nat \<Rightarrow> nat \<Rightarrow> bool \<Rightarrow> nat \<Rightarrow> string \<Rightarrow> (nat \<times> string) option" where
  "read_number radix max_digits allow_zero_prefix bound s =
     (let (ds, rest) = digits radix s
      in if ds = [] \<or> length ds > max_digits \<or> (\<not> allow_zero_prefix \<and> hd ds = 0 \<and> length ds > 1) \<or> number radix ds \<ge> bound
         then None else Some (number radix ds, rest))"

definition read_separator :: "char \<Rightarrow> nat \<Rightarrow> (string \<Rightarrow> 'a option) \<Rightarrow> string \<Rightarrow> 'a option" where
  "read_separator sep i inner s = (if i = 0 then inner s else if take 1 s = [sep] then inner (drop 1 s) else None)"

definition read_octet :: "nat \<Rightarrow> string \<Rightarrow> (nat \<times> string) option" where
  "read_octet i = read_separator (CHR ''.'') i (read_number 10 3 False 256)"

definition read_ipv4_addr :: "string \<Rightarrow> (ipv4 \<times> string) option" where
  "read_ipv4_addr s =
     Option.bind (read_octet 0 s) (\<lambda>(a, s). Option.bind (read_octet 1 s) (\<lambda>(b, s).
     Option.bind (read_octet 2 s) (\<lambda>(c, s). Option.bind (read_octet 3 s) (\<lambda>(d, s).
     Some (u32_of_be (of_nat a) (of_nat b) (of_nat c) (of_nat d), s)))))"

definition ipv4_from_str :: "string \<Rightarrow> ipv4 option" where
  "ipv4_from_str s =
     (if length s > 15 then None
      else (case read_ipv4_addr s of
              Some (a, rest) \<Rightarrow> if rest = [] then Some a else None
            | None \<Rightarrow> None))"

definition octet_string :: "u8 \<Rightarrow> string" where
  "octet_string b = decimal (unat b)"

definition ipv4_to_string :: "ipv4 \<Rightarrow> string" where
  "ipv4_to_string a =
     (let bs = u32_be_bytes a
      in octet_string (bs ! 0) @ ''.'' @ octet_string (bs ! 1) @ ''.'' @ octet_string (bs ! 2) @ ''.'' @ octet_string (bs ! 3))"

text \<open>
  \<^verbatim>\<open>read_groups\<close> with the index of the next group and the number of groups left: the groups, whether an embedded
  IPv4 address ended them, and the rest of the input.
\<close>

fun read_groups :: "nat \<Rightarrow> nat \<Rightarrow> string \<Rightarrow> u16 list \<times> bool \<times> string" where
  "read_groups i 0 s = ([], False, s)"
| "read_groups i (Suc r) s =
     (case (if r > 0 then read_separator (CHR '':'') i read_ipv4_addr s else None) of
        Some (a, s) \<Rightarrow> ([ucast (drop_bit 16 a), ucast a], True, s)
      | None \<Rightarrow>
          (case read_separator (CHR '':'') i (read_number 16 4 True 65536) s of
             Some (g, s) \<Rightarrow> (let (gs, v4, s) = read_groups (Suc i) r s in (of_nat g # gs, v4, s))
           | None \<Rightarrow> ([], False, s)))"

definition ipv6_of_groups :: "u16 list \<Rightarrow> ipv6" where
  "ipv6_of_groups gs = ipv6_from (concat (map u16_be_bytes gs))"

definition read_ipv6_addr :: "string \<Rightarrow> (ipv6 \<times> string) option" where
  "read_ipv6_addr s =
     (let (head, head_ipv4, s) = read_groups 0 8 s
      in if length head = 8 then Some (ipv6_of_groups head, s)
         else if head_ipv4 then None
         else if take 2 s \<noteq> ''::'' then None
         else
           (let (tail, _, s) = read_groups 0 (8 - (length head + 1)) (drop 2 s)
            in Some (ipv6_of_groups (head @ replicate (8 - length head - length tail) 0 @ tail), s)))"

definition ipv6_from_str :: "string \<Rightarrow> ipv6 option" where
  "ipv6_from_str s =
     (case read_ipv6_addr s of
        Some (a, rest) \<Rightarrow> if rest = [] then Some a else None
      | None \<Rightarrow> None)"

section \<open>Digits\<close>

lemma to_digit_digit_char: "d < 10 \<Longrightarrow> to_digit 10 (digit_char d) = Some d"
  by (simp add: to_digit_def digit_char_def)

lemma to_digit_SomeD:
  assumes "to_digit 10 c = Some d"
  shows "d < 10 \<and> c = digit_char d"
proof -
  have n: "of_char c = 48 + d" "d < 10"
    using assms by (auto simp: to_digit_def Let_def split: if_splits)
  have "char_of (of_char c :: nat) = c" by simp
  with n show ?thesis by (simp add: digit_char_def)
qed

lemma to_digit_dot: "to_digit 10 (CHR ''.'') = None"
  by (simp add: to_digit_def)

lemma digits_split:
  assumes "digits 10 s = (ds, rest)"
  shows "s = map digit_char ds @ rest \<and> list_all (\<lambda>d. d < 10) ds"
  using assms
proof (induction s arbitrary: ds)
  case (Cons c s)
  then show ?case
    by (cases "digits 10 s") (auto split: option.splits dest: to_digit_SomeD)
qed simp

lemma digits_chars:
  assumes "list_all (\<lambda>d. d < 10) ds" and "rest = [] \<or> to_digit 10 (hd rest) = None"
  shows "digits 10 (map digit_char ds @ rest) = (ds, rest)"
  using assms(1)
proof (induction ds)
  case Nil
  then show ?case using assms(2) by (cases rest) auto
qed (simp add: to_digit_digit_char)

lemma number_snoc: "number r (ds @ [d]) = number r ds * r + d"
  by (simp add: number_def)

text \<open>The digits of the decimal form of a number.\<close>

fun decimal_digits :: "nat \<Rightarrow> nat list" where
  "decimal_digits n = (if n < 10 then [n] else decimal_digits (n div 10) @ [n mod 10])"

declare decimal_digits.simps [simp del]

lemma decimal_eq: "decimal n = map digit_char (decimal_digits n)"
  by (induction n rule: decimal.induct) (simp add: decimal.simps decimal_digits.simps)

lemma decimal_digits_nonempty: "decimal_digits n \<noteq> []"
  by (simp add: decimal_digits.simps)

lemma decimal_digits_less: "list_all (\<lambda>d. d < 10) (decimal_digits n)"
  by (induction n rule: decimal_digits.induct) (simp add: decimal_digits.simps)

lemma number_decimal_digits: "number 10 (decimal_digits n) = n"
proof (induction n rule: decimal_digits.induct)
  case (1 n)
  then show ?case
    by (cases "n < 10") (simp_all add: decimal_digits.simps [of n] number_snoc, simp add: number_def)
qed

text \<open>No leading zero but in the number zero; conversely such a list of digits is the decimal form of its number.\<close>

definition canonical :: "nat list \<Rightarrow> bool" where
  "canonical ds \<longleftrightarrow> ds \<noteq> [] \<and> list_all (\<lambda>d. d < 10) ds \<and> (hd ds = 0 \<longrightarrow> length ds = 1)"

lemma number_positive: "ds \<noteq> [] \<Longrightarrow> hd ds \<noteq> 0 \<Longrightarrow> number 10 ds > 0"
  by (induction ds rule: rev_induct) (auto simp: number_snoc hd_append number_def split: if_splits)

lemma canonical_decimal_digits: "canonical (decimal_digits n)"
proof (induction n rule: decimal_digits.induct)
  case (1 n)
  show ?case
  proof (cases "n < 10")
    case False
    then have "canonical (decimal_digits (n div 10))" "n div 10 \<noteq> 0" using 1 by auto
    moreover from this have "hd (decimal_digits (n div 10)) \<noteq> 0"
      using number_decimal_digits [of "n div 10"]
      by (cases "decimal_digits (n div 10)") (auto simp: canonical_def number_def)
    ultimately show ?thesis
      using False decimal_digits_less [of n] by (simp add: canonical_def decimal_digits.simps [of n] hd_append)
  qed (simp add: canonical_def decimal_digits.simps)
qed

lemma decimal_digits_number: "canonical ds \<Longrightarrow> decimal_digits (number 10 ds) = ds"
proof (induction ds rule: rev_induct)
  case (snoc d ds)
  show ?case
  proof (cases "ds = []")
    case False
    then have ds: "canonical ds" "d < 10" using snoc.prems by (auto simp: canonical_def hd_append split: if_splits)
    moreover have "hd ds \<noteq> 0" using snoc.prems False by (auto simp: canonical_def)
    ultimately have "number 10 (ds @ [d]) \<ge> 10" using number_positive [OF False] by (simp add: number_snoc)
    then show ?thesis
      using snoc.IH [OF ds(1)] ds(2) by (simp add: decimal_digits.simps [of "number 10 (ds @ [d])"]) (simp add: number_snoc)
  qed (use snoc.prems in \<open>simp add: canonical_def number_def decimal_digits.simps\<close>)
qed (simp add: canonical_def)

section \<open>IPv4 addresses as text\<close>

definition ends_number :: "string \<Rightarrow> bool" where
  "ends_number rest \<longleftrightarrow> rest = [] \<or> to_digit 10 (hd rest) = None"

lemma ends_number_simps [simp]: "ends_number []" "ends_number (CHR ''.'' # s)"
  by (simp_all add: ends_number_def to_digit_dot)

lemma digits_rest: "digits 10 s = (ds, rest) \<Longrightarrow> ends_number rest"
  by (induction s arbitrary: ds)
    (auto simp: ends_number_def apfst_def map_prod_def split: option.splits prod.splits)

lemma length_decimal_digits: "n < 256 \<Longrightarrow> length (decimal_digits n) \<le> 3"
  by (subst decimal_digits.simps, subst decimal_digits.simps, subst decimal_digits.simps) auto

lemma read_number_iff:
  "read_number 10 3 False 256 s = Some (n, rest) \<longleftrightarrow> n < 256 \<and> s = decimal n @ rest \<and> ends_number rest"
proof
  assume r: "read_number 10 3 False 256 s = Some (n, rest)"
  obtain ds where ds: "digits 10 s = (ds, rest)" "ds \<noteq> []" "hd ds = 0 \<longrightarrow> length ds = 1" "n = number 10 ds" "n < 256"
    using r by (cases "digits 10 s") (auto simp: read_number_def le_Suc_eq not_less split: if_splits)
  then have "canonical ds" using digits_split [OF ds(1)] by (simp add: canonical_def)
  then show "n < 256 \<and> s = decimal n @ rest \<and> ends_number rest"
    using digits_split [OF ds(1)] digits_rest [OF ds(1)] ds(4,5) by (simp add: decimal_eq decimal_digits_number)
next
  assume s: "n < 256 \<and> s = decimal n @ rest \<and> ends_number rest"
  then have "digits 10 s = (decimal_digits n, rest)"
    using digits_chars [OF decimal_digits_less] by (simp add: decimal_eq ends_number_def)
  then show "read_number 10 3 False 256 s = Some (n, rest)"
    using s canonical_decimal_digits [of n] length_decimal_digits [of n]
    by (auto simp: read_number_def number_decimal_digits canonical_def)
qed

lemma read_octet_iff:
  "read_octet 0 s = Some (n, rest) \<longleftrightarrow> n < 256 \<and> s = decimal n @ rest \<and> ends_number rest"
  "0 < i \<Longrightarrow> read_octet i s = Some (n, rest) \<longleftrightarrow> n < 256 \<and> s = CHR ''.'' # decimal n @ rest \<and> ends_number rest"
  by (cases s; auto simp: read_octet_def read_separator_def read_number_iff)+

lemma read_octet_decimal:
  "ends_number rest \<Longrightarrow> read_octet 0 (decimal (unat w) @ rest) = Some (unat (w :: u8), rest)"
  "ends_number rest \<Longrightarrow> 0 < i \<Longrightarrow> read_octet i (CHR ''.'' # decimal (unat w) @ rest) = Some (unat w, rest)"
  by (simp_all add: read_octet_iff unat_u8_less)

lemma length_decimal: "n < 256 \<Longrightarrow> length (decimal n) \<le> 3"
  by (simp add: decimal_eq length_decimal_digits)

lemma length_ipv4_to_string: "length (ipv4_to_string a) \<le> 15"
  using length_decimal [OF unat_u8_less, of "u32_be_bytes a ! 0"] length_decimal [OF unat_u8_less, of "u32_be_bytes a ! 1"]
    length_decimal [OF unat_u8_less, of "u32_be_bytes a ! 2"] length_decimal [OF unat_u8_less, of "u32_be_bytes a ! 3"]
  by (simp add: ipv4_to_string_def octet_string_def Let_def)

lemma read_ipv4_addr_iff:
  "read_ipv4_addr s = Some (a, []) \<longleftrightarrow> s = ipv4_to_string a"
proof
  assume "read_ipv4_addr s = Some (a, [])"
  then obtain w x y z where "s = decimal w @ CHR ''.'' # decimal x @ CHR ''.'' # decimal y @ CHR ''.'' # decimal z"
      "a = u32_of_be (of_nat w) (of_nat x) (of_nat y) (of_nat z)" "w < 256" "x < 256" "y < 256" "z < 256"
    by (auto simp: read_ipv4_addr_def bind_eq_Some_conv read_octet_iff)
  then show "s = ipv4_to_string a"
    by (simp add: ipv4_to_string_def octet_string_def unat_of_nat)
next
  assume s: "s = ipv4_to_string a"
  obtain w x y z where bs: "u32_be_bytes a = [w, x, y, z]" by (simp add: u32_be_bytes_def)
  have "a = u32_of_be w x y z" using bs u32_of_be_bytes [of a] by (simp add: u32_be_bytes_def)
  then show "read_ipv4_addr s = Some (a, [])"
    using read_octet_decimal(2) [of "[]" 3 z] by (simp add: s ipv4_to_string_def octet_string_def bs read_ipv4_addr_def read_octet_decimal)
qed

text \<open>
  The text form of an IPv4 address is unique: the parser that reads router ids, area ids, interface addresses and
  neighbors from the configuration accepts exactly the dotted form the program prints, with no leading zeros, nothing around it and
  every number below 256, and gives the address back.
\<close>

lemma ipv4_text_canonical: "ipv4_from_str s = Some a \<longleftrightarrow> s = ipv4_to_string a"
  using read_ipv4_addr_iff [of s a] length_ipv4_to_string [of a]
  by (auto simp: ipv4_from_str_def split: option.splits if_splits)

end
