(* ===== verification/Config.thy ===== *)
theory Config
  imports Instance_V3 Text_Addr
begin

text \<open>
  \<^verbatim>\<open>src/config.rs\<close>: from the deserialised configuration file to the configuration of every instance. The records are the
  structures serde fills; a \<^verbatim>\<open>serde_yaml::Value\<close> is what the program asks of it, and the compilation of a route-map, which belongs to
  another crate, is the parameter \<open>compile\<close>.
\<close>

section \<open>The configuration file\<close>

datatype AddrEntry = Cidr string | Split string "u8 option"

datatype Ipv4AddressConfig = Cidr4 string | Split4 string u8

text \<open>A number is represented by its \<^verbatim>\<open>as_u64\<close>.\<close>

datatype YamlValue = YamlNumber "u64 option" | YamlString string | YamlOther

record VrfYaml =
  vy_name :: string
  vy_table_id_v4 :: u32
  vy_table_id_v6 :: u32
  vy_description :: "string option"

record SummaryAddressEntry =
  sae_prefix :: string
  sae_no_advertise :: bool
  sae_tag :: "u32 option"
  sae_metric :: "u32 option"
  sae_metric_type :: "u8 option"

record AreaConfigEntry =
  ace_area_id :: YamlValue
  ace_type :: "string option"
  ace_default_cost :: "u32 option"

record RedistributeEntry =
  re_protocol :: string
  re_metric :: "u32 option"
  re_metric_type :: "u8 option"
  re_route_map :: "string option"

record OspfNeighborConfig =
  nc_address :: string
  nc_priority :: "u8 option"

record Ospf6NeighborConfig =
  nc6_address :: string
  nc6_priority :: "u8 option"

record InterfaceOspfConfig =
  oi_area :: "YamlValue option"
  oi_cost :: "u16 option"
  oi_passive :: "bool option"
  oi_network_type :: "string option"
  oi_hello_interval :: "u16 option"
  oi_dead_interval :: "u32 option"
  oi_retransmit_interval :: "u16 option"
  oi_priority :: "u8 option"
  oi_auth_type :: "string option"
  oi_auth_key :: "string option"
  oi_md5_key_id :: "u8 option"
  oi_md5_key :: "string option"
  oi_neighbors :: "OspfNeighborConfig list"

record InterfaceOspf3Config =
  oi3_area :: "YamlValue option"
  oi3_cost :: "u16 option"
  oi3_passive :: "bool option"
  oi3_network_type :: "string option"
  oi3_hello_interval :: "u16 option"
  oi3_dead_interval :: "u32 option"
  oi3_retransmit_interval :: "u16 option"
  oi3_transmit_delay :: "u16 option"
  oi3_priority :: "u8 option"
  oi3_instance_id :: "u8 option"
  oi3_neighbors :: "Ospf6NeighborConfig list"

text \<open>The fields that \<^verbatim>\<open>OspfConfig\<close> and \<^verbatim>\<open>OspfVrfYaml\<close> have in common.\<close>

record OspfBlock =
  oc_enabled :: bool
  oc_router_id :: "string option"
  oc_reference_bandwidth :: "u32 option"
  oc_spf_delay :: "u64 option"
  oc_spf_holdtime :: "u64 option"
  oc_spf_max_holdtime :: "u64 option"
  oc_passive_default :: bool
  oc_distance :: "u8 option"
  oc_distance_intra :: "u8 option"
  oc_distance_inter :: "u8 option"
  oc_distance_external :: "u8 option"
  oc_summary_addresses :: "SummaryAddressEntry list"
  oc_default_originate :: bool
  oc_default_originate_always :: bool
  oc_default_originate_metric :: "u32 option"
  oc_default_originate_metric_type :: "u8 option"
  oc_redistribute :: "RedistributeEntry list"
  oc_areas :: "AreaConfigEntry list"

record OspfVrfYaml = OspfBlock +
  ov_name :: string

record OspfConfig = OspfBlock +
  oc_vrfs :: "OspfVrfYaml list"

record SubInterfaceConfig =
  sub_vlan_id :: u16
  sub_vrf :: "string option"
  sub_ipv4 :: "AddrEntry list"
  sub_ipv6 :: "AddrEntry list"
  sub_ospf :: "InterfaceOspfConfig option"
  sub_ospf3 :: "InterfaceOspf3Config option"

record InterfaceConfig =
  ifc_name :: "string option"
  ifc_vrf :: "string option"
  ifc_ipv4 :: "Ipv4AddressConfig list"
  ifc_ospf :: "InterfaceOspfConfig option"
  ifc_ospf3 :: "InterfaceOspf3Config option"
  ifc_subinterfaces :: "SubInterfaceConfig list"

record LoopbackConfig =
  lb_name :: "string option"
  lb_vrf :: "string option"
  lb_ipv4 :: "AddrEntry list"
  lb_ipv6 :: "AddrEntry list"
  lb_ospf :: "InterfaceOspfConfig option"
  lb_ospf3 :: "InterfaceOspf3Config option"

record TunnelConfig =
  tun_name :: string
  tun_vrf :: "string option"
  tun_ip :: "AddrEntry list"
  tun_ospf :: "InterfaceOspfConfig option"
  tun_ospf3 :: "InterfaceOspf3Config option"

record 'y RouteMapYaml =
  rmy_name :: string
  rmy_body :: 'y

record 'y RouterConfig =
  rc_ospf :: OspfConfig
  rc_ospf3 :: OspfConfig
  rc_interfaces :: "InterfaceConfig list"
  rc_loopbacks :: "LoopbackConfig list"
  rc_tunnels :: "TunnelConfig list"
  rc_route_maps :: "'y RouteMapYaml list"
  rc_vrfs :: "VrfYaml list"

datatype ConfigError =
    NoVrfBlock string
  | VrfNotDeclared string
  | TableIdZero string
  | NotEnabled
  | InvalidRouterId
  | RouterIdUnset
  | NegativeAreaId
  | InvalidAreaId string
  | AreaIdType
  | DuplicateRouteMap string
  | RouteMapInvalid string
  | UnknownRouteMap string

type_synonym 'a config_result = "(ConfigError, 'a) outcome"

section \<open>Helpers\<close>

definition unwrap_or :: "'a \<Rightarrow> 'a option \<Rightarrow> 'a" where
  "unwrap_or d x = (case x of Some v \<Rightarrow> v | None \<Rightarrow> d)"

fun find_map :: "('a \<Rightarrow> 'b option) \<Rightarrow> 'a list \<Rightarrow> 'b option" where
  "find_map f [] = None"
| "find_map f (x # xs) = (case f x of Some y \<Rightarrow> Some y | None \<Rightarrow> find_map f xs)"

text \<open>A loop that appends to a vector and may return early with an error.\<close>

fun collectR :: "('a \<Rightarrow> ('e, 'b list) outcome) \<Rightarrow> 'a list \<Rightarrow> ('e, 'b list) outcome" where
  "collectR f [] = Ok []"
| "collectR f (x # xs) = bindR (f x) (\<lambda>ys. bindR (collectR f xs) (\<lambda>zs. Ok (ys @ zs)))"

fun cidr_pair :: "string \<Rightarrow> (string \<times> u8) option" where
  "cidr_pair s = Option.bind (split_once (CHR ''/'') s) (\<lambda>(a, p). map_option (Pair a) (u8_from_str p))"

fun addr_entry_pair :: "AddrEntry \<Rightarrow> (string \<times> u8) option" where
  "addr_entry_pair (Cidr s) = cidr_pair s"
| "addr_entry_pair (Split a p) = map_option (Pair a) p"

fun ipv4_config_pair :: "Ipv4AddressConfig \<Rightarrow> (string \<times> u8) option" where
  "ipv4_config_pair (Cidr4 s) = cidr_pair s"
| "ipv4_config_pair (Split4 a p) = Some (a, p)"

definition redistribute_metric :: "RedistributeEntry \<Rightarrow> u32" where
  "redistribute_metric e = unwrap_or 20 (re_metric e)"

definition redistribute_metric_type :: "RedistributeEntry \<Rightarrow> u8" where
  "redistribute_metric_type e = unwrap_or 2 (re_metric_type e)"

definition ospf_config_of_vrf :: "OspfVrfYaml \<Rightarrow> OspfConfig" where
  "ospf_config_of_vrf v =
     \<lparr>oc_enabled = oc_enabled v, oc_router_id = oc_router_id v, oc_reference_bandwidth = oc_reference_bandwidth v,
      oc_spf_delay = oc_spf_delay v, oc_spf_holdtime = oc_spf_holdtime v, oc_spf_max_holdtime = oc_spf_max_holdtime v,
      oc_passive_default = oc_passive_default v, oc_distance = oc_distance v, oc_distance_intra = oc_distance_intra v,
      oc_distance_inter = oc_distance_inter v, oc_distance_external = oc_distance_external v,
      oc_summary_addresses = oc_summary_addresses v, oc_default_originate = oc_default_originate v,
      oc_default_originate_always = oc_default_originate_always v, oc_default_originate_metric = oc_default_originate_metric v,
      oc_default_originate_metric_type = oc_default_originate_metric_type v, oc_redistribute = oc_redistribute v,
      oc_areas = oc_areas v, oc_vrfs = []\<rparr>"

definition parse_summary_v4 :: "SummaryAddressEntry \<Rightarrow> ParsedSummaryAddress option" where
  "parse_summary_v4 e =
     Option.bind (split_once (CHR ''/'') (sae_prefix e)) (\<lambda>(addr_s, len_s).
     Option.bind (ipv4_from_str addr_s) (\<lambda>addr. Option.bind (u8_from_str len_s) (\<lambda>len.
     Some \<lparr>sa_prefix = addr, sa_prefix_len = len, sa_no_advertise = sae_no_advertise e, sa_tag = unwrap_or 0 (sae_tag e),
           sa_metric = unwrap_or 20 (sae_metric e), sa_metric_type = unwrap_or 2 (sae_metric_type e)\<rparr>)))"

definition parse_summary_v6 :: "SummaryAddressEntry \<Rightarrow> ParsedSummaryAddress6 option" where
  "parse_summary_v6 e =
     Option.bind (split_once (CHR ''/'') (sae_prefix e)) (\<lambda>(addr_s, len_s).
     Option.bind (ipv6_from_str addr_s) (\<lambda>addr. Option.bind (u8_from_str len_s) (\<lambda>len.
     Some \<lparr>s6_prefix = addr, s6_prefix_len = len, s6_no_advertise = sae_no_advertise e, s6_tag = unwrap_or 0 (sae_tag e),
           s6_metric = unwrap_or 20 (sae_metric e), s6_metric_type = unwrap_or 2 (sae_metric_type e)\<rparr>)))"

text \<open>\<^verbatim>\<open>None\<close> when the type names no cryptographic algorithm; the inner \<^verbatim>\<open>None\<close> is the sentinel for MD5.\<close>

definition crypto_alg :: "string \<Rightarrow> HmacAlgo option option" where
  "crypto_alg t =
     (if t \<in> {''message-digest'', ''md5''} then Some None
      else if t \<in> {''hmac-sha-256'', ''hmac-sha256'', ''sha256'', ''sha-256''} then Some (Some Sha256)
      else if t \<in> {''hmac-sha-384'', ''hmac-sha384'', ''sha384'', ''sha-384''} then Some (Some Sha384)
      else if t \<in> {''hmac-sha-512'', ''hmac-sha512'', ''sha512'', ''sha-512''} then Some (Some Sha512)
      else None)"

definition parse_auth_key :: "string option \<Rightarrow> string option \<Rightarrow> u8 option \<Rightarrow> string option \<Rightarrow> AuthKey" where
  "parse_auth_key auth_type simple_key md5_key_id md5_key =
     (case auth_type of
        None \<Rightarrow> NoKey
      | Some t \<Rightarrow>
          (let t = map ascii_lower t in
           if t = ''simple'' then
             (case simple_key of Some k \<Rightarrow> if k \<noteq> [] then Simple (as_bytes k) else NoKey | None \<Rightarrow> NoKey)
           else
             (case crypto_alg t of
                None \<Rightarrow> NoKey
              | Some alg \<Rightarrow>
                  (case (md5_key_id, md5_key) of
                     (Some i, Some k) \<Rightarrow>
                       if k \<noteq> [] then
                         (case alg of None \<Rightarrow> Md5 i (as_bytes k) | Some a \<Rightarrow> HmacSha a i (as_bytes k))
                       else NoKey
                   | _ \<Rightarrow> NoKey))))"

fun parse_area_id_value :: "YamlValue \<Rightarrow> ipv4 config_result" where
  "parse_area_id_value (YamlNumber n) = (case n of None \<Rightarrow> Err NegativeAreaId | Some n \<Rightarrow> Ok (ucast n))"
| "parse_area_id_value (YamlString s) =
     (case ipv4_from_str s of
        Some a \<Rightarrow> Ok a
      | None \<Rightarrow> (case u32_from_str s of Some n \<Rightarrow> Ok n | None \<Rightarrow> Err (InvalidAreaId s)))"
| "parse_area_id_value YamlOther = Err AreaIdType"

fun compile_maps :: "('y RouteMapYaml \<Rightarrow> 'c RouteMap option) \<Rightarrow> (string \<times> 'c RouteMap) list \<Rightarrow> 'y RouteMapYaml list \<Rightarrow>
    (string \<times> 'c RouteMap) list config_result" where
  "compile_maps compile out [] = Ok out"
| "compile_maps compile out (m # ms) =
     (if map_of out (rmy_name m) \<noteq> None then Err (DuplicateRouteMap (rmy_name m))
      else
        (case compile m of
           None \<Rightarrow> Err (RouteMapInvalid (rmy_name m))
         | Some c \<Rightarrow> compile_maps compile (AList.update (rmy_name m) c out) ms))"

definition compile_route_maps :: "('y RouteMapYaml \<Rightarrow> 'c RouteMap option) \<Rightarrow> 'y RouteMapYaml list \<Rightarrow>
    (string \<times> 'c RouteMap) list config_result" where
  "compile_route_maps compile yaml = compile_maps compile [] yaml"

section \<open>Parts shared by both versions\<close>

definition normalized_vrf :: "string option \<Rightarrow> string option" where
  "normalized_vrf v = (case v of Some s \<Rightarrow> if s \<noteq> [] \<and> s \<noteq> ''default'' then Some s else None | None \<Rightarrow> None)"

definition iface_in_vrf :: "string option \<Rightarrow> string option \<Rightarrow> bool" where
  "iface_in_vrf vrf iface_vrf =
     (case (normalized_vrf iface_vrf, vrf) of
        (None, None) \<Rightarrow> True
      | (Some n, Some target) \<Rightarrow> n = target
      | _ \<Rightarrow> False)"

definition sub_name :: "string \<Rightarrow> u16 \<Rightarrow> string" where
  "sub_name parent vlan = parent @ ''.'' @ decimal (unat vlan)"

definition tunnel_name :: "nat \<Rightarrow> string" where
  "tunnel_name idx = ''gre'' @ decimal idx"

definition parse_router_id :: "OspfConfig \<Rightarrow> ipv4 config_result" where
  "parse_router_id oc =
     (case ipv4_from_str (unwrap_or ''0.0.0.0'' (oc_router_id oc)) of
        None \<Rightarrow> Err InvalidRouterId
      | Some rid \<Rightarrow> if rid = UNSPECIFIED then Err RouterIdUnset else Ok rid)"

definition parse_redistribute :: "(string \<times> 'c RouteMap) list \<Rightarrow> RedistributeEntry \<Rightarrow> RedistributeConfig list config_result" where
  "parse_redistribute maps e =
     (case redistribute_source_parse (re_protocol e) of
        None \<Rightarrow> Ok []
      | Some source \<Rightarrow>
          (case re_route_map e of
             Some name \<Rightarrow>
               if map_of maps name = None then Err (UnknownRouteMap name)
               else Ok [\<lparr>rd_source = source, rd_metric = redistribute_metric e, rd_metric_type = redistribute_metric_type e,
                         rd_route_map = re_route_map e\<rparr>]
           | None \<Rightarrow> Ok [\<lparr>rd_source = source, rd_metric = redistribute_metric e, rd_metric_type = redistribute_metric_type e,
                          rd_route_map = re_route_map e\<rparr>]))"

definition parse_area :: "AreaConfigEntry \<Rightarrow> AreaConfig list config_result" where
  "parse_area a =
     bindR (parse_area_id_value (ace_area_id a)) (\<lambda>aid.
     Ok [\<lparr>ac_area_id = aid,
          ac_area_type = (if ace_type a = Some ''stub'' then Stub else if ace_type a = Some ''nssa'' then Nssa else Normal),
          ac_default_cost = unwrap_or 1 (ace_default_cost a)\<rparr>])"

text \<open>The slice of a VRF and its table, from the block \<open>oc\<close> and the table of a declaration.\<close>

definition vrf_slice :: "string option \<Rightarrow> OspfConfig \<Rightarrow> (VrfYaml \<Rightarrow> u32) \<Rightarrow> VrfYaml list \<Rightarrow> (u32 \<times> OspfConfig) config_result" where
  "vrf_slice vrf oc table vrfs =
     (case vrf of
        None \<Rightarrow> Ok (0, oc)
      | Some name \<Rightarrow>
          (case List.find (\<lambda>v. ov_name v = name) (oc_vrfs oc) of
             None \<Rightarrow> Err (NoVrfBlock name)
           | Some vrf_yaml \<Rightarrow>
               (case List.find (\<lambda>v. vy_name v = name) vrfs of
                  None \<Rightarrow> Err (VrfNotDeclared name)
                | Some decl \<Rightarrow>
                    if table decl = 0 then Err (TableIdZero name) else Ok (table decl, ospf_config_of_vrf vrf_yaml))))"

section \<open>OSPFv2\<close>

definition resolve_address :: "u8 \<Rightarrow> (string \<times> u8) option \<Rightarrow> ipv4 \<times> u8" where
  "resolve_address default_len pair =
     unwrap_or (UNSPECIFIED, default_len)
       (Option.bind pair (\<lambda>(a, p). map_option (\<lambda>addr. (addr, p)) (ipv4_from_str a)))"

definition static_neighbors_v4 :: "OspfNeighborConfig list \<Rightarrow> (ipv4 \<times> u8) list" where
  "static_neighbors_v4 ns =
     List.map_filter (\<lambda>n. map_option (\<lambda>a. (a, unwrap_or 1 (nc_priority n))) (ipv4_from_str (nc_address n))) ns"

definition oi_key :: "InterfaceOspfConfig \<Rightarrow> AuthKey" where
  "oi_key c = parse_auth_key (oi_auth_type c) (oi_auth_key c) (oi_md5_key_id c) (oi_md5_key c)"

text \<open>The interface made of a physical interface or a sub-interface.\<close>

definition configured_interface :: "bool \<Rightarrow> string \<Rightarrow> ipv4 \<times> u8 \<Rightarrow> InterfaceOspfConfig \<Rightarrow> ipv4 \<Rightarrow> OspfInterfaceConfig" where
  "configured_interface passive_default name addr c aid =
     \<lparr>ic_name = name, ic_address = fst addr, ic_prefix_len = snd addr, ic_area_id = aid, ic_cost = unwrap_or 10 (oi_cost c),
      ic_passive = unwrap_or passive_default (oi_passive c), ic_network_type = unwrap_or ''broadcast'' (oi_network_type c),
      ic_hello_interval = unwrap_or 10 (oi_hello_interval c), ic_dead_interval = unwrap_or 40 (oi_dead_interval c),
      ic_priority = unwrap_or 1 (oi_priority c), ic_retransmit_interval = unwrap_or 5 (oi_retransmit_interval c),
      ic_auth_key = oi_key c, ic_static_neighbors = static_neighbors_v4 (oi_neighbors c)\<rparr>"

text \<open>\<open>with_area\<close>: nothing without an OSPF block or without an area, an error for a bad area, else the one interface.\<close>

definition with_area :: "bool \<Rightarrow> 'o option \<Rightarrow> ('o \<Rightarrow> YamlValue option) \<Rightarrow> ('o \<Rightarrow> ipv4 \<Rightarrow> 'i) \<Rightarrow> 'i list config_result" where
  "with_area in_vrf ospf area mk =
     (if \<not> in_vrf then Ok []
      else
        (case ospf of
           None \<Rightarrow> Ok []
         | Some c \<Rightarrow>
             (case area c of
                None \<Rightarrow> Ok []
              | Some v \<Rightarrow> bindR (parse_area_id_value v) (\<lambda>aid. Ok [mk c aid]))))"

definition sub_interface_v2 :: "string option \<Rightarrow> bool \<Rightarrow> string \<Rightarrow> SubInterfaceConfig \<Rightarrow> OspfInterfaceConfig list config_result" where
  "sub_interface_v2 vrf passive_default parent sub =
     with_area (iface_in_vrf vrf (sub_vrf sub)) (sub_ospf sub) oi_area
       (configured_interface passive_default (sub_name parent (sub_vlan_id sub))
          (resolve_address 24 (find_map addr_entry_pair (sub_ipv4 sub))))"

definition interface_v2 :: "string option \<Rightarrow> bool \<Rightarrow> InterfaceConfig \<Rightarrow> OspfInterfaceConfig list config_result" where
  "interface_v2 vrf passive_default i =
     bindR (with_area (iface_in_vrf vrf (ifc_vrf i)) (ifc_ospf i) oi_area
         (configured_interface passive_default (unwrap_or [] (ifc_name i))
            (resolve_address 24 (case ifc_ipv4 i of [] \<Rightarrow> None | a # _ \<Rightarrow> ipv4_config_pair a)))) (\<lambda>own.
     bindR (case ifc_name i of
              None \<Rightarrow> Ok []
            | Some n \<Rightarrow>
                if n = [] then Ok []
                else collectR (sub_interface_v2 vrf passive_default n) (ifc_subinterfaces i)) (\<lambda>subs.
     Ok (own @ subs)))"

definition loopback_v2 :: "string option \<Rightarrow> LoopbackConfig \<Rightarrow> OspfInterfaceConfig list config_result" where
  "loopback_v2 vrf lb =
     with_area (iface_in_vrf vrf (lb_vrf lb)) (lb_ospf lb) oi_area (\<lambda>c aid.
       (let addr = resolve_address 32 (find_map addr_entry_pair (lb_ipv4 lb))
        in \<lparr>ic_name = unwrap_or [] (lb_name lb), ic_address = fst addr, ic_prefix_len = snd addr, ic_area_id = aid,
            ic_cost = unwrap_or 1 (oi_cost c), ic_passive = unwrap_or True (oi_passive c), ic_network_type = ''point-to-point'',
            ic_hello_interval = 10, ic_dead_interval = 40, ic_priority = 0, ic_retransmit_interval = 5, ic_auth_key = NoKey,
            ic_static_neighbors = []\<rparr>))"

definition tunnel_v2 :: "string option \<Rightarrow> nat \<times> TunnelConfig \<Rightarrow> OspfInterfaceConfig list config_result" where
  "tunnel_v2 vrf = (\<lambda>(idx, tun).
     with_area (iface_in_vrf vrf (tun_vrf tun)) (tun_ospf tun) oi_area (\<lambda>c aid.
       (let addr = resolve_address 30 (find_map addr_entry_pair (tun_ip tun))
        in \<lparr>ic_name = tunnel_name idx, ic_address = fst addr, ic_prefix_len = snd addr, ic_area_id = aid,
            ic_cost = unwrap_or 10 (oi_cost c), ic_passive = unwrap_or False (oi_passive c),
            ic_network_type = unwrap_or ''point-to-point'' (oi_network_type c),
            ic_hello_interval = unwrap_or 10 (oi_hello_interval c), ic_dead_interval = unwrap_or 40 (oi_dead_interval c),
            ic_priority = unwrap_or 0 (oi_priority c), ic_retransmit_interval = unwrap_or 5 (oi_retransmit_interval c),
            ic_auth_key = oi_key c, ic_static_neighbors = []\<rparr>)))"

definition interfaces_v2 :: "string option \<Rightarrow> bool \<Rightarrow> 'y RouterConfig \<Rightarrow> OspfInterfaceConfig list config_result" where
  "interfaces_v2 vrf passive_default config =
     bindR (collectR (interface_v2 vrf passive_default) (rc_interfaces config)) (\<lambda>phys.
     bindR (collectR (loopback_v2 vrf) (rc_loopbacks config)) (\<lambda>lbs.
     bindR (collectR (tunnel_v2 vrf) (enumerate 0 (rc_tunnels config))) (\<lambda>tuns.
     Ok (phys @ lbs @ tuns))))"

definition from_router_yaml :: "('y RouteMapYaml \<Rightarrow> 'c RouteMap option) \<Rightarrow> 'y RouterConfig \<Rightarrow> string option \<Rightarrow>
    'c OspfDaemonConfig config_result" where
  "from_router_yaml compile config vrf =
     bindR (vrf_slice vrf (rc_ospf config) vy_table_id_v4 (rc_vrfs config)) (\<lambda>(table_id, oc).
     if \<not> oc_enabled oc then Err NotEnabled
     else
       bindR (parse_router_id oc) (\<lambda>rid.
       bindR (interfaces_v2 vrf (oc_passive_default oc) config) (\<lambda>ifs.
       bindR (compile_route_maps compile (rc_route_maps config)) (\<lambda>maps.
       bindR (collectR (parse_redistribute maps) (oc_redistribute oc)) (\<lambda>redis.
       bindR (collectR parse_area (oc_areas oc)) (\<lambda>areas.
       Ok \<lparr>dc_vrf_name = vrf, dc_table_id_v4 = table_id, dc_router_id = rid,
           dc_reference_bandwidth = unwrap_or 100 (oc_reference_bandwidth oc), dc_spf_delay_ms = unwrap_or 50 (oc_spf_delay oc),
           dc_spf_holdtime_ms = unwrap_or 200 (oc_spf_holdtime oc),
           dc_spf_max_holdtime_ms = unwrap_or 5000 (oc_spf_max_holdtime oc), dc_interfaces = ifs, dc_redistribute = redis,
           dc_areas = areas, dc_distance = oc_distance oc, dc_distance_intra = oc_distance_intra oc,
           dc_distance_inter = oc_distance_inter oc, dc_distance_external = oc_distance_external oc,
           dc_default_originate = oc_default_originate oc,
           dc_default_originate_metric = unwrap_or 1 (oc_default_originate_metric oc),
           dc_default_originate_metric_type = unwrap_or 2 (oc_default_originate_metric_type oc),
           dc_summary_addresses = List.map_filter parse_summary_v4 (oc_summary_addresses oc), dc_route_maps = maps\<rparr>))))))"

text \<open>\<^verbatim>\<open>load_all\<close> once the file is read: invalid instances are skipped.\<close>

definition accepted :: "'a config_result \<Rightarrow> 'a list" where
  "accepted r = (case r of Ok c \<Rightarrow> [c] | _ \<Rightarrow> [])"

definition load_all :: "('y RouteMapYaml \<Rightarrow> 'c RouteMap option) \<Rightarrow> 'y RouterConfig \<Rightarrow> 'c OspfDaemonConfig list" where
  "load_all compile parsed =
     (if oc_enabled (rc_ospf parsed) then accepted (from_router_yaml compile parsed None) else []) @
     concat (map (\<lambda>v. accepted (from_router_yaml compile parsed (Some (ov_name v)))) (oc_vrfs (rc_ospf parsed)))"

section \<open>OSPFv3\<close>

definition static_neighbors_v6 :: "Ospf6NeighborConfig list \<Rightarrow> (ipv6 \<times> u8) list" where
  "static_neighbors_v6 ns =
     List.map_filter (\<lambda>n. map_option (\<lambda>a. (a, unwrap_or 1 (nc6_priority n))) (ipv6_from_str (nc6_address n))) ns"

definition configured_interface_v3 :: "bool \<Rightarrow> string \<Rightarrow> InterfaceOspf3Config \<Rightarrow> ipv4 \<Rightarrow> Ospf6InterfaceConfig" where
  "configured_interface_v3 passive_default name c aid =
     \<lparr>ic6_name = name, ic6_area_id = aid, ic6_cost = unwrap_or 10 (oi3_cost c),
      ic6_passive = unwrap_or passive_default (oi3_passive c), ic6_network_type = unwrap_or ''broadcast'' (oi3_network_type c),
      ic6_hello_interval = unwrap_or 10 (oi3_hello_interval c), ic6_dead_interval = unwrap_or 40 (oi3_dead_interval c),
      ic6_priority = unwrap_or 1 (oi3_priority c), ic6_instance_id = unwrap_or 0 (oi3_instance_id c),
      ic6_retransmit_interval = unwrap_or 5 (oi3_retransmit_interval c), ic6_transmit_delay = unwrap_or 1 (oi3_transmit_delay c),
      ic6_static_neighbors = static_neighbors_v6 (oi3_neighbors c)\<rparr>"

definition sub_interface_v3 :: "string option \<Rightarrow> bool \<Rightarrow> string \<Rightarrow> SubInterfaceConfig \<Rightarrow> Ospf6InterfaceConfig list config_result" where
  "sub_interface_v3 vrf passive_default parent sub =
     with_area (iface_in_vrf vrf (sub_vrf sub)) (sub_ospf3 sub) oi3_area
       (configured_interface_v3 passive_default (sub_name parent (sub_vlan_id sub)))"

definition interface_v3 :: "string option \<Rightarrow> bool \<Rightarrow> InterfaceConfig \<Rightarrow> Ospf6InterfaceConfig list config_result" where
  "interface_v3 vrf passive_default i =
     bindR (with_area (iface_in_vrf vrf (ifc_vrf i)) (ifc_ospf3 i) oi3_area
         (configured_interface_v3 passive_default (unwrap_or [] (ifc_name i)))) (\<lambda>own.
     bindR (case ifc_name i of
              None \<Rightarrow> Ok []
            | Some n \<Rightarrow>
                if n = [] then Ok []
                else collectR (sub_interface_v3 vrf passive_default n) (ifc_subinterfaces i)) (\<lambda>subs.
     Ok (own @ subs)))"

definition loopback_v3 :: "string option \<Rightarrow> LoopbackConfig \<Rightarrow> Ospf6InterfaceConfig list config_result" where
  "loopback_v3 vrf lb =
     with_area (iface_in_vrf vrf (lb_vrf lb)) (lb_ospf3 lb) oi3_area (\<lambda>c aid.
       \<lparr>ic6_name = unwrap_or [] (lb_name lb), ic6_area_id = aid, ic6_cost = unwrap_or 1 (oi3_cost c),
        ic6_passive = unwrap_or True (oi3_passive c), ic6_network_type = ''point-to-point'', ic6_hello_interval = 10,
        ic6_dead_interval = 40, ic6_priority = 0, ic6_instance_id = 0, ic6_retransmit_interval = 5, ic6_transmit_delay = 1,
        ic6_static_neighbors = []\<rparr>)"

definition interfaces_v3 :: "string option \<Rightarrow> bool \<Rightarrow> 'y RouterConfig \<Rightarrow> Ospf6InterfaceConfig list config_result" where
  "interfaces_v3 vrf passive_default config =
     bindR (collectR (interface_v3 vrf passive_default) (rc_interfaces config)) (\<lambda>phys.
     bindR (collectR (loopback_v3 vrf) (rc_loopbacks config)) (\<lambda>lbs. Ok (phys @ lbs)))"

text \<open>\<^verbatim>\<open>Ok(None)\<close> when OSPFv3 is not enabled.\<close>

definition from_router_yaml_v3 :: "('y RouteMapYaml \<Rightarrow> 'c RouteMap option) \<Rightarrow> 'y RouterConfig \<Rightarrow> string option \<Rightarrow>
    'c Ospf6DaemonConfig option config_result" where
  "from_router_yaml_v3 compile config vrf =
     bindR (vrf_slice vrf (rc_ospf3 config) vy_table_id_v6 (rc_vrfs config)) (\<lambda>(table_id, oc).
     if \<not> oc_enabled oc then Ok None
     else
       bindR (parse_router_id oc) (\<lambda>rid.
       bindR (interfaces_v3 vrf (oc_passive_default oc) config) (\<lambda>ifs.
       bindR (compile_route_maps compile (rc_route_maps config)) (\<lambda>maps.
       bindR (collectR (parse_redistribute maps) (oc_redistribute oc)) (\<lambda>redis.
       bindR (collectR parse_area (oc_areas oc)) (\<lambda>areas.
       Ok (Some \<lparr>d6_vrf_name = vrf, d6_table_id_v6 = table_id, d6_router_id = rid,
           d6_reference_bandwidth = unwrap_or 100 (oc_reference_bandwidth oc), d6_interfaces = ifs, d6_redistribute = redis,
           d6_areas = areas, d6_distance = oc_distance oc, d6_default_originate = oc_default_originate oc,
           d6_default_originate_metric = unwrap_or 1 (oc_default_originate_metric oc),
           d6_default_originate_metric_type = unwrap_or 2 (oc_default_originate_metric_type oc),
           d6_summary_addresses = List.map_filter parse_summary_v6 (oc_summary_addresses oc), d6_route_maps = maps\<rparr>)))))))"

definition accepted_v3 :: "'a option config_result \<Rightarrow> 'a list" where
  "accepted_v3 r = (case r of Ok (Some c) \<Rightarrow> [c] | _ \<Rightarrow> [])"

definition load_all_v3 :: "('y RouteMapYaml \<Rightarrow> 'c RouteMap option) \<Rightarrow> 'y RouterConfig \<Rightarrow> 'c Ospf6DaemonConfig list" where
  "load_all_v3 compile parsed =
     accepted_v3 (from_router_yaml_v3 compile parsed None) @
     concat (map (\<lambda>v. accepted_v3 (from_router_yaml_v3 compile parsed (Some (ov_name v)))) (oc_vrfs (rc_ospf3 parsed)))"

end
