(* ===== verification/Config_Props.thy ===== *)
theory Config_Props
  imports Config
begin

text \<open>
  What the configuration of an instance says, in terms of the file: its interfaces are exactly those of its VRF, when it is
  accepted, and what every accepted configuration guarantees the instance built from it.
\<close>

section \<open>Interfaces of the file\<close>

text \<open>Everything in the file that may become an interface: its VRF, its name and the area it names.\<close>

type_synonym item = "string option \<times> string \<times> YamlValue"

definition item_of :: "string option \<Rightarrow> string \<Rightarrow> 'o option \<Rightarrow> ('o \<Rightarrow> YamlValue option) \<Rightarrow> item list" where
  "item_of v name ospf area = (case Option.bind ospf area of None \<Rightarrow> [] | Some a \<Rightarrow> [(normalized_vrf v, name, a)])"

definition physical_items ::
  "(InterfaceConfig \<Rightarrow> 'o option) \<Rightarrow> (SubInterfaceConfig \<Rightarrow> 'o option) \<Rightarrow> ('o \<Rightarrow> YamlValue option) \<Rightarrow> InterfaceConfig \<Rightarrow> item list" where
  "physical_items ospf subospf area i =
     item_of (ifc_vrf i) (unwrap_or [] (ifc_name i)) (ospf i) area @
     (case ifc_name i of
        None \<Rightarrow> []
      | Some n \<Rightarrow>
          if n = [] then []
          else concat (map (\<lambda>sub. item_of (sub_vrf sub) (sub_name n (sub_vlan_id sub)) (subospf sub) area) (ifc_subinterfaces i)))"

definition loopback_items :: "(LoopbackConfig \<Rightarrow> 'o option) \<Rightarrow> ('o \<Rightarrow> YamlValue option) \<Rightarrow> LoopbackConfig \<Rightarrow> item list" where
  "loopback_items ospf area lb = item_of (lb_vrf lb) (unwrap_or [] (lb_name lb)) (ospf lb) area"

definition ospf_items :: "'y RouterConfig \<Rightarrow> item list" where
  "ospf_items config =
     concat (map (physical_items ifc_ospf sub_ospf oi_area) (rc_interfaces config)) @
     concat (map (loopback_items lb_ospf oi_area) (rc_loopbacks config)) @
     concat (map (\<lambda>(idx, tun). item_of (tun_vrf tun) (tunnel_name idx) (tun_ospf tun) oi_area) (enumerate 0 (rc_tunnels config)))"

definition ospf3_items :: "'y RouterConfig \<Rightarrow> item list" where
  "ospf3_items config =
     concat (map (physical_items ifc_ospf3 sub_ospf3 oi3_area) (rc_interfaces config)) @
     concat (map (loopback_items lb_ospf3 oi3_area) (rc_loopbacks config))"

definition in_vrf :: "string option \<Rightarrow> item list \<Rightarrow> item list" where
  "in_vrf vrf its = filter (\<lambda>it. fst it = vrf) its"

lemma in_vrf_simps [simp]: "in_vrf vrf [] = []" "in_vrf vrf (xs @ ys) = in_vrf vrf xs @ in_vrf vrf ys"
  by (simp_all add: in_vrf_def)

lemma iface_in_vrf_iff: "iface_in_vrf vrf v \<longleftrightarrow> normalized_vrf v = vrf"
  by (auto simp: iface_in_vrf_def split: option.splits)

text \<open>
  The outcome of collecting interfaces describes a list of items: the name and area of each item of the VRF in order, or the
  error of one of them. \<open>key\<close> reads name and area of an interface.
\<close>

definition describes :: "('i \<Rightarrow> string \<times> ipv4) \<Rightarrow> string option \<Rightarrow> item list \<Rightarrow> 'i list config_result \<Rightarrow> bool" where
  "describes key vrf its r \<longleftrightarrow>
     (case r of
        Ok ifs \<Rightarrow> map (\<lambda>i. (fst (key i), Ok (snd (key i)))) ifs = map (\<lambda>(v, n, a). (n, parse_area_id_value a)) (in_vrf vrf its)
      | Err e \<Rightarrow> (\<exists>it \<in> set (in_vrf vrf its). parse_area_id_value (snd (snd it)) = Err e)
      | Panic \<Rightarrow> False)"

lemma area_value_no_panic [simp]: "parse_area_id_value v \<noteq> Panic"
  by (cases v) (auto split: option.split)

lemma describes_nil [simp]: "describes key vrf [] (Ok [])"
  by (simp add: describes_def)

lemma describes_append:
  assumes "describes key vrf xs r" and "describes key vrf ys q"
  shows "describes key vrf (xs @ ys) (bindR r (\<lambda>as. bindR q (\<lambda>bs. Ok (as @ bs))))"
  using assms by (cases r; cases q) (auto simp: describes_def)

lemma describes_collectR:
  assumes "\<And>x. x \<in> set xs \<Longrightarrow> describes key vrf (g x) (f x)"
  shows "describes key vrf (concat (map g xs)) (collectR f xs)"
  using assms by (induction xs) (simp_all add: describes_append)

lemma describes_with_area:
  assumes "\<And>c a. key (mk c a) = (n, a)"
  shows "describes key vrf (item_of v n ospf area) (with_area (iface_in_vrf vrf v) ospf area mk)"
proof (cases "Option.bind ospf area")
  case None
  then show ?thesis by (cases ospf) (simp_all add: item_of_def with_area_def)
next
  case (Some a)
  then show ?thesis
    using assms area_value_no_panic [of a]
    by (cases ospf; cases "parse_area_id_value a")
      (simp_all add: item_of_def with_area_def describes_def in_vrf_def iface_in_vrf_iff)
qed

abbreviation key2 :: "OspfInterfaceConfig \<Rightarrow> string \<times> ipv4" where
  "key2 i \<equiv> (ic_name i, ic_area_id i)"

abbreviation key3 :: "Ospf6InterfaceConfig \<Rightarrow> string \<times> ipv4" where
  "key3 i \<equiv> (ic6_name i, ic6_area_id i)"

lemma describes_interface_v2: "describes key2 vrf (physical_items ifc_ospf sub_ospf oi_area i) (interface_v2 vrf pd i)"
  unfolding physical_items_def interface_v2_def
  by (intro describes_append describes_with_area)
    (auto simp: configured_interface_def sub_interface_v2_def split: option.split intro!: describes_collectR describes_with_area)

lemma describes_interface_v3: "describes key3 vrf (physical_items ifc_ospf3 sub_ospf3 oi3_area i) (interface_v3 vrf pd i)"
  unfolding physical_items_def interface_v3_def
  by (intro describes_append describes_with_area)
    (auto simp: configured_interface_v3_def sub_interface_v3_def split: option.split intro!: describes_collectR describes_with_area)

lemma describes_interfaces_v2: "describes key2 vrf (ospf_items config) (interfaces_v2 vrf pd config)"
proof -
  have lb: "describes key2 vrf (loopback_items lb_ospf oi_area lb) (loopback_v2 vrf lb)" for lb
    unfolding loopback_items_def loopback_v2_def by (rule describes_with_area) (simp add: Let_def)
  have tun: "describes key2 vrf ((\<lambda>(idx, tun). item_of (tun_vrf tun) (tunnel_name idx) (tun_ospf tun) oi_area) x) (tunnel_v2 vrf x)" for x
    unfolding tunnel_v2_def case_prod_beta by (rule describes_with_area) (simp add: Let_def)
  let ?phys = "collectR (interface_v2 vrf pd) (rc_interfaces config)" and ?lbs = "collectR (loopback_v2 vrf) (rc_loopbacks config)"
    and ?tuns = "collectR (tunnel_v2 vrf) (enumerate 0 (rc_tunnels config))"
  have "interfaces_v2 vrf pd config =
      bindR ?phys (\<lambda>as. bindR (bindR ?lbs (\<lambda>bs. bindR ?tuns (\<lambda>cs. Ok (bs @ cs)))) (\<lambda>bs. Ok (as @ bs)))"
    by (simp add: interfaces_v2_def bindR_assoc)
  then show ?thesis
    unfolding ospf_items_def by (simp only:) (intro describes_append describes_collectR describes_interface_v2 lb tun)
qed

lemma describes_interfaces_v3: "describes key3 vrf (ospf3_items config) (interfaces_v3 vrf pd config)"
proof -
  have lb: "describes key3 vrf (loopback_items lb_ospf3 oi3_area lb) (loopback_v3 vrf lb)" for lb
    unfolding loopback_items_def loopback_v3_def by (rule describes_with_area) simp
  show ?thesis
    unfolding ospf3_items_def interfaces_v3_def by (intro describes_append describes_collectR describes_interface_v3 lb)
qed

lemma from_router_yaml_interfaces:
  "from_router_yaml compile config vrf = Ok cfg \<Longrightarrow> \<exists>pd. interfaces_v2 vrf pd config = Ok (dc_interfaces cfg)"
  by (auto simp: from_router_yaml_def bindR_eq_Ok_iff split: if_splits)

text \<open>
  C23. An instance runs on exactly the interfaces of its VRF. For both versions of the protocol, the interfaces of an accepted
  configuration are, in the order of the file, the physical interfaces, sub-interfaces, loopbacks and (for OSPFv2) tunnels that name an
  area and whose VRF is that of the instance, where a missing, empty or ``default'' VRF is the default one; each is in the area it names.
\<close>

theorem config_interfaces_exact:
  "(from_router_yaml compile config vrf = Ok cfg \<longrightarrow>
     map (\<lambda>i. (ic_name i, Ok (ic_area_id i))) (dc_interfaces cfg) =
       map (\<lambda>(v, n, a). (n, parse_area_id_value a)) (filter (\<lambda>it. fst it = vrf) (ospf_items config))) \<and>
   (from_router_yaml_v3 compile config vrf = Ok (Some cfg6) \<longrightarrow>
     map (\<lambda>i. (ic6_name i, Ok (ic6_area_id i))) (d6_interfaces cfg6) =
       map (\<lambda>(v, n, a). (n, parse_area_id_value a)) (filter (\<lambda>it. fst it = vrf) (ospf3_items config)))"
proof (intro conjI impI)
  assume "from_router_yaml compile config vrf = Ok cfg"
  then obtain pd where "interfaces_v2 vrf pd config = Ok (dc_interfaces cfg)"
    using from_router_yaml_interfaces by blast
  with describes_interfaces_v2 [of vrf config pd]
  show "map (\<lambda>i. (ic_name i, Ok (ic_area_id i))) (dc_interfaces cfg) =
      map (\<lambda>(v, n, a). (n, parse_area_id_value a)) (filter (\<lambda>it. fst it = vrf) (ospf_items config))"
    by (simp add: describes_def in_vrf_def)
next
  assume "from_router_yaml_v3 compile config vrf = Ok (Some cfg6)"
  then obtain pd where "interfaces_v3 vrf pd config = Ok (d6_interfaces cfg6)"
    by (auto simp: from_router_yaml_v3_def bindR_eq_Ok_iff split: if_splits)
  with describes_interfaces_v3 [of vrf config pd]
  show "map (\<lambda>i. (ic6_name i, Ok (ic6_area_id i))) (d6_interfaces cfg6) =
      map (\<lambda>(v, n, a). (n, parse_area_id_value a)) (filter (\<lambda>it. fst it = vrf) (ospf3_items config))"
    by (simp add: describes_def in_vrf_def)
qed

section \<open>Which configurations are accepted\<close>

abbreviation succeeds :: "('e, 'a) outcome \<Rightarrow> bool" where
  "succeeds r \<equiv> \<exists>x. r = Ok x"

lemma collectR_succeeds: "succeeds (collectR f xs) \<longleftrightarrow> list_all (\<lambda>x. succeeds (f x)) xs"
  by (induction xs) (auto simp: bindR_eq_Ok_iff)

lemma collectR_member:
  "collectR f xs = Ok ys \<Longrightarrow> y \<in> set ys \<Longrightarrow> \<exists>x \<in> set xs. \<exists>zs. f x = Ok zs \<and> y \<in> set zs"
  by (induction xs arbitrary: ys) (fastforce simp: bindR_eq_Ok_iff)+

lemma compile_maps_succeeds:
  "succeeds (compile_maps compile out ms) \<longleftrightarrow>
     distinct (map rmy_name ms) \<and> set (map rmy_name ms) \<inter> fst ` set out = {} \<and> list_all (\<lambda>m. compile m \<noteq> None) ms"
proof (induction ms arbitrary: out)
  case (Cons m ms)
  then show ?case by (auto simp: map_of_eq_None_iff fst_set_update split: option.splits)
qed simp

lemma compile_maps_keys:
  "compile_maps compile out ms = Ok maps \<Longrightarrow> distinct (map fst out) \<Longrightarrow>
   distinct (map fst maps) \<and> fst ` set maps = fst ` set out \<union> rmy_name ` set ms"
proof (induction ms arbitrary: out)
  case (Cons m ms)
  then obtain c where c: "compile_maps compile (AList.update (rmy_name m) c out) ms = Ok maps"
    by (auto split: if_splits option.splits)
  from Cons.IH [OF c] Cons.prems(2) show ?case by (simp add: distinct_update fst_set_update)
qed simp

lemma compile_route_maps_succeeds:
  "succeeds (compile_route_maps compile ms) \<longleftrightarrow> distinct (map rmy_name ms) \<and> list_all (\<lambda>m. compile m \<noteq> None) ms"
  unfolding compile_route_maps_def compile_maps_succeeds by simp

lemma compile_route_maps_keys:
  "compile_route_maps compile ms = Ok maps \<Longrightarrow> distinct (map fst maps) \<and> fst ` set maps = rmy_name ` set ms"
  unfolding compile_route_maps_def by (drule compile_maps_keys) simp_all

text \<open>A redistribution entry is fine when its route-map, if any, exists; an unknown protocol is skipped.\<close>

definition entry_ok :: "string list \<Rightarrow> RedistributeEntry \<Rightarrow> bool" where
  "entry_ok names e \<longleftrightarrow>
     (case (redistribute_source_parse (re_protocol e), re_route_map e) of
        (Some _, Some name) \<Rightarrow> name \<in> set names
      | _ \<Rightarrow> True)"

lemma parse_redistribute_succeeds:
  assumes "fst ` set maps = set names"
  shows "succeeds (parse_redistribute maps e) \<longleftrightarrow> entry_ok names e"
  using assms by (auto simp: parse_redistribute_def entry_ok_def map_of_eq_None_iff split: option.splits)

lemma parse_redistribute_resolved:
  "parse_redistribute maps e = Ok rs \<Longrightarrow> r \<in> set rs \<Longrightarrow> rd_route_map r = Some name \<Longrightarrow> map_of maps name \<noteq> None"
  by (auto simp: parse_redistribute_def split: option.splits if_splits)

lemma redistribute_resolved:
  "collectR (parse_redistribute maps) es = Ok rs \<Longrightarrow> r \<in> set rs \<Longrightarrow> rd_route_map r = Some name \<Longrightarrow> \<exists>m. map_of maps name = Some m"
  using collectR_member [of "parse_redistribute maps"] parse_redistribute_resolved by fast

lemma parse_area_succeeds: "succeeds (parse_area a) \<longleftrightarrow> succeeds (parse_area_id_value (ace_area_id a))"
  by (auto simp: parse_area_def bindR_eq_Ok_iff)

lemma interfaces_v2_succeeds:
  "succeeds (interfaces_v2 vrf pd config) \<longleftrightarrow> list_all (\<lambda>it. succeeds (parse_area_id_value (snd (snd it)))) (in_vrf vrf (ospf_items config))"
proof (cases "interfaces_v2 vrf pd config")
  case (Ok ifs)
  have "map (\<lambda>i. (ic_name i, Ok (ic_area_id i))) ifs = map (\<lambda>(v, n, a). (n, parse_area_id_value a)) (in_vrf vrf (ospf_items config))"
    using describes_interfaces_v2 [of vrf config pd] by (simp add: describes_def Ok)
  from arg_cong [OF this, of set]
  have "(\<lambda>(v, n, a). (n, parse_area_id_value a)) ` set (in_vrf vrf (ospf_items config)) = (\<lambda>i. (ic_name i, Ok (ic_area_id i))) ` set ifs"
    by (simp only: list.set_map)
  then have "succeeds (parse_area_id_value (snd (snd it)))" if "it \<in> set (in_vrf vrf (ospf_items config))" for it
    using imageI [OF that, of "\<lambda>(v, n, a). (n, parse_area_id_value a)"] by (auto simp: case_prod_beta)
  then show ?thesis by (simp add: Ok list_all_iff)
next
  case (Err e)
  then show ?thesis
    using describes_interfaces_v2 [of vrf config pd] by (force simp: describes_def list_all_iff)
next
  case Panic
  then show ?thesis using describes_interfaces_v2 [of vrf config pd] by (simp add: describes_def)
qed

text \<open>
  When a configuration is accepted. \<^verbatim>\<open>from_router_yaml\<close> succeeds exactly if the slice of the VRF exists with a table of its own
  and is enabled, its router id is a valid address other than 0.0.0.0, every interface of the VRF names a valid area, the route-maps
  have different names and compile, every redistribution of a known protocol refers to one of them, and the areas are valid. An
  error in another VRF does no harm.
\<close>

lemma config_accepted_iff:
  "(\<exists>cfg. from_router_yaml compile config vrf = Ok cfg) \<longleftrightarrow>
   (\<exists>table oc rid. vrf_slice vrf (rc_ospf config) vy_table_id_v4 (rc_vrfs config) = Ok (table, oc) \<and> oc_enabled oc \<and>
     ipv4_from_str (unwrap_or ''0.0.0.0'' (oc_router_id oc)) = Some rid \<and> rid \<noteq> 0 \<and>
     list_all (\<lambda>it. \<exists>a. parse_area_id_value (snd (snd it)) = Ok a) (filter (\<lambda>it. fst it = vrf) (ospf_items config)) \<and>
     distinct (map rmy_name (rc_route_maps config)) \<and> list_all (\<lambda>m. compile m \<noteq> None) (rc_route_maps config) \<and>
     list_all (entry_ok (map rmy_name (rc_route_maps config))) (oc_redistribute oc) \<and>
     list_all (\<lambda>a. \<exists>x. parse_area_id_value (ace_area_id a) = Ok x) (oc_areas oc))"
  (is "_ \<longleftrightarrow> ?R")
proof -
  let ?names = "map rmy_name (rc_route_maps config)"
  have redis: "succeeds (collectR (parse_redistribute maps) (oc_redistribute oc)) \<longleftrightarrow> list_all (entry_ok ?names) (oc_redistribute oc)"
    if "compile_route_maps compile (rc_route_maps config) = Ok maps" for maps and oc :: OspfConfig
    using parse_redistribute_succeeds [of maps ?names] compile_route_maps_keys [OF that] by (simp add: collectR_succeeds)
  have rid: "succeeds (parse_router_id oc) \<longleftrightarrow> (\<exists>rid. ipv4_from_str (unwrap_or ''0.0.0.0'' (oc_router_id oc)) = Some rid \<and> rid \<noteq> 0)" for oc
    by (auto simp: parse_router_id_def split: option.splits)
  have areas: "succeeds (collectR parse_area as) \<longleftrightarrow> list_all (\<lambda>a. succeeds (parse_area_id_value (ace_area_id a))) as" for as
    by (simp add: collectR_succeeds parse_area_succeeds)
  have "(\<exists>cfg. from_router_yaml compile config vrf = Ok cfg) \<longleftrightarrow>
    (\<exists>table oc maps. vrf_slice vrf (rc_ospf config) vy_table_id_v4 (rc_vrfs config) = Ok (table, oc) \<and> oc_enabled oc \<and>
      succeeds (parse_router_id oc) \<and> succeeds (interfaces_v2 vrf (oc_passive_default oc) config) \<and>
      compile_route_maps compile (rc_route_maps config) = Ok maps \<and>
      succeeds (collectR (parse_redistribute maps) (oc_redistribute oc)) \<and> succeeds (collectR parse_area (oc_areas oc)))"
    by (simp add: from_router_yaml_def bindR_eq_Ok_iff) blast
  also have "\<dots> \<longleftrightarrow> ?R"
    unfolding rid areas interfaces_v2_succeeds in_vrf_def using compile_route_maps_succeeds [of compile "rc_route_maps config"] redis by blast
  finally show ?thesis .
qed

text \<open>
  C24. What every instance that \<^verbatim>\<open>load_all\<close> starts can rely on: its router id is set; it writes to table 0 exactly if it is the default
  instance; and every redistribution that names a route-map finds it among the compiled ones, whose names are unique, so that no
  redistribution is silently dropped for a missing map. The same holds for OSPFv3.
\<close>

theorem loaded_config_valid:
  "(cfg \<in> set (load_all compile config) \<longrightarrow>
      dc_router_id cfg \<noteq> 0 \<and> (dc_table_id_v4 cfg = 0 \<longleftrightarrow> dc_vrf_name cfg = None) \<and> distinct (map fst (dc_route_maps cfg)) \<and>
      (\<forall>r \<in> set (dc_redistribute cfg). \<forall>name. rd_route_map r = Some name \<longrightarrow> map_of (dc_route_maps cfg) name \<noteq> None)) \<and>
   (cfg6 \<in> set (load_all_v3 compile config) \<longrightarrow>
      d6_router_id cfg6 \<noteq> 0 \<and> (d6_table_id_v6 cfg6 = 0 \<longleftrightarrow> d6_vrf_name cfg6 = None) \<and> distinct (map fst (d6_route_maps cfg6)) \<and>
      (\<forall>r \<in> set (d6_redistribute cfg6). \<forall>name. rd_route_map r = Some name \<longrightarrow> map_of (d6_route_maps cfg6) name \<noteq> None))"
  (is "(_ \<longrightarrow> ?v2) \<and> (_ \<longrightarrow> ?v3)")
proof -
  have slice: "table = 0 \<longleftrightarrow> vrf = None" if "vrf_slice vrf oc tab vrfs = Ok (table, oc')" for vrf oc tab vrfs table oc'
    using that by (auto simp: vrf_slice_def split: option.splits if_splits)
  have rid: "rid \<noteq> 0" if "parse_router_id oc = Ok rid" for oc rid
    using that by (auto simp: parse_router_id_def split: option.splits if_splits)
  show ?thesis
  proof (rule conjI [OF impI impI])
    assume "cfg \<in> set (load_all compile config)"
    then obtain vrf where "from_router_yaml compile config vrf = Ok cfg"
      by (auto simp: load_all_def accepted_def split: if_splits outcome.splits)
    then show ?v2
      by (auto simp: from_router_yaml_def bindR_eq_Ok_iff slice rid split: if_splits dest: compile_route_maps_keys redistribute_resolved)
  next
    assume "cfg6 \<in> set (load_all_v3 compile config)"
    then obtain vrf where "from_router_yaml_v3 compile config vrf = Ok (Some cfg6)"
      by (auto simp: load_all_v3_def accepted_v3_def split: outcome.splits option.splits)
    then show ?v3
      by (auto simp: from_router_yaml_v3_def bindR_eq_Ok_iff slice rid split: if_splits dest: compile_route_maps_keys redistribute_resolved)
  qed
qed

section \<open>Witnesses\<close>

text \<open>A file with one interface, and one with a redistribution through a route-map.\<close>

definition example_block :: "RedistributeEntry list \<Rightarrow> OspfConfig" where
  "example_block rs =
     \<lparr>oc_enabled = True, oc_router_id = Some ''1.1.1.1'', oc_reference_bandwidth = None, oc_spf_delay = None, oc_spf_holdtime = None,
      oc_spf_max_holdtime = None, oc_passive_default = False, oc_distance = None, oc_distance_intra = None, oc_distance_inter = None,
      oc_distance_external = None, oc_summary_addresses = [], oc_default_originate = False, oc_default_originate_always = False,
      oc_default_originate_metric = None, oc_default_originate_metric_type = None, oc_redistribute = rs, oc_areas = [], oc_vrfs = []\<rparr>"

definition example_oi :: InterfaceOspfConfig where
  "example_oi =
     \<lparr>oi_area = Some (YamlNumber (Some 0)), oi_cost = None, oi_passive = None, oi_network_type = Some ''point-to-point'',
      oi_hello_interval = None, oi_dead_interval = None, oi_retransmit_interval = None, oi_priority = None, oi_auth_type = None,
      oi_auth_key = None, oi_md5_key_id = None, oi_md5_key = None, oi_neighbors = []\<rparr>"

definition example_file :: "RedistributeEntry list \<Rightarrow> unit RouteMapYaml list \<Rightarrow> unit RouterConfig" where
  "example_file rs ms =
     \<lparr>rc_ospf = example_block rs, rc_ospf3 = example_block rs,
      rc_interfaces = [\<lparr>ifc_name = Some ''e0'', ifc_vrf = None, ifc_ipv4 = [Cidr4 ''10.0.0.1/24''], ifc_ospf = Some example_oi,
        ifc_ospf3 = None, ifc_subinterfaces = []\<rparr>],
      rc_loopbacks = [], rc_tunnels = [], rc_route_maps = ms, rc_vrfs = []\<rparr>"

abbreviation accept_map :: "unit RouteMapYaml \<Rightarrow> unit RouteMap option" where
  "accept_map m \<equiv> Some [\<lparr>stmt_match = (), stmt_action = Permit\<rparr>]"

lemma example_texts:
  "ipv4_from_str ''1.1.1.1'' = Some 0x01010101" "cidr_pair ''10.0.0.1/24'' = Some (''10.0.0.1'', 24)"
  "ipv4_from_str ''10.0.0.1'' = Some 0x0A000001"
  by code_simp+

lemma example_interfaces_v2:
  "interfaces_v2 None False (example_file rs ms) =
     Ok [\<lparr>ic_name = ''e0'', ic_address = 0x0A000001, ic_prefix_len = 24, ic_area_id = 0, ic_cost = 10, ic_passive = False,
          ic_network_type = ''point-to-point'', ic_hello_interval = 10, ic_dead_interval = 40, ic_priority = 1,
          ic_retransmit_interval = 5, ic_auth_key = NoKey, ic_static_neighbors = []\<rparr>]"
  by (simp add: interfaces_v2_def example_file_def interface_v2_def with_area_def iface_in_vrf_def normalized_vrf_def example_oi_def
      configured_interface_def unwrap_or_def resolve_address_def example_texts oi_key_def parse_auth_key_def static_neighbors_v4_def
      map_filter_simps del: cidr_pair.simps)

lemma example_interfaces_v3: "interfaces_v3 None False (example_file rs ms) = Ok []"
  by (simp add: interfaces_v3_def example_file_def interface_v3_def with_area_def)

lemma example_slice:
  "vrf_slice None (rc_ospf (example_file rs ms)) t v = Ok (0, example_block rs)"
  "vrf_slice None (rc_ospf3 (example_file rs ms)) t v = Ok (0, example_block rs)"
  "parse_router_id (example_block rs) = Ok 0x01010101"
  by (simp_all add: vrf_slice_def example_file_def parse_router_id_def example_block_def unwrap_or_def example_texts)

lemma example_from_router_yaml: "from_router_yaml accept_map (example_file [] []) None = Ok example_config"
proof -
  have blk: "oc_enabled (example_block [])" "\<not> oc_passive_default (example_block [])" "oc_areas (example_block []) = []"
      "oc_redistribute (example_block []) = []" "oc_summary_addresses (example_block []) = []"
    by (simp_all add: example_block_def)
  have ms: "compile_route_maps accept_map (rc_route_maps (example_file [] [])) = Ok []"
    by (simp add: example_file_def compile_route_maps_def)
  show ?thesis
    unfolding from_router_yaml_def
    by (simp add: example_slice example_interfaces_v2 blk ms) (simp add: example_config_def example_block_def unwrap_or_def map_filter_simps)
qed

lemma example_loaded: "load_all accept_map (example_file [] []) = [example_config]"
proof -
  have "oc_enabled (rc_ospf (example_file [] []))" "oc_vrfs (rc_ospf (example_file [] [])) = []"
    by (simp_all add: example_file_def example_block_def)
  then show ?thesis by (simp add: load_all_def accepted_def example_from_router_yaml)
qed

abbreviation example_entry :: RedistributeEntry where
  "example_entry \<equiv> \<lparr>re_protocol = ''connected'', re_metric = None, re_metric_type = None, re_route_map = Some ''m''\<rparr>"

abbreviation example_map :: "unit RouteMapYaml" where
  "example_map \<equiv> \<lparr>rmy_name = ''m'', rmy_body = ()\<rparr>"

lemma example_redistributes:
  "\<exists>cfg cfg6. load_all accept_map (example_file [example_entry] [example_map]) = [cfg] \<and>
     load_all_v3 accept_map (example_file [example_entry] [example_map]) = [cfg6] \<and>
     map rd_route_map (dc_redistribute cfg) = [Some ''m''] \<and> map rd_route_map (d6_redistribute cfg6) = [Some ''m'']"
proof -
  let ?f = "example_file [example_entry] [example_map]"
  have ms: "compile_route_maps accept_map (rc_route_maps ?f) = Ok [(''m'', [\<lparr>stmt_match = (), stmt_action = Permit\<rparr>])]"
    by (simp add: example_file_def compile_route_maps_def)
  have red: "collectR (parse_redistribute [(''m'', r)]) (oc_redistribute (example_block [example_entry])) =
      Ok [\<lparr>rd_source = Connected, rd_metric = 20, rd_metric_type = 2, rd_route_map = Some ''m''\<rparr>]" for r :: "unit RouteMap"
    by (simp add: example_block_def parse_redistribute_def redistribute_source_parse_def redistribute_metric_def
        redistribute_metric_type_def unwrap_or_def)
  have blk: "oc_enabled (example_block rs)" "\<not> oc_passive_default (example_block rs)" "oc_areas (example_block rs) = []"
      "oc_vrfs (example_block rs) = []" for rs
    by (simp_all add: example_block_def)
  have rc: "rc_ospf ?f = example_block [example_entry]" "rc_ospf3 ?f = example_block [example_entry]" by (simp_all add: example_file_def)
  show ?thesis
    by (simp add: load_all_def load_all_v3_def accepted_def accepted_v3_def from_router_yaml_def from_router_yaml_v3_def
        vrf_slice_def rc example_slice(3) ms red blk example_interfaces_v2 example_interfaces_v3)
qed

lemma example_items: "ospf_items (example_file rs ms) = [(None, ''e0'', YamlNumber (Some 0))]"
  by (simp add: ospf_items_def example_file_def physical_items_def item_of_def example_oi_def normalized_vrf_def unwrap_or_def)

theorem config_interfaces_exact_witness:
  "\<exists>cfg. from_router_yaml accept_map (example_file [] []) None = Ok cfg \<and>
     map (\<lambda>i. (ic_name i, Ok (ic_area_id i) :: ipv4 config_result)) (dc_interfaces cfg) = [(''e0'', Ok 0)]"
  using config_interfaces_exact [of accept_map "example_file [] []" None example_config] example_from_router_yaml
  by (simp add: example_items)

theorem loaded_config_valid_witness:
  "\<exists>cfg. load_all accept_map (example_file [example_entry] [example_map]) = [cfg] \<and> dc_router_id cfg \<noteq> 0 \<and>
     map rd_route_map (dc_redistribute cfg) = [Some ''m''] \<and> map_of (dc_route_maps cfg) ''m'' \<noteq> None"
proof -
  obtain cfg cfg6 where "load_all accept_map (example_file [example_entry] [example_map]) = [cfg]"
      "load_all_v3 accept_map (example_file [example_entry] [example_map]) = [cfg6]" "map rd_route_map (dc_redistribute cfg) = [Some ''m'']"
    using example_redistributes by (elim exE conjE) (rule that; assumption)
  then show ?thesis
    using loaded_config_valid [of cfg accept_map "example_file [example_entry] [example_map]" cfg6] by (auto simp: map_eq_Cons_conv)
qed

end
