(* ===== verification/Db_Exchange.thy ===== *)
theory Db_Exchange
  imports Instance_Inv
begin

text \<open>
  \<^verbatim>\<open>src/instance.rs\<close>, second part: the database exchange. Database Description packets are built from
  the summary list of a neighbor and processed against the databases, requests are sent, retransmitted
  and answered.
\<close>

section \<open>Lookup across the databases\<close>

text \<open>Type 5 LSAs are in the AS-wide database, all others in the database of the area.\<close>

definition lookup_lsa :: "'c OspfInstance \<Rightarrow> ipv4 \<Rightarrow> LsaKey \<Rightarrow> LsdbEntry option" where
  "lookup_lsa s aid k =
     (if key_type k = AsExternal then lsdb_get (as_external_lsdb s) k
      else (case map_of (areas s) aid of None \<Rightarrow> None | Some a \<Rightarrow> lsdb_get (lsdb a) k))"

definition our_headers :: "instant \<Rightarrow> 'c OspfInstance \<Rightarrow> ipv4 \<Rightarrow> LsaHeader list" where
  "our_headers now s aid =
     (case map_of (areas s) aid of None \<Rightarrow> [] | Some a \<Rightarrow> all_headers now (lsdb a)) @
     all_headers now (as_external_lsdb s)"

section \<open>Building Database Description packets\<close>

definition MAX_HEADERS_PER_DD :: nat where
  "MAX_HEADERS_PER_DD = 60"

text \<open>The part of \<^verbatim>\<open>build_dd\<close> under the borrow of the neighbor: flags, headers, sequence number, neighbor.\<close>

definition dd_contents :: "bool \<Rightarrow> Neighbor \<Rightarrow> (u8 \<times> LsaHeader list \<times> u32) \<times> Neighbor" where
  "dd_contents initial n =
     (if initial then ((DD_FLAG_I OR DD_FLAG_M OR DD_FLAG_MS, [], dd_seq_number n), n)
      else
        (let (flags, n) =
           (if is_master n then (DD_FLAG_MS, n\<lparr>dd_seq_number := dd_seq_number n + 1\<rparr>) else (0, n));
             chunk = take MAX_HEADERS_PER_DD (db_summary_list n);
             n = n\<lparr>db_summary_list := drop MAX_HEADERS_PER_DD (db_summary_list n)\<rparr>;
             (flags, n) =
           (if db_summary_list n \<noteq> [] then (flags OR DD_FLAG_M, n) else (flags, n\<lparr>sent_m_clear := True\<rparr>))
         in ((flags, chunk, dd_seq_number n), n)))"

definition dd_packet :: "ipv4 \<Rightarrow> OspfInterface \<Rightarrow> u8 \<times> LsaHeader list \<times> u32 \<Rightarrow> OspfPacket" where
  "dd_packet rid i = (\<lambda>(flags, hs, sq).
     DatabaseDescription (ospf_header_new PT_DatabaseDescription rid (if_area_id i))
       \<lparr>interface_mtu = dd_mtu i, dd_options = if_options i, dd_flags = flags, dd_sequence_number = sq,
        lsa_headers = hs\<rparr>)"

definition build_dd :: "nat \<Rightarrow> ipv4 \<Rightarrow> bool \<Rightarrow> 'c OspfInstance \<Rightarrow> OspfPacket option \<times> 'c OspfInstance" where
  "build_dd idx nid initial s =
     (if idx < length (interfaces s) then
        (let i = interfaces s ! idx in
         case map_of (neighbors i) nid of
           None \<Rightarrow> (None, s)
         | Some n \<Rightarrow>
             (case dd_contents initial n of
                (cont, n') \<Rightarrow> (Some (dd_packet (router_id s) i cont), update_iface idx (update_neighbor nid (\<lambda>_. n')) s)))
      else (None, s))"

section \<open>Processing Database Description packets\<close>

text \<open>Stale-self-LSA recovery: one header of the packet; the flag tells whether a sequence number was bumped.\<close>

definition bump_self :: "ipv4 \<Rightarrow> LsaHeader \<Rightarrow> bool \<times> 'c OspfInstance \<Rightarrow> bool \<times> 'c OspfInstance" where
  "bump_self aid h = (\<lambda>(bumped_any, s).
     (if advertising_router h \<noteq> router_id s then (bumped_any, s)
      else if ls_type h = AsExternal then
        (case bump_seq (header_key h) (ls_sequence_number h) (as_external_lsdb s) of
           (b, db) \<Rightarrow> (bumped_any \<or> b, s\<lparr>as_external_lsdb := db\<rparr>))
      else
        (case map_of (areas s) aid of
           None \<Rightarrow> (bumped_any, s)
         | Some a \<Rightarrow>
             (case bump_seq (header_key h) (ls_sequence_number h) (lsdb a) of
                (b, db) \<Rightarrow> (bumped_any \<or> b, set_area_lsdb aid db s)))))"

definition recover_self_lsas :: "instant \<Rightarrow> ipv4 \<Rightarrow> LsaHeader list \<Rightarrow> 'c OspfInstance \<Rightarrow> 'c OspfInstance" where
  "recover_self_lsas now aid hs s =
     (case fold (bump_self aid) hs (False, s) of
        (bumped, s') \<Rightarrow> if bumped then schedule_spf now s' else s')"

type_synonym lsa_exists = "(LsaKey \<times> LsaHeader option) list"

definition lsa_exists_list :: "'c OspfInstance \<Rightarrow> ipv4 \<Rightarrow> LsaHeader list \<Rightarrow> lsa_exists" where
  "lsa_exists_list s aid hs =
     map (\<lambda>h. (header_key h, map_option (\<lambda>e. header (entry_lsa e)) (lookup_lsa s aid (header_key h)))) hs"

definition dd_needed :: "LsaHeader list \<Rightarrow> LsaKey \<times> LsaHeader option \<Rightarrow> bool" where
  "dd_needed hs = (\<lambda>(k, existing).
     (case existing of
        None \<Rightarrow> True
      | Some e \<Rightarrow>
          (case List.find (\<lambda>h. header_key h = k) hs of
             Some h \<Rightarrow> is_more_recent_than h e = Greater
           | None \<Rightarrow> False)))"

definition request_needed :: "DbDescPacket \<Rightarrow> lsa_exists \<Rightarrow> Neighbor \<Rightarrow> Neighbor" where
  "request_needed dd ex n =
     n\<lparr>ls_request_list := ls_request_list n @ map fst (filter (dd_needed (lsa_headers dd)) ex)\<rparr>"

text \<open>The \<^verbatim>\<open>match neighbor.state\<close>.\<close>

definition dd_exstart ::
  "instant \<Rightarrow> ipv4 \<Rightarrow> OspfHeader \<Rightarrow> DbDescPacket \<Rightarrow> LsaHeader list \<Rightarrow> Neighbor \<Rightarrow> Neighbor" where
  "dd_exstart now my_rid hdr dd ours n =
     (if dd_is_init dd \<and> dd_has_more dd \<and> dd_is_master dd \<and> lsa_headers dd = [] then
        (if oh_router_id hdr > my_rid then
           snd (handle_event now NegotiationDone True
             (n\<lparr>is_master := False, dd_seq_number := dd_sequence_number dd, sent_m_clear := False,
                db_summary_list := ours\<rparr>))
         else n)
      else if \<not> dd_is_init dd \<and> \<not> dd_is_master dd then
        (if oh_router_id hdr < my_rid \<and> dd_sequence_number dd = dd_seq_number n then
           snd (handle_event now NegotiationDone True
             (n\<lparr>is_master := True, sent_m_clear := False, db_summary_list := ours\<rparr>))
         else n)
      else n)"

definition dd_neighbor ::
  "instant \<Rightarrow> ipv4 \<Rightarrow> OspfHeader \<Rightarrow> DbDescPacket \<Rightarrow> lsa_exists \<Rightarrow> LsaHeader list \<Rightarrow> Neighbor \<Rightarrow> Neighbor" where
  "dd_neighbor now my_rid hdr dd ex ours n =
     (let n =
        (case n_state n of
           ExStart \<Rightarrow>
             (let n = dd_exstart now my_rid hdr dd ours n
              in if n_state n = Exchange then request_needed dd ex n else n)
         | Exchange \<Rightarrow>
             (let n = request_needed dd ex n
              in if \<not> dd_has_more dd \<and> sent_m_clear n then snd (handle_event now ExchangeDone True n) else n)
         | _ \<Rightarrow> n);
          n = n\<lparr>last_dd := Some dd\<rparr>;
          n = (if n_state n = Exchange \<and> \<not> is_master n then n\<lparr>dd_seq_number := dd_sequence_number dd\<rparr> else n)
      in n\<lparr>last_dd_sent := now\<rparr>)"

definition lsr_requests :: "Neighbor \<Rightarrow> LsRequest list" where
  "lsr_requests n =
     map (\<lambda>k. \<lparr>rq_ls_type = key_type k, rq_link_state_id = key_lsid k, rq_advertising_router = key_adv k\<rparr>)
       (take 20 (ls_request_list n))"

definition lsr_packet :: "ipv4 \<Rightarrow> ipv4 \<Rightarrow> LsRequest list \<Rightarrow> OspfPacket" where
  "lsr_packet rid aid rs = LinkStateRequest (ospf_header_new PT_LinkStateRequest rid aid) \<lparr>requests = rs\<rparr>"

text \<open>The last step of \<^verbatim>\<open>process_dd\<close>: request what is missing, at most 20 LSAs in a packet.\<close>

definition send_lsr :: "instant \<Rightarrow> nat \<Rightarrow> ipv4 \<Rightarrow> ipv4 \<Rightarrow> 'c OspfInstance \<Rightarrow> response list \<times> 'c OspfInstance" where
  "send_lsr now idx nid dst s =
     (let i = interfaces s ! idx in
      case map_of (neighbors i) nid of
        None \<Rightarrow> ([], s)
      | Some n \<Rightarrow>
          (let reqs = lsr_requests n in
           if reqs \<noteq> [] then
             ([(sw_if_index i, dst, lsr_packet (router_id s) (if_area_id i) reqs)],
              update_iface idx (update_neighbor nid (\<lambda>n. n\<lparr>last_lsr_sent := now\<rparr>)) s)
           else ([], s)))"

definition process_dd ::
  "instant \<Rightarrow> nat \<Rightarrow> ipv4 \<Rightarrow> OspfHeader \<Rightarrow> DbDescPacket \<Rightarrow> 'c OspfInstance \<Rightarrow> response list \<times> 'c OspfInstance" where
  "process_dd now idx src hdr dd s =
     (let nid = oh_router_id hdr;
          aid = if_area_id (interfaces s ! idx);
          s = recover_self_lsas now aid (lsa_headers dd) s;
          ex = lsa_exists_list s aid (lsa_headers dd);
          ours = our_headers now s aid
      in case map_of (neighbors (interfaces s ! idx)) nid of
           None \<Rightarrow> ([], s)
         | Some n \<Rightarrow>
             (let n = dd_neighbor now (router_id s) hdr dd ex ours n;
                  s = update_iface idx (update_neighbor nid (\<lambda>_. n)) s;
                  needs_lsr = (n_state n \<ge> Exchange \<and> ls_request_list n \<noteq> []);
                  (pkt, s) =
                (case n_state n of
                   ExStart \<Rightarrow> build_dd idx nid True s
                 | Exchange \<Rightarrow> build_dd idx nid False s
                 | _ \<Rightarrow> (None, s));
                  out = (case pkt of Some p \<Rightarrow> [(sw_if_index (interfaces s ! idx), src, p)] | None \<Rightarrow> []);
                  (lsr, s) = (if needs_lsr then send_lsr now idx nid src s else ([], s))
              in (out @ lsr, s)))"

section \<open>Timer-driven retransmission\<close>

definition dd_pending :: "instant \<Rightarrow> Neighbor \<Rightarrow> bool" where
  "dd_pending now n \<longleftrightarrow> n_state n = ExStart \<and> saturating_duration_since now (last_dd_sent n) \<ge> 1000"

definition pending_dds :: "instant \<Rightarrow> 'c OspfInstance \<Rightarrow> (nat \<times> ipv4 \<times> ipv4) list" where
  "pending_dds now s =
     concat (map (\<lambda>(idx, i).
         map (\<lambda>n. (idx, n_router_id n, n_address n)) (filter (dd_pending now) (map snd (neighbors i))))
       (enumerate 0 (interfaces s)))"

text \<open>\<open>elapsed\<close> is \<^verbatim>\<open>now.elapsed().as_millis() as u32\<close>, read a moment after \<open>now\<close>.\<close>

definition seed_dd :: "instant \<Rightarrow> u32 \<Rightarrow> Neighbor \<Rightarrow> Neighbor" where
  "seed_dd now elapsed n =
     (if dd_seq_number n = 0 then n\<lparr>dd_seq_number := 0x80000000 + (elapsed AND 0xFFFF)\<rparr> else n)
       \<lparr>last_dd_sent := now\<rparr>"

definition emit_dd ::
  "instant \<Rightarrow> u32 \<Rightarrow> nat \<times> ipv4 \<times> ipv4 \<Rightarrow> response list \<times> 'c OspfInstance \<Rightarrow> response list \<times> 'c OspfInstance" where
  "emit_dd now elapsed = (\<lambda>(idx, nid, addr) (out, s).
     (let s = update_iface idx (update_neighbor nid (seed_dd now elapsed)) s in
      case build_dd idx nid True s of
        (Some p, s) \<Rightarrow> (out @ [(sw_if_index (interfaces s ! idx), addr, p)], s)
      | (None, s) \<Rightarrow> (out, s)))"

definition emit_pending_dds :: "instant \<Rightarrow> u32 \<Rightarrow> 'c OspfInstance \<Rightarrow> response list \<times> 'c OspfInstance" where
  "emit_pending_dds now elapsed s = fold (emit_dd now elapsed) (pending_dds now s) ([], s)"

definition lsr_due :: "instant \<Rightarrow> OspfInterface \<Rightarrow> Neighbor \<Rightarrow> bool" where
  "lsr_due now i n \<longleftrightarrow>
     (n_state n = Exchange \<or> n_state n = Loading) \<and> ls_request_list n \<noteq> [] \<and>
     saturating_duration_since now (last_lsr_sent n) \<ge> 1000 * unat (max (rxmt_interval i) 1)"

definition due_lsrs :: "instant \<Rightarrow> 'c OspfInstance \<Rightarrow> (nat \<times> ipv4 \<times> ipv4 \<times> ipv4 \<times> u32) list" where
  "due_lsrs now s =
     concat (map (\<lambda>(idx, i).
         map (\<lambda>n. (idx, n_router_id n, n_address n, if_area_id i, sw_if_index i))
           (filter (lsr_due now i) (map snd (neighbors i))))
       (enumerate 0 (interfaces s)))"

definition emit_lsr ::
  "instant \<Rightarrow> nat \<times> ipv4 \<times> ipv4 \<times> ipv4 \<times> u32 \<Rightarrow> response list \<times> 'c OspfInstance \<Rightarrow> response list \<times> 'c OspfInstance" where
  "emit_lsr now = (\<lambda>(idx, nid, addr, aid, sw) (out, s).
     (if idx < length (interfaces s) then
        (case map_of (neighbors (interfaces s ! idx)) nid of
           None \<Rightarrow> (out, s)
         | Some n \<Rightarrow>
             (let reqs = lsr_requests n in
              if reqs = [] then (out, s)
              else
                (out @ [(sw, addr, lsr_packet (router_id s) aid reqs)],
                 update_iface idx (update_neighbor nid (\<lambda>n. n\<lparr>last_lsr_sent := now\<rparr>)) s)))
      else (out, s)))"

definition emit_pending_lsrs :: "instant \<Rightarrow> 'c OspfInstance \<Rightarrow> response list \<times> 'c OspfInstance" where
  "emit_pending_lsrs now s = fold (emit_lsr now) (due_lsrs now s) ([], s)"

section \<open>Answering Link State Requests\<close>

definition request_key :: "LsRequest \<Rightarrow> LsaKey" where
  "request_key r = \<lparr>key_type = rq_ls_type r, key_lsid = rq_link_state_id r, key_adv = rq_advertising_router r\<rparr>"

text \<open>The loop over the requests; \<open>None\<close> is the early return on a request that cannot be answered.\<close>

fun collect_requested :: "'c OspfInstance \<Rightarrow> ipv4 \<Rightarrow> LsRequest list \<Rightarrow> Lsa list option" where
  "collect_requested s aid [] = Some []"
| "collect_requested s aid (r # rs) =
     (case lookup_lsa s aid (request_key r) of
        None \<Rightarrow> None
      | Some e \<Rightarrow> map_option ((#) (entry_lsa e)) (collect_requested s aid rs))"

definition process_lsr ::
  "instant \<Rightarrow> nat \<Rightarrow> ipv4 \<Rightarrow> OspfHeader \<Rightarrow> LsRequestPacket \<Rightarrow> 'c OspfInstance \<Rightarrow> response list \<times> 'c OspfInstance" where
  "process_lsr now idx src hdr lsr s =
     (let i = interfaces s ! idx in
      case collect_requested s (if_area_id i) (requests lsr) of
        None \<Rightarrow>
          ([], update_iface idx (update_neighbor (oh_router_id hdr) (\<lambda>n. snd (handle_event now BadLsReq False n))) s)
      | Some ls \<Rightarrow>
          if ls \<noteq> [] then
            ([(sw_if_index i, src,
               LinkStateUpdate (ospf_header_new PT_LinkStateUpdate (router_id s) (if_area_id i)) \<lparr>lsas = ls\<rparr>)], s)
          else ([], s))"

section \<open>Preservation of the invariant\<close>

lemma bump_self_inv:
  "inst_inv s \<Longrightarrow> inst_inv (snd (bump_self aid h (b, s))) \<and> interfaces (snd (bump_self aid h (b, s))) = interfaces s \<and>
   router_id (snd (bump_self aid h (b, s))) = router_id s \<and> map fst (areas (snd (bump_self aid h (b, s)))) = map fst (areas s)"
  by (auto simp: bump_self_def case_prod_beta inst_inv_set_ext inst_inv_set_area bump_op.db_ok_op inst_inv_ext
      inst_inv_area split: option.split)

lemma fold_bump_self_inv:
  "inst_inv s \<Longrightarrow> inst_inv (snd (fold (bump_self aid) hs (b, s))) \<and>
   interfaces (snd (fold (bump_self aid) hs (b, s))) = interfaces s \<and>
   router_id (snd (fold (bump_self aid) hs (b, s))) = router_id s \<and>
   map fst (areas (snd (fold (bump_self aid) hs (b, s)))) = map fst (areas s)"
proof (induction hs arbitrary: b s)
  case (Cons h hs)
  obtain b' s' where "bump_self aid h (b, s) = (b', s')" by fastforce
  with bump_self_inv [OF Cons.prems, of aid h b] Cons.IH [of s' b'] show ?case by simp
qed simp

lemma recover_self_lsas_inv:
  assumes "inst_inv s"
  shows "inst_inv (recover_self_lsas now aid hs s)"
    and "interfaces (recover_self_lsas now aid hs s) = interfaces s"
    and "router_id (recover_self_lsas now aid hs s) = router_id s"
  using fold_bump_self_inv [OF assms, of aid hs False]
  by (auto simp: recover_self_lsas_def split: prod.split)

lemma dd_contents_keeps:
  "nbr_ok n \<Longrightarrow> nbr_ok (snd (dd_contents initial n))"
  "n_router_id (snd (dd_contents initial n)) = n_router_id n"
  "n_state (snd (dd_contents initial n)) = n_state n"
  "ls_request_list (snd (dd_contents initial n)) = ls_request_list n"
  by (auto simp: dd_contents_def Let_def nbr_ok_def split: prod.split)

lemma build_dd_fields [simp]:
  "areas (snd (build_dd idx nid b s)) = areas s" "router_id (snd (build_dd idx nid b s)) = router_id s"
  "as_external_lsdb (snd (build_dd idx nid b s)) = as_external_lsdb s"
  by (simp_all add: build_dd_def Let_def split: option.split prod.split)

lemma stored_neighbor:
  "inst_inv s \<Longrightarrow> idx < length (interfaces s) \<Longrightarrow> map_of (neighbors (interfaces s ! idx)) nid = Some n \<Longrightarrow>
   n_router_id n = nid \<and> nbr_ok n"
  using inst_inv_iface [of s "interfaces s ! idx"] iface_ok_get by auto

lemma build_dd_inv: "inst_inv s \<Longrightarrow> inst_inv (snd (build_dd idx nid initial s))"
  using dd_contents_keeps(1,2) stored_neighbor [of s idx nid]
  by (auto simp: build_dd_def Let_def split: option.split prod.split intro!: inst_inv_put_neighbor)
    (metis snd_conv)+

lemma dd_exstart_keeps:
  assumes "n_state n = ExStart" and "nbr_ok n"
  shows "nbr_ok (dd_exstart now rid hdr dd ours n)" and "n_router_id (dd_exstart now rid hdr dd ours n) = n_router_id n"
    and "n_state (dd_exstart now rid hdr dd ours n) \<in> {ExStart, Exchange}"
  using assms by (auto simp: dd_exstart_def handle_event_defs nbr_ok_def state_order)

lemma request_needed_keeps:
  "n_state n = Exchange \<Longrightarrow> nbr_ok (request_needed dd ex n)"
  "n_router_id (request_needed dd ex n) = n_router_id n" "n_state (request_needed dd ex n) = n_state n"
  by (simp_all add: request_needed_def nbr_ok_def state_order)

lemma dd_neighbor_id [simp]: "n_router_id (dd_neighbor now rid hdr dd ex ours n) = n_router_id n"
  by (cases "n_state n") (simp_all add: dd_neighbor_def Let_def request_needed_keeps dd_exstart_def)

lemma dd_neighbor_ok: "nbr_ok n \<Longrightarrow> nbr_ok (dd_neighbor now rid hdr dd ex ours n)"
  using dd_exstart_keeps [of n now rid hdr dd ours]
  by (cases "n_state n")
    (auto simp: dd_neighbor_def Let_def request_needed_keeps intro!: nbr_ok_handle_event)

lemma send_lsr_inv: "inst_inv s \<Longrightarrow> inst_inv (snd (send_lsr now idx nid dst s))"
  by (simp add: send_lsr_def Let_def stamp_lsr.upd.inst_inv_update split: option.split)

lemma process_dd_inv:
  assumes "inst_inv s" and "idx < length (interfaces s)"
  shows "inst_inv (snd (process_dd now idx src hdr dd s))"
proof -
  let ?s = "recover_self_lsas now (if_area_id (interfaces s ! idx)) (lsa_headers dd) s"
  have inv: "inst_inv ?s" and len: "idx < length (interfaces ?s)"
    using recover_self_lsas_inv [OF assms(1)] assms(2) by simp_all
  have put: "inst_inv (update_iface idx (update_neighbor (oh_router_id hdr)
      (\<lambda>_. dd_neighbor now rid hdr dd ex ours n)) ?s)"
    if "map_of (neighbors (interfaces ?s ! idx)) (oh_router_id hdr) = Some n" for n rid ex ours
    using stored_neighbor [OF inv len that] by (intro inst_inv_put_neighbor inv) (simp_all add: dd_neighbor_ok)
  show ?thesis
    unfolding process_dd_def Let_def
    by (auto split: option.split prod.split NeighborState.split intro: inv put send_lsr_inv
        dest!: arg_cong [where f = snd] intro!: send_lsr_inv)
      (metis build_dd_inv put send_lsr_inv snd_conv)+
qed

interpretation seed_op: nbr_op "seed_dd now elapsed" for now elapsed
  by unfold_locales (simp_all add: seed_dd_def)

lemma emit_dd_inv: "inst_inv s \<Longrightarrow> inst_inv (snd (emit_dd now elapsed d (out, s)))"
proof (cases d)
  case (fields idx nid addr)
  assume "inst_inv s"
  then have "inst_inv (snd (build_dd idx nid True (update_iface idx (update_neighbor nid (seed_dd now elapsed)) s)))"
    by (intro build_dd_inv seed_op.upd.inst_inv_update)
  then show ?thesis by (auto simp: emit_dd_def Let_def fields split: prod.split option.split)
qed

lemma emit_lsr_inv: "inst_inv s \<Longrightarrow> inst_inv (snd (emit_lsr now d (out, s)))"
  by (cases d) (simp add: emit_lsr_def Let_def stamp_lsr.upd.inst_inv_update split: option.split)

lemma fold_snd_inv:
  assumes "\<And>x r s. P s \<Longrightarrow> P (snd (f x (r, s)))"
  shows "P s \<Longrightarrow> P (snd (fold f xs (r, s)))"
proof (induction xs arbitrary: r s)
  case (Cons x xs)
  then show ?case using assms [of s x r] by (cases "f x (r, s)") simp
qed simp

lemma emit_pending_inv:
  "inst_inv s \<Longrightarrow> inst_inv (snd (emit_pending_dds now elapsed s))"
  "inst_inv s \<Longrightarrow> inst_inv (snd (emit_pending_lsrs now s))"
  unfolding emit_pending_dds_def emit_pending_lsrs_def
  by (rule fold_snd_inv [where P = inst_inv], erule emit_dd_inv emit_lsr_inv, assumption)+

lemma process_lsr_inv: "inst_inv s \<Longrightarrow> inst_inv (snd (process_lsr now idx src hdr lsr s))"
  by (simp add: process_lsr_def Let_def bad_request.upd.inst_inv_update split: option.split)

section \<open>Paging\<close>

text \<open>The contents of the next \<open>k\<close> Database Description packets for a neighbor.\<close>

fun send_dds :: "nat \<Rightarrow> Neighbor \<Rightarrow> (u8 \<times> LsaHeader list \<times> u32) list \<times> Neighbor" where
  "send_dds 0 n = ([], n)"
| "send_dds (Suc k) n =
     (case dd_contents False n of (p, n1) \<Rightarrow> case send_dds k n1 of (ps, n2) \<Rightarrow> (p # ps, n2))"

definition dd_page :: "Neighbor \<Rightarrow> nat \<Rightarrow> u8 \<times> LsaHeader list \<times> u32" where
  "dd_page n j =
     ((if is_master n then DD_FLAG_MS else 0) OR (if 60 * Suc j < length (db_summary_list n) then DD_FLAG_M else 0),
      take 60 (drop (60 * j) (db_summary_list n)),
      dd_seq_number n + (if is_master n then word_of_nat (Suc j) else 0))"

lemma dd_contents_page:
  "fst (dd_contents False n) = dd_page n 0"
  "dd_page (snd (dd_contents False n)) j = dd_page n (Suc j)"
  "db_summary_list (snd (dd_contents False n)) = drop 60 (db_summary_list n)"
  "sent_m_clear (snd (dd_contents False n)) = (sent_m_clear n \<or> length (db_summary_list n) \<le> 60)"
  by (auto simp: dd_contents_def dd_page_def Let_def MAX_HEADERS_PER_DD_def add.assoc add.commute)

lemma send_dds_pages:
  "fst (send_dds k n) = map (dd_page n) [0..<k] \<and>
   db_summary_list (snd (send_dds k n)) = drop (60 * k) (db_summary_list n) \<and>
   (sent_m_clear (snd (send_dds k n)) \<longleftrightarrow> sent_m_clear n \<or> k > 0 \<and> length (db_summary_list n) \<le> 60 * k)"
proof (induction k arbitrary: n)
  case (Suc k)
  let ?n = "snd (dd_contents False n)"
  have "send_dds (Suc k) n = (dd_page n 0 # fst (send_dds k ?n), snd (send_dds k ?n))"
    by (simp add: dd_contents_page(1) [symmetric] case_prod_beta)
  moreover have "map (dd_page n) [0..<Suc k] = dd_page n 0 # map (dd_page ?n) [0..<k]"
    unfolding dd_contents_page(2) by (simp add: upt_conv_Cons map_Suc_upt [symmetric] o_def del: upt_Suc)
  ultimately show ?case
    using Suc [of ?n] by (auto simp: dd_contents_page(3,4) add.commute)
qed simp

lemma concat_pages:
  "length xs \<le> 60 * k \<Longrightarrow> concat (map (\<lambda>j. take 60 (drop (60 * j) xs)) [0..<k]) = xs"
proof (induction k arbitrary: xs)
  case (Suc k)
  have "map (\<lambda>j. take 60 (drop (60 * j) xs)) [0..<Suc k] =
      take 60 xs # map (\<lambda>j. take 60 (drop (60 * j) (drop 60 xs))) [0..<k]"
    by (simp add: upt_conv_Cons map_Suc_upt [symmetric] o_def add.commute del: upt_Suc)
  with Suc.IH [of "drop 60 xs"] Suc.prems show ?case by simp
qed simp

lemma dd_page_flags: "dd_page n j = (fl, hs, sq) \<Longrightarrow> fl AND DD_FLAG_M \<noteq> 0 \<longleftrightarrow> 60 * Suc j < length (db_summary_list n)"
  by (auto simp: dd_page_def DD_FLAG_M_def DD_FLAG_MS_def split: if_splits)

text \<open>How many packets the description of a list takes: one for every 60 headers, and at least one.\<close>

definition dd_pages :: "LsaHeader list \<Rightarrow> nat" where
  "dd_pages hs = max 1 ((length hs + 59) div 60)"

lemma dd_pages_bounds:
  "length hs \<le> 60 * dd_pages hs" "j < dd_pages hs \<Longrightarrow> 60 * Suc j < length hs \<longleftrightarrow> j < dd_pages hs - 1" "dd_pages hs > 0"
  by (auto simp: dd_pages_def max_def split: if_splits)

text \<open>
  The description of the database is complete and ends: the \<open>dd_pages\<close> packets that build_dd produces
  in Exchange carry the headers of the summary list, in order and each once, at most 60 in a packet; all
  but the last have the M bit set, a master numbers them consecutively and a slave repeats its sequence
  number; after the last one the list is empty and the end of the exchange is recorded.
\<close>

theorem dd_paging:
  "case send_dds (dd_pages (db_summary_list n)) n of (ps, n') \<Rightarrow>
     concat (map (\<lambda>(_, hs, _). hs) ps) = db_summary_list n \<and> db_summary_list n' = [] \<and> sent_m_clear n' \<and>
     (\<forall>j < dd_pages (db_summary_list n). case ps ! j of (fl, hs, sq) \<Rightarrow>
        length hs \<le> 60 \<and> (fl AND DD_FLAG_M \<noteq> 0 \<longleftrightarrow> j < dd_pages (db_summary_list n) - 1) \<and>
        sq = dd_seq_number n + (if is_master n then word_of_nat (Suc j) else 0))"
proof -
  let ?k = "dd_pages (db_summary_list n)"
  obtain ps n' where r: "send_dds ?k n = (ps, n')" by fastforce
  note pages = send_dds_pages [of ?k n, unfolded r fst_conv snd_conv]
  have ps: "ps = map (dd_page n) [0..<?k]" using pages by blast
  have "concat (map (\<lambda>(_, hs, _). hs) ps) = db_summary_list n"
    using concat_pages [OF dd_pages_bounds(1)] by (simp add: ps o_def dd_page_def)
  moreover have "case ps ! j of (fl, hs, sq) \<Rightarrow>
      length hs \<le> 60 \<and> (fl AND DD_FLAG_M \<noteq> 0 \<longleftrightarrow> j < ?k - 1) \<and>
      sq = dd_seq_number n + (if is_master n then word_of_nat (Suc j) else 0)" if "j < ?k" for j
  proof -
    obtain fl hs sq where p: "dd_page n j = (fl, hs, sq)" by (metis prod_cases3)
    then show ?thesis
      using dd_page_flags [OF p] dd_pages_bounds(2) [OF that] that by (simp add: ps) (auto simp: dd_page_def)
  qed
  ultimately show ?thesis
    using pages dd_pages_bounds(1,3) [of "db_summary_list n"] by (simp add: r)
qed

section \<open>Requests\<close>

lemma find_distinct_key:
  "distinct (map f xs) \<Longrightarrow> x \<in> set xs \<Longrightarrow> List.find (\<lambda>y. f y = f x) xs = Some x"
  by (induction xs) (auto simp: rev_image_eqI)

text \<open>
  C13. In Exchange a Database Description makes the router request exactly the LSAs it lacks or holds in
  an older instance, appended in the order of the packet; the exchange ends, in Loading or in Full as
  requests are outstanding or not, exactly when both sides have described everything.
\<close>

theorem dd_requests_missing:
  assumes "n_state n = Exchange" and "distinct (map header_key (lsa_headers dd))"
  shows "let n' = dd_neighbor now rid hdr dd (lsa_exists_list s aid (lsa_headers dd)) ours n in
    ls_request_list n' = ls_request_list n @ map header_key (filter (\<lambda>h.
       case lookup_lsa s aid (header_key h) of None \<Rightarrow> True
       | Some e \<Rightarrow> is_more_recent_than h (header (entry_lsa e)) = Greater) (lsa_headers dd)) \<and>
    n_state n' = (if \<not> dd_has_more dd \<and> sent_m_clear n then
                    (if ls_request_list n' = [] then Full else Loading) else Exchange)"
proof -
  have "dd_needed (lsa_headers dd) (header_key h, map_option (\<lambda>e. header (entry_lsa e)) (lookup_lsa s aid (header_key h))) =
      (case lookup_lsa s aid (header_key h) of None \<Rightarrow> True
       | Some e \<Rightarrow> is_more_recent_than h (header (entry_lsa e)) = Greater)" if "h \<in> set (lsa_headers dd)" for h
    using find_distinct_key [OF assms(2) that] by (simp add: dd_needed_def split: option.split)
  then have "map fst (filter (dd_needed (lsa_headers dd)) (lsa_exists_list s aid (lsa_headers dd))) =
      map header_key (filter (\<lambda>h. case lookup_lsa s aid (header_key h) of None \<Rightarrow> True
       | Some e \<Rightarrow> is_more_recent_than h (header (entry_lsa e)) = Greater) (lsa_headers dd))"
    by (simp add: lsa_exists_list_def filter_map o_def cong: filter_cong)
  with assms(1) show ?thesis
    by (simp add: dd_neighbor_def Let_def request_needed_def handle_event_defs)
qed

section \<open>Answers\<close>

lemma collect_requested_Some:
  "collect_requested s aid rs = Some ls \<longleftrightarrow>
     (\<forall>r \<in> set rs. lookup_lsa s aid (request_key r) \<noteq> None) \<and>
     ls = map (\<lambda>r. entry_lsa (the (lookup_lsa s aid (request_key r)))) rs"
proof (induction rs arbitrary: ls)
  case (Cons r rs)
  then show ?case by (cases "lookup_lsa s aid (request_key r)") auto
qed auto

lemma collect_requested_None:
  "collect_requested s aid rs = None \<longleftrightarrow> (\<exists>r \<in> set rs. lookup_lsa s aid (request_key r) = None)"
  by (induction rs) (auto split: option.split)

text \<open>
  A Link State Request is answered completely or not at all: when every LSA asked for is in the
  databases, one update with exactly these LSAs in the order of the request goes back and nothing
  changes; otherwise nothing is sent and the adjacency restarts, an exchange in progress going back to
  ExStart with its lists emptied.
\<close>

theorem lsr_answered_or_restarted:
  assumes "inst_inv s" and "idx < length (interfaces s)"
    and "map_of (neighbors (interfaces s ! idx)) (oh_router_id hdr) = Some n"
  shows "case process_lsr now idx src hdr lsr s of (out, s') \<Rightarrow>
    if \<forall>r \<in> set (requests lsr). lookup_lsa s (if_area_id (interfaces s ! idx)) (request_key r) \<noteq> None then
      s' = s \<and> (if requests lsr = [] then out = [] else
        out = [(sw_if_index (interfaces s ! idx), src,
          LinkStateUpdate (ospf_header_new PT_LinkStateUpdate (router_id s) (if_area_id (interfaces s ! idx)))
            \<lparr>lsas = map (\<lambda>r. entry_lsa (the (lookup_lsa s (if_area_id (interfaces s ! idx)) (request_key r))))
                (requests lsr)\<rparr>)])
    else
      out = [] \<and> areas s' = areas s \<and> as_external_lsdb s' = as_external_lsdb s \<and>
      (\<exists>n'. map_of (neighbors (interfaces s' ! idx)) (oh_router_id hdr) = Some n' \<and>
         (if n_state n \<ge> ExStart then n_state n' = ExStart \<and> lists_empty n' else n' = n))"
proof (cases "\<forall>r \<in> set (requests lsr). lookup_lsa s (if_area_id (interfaces s ! idx)) (request_key r) \<noteq> None")
  case True
  then have "collect_requested s (if_area_id (interfaces s ! idx)) (requests lsr) =
      Some (map (\<lambda>r. entry_lsa (the (lookup_lsa s (if_area_id (interfaces s ! idx)) (request_key r)))) (requests lsr))"
    by (simp only: collect_requested_Some)
  with True show ?thesis by (simp add: process_lsr_def Let_def)
next
  case False
  then have c: "collect_requested s (if_area_id (interfaces s ! idx)) (requests lsr) = None"
    unfolding collect_requested_None by simp
  have e: "n_state n \<ge> ExStart \<Longrightarrow> n_state (snd (handle_event now BadLsReq False n)) = ExStart \<and>
      lists_empty (snd (handle_event now BadLsReq False n))"
    "\<not> n_state n \<ge> ExStart \<Longrightarrow> snd (handle_event now BadLsReq False n) = n"
    by (simp_all add: handle_event_defs)
  have "requests lsr \<noteq> []" using False by auto
  with False c e assms(2,3) show ?thesis
    by (simp add: process_lsr_def nth_update_iface update_neighbor_def map_of_modify_key)
qed

section \<open>The end of the exchange\<close>

fun is_database_description :: "OspfPacket \<Rightarrow> bool" where
  "is_database_description (DatabaseDescription _ _) = True"
| "is_database_description _ = False"

definition dds_in :: "response list \<Rightarrow> OspfPacket list" where
  "dds_in out = filter is_database_description (map (snd \<circ> snd) out)"

definition neighbor_at :: "'c OspfInstance \<Rightarrow> nat \<Rightarrow> ipv4 \<Rightarrow> Neighbor option" where
  "neighbor_at s idx nid = map_of (neighbors (interfaces s ! idx)) nid"

lemma dds_in_append [simp]: "dds_in (xs @ ys) = dds_in xs @ dds_in ys"
  by (simp add: dds_in_def)

lemma dds_in_Nil [simp]: "dds_in [] = []"
  by (simp add: dds_in_def)

lemma dds_in_single [simp]: "dds_in [(sw, dst, dd_packet rid i c)] = [dd_packet rid i c]"
  by (simp add: dds_in_def dd_packet_def split: prod.split)

lemma dds_in_send_lsr [simp]: "dds_in (fst (send_lsr now idx nid dst s)) = []"
  by (simp add: dds_in_def send_lsr_def Let_def lsr_packet_def split: option.split)

lemma send_lsr_neighbor:
  assumes "idx < length (interfaces s)" and "map_of (neighbors (interfaces s ! idx)) nid = Some n"
  shows "\<exists>t. map_of (neighbors (interfaces (snd (send_lsr now idx nid dst s)) ! idx)) nid =
    Some (n\<lparr>last_lsr_sent := t\<rparr>)"
  using assms
  by (auto simp: send_lsr_def Let_def nth_update_iface update_neighbor_def map_of_modify_key
      intro: exI [of _ "last_lsr_sent n"])

lemma process_dd_length:
  assumes "inst_inv s"
  shows "length (interfaces (snd (process_dd now idx src hdr dd s))) = length (interfaces s)"
  using recover_self_lsas_inv [OF assms]
  by (auto simp: process_dd_def Let_def send_lsr_def build_dd_def split: option.split prod.split NeighborState.split)

text \<open>
  What a Database Description leaves of the neighbor, and which Database Descriptions answer it: one
  while the neighbor stays in Exchange, none in Loading and Full.
\<close>

lemma process_dd_answer:
  assumes "inst_inv s" and "idx < length (interfaces s)"
    and "map_of (neighbors (interfaces s ! idx)) (oh_router_id hdr) = Some n"
    and "\<And>ex ours. n_state (dd_neighbor now (router_id s) hdr dd ex ours n) \<in> {Exchange, Loading, Full}"
  shows "\<exists>ex ours t. let n1 = dd_neighbor now (router_id s) hdr dd ex ours n in
       map_of (neighbors (interfaces (snd (process_dd now idx src hdr dd s)) ! idx)) (oh_router_id hdr) =
         Some ((if n_state n1 = Exchange then snd (dd_contents False n1) else n1)\<lparr>last_lsr_sent := t\<rparr>) \<and>
       dds_in (fst (process_dd now idx src hdr dd s)) =
         (if n_state n1 = Exchange then [dd_packet (router_id s) (interfaces s ! idx) (fst (dd_contents False n1))] else [])"
proof -
  let ?nid = "oh_router_id hdr" and ?aid = "if_area_id (interfaces s ! idx)"
  define s1 where "s1 = recover_self_lsas now ?aid (lsa_headers dd) s"
  have s1: "interfaces s1 = interfaces s" "router_id s1 = router_id s"
    unfolding s1_def using recover_self_lsas_inv [OF assms(1)] by auto
  define ex where "ex = lsa_exists_list s1 ?aid (lsa_headers dd)"
  define ours where "ours = our_headers now s1 ?aid"
  define n1 where "n1 = dd_neighbor now (router_id s) hdr dd ex ours n"
  define s2 where "s2 = update_iface idx (update_neighbor ?nid (\<lambda>_. n1)) s1"
  have s2: "map_of (neighbors (interfaces s2 ! idx)) ?nid = Some n1" "idx < length (interfaces s2)"
      "router_id s2 = router_id s"
    using assms(2,3) by (simp_all add: s2_def s1 nth_update_iface update_neighbor_def map_of_modify_key)
  define st where "st = n_state n1"
  then have st: "n_state n1 = st" "st \<in> {Exchange, Loading, Full}" using assms(4) unfolding n1_def by auto
  define n2 where "n2 = (if st = Exchange then snd (dd_contents False n1) else n1)"
  define pkt where "pkt = (if st = Exchange
    then Some (dd_packet (router_id s) (interfaces s2 ! idx) (fst (dd_contents False n1))) else None)"
  define s3 where "s3 = (if st = Exchange then update_iface idx (update_neighbor ?nid (\<lambda>_. n2)) s2 else s2)"
  have b: "(case n_state n1 of ExStart \<Rightarrow> build_dd idx ?nid True s2 | Exchange \<Rightarrow> build_dd idx ?nid False s2
      | _ \<Rightarrow> (None, s2)) = (pkt, s3)"
    using st(2) s2 by (auto simp: st(1) pkt_def s3_def n2_def build_dd_def split: prod.split)
  have s3: "map_of (neighbors (interfaces s3 ! idx)) ?nid = Some n2" "idx < length (interfaces s3)"
    using s2 by (auto simp: s3_def n2_def nth_update_iface update_neighbor_def map_of_modify_key)
  have i2: "dd_packet (router_id s) (interfaces s2 ! idx) c = dd_packet (router_id s) (interfaces s ! idx) c" for c
    using assms(2) by (simp add: s2_def s1 nth_update_iface dd_packet_def update_neighbor_def split: prod.split)
  obtain t where t: "map_of (neighbors (interfaces (snd (send_lsr now idx ?nid src s3)) ! idx)) ?nid =
      Some (n2\<lparr>last_lsr_sent := t\<rparr>)"
    using send_lsr_neighbor [OF s3(2,1)] by blast
  have n2: "n2 = n2\<lparr>last_lsr_sent := last_lsr_sent n2\<rparr>" by simp
  have st': "st = n_state n1" using st by simp
  have p: "process_dd now idx src hdr dd s =
      (let out = (case pkt of Some p \<Rightarrow> [(sw_if_index (interfaces s3 ! idx), src, p)] | None \<Rightarrow> []);
           (lsr, s) = (if n_state n1 \<ge> Exchange \<and> ls_request_list n1 \<noteq> [] then send_lsr now idx ?nid src s3 else ([], s3))
       in (out @ lsr, s))"
    unfolding process_dd_def Let_def s1_def [symmetric] s1 assms(3) option.case
      ex_def [symmetric] ours_def [symmetric] n1_def [symmetric] s2_def [symmetric] b prod.case ..
  have "dds_in (fst (process_dd now idx src hdr dd s)) =
      (if st = Exchange then [dd_packet (router_id s) (interfaces s ! idx) (fst (dd_contents False n1))] else [])"
    by (simp add: p pkt_def i2 case_prod_beta)
  moreover have "\<exists>t. map_of (neighbors (interfaces (snd (process_dd now idx src hdr dd s)) ! idx)) ?nid =
      Some (n2\<lparr>last_lsr_sent := t\<rparr>)"
    using t s3(1) exI [of "\<lambda>t. n2 = n2\<lparr>last_lsr_sent := t\<rparr>", OF n2]
    by (simp add: p case_prod_beta) blast
  ultimately show ?thesis
    unfolding Let_def st(1) [symmetric] n1_def n2_def by blast
qed


lemma dd_neighbor_finished:
  assumes "n_state n = Loading \<or> n_state n = Full"
  shows "n_state (dd_neighbor now rid hdr dd ex ours n) = n_state n"
  using assms by (auto simp: dd_neighbor_def Let_def)

text \<open>
  C14. A neighbor in Exchange answers every Database Description with exactly one of its own, the next page
  of what it has to describe under the sequence number of its role, until it has sent a last one and
  receives a last one: then it is Full or, with requests outstanding, Loading, sends no Database
  Description in reply, and answers no later one of that neighbor with one either. (So when a slave
  finishes on the last but one packet of the master, it leaves the master without an answer.)
\<close>

theorem dd_answered_until_both_finished:
  assumes "inst_inv s" and "idx < length (interfaces s)"
    and "map_of (neighbors (interfaces s ! idx)) (oh_router_id hdr) = Some n" and "n_state n = Exchange"
  shows "let (out, s') = process_dd now idx src hdr dd s in
    \<exists>n'. map_of (neighbors (interfaces s' ! idx)) (oh_router_id hdr) = Some n' \<and>
      (if sent_m_clear n \<and> \<not> dd_has_more dd
       then n_state n' = (if ls_request_list n' = [] then Full else Loading) \<and> dds_in out = [] \<and>
         (\<forall>now' src' dd'. let (out', s'') = process_dd now' idx src' hdr dd' s' in
            dds_in out' = [] \<and>
            map_option n_state (map_of (neighbors (interfaces s'' ! idx)) (oh_router_id hdr)) = Some (n_state n'))
       else n_state n' = Exchange \<and> db_summary_list n' = drop 60 (db_summary_list n) \<and>
         (sent_m_clear n' \<longleftrightarrow> sent_m_clear n \<or> length (db_summary_list n) \<le> 60) \<and>
         dd_seq_number n' = (if is_master n then dd_seq_number n + 1 else dd_sequence_number dd) \<and>
         dds_in out =
           [DatabaseDescription
             (ospf_header_new PT_DatabaseDescription (router_id s) (if_area_id (interfaces s ! idx)))
             \<lparr>interface_mtu = dd_mtu (interfaces s ! idx), dd_options = if_options (interfaces s ! idx),
              dd_flags = (if is_master n then DD_FLAG_MS else 0) OR
                (if length (db_summary_list n) \<le> 60 then 0 else DD_FLAG_M),
              dd_sequence_number = dd_seq_number n', lsa_headers = take 60 (db_summary_list n)\<rparr>])"
proof (cases "sent_m_clear n \<and> \<not> dd_has_more dd")
  case True
  let ?nid = "oh_router_id hdr" and ?s = "snd (process_dd now idx src hdr dd s)"
  have 1: "n_state (dd_neighbor now (router_id s) hdr dd ex ours n) =
      (if ls_request_list (dd_neighbor now (router_id s) hdr dd ex ours n) = [] then Full else Loading)" for ex ours
    using assms(4) True by (simp add: dd_neighbor_def Let_def request_needed_def handle_event_defs)
  then have "n_state (dd_neighbor now (router_id s) hdr dd ex ours n) \<in> {Exchange, Loading, Full}" for ex ours
    by (metis insertCI)
  from process_dd_answer [OF assms(1-3) this, where src = src] 1
  obtain n' where n': "map_of (neighbors (interfaces ?s ! idx)) ?nid = Some n'"
    "n_state n' = (if ls_request_list n' = [] then Full else Loading)" "dds_in (fst (process_dd now idx src hdr dd s)) = []"
    by (fastforce simp: Let_def split: if_splits)
  have inv: "inst_inv ?s" "idx < length (interfaces ?s)"
    using process_dd_inv [OF assms(1,2)] assms(2) by (simp_all add: process_dd_length [OF assms(1)])
  have "dds_in (fst (process_dd now' idx src' hdr dd' ?s)) = [] \<and>
      map_option n_state (map_of (neighbors (interfaces (snd (process_dd now' idx src' hdr dd' ?s)) ! idx)) ?nid) =
      Some (n_state n')" for now' src' dd'
  proof -
    have st: "n_state (dd_neighbor now' (router_id ?s) hdr dd' ex ours n') = n_state n'" for ex ours
      by (rule dd_neighbor_finished) (simp add: n'(2))
    then have "n_state (dd_neighbor now' (router_id ?s) hdr dd' ex ours n') \<in> {Exchange, Loading, Full}" for ex ours
      by (simp add: n'(2))
    from process_dd_answer [OF inv n'(1) this, where src = src'] st show ?thesis
      by (fastforce simp: n'(2) Let_def split: if_splits)
  qed
  with n' True show ?thesis by (auto simp: case_prod_beta)
next
  case False
  have st: "n_state (dd_neighbor now (router_id s) hdr dd ex ours n) = Exchange" for ex ours
    using assms(4) False by (auto simp: dd_neighbor_def Let_def request_needed_def)
  then have "n_state (dd_neighbor now (router_id s) hdr dd ex ours n) \<in> {Exchange, Loading, Full}" for ex ours
    by simp
  from process_dd_answer [OF assms(1-3) this, where src = src] st
  show ?thesis using False assms(4)
    by (auto simp: case_prod_beta Let_def dd_contents_def dd_packet_def dd_neighbor_def request_needed_def MAX_HEADERS_PER_DD_def)
qed


section \<open>Witnesses\<close>

text \<open>
  A router and its only neighbor on a point-to-point link, both in ExStart, with empty databases. The
  sequence number is the one emit_pending_dds seeds.
\<close>

definition exstart_router :: "ipv4 \<Rightarrow> ipv4 \<Rightarrow> unit OspfInstance" where
  "exstart_router me peer =
     update_iface 0 (\<lambda>i. i\<lparr>sw_if_index := 7, if_state := If_PointToPoint,
         neighbors := [(peer, (neighbor_new 0 peer (0x0A000000 + peer))
           \<lparr>n_state := ExStart, dd_seq_number := 0x80000000, last_dd_sent := 0\<rparr>)]\<rparr>)
       (instance_new 0 (example_config\<lparr>dc_router_id := me\<rparr>))"

lemmas exchange_eval =
  exstart_router_def update_iface_def instance_new_def Let_def example_config_def interface_of_config_def
  interface_new_def neighbor_new_def emit_pending_dds_def pending_dds_def dd_pending_def emit_dd_def
  update_neighbor_def modify_key_def seed_dd_def build_dd_def dd_contents_def dd_packet_def
  process_dd_def recover_self_lsas_def lsa_exists_list_def our_headers_def all_headers_def
  dd_neighbor_def dd_exstart_def dd_is_init_def dd_has_more_def dd_is_master_def
  DD_FLAG_I_def DD_FLAG_M_def DD_FLAG_MS_def ospf_header_new_def handle_event_defs request_needed_def
  MAX_HEADERS_PER_DD_def ensure_area_def area_of_config_def area_new_def lsdb_new_def collect_map_def
  state_order emit_pending_lsrs_def due_lsrs_def lsr_due_def

definition example_master :: Neighbor where
  "example_master =
     (neighbor_new 0 1 2)\<lparr>n_state := Exchange, is_master := True, dd_seq_number := 9,
       db_summary_list := replicate 61 (header example_lsa)\<rparr>"

theorem dd_paging_witness:
  "fst (snd (fst (send_dds 2 example_master) ! 1)) = [header example_lsa] \<and>
   sent_m_clear (snd (send_dds 2 example_master))"
  using dd_paging [of example_master]
  by (auto simp: example_master_def dd_pages_def send_dds_pages dd_page_def neighbor_new_def case_prod_beta)

definition example_dd :: DbDescPacket where
  "example_dd = \<lparr>interface_mtu = 1500, dd_options = 2, dd_flags = 1, dd_sequence_number = 4,
     lsa_headers = [header example_lsa]\<rparr>"

definition example_slave :: Neighbor where
  "example_slave = (neighbor_new 0 2 0x0A000002)\<lparr>n_state := Exchange, sent_m_clear := True\<rparr>"

theorem dd_requests_missing_witness:
  "ls_request_list (dd_neighbor 9 1 (ospf_header_new PT_DatabaseDescription 2 0) example_dd
      (lsa_exists_list (exstart_router 1 2) 0 (lsa_headers example_dd)) [] example_slave) =
    [header_key (header example_lsa)]"
  using dd_requests_missing [of example_slave example_dd 9 1 "ospf_header_new PT_DatabaseDescription 2 0"
      "exstart_router 1 2" 0 "[]"]
  by (simp add: example_slave_def example_dd_def exchange_eval lookup_lsa_def lsdb_get_def)

text \<open>The invariant of the example, with the neighbor in any state that has nothing outstanding.\<close>

lemma exstart_router_inv: "inst_inv (exstart_router me peer)"
  by (auto simp: inst_inv_def exstart_router_def update_iface_def instance_new_def Let_def example_config_def
      ensure_area_def area_of_config_def area_new_def iface_ok_def nbr_ok_def neighbor_new_def interface_of_config_def interface_new_def collect_map_def)

lemma exstart_router_neighbor:
  "map_of (neighbors (interfaces (exstart_router me peer) ! 0)) peer =
     Some ((neighbor_new 0 peer (0x0A000000 + peer))\<lparr>n_state := ExStart, dd_seq_number := 0x80000000, last_dd_sent := 0\<rparr>)"
  "length (interfaces (exstart_router me peer)) = 1"
  "areas (exstart_router me peer) = [(0, area_new 0 Normal me)]"
  "if_area_id (interfaces (exstart_router me peer) ! 0) = 0"
  by (simp_all add: exchange_eval)

theorem lsr_answered_or_restarted_witness:
  "fst (process_lsr 5 0 0x0A000002 (ospf_header_new PT_LinkStateRequest 2 0)
     \<lparr>requests = [\<lparr>rq_ls_type = Router, rq_link_state_id = 9, rq_advertising_router = 9\<rparr>]\<rparr>
     (exstart_router 1 2)) = []"
  using lsr_answered_or_restarted [OF exstart_router_inv [of 1 2], where idx = 0 and now = 5 and src = "0x0A000002"
      and hdr = "ospf_header_new PT_LinkStateRequest 2 0"
      and lsr = "\<lparr>requests = [\<lparr>rq_ls_type = Router, rq_link_state_id = 9, rq_advertising_router = 9\<rparr>]\<rparr>"]
    exstart_router_neighbor [of 1 2]
  by (simp add: ospf_header_new_def lookup_lsa_def area_new_def request_key_def case_prod_beta)

theorem dd_answered_until_both_finished_witness:
  "let (out, s') = process_dd 5 0 0x0A000002 (ospf_header_new PT_DatabaseDescription 2 0) example_dd
       (update_iface 0 (update_neighbor 2 (\<lambda>_. example_slave)) (exstart_router 1 2))
   in dds_in out = [] \<and>
      (\<exists>n'. map_of (neighbors (interfaces s' ! 0)) 2 = Some n' \<and> n_state n' \<in> {Loading, Full})"
proof -
  let ?s = "update_iface 0 (update_neighbor 2 (\<lambda>_. example_slave)) (exstart_router 1 2)"
  have 1: "inst_inv ?s"
    by (rule inst_inv_put_neighbor [OF exstart_router_inv])
      (simp_all add: example_slave_def neighbor_new_def nbr_ok_def state_order)
  have 2: "0 < length (interfaces ?s)" by (simp add: exstart_router_neighbor)
  have 3: "map_of (neighbors (interfaces ?s ! 0)) (oh_router_id (ospf_header_new PT_DatabaseDescription 2 0)) =
      Some example_slave"
    by (simp add: exstart_router_neighbor nth_update_iface update_neighbor_def map_of_modify_key ospf_header_new_def)
  have 4: "n_state example_slave = Exchange" "sent_m_clear example_slave" "\<not> dd_has_more example_dd"
    by (simp_all add: example_slave_def example_dd_def dd_has_more_def DD_FLAG_M_def)
  from dd_answered_until_both_finished [OF 1 2 3 4(1), of 5 "0x0A000002" example_dd] 4
  show ?thesis by (auto simp: case_prod_beta Let_def ospf_header_new_def split: if_splits)
qed

end
