(* ===== verification/Flooding.thy ===== *)
theory Flooding
  imports Db_Exchange Origination
begin

text \<open>
  \<^verbatim>\<open>src/instance.rs\<close>, last part: flooding, the processing of Link State Updates, the dispatch of received
  packets, periodic maintenance and the reload of the configuration.
\<close>

section \<open>Flooding\<close>

definition lsu_packet :: "ipv4 \<Rightarrow> ipv4 \<Rightarrow> Lsa list \<Rightarrow> OspfPacket" where
  "lsu_packet rid aid ls = LinkStateUpdate (ospf_header_new PT_LinkStateUpdate rid aid) \<lparr>lsas = ls\<rparr>"

text \<open>\<open>input_idx\<close> is \<open>None\<close> for self-originated LSAs (\<^verbatim>\<open>usize::MAX\<close>).\<close>

definition flood_on_iface ::
  "'c OspfInstance \<Rightarrow> nat option \<Rightarrow> ipv4 \<Rightarrow> Lsa list \<Rightarrow> nat \<times> OspfInterface \<Rightarrow> response list" where
  "flood_on_iface s input_idx from_router ls = (\<lambda>(idx, i).
     (if if_state i = If_Down then []
      else if Some idx = input_idx then []
      else if \<not> list_ex (\<lambda>n. n_state n \<ge> Exchange \<and> n_router_id n \<noteq> from_router) (map snd (neighbors i)) then []
      else
        (let area_accepts_ext =
               (case map_of (areas s) (if_area_id i) of Some a \<Rightarrow> accepts_as_external a | None \<Rightarrow> True);
             filtered = filter (\<lambda>l. area_accepts_ext \<or> ls_type (header l) \<noteq> AsExternal) ls
         in if filtered = [] then []
            else [(sw_if_index i, ALL_SPF_ROUTERS, lsu_packet (router_id s) (if_area_id i) filtered)])))"

definition flood_lsas_to_others ::
  "'c OspfInstance \<Rightarrow> nat option \<Rightarrow> ipv4 \<Rightarrow> Lsa list \<Rightarrow> response list" where
  "flood_lsas_to_others s input_idx from_router ls =
     concat (map (flood_on_iface s input_idx from_router ls) (enumerate 0 (interfaces s)))"

text \<open>\<^verbatim>\<open>for (_area_id, lsa) in new_lsas { self.flood_lsas_to_others(usize::MAX, self.router_id, &[lsa], responses) }\<close>\<close>

definition flood_each :: "'c OspfInstance \<Rightarrow> (ipv4 \<times> Lsa) list \<Rightarrow> response list" where
  "flood_each s ls = concat (map (\<lambda>(_, l). flood_lsas_to_others s None (router_id s) [l]) ls)"

section \<open>Link State Update\<close>

definition area_is_stub :: "'c OspfInstance \<Rightarrow> ipv4 \<Rightarrow> bool" where
  "area_is_stub s aid \<longleftrightarrow> (case map_of (areas s) aid of Some a \<Rightarrow> \<not> accepts_as_external a | None \<Rightarrow> False)"

text \<open>Installation into the database of the LSA's scope; \<open>None\<close> when the area is unknown.\<close>

definition install_lsa :: "instant \<Rightarrow> ipv4 \<Rightarrow> Lsa \<Rightarrow> 'c OspfInstance \<Rightarrow> (InstallResult \<times> 'c OspfInstance) option" where
  "install_lsa now aid l s =
     (if ls_type (header l) = AsExternal then
        (case lsdb_install now l (as_external_lsdb s) of (r, db) \<Rightarrow> Some (r, s\<lparr>as_external_lsdb := db\<rparr>))
      else
        (case map_of (areas s) aid of
           None \<Rightarrow> None
         | Some a \<Rightarrow> (case lsdb_install now l (lsdb a) of (r, db) \<Rightarrow> Some (r, set_area_lsdb aid db s))))"

text \<open>The LSA leaves the request list; an empty list ends Loading. The flag tells whether Full was entered.\<close>

definition satisfy_request :: "instant \<Rightarrow> LsaKey \<Rightarrow> Neighbor \<Rightarrow> bool \<times> Neighbor" where
  "satisfy_request now k n =
     (let n = n\<lparr>ls_request_list := filter (\<lambda>k'. k' \<noteq> k) (ls_request_list n)\<rparr> in
      if n_state n = Loading \<and> ls_request_list n = [] then
        (case handle_event now LoadingDone True n of (r, n') \<Rightarrow> (r = Some Full, n'))
      else (False, n))"

record 'c LsuState =
  lu_inst :: "'c OspfInstance"
  lu_acks :: "LsaHeader list"
  lu_flood :: "Lsa list"
  lu_out :: "response list"
  lu_spf :: bool
  lu_full :: bool

definition satisfy_in_lsu :: "instant \<Rightarrow> nat \<Rightarrow> ipv4 \<Rightarrow> Lsa \<Rightarrow> 'c LsuState \<Rightarrow> 'c LsuState" where
  "satisfy_in_lsu now idx nid l u =
     (case map_of (neighbors (interfaces (lu_inst u) ! idx)) nid of
        None \<Rightarrow> u
      | Some n \<Rightarrow>
          (case satisfy_request now (lsa_key l) n of
             (full, n') \<Rightarrow> u\<lparr>lu_inst := update_iface idx (update_neighbor nid (\<lambda>_. n')) (lu_inst u),
                             lu_full := (lu_full u \<or> full)\<rparr>))"

definition lsu_lsa ::
  "instant \<Rightarrow> nat \<Rightarrow> ipv4 \<Rightarrow> OspfHeader \<Rightarrow> ipv4 \<Rightarrow> bool \<Rightarrow> Lsa \<Rightarrow> 'c LsuState \<Rightarrow> 'c LsuState" where
  "lsu_lsa now idx src hdr aid is_stub l u =
     (if ls_type (header l) = AsExternal \<and> is_stub then u
      else
        (case install_lsa now aid l (lu_inst u) of
           None \<Rightarrow> u
         | Some (result, s) \<Rightarrow>
             (let u = u\<lparr>lu_inst := s\<rparr> in
              case result of
                Duplicate \<Rightarrow>
                  satisfy_in_lsu now idx (oh_router_id hdr) l (u\<lparr>lu_acks := lu_acks u @ [header l]\<rparr>)
              | Older \<Rightarrow>
                  (case map_of (areas s) aid of
                     None \<Rightarrow> u
                   | Some a \<Rightarrow>
                       (case lsdb_get (lsdb a) (lsa_key l) of
                          None \<Rightarrow> u
                        | Some e \<Rightarrow>
                            u\<lparr>lu_out := lu_out u @
                              [(sw_if_index (interfaces s ! idx), src, lsu_packet (router_id s) aid [entry_lsa e])]\<rparr>))
              | _ \<Rightarrow>
                  (let u = satisfy_in_lsu now idx (oh_router_id hdr) l (u\<lparr>lu_acks := lu_acks u @ [header l]\<rparr>);
                       u = (if ls_type (header l) \<in> {Router, Network, SummaryNetwork} then u\<lparr>lu_spf := True\<rparr> else u)
                   in u\<lparr>lu_flood := lu_flood u @ [l]\<rparr>))))"

definition lsu_loop ::
  "instant \<Rightarrow> nat \<Rightarrow> ipv4 \<Rightarrow> OspfHeader \<Rightarrow> Lsa list \<Rightarrow> 'c OspfInstance \<Rightarrow> 'c LsuState" where
  "lsu_loop now idx src hdr ls s =
     (let aid = if_area_id (interfaces s ! idx) in
      fold (lsu_lsa now idx src hdr aid (area_is_stub s aid)) ls
        \<lparr>lu_inst = s, lu_acks = [], lu_flood = [], lu_out = [], lu_spf = False, lu_full = False\<rparr>)"

definition ack_packet :: "ipv4 \<Rightarrow> ipv4 \<Rightarrow> LsaHeader list \<Rightarrow> OspfPacket" where
  "ack_packet rid aid hs = LinkStateAck (ospf_header_new PT_LinkStateAck rid aid) \<lparr>ack_headers = hs\<rparr>"

text \<open>The block \<^verbatim>\<open>if neighbor_reached_full { .. }\<close>.\<close>

definition reoriginate :: "instant \<Rightarrow> 'c OspfInstance \<Rightarrow> (response list \<times> 'c OspfInstance) parsed" where
  "reoriginate now s =
     bindR (originate_router_lsas now s) (\<lambda>(rl, s1).
     bindR (originate_network_lsas now s1) (\<lambda>(nl, s2).
     bindR (originate_summary_lsas now s2) (\<lambda>(sl, s3).
     Ok (flood_each s1 rl @ flood_each s2 nl @ flood_each s3 sl, s3))))"

definition process_lsu ::
  "instant \<Rightarrow> nat \<Rightarrow> ipv4 \<Rightarrow> OspfHeader \<Rightarrow> LsUpdatePacket \<Rightarrow> 'c OspfInstance \<Rightarrow> (response list \<times> 'c OspfInstance) parsed" where
  "process_lsu now idx src hdr lsu s =
     (let u = lsu_loop now idx src hdr (lsas lsu) s;
          s = lu_inst u;
          i = interfaces s ! idx;
          acks = (if lu_acks u \<noteq> [] then
                    [(sw_if_index i, src, ack_packet (router_id s) (if_area_id i) (lu_acks u))] else []);
          floods = (if lu_flood u \<noteq> [] then flood_lsas_to_others s (Some idx) (oh_router_id hdr) (lu_flood u) else [])
      in bindR (if lu_full u then reoriginate now s else Ok ([], s)) (\<lambda>(re, s).
         Ok (lu_out u @ acks @ floods @ re, if lu_spf u \<or> lu_full u then schedule_spf now s else s)))"

section \<open>Dispatch\<close>

definition process_packet ::
  "instant \<Rightarrow> u32 \<Rightarrow> ipv4 \<Rightarrow> OspfPacket \<Rightarrow> 'c OspfInstance \<Rightarrow> (response list \<times> 'c OspfInstance) parsed" where
  "process_packet now sw src pkt s =
     (case find_interface s sw of
        None \<Rightarrow> Ok ([], s)
      | Some idx \<Rightarrow>
          if oh_area_id (packet_header pkt) \<noteq> if_area_id (interfaces s ! idx) then Ok ([], s)
          else
            (case pkt of
               Hello hdr hello \<Rightarrow> Ok ([], process_hello now idx src hdr hello s)
             | DatabaseDescription hdr dd \<Rightarrow> Ok (process_dd now idx src hdr dd s)
             | LinkStateUpdate hdr lsu \<Rightarrow> process_lsu now idx src hdr lsu s
             | LinkStateRequest hdr lsr \<Rightarrow> Ok (process_lsr now idx src hdr lsr s)
             | LinkStateAck _ _ \<Rightarrow> Ok ([], s)))"

section \<open>Maintenance and reload\<close>

definition periodic_maintenance ::
  "instant \<Rightarrow> 'c OspfInstance \<Rightarrow> ((bool \<times> response list) \<times> 'c OspfInstance) parsed" where
  "periodic_maintenance now s =
     (let any_refresh_due = list_ex (\<lambda>(_, a). self_originated_due_for_refresh now (lsdb a) \<noteq> []) (areas s)
      in bindR (if any_refresh_due then
                  bindR (originate_router_lsas now s) (\<lambda>(rl, s). Ok (flood_each s rl, s))
                else Ok ([], s)) (\<lambda>(out, s).
         (let purged = map (\<lambda>(_, a). flush_max_age now (lsdb a)) (areas s);
              (ext_purged, ext) = flush_max_age now (as_external_lsdb s);
              total_purged = sum_list (map (length \<circ> fst) purged) + length ext_purged;
              s = s\<lparr>areas := map (\<lambda>(aid, a). (aid, a\<lparr>lsdb := snd (flush_max_age now (lsdb a))\<rparr>)) (areas s),
                    as_external_lsdb := ext\<rparr>
          in Ok ((any_refresh_due \<or> total_purged > 0, out), s))))"

text \<open>One pass of \<^verbatim>\<open>for new_iface in &new.interfaces\<close>: changed, Router-LSA dirty, and the patched interface.\<close>

definition reload_interface :: "OspfInterfaceConfig \<Rightarrow> OspfInterface \<Rightarrow> (bool \<times> bool) \<times> OspfInterface" where
  "reload_interface c i =
     (let cost_changed = (if_cost i \<noteq> ic_cost c);
          passive_changed = (if_passive i \<noteq> ic_passive c);
          changed = (cost_changed \<or> if_priority i \<noteq> ic_priority c \<or> hello_interval i \<noteq> ic_hello_interval c \<or>
            dead_interval i \<noteq> ic_dead_interval c \<or> rxmt_interval i \<noteq> ic_retransmit_interval c \<or> passive_changed)
      in ((changed, cost_changed \<or> passive_changed),
          i\<lparr>if_cost := ic_cost c, if_priority := ic_priority c, hello_interval := ic_hello_interval c,
            dead_interval := ic_dead_interval c, rxmt_interval := ic_retransmit_interval c,
            if_passive := ic_passive c\<rparr>))"

definition reload_one ::
  "OspfInterfaceConfig \<Rightarrow> (bool \<times> bool) \<times> OspfInterface list \<Rightarrow> (bool \<times> bool) \<times> OspfInterface list" where
  "reload_one c = (\<lambda>((changed, dirty), ifs).
     (case position (\<lambda>i. if_name i = ic_name c) ifs of
        None \<Rightarrow> ((changed, dirty), ifs)
      | Some k \<Rightarrow>
          (case reload_interface c (ifs ! k) of
             ((ch, di), i) \<Rightarrow> ((changed \<or> ch, dirty \<or> di), ifs[k := i]))))"

definition summaries_differ :: "ParsedSummaryAddress list \<Rightarrow> ParsedSummaryAddress list \<Rightarrow> bool" where
  "summaries_differ xs ys \<longleftrightarrow>
     length xs \<noteq> length ys \<or>
     list_ex (\<lambda>(a, b). sa_prefix a \<noteq> sa_prefix b \<or> sa_prefix_len a \<noteq> sa_prefix_len b \<or>
         sa_no_advertise a \<noteq> sa_no_advertise b \<or> sa_metric a \<noteq> sa_metric b \<or>
         sa_metric_type a \<noteq> sa_metric_type b \<or> sa_tag a \<noteq> sa_tag b) (zip xs ys)"

definition redistribute_differ :: "RedistributeConfig list \<Rightarrow> RedistributeConfig list \<Rightarrow> bool" where
  "redistribute_differ xs ys \<longleftrightarrow>
     length xs \<noteq> length ys \<or>
     list_ex (\<lambda>(a, b). rd_source a \<noteq> rd_source b \<or> rd_metric a \<noteq> rd_metric b \<or>
         rd_metric_type a \<noteq> rd_metric_type b) (zip xs ys)"

definition reload_config :: "instant \<Rightarrow> 'c OspfDaemonConfig \<Rightarrow> 'c OspfInstance \<Rightarrow> (bool \<times> 'c OspfInstance) parsed" where
  "reload_config now new s =
     (let ((changed, dirty), ifs) = fold reload_one (dc_interfaces new) ((False, False), interfaces s);
          s = s\<lparr>interfaces := ifs\<rparr>;
          (changed, s) =
        (if summaries_differ (summary_addresses s) (dc_summary_addresses new)
         then (True, s\<lparr>summary_addresses := dc_summary_addresses new\<rparr>) else (changed, s));
          (changed, dirty, s) =
        (if redistribute_differ (redistribute s) (dc_redistribute new)
         then (True, dirty \<or> (redistribute s \<noteq> []) \<noteq> (dc_redistribute new \<noteq> []),
               s\<lparr>redistribute := dc_redistribute new\<rparr>)
         else (changed, dirty, s))
      in if dirty then
           bindR (originate_router_lsas now s) (\<lambda>(_, s). Ok (changed, schedule_spf now s))
         else Ok (changed, s))"

section \<open>The loop over an update keeps the invariant\<close>

lemma satisfy_request_keeps:
  "n_router_id (snd (satisfy_request now k n)) = n_router_id n"
  "nbr_ok n \<Longrightarrow> nbr_ok (snd (satisfy_request now k n))"
  by (auto simp: satisfy_request_def Let_def handle_event_defs nbr_ok_def state_order)

lemma satisfy_in_lsu_fields [simp]:
  "areas (lu_inst (satisfy_in_lsu now idx nid l u)) = areas (lu_inst u)"
  "as_external_lsdb (lu_inst (satisfy_in_lsu now idx nid l u)) = as_external_lsdb (lu_inst u)"
  "router_id (lu_inst (satisfy_in_lsu now idx nid l u)) = router_id (lu_inst u)"
  "lu_acks (satisfy_in_lsu now idx nid l u) = lu_acks u" "lu_flood (satisfy_in_lsu now idx nid l u) = lu_flood u"
  "lu_out (satisfy_in_lsu now idx nid l u) = lu_out u"
  by (simp_all add: satisfy_in_lsu_def split: option.split prod.split)

lemma satisfy_in_lsu_inv:
  assumes "inst_inv (lu_inst u)" and "idx < length (interfaces (lu_inst u))"
  shows "inst_inv (lu_inst (satisfy_in_lsu now idx nid l u))"
proof (cases "map_of (neighbors (interfaces (lu_inst u) ! idx)) nid")
  case None
  with assms show ?thesis by (simp add: satisfy_in_lsu_def)
next
  case (Some n)
  have "inst_inv (update_iface idx (update_neighbor nid (\<lambda>_. snd (satisfy_request now (lsa_key l) n))) (lu_inst u))"
    using stored_neighbor [OF assms Some] satisfy_request_keeps [where n = n] by (intro inst_inv_put_neighbor assms) simp_all
  then show ?thesis by (simp add: satisfy_in_lsu_def Some case_prod_beta)
qed

text \<open>Per interface, the number of neighbors does not change; neither do the other fields a response reads.\<close>

definition iface_shape :: "OspfInterface \<Rightarrow> ipv4 list \<times> u32 \<times> ipv4" where
  "iface_shape i = (map fst (neighbors i), sw_if_index i, if_area_id i)"

definition same_shape :: "OspfInterface list \<Rightarrow> OspfInterface list \<Rightarrow> bool" where
  "same_shape is js \<longleftrightarrow> map iface_shape is = map iface_shape js"

lemma same_shape_refl [simp]: "same_shape is is"
  by (simp add: same_shape_def)

lemma same_shape_trans: "same_shape is js \<Longrightarrow> same_shape js ks \<Longrightarrow> same_shape is ks"
  by (simp add: same_shape_def)

lemma same_shape_length: "same_shape is js \<Longrightarrow> length is = length js"
  unfolding same_shape_def by (rule map_eq_imp_length_eq)

lemma link_bound_shape: "link_bound is = sum_list (map (\<lambda>x. Suc (length (fst x))) (map iface_shape is))"
  by (simp add: link_bound_def o_def iface_shape_def)

lemma same_shape_bound: "same_shape is js \<Longrightarrow> link_bound is = link_bound js"
  unfolding same_shape_def link_bound_shape by simp

lemma same_shape_update: "same_shape (interfaces (update_iface idx (update_neighbor nid g) s)) (interfaces s)"
proof -
  have "iface_shape (update_neighbor nid g i) = iface_shape i" for i
    by (simp add: iface_shape_def update_neighbor_def)
  then show ?thesis
    by (cases "idx < length (interfaces s)")
      (simp_all add: same_shape_def update_iface_def map_update list_update_beyond list_update_same_conv)
qed

lemma same_shape_satisfy: "same_shape (interfaces (lu_inst (satisfy_in_lsu now idx nid l u))) (interfaces (lu_inst u))"
  by (simp add: satisfy_in_lsu_def same_shape_update split: option.split prod.split)

lemma install_lsa_inv:
  assumes "inst_inv s" and "install_lsa now aid l s = Some (r, s')"
  shows "inst_inv s' \<and> interfaces s' = interfaces s \<and> router_id s' = router_id s \<and> map fst (areas s') = map fst (areas s)"
  using assms db_ok_install [OF inst_inv_ext [OF assms(1)]] inst_inv_area [OF assms(1)]
  by (auto simp: install_lsa_def case_prod_beta inst_inv_set_ext inst_inv_set_area db_ok_install
      split: if_splits option.splits)

text \<open>What the loop keeps true of its state, started from an instance \<open>s0\<close>.\<close>

definition lsu_inv :: "'c OspfInstance \<Rightarrow> 'c LsuState \<Rightarrow> bool" where
  "lsu_inv s0 u \<longleftrightarrow> inst_inv (lu_inst u) \<and> same_shape (interfaces (lu_inst u)) (interfaces s0) \<and>
     router_id (lu_inst u) = router_id s0 \<and> map fst (areas (lu_inst u)) = map fst (areas s0)"

lemma lsu_inv_cong: "lu_inst u = lu_inst v \<Longrightarrow> lsu_inv s0 u = lsu_inv s0 v"
  by (simp add: lsu_inv_def)

lemma lsu_inv_satisfy:
  assumes "lsu_inv s0 u" and "idx < length (interfaces s0)"
  shows "lsu_inv s0 (satisfy_in_lsu now idx nid l u)"
proof -
  have "idx < length (interfaces (lu_inst u))" using assms by (auto simp: lsu_inv_def dest: same_shape_length)
  with assms satisfy_in_lsu_inv [of u idx now nid l] show ?thesis
    by (auto simp: lsu_inv_def intro: same_shape_trans [OF same_shape_satisfy])
qed

lemma lsu_inv_step:
  assumes "lsu_inv s0 u" and "idx < length (interfaces s0)"
  shows "lsu_inv s0 (lsu_lsa now idx src hdr aid stub l u)"
proof (cases "ls_type (header l) = AsExternal \<and> stub \<or> install_lsa now aid l (lu_inst u) = None")
  case True
  with assms(1) show ?thesis by (auto simp: lsu_lsa_def)
next
  case False
  then obtain r s where i: "install_lsa now aid l (lu_inst u) = Some (r, s)" by fastforce
  have "lsu_inv s0 (u\<lparr>lu_inst := s\<rparr>)"
    using install_lsa_inv [OF _ i] assms(1) by (simp add: lsu_inv_def)
  then have "lsu_inv s0 (u\<lparr>lu_inst := s, lu_acks := a\<rparr>)" "lsu_inv s0 (u\<lparr>lu_inst := s, lu_out := b\<rparr>)" for a b
    by (simp_all add: lsu_inv_def)
  with lsu_inv_satisfy [OF _ assms(2)] False i \<open>lsu_inv s0 (u\<lparr>lu_inst := s\<rparr>)\<close> show ?thesis
    by (cases r) (auto simp: lsu_lsa_def Let_def lsu_inv_def split: option.split)
qed

lemma lsu_inv_loop:
  assumes "inst_inv s" and "idx < length (interfaces s)"
  shows "lsu_inv s (lsu_loop now idx src hdr ls s)"
proof -
  have "lsu_inv s u \<Longrightarrow> lsu_inv s (fold (lsu_lsa now idx src hdr aid stub) ls u)" for u aid stub
    by (induction ls arbitrary: u) (simp_all add: lsu_inv_step assms(2))
  moreover have "lsu_inv s \<lparr>lu_inst = s, lu_acks = [], lu_flood = [], lu_out = [], lu_spf = False, lu_full = False\<rparr>"
    using assms(1) by (simp add: lsu_inv_def)
  ultimately show ?thesis by (simp add: lsu_loop_def Let_def)
qed

section \<open>Processing a packet\<close>

lemma reoriginate_total:
  assumes "inst_inv s" and "link_bound (interfaces s) \<le> 5459"
  shows "\<exists>out s'. reoriginate now s = Ok (out, s') \<and> orig_frame s s'"
proof -
  obtain rl s1 where 1: "originate_router_lsas now s = Ok (rl, s1)" "orig_frame s s1"
    using totalD [OF total_router_lsas [OF assms(2)] orig_frame_refl [OF assms(1)]] by blast
  obtain nl s2 where 2: "originate_network_lsas now s1 = Ok (nl, s2)" "orig_frame s s2"
    using totalD [OF total_network_lsas [OF assms(2)] 1(2)] by blast
  obtain sl s3 where 3: "originate_summary_lsas now s2 = Ok (sl, s3)" "orig_frame s s3"
    using totalD [OF total_summary_lsas 2(2)] by blast
  show ?thesis by (simp add: reoriginate_def 1 2 3)
qed

lemma process_lsu_total:
  assumes "inst_inv s" and "link_bound (interfaces s) \<le> 5459" and "idx < length (interfaces s)"
  shows "\<exists>out s'. process_lsu now idx src hdr lsu s = Ok (out, s') \<and> inst_inv s'"
proof -
  let ?u = "lsu_loop now idx src hdr (lsas lsu) s"
  have "lsu_inv s ?u" by (rule lsu_inv_loop [OF assms(1,3)])
  then have u: "inst_inv (lu_inst ?u)" "link_bound (interfaces (lu_inst ?u)) \<le> 5459"
    using assms(2) same_shape_bound by (auto simp: lsu_inv_def)
  from reoriginate_total [OF u, of now] u(1) show ?thesis
    by (auto simp: process_lsu_def Let_def orig_frame_def)
qed

lemma position_Some: "position P xs = Some k \<Longrightarrow> k < length xs \<and> P (xs ! k)"
  by (induction xs arbitrary: k) (auto split: if_splits)

lemma find_interface_Some: "find_interface s sw = Some idx \<Longrightarrow> idx < length (interfaces s) \<and> sw_if_index (interfaces s ! idx) = sw"
  unfolding find_interface_def by (drule position_Some) simp

text \<open>
  C15. Every packet, whatever its contents, is processed to the end: with at most 5459 links the instance
  never panics, and it ends in a state that satisfies the invariant again. A packet on an unknown
  interface or of another area changes nothing and is not answered.
\<close>

theorem process_packet_total:
  assumes "inst_inv s" and "link_bound (interfaces s) \<le> 5459"
  shows "\<exists>out s'. process_packet now sw src pkt s = Ok (out, s') \<and> inst_inv s' \<and>
    (case find_interface s sw of
       None \<Rightarrow> out = [] \<and> s' = s
     | Some idx \<Rightarrow> oh_area_id (packet_header pkt) = if_area_id (interfaces s ! idx) \<or> out = [] \<and> s' = s)"
proof (cases "find_interface s sw")
  case None
  with assms show ?thesis by (simp add: process_packet_def)
next
  case (Some idx)
  then have idx: "idx < length (interfaces s)" using find_interface_Some by blast
  show ?thesis
  proof (cases "oh_area_id (packet_header pkt) = if_area_id (interfaces s ! idx)")
    case True
    have "\<exists>out s'. process_packet now sw src pkt s = Ok (out, s') \<and> inst_inv s'"
      using process_lsu_total [OF assms idx, of now src] process_dd_inv [OF assms(1) idx, of now src]
        process_lsr_inv [OF assms(1), of now idx src] hello_op.inst_inv_update [OF assms(1)] assms(1)
      unfolding process_packet_def Some option.case if_not_P [OF not_not [THEN iffD2, OF True]]
      by (cases pkt) (simp_all add: process_hello_def, (metis prod.collapse)+)
    with Some True show ?thesis by simp
  qed (use Some assms(1) in \<open>simp add: process_packet_def\<close>)
qed

section \<open>What an update does to the databases\<close>

definition in_scope :: "bool \<Rightarrow> Lsa \<Rightarrow> bool" where
  "in_scope stub l \<longleftrightarrow> \<not> (ls_type (header l) = AsExternal \<and> stub)"

lemma lsu_lsa_dbs:
  "areas (lu_inst (lsu_lsa now idx src hdr aid stub l u)) =
     (if in_scope stub l then (case install_lsa now aid l (lu_inst u) of Some (_, s) \<Rightarrow> areas s | None \<Rightarrow> areas (lu_inst u))
      else areas (lu_inst u))"
  "as_external_lsdb (lu_inst (lsu_lsa now idx src hdr aid stub l u)) =
     (if in_scope stub l then (case install_lsa now aid l (lu_inst u) of Some (_, s) \<Rightarrow> as_external_lsdb s
        | None \<Rightarrow> as_external_lsdb (lu_inst u))
      else as_external_lsdb (lu_inst u))"
proof -
  consider "\<not> in_scope stub l" | "install_lsa now aid l (lu_inst u) = None"
    | r s where "in_scope stub l" "install_lsa now aid l (lu_inst u) = Some (r, s)" by fastforce
  then have "areas (lu_inst (lsu_lsa now idx src hdr aid stub l u)) =
     (if in_scope stub l then (case install_lsa now aid l (lu_inst u) of Some (_, s) \<Rightarrow> areas s | None \<Rightarrow> areas (lu_inst u))
      else areas (lu_inst u)) \<and>
    as_external_lsdb (lu_inst (lsu_lsa now idx src hdr aid stub l u)) =
     (if in_scope stub l then (case install_lsa now aid l (lu_inst u) of Some (_, s) \<Rightarrow> as_external_lsdb s
        | None \<Rightarrow> as_external_lsdb (lu_inst u))
      else as_external_lsdb (lu_inst u))"
  proof cases
    case (3 r s)
    have ns: "\<not> (ls_type (header l) = AsExternal \<and> stub)" using 3(1) by (simp add: in_scope_def)
    show ?thesis
      unfolding lsu_lsa_def if_not_P [OF ns] 3(2) if_P [OF 3(1)]
      by (cases r) (simp_all add: Let_def split: option.split)
  qed (auto simp: lsu_lsa_def in_scope_def)
  then show "areas (lu_inst (lsu_lsa now idx src hdr aid stub l u)) =
     (if in_scope stub l then (case install_lsa now aid l (lu_inst u) of Some (_, s) \<Rightarrow> areas s | None \<Rightarrow> areas (lu_inst u))
      else areas (lu_inst u))"
    and "as_external_lsdb (lu_inst (lsu_lsa now idx src hdr aid stub l u)) =
     (if in_scope stub l then (case install_lsa now aid l (lu_inst u) of Some (_, s) \<Rightarrow> as_external_lsdb s
        | None \<Rightarrow> as_external_lsdb (lu_inst u))
      else as_external_lsdb (lu_inst u))"
    by blast+
qed

lemma lsu_lsa_ext:
  "map_of (areas (lu_inst u)) aid \<noteq> None \<Longrightarrow>
   as_external_lsdb (lu_inst (lsu_lsa now idx src hdr aid stub l u)) =
     (if ls_type (header l) = AsExternal \<and> \<not> stub then snd (lsdb_install now l (as_external_lsdb (lu_inst u)))
      else as_external_lsdb (lu_inst u))"
  by (auto simp: lsu_lsa_dbs in_scope_def install_lsa_def case_prod_beta)

lemma lsu_lsa_area:
  "map_of (areas (lu_inst u)) aid \<noteq> None \<Longrightarrow>
   map_of (areas (lu_inst (lsu_lsa now idx src hdr aid stub l u))) k =
     (if k = aid \<and> ls_type (header l) \<noteq> AsExternal
      then map_option (\<lambda>a. a\<lparr>lsdb := snd (lsdb_install now l (lsdb a))\<rparr>) (map_of (areas (lu_inst u)) k)
      else map_of (areas (lu_inst u)) k)"
  by (auto simp: lsu_lsa_dbs in_scope_def install_lsa_def case_prod_beta map_of_set_area_lsdb)

lemma install_all_Cons: "install_all now (l # ls) db = install_all now ls (snd (lsdb_install now l db))"
  by (simp add: install_all_def)

lemma install_all_Nil: "install_all now [] db = db"
  by (simp add: install_all_def)

lemma fold_lsu_dbs:
  assumes "map_of (areas (lu_inst u)) aid = Some a"
  shows "let u' = fold (lsu_lsa now idx src hdr aid stub) ls u in
    as_external_lsdb (lu_inst u') =
      (if stub then as_external_lsdb (lu_inst u)
       else install_all now (filter (\<lambda>l. ls_type (header l) = AsExternal) ls) (as_external_lsdb (lu_inst u))) \<and>
    map_of (areas (lu_inst u')) =
      (map_of (areas (lu_inst u)))
        (aid \<mapsto> a\<lparr>lsdb := install_all now (filter (\<lambda>l. ls_type (header l) \<noteq> AsExternal) ls) (lsdb a)\<rparr>)"
  using assms
proof (induction ls arbitrary: u a)
  case (Cons l ls)
  let ?u = "lsu_lsa now idx src hdr aid stub l u"
  let ?a = "if ls_type (header l) \<noteq> AsExternal then a\<lparr>lsdb := snd (lsdb_install now l (lsdb a))\<rparr> else a"
  have "map_of (areas (lu_inst ?u)) aid = Some ?a"
    using Cons.prems by (simp add: lsu_lsa_area)
  moreover have "(map_of (areas (lu_inst ?u)))(aid \<mapsto> b) = (map_of (areas (lu_inst u)))(aid \<mapsto> b)" for b
    using Cons.prems by (auto simp: lsu_lsa_area fun_eq_iff)
  ultimately show ?case
    using Cons.IH [of ?u ?a] Cons.prems
    by (cases "ls_type (header l) = AsExternal") (simp_all add: Let_def lsu_lsa_ext install_all_Cons fun_eq_iff)
qed (auto simp: install_all_Nil)

text \<open>Nothing fresher than what was installed is missing afterwards, and other keys are untouched.\<close>

lemma install_not_fresher:
  "\<exists>e. lsdb_get (snd (lsdb_install now l db)) (lsa_key l) = Some e \<and> \<not> fresher l (entry_lsa e)"
proof (cases "lsdb_get db (lsa_key l)")
  case None
  then show ?thesis by (simp add: lsdb_get_install new_entry_def fresher_def)
next
  case (Some e)
  then show ?thesis
    using fresher_imp_Greater [of l "entry_lsa e"] by (auto simp: lsdb_get_install new_entry_def fresher_def)
qed

lemma Greater_not_less_fresh:
  "is_more_recent_than (header m) (header n) = Greater \<Longrightarrow> \<not> fresher l n \<Longrightarrow> \<not> fresher l m"
proof
  assume g: "is_more_recent_than (header m) (header n) = Greater" and n: "\<not> fresher l n" and m: "fresher l m"
  have "\<not> fresher n m"
  proof
    assume "fresher n m"
    from fresher_imp_Greater [OF this] g show False
      using is_more_recent_than_swap [of "header n" "header m"] by simp
  qed
  with n m show False by (auto simp: fresher_def)
qed

lemma install_keeps_fresh:
  assumes "lsdb_get db k = Some e" and "\<not> fresher l (entry_lsa e)"
  shows "\<exists>e'. lsdb_get (snd (lsdb_install now m db)) k = Some e' \<and> \<not> fresher l (entry_lsa e')"
  using assms Greater_not_less_fresh [of m "entry_lsa e" l] by (auto simp: lsdb_get_install new_entry_def)

lemma install_all_keeps_fresh:
  "lsdb_get db k = Some e \<Longrightarrow> \<not> fresher l (entry_lsa e) \<Longrightarrow>
   \<exists>e'. lsdb_get (install_all now ls db) k = Some e' \<and> \<not> fresher l (entry_lsa e')"
proof (induction ls arbitrary: db e)
  case (Cons m ls)
  then show ?case using install_keeps_fresh [OF Cons.prems, of now m] by (auto simp: install_all_Cons)
qed (simp add: install_all_Nil)

lemma install_all_holds:
  "l \<in> set ls \<Longrightarrow> \<exists>e. lsdb_get (install_all now ls db) (lsa_key l) = Some e \<and> \<not> fresher l (entry_lsa e)"
proof (induction ls arbitrary: db)
  case (Cons m ls)
  then show ?case
    using install_not_fresher [of now m db] install_all_keeps_fresh by (fastforce simp: install_all_Cons)
qed simp

lemma install_all_other:
  "k \<notin> lsa_key ` set ls \<Longrightarrow> lsdb_get (install_all now ls db) k = lsdb_get db k"
  by (induction ls arbitrary: db) (auto simp: install_all_Nil install_all_Cons lsdb_get_install)

text \<open>
  C16. An update refines a sequence of guarded installations: the loop over its LSAs leaves the area's
  database, and the AS-wide one unless the area is a stub, as installing them one after the other would;
  so for every LSA in scope the databases hold an instance that is no less fresh, and no other key and no
  other area changes. In a stub area Type 5 LSAs are never installed.
\<close>

theorem lsu_refines_installs:
  assumes "inst_inv s" and "idx < length (interfaces s)"
    and "if_area_id (interfaces s ! idx) = aid" and "map_of (areas s) aid = Some a"
  shows "let s' = lu_inst (lsu_loop now idx src hdr ls s) in
    map_of (areas s') = (map_of (areas s))
      (aid \<mapsto> a\<lparr>lsdb := install_all now (filter (\<lambda>l. ls_type (header l) \<noteq> AsExternal) ls) (lsdb a)\<rparr>) \<and>
    as_external_lsdb s' = (if accepts_as_external a
      then install_all now (filter (\<lambda>l. ls_type (header l) = AsExternal) ls) (as_external_lsdb s)
      else as_external_lsdb s) \<and>
    (\<forall>l \<in> set ls. in_scope (\<not> accepts_as_external a) l \<longrightarrow>
       (\<exists>e. lookup_lsa s' aid (lsa_key l) = Some e \<and> \<not> fresher l (entry_lsa e))) \<and>
    (\<forall>k. k \<notin> lsa_key ` set ls \<longrightarrow> lookup_lsa s' aid k = lookup_lsa s aid k)"
proof -
  let ?u = "lsu_loop now idx src hdr ls s"
  let ?E = "filter (\<lambda>l. ls_type (header l) = AsExternal) ls" and ?A = "filter (\<lambda>l. ls_type (header l) \<noteq> AsExternal) ls"
  have stub: "area_is_stub s aid \<longleftrightarrow> \<not> accepts_as_external a" by (simp add: area_is_stub_def assms(4))
  have dbs: "map_of (areas (lu_inst ?u)) = (map_of (areas s))(aid \<mapsto> a\<lparr>lsdb := install_all now ?A (lsdb a)\<rparr>)"
    "as_external_lsdb (lu_inst ?u) = (if accepts_as_external a then install_all now ?E (as_external_lsdb s) else as_external_lsdb s)"
    using fold_lsu_dbs [of "\<lparr>lu_inst = s, lu_acks = [], lu_flood = [], lu_out = [], lu_spf = False, lu_full = False\<rparr>"
        aid a now idx src hdr "\<not> accepts_as_external a" ls] assms(3,4)
    by (auto simp: lsu_loop_def Let_def stub)
  have kt: "key_type (lsa_key l) = ls_type (header l)" for l by (simp add: lsa_key_def header_key_def)
  have "\<exists>e. lookup_lsa (lu_inst ?u) aid (lsa_key l) = Some e \<and> \<not> fresher l (entry_lsa e)"
    if "l \<in> set ls" "in_scope (\<not> accepts_as_external a) l" for l
    using that install_all_holds [of l ?E now "as_external_lsdb s"] install_all_holds [of l ?A now "lsdb a"]
    by (auto simp: lookup_lsa_def dbs in_scope_def kt)
  moreover have "lookup_lsa (lu_inst ?u) aid k = lookup_lsa s aid k" if "k \<notin> lsa_key ` set ls" for k
    using that install_all_other [of k ?E now "as_external_lsdb s"] install_all_other [of k ?A now "lsdb a"]
    by (auto simp: lookup_lsa_def dbs assms(4))
  ultimately show ?thesis by (simp add: Let_def dbs)
qed

section \<open>Witnesses\<close>

theorem process_packet_total_witness:
  "\<exists>out s'. process_packet 7 (sw_if_index (interfaces example_instance ! 0)) 0x0A000002 example_lsu example_instance = Ok (out, s') \<and>
     inst_inv s'"
  using process_packet_total [OF example_instance_inv, of 7 "sw_if_index (interfaces example_instance ! 0)" "0x0A000002" example_lsu]
  by (auto simp: example_instance_simps)

theorem lsu_refines_installs_witness:
  "\<exists>e. lookup_lsa (lu_inst (lsu_loop 7 0 0x0A000002 (ospf_header_new PT_LinkStateUpdate 2 0) [example_lsa] (exstart_router 1 2)))
     0 (lsa_key example_lsa) = Some e \<and> \<not> fresher example_lsa (entry_lsa e)"
  using lsu_refines_installs [OF exstart_router_inv [of 1 2], of 0 0 "area_new 0 Normal 1" 7 "0x0A000002"
      "ospf_header_new PT_LinkStateUpdate 2 0" "[example_lsa]"]
  by (simp add: exstart_router_neighbor Let_def in_scope_def example_lsa_def)

end
