(* ===== verification/Adjacency.thy ===== *)
theory Adjacency
  imports Flooding
begin

text \<open>
  What a Link State Update does to the sender: every LSA is answered, and an adjacency in Loading gets to
  Full when the requested LSAs arrive.
\<close>

section \<open>What an update is answered with\<close>

lemma lsu_lsa_monotone:
  "set (lu_acks u) \<subseteq> set (lu_acks (lsu_lsa now idx src hdr aid stub l u))"
  "set (lu_out u) \<subseteq> set (lu_out (lsu_lsa now idx src hdr aid stub l u))"
  by (auto simp: lsu_lsa_def Let_def split: option.split InstallResult.split)

lemma fold_lsu_monotone:
  "set (lu_acks u) \<subseteq> set (lu_acks (fold (lsu_lsa now idx src hdr aid stub) ls u)) \<and>
   set (lu_out u) \<subseteq> set (lu_out (fold (lsu_lsa now idx src hdr aid stub) ls u))"
proof (induction ls arbitrary: u)
  case (Cons l ls)
  with lsu_lsa_monotone [of u now idx src hdr aid stub l] show ?case by (simp, blast)
qed simp

definition newer_copy :: "ipv4 \<Rightarrow> ipv4 \<Rightarrow> ipv4 \<Rightarrow> Lsa \<Rightarrow> response \<Rightarrow> bool" where
  "newer_copy rid aid dst l r \<longleftrightarrow> (\<exists>sw m. r = (sw, dst, lsu_packet rid aid [m]) \<and> lsa_key m = lsa_key l \<and>
     is_more_recent_than (header m) (header l) = Greater)"

lemma lsu_lsa_answered:
  assumes "inst_inv (lu_inst u)" and "map_of (areas (lu_inst u)) aid = Some a" and "ls_type (header l) \<noteq> AsExternal"
  shows "header l \<in> set (lu_acks (lsu_lsa now idx src hdr aid stub l u)) \<or>
    (\<exists>r \<in> set (lu_out (lsu_lsa now idx src hdr aid stub l u)). newer_copy (router_id (lu_inst u)) aid src l r)"
proof (cases "fst (lsdb_install now l (lsdb a)) = Older")
  case False
  then show ?thesis
    using assms(2,3) by (cases "fst (lsdb_install now l (lsdb a))")
      (auto simp: lsu_lsa_def install_lsa_def case_prod_beta Let_def)
next
  case True
  then obtain e where e: "lsdb_get (lsdb a) (lsa_key l) = Some e"
    "is_more_recent_than (header l) (header (entry_lsa e)) = Less"
    by (auto simp: install_result split: option.splits ordering.splits)
  have "snd (lsdb_install now l (lsdb a)) = lsdb a"
    using e by (simp add: lsdb_install_def Let_def)
  moreover have "is_more_recent_than (header (entry_lsa e)) (header l) = Greater"
    using e(2) is_more_recent_than_swap [of "header (entry_lsa e)" "header l"] by simp
  moreover have "lsa_key (entry_lsa e) = lsa_key l"
    using inst_inv_area [OF assms(1,2)] lsdb_inv_get [OF _ e(1)] by (simp add: db_ok_def)
  ultimately show ?thesis
    using True e(1) assms(2,3)
    by (auto simp: lsu_lsa_def install_lsa_def case_prod_beta Let_def map_of_set_area_lsdb newer_copy_def)
qed

text \<open>
  Every LSA of an update other than a Type 5 is answered: its header is acknowledged, or the
  sender gets this router's more recent copy.
\<close>

theorem lsu_every_lsa_answered:
  assumes "inst_inv s" and "idx < length (interfaces s)" and "l \<in> set ls" and "ls_type (header l) \<noteq> AsExternal"
  shows "header l \<in> set (lu_acks (lsu_loop now idx src hdr ls s)) \<or>
    (\<exists>r \<in> set (lu_out (lsu_loop now idx src hdr ls s)).
       newer_copy (router_id s) (if_area_id (interfaces s ! idx)) src l r)"
proof -
  define aid where "aid = if_area_id (interfaces s ! idx)"
  have known: "map_of (areas (lu_inst u)) aid \<noteq> None" if "lsu_inv s u" for u
    using inst_inv_iface [OF assms(1) nth_mem [OF assms(2)]] that
    by (auto simp: lsu_inv_def aid_def map_of_eq_None_iff simp flip: set_map)
  have "header l \<in> set (lu_acks (fold (lsu_lsa now idx src hdr aid stub) ls u)) \<or>
      (\<exists>r \<in> set (lu_out (fold (lsu_lsa now idx src hdr aid stub) ls u)). newer_copy (router_id s) aid src l r)"
    if "lsu_inv s u" "l \<in> set ls" for stub u
    using that
  proof (induction ls arbitrary: u)
    case (Cons m ls)
    let ?u = "lsu_lsa now idx src hdr aid stub m u"
    show ?case
    proof (cases "m = l")
      case True
      obtain a where "map_of (areas (lu_inst u)) aid = Some a" using known [OF Cons.prems(1)] by auto
      from lsu_lsa_answered [OF _ this assms(4), of now idx src hdr stub] Cons.prems(1) True
        fold_lsu_monotone [of ?u now idx src hdr aid stub ls] show ?thesis
        by (auto simp: lsu_inv_def)
    next
      case False
      with Cons.IH [OF lsu_inv_step [OF Cons.prems(1) assms(2)]] Cons.prems(2) show ?thesis by simp
    qed
  qed simp
  moreover have "lsu_inv s \<lparr>lu_inst = s, lu_acks = [], lu_flood = [], lu_out = [], lu_spf = False, lu_full = False\<rparr>"
    using assms(1) by (simp add: lsu_inv_def)
  ultimately show ?thesis using assms(3) by (simp add: lsu_loop_def Let_def aid_def)
qed

section \<open>Loading ends\<close>

definition satisfied :: "instant \<Rightarrow> Lsa \<Rightarrow> Neighbor \<Rightarrow> Neighbor" where
  "satisfied now l n = snd (satisfy_request now (lsa_key l) n)"

lemma satisfied_simps:
  "ls_request_list (satisfied now l n) = filter (\<lambda>k. k \<noteq> lsa_key l) (ls_request_list n)"
  "n_state (satisfied now l n) =
     (if n_state n = Loading \<and> filter (\<lambda>k. k \<noteq> lsa_key l) (ls_request_list n) = [] then Full else n_state n)"
  by (simp_all add: satisfied_def satisfy_request_def Let_def handle_event_defs)

lemma fold_satisfied_Full: "n_state n = Full \<Longrightarrow> n_state (fold (satisfied now) ls n) = Full"
  by (induction ls arbitrary: n) (simp_all add: satisfied_simps)

lemma fold_satisfied_Loading:
  "n_state n = Loading \<Longrightarrow> ls_request_list n \<noteq> [] \<Longrightarrow> set (ls_request_list n) \<subseteq> lsa_key ` set ls \<Longrightarrow>
   n_state (fold (satisfied now) ls n) = Full"
proof (induction ls arbitrary: n)
  case (Cons l ls)
  show ?case
  proof (cases "filter (\<lambda>k. k \<noteq> lsa_key l) (ls_request_list n) = []")
    case True
    with Cons.prems(1) show ?thesis by (simp add: satisfied_simps fold_satisfied_Full)
  next
    case False
    have "n_state (fold (satisfied now) ls (satisfied now l n)) = Full"
    proof (rule Cons.IH)
      show "n_state (satisfied now l n) = Loading" using False Cons.prems(1) by (simp add: satisfied_simps)
      show "ls_request_list (satisfied now l n) \<noteq> []" using False by (simp add: satisfied_simps)
      show "set (ls_request_list (satisfied now l n)) \<subseteq> lsa_key ` set ls"
        using Cons.prems(3) by (auto simp: satisfied_simps)
    qed
    then show ?thesis by simp
  qed
qed simp

text \<open>An LSA that is not older than what is stored is taken off the request list of the sender.\<close>

lemma lsu_lsa_neighbor:
  assumes "idx < length (interfaces (lu_inst u))" and "in_scope stub l"
    and "install_lsa now aid l (lu_inst u) = Some (r, s)" and "r \<noteq> Older"
    and "interfaces s = interfaces (lu_inst u)"
  shows "map_of (neighbors (interfaces (lu_inst (lsu_lsa now idx src hdr aid stub l u)) ! idx)) (oh_router_id hdr) =
    map_option (satisfied now l) (map_of (neighbors (interfaces (lu_inst u) ! idx)) (oh_router_id hdr))"
proof -
  have ns: "\<not> (ls_type (header l) = AsExternal \<and> stub)" using assms(2) by (simp add: in_scope_def)
  have sat: "map_of (neighbors (interfaces (lu_inst (satisfy_in_lsu now idx nid l v)) ! idx)) nid =
      map_option (satisfied now l) (map_of (neighbors (interfaces (lu_inst v) ! idx)) nid)"
    if "idx < length (interfaces (lu_inst v))" for nid and v :: "'a LsuState"
    using that by (auto simp: satisfy_in_lsu_def nth_update_iface update_neighbor_def map_of_modify_key satisfied_def
        split: option.split prod.split)
  show ?thesis
    unfolding lsu_lsa_def if_not_P [OF ns] assms(3)
    using assms(1,4,5) by (cases r) (simp_all add: Let_def sat)
qed

lemma key_type_lsa_key: "key_type (lsa_key l) = ls_type (header l)"
  by (simp add: lsa_key_def header_key_def)

lemma install_lsa_result:
  assumes "map_of (areas s) aid \<noteq> None"
    and "case lookup_lsa s aid (lsa_key l) of None \<Rightarrow> True
      | Some e \<Rightarrow> is_more_recent_than (header l) (header (entry_lsa e)) \<noteq> Less"
  shows "\<exists>r s'. install_lsa now aid l s = Some (r, s') \<and> r \<noteq> Older"
proof (cases "ls_type (header l) = AsExternal")
  case True
  with assms(2) show ?thesis
    by (simp add: install_lsa_def case_prod_beta lookup_lsa_def key_type_lsa_key install_result
        split: option.splits ordering.split)
next
  case False
  from assms(1) obtain a where "map_of (areas s) aid = Some a" by auto
  with False assms(2) show ?thesis
    by (simp add: install_lsa_def case_prod_beta lookup_lsa_def key_type_lsa_key install_result
        split: option.splits ordering.split)
qed

lemma lookup_lsu_lsa:
  assumes "map_of (areas (lu_inst u)) aid \<noteq> None" and "k \<noteq> lsa_key l"
  shows "lookup_lsa (lu_inst (lsu_lsa now idx src hdr aid stub l u)) aid k = lookup_lsa (lu_inst u) aid k"
  using assms by (auto simp: lookup_lsa_def lsu_lsa_ext lsu_lsa_area lsdb_get_install split: option.split)

text \<open>
  C17. Loading ends: when a neighbor in Loading sends an update that contains every LSA requested from it,
  none out of scope or older than the stored instance, then the adjacency is Full afterwards.
\<close>

theorem loading_completes:
  assumes "inst_inv s" and "idx < length (interfaces s)" and "if_area_id (interfaces s ! idx) = aid"
    and "map_of (neighbors (interfaces s ! idx)) (oh_router_id hdr) = Some n"
    and "n_state n = Loading" and "set (ls_request_list n) \<subseteq> lsa_key ` set ls"
    and "distinct (map lsa_key ls)"
    and "\<forall>l \<in> set ls. in_scope (area_is_stub s aid) l \<and>
      (case lookup_lsa s aid (lsa_key l) of None \<Rightarrow> True
       | Some e \<Rightarrow> is_more_recent_than (header l) (header (entry_lsa e)) \<noteq> Less)"
  shows "\<exists>n'. map_of (neighbors (interfaces (lu_inst (lsu_loop now idx src hdr ls s)) ! idx)) (oh_router_id hdr) = Some n' \<and>
    n_state n' = Full"
proof -
  let ?stub = "area_is_stub s aid" and ?nid = "oh_router_id hdr"
  have step: "map_of (neighbors (interfaces (lu_inst (fold (lsu_lsa now idx src hdr aid ?stub) ks u)) ! idx)) ?nid =
      map_option (fold (satisfied now) ks) (map_of (neighbors (interfaces (lu_inst u) ! idx)) ?nid)"
    if "lsu_inv s u" "distinct (map lsa_key ks)"
      "\<forall>l \<in> set ks. in_scope ?stub l \<and> (case lookup_lsa (lu_inst u) aid (lsa_key l) of None \<Rightarrow> True
         | Some e \<Rightarrow> is_more_recent_than (header l) (header (entry_lsa e)) \<noteq> Less)" for ks u
    using that
  proof (induction ks arbitrary: u)
    case (Cons l ks)
    have len: "idx < length (interfaces (lu_inst u))"
      using Cons.prems(1) assms(2) by (auto simp: lsu_inv_def dest: same_shape_length)
    have "aid \<in> set (map fst (areas (lu_inst u)))"
      using inst_inv_iface [OF assms(1) nth_mem [OF assms(2)]] Cons.prems(1) assms(3) by (simp add: lsu_inv_def flip: set_map)
    then have known: "map_of (areas (lu_inst u)) aid \<noteq> None" by (simp add: map_of_eq_None_iff)
    obtain r s1 where i: "install_lsa now aid l (lu_inst u) = Some (r, s1)" "r \<noteq> Older"
      using install_lsa_result [OF known, of l now] Cons.prems(3) by auto
    have "interfaces s1 = interfaces (lu_inst u)"
      using install_lsa_inv [OF _ i(1)] Cons.prems(1) by (simp add: lsu_inv_def)
    note one = lsu_lsa_neighbor [OF len _ i this, of ?stub src hdr]
    have rest: "\<forall>m \<in> set ks. in_scope ?stub m \<and>
        (case lookup_lsa (lu_inst (lsu_lsa now idx src hdr aid ?stub l u)) aid (lsa_key m) of None \<Rightarrow> True
         | Some e \<Rightarrow> is_more_recent_than (header m) (header (entry_lsa e)) \<noteq> Less)"
    proof
      fix m assume m: "m \<in> set ks"
      then have "lsa_key m \<noteq> lsa_key l" using Cons.prems(2) by (metis distinct.simps(2) image_eqI list.map(2) list.set_map)
      from lookup_lsu_lsa [OF known this] Cons.prems(3) m
      show "in_scope ?stub m \<and>
        (case lookup_lsa (lu_inst (lsu_lsa now idx src hdr aid ?stub l u)) aid (lsa_key m) of None \<Rightarrow> True
         | Some e \<Rightarrow> is_more_recent_than (header m) (header (entry_lsa e)) \<noteq> Less)" by simp
    qed
    show ?case
      using Cons.IH [OF lsu_inv_step [OF Cons.prems(1) assms(2)] _ rest] Cons.prems(2,3) one
      by (simp add: option.map_comp o_def)
  qed (simp add: option.map_id id_def [symmetric])
  have "lsu_inv s \<lparr>lu_inst = s, lu_acks = [], lu_flood = [], lu_out = [], lu_spf = False, lu_full = False\<rparr>"
    using assms(1) by (simp add: lsu_inv_def)
  from step [OF this assms(7)] assms(3,4,8) have
    "map_of (neighbors (interfaces (lu_inst (lsu_loop now idx src hdr ls s)) ! idx)) ?nid = Some (fold (satisfied now) ls n)"
    by (simp add: lsu_loop_def Let_def)
  moreover have "ls_request_list n \<noteq> []"
    using stored_neighbor [OF assms(1,2,4)] assms(5) by (simp add: nbr_ok_def)
  ultimately show ?thesis using fold_satisfied_Loading [OF assms(5) _ assms(6)] by simp
qed

section \<open>Witnesses\<close>

theorem lsu_every_lsa_answered_witness:
  "header example_lsa \<in> set (lu_acks (lsu_loop 7 0 0x0A000002 (ospf_header_new PT_LinkStateUpdate 2 0) [example_lsa] (exstart_router 1 2)))"
proof -
  have none: "lu_out (lsu_loop 7 0 0x0A000002 (ospf_header_new PT_LinkStateUpdate 2 0) [example_lsa] (exstart_router 1 2)) = []"
    by (simp add: lsu_loop_def lsu_lsa_def Let_def install_lsa_def exstart_router_neighbor area_new_def lsdb_install_def
        example_lsa_def)
  show ?thesis
    using lsu_every_lsa_answered [OF exstart_router_inv [of 1 2], of 0 example_lsa "[example_lsa]" 7 "0x0A000002"
        "ospf_header_new PT_LinkStateUpdate 2 0"] none
    by (simp add: exstart_router_neighbor example_lsa_def)
qed

text \<open>A neighbor that waits for one LSA.\<close>

definition loading_neighbor :: Neighbor where
  "loading_neighbor = (neighbor_new 0 2 0x0A000002)\<lparr>n_state := Loading, ls_request_list := [lsa_key example_lsa]\<rparr>"

theorem loading_completes_witness:
  "\<exists>n'. map_of (neighbors (interfaces (lu_inst (lsu_loop 7 0 0x0A000002 (ospf_header_new PT_LinkStateUpdate 2 0) [example_lsa]
       (update_iface 0 (update_neighbor 2 (\<lambda>_. loading_neighbor)) (exstart_router 1 2)))) ! 0)) 2 = Some n' \<and> n_state n' = Full"
proof -
  let ?s = "update_iface 0 (update_neighbor 2 (\<lambda>_. loading_neighbor)) (exstart_router 1 2)"
  have inv: "inst_inv ?s"
    by (rule inst_inv_put_neighbor [OF exstart_router_inv]) (simp_all add: loading_neighbor_def neighbor_new_def nbr_ok_def state_order)
  have nbr: "map_of (neighbors (interfaces ?s ! 0)) 2 = Some loading_neighbor"
    by (simp add: exstart_router_neighbor nth_update_iface update_neighbor_def map_of_modify_key)
  have area: "if_area_id (interfaces ?s ! 0) = 0"
    by (simp add: exstart_router_neighbor nth_update_iface update_neighbor_def)
  have "lookup_lsa ?s 0 (lsa_key example_lsa) = None"
    by (simp add: lookup_lsa_def exstart_router_neighbor area_new_def example_lsa_def key_type_lsa_key)
  with loading_completes [OF inv _ area, of "ospf_header_new PT_LinkStateUpdate 2 0" loading_neighbor "[example_lsa]" 7 "0x0A000002"] nbr
  show ?thesis
    by (simp add: exstart_router_neighbor ospf_header_new_def loading_neighbor_def in_scope_def example_lsa_def)
qed

end
