(* ===== verification/Instance_Reach.thy ===== *)
theory Instance_Reach
  imports Adjacency
begin

text \<open>
  The instance as a state machine: every operation the daemon performs on it is a step, and the invariant
  of \<^verbatim>\<open>Instance_Inv\<close> holds in every state that a run reaches, in whatever order and at whatever times the
  operations come. Further, what a reload leaves alone and what is flooded on which interface.
\<close>

section \<open>Origination keeps the invariant\<close>

lemma orig_frame_set_ext:
  "orig_frame s0 s \<Longrightarrow> db_ok as_scope (router_id s) db \<Longrightarrow> orig_frame s0 (s\<lparr>as_external_lsdb := db\<rparr>)"
  by (simp add: orig_frame_def inst_inv_set_ext)

lemma orig_frame_ext: "orig_frame s0 s \<Longrightarrow> db_ok as_scope (router_id s) (as_external_lsdb s)"
  unfolding orig_frame_def by (blast intro: inst_inv_ext)

lemma lsa_parse_type:
  assumes "lsa_encode l = Ok buf" and "lsa_parse buf = Ok m"
  shows "ls_type (header m) = ls_type (header l)"
proof -
  have "lsa_header_parse buf = Ok (header (lsa_finalize l))"
    using assms(1) by (auto simp: lsa_encode_eq lsa_header_round_trip split: if_splits)
  with assms(2) show ?thesis by (auto simp: lsa_parse_def Let_def bindR_eq_Ok_iff split: if_splits)
qed

lemma flush_external_ok:
  assumes "db_ok P rid db" and "flush_external now k db = Ok db'"
  shows "db_ok P rid db'"
proof (cases "lsdb_get db k")
  case None
  with assms show ?thesis by (simp add: flush_external_def)
next
  case (Some e)
  have "P (ls_type (header (entry_lsa e)))"
    using assms(1) Some lsdb_inv_get [of db k e] by (auto simp: db_ok_def key_type_lsa_key)
  moreover define l where "l = with_seq (ls_sequence_number (header (entry_lsa e)) + 1) (with_age MAX_AGE (entry_lsa e))"
  then have "ls_type (header l) = ls_type (header (entry_lsa e))" by (simp add: with_seq_def with_age_def)
  moreover obtain buf where enc: "lsa_encode l = Ok buf"
      and db': "(case lsa_parse buf of Ok m \<Rightarrow> Ok (snd (lsdb_install now m db)) | Err _ \<Rightarrow> Ok db | Panic \<Rightarrow> Panic) = (Ok db' :: Lsdb parsed)"
    using assms(2) Some unfolding flush_external_def Let_def l_def by (auto simp: bindR_eq_Ok_iff)
  ultimately show ?thesis
    using db' assms(1) lsa_parse_type [OF enc] by (cases "lsa_parse buf") (auto simp: db_ok_install)
qed

lemma flush_externals_ok: "db_ok P rid db \<Longrightarrow> flush_externals now ks db = Ok db' \<Longrightarrow> db_ok P rid db'"
proof (induction ks arbitrary: db)
  case (Cons k ks)
  then show ?case using flush_external_ok by (fastforce simp: bindR_eq_Ok_iff)
qed simp

lemma flush_outside_frame:
  assumes "orig_frame s0 s" and "flush_self_externals_outside now keep s = Ok s'"
  shows "orig_frame s0 s'"
proof -
  from assms(2) obtain ks db where "flush_externals now ks (as_external_lsdb s) = Ok db" "s' = s\<lparr>as_external_lsdb := db\<rparr>"
    unfolding flush_self_externals_outside_def Let_def by (auto simp: bindR_eq_Ok_iff)
  with orig_frame_set_ext [OF assms(1) flush_externals_ok [OF orig_frame_ext [OF assms(1)]]] show ?thesis by simp
qed

lemma keeps_external: "keeps (orig_frame s0) (originate_external now lsid x)"
  by (auto simp: keeps_def originate_external_eq Let_def intro!: orig_frame_set_ext db_ok_install dest: orig_frame_ext)

lemma keeps_externals: "keeps (orig_frame s0) (originate_external_lsas ev now redis externals summaries)"
proof -
  have each: "keeps (orig_frame s0) (each (\<lambda>(p, m). originate_external now p (b m)) ps)" for b ps
    by (intro keeps_each) (auto simp: keeps_external)
  have flush: "orig_frame s0 s'"
    if "orig_frame s0 s" "bindR (flush_self_externals_outside now keep s) (\<lambda>s. Ok ([], s)) = Ok (r, s')" for s s' keep r
    using that flush_outside_frame by (fastforce simp: bindR_eq_Ok_iff)
  have go: "orig_frame s0 s'"
    if "orig_frame s0 s" "bindR (flush_self_externals_outside now keep s) (each (\<lambda>(p, m). originate_external now p (b m)) ps) = Ok (r, s')"
    for s s' keep r b ps
    using that flush_outside_frame keepsD [OF each] by (fastforce simp: bindR_eq_Ok_iff)
  show ?thesis
    unfolding keeps_def originate_external_lsas_def Let_def
    by (auto split: option.splits if_splits elim: flush go)
qed

lemma keeps_summary_addresses: "keeps (orig_frame s0) (originate_summary_address_lsas now es)"
  using keeps_each [OF keeps_external] by (simp add: keeps_def originate_summary_address_lsas_def)

lemma keeps_default_route: "keeps (orig_frame s0) (originate_default_route_lsa now m t)"
  by (auto simp: keeps_def originate_default_route_lsa_def originate_into_eq Let_def
      intro!: orig_frame_set_ext db_ok_install dest: orig_frame_ext)

text \<open>From \<open>keeps\<close> of the frame to the invariant.\<close>

lemma keeps_inv:
  assumes "keeps (orig_frame s) f" and "inst_inv s" and "f s = Ok (r, s')"
  shows "inst_inv s'"
  using keepsD [OF assms(1) orig_frame_refl [OF assms(2)] assms(3)] by (simp add: orig_frame_def)

lemma originate_inv:
  assumes "inst_inv s"
  shows "originate_router_lsas now s = Ok (rl, s') \<Longrightarrow> inst_inv s'"
    and "originate_network_lsas now s = Ok (nl, s') \<Longrightarrow> inst_inv s'"
    and "originate_summary_lsas now s = Ok (sl, s') \<Longrightarrow> inst_inv s'"
    and "originate_external_lsas ev now redis externals summaries s = Ok (el, s') \<Longrightarrow> inst_inv s'"
    and "originate_summary_address_lsas now es s = Ok (al, s') \<Longrightarrow> inst_inv s'"
    and "originate_default_route_lsa now m t s = Ok (dl, s') \<Longrightarrow> inst_inv s'"
  by (erule keeps_inv [OF keeps_router_lsas assms], erule keeps_inv [OF keeps_network_lsas assms],
      erule keeps_inv [OF total_keeps [OF total_summary_lsas] assms], erule keeps_inv [OF keeps_externals assms],
      erule keeps_inv [OF keeps_summary_addresses assms], erule keeps_inv [OF keeps_default_route assms])

section \<open>The remaining operations\<close>

lemma inst_inv_new: "inst_inv (instance_new now config)"
proof -
  define rid where "rid = dc_router_id config"
  define good where "good m \<longleftrightarrow> distinct (map fst m) \<and>
    (\<forall>aid a. map_of m aid = Some a \<longrightarrow> area_id a = aid \<and> db_ok area_scope rid (lsdb a))" for m :: "(ipv4 \<times> Area) list"
  have ensure: "good (ensure_area (area_id a) a m)" "area_id a \<in> dom (map_of (ensure_area (area_id a) a m))"
      "dom (map_of m) \<subseteq> dom (map_of (ensure_area (area_id a) a m))"
    if "good m" "db_ok area_scope rid (lsdb a)" for m a
    using that by (auto simp: ensure_area_def good_def distinct_update update_conv'
        simp del: map_of_eq_Some_iff split: if_splits)
  have area: "area_id (area_of_config rid t c) = ic_area_id c" "db_ok area_scope rid (lsdb (area_of_config rid t c))" for t c
    by (simp_all add: area_of_config_def area_new_def case_prod_beta)
  have folded: "good (fold (\<lambda>c. ensure_area (ic_area_id c) (area_of_config rid t c)) cs m) \<and>
      ic_area_id ` set cs \<union> dom (map_of m) \<subseteq> dom (map_of (fold (\<lambda>c. ensure_area (ic_area_id c) (area_of_config rid t c)) cs m))"
    if "good m" for t cs m
    using that
  proof (induction cs arbitrary: m)
    case (Cons c cs)
    note e = ensure [OF Cons.prems area(2) [of t c], unfolded area(1)]
    let ?D = "dom (map_of (fold (\<lambda>c. ensure_area (ic_area_id c) (area_of_config rid t c)) (c # cs) m))"
    have ih: "good (fold (\<lambda>c. ensure_area (ic_area_id c) (area_of_config rid t c)) (c # cs) m)" "ic_area_id ` set cs \<subseteq> ?D"
        "dom (map_of (ensure_area (ic_area_id c) (area_of_config rid t c) m)) \<subseteq> ?D"
      using Cons.IH [OF e(1)] by simp_all
    have "ic_area_id c \<in> ?D" "dom (map_of m) \<subseteq> ?D" using subsetD [OF ih(3) e(2)] subset_trans [OF e(3) ih(3)] .
    with ih(1,2) show ?case unfolding list.set image_insert by (intro conjI Un_least insert_subsetI)
  qed simp
  let ?m = "fold (\<lambda>c. ensure_area (ic_area_id c) (area_of_config rid
     (collect_map (map (\<lambda>a. (ac_area_id a, (ac_area_type a, ac_default_cost a))) (dc_areas config))) c)) (dc_interfaces config) []"
  have "good []" by (simp add: good_def)
  from folded [OF this] have "good ?m" "ic_area_id ` set (dc_interfaces config) \<subseteq> dom (map_of ?m)" by auto
  let ?s = "instance_new now config" and ?a = "area_new UNSPECIFIED Normal rid"
  have areas: "areas ?s = ensure_area (area_id ?a) ?a ?m" "router_id ?s = rid" "as_external_lsdb ?s = lsdb_new rid"
    by (simp_all add: instance_new_def Let_def rid_def area_new_def)
  have "db_ok area_scope rid (lsdb ?a)" by (simp add: area_new_def)
  note final = ensure [OF \<open>good ?m\<close> this, folded areas(1)]
  have "iface_ok i \<and> if_area_id i \<in> dom (map_of (areas ?s))" if i: "i \<in> set (interfaces ?s)" for i
  proof -
    obtain c where "c \<in> set (dc_interfaces config)" "i = interface_of_config now rid c"
      using i by (auto simp: instance_new_def Let_def rid_def)
    moreover from this(1) have "ic_area_id c \<in> dom (map_of (areas ?s))"
      using subset_trans [OF \<open>ic_area_id ` set (dc_interfaces config) \<subseteq> dom (map_of ?m)\<close> final(3)]
      by (rule subsetD [OF _ imageI, rotated])
    ultimately show ?thesis by (simp add: interface_of_config_def interface_new_def iface_ok_no_neighbors Let_def)
  qed
  with final(1) show ?thesis
    unfolding inst_inv_def good_def areas(2,3) by (simp add: dom_map_of_conv_image_fst del: map_of_eq_Some_iff)
qed

lemma inst_inv_interfaces:
  assumes "inst_inv s" and "\<forall>i \<in> set is. iface_ok i \<and> if_area_id i \<in> set (map fst (areas s))"
  shows "inst_inv (s\<lparr>interfaces := is\<rparr>)"
  using assms by (simp add: inst_inv_def)

lemma inst_inv_check_timers: "inst_inv s \<Longrightarrow> inst_inv (snd (check_neighbor_timers now s))"
  using timers_op.inst_inv_map [of s now] by (simp add: check_neighbor_timers_def Let_def o_def)

lemma inst_inv_refresh: "inst_inv s \<Longrightarrow> inst_inv (snd (refresh_interface_state now sw addr msk up s))"
proof -
  assume "inst_inv s"
  from refresh_op.inst_inv_update [OF this, of _ now addr msk up] show ?thesis
    using \<open>inst_inv s\<close> by (auto simp: refresh_interface_state_def case_prod_beta update_iface_def split: option.split)
qed

lemma inst_inv_run_spf: "inst_inv s \<Longrightarrow> inst_inv (snd (run_spf now s))"
  by (simp add: run_spf_def inst_inv_def)

interpretation event_op: iface_op "\<lambda>i. snd (interface_handle_event now ev i)" for now ev
  by unfold_locales (simp_all add: iface_ok_event)

interpretation reload_op: iface_op "\<lambda>i. snd (reload_interface c i)" for c
  by unfold_locales (auto simp: reload_interface_def Let_def elim: iface_ok_neighbors [THEN iffD1, rotated])

lemma flush_areas_inv:
  assumes "inst_inv s"
  shows "inst_inv (s\<lparr>areas := map (\<lambda>(aid, a). (aid, a\<lparr>lsdb := snd (flush_max_age now (lsdb a))\<rparr>)) (areas s),
    as_external_lsdb := snd (flush_max_age now (as_external_lsdb s))\<rparr>)"
proof -
  have m: "map_of (map (\<lambda>(aid, a). (aid, f a)) xs) k = map_option f (map_of xs k)" for f :: "Area \<Rightarrow> Area" and xs k
    by (induction xs) auto
  have "map fst (map (\<lambda>(aid, a). (aid, f a)) xs) = map fst xs" for f :: "Area \<Rightarrow> Area" and xs :: "(ipv4 \<times> Area) list"
    by (induction xs) auto
  note this [simp]
  show ?thesis
    using assms unfolding inst_inv_def
    by (auto simp: m flush_op.db_ok_op simp del: map_map set_map)
qed

lemma periodic_maintenance_inv:
  assumes "inst_inv s" and "periodic_maintenance now s = Ok (r, s')"
  shows "inst_inv s'"
  using assms flush_areas_inv [of _ now] originate_inv(1) [OF assms(1)]
  by (auto simp: periodic_maintenance_def Let_def bindR_eq_Ok_iff case_prod_beta split: if_splits)

lemma reload_one_inv:
  assumes "\<forall>i \<in> set is. iface_ok i \<and> if_area_id i \<in> A"
  shows "\<forall>i \<in> set (snd (reload_one c (f, is))). iface_ok i \<and> if_area_id i \<in> A"
proof (cases "position (\<lambda>i. if_name i = ic_name c) is")
  case None
  with assms show ?thesis by (simp add: reload_one_def case_prod_beta)
next
  case (Some k)
  then have "is ! k \<in> set is" using position_Some [OF Some] by simp
  with assms have "iface_ok (snd (reload_interface c (is ! k)))" "if_area_id (snd (reload_interface c (is ! k))) \<in> A"
    by (simp_all add: reload_op.keeps_ok reload_op.keeps_area)
  with assms Some show ?thesis
    by (auto simp: reload_one_def case_prod_beta dest!: set_update_subset_insert [THEN subsetD])
qed

lemma reload_fold_inv:
  "\<forall>i \<in> set (snd p). iface_ok i \<and> if_area_id i \<in> A \<Longrightarrow>
   \<forall>i \<in> set (snd (fold reload_one cs p)). iface_ok i \<and> if_area_id i \<in> A"
proof (induction cs arbitrary: p)
  case (Cons c cs)
  from reload_one_inv [OF Cons.prems, of c "fst p"] have
    "\<forall>i \<in> set (snd (reload_one c p)). iface_ok i \<and> if_area_id i \<in> A" by simp
  from Cons.IH [OF this] show ?case by simp
qed simp

text \<open>A reload: the interfaces and the redistribution settings change, then Router-LSAs may be originated.\<close>

lemma reload_config_cases:
  assumes "reload_config now new s = Ok (c, s')"
  obtains s1 where "interfaces s1 = snd (fold reload_one (dc_interfaces new) ((False, False), interfaces s))"
    and "areas s1 = areas s" and "router_id s1 = router_id s" and "as_external_lsdb s1 = as_external_lsdb s"
    and "s' = s1 \<or> (\<exists>r s2. originate_router_lsas now s1 = Ok (r, s2) \<and> s' = schedule_spf now s2)"
proof -
  obtain ch di ifs where p: "fold reload_one (dc_interfaces new) ((False, False), interfaces s) = ((ch, di), ifs)"
    by (metis surj_pair)
  define s1 where "s1 = s\<lparr>interfaces := ifs,
    summary_addresses := (if summaries_differ (summary_addresses s) (dc_summary_addresses new)
      then dc_summary_addresses new else summary_addresses s),
    redistribute := (if redistribute_differ (redistribute s) (dc_redistribute new)
      then dc_redistribute new else redistribute s)\<rparr>"
  have "s' = s1 \<or> (\<exists>r s2. originate_router_lsas now s1 = Ok (r, s2) \<and> s' = schedule_spf now s2)"
    using assms unfolding reload_config_def p
    by (cases "summaries_differ (summary_addresses s) (dc_summary_addresses new)";
        cases "redistribute_differ (redistribute s) (dc_redistribute new)")
      (auto simp: s1_def Let_def bindR_eq_Ok_iff split: if_splits)
  then show ?thesis by (intro that [of s1]) (simp_all add: s1_def p)
qed

lemma reload_config_inv:
  assumes "inst_inv s" and "reload_config now new s = Ok (c, s')"
  shows "inst_inv s'"
proof -
  obtain s1 where s1: "interfaces s1 = snd (fold reload_one (dc_interfaces new) ((False, False), interfaces s))"
      "areas s1 = areas s" "router_id s1 = router_id s" "as_external_lsdb s1 = as_external_lsdb s"
      "s' = s1 \<or> (\<exists>r s2. originate_router_lsas now s1 = Ok (r, s2) \<and> s' = schedule_spf now s2)"
    by (rule reload_config_cases [OF assms(2)])
  have "\<forall>i \<in> set (interfaces s1). iface_ok i \<and> if_area_id i \<in> set (map fst (areas s))"
    unfolding s1(1) by (rule reload_fold_inv) (use inst_inv_iface [OF assms(1)] in simp)
  from inst_inv_interfaces [OF assms(1) this] have "inst_inv s1"
    by (rule inst_inv_cong [THEN iffD1, rotated 4]) (simp_all add: s1)
  with s1(5) show ?thesis by (auto dest: originate_inv(1))
qed

lemma process_lsu_inv:
  assumes "inst_inv s" and "idx < length (interfaces s)" and "process_lsu now idx src hdr lsu s = Ok (out, s')"
  shows "inst_inv s'"
proof -
  let ?u = "lsu_loop now idx src hdr (lsas lsu) s"
  have u: "inst_inv (lu_inst ?u)" using lsu_inv_loop [OF assms(1,2)] by (simp add: lsu_inv_def)
  have "inst_inv t" if "reoriginate now (lu_inst ?u) = Ok (re, t)" for re t
    using that originate_inv(1) [OF u] originate_inv(2) originate_inv(3)
    unfolding reoriginate_def by (fastforce simp: bindR_eq_Ok_iff)
  with u assms(3) show ?thesis
    unfolding process_lsu_def Let_def by (auto simp: bindR_eq_Ok_iff split: if_splits)
qed

lemma process_packet_inv:
  assumes "inst_inv s" and "process_packet now sw src pkt s = Ok (out, s')"
  shows "inst_inv s'"
proof (cases "find_interface s sw")
  case None
  with assms show ?thesis by (simp add: process_packet_def)
next
  case (Some idx)
  then have idx: "idx < length (interfaces s)" using find_interface_Some by blast
  show ?thesis
  proof (cases "oh_area_id (packet_header pkt) = if_area_id (interfaces s ! idx)")
    case True
    show ?thesis
      using assms(2) process_lsu_inv [OF assms(1) idx] process_dd_inv [OF assms(1) idx, of now src]
        process_lsr_inv [OF assms(1), of now idx src] hello_op.inst_inv_update [OF assms(1)] assms(1)
      unfolding process_packet_def Some option.case if_not_P [OF not_not [THEN iffD2, OF True]]
      by (cases pkt) (auto simp: process_hello_def, (metis snd_conv)+)
  qed (use Some assms in \<open>simp add: process_packet_def\<close>)
qed

section \<open>The instance as a state machine\<close>

text \<open>
  The steps are the calls the daemon makes: receiving a packet, the timers, the interface events, the
  refresh of addresses, the originations, the SPF run, maintenance, and a reload. \<open>bind\<close> is what
  start-up and the timers write into an interface directly. An operation that panics ends the run.
\<close>

inductive inst_reach :: "'c OspfInstance \<Rightarrow> bool" where
  new: "inst_reach (instance_new now config)"
| packet: "inst_reach s \<Longrightarrow> process_packet now sw src pkt s = Ok (out, s') \<Longrightarrow> inst_reach s'"
| dds: "inst_reach s \<Longrightarrow> inst_reach (snd (emit_pending_dds now elapsed s))"
| lsrs: "inst_reach s \<Longrightarrow> inst_reach (snd (emit_pending_lsrs now s))"
| timers: "inst_reach s \<Longrightarrow> inst_reach (snd (check_neighbor_timers now s))"
| event: "inst_reach s \<Longrightarrow> inst_reach (update_iface idx (\<lambda>i. snd (interface_handle_event now ev i)) s)"
| refresh: "inst_reach s \<Longrightarrow> inst_reach (snd (refresh_interface_state now sw addr msk up s))"
| bind: "inst_reach s \<Longrightarrow> inst_reach (update_iface idx (\<lambda>i. i\<lparr>sw_if_index := sw, if_address := addr, if_mask := msk,
    dd_mtu := mtu, next_hello := t, crypto_seq := q\<rparr>) s)"
| schedule: "inst_reach s \<Longrightarrow> inst_reach (schedule_spf now s)"
| spf: "inst_reach s \<Longrightarrow> inst_reach (snd (run_spf now s))"
| router: "inst_reach s \<Longrightarrow> originate_router_lsas now s = Ok (ls, s') \<Longrightarrow> inst_reach s'"
| network: "inst_reach s \<Longrightarrow> originate_network_lsas now s = Ok (ls, s') \<Longrightarrow> inst_reach s'"
| summary: "inst_reach s \<Longrightarrow> originate_summary_lsas now s = Ok (ls, s') \<Longrightarrow> inst_reach s'"
| external: "inst_reach s \<Longrightarrow> originate_external_lsas mt now redis externals summaries s = Ok (es, s') \<Longrightarrow> inst_reach s'"
| aggregate: "inst_reach s \<Longrightarrow> originate_summary_address_lsas now sas s = Ok (es, s') \<Longrightarrow> inst_reach s'"
| dflt: "inst_reach s \<Longrightarrow> originate_default_route_lsa now m ty s = Ok (d, s') \<Longrightarrow> inst_reach s'"
| maintain: "inst_reach s \<Longrightarrow> periodic_maintenance now s = Ok (r, s') \<Longrightarrow> inst_reach s'"
| reload: "inst_reach s \<Longrightarrow> reload_config now config s = Ok (c, s') \<Longrightarrow> inst_reach s'"

lemma inst_inv_bind:
  assumes "inst_inv s"
  shows "inst_inv (update_iface idx (\<lambda>i. i\<lparr>sw_if_index := sw, if_address := addr, if_mask := msk,
    dd_mtu := mtu, next_hello := t, crypto_seq := q\<rparr>) s)"
proof (cases "idx < length (interfaces s)")
  case True
  then show ?thesis
    using inst_inv_iface [OF assms nth_mem [OF True]]
    by (intro inst_inv_update_at assms) (auto elim: iface_ok_neighbors [THEN iffD1, rotated])
qed (simp add: update_iface_beyond assms)

text \<open>
  The invariant of the instance holds in every state a run of the daemon reaches: one database per
  area, consistent and without AS-External-LSAs, which live in the AS-wide database only; every interface
  in a known area; and for every neighbor, nothing requested before Exchange, something in Loading and
  nothing in Full.
\<close>

theorem inst_reach_inv: "inst_reach s \<Longrightarrow> inst_inv s"
proof (induction rule: inst_reach.induct)
  case (packet s now sw src pkt out s')
  then show ?case by (blast intro: process_packet_inv)
next
  case (maintain s now r s')
  then show ?case by (blast intro: periodic_maintenance_inv)
next
  case (reload s now config c s')
  then show ?case by (blast intro: reload_config_inv)
qed (erule (1) originate_inv | simp add: inst_inv_new emit_pending_inv inst_inv_check_timers
    event_op.inst_inv_update inst_inv_refresh inst_inv_bind inst_inv_run_spf)+

section \<open>What a reload changes\<close>

text \<open>The interface with the settings of its entry of the new configuration, if it has one.\<close>

definition reconfigured :: "OspfInterfaceConfig list \<Rightarrow> OspfInterface \<Rightarrow> OspfInterface" where
  "reconfigured cs i =
     (case List.find (\<lambda>c. ic_name c = if_name i) cs of
        None \<Rightarrow> i
      | Some c \<Rightarrow> i\<lparr>if_cost := ic_cost c, if_priority := ic_priority c, hello_interval := ic_hello_interval c,
            dead_interval := ic_dead_interval c, rxmt_interval := ic_retransmit_interval c, if_passive := ic_passive c\<rparr>)"

lemma position_map_update:
  assumes "distinct (map f xs)"
  shows "(case position (\<lambda>x. f x = v) xs of None \<Rightarrow> xs | Some k \<Rightarrow> xs[k := g (xs ! k)]) =
    map (\<lambda>x. if f x = v then g x else x) xs"
  using assms
proof (induction xs)
  case (Cons x xs)
  show ?case
  proof (cases "f x = v")
    case True
    then have "\<forall>y \<in> set xs. f y \<noteq> v"
      using Cons.prems by (metis distinct.simps(2) image_eqI list.map(2) list.set_map)
    then have "map (\<lambda>x. if f x = v then g x else x) xs = xs" by (intro map_idI) simp
    with True show ?thesis by simp
  next
    case False
    with Cons show ?thesis by (auto split: option.splits)
  qed
qed simp

lemma reload_one_map:
  assumes "distinct (map if_name is)"
  shows "snd (reload_one c (f, is)) = map (\<lambda>i. if if_name i = ic_name c then snd (reload_interface c i) else i) is"
  unfolding position_map_update [OF assms, symmetric]
  by (simp add: reload_one_def case_prod_beta split: option.split)

lemma if_name_reload [simp]: "if_name (snd (reload_interface c i)) = if_name i"
  by (simp add: reload_interface_def Let_def)

lemma reload_fold_map:
  assumes "distinct (map if_name (snd p))" and "distinct (map ic_name cs)"
  shows "snd (fold reload_one cs p) = map (reconfigured cs) (snd p)"
  using assms
proof (induction cs arbitrary: p)
  case (Cons c cs)
  let ?f = "\<lambda>i. if if_name i = ic_name c then snd (reload_interface c i) else i"
  have one: "snd (reload_one c p) = map ?f (snd p)"
    using reload_one_map [OF Cons.prems(1), of c "fst p"] by simp
  have "map if_name (snd (reload_one c p)) = map if_name (snd p)" by (simp add: one)
  with Cons.prems have "distinct (map if_name (snd (reload_one c p)))" "distinct (map ic_name cs)" by simp_all
  from Cons.IH [OF this] have "snd (fold reload_one cs (reload_one c p)) = map (reconfigured cs) (map ?f (snd p))"
    unfolding one .
  moreover have "reconfigured cs (?f i) = reconfigured (c # cs) i" for i
  proof (cases "if_name i = ic_name c")
    case True
    then have "List.find (\<lambda>d. ic_name d = if_name i) cs = None"
      using Cons.prems(2) unfolding find_None_iff by (metis distinct.simps(2) image_eqI list.map(2) list.set_map)
    with True show ?thesis by (simp add: reconfigured_def reload_interface_def Let_def)
  next
    case False
    then have "ic_name c \<noteq> if_name i" by simp
    with False show ?thesis by (simp add: reconfigured_def)
  qed
  ultimately show ?case by (simp add: o_def)
qed (simp add: reconfigured_def map_idI)

text \<open>
  A reload applies the cost, priority, timers and passive flag of the new configuration to the
  interfaces it names and touches nothing else of them: addresses, areas, states and every adjacency
  survive, and interfaces that the new configuration does not mention stay as they were.
\<close>

theorem reload_keeps_adjacencies:
  assumes "inst_inv s" and "reload_config now new s = Ok (changed, s')"
    and "distinct (map if_name (interfaces s))" and "distinct (map ic_name (dc_interfaces new))"
  shows "interfaces s' = map (reconfigured (dc_interfaces new)) (interfaces s) \<and>
    map neighbors (interfaces s') = map neighbors (interfaces s) \<and> inst_inv s'"
proof -
  obtain s1 where s1: "interfaces s1 = snd (fold reload_one (dc_interfaces new) ((False, False), interfaces s))"
      "areas s1 = areas s" "router_id s1 = router_id s" "as_external_lsdb s1 = as_external_lsdb s"
      "s' = s1 \<or> (\<exists>r s2. originate_router_lsas now s1 = Ok (r, s2) \<and> s' = schedule_spf now s2)"
    by (rule reload_config_cases [OF assms(2)])
  have ifs: "interfaces s1 = map (reconfigured (dc_interfaces new)) (interfaces s)"
    unfolding s1(1) using reload_fold_map [of "((False, False), interfaces s)" "dc_interfaces new"] assms(3,4) by simp
  have "\<forall>i \<in> set (interfaces s1). iface_ok i \<and> if_area_id i \<in> set (map fst (areas s))"
    unfolding s1(1) by (rule reload_fold_inv) (use inst_inv_iface [OF assms(1)] in simp)
  from inst_inv_interfaces [OF assms(1) this] have "inst_inv s1"
    by (rule inst_inv_cong [THEN iffD1, rotated 4]) (simp_all add: s1)
  have "interfaces s' = interfaces s1"
    using s1(5) keepsD [OF keeps_router_lsas orig_frame_refl [OF \<open>inst_inv s1\<close>]] by (auto simp: orig_frame_def)
  moreover have "neighbors (reconfigured cs i) = neighbors i" for cs i
    by (simp add: reconfigured_def split: option.split)
  ultimately show ?thesis using ifs reload_config_inv [OF assms(1,2)] by (simp add: o_def)
qed

section \<open>What is flooded\<close>

lemma satisfy_other_iface:
  "jdx \<noteq> idx \<Longrightarrow> interfaces (lu_inst (satisfy_in_lsu now idx nid l u)) ! jdx = interfaces (lu_inst u) ! jdx"
  by (simp add: satisfy_in_lsu_def update_iface_def case_prod_beta split: option.split)

lemma lsu_lsa_other_iface:
  assumes "jdx \<noteq> idx" and "inst_inv (lu_inst u)"
  shows "interfaces (lu_inst (lsu_lsa now idx src hdr aid stub l u)) ! jdx = interfaces (lu_inst u) ! jdx"
proof (cases "ls_type (header l) = AsExternal \<and> stub \<or> install_lsa now aid l (lu_inst u) = None")
  case True
  then show ?thesis by (auto simp: lsu_lsa_def)
next
  case False
  then obtain r s where i: "install_lsa now aid l (lu_inst u) = Some (r, s)" by fastforce
  have ns: "\<not> (ls_type (header l) = AsExternal \<and> stub)" using False by blast
  have "interfaces s = interfaces (lu_inst u)" using install_lsa_inv [OF assms(2) i] by blast
  then show ?thesis
    unfolding lsu_lsa_def if_not_P [OF ns] i
    by (cases r) (simp_all add: Let_def satisfy_other_iface [OF assms(1)] split: option.split)
qed

lemma lsu_lsa_flood:
  assumes "in_scope stub l" and "install_lsa now aid l (lu_inst u) = Some (r, s)" and "r \<in> {New, Updated}"
  shows "l \<in> set (lu_flood (lsu_lsa now idx src hdr aid stub l u))"
proof -
  have ns: "\<not> (ls_type (header l) = AsExternal \<and> stub)" using assms(1) by (simp add: in_scope_def)
  show ?thesis
    unfolding lsu_lsa_def if_not_P [OF ns] assms(2) using assms(3) by (cases r) (simp_all add: Let_def)
qed

lemma lsu_lsa_flood_mono: "set (lu_flood u) \<subseteq> set (lu_flood (lsu_lsa now idx src hdr aid stub l u))"
  by (auto simp: lsu_lsa_def Let_def split: option.split InstallResult.split)

lemma install_lsa_news:
  assumes "map_of (areas s) aid \<noteq> None"
    and "case lookup_lsa s aid (lsa_key l) of None \<Rightarrow> True
      | Some e \<Rightarrow> is_more_recent_than (header l) (header (entry_lsa e)) = Greater"
  shows "\<exists>r s'. install_lsa now aid l s = Some (r, s') \<and> r \<in> {New, Updated}"
proof (cases "ls_type (header l) = AsExternal")
  case True
  with assms(2) show ?thesis
    by (simp add: install_lsa_def case_prod_beta lookup_lsa_def key_type_lsa_key install_result split: option.splits)
next
  case False
  from assms(1) obtain a where "map_of (areas s) aid = Some a" by auto
  with False assms(2) show ?thesis
    by (simp add: install_lsa_def case_prod_beta lookup_lsa_def key_type_lsa_key install_result split: option.splits)
qed

text \<open>The loop puts news on the list of LSAs to flood, and changes no interface but the receiving one.\<close>

lemma fold_lsu_flood:
  assumes "lsu_inv s u" and "idx < length (interfaces s)" and "if_area_id (interfaces s ! idx) = aid" and "inst_inv s"
    and "distinct (map lsa_key ls)" and "l \<in> set ls \<or> l \<in> set (lu_flood u)" and "in_scope stub l"
    and "l \<in> set ls \<Longrightarrow> (case lookup_lsa (lu_inst u) aid (lsa_key l) of None \<Rightarrow> True
      | Some e \<Rightarrow> is_more_recent_than (header l) (header (entry_lsa e)) = Greater)"
  shows "l \<in> set (lu_flood (fold (lsu_lsa now idx src hdr aid stub) ls u))"
  using assms(1,5,6,8)
proof (induction ls arbitrary: u)
  case (Cons m ls)
  have "aid \<in> set (map fst (areas (lu_inst u)))"
    using inst_inv_iface [OF assms(4) nth_mem [OF assms(2)]] Cons.prems(1) assms(3) by (simp add: lsu_inv_def flip: set_map)
  then have known: "map_of (areas (lu_inst u)) aid \<noteq> None" by (simp add: map_of_eq_None_iff)
  let ?u = "lsu_lsa now idx src hdr aid stub m u"
  note mono = subsetD [OF lsu_lsa_flood_mono [of u now idx src hdr aid stub m]]
  have inv: "lsu_inv s ?u" by (rule lsu_inv_step [OF Cons.prems(1) assms(2)])
  have "l \<in> set ls \<or> l \<in> set (lu_flood ?u)"
  proof (cases "m = l")
    case True
    from install_lsa_news [OF known, of l now] Cons.prems(4) True obtain r s'
      where "install_lsa now aid l (lu_inst u) = Some (r, s')" "r \<in> {New, Updated}" by auto
    from lsu_lsa_flood [OF assms(7) this] True show ?thesis by simp
  qed (use Cons.prems(3) mono in auto)
  moreover have "case lookup_lsa (lu_inst ?u) aid (lsa_key l) of None \<Rightarrow> True
      | Some e \<Rightarrow> is_more_recent_than (header l) (header (entry_lsa e)) = Greater" if l: "l \<in> set ls"
  proof -
    have "lsa_key l \<noteq> lsa_key m" using Cons.prems(2) l by (metis distinct.simps(2) image_eqI list.map(2) list.set_map)
    from lookup_lsu_lsa [OF known this] Cons.prems(4) l show ?thesis by simp
  qed
  ultimately show ?case using Cons.IH [OF inv] Cons.prems(2) by simp
qed simp

lemma fold_lsu_other_iface:
  assumes "lsu_inv s u" and "idx < length (interfaces s)" and "jdx \<noteq> idx"
  shows "interfaces (lu_inst (fold (lsu_lsa now idx src hdr aid stub) ls u)) ! jdx = interfaces (lu_inst u) ! jdx"
  using assms(1)
proof (induction ls arbitrary: u)
  case (Cons l ls)
  from Cons.prems have "inst_inv (lu_inst u)" by (simp add: lsu_inv_def)
  from Cons.IH [OF lsu_inv_step [OF Cons.prems assms(2)]] lsu_lsa_other_iface [OF assms(3) this] show ?case by simp
qed simp

lemma flood_on_iface_sends:
  assumes "if_state i \<noteq> If_Down" and "Some jdx \<noteq> input_idx"
    and "\<exists>n \<in> snd ` set (neighbors i). n_state n \<ge> Exchange \<and> n_router_id n \<noteq> from"
    and "l \<in> set ls" and "ls_type (header l) = AsExternal \<Longrightarrow> \<not> area_is_stub s (if_area_id i)"
  shows "\<exists>ls'. l \<in> set ls' \<and>
    (sw_if_index i, ALL_SPF_ROUTERS, lsu_packet (router_id s) (if_area_id i) ls') \<in> set (flood_on_iface s input_idx from ls (jdx, i))"
proof -
  let ?ls = "filter (\<lambda>l. (case map_of (areas s) (if_area_id i) of Some a \<Rightarrow> accepts_as_external a | None \<Rightarrow> True) \<or>
    ls_type (header l) \<noteq> AsExternal) ls"
  have l: "l \<in> set ?ls" using assms(4,5) by (auto simp: area_is_stub_def split: option.splits)
  then have "?ls \<noteq> []" by (metis list.set_cases list.distinct(1))
  moreover have "list_ex (\<lambda>n. n_state n \<ge> Exchange \<and> n_router_id n \<noteq> from) (map snd (neighbors i))"
    using assms(3) by (auto simp: list_ex_iff)
  ultimately have "flood_on_iface s input_idx from ls (jdx, i) =
      [(sw_if_index i, ALL_SPF_ROUTERS, lsu_packet (router_id s) (if_area_id i) ?ls)]"
    using assms(1,2) by (simp only: flood_on_iface_def Let_def prod.case if_False if_True not_True_eq_False)
  with l show ?thesis by (intro exI [of _ ?ls]) simp
qed

lemma flood_sends:
  assumes "jdx < length (interfaces s)" and "if_state (interfaces s ! jdx) \<noteq> If_Down" and "Some jdx \<noteq> input_idx"
    and "\<exists>n \<in> snd ` set (neighbors (interfaces s ! jdx)). n_state n \<ge> Exchange \<and> n_router_id n \<noteq> from"
    and "l \<in> set ls" and "ls_type (header l) = AsExternal \<Longrightarrow> \<not> area_is_stub s (if_area_id (interfaces s ! jdx))"
  shows "\<exists>ls'. l \<in> set ls' \<and> (sw_if_index (interfaces s ! jdx), ALL_SPF_ROUTERS,
    lsu_packet (router_id s) (if_area_id (interfaces s ! jdx)) ls') \<in> set (flood_lsas_to_others s input_idx from ls)"
proof -
  have "(jdx, interfaces s ! jdx) \<in> set (enumerate 0 (interfaces s))"
    using assms(1) by (simp add: in_set_enumerate_eq)
  with flood_on_iface_sends [OF assms(2-6)] show ?thesis unfolding flood_lsas_to_others_def by fastforce
qed

lemma area_is_stub_loop:
  assumes "inst_inv s" and "idx < length (interfaces s)"
  shows "area_is_stub (lu_inst (lsu_loop now idx src hdr ls s)) k = area_is_stub s k"
proof -
  let ?aid = "if_area_id (interfaces s ! idx)"
  have "?aid \<in> set (map fst (areas s))" using inst_inv_iface [OF assms(1) nth_mem [OF assms(2)]] by blast
  then obtain a where a: "map_of (areas s) ?aid = Some a" by (metis map_of_eq_None_iff not_None_eq set_map)
  have "map_of (areas (lu_inst (lsu_loop now idx src hdr ls s))) =
      (map_of (areas s))(?aid \<mapsto> a\<lparr>lsdb := install_all now (filter (\<lambda>l. ls_type (header l) \<noteq> AsExternal) ls) (lsdb a)\<rparr>)"
    using fold_lsu_dbs [of "\<lparr>lu_inst = s, lu_acks = [], lu_flood = [], lu_out = [], lu_spf = False, lu_full = False\<rparr>"
        ?aid a now idx src hdr "area_is_stub s ?aid" ls] a by (simp add: lsu_loop_def Let_def)
  with a show ?thesis by (auto simp: area_is_stub_def accepts_as_external_def)
qed

text \<open>\<open>yields Q f\<close>: whenever the step returns, everything it returns satisfies \<open>Q\<close>.\<close>

definition yields :: "('r \<Rightarrow> bool) \<Rightarrow> ('s \<Rightarrow> ('r list \<times> 's) parsed) \<Rightarrow> bool" where
  "yields Q f \<longleftrightarrow> (\<forall>s r s'. f s = Ok (r, s') \<longrightarrow> list_all Q r)"

lemma yieldsD: "yields Q f \<Longrightarrow> f s = Ok (r, s') \<Longrightarrow> list_all Q r"
  unfolding yields_def by blast

lemma yields_each:
  assumes "\<And>x. yields Q (f x)"
  shows "yields Q (each f xs)"
proof -
  have "each f xs s = Ok (r, s') \<Longrightarrow> list_all Q r" for s r s'
  proof (induction xs arbitrary: s r)
    case (Cons x xs)
    from Cons.prems obtain r1 s1 r2 where 1: "f x s = Ok (r1, s1)" "each f xs s1 = Ok (r2, s')" "r = r1 @ r2"
      by (auto simp: bindR_eq_Ok_iff)
    from yieldsD [OF assms 1(1)] Cons.IH [OF 1(2)] show ?case by (simp add: 1(3))
  qed simp
  then show ?thesis by (simp add: yields_def)
qed

abbreviation area_scoped :: "ipv4 \<times> Lsa \<Rightarrow> bool" where
  "area_scoped x \<equiv> ls_type (header (snd x)) \<noteq> AsExternal"

lemma checked_lsa_type:
  assumes "checked_lsa rid ty lsid sq b = Ok (Some l)"
  shows "ls_type (header l) = ty"
proof -
  from assms obtain len buf where
    "lsa_encode \<lparr>header = \<lparr>ls_age = 0, h_options = options_standard, ls_type = ty, link_state_id = lsid,
       advertising_router = rid, ls_sequence_number = sq, ls_checksum = 0, h_length = len\<rparr>, body = b\<rparr> = Ok buf"
    and p: "(case lsa_parse buf of Ok l \<Rightarrow> Ok (Some l) | Err _ \<Rightarrow> Ok None | Panic \<Rightarrow> Panic) =
      (Ok (Some l) :: Lsa option parsed)"
    by (auto simp: checked_lsa_def bindR_eq_Ok_iff)
  with lsa_parse_type [OF this(1)] p show ?thesis by (cases "lsa_parse buf") auto
qed

lemma yields_originate_in_area: "ty \<noteq> AsExternal \<Longrightarrow> yields area_scoped (originate_in_area now aid ty lsid b)"
  by (auto simp: yields_def originate_in_area_def originate_into_def bindR_eq_Ok_iff checked_lsa_type
      split: option.splits)

lemma yields_router_lsas: "yields area_scoped (originate_router_lsas now)"
proof -
  have "yields area_scoped (originate_router_lsa_in now aid)" for aid
    by (auto simp: yields_def originate_router_lsa_in_def Let_def bindR_eq_Ok_iff
        dest!: originate_router_lsa_type [OF _ num_tos_area_links] split: if_splits option.splits)
  then have "yields area_scoped (each (originate_router_lsa_in now) aids)" for aids by (intro yields_each)
  then show ?thesis unfolding yields_def originate_router_lsas_def by blast
qed

lemma yields_network_lsas: "yields area_scoped (originate_network_lsas now)"
proof -
  have "yields area_scoped (\<lambda>s. originate_in_area now (if_area_id i) Network (if_address i) (network_body (router_id s) i) s)"
    for i :: OspfInterface
    using yieldsD [OF yields_originate_in_area [of Network]] by (auto simp: yields_def)
  then have "yields area_scoped (each (\<lambda>i s. originate_in_area now (if_area_id i) Network (if_address i)
      (network_body (router_id s) i) s) is)" for "is" by (intro yields_each)
  then show ?thesis unfolding yields_def originate_network_lsas_def by blast
qed

lemma yields_summary_lsas: "yields area_scoped (originate_summary_lsas now)"
proof -
  note area = yieldsD [OF yields_originate_in_area [of SummaryNetwork]]
  have "yields area_scoped (originate_default_summary now aid)" for aid
    using area by (fastforce simp: yields_def originate_default_summary_def split: option.splits if_splits)
  note d = yieldsD [OF yields_each [OF this]]
  have "yields area_scoped (originate_summary_route now dest rt)" for dest rt
    using area by (fastforce simp: yields_def originate_summary_route_def split: if_splits)
  note r = yieldsD [OF yields_each [OF this]]
  have "yields area_scoped (\<lambda>s. if src = dest \<or> map_of (areas s) dest = None then Ok ([], s)
      else each (originate_summary_route now dest) rs s)" for src dest rs
    using r by (fastforce simp: yields_def split: if_splits)
  note b = yieldsD [OF yields_each [OF this]]
  have "yields area_scoped (case x of (src, routes) \<Rightarrow> \<lambda>s. case routes of None \<Rightarrow> Ok ([], s)
      | Some rs \<Rightarrow> each (\<lambda>dest s. if src = dest \<or> map_of (areas s) dest = None then Ok ([], s)
          else each (originate_summary_route now dest) rs s) ids s)" for x ids
    using b by (fastforce simp: yields_def split: prod.splits option.splits)
  note s = yieldsD [OF yields_each [OF this]]
  show ?thesis
    using d s by (fastforce simp: yields_def originate_summary_lsas_def Let_def bindR_eq_Ok_iff split: if_splits)
qed

text \<open>An Update for an area in \<open>S\<close> carries no Type 5 LSA.\<close>

fun type5_free :: "(ipv4 \<Rightarrow> bool) \<Rightarrow> OspfPacket \<Rightarrow> bool" where
  "type5_free S (LinkStateUpdate h b) \<longleftrightarrow> (S (oh_area_id h) \<longrightarrow> (\<forall>l \<in> set (lsas b). ls_type (header l) \<noteq> AsExternal))"
| "type5_free S _ \<longleftrightarrow> True"

abbreviation all_type5_free :: "(ipv4 \<Rightarrow> bool) \<Rightarrow> response list \<Rightarrow> bool" where
  "all_type5_free S out \<equiv> (\<forall>x \<in> set out. type5_free S (snd (snd x)))"

lemma type5_free_lsu:
  "type5_free S (lsu_packet rid aid ls) \<longleftrightarrow> (S aid \<longrightarrow> (\<forall>l \<in> set ls. ls_type (header l) \<noteq> AsExternal))"
  by (simp add: lsu_packet_def ospf_header_new_def)

lemma flood_type5_free:
  assumes "\<And>k. area_is_stub s k = S k"
  shows "all_type5_free S (flood_lsas_to_others s input_idx from ls)"
proof -
  have "all_type5_free S (flood_on_iface s input_idx from ls (jdx, i))" for jdx i
    by (simp add: flood_on_iface_def Let_def type5_free_lsu assms [symmetric] area_is_stub_def split: option.split)
  then show ?thesis unfolding flood_lsas_to_others_def by fastforce
qed

lemma flood_each_type5_free:
  assumes "list_all area_scoped ls"
  shows "all_type5_free S (flood_each s ls)"
proof -
  have "all_type5_free S (flood_on_iface s None (router_id s) [l] (jdx, i))" if "ls_type (header l) \<noteq> AsExternal" for l jdx i
    using that by (simp add: flood_on_iface_def Let_def type5_free_lsu)
  with assms show ?thesis unfolding flood_each_def flood_lsas_to_others_def list_all_iff by fastforce
qed

lemma reoriginate_type5_free: "reoriginate now s = Ok (out, s') \<Longrightarrow> all_type5_free S out"
  using yieldsD [OF yields_router_lsas] yieldsD [OF yields_network_lsas] yieldsD [OF yields_summary_lsas]
  by (fastforce simp: reoriginate_def bindR_eq_Ok_iff dest: flood_each_type5_free)

lemma lsu_lsa_type5_free:
  assumes "inst_inv (lu_inst u)" and "all_type5_free S (lu_out u)"
  shows "all_type5_free S (lu_out (lsu_lsa now idx src hdr aid stub l u))"
proof (cases "ls_type (header l) = AsExternal \<and> stub \<or> install_lsa now aid l (lu_inst u) = None")
  case True
  with assms(2) show ?thesis by (auto simp: lsu_lsa_def)
next
  case False
  then obtain r s where i: "install_lsa now aid l (lu_inst u) = Some (r, s)" by fastforce
  have ns: "\<not> (ls_type (header l) = AsExternal \<and> stub)" using False by blast
  have inv: "inst_inv s" using install_lsa_inv [OF assms(1) i] by blast
  have own: "ls_type (header (entry_lsa e)) \<noteq> AsExternal"
    if "map_of (areas s) aid = Some a" "lsdb_get (lsdb a) (lsa_key l) = Some e" for a e
  proof -
    have "lsdb_inv (lsdb a)" "key_type (lsa_key l) \<noteq> AsExternal"
      using inst_inv_area [OF inv that(1)] that(2) by (auto simp: db_ok_def)
    with lsdb_inv_get [OF this(1) that(2)] show ?thesis by (simp flip: key_type_lsa_key)
  qed
  show ?thesis
    unfolding lsu_lsa_def if_not_P [OF ns] i
    using assms(2) own by (cases r) (auto simp: Let_def type5_free_lsu split: option.split)
qed

lemma lsu_loop_type5_free:
  assumes "inst_inv s" and "idx < length (interfaces s)"
  shows "all_type5_free S (lu_out (lsu_loop now idx src hdr ls s))"
proof -
  have "lsu_inv s u \<Longrightarrow> all_type5_free S (lu_out u) \<Longrightarrow>
      all_type5_free S (lu_out (fold (lsu_lsa now idx src hdr aid stub) ls u))" for u aid stub
  proof (induction ls arbitrary: u)
    case (Cons l ls)
    from Cons.prems(1) have "inst_inv (lu_inst u)" by (simp add: lsu_inv_def)
    from Cons.IH [OF lsu_inv_step [OF Cons.prems(1) assms(2)] lsu_lsa_type5_free [OF this Cons.prems(2)]]
    show ?case by simp
  qed simp
  from this [of "\<lparr>lu_inst = s, lu_acks = [], lu_flood = [], lu_out = [], lu_spf = False, lu_full = False\<rparr>"]
  show ?thesis using assms(1) by (simp add: lsu_loop_def Let_def lsu_inv_def)
qed

lemma news_sent_on_iface:
  assumes "inst_inv s" and "idx < length (interfaces s)" and "process_lsu now idx src hdr lsu s = Ok (out, s')"
    and "distinct (map lsa_key (lsas lsu))" and "l \<in> set (lsas lsu)"
    and "in_scope (area_is_stub s (if_area_id (interfaces s ! idx))) l"
    and "case lookup_lsa s (if_area_id (interfaces s ! idx)) (lsa_key l) of None \<Rightarrow> True
      | Some e \<Rightarrow> is_more_recent_than (header l) (header (entry_lsa e)) = Greater"
    and "jdx < length (interfaces s)" and "jdx \<noteq> idx" and "if_state (interfaces s ! jdx) \<noteq> If_Down"
    and "\<exists>n \<in> snd ` set (neighbors (interfaces s ! jdx)). n_state n \<ge> Exchange \<and> n_router_id n \<noteq> oh_router_id hdr"
    and "in_scope (area_is_stub s (if_area_id (interfaces s ! jdx))) l"
  shows "\<exists>ls. l \<in> set ls \<and> (sw_if_index (interfaces s ! jdx), ALL_SPF_ROUTERS,
    lsu_packet (router_id s) (if_area_id (interfaces s ! jdx)) ls) \<in> set out"
proof -
  let ?u = "lsu_loop now idx src hdr (lsas lsu) s"
  let ?start = "\<lparr>lu_inst = s, lu_acks = [], lu_flood = [], lu_out = [], lu_spf = False, lu_full = False\<rparr>"
  have u0: "lsu_inv s ?start" using assms(1) by (simp add: lsu_inv_def)
  have u: "lsu_inv s ?u" by (rule lsu_inv_loop [OF assms(1,2)])
  have fl: "l \<in> set (lu_flood ?u)"
    unfolding lsu_loop_def Let_def
    using fold_lsu_flood [OF u0 assms(2) refl assms(1,4) _ assms(6), of now src hdr] assms(5,7) by simp
  have j: "interfaces (lu_inst ?u) ! jdx = interfaces s ! jdx"
    unfolding lsu_loop_def Let_def by (simp add: fold_lsu_other_iface [OF u0 assms(2,9)])
  have rid: "router_id (lu_inst ?u) = router_id s" and len: "jdx < length (interfaces (lu_inst ?u))"
    using u assms(8) by (auto simp: lsu_inv_def dest: same_shape_length)
  have "\<exists>ls'. l \<in> set ls' \<and> (sw_if_index (interfaces s ! jdx), ALL_SPF_ROUTERS,
      lsu_packet (router_id s) (if_area_id (interfaces s ! jdx)) ls') \<in>
      set (flood_lsas_to_others (lu_inst ?u) (Some idx) (oh_router_id hdr) (lu_flood ?u))"
    using flood_sends [OF len, of "Some idx" "oh_router_id hdr" l "lu_flood ?u"] assms(9-12) fl
    by (simp add: j rid area_is_stub_loop [OF assms(1,2)] in_scope_def)
  moreover have "set (flood_lsas_to_others (lu_inst ?u) (Some idx) (oh_router_id hdr) (lu_flood ?u)) \<subseteq> set out"
    using assms(3) fl by (auto simp: process_lsu_def Let_def bindR_eq_Ok_iff split: if_splits)
  ultimately show ?thesis by blast
qed

text \<open>
  C18. Reliable flooding: an LSA of an update that is new to this router, or more recent than its copy, is
  sent to all SPF routers on every other interface that is up and has a neighbor from Exchange on besides
  the sender, in the same area, and for a Type 5 LSA also in every other area that is not a stub. No
  Update that results for a stub area carries a Type 5 LSA.
\<close>

theorem news_are_flooded:
  assumes "inst_inv s" and "idx < length (interfaces s)" and "process_lsu now idx src hdr lsu s = Ok (out, s')"
    and "distinct (map lsa_key (lsas lsu))"
  shows "(\<forall>l \<in> set (lsas lsu). \<forall>jdx < length (interfaces s).
      in_scope (area_is_stub s (if_area_id (interfaces s ! idx))) l \<and>
      (case lookup_lsa s (if_area_id (interfaces s ! idx)) (lsa_key l) of None \<Rightarrow> True
       | Some e \<Rightarrow> is_more_recent_than (header l) (header (entry_lsa e)) = Greater) \<and>
      jdx \<noteq> idx \<and> if_state (interfaces s ! jdx) \<noteq> If_Down \<and>
      (\<exists>n \<in> snd ` set (neighbors (interfaces s ! jdx)). n_state n \<ge> Exchange \<and> n_router_id n \<noteq> oh_router_id hdr) \<and>
      (if ls_type (header l) = AsExternal then \<not> area_is_stub s (if_area_id (interfaces s ! jdx))
       else if_area_id (interfaces s ! jdx) = if_area_id (interfaces s ! idx)) \<longrightarrow>
      (\<exists>ls. l \<in> set ls \<and> (sw_if_index (interfaces s ! jdx), ALL_SPF_ROUTERS,
         lsu_packet (router_id s) (if_area_id (interfaces s ! jdx)) ls) \<in> set out)) \<and>
    (\<forall>(sw, dst, pkt) \<in> set out. type5_free (area_is_stub s) pkt)"
proof (intro conjI ballI allI impI)
  fix l jdx
  assume l: "l \<in> set (lsas lsu)" and j: "jdx < length (interfaces s)" and h: "in_scope (area_is_stub s (if_area_id (interfaces s ! idx))) l \<and>
      (case lookup_lsa s (if_area_id (interfaces s ! idx)) (lsa_key l) of None \<Rightarrow> True
       | Some e \<Rightarrow> is_more_recent_than (header l) (header (entry_lsa e)) = Greater) \<and>
      jdx \<noteq> idx \<and> if_state (interfaces s ! jdx) \<noteq> If_Down \<and>
      (\<exists>n \<in> snd ` set (neighbors (interfaces s ! jdx)). n_state n \<ge> Exchange \<and> n_router_id n \<noteq> oh_router_id hdr) \<and>
      (if ls_type (header l) = AsExternal then \<not> area_is_stub s (if_area_id (interfaces s ! jdx))
       else if_area_id (interfaces s ! jdx) = if_area_id (interfaces s ! idx))"
  then have "in_scope (area_is_stub s (if_area_id (interfaces s ! jdx))) l"
    by (auto simp: in_scope_def split: if_splits)
  with news_sent_on_iface [OF assms l _ _ j] h
  show "\<exists>ls. l \<in> set ls \<and> (sw_if_index (interfaces s ! jdx), ALL_SPF_ROUTERS,
      lsu_packet (router_id s) (if_area_id (interfaces s ! jdx)) ls) \<in> set out" by blast
next
  let ?u = "lsu_loop now idx src hdr (lsas lsu) s"
  let ?i = "interfaces (lu_inst ?u) ! idx"
  obtain re t where re: "(if lu_full ?u then reoriginate now (lu_inst ?u) else Ok ([], lu_inst ?u)) = Ok (re, t)"
    and out: "out = lu_out ?u @
      (if lu_acks ?u \<noteq> [] then [(sw_if_index ?i, src, ack_packet (router_id (lu_inst ?u)) (if_area_id ?i) (lu_acks ?u))] else []) @
      (if lu_flood ?u \<noteq> [] then flood_lsas_to_others (lu_inst ?u) (Some idx) (oh_router_id hdr) (lu_flood ?u) else []) @ re"
    using assms(3) by (auto simp: process_lsu_def Let_def bindR_eq_Ok_iff split del: if_split)
  have "all_type5_free (area_is_stub s) re"
    using re reoriginate_type5_free [of now "lu_inst ?u" re t "area_is_stub s"] by (simp split: if_splits)
  moreover note lsu_loop_type5_free [OF assms(1,2), where S = "area_is_stub s" and now = now and src = src and hdr = hdr and ls = "lsas lsu"]
    flood_type5_free [of "lu_inst ?u" "area_is_stub s" "Some idx" "oh_router_id hdr" "lu_flood ?u",
      OF area_is_stub_loop [OF assms(1,2)]]
  ultimately have "all_type5_free (area_is_stub s) out"
    unfolding out set_append ball_Un by (simp add: ack_packet_def)
  then show "case x of (sw, dst, pkt) \<Rightarrow> type5_free (area_is_stub s) pkt" if "x \<in> set out" for x
    using that by (auto split: prod.split)
qed

section \<open>Witnesses\<close>

theorem inst_reach_inv_witness: "inst_inv (schedule_spf 5 (instance_new 0 example_config))"
  by (rule inst_reach_inv) (intro inst_reach.schedule inst_reach.new)

definition priority_config :: "unit OspfDaemonConfig" where
  "priority_config = example_config\<lparr>dc_interfaces := map (\<lambda>c. c\<lparr>ic_priority := 7\<rparr>) (dc_interfaces example_config)\<rparr>"

theorem reload_keeps_adjacencies_witness:
  "\<exists>s'. reload_config 9 priority_config (exstart_router 1 2) = Ok (True, s') \<and>
     map if_priority (interfaces s') = [7] \<and> map neighbors (interfaces s') = map neighbors (interfaces (exstart_router 1 2))"
proof -
  obtain i where i: "interfaces (exstart_router 1 2) = [i]" "if_name i = ''e0''" "if_cost i = 10" "if_passive i = False" "if_priority i = 1"
    by (simp add: exstart_router_def update_iface_def instance_new_def Let_def example_config_def interface_of_config_def
        interface_new_def)
  obtain c where c: "dc_interfaces priority_config = [c]" "ic_name c = ''e0''" "ic_cost c = 10" "\<not> ic_passive c" "ic_priority c = 7"
    by (simp add: priority_config_def example_config_def)
  have "summary_addresses (exstart_router 1 2) = []" "redistribute (exstart_router 1 2) = []"
      "dc_summary_addresses priority_config = []" "dc_redistribute priority_config = []"
    by (simp_all add: exstart_router_def update_iface_def instance_new_def Let_def example_config_def priority_config_def)
  note none = this
  have one: "reload_one c ((False, False), [i]) = ((True, False), [snd (reload_interface c i)])"
    by (simp add: reload_one_def reload_interface_def i(2-) c(2-) Let_def)
  have "reload_config 9 priority_config (exstart_router 1 2) =
      Ok (True, (exstart_router 1 2)\<lparr>interfaces := [snd (reload_interface c i)]\<rparr>)"
    by (simp add: reload_config_def i(1) c(1) one none summaries_differ_def redistribute_differ_def Let_def)
  then obtain s' where r: "reload_config 9 priority_config (exstart_router 1 2) = Ok (True, s')" by blast
  have "distinct (map if_name (interfaces (exstart_router 1 2)))" "distinct (map ic_name (dc_interfaces priority_config))"
    by (simp_all add: i c)
  note k = reload_keeps_adjacencies [OF exstart_router_inv r this]
  from k have "map if_priority (interfaces s') = map if_priority (map (reconfigured (dc_interfaces priority_config)) (interfaces (exstart_router 1 2)))"
    by simp
  then have "map if_priority (interfaces s') = [7]" by (simp add: i c reconfigured_def)
  with r k [THEN conjunct2, THEN conjunct1] show ?thesis by (intro exI conjI)
qed

text \<open>A router with a second interface, where an adjacency is in Exchange.\<close>

definition two_links :: "unit OspfInstance" where
  "two_links = (exstart_router 1 2)\<lparr>interfaces := interfaces (exstart_router 1 2) @
     [(interfaces (exstart_router 1 2) ! 0)\<lparr>sw_if_index := 8, neighbors := [(3, (neighbor_new 0 3 0x0A000003)\<lparr>n_state := Exchange\<rparr>)]\<rparr>]\<rparr>"

lemma two_links_inv: "inst_inv two_links"
proof -
  have "inst_inv (exstart_router 1 2)" by (rule exstart_router_inv)
  then have "\<forall>i \<in> set (interfaces two_links). iface_ok i \<and> if_area_id i \<in> set (map fst (areas (exstart_router 1 2)))"
    by (simp add: two_links_def inst_inv_def exstart_router_neighbor iface_ok_def nbr_ok_def neighbor_new_def)
  from inst_inv_interfaces [OF exstart_router_inv this] show ?thesis by (simp add: two_links_def)
qed

theorem news_are_flooded_witness:
  "\<exists>out s' ls. process_lsu 7 0 0x0A000002 (ospf_header_new PT_LinkStateUpdate 2 0) \<lparr>lsas = [example_lsa]\<rparr> two_links = Ok (out, s') \<and>
     example_lsa \<in> set ls \<and> (8, ALL_SPF_ROUTERS, lsu_packet 1 0 ls) \<in> set out"
proof -
  have len: "length (interfaces two_links) = 2" "link_bound (interfaces two_links) \<le> 5459"
    by (simp_all add: two_links_def exchange_eval link_bound_def)
  then obtain out s' where p: "process_lsu 7 0 0x0A000002 (ospf_header_new PT_LinkStateUpdate 2 0) \<lparr>lsas = [example_lsa]\<rparr> two_links = Ok (out, s')"
    using process_lsu_total [OF two_links_inv len(2), of 0 7 "0x0A000002" "ospf_header_new PT_LinkStateUpdate 2 0" "\<lparr>lsas = [example_lsa]\<rparr>"]
    by auto
  have ifs: "interfaces two_links ! Suc 0 = (interfaces (exstart_router 1 2) ! 0)
      \<lparr>sw_if_index := 8, neighbors := [(3, (neighbor_new 0 3 0x0A000003)\<lparr>n_state := Exchange\<rparr>)]\<rparr>"
      "interfaces two_links ! 0 = interfaces (exstart_router 1 2) ! 0" "router_id two_links = 1"
      "if_state (interfaces (exstart_router 1 2) ! 0) = If_PointToPoint"
      "areas two_links = [(0, area_new 0 Normal 1)]"
    by (simp_all add: two_links_def exstart_router_neighbor nth_append) (simp_all add: exchange_eval)
  have "lookup_lsa two_links 0 (lsa_key example_lsa) = None"
    by (simp add: lookup_lsa_def ifs area_new_def example_lsa_def key_type_lsa_key)
  moreover have "ls_type (header example_lsa) = Network" "oh_router_id (ospf_header_new PT_LinkStateUpdate 2 0) = 2"
    by (simp_all add: example_lsa_def ospf_header_new_def)
  ultimately have "\<exists>ls. example_lsa \<in> set ls \<and> (8, ALL_SPF_ROUTERS, lsu_packet 1 0 ls) \<in> set out"
    using news_are_flooded [OF two_links_inv _ p, THEN conjunct1, rule_format, of example_lsa "Suc 0"]
    by (simp add: len ifs exstart_router_neighbor in_scope_def neighbor_new_def state_order)
  with p show ?thesis by blast
qed

end
