(* ===== verification/Exchange_V3.thy ===== *)
theory Exchange_V3
  imports Instance_V3
begin

text \<open>
  \<^verbatim>\<open>src/instance_v3.rs\<close>, the Database Description exchange of OSPFv3: \<^verbatim>\<open>process_dd\<close>, \<^verbatim>\<open>finish_dd\<close>, \<^verbatim>\<open>build_dd\<close>
  and \<^verbatim>\<open>emit_pending_dds_v3\<close>. Two neighbors that run these handlers against each other, over the bytes they
  send, complete the exchange in a number of rounds given by the sizes of their databases, and each
  requests exactly what it lacks.
\<close>

section \<open>Receiving a description\<close>

text \<open>
  \<^verbatim>\<open>(Instant::now().elapsed().as_secs() as u32).max(1)\<close> is 1: the instant is taken and its age read at once.
\<close>

definition initial_dd_seq :: u32 where
  "initial_dd_seq = 1"

definition dd_restarts :: "DbDescV3Packet \<Rightarrow> NeighborV3 \<Rightarrow> bool" where
  "dd_restarts dd n \<longleftrightarrow> dd_v3_is_init dd \<and> dd_v3_has_more dd \<and> dd_v3_is_master dd \<and> dv_lsa_headers dd = [] \<and>
     nb3_state n > ExStartV3"

definition dd_restart :: "ipv4 \<Rightarrow> ipv4 \<Rightarrow> NeighborV3 \<Rightarrow> NeighborV3" where
  "dd_restart rid src n =
     n\<lparr>nb3_state := ExStartV3, nb3_dd_seq := initial_dd_seq, nb3_dd_master := rid > src, nb3_summary_tx := [],
       nb3_summary_recv := [], nb3_peer_done := False, nb3_send_final := False, nb3_request_list := []\<rparr>"

text \<open>The negotiation in ExStart: the neighbor in Exchange, or nothing when the packet does not settle it.\<close>

definition dd_negotiate :: "ipv4 \<Rightarrow> ipv4 \<Rightarrow> DbDescV3Packet \<Rightarrow> LsaV3Header list \<Rightarrow> NeighborV3 \<Rightarrow> NeighborV3 option" where
  "dd_negotiate rid src dd our_headers n =
     (if src > rid \<and> dd_v3_is_init dd \<and> dd_v3_has_more dd \<and> dd_v3_is_master dd \<and> dv_lsa_headers dd = [] then
        Some (n\<lparr>nb3_dd_master := False, nb3_dd_seq := dv_sequence_number dd, nb3_state := ExchangeV3,
                nb3_summary_tx := our_headers, nb3_response_pending := True\<rparr>)
      else if src < rid \<and> \<not> dd_v3_is_init dd \<and> \<not> dd_v3_is_master dd \<and> dv_sequence_number dd = nb3_dd_seq n then
        Some (n\<lparr>nb3_dd_master := True, nb3_state := ExchangeV3, nb3_summary_tx := our_headers, nb3_response_pending := True\<rparr>)
      else None)"

definition dd_exchange_v3 :: "DbDescV3Packet \<Rightarrow> NeighborV3 \<Rightarrow> NeighborV3" where
  "dd_exchange_v3 dd n =
     (if nb3_state n = ExchangeV3 then
        n\<lparr>nb3_summary_recv := nb3_summary_recv n @ dv_lsa_headers dd,
          nb3_peer_done := nb3_peer_done n \<or> \<not> dd_v3_has_more dd,
          nb3_dd_seq := (if nb3_dd_master n then nb3_dd_seq n + 1 else dv_sequence_number dd),
          nb3_response_pending := True\<rparr>
      else n)"

definition process_dd_neighbor :: "ipv4 \<Rightarrow> ipv4 \<Rightarrow> DbDescV3Packet \<Rightarrow> LsaV3Header list \<Rightarrow> NeighborV3 \<Rightarrow> NeighborV3" where
  "process_dd_neighbor rid src dd our_headers n =
     (let n = (if dd_restarts dd n then dd_restart rid src n else n);
          n = (if nb3_state n = TwoWayV3 then
                 n\<lparr>nb3_state := ExStartV3, nb3_dd_seq := initial_dd_seq, nb3_dd_master := rid > src\<rparr>
               else n)
      in if nb3_state n = ExStartV3 then
           (case dd_negotiate rid src dd our_headers n of None \<Rightarrow> n | Some n \<Rightarrow> dd_exchange_v3 dd n)
         else dd_exchange_v3 dd n)"

definition process_dd_v3 :: "ipv4 \<Rightarrow> ipv4 \<Rightarrow> DbDescV3Packet \<Rightarrow> LsaV3Header list \<Rightarrow> InterfaceV3 \<Rightarrow> InterfaceV3" where
  "process_dd_v3 rid src dd our_headers i =
     i\<lparr>if3_neighbors := modify_key (process_dd_neighbor rid src dd our_headers) src (if3_neighbors i)\<rparr>"

section \<open>The end of the exchange\<close>

definition same_lsa3 :: "LsaV3Header \<Rightarrow> LsaV3Header \<Rightarrow> bool" where
  "same_lsa3 a b \<longleftrightarrow> l3_type a = l3_type b \<and> l3_lsid a = l3_lsid b \<and> l3_adv a = l3_adv b"

text \<open>Whether a header described by the neighbor has to be requested: it is not held, or held with a lower sequence number.\<close>

definition dd_needs :: "LsaV3Header list \<Rightarrow> LsaV3Header \<Rightarrow> bool" where
  "dd_needs our_headers h =
     (case List.find (\<lambda>x. same_lsa3 x h) our_headers of None \<Rightarrow> True | Some x \<Rightarrow> sint (l3_seq h) > sint (l3_seq x))"

definition finish_dd :: "LsaV3Header list \<Rightarrow> NeighborV3 \<Rightarrow> NeighborV3" where
  "finish_dd our_headers n =
     (let req = filter (dd_needs our_headers) (nb3_summary_recv n);
          n = n\<lparr>nb3_request_list := req\<rparr>
      in if req = [] then n\<lparr>nb3_state := FullV3\<rparr> else n\<lparr>nb3_state := LoadingV3, nb3_lsr_pending := True\<rparr>)"

section \<open>Sending a description\<close>

definition dd_max_headers :: "u16 \<Rightarrow> nat" where
  "dd_max_headers mtu = (unat mtu - (OSPFV3_HEADER_LEN + 12)) div 20"

text \<open>The flags and headers of the next packet, and the neighbor with those headers taken off its list.\<close>

definition dd_contents_v3 :: "u16 \<Rightarrow> NeighborV3 \<Rightarrow> u8 \<times> LsaV3Header list \<times> NeighborV3" where
  "dd_contents_v3 mtu n =
     (if nb3_state n = ExStartV3 then (DD_V3_FLAG_I OR DD_V3_FLAG_M OR DD_V3_FLAG_MS, [], n)
      else if nb3_state n = ExchangeV3 then
        (let k = min (length (nb3_summary_tx n)) (dd_max_headers mtu);
             headers = take k (nb3_summary_tx n);
             n = n\<lparr>nb3_summary_tx := drop k (nb3_summary_tx n)\<rparr>;
             flags = (if nb3_summary_tx n \<noteq> [] then DD_V3_FLAG_M else 0) OR (if nb3_dd_master n then DD_V3_FLAG_MS else 0)
         in (flags, headers, n))
      else (0, [], n))"

definition next_dd_v3 :: "instant \<Rightarrow> u16 \<Rightarrow> NeighborV3 \<Rightarrow> DbDescV3Packet \<times> NeighborV3" where
  "next_dd_v3 now mtu n =
     (let (flags, headers, n) = dd_contents_v3 mtu n;
          dd = \<lparr>dv_options = options_v3_standard, dv_interface_mtu = mtu, dv_flags = flags,
                dv_sequence_number = nb3_dd_seq n, dv_lsa_headers = headers\<rparr>
      in (dd, n\<lparr>nb3_send_final := False, nb3_last_dd_tx := Some dd, nb3_last_dd_sent := now, nb3_response_pending := False\<rparr>))"

definition build_dd_v3 :: "instant \<Rightarrow> ipv4 \<Rightarrow> ipv4 \<Rightarrow> u8 \<Rightarrow> u16 \<Rightarrow> NeighborV3 \<Rightarrow> (u8 list \<times> NeighborV3) parsed3" where
  "build_dd_v3 now rid aid inst mtu n =
     (let (dd, n) = next_dd_v3 now mtu n;
          bytes = dd_v3_encode dd
      in bindR (ospfv3_total_length (length bytes)) (\<lambda>len.
         Ok (ospfv3_header_encode ((ospfv3_header_new V3_DatabaseDescription rid aid)\<lparr>h3_packet_length := len,
               h3_instance_id := inst\<rparr>) @ bytes, n)))"

definition RXMT_V3 :: nat where
  "RXMT_V3 = 5000"

definition dd_due_v3 :: "instant \<Rightarrow> NeighborV3 \<Rightarrow> bool" where
  "dd_due_v3 now n =
     (case nb3_state n of
        ExStartV3 \<Rightarrow> nb3_last_dd_tx n = None \<or> saturating_duration_since now (nb3_last_dd_sent n) \<ge> RXMT_V3
      | ExchangeV3 \<Rightarrow> nb3_response_pending n \<or> (nb3_dd_master n \<and> nb3_summary_tx n \<noteq> []) \<or>
          saturating_duration_since now (nb3_last_dd_sent n) \<ge> RXMT_V3
      | LoadingV3 \<Rightarrow> nb3_send_final n
      | FullV3 \<Rightarrow> nb3_send_final n
      | _ \<Rightarrow> False)"

text \<open>One candidate: the packet, whether the exchange has ended with it, and the neighbor.\<close>

definition emit_dd_v3 :: "instant \<Rightarrow> ipv4 \<Rightarrow> ipv4 \<Rightarrow> u8 \<Rightarrow> LsaV3Header list \<Rightarrow> NeighborV3 \<Rightarrow> (u8 list \<times> bool \<times> NeighborV3) parsed3" where
  "emit_dd_v3 now rid aid inst our_headers n =
     (let n = (if nb3_state n = ExStartV3 \<and> nb3_dd_seq n = 0 then n\<lparr>nb3_dd_seq := initial_dd_seq\<rparr> else n)
      in bindR (build_dd_v3 now rid aid inst 1500 n) (\<lambda>(bytes, n).
         if nb3_state n = ExchangeV3 \<and> nb3_peer_done n \<and> nb3_summary_tx n = [] then Ok (bytes, True, finish_dd our_headers n)
         else Ok (bytes, False, n)))"

fun emit_dds :: "instant \<Rightarrow> ipv4 \<Rightarrow> LsaV3Header list \<Rightarrow> InterfaceV3 \<Rightarrow> (ipv4 \<times> NeighborV3) list \<Rightarrow>
    (TxPacketV3 list \<times> bool \<times> (ipv4 \<times> NeighborV3) list) parsed3" where
  "emit_dds now rid our_headers i [] = Ok ([], False, [])"
| "emit_dds now rid our_headers i ((nid, n) # m) =
     (if dd_due_v3 now n then
        bindR (emit_dd_v3 now rid (if3_area_id i) (if3_instance_id i) our_headers n) (\<lambda>(bytes, finished, n').
        bindR (emit_dds now rid our_headers i m) (\<lambda>(out, refresh, m').
        Ok (\<lparr>tx3_sw_if_index = io3_sw_if_index (if3_io i), tx3_src_addr = io3_link_local (if3_io i),
             tx3_dst_addr = nb3_link_local n', tx3_data = bytes\<rparr> # out, finished \<or> refresh, (nid, n') # m')))
      else bindR (emit_dds now rid our_headers i m) (\<lambda>(out, refresh, m'). Ok (out, refresh, (nid, n) # m')))"

definition emit_dds_iface ::
  "instant \<Rightarrow> ipv4 \<Rightarrow> LsaV3Header list \<Rightarrow> u32 \<Rightarrow> InterfaceV3 \<Rightarrow> (TxPacketV3 list \<times> InterfaceV3) parsed3" where
  "emit_dds_iface now rid our_headers sw i =
     (if if3_state i = IfDownV3 then Ok ([], i)
      else bindR (emit_dds now rid our_headers i (if3_neighbors i)) (\<lambda>(out, refresh, m).
           Ok (out, i\<lparr>if3_neighbors := m, if3_needs_refresh := if3_needs_refresh i \<or> refresh\<rparr>)))"

definition emit_pending_dds_v3 :: "instant \<Rightarrow> 'c InstanceV3 \<Rightarrow> (TxPacketV3 list \<times> 'c InstanceV3) parsed3" where
  "emit_pending_dds_v3 now s =
     bindR (each3 (emit_dds_iface now (i3_router_id s) (lsdb3_headers (i3_lsdb s))) (i3_interfaces s)) (\<lambda>(out, m).
     Ok (out, s\<lparr>i3_interfaces := m\<rparr>))"

section \<open>Two ends of an exchange\<close>

text \<open>The body of a received packet, as \<^verbatim>\<open>handle_rx\<close> cuts it out: a slice that ends before the header panics.\<close>

definition rx_body :: "Ospfv3Header \<Rightarrow> u8 list \<Rightarrow> u8 list parsed3" where
  "rx_body h data = slice data OSPFV3_HEADER_LEN (min (unat (h3_packet_length h)) (length data))"

text \<open>
  One end of an adjacency: its router id, the headers it describes, the headers it holds, and its record of the other end.
\<close>

record DdEnd =
  de_router_id :: ipv4
  de_shown :: "LsaV3Header list"
  de_held :: "LsaV3Header list"
  de_neighbor :: NeighborV3

definition receive_dd :: "u8 list \<Rightarrow> DdEnd \<Rightarrow> DdEnd parsed3" where
  "receive_dd data e =
     bindR (ospfv3_header_parse data) (\<lambda>h.
     bindR (rx_body h data) (\<lambda>body.
     bindR (dd_v3_parse body) (\<lambda>dd.
     Ok (e\<lparr>de_neighbor := process_dd_neighbor (de_router_id e) (h3_router_id h) dd (de_shown e) (de_neighbor e)\<rparr>))))"

text \<open>One end emits what it has to send, and the other receives it.\<close>

definition hand_over :: "instant \<Rightarrow> ipv4 \<Rightarrow> u8 \<Rightarrow> DdEnd \<times> DdEnd \<Rightarrow> (DdEnd \<times> DdEnd) parsed3" where
  "hand_over now aid inst = (\<lambda>(a, b).
     (if dd_due_v3 now (de_neighbor a) then
        bindR (emit_dd_v3 now (de_router_id a) aid inst (de_held a) (de_neighbor a)) (\<lambda>(data, _, n).
        bindR (receive_dd data b) (\<lambda>b. Ok (a\<lparr>de_neighbor := n\<rparr>, b)))
      else Ok (a, b)))"

definition dd_round :: "ipv4 \<Rightarrow> u8 \<Rightarrow> instant \<Rightarrow> DdEnd \<times> DdEnd \<Rightarrow> (DdEnd \<times> DdEnd) parsed3" where
  "dd_round aid inst now ends =
     bindR (hand_over now aid inst ends) (\<lambda>(a, b). bindR (hand_over now aid inst (b, a)) (\<lambda>(b, a). Ok (a, b)))"

fun dd_rounds :: "ipv4 \<Rightarrow> u8 \<Rightarrow> instant list \<Rightarrow> DdEnd \<times> DdEnd \<Rightarrow> (DdEnd \<times> DdEnd) parsed3" where
  "dd_rounds aid inst [] ends = Ok ends"
| "dd_rounds aid inst (now # ts) ends = bindR (dd_round aid inst now ends) (dd_rounds aid inst ts)"

section \<open>What one end hears of the other\<close>

lemma dd_max_headers_1500 [simp]: "dd_max_headers 1500 = 73"
  by (simp add: dd_max_headers_def OSPFV3_HEADER_LEN_def)

lemma length_dd_v3_encode: "length (dd_v3_encode dd) = 12 + 20 * length (dv_lsa_headers dd)"
proof -
  have "length (concat (map lsa_v3_header_encode hs)) = 20 * length hs" for hs
    using header3_codec.length_enc by (induction hs) (simp_all add: LSA_V3_HEADER_LEN_def)
  then show ?thesis by (simp add: dd_v3_encode_def be_bytes_defs)
qed

lemma next_dd_headers: "length (dv_lsa_headers (fst (next_dd_v3 now 1500 n))) \<le> 73"
  by (simp add: next_dd_v3_def dd_contents_v3_def Let_def split: prod.split)

lemma next_dd_options: "dv_options (fst (next_dd_v3 now mtu n)) = options_v3_standard"
  by (simp add: next_dd_v3_def Let_def split: prod.split)

text \<open>The state of the sender before and after a packet.\<close>

definition seeded :: "NeighborV3 \<Rightarrow> NeighborV3" where
  "seeded n = (if nb3_state n = ExStartV3 \<and> nb3_dd_seq n = 0 then n\<lparr>nb3_dd_seq := initial_dd_seq\<rparr> else n)"

definition concluded :: "LsaV3Header list \<Rightarrow> NeighborV3 \<Rightarrow> NeighborV3" where
  "concluded held n =
     (if nb3_state n = ExchangeV3 \<and> nb3_peer_done n \<and> nb3_summary_tx n = [] then finish_dd held n else n)"

lemma receive_dd_bytes:
  assumes "length (dv_lsa_headers dd) \<le> 73" and "dv_options dd = options_v3_standard"
    and "unat len = 16 + length (dd_v3_encode dd)"
  shows "receive_dd (ospfv3_header_encode ((ospfv3_header_new V3_DatabaseDescription rid aid)\<lparr>h3_packet_length := len,
        h3_instance_id := inst\<rparr>) @ dd_v3_encode dd) e =
     Ok (e\<lparr>de_neighbor := process_dd_neighbor (de_router_id e) rid dd (de_shown e) (de_neighbor e)\<rparr>)"
proof -
  let ?h = "(ospfv3_header_new V3_DatabaseDescription rid aid)\<lparr>h3_packet_length := len, h3_instance_id := inst\<rparr>"
  have "ospfv3_header_parse (ospfv3_header_encode ?h @ dd_v3_encode dd) = Ok ?h"
    by (rule ospfv3_header_round_trip) (simp add: ospfv3_header_new_def)
  moreover have l: "length (ospfv3_header_encode ?h) = 16" by (simp add: ospfv3_header_encode_def be_bytes_defs)
  have "rx_body ?h (ospfv3_header_encode ?h @ dd_v3_encode dd) = Ok (dd_v3_encode dd)"
    using assms(3) l by (simp add: rx_body_def slice_def OSPFV3_HEADER_LEN_def)
  moreover have "dd_v3_parse (dd_v3_encode dd) = Ok dd"
    by (rule dd_v3_round_trip) (simp add: assms(2) options_v3_standard_def)
  ultimately show ?thesis by (simp add: receive_dd_def ospfv3_header_new_def)
qed

lemma hand_over_due:
  fixes now :: instant and a b :: DdEnd
  defines "step \<equiv> next_dd_v3 now 1500 (seeded (de_neighbor a))"
  assumes "dd_due_v3 now (de_neighbor a)"
  shows "hand_over now aid inst (a, b) =
    Ok (a\<lparr>de_neighbor := concluded (de_held a) (snd step)\<rparr>,
        b\<lparr>de_neighbor := process_dd_neighbor (de_router_id b) (de_router_id a) (fst step) (de_shown b) (de_neighbor b)\<rparr>)"
proof -
  obtain dd n where step: "step = (dd, n)" by (cases step)
  have dd: "length (dv_lsa_headers dd) \<le> 73" "dv_options dd = options_v3_standard"
    using next_dd_headers [of now "seeded (de_neighbor a)"] next_dd_options [of now 1500 "seeded (de_neighbor a)"] step
    by (simp_all add: step_def)
  define len :: u16 where "len = word_of_nat (16 + length (dd_v3_encode dd))"
  have len: "unat len = 16 + length (dd_v3_encode dd)"
    using dd(1) by (simp add: len_def unat_of_nat length_dd_v3_encode del: of_nat_add)
  have emit: "emit_dd_v3 now (de_router_id a) aid inst (de_held a) (de_neighbor a) =
      Ok (ospfv3_header_encode ((ospfv3_header_new V3_DatabaseDescription (de_router_id a) aid)\<lparr>h3_packet_length := len,
            h3_instance_id := inst\<rparr>) @ dd_v3_encode dd,
          nb3_state n = ExchangeV3 \<and> nb3_peer_done n \<and> nb3_summary_tx n = [], concluded (de_held a) n)"
    using dd(1) step unfolding step_def
    by (simp add: emit_dd_v3_def build_dd_v3_def ospfv3_total_length_def OSPFV3_HEADER_LEN_def length_dd_v3_encode
        concluded_def Let_def len_def flip: seeded_def)
  show ?thesis
    using assms(2) by (simp add: hand_over_def emit receive_dd_bytes [OF dd len] step)
qed

lemma hand_over_idle: "\<not> dd_due_v3 now (de_neighbor a) \<Longrightarrow> hand_over now aid inst (a, b) = Ok (a, b)"
  by (simp add: hand_over_def)

section \<open>Progress\<close>

lemmas dd_flag_defs = dd_v3_is_init_def dd_v3_has_more_def dd_v3_is_master_def DD_V3_FLAG_I_def DD_V3_FLAG_M_def DD_V3_FLAG_MS_def

text \<open>An end in Exchange, with what is left to describe, what has been heard, and whether the other end is done.\<close>

definition exchanging :: "bool \<Rightarrow> LsaV3Header list \<Rightarrow> LsaV3Header list \<Rightarrow> bool \<Rightarrow> NeighborV3 \<Rightarrow> bool" where
  "exchanging mst tx recv pd n \<longleftrightarrow> nb3_state n = ExchangeV3 \<and> nb3_dd_master n = mst \<and> nb3_summary_tx n = tx \<and>
     nb3_summary_recv n = recv \<and> nb3_peer_done n = pd \<and> \<not> nb3_send_final n"

text \<open>An end whose exchange is over: it requests what it lacks of what the other described.\<close>

definition settled :: "LsaV3Header list \<Rightarrow> LsaV3Header list \<Rightarrow> NeighborV3 \<Rightarrow> bool" where
  "settled held shown n \<longleftrightarrow> nb3_request_list n = filter (dd_needs held) shown \<and>
     nb3_state n = (if filter (dd_needs held) shown = [] then FullV3 else LoadingV3) \<and> \<not> nb3_send_final n"

lemma exchanging_sends:
  assumes "exchanging mst tx recv pd n"
  shows "dv_lsa_headers (fst (next_dd_v3 now 1500 (seeded n))) = take 73 tx"
    and "dd_v3_has_more (fst (next_dd_v3 now 1500 (seeded n))) \<longleftrightarrow> drop 73 tx \<noteq> []"
    and "\<not> dd_v3_is_init (fst (next_dd_v3 now 1500 (seeded n)))"
    and "dd_v3_is_master (fst (next_dd_v3 now 1500 (seeded n))) \<longleftrightarrow> mst"
    and "dv_sequence_number (fst (next_dd_v3 now 1500 (seeded n))) = nb3_dd_seq n"
    and "exchanging mst (drop 73 tx) recv pd (snd (next_dd_v3 now 1500 (seeded n)))"
  using assms
  by (auto simp: exchanging_def seeded_def next_dd_v3_def dd_contents_v3_def Let_def dd_flag_defs min_def)

lemma exchanging_concludes:
  assumes "exchanging mst tx recv pd n"
  shows "pd \<Longrightarrow> tx = [] \<Longrightarrow> settled held recv (concluded held n)"
    and "\<not> pd \<or> tx \<noteq> [] \<Longrightarrow> concluded held n = n"
  using assms by (auto simp: exchanging_def settled_def concluded_def finish_dd_def Let_def)

lemma exchanging_receives:
  assumes "exchanging mst tx recv pd n" and "\<not> dd_v3_is_init dd"
  shows "exchanging mst tx (recv @ dv_lsa_headers dd) (pd \<or> \<not> dd_v3_has_more dd) (process_dd_neighbor rid src dd ours n)"
    and "nb3_response_pending (process_dd_neighbor rid src dd ours n)"
  using assms by (auto simp: exchanging_def process_dd_neighbor_def dd_restarts_def dd_exchange_v3_def Let_def)

lemma settled_receives:
  "settled held shown n \<Longrightarrow> \<not> dd_v3_is_init dd \<Longrightarrow> process_dd_neighbor rid src dd ours n = n"
  by (auto simp: settled_def process_dd_neighbor_def dd_restarts_def dd_exchange_v3_def Let_def split: if_splits)

lemma exchanging_due: "exchanging mst tx recv pd n \<Longrightarrow> nb3_response_pending n \<Longrightarrow> dd_due_v3 now n"
  by (simp add: exchanging_def dd_due_v3_def)

lemma settled_not_due: "settled held shown n \<Longrightarrow> \<not> dd_due_v3 now n"
  by (auto simp: settled_def dd_due_v3_def split: if_splits)

text \<open>
  Both ends in Exchange at the start of a round, master first: what is left is \<open>X\<close> and \<open>Y\<close>, and the rest has been heard.
\<close>

definition dd_phase :: "LsaV3Header list \<Rightarrow> LsaV3Header list \<Rightarrow> DdEnd \<times> DdEnd \<Rightarrow> bool" where
  "dd_phase X Y = (\<lambda>(m, s). \<exists>R R' pd.
     exchanging True X R (Y = []) (de_neighbor m) \<and> nb3_response_pending (de_neighbor m) \<and> de_shown s = R @ Y \<and>
     exchanging False Y R' pd (de_neighbor s) \<and> de_shown m = R' @ X \<and> (pd \<longrightarrow> X = []))"

definition dd_over :: "DdEnd \<times> DdEnd \<Rightarrow> bool" where
  "dd_over = (\<lambda>(m, s). settled (de_held m) (de_shown s) (de_neighbor m) \<and> settled (de_held s) (de_shown m) (de_neighbor s))"

text \<open>The slave is done, the master has one empty description left to send.\<close>

definition dd_last :: "DdEnd \<times> DdEnd \<Rightarrow> bool" where
  "dd_last = (\<lambda>(m, s). exchanging True [] (de_shown s) True (de_neighbor m) \<and> nb3_response_pending (de_neighbor m) \<and>
     settled (de_held s) (de_shown m) (de_neighbor s))"

text \<open>The parts of an end that an exchange never changes.\<close>

definition same_ends :: "DdEnd \<times> DdEnd \<Rightarrow> DdEnd \<times> DdEnd \<Rightarrow> bool" where
  "same_ends = (\<lambda>(m, s) (m', s'). de_router_id m' = de_router_id m \<and> de_shown m' = de_shown m \<and> de_held m' = de_held m \<and>
     de_router_id s' = de_router_id s \<and> de_shown s' = de_shown s \<and> de_held s' = de_held s)"

lemma dd_over_stays: "dd_over ends \<Longrightarrow> dd_rounds aid inst ts ends = Ok ends"
  by (induction ts) (auto simp: dd_over_def dd_round_def hand_over_idle settled_not_due)

lemma dd_last_round:
  assumes "dd_last ends"
  shows "\<exists>ends'. dd_round aid inst now ends = Ok ends' \<and> dd_over ends' \<and> same_ends ends ends'"
proof -
  obtain m s where ends: "ends = (m, s)" by (cases ends)
  from assms have m: "exchanging True [] (de_shown s) True (de_neighbor m)" "nb3_response_pending (de_neighbor m)"
    and s: "settled (de_held s) (de_shown m) (de_neighbor s)" by (simp_all add: dd_last_def ends)
  note sent = exchanging_sends [OF m(1), of now]
  have "settled (de_held m) (de_shown s) (concluded (de_held m) (snd (next_dd_v3 now 1500 (seeded (de_neighbor m)))))"
    using exchanging_concludes(1) [OF sent(6)] by simp
  then show ?thesis
    using s by (simp add: ends dd_round_def hand_over_due exchanging_due [OF m] settled_receives [OF s sent(3)] hand_over_idle
        settled_not_due dd_over_def same_ends_def)
qed

lemma dd_phase_round:
  assumes "dd_phase X Y ends"
  shows "\<exists>ends'. dd_round aid inst now ends = Ok ends' \<and> same_ends ends ends' \<and>
    (if drop 73 X = [] \<and> drop 73 Y = [] then if Y = [] then dd_over ends' else dd_last ends'
     else dd_phase (drop 73 X) (drop 73 Y) ends')"
proof -
  obtain m s where ends: "ends = (m, s)" by (cases ends)
  from assms obtain R R' pd where m: "exchanging True X R (Y = []) (de_neighbor m)" "nb3_response_pending (de_neighbor m)"
    and s: "exchanging False Y R' pd (de_neighbor s)" and shown: "de_shown s = R @ Y" "de_shown m = R' @ X" and pd: "pd \<longrightarrow> X = []"
    by (auto simp: dd_phase_def ends)
  define d1 where "d1 = fst (next_dd_v3 now 1500 (seeded (de_neighbor m)))"
  define m1 where "m1 = concluded (de_held m) (snd (next_dd_v3 now 1500 (seeded (de_neighbor m))))"
  define s1 where "s1 = process_dd_neighbor (de_router_id s) (de_router_id m) d1 (de_shown s) (de_neighbor s)"
  define d2 where "d2 = fst (next_dd_v3 now 1500 (seeded s1))"
  define s2 where "s2 = concluded (de_held s) (snd (next_dd_v3 now 1500 (seeded s1)))"
  define m2 where "m2 = process_dd_neighbor (de_router_id m) (de_router_id s) d2 (de_shown m) m1"
  note sent = exchanging_sends [OF m(1), of now, folded d1_def]
  have s1: "exchanging False Y (R' @ take 73 X) (drop 73 X = []) s1" and p1: "nb3_response_pending s1"
    using exchanging_receives [OF s sent(3), of "de_router_id s" "de_router_id m" "de_shown s", folded s1_def] sent(1,2) pd
    by (cases "X = []"; cases pd; simp)+
  note sent2 = exchanging_sends [OF s1, of now, folded d2_def]
  have round: "dd_round aid inst now ends = Ok (m\<lparr>de_neighbor := m2\<rparr>, s\<lparr>de_neighbor := s2\<rparr>)"
    using exchanging_due [OF m] exchanging_due [OF s1 p1]
    by (simp add: ends dd_round_def hand_over_due m2_def d2_def s2_def s1_def m1_def d1_def)
  have m_going: "exchanging True (drop 73 X) (R @ take 73 Y) (drop 73 Y = []) m2 \<and> nb3_response_pending m2"
    if "Y \<noteq> [] \<or> drop 73 X \<noteq> []"
  proof -
    have "m1 = snd (next_dd_v3 now 1500 (seeded (de_neighbor m)))"
      unfolding m1_def using exchanging_concludes(2) [OF sent(6)] that by blast
    then have "exchanging True (drop 73 X) R (Y = []) m1" using sent(6) by simp
    from exchanging_receives [OF this sent2(3), of "de_router_id m" "de_router_id s" "de_shown m", folded m2_def] sent2(1,2)
    show ?thesis by (cases "Y = []") simp_all
  qed
  have m_done: "settled (de_held m) (de_shown s) m2" if "Y = []" "drop 73 X = []"
  proof -
    have "settled (de_held m) (de_shown s) m1"
      using exchanging_concludes(1) [OF sent(6), of "de_held m"] that shown(1) by (simp add: m1_def)
    then show ?thesis using settled_receives [OF _ sent2(3)] by (simp add: m2_def)
  qed
  have s_done: "settled (de_held s) (de_shown m) s2" if "drop 73 X = []" "drop 73 Y = []"
    using exchanging_concludes(1) [OF sent2(6), of "de_held s"] that shown(2) append_take_drop_id [of 73 X]
    by (simp add: s2_def)
  have s_going: "exchanging False (drop 73 Y) (R' @ take 73 X) (drop 73 X = []) s2" if "drop 73 X \<noteq> [] \<or> drop 73 Y \<noteq> []"
    using exchanging_concludes(2) [OF sent2(6), of "de_held s"] that sent2(6) by (auto simp: s2_def)
  have Y: "de_shown s = (R @ take 73 Y) @ drop 73 Y" "de_shown m = (R' @ take 73 X) @ drop 73 X"
    using shown by simp_all
  show ?thesis
  proof (intro exI [of _ "(m\<lparr>de_neighbor := m2\<rparr>, s\<lparr>de_neighbor := s2\<rparr>)"] conjI)
    show "dd_round aid inst now ends = Ok (m\<lparr>de_neighbor := m2\<rparr>, s\<lparr>de_neighbor := s2\<rparr>)" by (rule round)
    show "same_ends ends (m\<lparr>de_neighbor := m2\<rparr>, s\<lparr>de_neighbor := s2\<rparr>)" by (simp add: same_ends_def ends)
    show "if drop 73 X = [] \<and> drop 73 Y = [] then if Y = [] then dd_over (m\<lparr>de_neighbor := m2\<rparr>, s\<lparr>de_neighbor := s2\<rparr>)
        else dd_last (m\<lparr>de_neighbor := m2\<rparr>, s\<lparr>de_neighbor := s2\<rparr>)
      else dd_phase (drop 73 X) (drop 73 Y) (m\<lparr>de_neighbor := m2\<rparr>, s\<lparr>de_neighbor := s2\<rparr>)"
    proof (cases "drop 73 X = [] \<and> drop 73 Y = []")
      case True
      then show ?thesis
        using m_done s_done m_going Y by (cases "Y = []") (simp_all add: dd_over_def dd_last_def)
    next
      case False
      then have "Y \<noteq> [] \<or> drop 73 X \<noteq> []" "drop 73 X \<noteq> [] \<or> drop 73 Y \<noteq> []" by auto
      then show ?thesis
        unfolding if_not_P [OF False] dd_phase_def prod.case using m_going s_going Y
        by (intro exI [of _ "R @ take 73 Y"] exI [of _ "R' @ take 73 X"] exI [of _ "drop 73 X = []"]) simp
    qed
  qed
qed

lemma same_ends_trans: "same_ends a b \<Longrightarrow> same_ends b c \<Longrightarrow> same_ends a c"
  by (auto simp: same_ends_def split: prod.splits)

lemma dd_phase_ends:
  "dd_phase X Y ends \<Longrightarrow> length X \<le> 73 * k \<Longrightarrow> length Y \<le> 73 * k \<Longrightarrow> k < length ts \<Longrightarrow>
   \<exists>ends'. dd_rounds aid inst ts ends = Ok ends' \<and> dd_over ends' \<and> same_ends ends ends'"
proof (induction k arbitrary: X Y ends ts)
  case 0
  then obtain now ts' where ts: "ts = now # ts'" by (cases ts) auto
  have "drop 73 X = [] \<and> drop 73 Y = []" "Y = []" using 0 by simp_all
  with dd_phase_round [OF 0(1), of aid inst now] show ?case by (auto simp: ts dd_over_stays)
next
  case (Suc k)
  then obtain now ts' where ts: "ts = now # ts'" by (cases ts) auto
  obtain ends1 where e1: "dd_round aid inst now ends = Ok ends1" "same_ends ends ends1"
    "if drop 73 X = [] \<and> drop 73 Y = [] then if Y = [] then dd_over ends1 else dd_last ends1
     else dd_phase (drop 73 X) (drop 73 Y) ends1"
    using dd_phase_round [OF Suc.prems(1), of aid inst now] by blast
  consider "dd_over ends1" | "dd_last ends1" | "dd_phase (drop 73 X) (drop 73 Y) ends1" using e1(3) by (auto split: if_splits)
  then show ?case
  proof cases
    case 1
    then show ?thesis using e1 by (simp add: ts dd_over_stays)
  next
    case 2
    from Suc.prems(4) ts obtain now' ts'' where ts': "ts' = now' # ts''" by (cases ts') auto
    from dd_last_round [OF 2, of aid inst now'] e1(1,2) show ?thesis
      by (auto simp: ts ts' dd_over_stays intro: same_ends_trans)
  next
    case 3
    have "\<exists>ends'. dd_rounds aid inst ts' ends1 = Ok ends' \<and> dd_over ends' \<and> same_ends ends1 ends'"
      by (rule Suc.IH [OF 3]) (use Suc.prems(2-4) ts in simp_all)
    with e1(1,2) show ?thesis by (auto simp: ts intro: same_ends_trans)
  qed
qed

text \<open>A neighbor that a Hello has just taken to ExStart.\<close>

definition dd_fresh :: "NeighborV3 \<Rightarrow> bool" where
  "dd_fresh n \<longleftrightarrow> nb3_state n = ExStartV3 \<and> nb3_last_dd_tx n = None \<and> nb3_summary_recv n = [] \<and>
     \<not> nb3_peer_done n \<and> \<not> nb3_send_final n"

lemma dd_first_round:
  assumes "dd_fresh (de_neighbor m)" and "dd_fresh (de_neighbor s)" and "de_router_id s < de_router_id m"
  shows "\<exists>ends'. dd_round aid inst now (m, s) = Ok ends' \<and> same_ends (m, s) ends' \<and>
    dd_phase (de_shown m) (drop 73 (de_shown s)) ends'"
proof -
  define d1 where "d1 = fst (next_dd_v3 now 1500 (seeded (de_neighbor m)))"
  define m1 where "m1 = concluded (de_held m) (snd (next_dd_v3 now 1500 (seeded (de_neighbor m))))"
  define s1 where "s1 = process_dd_neighbor (de_router_id s) (de_router_id m) d1 (de_shown s) (de_neighbor s)"
  define d2 where "d2 = fst (next_dd_v3 now 1500 (seeded s1))"
  define s2 where "s2 = concluded (de_held s) (snd (next_dd_v3 now 1500 (seeded s1)))"
  define m2 where "m2 = process_dd_neighbor (de_router_id m) (de_router_id s) d2 (de_shown m) m1"
  have due: "dd_due_v3 now (de_neighbor m)" using assms(1) by (simp add: dd_due_v3_def dd_fresh_def)
  have d1: "dd_v3_is_init d1" "dd_v3_has_more d1" "dd_v3_is_master d1" "dv_lsa_headers d1 = []"
    "dv_sequence_number d1 = nb3_dd_seq m1"
    and m1: "nb3_state m1 = ExStartV3" "nb3_summary_recv m1 = []" "\<not> nb3_peer_done m1" "\<not> nb3_send_final m1"
    using assms(1) by (auto simp: d1_def m1_def dd_fresh_def next_dd_v3_def dd_contents_v3_def seeded_def dd_flag_defs concluded_def Let_def)
  have s1: "exchanging False (de_shown s) [] False s1" "nb3_response_pending s1" "nb3_dd_seq s1 = nb3_dd_seq m1"
    using assms(2,3) d1
    by (simp_all add: s1_def process_dd_neighbor_def dd_fresh_def dd_restarts_def dd_negotiate_def dd_exchange_v3_def exchanging_def)
  note sent = exchanging_sends [OF s1(1), of now, folded d2_def]
  have s2: "exchanging False (drop 73 (de_shown s)) [] False s2"
    using exchanging_concludes(2) [OF sent(6), of "de_held s"] sent(6) by (simp add: s2_def)
  have "dd_negotiate (de_router_id m) (de_router_id s) d2 (de_shown m) m1 =
      Some (m1\<lparr>nb3_dd_master := True, nb3_state := ExchangeV3, nb3_summary_tx := de_shown m, nb3_response_pending := True\<rparr>)"
    using sent(3-5) assms(3) s1(3) by (simp add: dd_negotiate_def)
  then have m2: "exchanging True (de_shown m) (take 73 (de_shown s)) (drop 73 (de_shown s) = []) m2" "nb3_response_pending m2"
    using m1 sent(1-3) by (simp_all add: m2_def process_dd_neighbor_def dd_restarts_def dd_exchange_v3_def exchanging_def)
  have "dd_round aid inst now (m, s) = Ok (m\<lparr>de_neighbor := m2\<rparr>, s\<lparr>de_neighbor := s2\<rparr>)"
    using due exchanging_due [OF s1(1,2)]
    by (simp add: dd_round_def hand_over_due m2_def d2_def s2_def s1_def m1_def d1_def)
  then show ?thesis
    using m2 s2
    by (intro exI [of _ "(m\<lparr>de_neighbor := m2\<rparr>, s\<lparr>de_neighbor := s2\<rparr>)"]) (fastforce simp: same_ends_def dd_phase_def)
qed

text \<open>
  C33. The Database Description exchange of OSPFv3 completes. Two routers that hold each other as fresh neighbors
  in ExStart, each running the source's handlers on the bytes the other sends, are both out of Exchange after
  a number of rounds given by the larger of the two lists (73 headers fit into a packet), whatever the times
  of the rounds. Each then requests exactly the headers described to it that it does not hold or holds
  with a lower sequence number, and is Full at once when there are none.
\<close>

theorem v3_exchange_completes:
  assumes "dd_fresh (de_neighbor m)" and "dd_fresh (de_neighbor s)" and "de_router_id s < de_router_id m"
    and "length ts \<ge> 3 + max (length (de_shown m)) (length (de_shown s)) div 73"
  shows "\<exists>m' s'. dd_rounds aid inst ts (m, s) = Ok (m', s') \<and>
    nb3_request_list (de_neighbor m') = filter (dd_needs (de_held m)) (de_shown s) \<and>
    nb3_state (de_neighbor m') = (if filter (dd_needs (de_held m)) (de_shown s) = [] then FullV3 else LoadingV3) \<and>
    nb3_request_list (de_neighbor s') = filter (dd_needs (de_held s)) (de_shown m) \<and>
    nb3_state (de_neighbor s') = (if filter (dd_needs (de_held s)) (de_shown m) = [] then FullV3 else LoadingV3)"
proof -
  from assms(4) obtain now ts' where ts: "ts = now # ts'" by (cases ts) auto
  define k where "k = Suc (max (length (de_shown m)) (length (de_shown s)) div 73)"
  obtain e1 where e1: "dd_round aid inst now (m, s) = Ok e1" "same_ends (m, s) e1"
    "dd_phase (de_shown m) (drop 73 (de_shown s)) e1"
    using dd_first_round [OF assms(1-3)] by blast
  have "\<exists>e2. dd_rounds aid inst ts' e1 = Ok e2 \<and> dd_over e2 \<and> same_ends e1 e2"
    by (rule dd_phase_ends [OF e1(3), of k]) (use assms(4) ts in \<open>simp_all add: k_def\<close>)
  then obtain m' s' where "dd_rounds aid inst ts' e1 = Ok (m', s')" "dd_over (m', s')" "same_ends (m, s) (m', s')"
    using same_ends_trans [OF e1(2)] by auto
  then show ?thesis using e1(1) by (auto simp: ts dd_over_def settled_def same_ends_def)
qed

lemma hello_makes_fresh:
  assumes "should_adj rid i (hello3_neighbor now rid addr hello (new_neighbor3 now src addr hello))"
    and "rid \<in> set (hv_neighbors hello)"
  shows "dd_fresh (adj_ok3 rid i (hello3_neighbor now rid addr hello (new_neighbor3 now src addr hello)))"
  using assms by (simp add: adj_ok3_def hello3_neighbor_def new_neighbor3_def hello3_state_def dd_fresh_def)

definition example_header3 :: "u32 \<Rightarrow> i32 \<Rightarrow> LsaV3Header" where
  "example_header3 adv sq = \<lparr>l3_age = 1, l3_type = RouterV3, l3_lsid = 0, l3_adv = adv, l3_seq = sq, l3_checksum = 0, l3_length = 24\<rparr>"

definition example_hello3 :: "u32 list \<Rightarrow> HelloV3Packet" where
  "example_hello3 seen = \<lparr>hv_interface_id = 3, hv_router_priority = 1, hv_options = options_v3_standard, hv_hello_interval = 10,
     hv_router_dead_interval = 40, hv_dr = 0, hv_bdr = 0, hv_neighbors = seen\<rparr>"

definition example_end3 :: "u32 \<Rightarrow> u32 \<Rightarrow> LsaV3Header list \<Rightarrow> DdEnd" where
  "example_end3 rid peer hs = \<lparr>de_router_id = rid, de_shown = hs, de_held = hs,
     de_neighbor = (hello3_neighbor 0 rid 9 (example_hello3 [rid]) (new_neighbor3 0 peer 9 (example_hello3 [rid])))
       \<lparr>nb3_state := ExStartV3\<rparr>\<rparr>"

theorem v3_exchange_completes_witness:
  "\<exists>m' s'. dd_rounds 0 0 [0, 1000, 2000] (example_end3 2 1 [example_header3 2 5, example_header3 1 5],
       example_end3 1 2 [example_header3 1 7]) = Ok (m', s') \<and>
     nb3_request_list (de_neighbor m') = [example_header3 1 7] \<and> nb3_state (de_neighbor m') = LoadingV3 \<and>
     nb3_request_list (de_neighbor s') = [example_header3 2 5]"
proof -
  have f: "dd_fresh (de_neighbor (example_end3 rid peer hs))" for rid peer hs
    by (simp add: example_end3_def dd_fresh_def hello3_neighbor_def new_neighbor3_def)
  show ?thesis
    using v3_exchange_completes [where m = "example_end3 2 1 [example_header3 2 5, example_header3 1 5]" and
        s = "example_end3 1 2 [example_header3 1 7]" and ts = "[0, 1000, 2000]" and aid = 0 and inst = 0, OF f f]
    by (auto simp: example_end3_def example_header3_def dd_needs_def same_lsa3_def)
qed

end
