(* ===== verification/Io_Punt.thy ===== *)
theory Io_Punt
  imports Packet_Codec Exchange_V3
begin

text \<open>
  The packet framing of the I/O backends: \<^verbatim>\<open>src/io_punt.rs\<close> and \<^verbatim>\<open>src/io_punt_v3.rs\<close> (VPP punt sockets), and the
  packet handling of the raw-socket backends \<^verbatim>\<open>src/io.rs\<close> and \<^verbatim>\<open>src/io_v3.rs\<close>. Sending is a function from a packet to
  the datagram written to the socket, receiving a function from one datagram to the packet passed on, if any;
  the sockets, the channel and the tasks are the operating system's and the runtime's. What VPP and the wire make of a datagram
  on its way to the neighbor is a parameter of the theorems on delivery, with its documented behaviour as hypothesis.
\<close>

section \<open>Packets and interfaces\<close>

record RxPacket =
  rx_sw_if_index :: u32
  rx_src_addr :: ipv4
  rx_dst_addr :: ipv4
  rx_data :: "u8 list"

record TxPacket =
  tx_sw_if_index :: u32
  tx_src_addr :: ipv4
  tx_dst_addr :: ipv4
  tx_data :: "u8 list"

record IoInterface =
  io_name :: string
  io_sw_if_index :: u32
  io_kernel_ifindex :: u32
  io_address :: ipv4
  io_mac_address :: "u8 list"
  io_outer_vlan_id :: "u16 option"
  io_inner_vlan_id :: "u16 option"
  io_l3_peer :: "ipv4 option"

text \<open>The error of \<^verbatim>\<open>send\<close> that is the program's own; errors of the socket call are not modelled.\<close>

datatype IoError = UnknownInterface u32

type_synonym 'a io_result = "(IoError, 'a) outcome"

section \<open>Datagrams of VPP\<close>

definition PUNT_ACTION_L2 :: u32 where
  "PUNT_ACTION_L2 = 0"

definition PUNT_ACTION_IP4_ROUTED :: u32 where
  "PUNT_ACTION_IP4_ROUTED = 1"

definition PUNT_ACTION_IP6_ROUTED :: u32 where
  "PUNT_ACTION_IP6_ROUTED = 2"

definition PUNT_DESC_LEN :: nat where
  "PUNT_DESC_LEN = 8"

definition ETHERNET_HEADER_LEN :: nat where
  "ETHERNET_HEADER_LEN = 14"

text \<open>\<^verbatim>\<open>to_le_bytes\<close> and \<^verbatim>\<open>from_le_bytes\<close>.\<close>

definition u32_le_bytes :: "u32 \<Rightarrow> u8 list" where
  "u32_le_bytes w = rev (u32_be_bytes w)"

definition u32_le_at :: "u8 list \<Rightarrow> nat \<Rightarrow> ('e, u32) outcome" where
  "u32_le_at data i =
     bindR (byte_at data i) (\<lambda>a. bindR (byte_at data (i + 1)) (\<lambda>b.
     bindR (byte_at data (i + 2)) (\<lambda>c. bindR (byte_at data (i + 3)) (\<lambda>d. Ok (u32_of_be d c b a)))))"

definition punt_datagram :: "u32 \<Rightarrow> u32 \<Rightarrow> u8 list \<Rightarrow> u8 list" where
  "punt_datagram sw action payload = u32_le_bytes sw @ u32_le_bytes action @ payload"

text \<open>The walk over the VLAN tags: from an offset of an ethertype to the offset behind the last one.\<close>

function eth_walk :: "u8 list \<Rightarrow> nat \<Rightarrow> nat option" where
  "eth_walk buf off =
     (if off + 2 > length buf then None
      else
        (let etype = u16_of_be (buf ! off) (buf ! (off + 1))
         in if (etype = 0x8100 \<or> etype = 0x88A8) \<and> off < 12 + 12 then eth_walk buf (off + 4) else Some (off + 2)))"
  by pat_completeness auto
termination by (relation "measure (\<lambda>(buf, off). 24 - off)") auto

declare eth_walk.simps [simp del]

definition eth_l3_offset :: "u8 list \<Rightarrow> nat option" where
  "eth_l3_offset buf = (if length buf < 14 then None else eth_walk buf 12)"

definition vlan_tags :: "u16 option \<Rightarrow> u16 option \<Rightarrow> u8 list" where
  "vlan_tags outer_vlan inner_vlan =
     (case outer_vlan of
        None \<Rightarrow> []
      | Some outer \<Rightarrow> [0x81, 0x00] @ u16_be_bytes (outer AND 0x0FFF) @
          (case inner_vlan of None \<Rightarrow> [] | Some inner \<Rightarrow> [0x81, 0x00] @ u16_be_bytes (inner AND 0x0FFF)))"

definition build_punt_l2_frame :: "u8 list \<Rightarrow> u8 list \<Rightarrow> u16 option \<Rightarrow> u16 option \<Rightarrow> u16 \<Rightarrow> u8 list \<Rightarrow> u8 list" where
  "build_punt_l2_frame dst_mac src_mac outer_vlan inner_vlan ethertype payload =
     dst_mac @ src_mac @ vlan_tags outer_vlan inner_vlan @ u16_be_bytes ethertype @ payload"

section \<open>OSPFv2 over IPv4\<close>

definition is_multicast_v4 :: "ipv4 \<Rightarrow> bool" where
  "is_multicast_v4 addr \<longleftrightarrow> (ucast (drop_bit 24 addr) :: u8) AND 0xF0 = 0xE0"

definition multicast_mac_v4 :: "ipv4 \<Rightarrow> u8 list" where
  "multicast_mac_v4 addr =
     (let o1 = u32_be_bytes addr in [0x01, 0x00, 0x5E, (o1 ! 1) AND 0x7F, o1 ! 2, o1 ! 3])"

definition ip_header_checksum :: "u8 list \<Rightarrow> u16" where
  "ip_header_checksum hdr = NOT (ucast (ip_fold (ip_sum 0 hdr)))"

definition build_ip_packet :: "ipv4 \<Rightarrow> ipv4 \<Rightarrow> u8 list \<Rightarrow> u8 list" where
  "build_ip_packet src dst data =
     (let total_length = 20 + of_nat (length data) :: u16;
          hdr = [0x45, 0xC0] @ u16_be_bytes total_length @ [0, 0] @ [0, 0] @ [1, 89] @ [0, 0] @ u32_be_bytes src @ u32_be_bytes dst;
          ck = ip_header_checksum hdr
      in write_at 10 (u16_be_bytes ck) hdr @ data)"

definition punt_send :: "(u32 \<times> IoInterface) list \<Rightarrow> TxPacket \<Rightarrow> u8 list io_result" where
  "punt_send ifs p =
     (case map_of ifs (tx_sw_if_index p) of
        None \<Rightarrow> Err (UnknownInterface (tx_sw_if_index p))
      | Some i \<Rightarrow>
          (case (is_multicast_v4 (tx_dst_addr p), io_l3_peer i) of
             (True, Some peer) \<Rightarrow>
               Ok (punt_datagram (tx_sw_if_index p) PUNT_ACTION_IP4_ROUTED (build_ip_packet (tx_src_addr p) peer (tx_data p)))
           | _ \<Rightarrow>
               (let ip_pkt = build_ip_packet (tx_src_addr p) (tx_dst_addr p) (tx_data p) in
                if is_multicast_v4 (tx_dst_addr p) then
                  Ok (punt_datagram (tx_sw_if_index p) PUNT_ACTION_L2
                        (build_punt_l2_frame (multicast_mac_v4 (tx_dst_addr p)) (io_mac_address i) (io_outer_vlan_id i)
                           (io_inner_vlan_id i) 0x0800 ip_pkt))
                else Ok (punt_datagram (tx_sw_if_index p) PUNT_ACTION_IP4_ROUTED ip_pkt))))"

definition punt_enroll :: "IoInterface \<Rightarrow> (u32 \<times> IoInterface) list \<Rightarrow> (u32 \<times> IoInterface) list" where
  "punt_enroll i ifs = AList.update (io_sw_if_index i) i ifs"

definition punt_is_enrolled :: "u32 \<Rightarrow> (u32 \<times> IoInterface) list \<Rightarrow> bool" where
  "punt_is_enrolled sw ifs \<longleftrightarrow> map_of ifs sw \<noteq> None"

text \<open>One turn of \<^verbatim>\<open>reader_task\<close> on the bytes received; \<^verbatim>\<open>None\<close> for a datagram that is skipped.\<close>

definition punt_receive :: "(u32 \<times> IoInterface) list \<Rightarrow> u8 list \<Rightarrow> RxPacket option io_result" where
  "punt_receive ifs buf =
     (if length buf < PUNT_DESC_LEN + ETHERNET_HEADER_LEN + 20 + 24 then Ok None
      else
        bindR (u32_le_at buf 0) (\<lambda>sw.
        case eth_l3_offset (drop PUNT_DESC_LEN buf) of
          None \<Rightarrow> Ok None
        | Some eth_off \<Rightarrow>
            (let l3 = PUNT_DESC_LEN + eth_off in
             if l3 + 20 > length buf then Ok None
             else
               bindR (byte_at buf l3) (\<lambda>ver_ihl.
               let ihl = unat (ver_ihl AND 0x0F) * 4 in
               if ihl < 20 then Ok None
               else
                 bindR (byte_at buf (l3 + 9)) (\<lambda>proto.
                 if proto \<noteq> 89 then Ok None
                 else
                   bindR (u32_at buf (l3 + 12)) (\<lambda>src.
                   bindR (u32_at buf (l3 + 16)) (\<lambda>dst.
                   bindR (u16_at buf (l3 + 2)) (\<lambda>total_len.
                   let payload_end = l3 + unat total_len in
                   if payload_end > length buf then Ok None
                   else
                     bindR (slice buf (l3 + ihl) payload_end) (\<lambda>data.
                     if map_of ifs sw = None then Ok None
                     else Ok (Some \<lparr>rx_sw_if_index = sw, rx_src_addr = src, rx_dst_addr = dst, rx_data = data\<rparr>)))))))))) "

text \<open>The raw-socket backend: the destination and the data \<^verbatim>\<open>send\<close> hands to \<^verbatim>\<open>sendto\<close>.\<close>

definition raw_send :: "(u32 \<times> IoInterface) list \<Rightarrow> TxPacket \<Rightarrow> (ipv4 \<times> u8 list) io_result" where
  "raw_send ifs p =
     (case map_of ifs (tx_sw_if_index p) of
        None \<Rightarrow> Err (UnknownInterface (tx_sw_if_index p))
      | Some i \<Rightarrow> Ok (tx_dst_addr p, tx_data p))"

text \<open>One turn of the raw-socket reader of an interface, on the bytes \<^verbatim>\<open>recvfrom\<close> delivered.\<close>

definition raw_receive :: "u32 \<Rightarrow> u8 list \<Rightarrow> RxPacket option io_result" where
  "raw_receive sw buf =
     (if length buf < 20 then Ok None
      else
        bindR (byte_at buf 0) (\<lambda>ver_ihl.
        let ip_hdr_len = unat (ver_ihl AND 0x0F) * 4 in
        if length buf < ip_hdr_len then Ok None
        else
          bindR (u32_at buf 12) (\<lambda>src. bindR (u32_at buf 16) (\<lambda>dst. bindR (slice buf ip_hdr_len (length buf)) (\<lambda>data.
          Ok (Some \<lparr>rx_sw_if_index = sw, rx_src_addr = src, rx_dst_addr = dst, rx_data = data\<rparr>))))))"

section \<open>OSPFv3 over IPv6\<close>

definition IPV6_HEADER_LEN :: nat where
  "IPV6_HEADER_LEN = 40"

definition OSPF_V3_CHECKSUM_OFFSET :: nat where
  "OSPF_V3_CHECKSUM_OFFSET = 12"

definition pseudo_header :: "ipv6 \<Rightarrow> ipv6 \<Rightarrow> nat \<Rightarrow> u8 list" where
  "pseudo_header src dst len = ipv6_octets src @ ipv6_octets dst @ u32_be_bytes (of_nat len) @ [0, 0, 0, 89]"

definition ospfv3_checksum :: "ipv6 \<Rightarrow> ipv6 \<Rightarrow> u8 list \<Rightarrow> u16" where
  "ospfv3_checksum src dst ospf =
     NOT (ucast (ip_fold (ip_sum 0 (pseudo_header src dst (length ospf) @ ospf))))"

definition ospfv3_compute_checksum_in_place :: "ipv6 \<Rightarrow> ipv6 \<Rightarrow> u8 list \<Rightarrow> u8 list" where
  "ospfv3_compute_checksum_in_place src dst packet =
     (if length packet \<ge> OSPF_V3_CHECKSUM_OFFSET + 2 then
        (let data = write_at OSPF_V3_CHECKSUM_OFFSET [0, 0] packet
         in write_at OSPF_V3_CHECKSUM_OFFSET (u16_be_bytes (ospfv3_checksum src dst data)) data)
      else packet)"

definition is_multicast_v6 :: "ipv6 \<Rightarrow> bool" where
  "is_multicast_v6 addr \<longleftrightarrow> (ucast (drop_bit 112 addr) :: u16) AND 0xFF00 = 0xFF00"

definition multicast_mac_v6 :: "ipv6 \<Rightarrow> u8 list" where
  "multicast_mac_v6 addr = [0x33, 0x33] @ drop 12 (ipv6_octets addr)"

definition build_ipv6_packet :: "ipv6 \<Rightarrow> ipv6 \<Rightarrow> u8 list \<Rightarrow> u8 list" where
  "build_ipv6_packet src dst data =
     u32_be_bytes 0x6C000000 @ u16_be_bytes (of_nat (length data)) @ [89, 1] @ ipv6_octets src @ ipv6_octets dst @ data"

definition punt_send_v3 :: "(u32 \<times> IoInterfaceV3) list \<Rightarrow> TxPacketV3 \<Rightarrow> u8 list io_result" where
  "punt_send_v3 ifs p =
     (case map_of ifs (tx3_sw_if_index p) of
        None \<Rightarrow> Err (UnknownInterface (tx3_sw_if_index p))
      | Some i \<Rightarrow>
          (let data = ospfv3_compute_checksum_in_place (tx3_src_addr p) (tx3_dst_addr p) (tx3_data p);
               ip_pkt = build_ipv6_packet (tx3_src_addr p) (tx3_dst_addr p) data
           in if is_multicast_v6 (tx3_dst_addr p) then
                Ok (punt_datagram (tx3_sw_if_index p) PUNT_ACTION_L2
                      (multicast_mac_v6 (tx3_dst_addr p) @ io3_mac_address i @
                       vlan_tags (io3_outer_vlan_id i) (io3_inner_vlan_id i) @ [0x86, 0xDD] @ ip_pkt))
              else Ok (punt_datagram (tx3_sw_if_index p) PUNT_ACTION_IP6_ROUTED ip_pkt)))"

definition punt_receive_v3 :: "(u32 \<times> IoInterfaceV3) list \<Rightarrow> u8 list \<Rightarrow> RxPacketV3 option io_result" where
  "punt_receive_v3 ifs buf =
     (if length buf < PUNT_DESC_LEN + ETHERNET_HEADER_LEN + IPV6_HEADER_LEN + 16 then Ok None
      else
        bindR (u32_le_at buf 0) (\<lambda>sw.
        case eth_l3_offset (drop PUNT_DESC_LEN buf) of
          None \<Rightarrow> Ok None
        | Some eth_off \<Rightarrow>
            (let l3 = PUNT_DESC_LEN + eth_off in
             if l3 + IPV6_HEADER_LEN > length buf then Ok None
             else
               bindR (byte_at buf l3) (\<lambda>b.
               if drop_bit 4 b \<noteq> 6 then Ok None
               else
                 bindR (byte_at buf (l3 + 6)) (\<lambda>next_hdr.
                 if next_hdr \<noteq> 89 then Ok None
                 else
                   bindR (u16_at buf (l3 + 4)) (\<lambda>payload_len.
                   bindR (slice buf (l3 + 8) (l3 + 24)) (\<lambda>src.
                   bindR (slice buf (l3 + 24) (l3 + 40)) (\<lambda>dst.
                   let payload_start = l3 + IPV6_HEADER_LEN; payload_end = payload_start + unat payload_len in
                   if payload_end > length buf then Ok None
                   else
                     bindR (slice buf payload_start payload_end) (\<lambda>data.
                     if map_of ifs sw = None then Ok None
                     else Ok (Some \<lparr>rx3_sw_if_index = sw, rx3_src_addr = ipv6_from src, rx3_dst_addr = ipv6_from dst,
                                    rx3_data = data\<rparr>))))))))))"

text \<open>The raw-socket backend: what \<^verbatim>\<open>send\<close> hands to \<^verbatim>\<open>sendto\<close>, and one turn of its reader.\<close>

definition raw_send_v3 :: "(u32 \<times> IoInterfaceV3) list \<Rightarrow> TxPacketV3 \<Rightarrow> (ipv6 \<times> u32 \<times> u8 list) io_result" where
  "raw_send_v3 ifs p =
     (case map_of ifs (tx3_sw_if_index p) of
        None \<Rightarrow> Err (UnknownInterface (tx3_sw_if_index p))
      | Some i \<Rightarrow> Ok (tx3_dst_addr p, io3_kernel_ifindex i,
                        ospfv3_compute_checksum_in_place (tx3_src_addr p) (tx3_dst_addr p) (tx3_data p)))"

definition raw_receive_v3 :: "u32 \<Rightarrow> ipv6 \<Rightarrow> u8 list \<Rightarrow> RxPacketV3 option" where
  "raw_receive_v3 sw src buf =
     (if length buf < 16 then None
      else Some \<lparr>rx3_sw_if_index = sw, rx3_src_addr = src, rx3_dst_addr = 0, rx3_data = buf\<rparr>)"

section \<open>Ethernet headers\<close>

text \<open>An Ethernet header with VLAN tags, as a frame on the wire has it.\<close>

definition tag_bytes :: "u16 \<times> u16 \<Rightarrow> u8 list" where
  "tag_bytes = (\<lambda>(tpid, tci). u16_be_bytes tpid @ u16_be_bytes tci)"

definition is_tpid :: "u16 \<Rightarrow> bool" where
  "is_tpid t \<longleftrightarrow> t = 0x8100 \<or> t = 0x88A8"

definition eth_header :: "u8 list \<Rightarrow> (u16 \<times> u16) list \<Rightarrow> u16 \<Rightarrow> u8 list" where
  "eth_header macs tags ethertype = macs @ concat (map tag_bytes tags) @ u16_be_bytes ethertype"

definition wf_eth :: "u8 list \<Rightarrow> (u16 \<times> u16) list \<Rightarrow> u16 \<Rightarrow> bool" where
  "wf_eth macs tags ethertype \<longleftrightarrow>
     length macs = 12 \<and> length tags \<le> 3 \<and> list_all (\<lambda>t. is_tpid (fst t)) tags \<and> \<not> is_tpid ethertype"

lemma length_tag_bytes [simp]: "length (concat (map tag_bytes tags)) = 4 * length tags"
  by (induction tags) (auto simp: tag_bytes_def)

lemma etype_at:
  assumes "length pre = off"
  shows "off + 2 \<le> length (pre @ u16_be_bytes t @ rest)"
    and "u16_of_be ((pre @ u16_be_bytes t @ rest) ! off) ((pre @ u16_be_bytes t @ rest) ! (off + 1)) = t"
  using assms by (auto simp: nth_append u16_be_bytes_def)

lemma eth_walk_tags:
  assumes "length pre = off" and "off + 4 * length tags \<le> 24" and "list_all (\<lambda>t. is_tpid (fst t)) tags" and "\<not> is_tpid et"
  shows "eth_walk (pre @ concat (map tag_bytes tags) @ u16_be_bytes et @ rest) off = Some (off + 4 * length tags + 2)"
  using assms
proof (induction tags arbitrary: pre off)
  case Nil
  then show ?case
    using etype_at [OF Nil.prems(1), of et rest] by (simp add: eth_walk.simps [of _ off] is_tpid_def)
next
  case (Cons t tags)
  obtain tpid tci where t: "t = (tpid, tci)" by force
  let ?rest = "concat (map tag_bytes tags) @ u16_be_bytes et @ rest"
  have step: "eth_walk (pre @ u16_be_bytes tpid @ u16_be_bytes tci @ ?rest) off =
      eth_walk ((pre @ u16_be_bytes tpid @ u16_be_bytes tci) @ ?rest) (off + 4)"
    using etype_at [OF Cons.prems(1), of tpid "u16_be_bytes tci @ ?rest"] Cons.prems(2,3)
    by (simp add: eth_walk.simps [of _ off] is_tpid_def t)
  have "eth_walk ((pre @ u16_be_bytes tpid @ u16_be_bytes tci) @ ?rest) (off + 4) = Some (off + 4 + 4 * length tags + 2)"
    by (rule Cons.IH) (use Cons.prems in auto)
  with step show ?case by (simp add: t tag_bytes_def)
qed

lemma length_eth_header: "length macs = 12 \<Longrightarrow> length (eth_header macs tags et) = 14 + 4 * length tags"
  by (simp add: eth_header_def)

lemma eth_l3_offset_header:
  assumes "wf_eth macs tags et"
  shows "eth_l3_offset (eth_header macs tags et @ rest) = Some (length (eth_header macs tags et))"
  using assms eth_walk_tags [of macs 12 tags et rest]
  by (simp add: eth_l3_offset_def wf_eth_def length_eth_header) (simp add: eth_header_def)

text \<open>The frames \<^verbatim>\<open>send\<close> builds have such a header.\<close>

definition own_tags :: "u16 option \<Rightarrow> u16 option \<Rightarrow> (u16 \<times> u16) list" where
  "own_tags outer_vlan inner_vlan =
     (case outer_vlan of
        None \<Rightarrow> []
      | Some outer \<Rightarrow> (0x8100, outer AND 0x0FFF) # (case inner_vlan of None \<Rightarrow> [] | Some inner \<Rightarrow> [(0x8100, inner AND 0x0FFF)]))"

lemma vlan_tags_own: "vlan_tags outer_vlan inner_vlan = concat (map tag_bytes (own_tags outer_vlan inner_vlan))"
  by (auto simp: vlan_tags_def own_tags_def tag_bytes_def u16_be_bytes_def split: option.split)

lemma wf_own_tags: "length macs = 12 \<Longrightarrow> \<not> is_tpid et \<Longrightarrow> wf_eth macs (own_tags outer_vlan inner_vlan) et"
  by (auto simp: wf_eth_def own_tags_def is_tpid_def split: option.split)

section \<open>Delivery\<close>

lemma byte_at_plus: "byte_at (pre @ ys) (length pre + i) = byte_at ys i"
  by (simp add: byte_at_def)

lemma read_at_plus:
  "u16_at (pre @ ys) (length pre + i) = u16_at ys i" "u32_at (pre @ ys) (length pre + i) = u32_at ys i"
  "slice (pre @ ys) (length pre + i) (length pre + j) = slice ys i j"
  by (simp_all add: read_defs slice_def byte_at_def nth_append)

lemma u32_le_at_bytes: "u32_le_at (u32_le_bytes w @ rest) 0 = Ok w"
  by (simp add: u32_le_at_def u32_le_bytes_def u32_be_bytes_def)

lemma length_u32_le_bytes [simp]: "length (u32_le_bytes w) = 4"
  by (simp add: u32_le_bytes_def)

lemma ip_header_checksum_eq: "ip_header_checksum hdr = ip_checksum hdr"
  by (simp add: ip_header_checksum_def ip_checksum_def)

text \<open>The header \<^verbatim>\<open>build_ip_packet\<close> writes.\<close>

definition ip_header :: "ipv4 \<Rightarrow> ipv4 \<Rightarrow> nat \<Rightarrow> u16 \<Rightarrow> u8 list" where
  "ip_header src dst len ck =
     [0x45, 0xC0] @ u16_be_bytes (20 + of_nat len) @ [0, 0, 0, 0, 1, 89] @ u16_be_bytes ck @ u32_be_bytes src @ u32_be_bytes dst"

lemma build_ip_packet_header:
  "build_ip_packet src dst data =
     ip_header src dst (length data) (ip_header_checksum (ip_header src dst (length data) 0)) @ data"
  by (simp add: build_ip_packet_def ip_header_def write_at_def Let_def u16_be_bytes_def u32_be_bytes_def)

lemma ip_header_verifies: "ip_checksum_verify (ip_header src dst len (ip_header_checksum (ip_header src dst len 0)))"
proof -
  let ?pre = "[0x45, 0xC0] @ u16_be_bytes (20 + of_nat len) @ [0, 0, 0, 0, 1, 89]" and ?post = "u32_be_bytes src @ u32_be_bytes dst"
  have "ip_checksum_verify (?pre @ u16_be_bytes (ip_checksum (?pre @ [0, 0] @ ?post)) @ ?post)"
    by (rule ip_checksum_fill_verifies) simp_all
  then show ?thesis by (simp add: ip_header_def ip_header_checksum_eq u16_be_bytes_def)
qed

lemma length_ip_header [simp]: "length (ip_header src dst len ck) = 20"
  by (simp add: ip_header_def)

lemma ip_header_fields:
  "byte_at (ip_header src dst len ck @ rest) 0 = Ok 0x45" "byte_at (ip_header src dst len ck @ rest) 9 = Ok 89"
  "u16_at (ip_header src dst len ck @ rest) 2 = Ok (20 + of_nat len)"
  "u32_at (ip_header src dst len ck @ rest) 12 = Ok src" "u32_at (ip_header src dst len ck @ rest) 16 = Ok dst"
  by (simp_all add: ip_header_def read_defs be_bytes_defs byte_at_def)

lemma unat_total_length: "n \<le> 65515 \<Longrightarrow> unat (20 + of_nat n :: u16) = 20 + n"
  by (simp add: unat_word_ariths(1) unat_of_nat)

lemma punt_receive_frame:
  assumes "wf_eth macs tags et" and "length act = 4" and "24 \<le> length data" and "length data \<le> 65515" and "map_of ifs sw \<noteq> None"
  shows "punt_receive ifs (u32_le_bytes sw @ act @ eth_header macs tags et @ build_ip_packet src dst data @ pad) =
    Ok (Some \<lparr>rx_sw_if_index = sw, rx_src_addr = src, rx_dst_addr = dst, rx_data = data\<rparr>)"
proof -
  let ?eth = "eth_header macs tags et"
  define pre where "pre = u32_le_bytes sw @ act @ ?eth"
  obtain ck where ip: "build_ip_packet src dst data = ip_header src dst (length data) ck @ data"
    using build_ip_packet_header by blast
  let ?ip = "ip_header src dst (length data) ck @ data @ pad"
  define buf where "buf = pre @ ?ip"
  have eth: "eth_l3_offset (drop PUNT_DESC_LEN buf) = Some (length ?eth)"
    using eth_l3_offset_header [OF assms(1)] assms(2) by (simp add: buf_def pre_def PUNT_DESC_LEN_def)
  have l3: "8 + length ?eth = length pre" using assms(2) by (simp add: pre_def)
  have len: "length buf = length pre + 20 + length data + length pad" "22 \<le> length pre"
    using assms(1,2) by (simp_all add: buf_def pre_def wf_eth_def length_eth_header)
  have sw: "u32_le_at buf 0 = Ok sw" by (simp add: buf_def pre_def u32_le_at_bytes)
  have fields: "byte_at buf (length pre) = Ok 0x45" "byte_at buf (length pre + 9) = Ok 89"
    "u16_at buf (length pre + 2) = Ok (20 + of_nat (length data))"
    "u32_at buf (length pre + 12) = Ok src" "u32_at buf (length pre + 16) = Ok dst"
    using byte_at_plus [of pre ?ip 0] byte_at_plus [of pre ?ip 9] read_at_plus(1) [of pre ?ip 2] read_at_plus(2) [of pre ?ip 12]
      read_at_plus(2) [of pre ?ip 16] unfolding ip_header_fields buf_def by simp_all
  have ihl: "unat ((0x45 :: u8) AND 0x0F) = 5" by code_simp
  have data: "slice buf (length pre + 20) (length pre + (20 + length data)) = Ok data"
    unfolding buf_def read_at_plus by (simp add: slice_def)
  have "punt_receive ifs buf = Ok (Some \<lparr>rx_sw_if_index = sw, rx_src_addr = src, rx_dst_addr = dst, rx_data = data\<rparr>)"
    using assms(3-5) len eth unfolding punt_receive_def
    by (simp add: PUNT_DESC_LEN_def ETHERNET_HEADER_LEN_def Let_def sw fields fields(3) [simplified] l3 ihl data unat_total_length)
  then show ?thesis by (simp add: buf_def pre_def ip)
qed

text \<open>
  VPP and the wire between two routers are not part of the program. They are a parameter \<open>link\<close>: what the
  punt socket of the receiving router delivers when the sending router has written a datagram to its own. The
  program relies on what the documentation of \<^verbatim>\<open>io_punt.rs\<close> states of VPP: a \<^verbatim>\<open>PUNT_L2\<close> frame leaves on the
  interface unchanged, a packet of a routed action leaves behind an Ethernet header that VPP builds, and the
  reader gets the frame with a descriptor of the receiving interface in front; a frame may have been padded.
  This holds of frames that carry at most \<open>mtu\<close> bytes, behind at most two VLAN tags.
\<close>

definition carries_l2 :: "(u8 list \<Rightarrow> u8 list) \<Rightarrow> nat \<Rightarrow> u32 \<Rightarrow> u32 \<Rightarrow> bool" where
  "carries_l2 link mtu out sw \<longleftrightarrow>
     (\<forall>frame. length frame \<le> 22 + mtu \<longrightarrow> (\<exists>act pad. length act = 4 \<and>
        link (punt_datagram out PUNT_ACTION_L2 frame) = u32_le_bytes sw @ act @ frame @ pad))"

definition carries_routed :: "(u8 list \<Rightarrow> u8 list) \<Rightarrow> nat \<Rightarrow> u32 \<Rightarrow> u16 \<Rightarrow> u32 \<Rightarrow> u32 \<Rightarrow> bool" where
  "carries_routed link mtu action ethertype out sw \<longleftrightarrow>
     (\<forall>pkt. length pkt \<le> mtu \<longrightarrow> (\<exists>act macs tags pad. length act = 4 \<and> wf_eth macs tags ethertype \<and>
        link (punt_datagram out action pkt) = u32_le_bytes sw @ act @ eth_header macs tags ethertype @ pkt @ pad))"

lemma l2_frame_header:
  "build_punt_l2_frame dst_mac src_mac outer_vlan inner_vlan et payload =
     eth_header (dst_mac @ src_mac) (own_tags outer_vlan inner_vlan) et @ payload"
  by (simp add: build_punt_l2_frame_def eth_header_def vlan_tags_own)

lemma link_delivers:
  assumes "carries_l2 link mtu out sw" and "carries_routed link mtu action et out sw"
    and "wf_eth macs tags et" and "length (eth_header macs tags et @ ip) \<le> 22 + mtu" and "length ip \<le> mtu"
    and "dgram = punt_datagram out PUNT_ACTION_L2 (eth_header macs tags et @ ip) \<or> dgram = punt_datagram out action ip"
  shows "\<exists>act macs tags pad. length act = 4 \<and> wf_eth macs tags et \<and>
    link dgram = u32_le_bytes sw @ act @ eth_header macs tags et @ ip @ pad"
  using assms(6)
proof
  assume d: "dgram = punt_datagram out PUNT_ACTION_L2 (eth_header macs tags et @ ip)"
  from assms(1,4) obtain act pad where "length act = 4" "link dgram = u32_le_bytes sw @ act @ (eth_header macs tags et @ ip) @ pad"
    unfolding carries_l2_def d by blast
  with assms(3) show ?thesis by (intro exI [of _ act] exI [of _ macs] exI [of _ tags] exI [of _ pad]) simp
next
  assume d: "dgram = punt_datagram out action ip"
  show ?thesis using assms(2,5) unfolding carries_routed_def d by blast
qed

text \<open>
  An OSPFv2 packet sent through the punt socket arrives. On an enrolled interface \<^verbatim>\<open>send\<close> succeeds, and over any
  link of the documented kind the reader of the router at the other end passes on exactly the source, destination
  and data of the packet; on a point-to-point tunnel the destination is the peer instead of the multicast group.
  The IP header in front of the data has a valid checksum.
\<close>

lemma length_l2_frame:
  "length dst_mac = 6 \<Longrightarrow> length src_mac = 6 \<Longrightarrow>
   length (build_punt_l2_frame dst_mac src_mac outer_vlan inner_vlan et payload) \<le> 22 + length payload"
  by (auto simp: l2_frame_header eth_header_def own_tags_def split: option.split)

lemma punt_packet_arrives:
  assumes "map_of ifs (tx_sw_if_index p) = Some i" and "length (io_mac_address i) = 6"
    and "24 \<le> length (tx_data p)" and "20 + length (tx_data p) \<le> mtu" and "mtu \<le> 65535" and "map_of ifs' sw \<noteq> None"
    and "carries_l2 link mtu (tx_sw_if_index p) sw"
    and "carries_routed link mtu PUNT_ACTION_IP4_ROUTED 0x0800 (tx_sw_if_index p) sw"
  shows "\<exists>dgram pre hdr post. punt_send ifs p = Ok dgram \<and>
    link dgram = pre @ hdr @ tx_data p @ post \<and> length hdr = 20 \<and> ip_checksum_verify hdr \<and>
    punt_receive ifs' (link dgram) =
      Ok (Some \<lparr>rx_sw_if_index = sw, rx_src_addr = tx_src_addr p,
        rx_dst_addr = (case io_l3_peer i of Some peer \<Rightarrow> if is_multicast_v4 (tx_dst_addr p) then peer else tx_dst_addr p
                       | None \<Rightarrow> tx_dst_addr p),
        rx_data = tx_data p\<rparr>)"
proof -
  define dst where "dst = (case io_l3_peer i of Some peer \<Rightarrow> if is_multicast_v4 (tx_dst_addr p) then peer else tx_dst_addr p
                       | None \<Rightarrow> tx_dst_addr p)"
  let ?ip = "build_ip_packet (tx_src_addr p) dst (tx_data p)"
  let ?own = "eth_header (multicast_mac_v4 (tx_dst_addr p) @ io_mac_address i) (own_tags (io_outer_vlan_id i) (io_inner_vlan_id i)) 0x0800"
  have m: "length (multicast_mac_v4 (tx_dst_addr p)) = 6" by (simp add: multicast_mac_v4_def Let_def)
  then have own: "wf_eth (multicast_mac_v4 (tx_dst_addr p) @ io_mac_address i) (own_tags (io_outer_vlan_id i) (io_inner_vlan_id i)) 0x0800"
    using assms(2) by (intro wf_own_tags) (simp_all add: is_tpid_def)
  obtain hdr where hdr: "?ip = hdr @ tx_data p" "length hdr = 20" "ip_checksum_verify hdr"
    using build_ip_packet_header ip_header_verifies length_ip_header by blast
  have "length ?ip \<le> mtu" using assms(4) by (simp add: hdr)
  moreover from this have "length (?own @ ?ip) \<le> 22 + mtu"
    using length_l2_frame [OF m assms(2), of "io_outer_vlan_id i" "io_inner_vlan_id i" "0x0800" ?ip] by (simp add: l2_frame_header)
  moreover obtain dgram where dgram: "punt_send ifs p = Ok dgram"
    "dgram = punt_datagram (tx_sw_if_index p) PUNT_ACTION_L2 (?own @ ?ip) \<or>
     dgram = punt_datagram (tx_sw_if_index p) PUNT_ACTION_IP4_ROUTED ?ip"
    using assms(1) by (cases "io_l3_peer i"; cases "is_multicast_v4 (tx_dst_addr p)")
      (auto simp: punt_send_def dst_def Let_def l2_frame_header)
  ultimately obtain act macs tags pad where eth: "length act = 4" "wf_eth macs tags 0x0800"
    and link: "link dgram = u32_le_bytes sw @ act @ eth_header macs tags 0x0800 @ ?ip @ pad"
    using link_delivers [OF assms(7,8) own] by blast
  have "punt_receive ifs' (link dgram) =
      Ok (Some \<lparr>rx_sw_if_index = sw, rx_src_addr = tx_src_addr p, rx_dst_addr = dst, rx_data = tx_data p\<rparr>)"
    unfolding link by (rule punt_receive_frame) (use eth assms(3-6) in simp_all)
  moreover have "link dgram = (u32_le_bytes sw @ act @ eth_header macs tags 0x0800) @ hdr @ tx_data p @ pad"
    by (simp add: link hdr(1))
  ultimately show ?thesis
    unfolding dst_def [symmetric] using dgram hdr(2,3) by blast
qed

text \<open>One link of this kind, from interface 7 to interface 7: it hands a frame over as it is.\<close>

definition example_link :: "u16 \<Rightarrow> u8 list \<Rightarrow> u8 list" where
  "example_link ethertype dgram =
     u32_le_bytes 7 @ [0, 0, 0, 0] @
     (if take 4 (drop 4 dgram) = u32_le_bytes PUNT_ACTION_L2 then [] else eth_header (replicate 12 0) [] ethertype) @ drop 8 dgram"

lemma example_link_datagram:
  "example_link et (punt_datagram sw PUNT_ACTION_L2 frame) = u32_le_bytes 7 @ [0, 0, 0, 0] @ frame @ []"
  "example_link et (punt_datagram sw PUNT_ACTION_IP4_ROUTED frame) =
     u32_le_bytes 7 @ [0, 0, 0, 0] @ eth_header (replicate 12 0) [] et @ frame @ []"
  "example_link et (punt_datagram sw PUNT_ACTION_IP6_ROUTED frame) =
     u32_le_bytes 7 @ [0, 0, 0, 0] @ eth_header (replicate 12 0) [] et @ frame @ []"
  by (simp_all add: example_link_def punt_datagram_def u32_le_bytes_def u32_be_bytes_def PUNT_ACTION_L2_def
      PUNT_ACTION_IP4_ROUTED_def PUNT_ACTION_IP6_ROUTED_def)

lemma example_link_carries:
  "carries_l2 (example_link et) mtu 7 7"
  "\<not> is_tpid et \<Longrightarrow> carries_routed (example_link et) mtu PUNT_ACTION_IP4_ROUTED et 7 7"
  "\<not> is_tpid et \<Longrightarrow> carries_routed (example_link et) mtu PUNT_ACTION_IP6_ROUTED et 7 7"
proof -
  show "carries_l2 (example_link et) mtu 7 7"
    unfolding carries_l2_def example_link_datagram
    by (intro allI impI exI [of _ "[0, 0, 0, 0]"] exI [of _ "[]"] conjI refl) simp
  assume "\<not> is_tpid et"
  then have w: "wf_eth (replicate 12 0) [] et" by (simp add: wf_eth_def)
  have l: "length [0, 0, 0, 0 :: u8] = 4" by simp
  show "carries_routed (example_link et) mtu PUNT_ACTION_IP4_ROUTED et 7 7"
    "carries_routed (example_link et) mtu PUNT_ACTION_IP6_ROUTED et 7 7"
    unfolding carries_routed_def example_link_datagram using w l by blast+
qed

definition example_io :: "(u32 \<times> IoInterface) list" where
  "example_io = [(7, \<lparr>io_name = ''wan.110'', io_sw_if_index = 7, io_kernel_ifindex = 3, io_address = 0x0A000001,
     io_mac_address = [2, 0, 0, 0, 0, 1], io_outer_vlan_id = Some 110, io_inner_vlan_id = None, io_l3_peer = None\<rparr>)]"

subsection \<open>OSPFv3\<close>

text \<open>The fixed header \<^verbatim>\<open>build_ipv6_packet\<close> writes.\<close>

lemma ipv6_header_fields:
  "byte_at (build_ipv6_packet src dst data @ rest) 0 = Ok 0x6C" "byte_at (build_ipv6_packet src dst data @ rest) 6 = Ok 89"
  "u16_at (build_ipv6_packet src dst data @ rest) 4 = Ok (of_nat (length data))"
  by (simp_all add: build_ipv6_packet_def read_defs be_bytes_defs byte_at_def)

lemma ipv6_header_slices:
  "slice (build_ipv6_packet src dst data @ rest) 8 24 = Ok (ipv6_octets src)"
  "slice (build_ipv6_packet src dst data @ rest) 24 40 = Ok (ipv6_octets dst)"
  "slice (build_ipv6_packet src dst data @ rest) 40 (40 + length data) = Ok data"
  by (simp_all add: build_ipv6_packet_def slice_def)

lemma length_ipv6_packet: "length (build_ipv6_packet src dst data) = 40 + length data"
  by (simp add: build_ipv6_packet_def)

lemma punt_receive_v3_frame:
  assumes "wf_eth macs tags et" and "length act = 4" and "16 \<le> length data" and "length data \<le> 65535" and "map_of ifs sw \<noteq> None"
  shows "punt_receive_v3 ifs (u32_le_bytes sw @ act @ eth_header macs tags et @ build_ipv6_packet src dst data @ pad) =
    Ok (Some \<lparr>rx3_sw_if_index = sw, rx3_src_addr = src, rx3_dst_addr = dst, rx3_data = data\<rparr>)"
proof -
  let ?eth = "eth_header macs tags et" and ?ip = "build_ipv6_packet src dst data @ pad"
  define pre where "pre = u32_le_bytes sw @ act @ ?eth"
  define buf where "buf = pre @ ?ip"
  have eth: "eth_l3_offset (drop PUNT_DESC_LEN buf) = Some (length ?eth)"
    using eth_l3_offset_header [OF assms(1)] assms(2) by (simp add: buf_def pre_def PUNT_DESC_LEN_def)
  have l3: "8 + length ?eth = length pre" using assms(2) by (simp add: pre_def)
  have len: "length buf = length pre + 40 + length data + length pad" "22 \<le> length pre"
    using assms(1,2) by (simp_all add: buf_def pre_def wf_eth_def length_eth_header length_ipv6_packet)
  have sw: "u32_le_at buf 0 = Ok sw" by (simp add: buf_def pre_def u32_le_at_bytes)
  have fields: "byte_at buf (length pre) = Ok 0x6C" "byte_at buf (length pre + 6) = Ok 89"
    "u16_at buf (length pre + 4) = Ok (of_nat (length data))"
    using byte_at_plus [of pre ?ip 0] byte_at_plus [of pre ?ip 6] read_at_plus(1) [of pre ?ip 4]
    unfolding ipv6_header_fields buf_def by simp_all
  have slices: "slice buf (length pre + 8) (length pre + 24) = Ok (ipv6_octets src)"
    "slice buf (length pre + 24) (length pre + 40) = Ok (ipv6_octets dst)"
    "slice buf (length pre + 40) (length pre + (40 + length data)) = Ok data"
    unfolding buf_def read_at_plus by (simp_all add: ipv6_header_slices)
  have ver: "drop_bit 4 (0x6C :: u8) = 6" by code_simp
  have plen: "unat (of_nat (length data) :: u16) = length data" using assms(4) by (simp add: unat_of_nat)
  have "punt_receive_v3 ifs buf = Ok (Some \<lparr>rx3_sw_if_index = sw, rx3_src_addr = src, rx3_dst_addr = dst, rx3_data = data\<rparr>)"
    using assms(3-5) len eth unfolding punt_receive_v3_def
    by (simp add: PUNT_DESC_LEN_def ETHERNET_HEADER_LEN_def IPV6_HEADER_LEN_def Let_def sw fields slices l3 ver plen add.assoc)
  then show ?thesis by (simp add: buf_def pre_def)
qed

lemma ospfv3_checksum_eq: "ospfv3_checksum src dst ospf = ip_checksum (pseudo_header src dst (length ospf) @ ospf)"
  by (simp add: ospfv3_checksum_def ip_checksum_def)

lemma length_ospfv3_header [simp]: "length (ospfv3_header_encode h) = 16"
  by (simp add: ospfv3_header_encode_def)

lemma write_v3_checksum:
  "write_at OSPF_V3_CHECKSUM_OFFSET (u16_be_bytes c) (ospfv3_header_encode h @ bytes) =
     ospfv3_header_encode (h\<lparr>h3_checksum := c\<rparr>) @ bytes"
  by (simp add: write_at_def OSPF_V3_CHECKSUM_OFFSET_def ospfv3_header_encode_def be_bytes_defs)

lemma checksum_in_place_header:
  fixes src dst h bytes
  defines "pkt c \<equiv> ospfv3_header_encode (h\<lparr>h3_checksum := c\<rparr>) @ bytes"
  shows "ospfv3_compute_checksum_in_place src dst (ospfv3_header_encode h @ bytes) = pkt (ospfv3_checksum src dst (pkt 0))"
proof -
  have "write_at OSPF_V3_CHECKSUM_OFFSET [0, 0] (ospfv3_header_encode h @ bytes) = pkt 0"
    using write_v3_checksum [of 0 h bytes] by (simp add: pkt_def u16_be_bytes_def)
  then show ?thesis
    using write_v3_checksum [of _ "h\<lparr>h3_checksum := 0\<rparr>" bytes]
    by (simp add: ospfv3_compute_checksum_in_place_def Let_def OSPF_V3_CHECKSUM_OFFSET_def pkt_def)
qed

lemma checksum_in_place_verifies:
  assumes "length bytes \<le> 65519"
  shows "ospfv3_checksum src dst (ospfv3_compute_checksum_in_place src dst (ospfv3_header_encode h @ bytes)) = 0"
proof -
  let ?n = "16 + length bytes"
  let ?pre = "pseudo_header src dst ?n @ [h3_version h, ospfv3_type_to_u8 (h3_packet_type h)] @ u16_be_bytes (h3_packet_length h) @
     u32_be_bytes (h3_router_id h) @ u32_be_bytes (h3_area_id h)"
  let ?post = "[h3_instance_id h, 0] @ bytes"
  have "ip_checksum_verify (?pre @ u16_be_bytes (ip_checksum (?pre @ [0, 0] @ ?post)) @ ?post)"
    using assms by (intro ip_checksum_fill_verifies) (simp_all add: pseudo_header_def)
  then show ?thesis
    unfolding checksum_in_place_header ospfv3_checksum_eq
    by (simp add: ip_checksum_verify_def) (simp add: ospfv3_header_encode_def u16_be_bytes_def)
qed

text \<open>
  A packet the OSPFv3 instance builds arrives at the neighbor's instance. Sent through the punt socket of an enrolled
  interface over a link of the documented kind, it is passed on by the reader of the receiving interface with its
  addresses; its header parses with the packet type, router id, area and instance it was built with, the body
  cut out of it is the body that was encoded, and the checksum over the pseudo-header, which the sending side fills in, verifies.
\<close>

theorem punt_v3_packet_arrives:
  assumes "build_v3_packet rid aid inst ty bytes out src dst = Ok p"
    and "map_of ifs out = Some i" and "length (io3_mac_address i) = 6"
    and "56 + length bytes \<le> mtu" and "map_of ifs' sw \<noteq> None"
    and "carries_l2 link mtu out sw" and "carries_routed link mtu PUNT_ACTION_IP6_ROUTED 0x86DD out sw"
  shows "\<exists>dgram rx h. punt_send_v3 ifs p = Ok dgram \<and>
    punt_receive_v3 ifs' (link dgram) = Ok (Some rx) \<and>
    rx3_sw_if_index rx = sw \<and> rx3_src_addr rx = src \<and> rx3_dst_addr rx = dst \<and>
    ospfv3_header_parse (rx3_data rx) = Ok h \<and> h3_packet_type h = ty \<and> h3_router_id h = rid \<and> h3_area_id h = aid \<and>
    h3_instance_id h = inst \<and> rx_body h (rx3_data rx) = Ok bytes \<and> ospfv3_checksum src dst (rx3_data rx) = 0"
proof -
  obtain len where len: "ospfv3_total_length (length bytes) = Ok len"
    and p: "p = \<lparr>tx3_sw_if_index = out, tx3_src_addr = src, tx3_dst_addr = dst,
      tx3_data = ospfv3_header_encode ((ospfv3_header_new ty rid aid)\<lparr>h3_packet_length := len, h3_instance_id := inst\<rparr>) @ bytes\<rparr>"
    using assms(1) by (auto simp: build_v3_packet_def bindR_eq_Ok_iff)
  have fits: "length bytes \<le> 65519" "unat len = 16 + length bytes"
    using len by (auto simp: ospfv3_total_length_def OSPFV3_HEADER_LEN_def unat_of_nat unat_word_ariths(1) split: if_splits)
  define h0 where "h0 = (ospfv3_header_new ty rid aid)\<lparr>h3_packet_length := len, h3_instance_id := inst\<rparr>"
  define data where "data = ospfv3_compute_checksum_in_place src dst (tx3_data p)"
  obtain ck where data: "data = ospfv3_header_encode (h0\<lparr>h3_checksum := ck\<rparr>) @ bytes"
    by (simp add: data_def p h0_def checksum_in_place_header)
  let ?h = "h0\<lparr>h3_checksum := ck\<rparr>" and ?ip = "build_ipv6_packet src dst data"
  have verify: "ospfv3_checksum src dst data = 0"
    unfolding data_def p using checksum_in_place_verifies [OF fits(1)] by simp
  have parse: "ospfv3_header_parse data = Ok ?h"
    unfolding data by (rule ospfv3_header_round_trip) (simp add: h0_def ospfv3_header_new_def)
  have cut: "rx_body ?h data = Ok bytes"
    using fits(2) by (simp add: rx_body_def data h0_def slice_def OSPFV3_HEADER_LEN_def)
  let ?own = "eth_header (multicast_mac_v6 dst @ io3_mac_address i) (own_tags (io3_outer_vlan_id i) (io3_inner_vlan_id i)) 0x86DD"
  have own: "wf_eth (multicast_mac_v6 dst @ io3_mac_address i) (own_tags (io3_outer_vlan_id i) (io3_inner_vlan_id i)) 0x86DD"
    using assms(3) by (intro wf_own_tags) (simp_all add: is_tpid_def multicast_mac_v6_def)
  have frame: "multicast_mac_v6 dst @ io3_mac_address i @ vlan_tags (io3_outer_vlan_id i) (io3_inner_vlan_id i) @ 0x86 # 0xDD # ?ip =
      ?own @ ?ip"
    by (simp add: eth_header_def vlan_tags_own) (simp add: u16_be_bytes_def; code_simp)
  have p': "tx3_sw_if_index p = out" "tx3_src_addr p = src" "tx3_dst_addr p = dst" by (simp_all add: p)
  have len: "16 \<le> length data" "length data \<le> 65535" using fits(1) by (simp_all add: data)
  have size: "length ?ip \<le> mtu" "length (?own @ ?ip) \<le> 22 + mtu"
    using assms(3,4) by (auto simp: length_ipv6_packet data eth_header_def own_tags_def multicast_mac_v6_def split: option.split)
  obtain dgram where dgram: "punt_send_v3 ifs p = Ok dgram"
    "dgram = punt_datagram out PUNT_ACTION_L2 (?own @ ?ip) \<or> dgram = punt_datagram out PUNT_ACTION_IP6_ROUTED ?ip"
    using assms(2) by (cases "is_multicast_v6 dst") (auto simp: punt_send_v3_def p' data_def [symmetric] Let_def frame)
  obtain act macs tags pad where eth: "length act = 4" "wf_eth macs tags 0x86DD"
    and link: "link dgram = u32_le_bytes sw @ act @ eth_header macs tags 0x86DD @ ?ip @ pad"
    using link_delivers [OF assms(6,7) own size(2,1) dgram(2)] by blast
  have "punt_receive_v3 ifs' (link dgram) =
      Ok (Some \<lparr>rx3_sw_if_index = sw, rx3_src_addr = src, rx3_dst_addr = dst, rx3_data = data\<rparr>)"
    unfolding link by (rule punt_receive_v3_frame [OF eth(2,1) len assms(5)])
  then show ?thesis
    using dgram(1) parse cut verify
    by (intro exI [of _ dgram] exI [of _ "\<lparr>rx3_sw_if_index = sw, rx3_src_addr = src, rx3_dst_addr = dst, rx3_data = data\<rparr>"]
        exI [of _ ?h]) (simp add: h0_def ospfv3_header_new_def)
qed

definition example_io3 :: "(u32 \<times> IoInterfaceV3) list" where
  "example_io3 = [(7, \<lparr>io3_name = ''wan.110'', io3_sw_if_index = 7, io3_kernel_ifindex = 3, io3_link_local = 0xFE800000000000000000000000000001,
     io3_mac_address = [2, 0, 0, 0, 0, 1], io3_outer_vlan_id = Some 110, io3_inner_vlan_id = Some 5\<rparr>)]"

theorem punt_v3_packet_arrives_witness:
  "\<exists>p dgram rx h. build_v3_packet 1 0 0 V3_Hello (replicate 20 0) 7 0xFE800000000000000000000000000001 ALL_SPF_ROUTERS_V6 = Ok p \<and>
    punt_send_v3 example_io3 p = Ok dgram \<and>
    punt_receive_v3 example_io3 (example_link 0x86DD dgram) = Ok (Some rx) \<and>
    rx3_sw_if_index rx = 7 \<and> ospfv3_header_parse (rx3_data rx) = Ok h \<and> h3_packet_type h = V3_Hello \<and> h3_router_id h = 1 \<and>
    rx_body h (rx3_data rx) = Ok (replicate 20 0)"
proof -
  obtain p where "build_v3_packet 1 0 0 V3_Hello (replicate 20 0) 7 0xFE800000000000000000000000000001 ALL_SPF_ROUTERS_V6 = Ok p"
    by (simp add: build_v3_packet_def ospfv3_total_length_def OSPFV3_HEADER_LEN_def)
  then show ?thesis
    using punt_v3_packet_arrives [where p = p and ifs = example_io3 and ifs' = example_io3 and sw = 7 and mtu = 1500
        and link = "example_link 0x86DD" and i = "snd (hd example_io3)"] example_link_carries [of "0x86DD" 1500]
    by (fastforce simp: example_io3_def is_tpid_def)
qed

section \<open>Panics of the readers\<close>

text \<open>
  C26. Which datagram makes a reader task panic. The punt reader of OSPFv2 panics exactly on a datagram whose IPv4 header
  announces a total length smaller than its own header length, all other checks having passed; the check is
  missing. The readers of the raw IPv4 socket and of the OSPFv3 punt socket never panic, whatever they receive.
\<close>

theorem reader_panics_iff:
  "(punt_receive ifs buf = Panic \<longleftrightarrow>
     66 \<le> length buf \<and>
     (\<exists>off. eth_l3_offset (drop 8 buf) = Some off \<and> 28 + off \<le> length buf \<and> 5 \<le> unat ((buf ! (8 + off)) AND 0x0F) \<and>
       buf ! (17 + off) = 89 \<and> 8 + off + unat (u16_of_be (buf ! (10 + off)) (buf ! (11 + off))) \<le> length buf \<and>
       unat (u16_of_be (buf ! (10 + off)) (buf ! (11 + off))) < 4 * unat ((buf ! (8 + off)) AND 0x0F))) \<and>
   raw_receive sw buf \<noteq> Panic \<and> punt_receive_v3 ifs3 buf \<noteq> Panic"
proof (intro conjI)
  show "punt_receive ifs buf = Panic \<longleftrightarrow>
     66 \<le> length buf \<and>
     (\<exists>off. eth_l3_offset (drop 8 buf) = Some off \<and> 28 + off \<le> length buf \<and> 5 \<le> unat ((buf ! (8 + off)) AND 0x0F) \<and>
       buf ! (17 + off) = 89 \<and> 8 + off + unat (u16_of_be (buf ! (10 + off)) (buf ! (11 + off))) \<le> length buf \<and>
       unat (u16_of_be (buf ! (10 + off)) (buf ! (11 + off))) < 4 * unat ((buf ! (8 + off)) AND 0x0F))"
    unfolding punt_receive_def PUNT_DESC_LEN_def ETHERNET_HEADER_LEN_def
    by (auto simp: Let_def bindR_eq_Panic_iff u32_le_at_def in_bounds slice_def split: option.splits if_splits)
  show "raw_receive sw buf \<noteq> Panic"
    by (auto simp: raw_receive_def Let_def bindR_eq_Panic_iff in_bounds)
  show "punt_receive_v3 ifs3 buf \<noteq> Panic"
    unfolding punt_receive_v3_def PUNT_DESC_LEN_def ETHERNET_HEADER_LEN_def IPV6_HEADER_LEN_def
    by (auto simp: Let_def bindR_eq_Panic_iff u32_le_at_def in_bounds split: option.splits if_splits)
qed

end
