(* ===== verification/Flood_V3.thy ===== *)
theory Flood_V3
  imports Exchange_V3
begin

text \<open>
  \<^verbatim>\<open>src/instance_v3.rs\<close>, self-originated LSAs and flooding: \<^verbatim>\<open>build_self_lsa\<close>, \<^verbatim>\<open>insert_self_lsa\<close>, \<^verbatim>\<open>flood_lsa\<close>,
  \<^verbatim>\<open>flood_lsa_link_scope\<close> and every \<^verbatim>\<open>originate_*\<close> operation. A self-originated LSA supersedes the instance
  held, carries a checksum that verifies, and is queued to exactly the Full neighbors in its scope.
\<close>

section \<open>Self-originated LSAs\<close>

text \<open>A loop that passes the state along and may panic.\<close>

fun foldR :: "('x \<Rightarrow> 's \<Rightarrow> ('e, 's) outcome) \<Rightarrow> 'x list \<Rightarrow> 's \<Rightarrow> ('e, 's) outcome" where
  "foldR f [] s = Ok s"
| "foldR f (x # xs) s = bindR (f x s) (foldR f xs)"

text \<open>The header and body as bytes, with the checksum filled into both the bytes and the header.\<close>

definition seal_lsa :: "LsaV3Header \<Rightarrow> u8 list \<Rightarrow> ipv4 option \<Rightarrow> LsaEntryV3" where
  "seal_lsa h bytes area =
     (let raw = lsa_v3_header_encode h @ bytes;
          (c0, c1) = fletcher16 (drop 2 raw) 14
      in \<lparr>e3_header = h\<lparr>l3_checksum := u16_of_be c0 c1\<rparr>, e3_raw = raw[16 := c0, 17 := c1], e3_area = area\<rparr>)"

definition self_seq :: "'c InstanceV3 \<Rightarrow> LsaV3Type \<Rightarrow> ipv4 \<Rightarrow> ipv4 option \<Rightarrow> i32" where
  "self_seq s ty lsid area =
     (case lsdb3_get (i3_lsdb s) \<lparr>k3_area = area, k3_type = ty, k3_lsid = lsid, k3_adv = i3_router_id s\<rparr> of
        Some existing \<Rightarrow> l3_seq (e3_header existing) + 1
      | None \<Rightarrow> INITIAL_SEQUENCE_NUMBER)"

definition build_self_lsa :: "LsaV3Type \<Rightarrow> ipv4 \<Rightarrow> u8 list \<Rightarrow> ipv4 option \<Rightarrow> 'c InstanceV3 \<Rightarrow> LsaEntryV3 parsed3" where
  "build_self_lsa ty lsid bytes area s =
     bindR (lsa_v3_total_length (length bytes)) (\<lambda>len.
     Ok (seal_lsa \<lparr>l3_age = 0, l3_type = ty, l3_lsid = lsid, l3_adv = i3_router_id s, l3_seq = self_seq s ty lsid area,
           l3_checksum = 0, l3_length = len\<rparr> bytes area))"

section \<open>Flooding\<close>

definition queue_lsu :: "LsaEntryV3 \<Rightarrow> NeighborV3 \<Rightarrow> NeighborV3" where
  "queue_lsu e n = n\<lparr>nb3_pending_lsu := nb3_pending_lsu n @ [\<lparr>raw_header = e3_header e, raw_bytes = e3_raw e\<rparr>]\<rparr>"

text \<open>Whether an LSA may be flooded out of an interface in an area.\<close>

definition floods_into :: "(ipv4 \<times> AreaType) list \<Rightarrow> LsaEntryV3 \<Rightarrow> ipv4 \<Rightarrow> bool" where
  "floods_into area_types e aid =
     (let ty = l3_type (e3_header e);
          area_type = (case map_of area_types aid of Some t \<Rightarrow> t | None \<Rightarrow> Normal)
      in if ty = AsExternalV3 \<and> area_type \<noteq> Normal then False
         else if ty = NssaV3 \<and> area_type \<noteq> Nssa then False
         else (case e3_area e of
                 Some a \<Rightarrow> ty = AsExternalV3 \<or> ty = LinkV3 \<or> aid = a
               | None \<Rightarrow> True))"

definition flood_iface :: "LsaEntryV3 \<Rightarrow> (u32 \<times> ipv4) option \<Rightarrow> InterfaceV3 \<Rightarrow> InterfaceV3" where
  "flood_iface e exclude i =
     i\<lparr>if3_neighbors := map_values (\<lambda>nid n.
        if nb3_state n = FullV3 \<and> exclude \<noteq> Some (io3_sw_if_index (if3_io i), nid) then queue_lsu e n else n) (if3_neighbors i)\<rparr>"

definition flood_lsa_v3 :: "LsaEntryV3 \<Rightarrow> (u32 \<times> ipv4) option \<Rightarrow> 'c InstanceV3 \<Rightarrow> 'c InstanceV3" where
  "flood_lsa_v3 e exclude s =
     s\<lparr>i3_interfaces := map_values (\<lambda>_ i.
        if floods_into (i3_area_types s) e (if3_area_id i) then flood_iface e exclude i else i) (i3_interfaces s)\<rparr>"

definition flood_lsa_link_scope :: "LsaEntryV3 \<Rightarrow> u32 \<Rightarrow> 'c InstanceV3 \<Rightarrow> 'c InstanceV3" where
  "flood_lsa_link_scope e sw s =
     s\<lparr>i3_interfaces := modify_key (\<lambda>i. i\<lparr>if3_neighbors := map_values (\<lambda>_ n.
        if nb3_state n = FullV3 then queue_lsu e n else n) (if3_neighbors i)\<rparr>) sw (i3_interfaces s)\<rparr>"

definition insert_self_lsa :: "LsaV3Type \<Rightarrow> ipv4 \<Rightarrow> u8 list \<Rightarrow> ipv4 option \<Rightarrow> 'c InstanceV3 \<Rightarrow> 'c InstanceV3 parsed3" where
  "insert_self_lsa ty lsid bytes area s =
     bindR (build_self_lsa ty lsid bytes area s) (\<lambda>e.
     Ok (flood_lsa_v3 e None (s\<lparr>i3_lsdb := lsdb3_insert e (i3_lsdb s)\<rparr>)))"

section \<open>Router, network and link LSAs\<close>

definition p2p_links3 :: "InterfaceV3 \<Rightarrow> RouterLinkV3 list" where
  "p2p_links3 i =
     map (\<lambda>n. \<lparr>rl3_type = TYPE_POINT_TO_POINT, rl3_metric = if3_cost i, rl3_interface_id = if3_interface_id i,
            rl3_neighbor_interface_id = nb3_interface_id n, rl3_neighbor_router_id = nb3_router_id n\<rparr>)
       (filter (\<lambda>n. nb3_state n = FullV3) (map snd (if3_neighbors i)))"

text \<open>The interface id of the designated router, where it is ourselves or a Full neighbor.\<close>

definition dr_interface_id :: "ipv4 \<Rightarrow> InterfaceV3 \<Rightarrow> u32 option" where
  "dr_interface_id rid i =
     (if if3_dr i = UNSPECIFIED then None
      else if if3_dr i = rid then Some (if3_interface_id i)
      else (case map_of (if3_neighbors i) (if3_dr i) of
              Some n \<Rightarrow> if nb3_state n \<noteq> FullV3 then None else Some (nb3_interface_id n)
            | None \<Rightarrow> None))"

definition router_links3 :: "ipv4 \<Rightarrow> InterfaceV3 \<Rightarrow> RouterLinkV3 list" where
  "router_links3 rid i =
     (if elects_dr (if3_network_type i) then
        (case dr_interface_id rid i of
           None \<Rightarrow> []
         | Some iid \<Rightarrow> [\<lparr>rl3_type = TYPE_TRANSIT_NETWORK, rl3_metric = if3_cost i, rl3_interface_id = if3_interface_id i,
                          rl3_neighbor_interface_id = iid, rl3_neighbor_router_id = if3_dr i\<rparr>])
      else p2p_links3 i)"

definition router_flags3 :: "'c InstanceV3 \<Rightarrow> u8" where
  "router_flags3 s = (if is_abr3 s then V3_FLAG_B else 0) OR (if is_asbr3 s then V3_FLAG_E else 0)"

definition area_links3 :: "'c InstanceV3 \<Rightarrow> ipv4 \<Rightarrow> RouterLinkV3 list" where
  "area_links3 s aid =
     concat (map (router_links3 (i3_router_id s)) (filter (\<lambda>i. if3_area_id i = aid) (map snd (i3_interfaces s))))"

definition originate_router_lsa_v3 :: "'c InstanceV3 \<Rightarrow> 'c InstanceV3 parsed3" where
  "originate_router_lsa_v3 s =
     (let flags = router_flags3 s in
      foldR (\<lambda>aid s. insert_self_lsa RouterV3 UNSPECIFIED
          (router_lsa_v3_encode \<lparr>r3_flags = flags, r3_options = options_v3_standard, r3_links = area_links3 s aid\<rparr>) (Some aid) s)
        (areas3 s) s)"

definition full_routers :: "InterfaceV3 \<Rightarrow> ipv4 list" where
  "full_routers i = map nb3_router_id (filter (\<lambda>n. nb3_state n = FullV3) (map snd (if3_neighbors i)))"

definition network_lsas_to_emit :: "'c InstanceV3 \<Rightarrow> (u32 \<times> ipv4 \<times> ipv4 list) list" where
  "network_lsas_to_emit s =
     map (\<lambda>i. (if3_interface_id i, if3_area_id i, i3_router_id s # full_routers i))
       (filter (\<lambda>i. elects_dr (if3_network_type i) \<and> if3_state i = DRV3 \<and> \<not> length (i3_router_id s # full_routers i) < 2)
         (map snd (i3_interfaces s)))"

definition originate_network_lsas_v3 :: "'c InstanceV3 \<Rightarrow> 'c InstanceV3 parsed3" where
  "originate_network_lsas_v3 s =
     foldR (\<lambda>(iid, aid, routers). insert_self_lsa NetworkV3 iid
         (network_lsa_v3_encode \<lparr>n3_options = options_v3_standard, n3_attached_routers = routers\<rparr>) (Some aid))
       (network_lsas_to_emit s) s"

definition plain_prefix :: "ipv6 \<times> u8 \<Rightarrow> Ospfv3Prefix" where
  "plain_prefix = (\<lambda>(addr, len). \<lparr>pf_length = len, pf_options = 0, pf_metric = 0, pf_address = addr\<rparr>)"

definition link_lsas_to_emit :: "'c InstanceV3 \<Rightarrow> (u32 \<times> u32 \<times> ipv4 \<times> LinkLsaV3) list" where
  "link_lsas_to_emit s =
     map (\<lambda>i. (if3_interface_id i, io3_sw_if_index (if3_io i), if3_area_id i,
           \<lparr>ll_priority = if3_priority i, ll_options = options_v3_standard, ll_address = io3_link_local (if3_io i),
            ll_prefixes = map plain_prefix (if3_global_prefixes i)\<rparr>))
       (filter (\<lambda>i. if3_state i \<noteq> IfDownV3 \<and> io3_link_local (if3_io i) \<noteq> 0) (map snd (i3_interfaces s)))"

definition originate_link_lsa_v3 :: "u32 \<times> u32 \<times> ipv4 \<times> LinkLsaV3 \<Rightarrow> 'c InstanceV3 \<Rightarrow> 'c InstanceV3 parsed3" where
  "originate_link_lsa_v3 = (\<lambda>(iid, sw, aid, lsa) s.
     bindR (link_lsa_v3_encode lsa) (\<lambda>bytes.
     bindR (build_self_lsa LinkV3 iid bytes (Some aid) s) (\<lambda>e.
     Ok (flood_lsa_link_scope e sw (s\<lparr>i3_lsdb := lsdb3_insert e (i3_lsdb s)\<rparr>)))))"

definition originate_link_lsas_v3 :: "'c InstanceV3 \<Rightarrow> 'c InstanceV3 parsed3" where
  "originate_link_lsas_v3 s = foldR originate_link_lsa_v3 (link_lsas_to_emit s) s"

section \<open>Intra-area prefixes\<close>

definition via_network_lsa :: "InterfaceV3 \<Rightarrow> bool" where
  "via_network_lsa i \<longleftrightarrow> elects_dr (if3_network_type i) \<and> if3_state i = DRV3 \<and>
     list_ex (\<lambda>(_, n). nb3_state n = FullV3) (if3_neighbors i)"

definition network_iaps :: "'c InstanceV3 \<Rightarrow> (u32 \<times> ipv4 \<times> Ospfv3Prefix list) list" where
  "network_iaps s =
     map (\<lambda>i. (if3_interface_id i, if3_area_id i, map plain_prefix (if3_global_prefixes i)))
       (filter (\<lambda>i. if3_global_prefixes i \<noteq> [] \<and> via_network_lsa i) (map snd (i3_interfaces s)))"

definition router_prefixes :: "'c InstanceV3 \<Rightarrow> ipv4 \<Rightarrow> Ospfv3Prefix list" where
  "router_prefixes s aid =
     concat (map (\<lambda>i. map plain_prefix (if3_global_prefixes i))
       (filter (\<lambda>i. if3_area_id i = aid \<and> \<not> via_network_lsa i) (map snd (i3_interfaces s))))"

definition insert_iap :: "u16 \<Rightarrow> ipv4 \<Rightarrow> Ospfv3Prefix list \<Rightarrow> ipv4 \<Rightarrow> 'c InstanceV3 \<Rightarrow> 'c InstanceV3 parsed3" where
  "insert_iap ref_type lsid prefixes aid s =
     bindR (intra_area_prefix_encode \<lparr>iap_ls_type = ref_type, iap_lsid = lsid, iap_adv = i3_router_id s, iap_prefixes = prefixes\<rparr>)
       (\<lambda>bytes. insert_self_lsa IntraAreaPrefixV3 lsid bytes (Some aid) s)"

definition originate_intra_area_prefix_lsas :: "'c InstanceV3 \<Rightarrow> 'c InstanceV3 parsed3" where
  "originate_intra_area_prefix_lsas s =
     (let by_area = router_prefixes s in
      bindR (foldR (\<lambda>(iid, aid, ps). insert_iap (lsa_v3_type_to_u16 NetworkV3) iid ps aid) (network_iaps s) s) (\<lambda>s'.
      foldR (\<lambda>aid. insert_iap (lsa_v3_type_to_u16 RouterV3) UNSPECIFIED (by_area aid) aid) (areas3 s) s'))"

section \<open>External LSAs\<close>

definition prefix_covered_by_v6 :: "ipv6 \<Rightarrow> ipv6 \<Rightarrow> u8 \<Rightarrow> bool" where
  "prefix_covered_by_v6 addr summary len =
     (if len = 0 then True
      else if len > 128 then False
      else (let m = push_bit (128 - unat len) (- 1) in addr AND m = summary AND m))"

text \<open>An AS-External-LSA without forwarding address and referenced LSA.\<close>

definition plain_external :: "u8 \<Rightarrow> u32 \<Rightarrow> u32 \<Rightarrow> ipv6 \<times> u8 \<Rightarrow> AsExternalLsaV3" where
  "plain_external metric_type metric tag p =
     \<lparr>ae_type_2 = (metric_type = 2), ae_fwd_present = False, ae_tag_present = (tag \<noteq> 0), ae_metric = metric,
      ae_prefix = plain_prefix p, ae_ls_type = 0, ae_fwd = None, ae_tag = (if tag \<noteq> 0 then Some tag else None), ae_lsid = None\<rparr>"

definition insert_external :: "ipv4 \<Rightarrow> AsExternalLsaV3 \<Rightarrow> 'c InstanceV3 \<Rightarrow> 'c InstanceV3 parsed3" where
  "insert_external lsid ext s =
     bindR (as_external_v3_encode ext) (\<lambda>bytes. insert_self_lsa AsExternalV3 lsid bytes None s)"

definition summary_lsid :: "nat \<Rightarrow> ipv4" where
  "summary_lsid idx = 0x1000 + word_of_nat idx"

definition originate_summary_address_lsas_v3 :: "ParsedSummaryAddress6 list \<Rightarrow> 'c InstanceV3 \<Rightarrow> 'c InstanceV3 parsed3" where
  "originate_summary_address_lsas_v3 ents =
     foldR (\<lambda>(idx, e) s. if s6_no_advertise e then Ok s
         else insert_external (summary_lsid idx)
                (plain_external (s6_metric_type e) (s6_metric e) (s6_tag e) (s6_prefix e, s6_prefix_len e)) s)
       (List.enumerate 0 ents)"

definition originate_default_route_lsa_v3 :: "u32 \<Rightarrow> u8 \<Rightarrow> 'c InstanceV3 \<Rightarrow> 'c InstanceV3 parsed3" where
  "originate_default_route_lsa_v3 metric metric_type = insert_external UNSPECIFIED (plain_external metric_type metric 0 (0, 0))"

text \<open>One withdrawn LSA: a new instance at the age limit over the body held.\<close>

definition flush_external_v3 :: "LsaKeyV3 \<Rightarrow> 'c InstanceV3 \<Rightarrow> 'c InstanceV3 parsed3" where
  "flush_external_v3 k s =
     (case lsdb3_get (i3_lsdb s) k of
        None \<Rightarrow> Ok s
      | Some existing \<Rightarrow>
          bindR (slice_from (e3_raw existing) LSA_V3_HEADER_LEN) (\<lambda>bytes.
          (let e = seal_lsa ((e3_header existing)\<lparr>l3_age := MAX_AGE, l3_seq := l3_seq (e3_header existing) + 1\<rparr>) bytes (e3_area existing)
           in Ok (flood_lsa_v3 e None (s\<lparr>i3_lsdb := lsdb3_insert e (i3_lsdb s)\<rparr>)))))"

definition externals_outside :: "ipv4 list \<Rightarrow> 'c InstanceV3 \<Rightarrow> LsaKeyV3 list" where
  "externals_outside keep s =
     map entry3_key (filter (\<lambda>e. l3_type (e3_header e) = AsExternalV3 \<and> l3_adv (e3_header e) = i3_router_id s \<and>
        l3_lsid (e3_header e) \<notin> set keep) (lsdb3_iter (i3_lsdb s)))"

definition flush_self_externals_outside_v3 :: "ipv4 list \<Rightarrow> 'c InstanceV3 \<Rightarrow> 'c InstanceV3 parsed3" where
  "flush_self_externals_outside_v3 keep s = foldR flush_external_v3 (externals_outside keep s) s"

text \<open>\<^verbatim>\<open>evaluate_universal\<close> is the matcher of the \<^verbatim>\<open>ribd_proto\<close> crate.\<close>

definition external_kept_v3 ::
  "('c \<Rightarrow> ipv6 \<times> u8 \<Rightarrow> RedistributeSource \<Rightarrow> bool) \<Rightarrow> ParsedSummaryAddress6 list \<Rightarrow> 'c RouteMap option \<Rightarrow> ipv6 \<times> u8 \<Rightarrow> bool" where
  "external_kept_v3 evaluate_universal summaries rm = (\<lambda>(addr, len).
     (if list_ex (\<lambda>x. prefix_covered_by_v6 addr (s6_prefix x) (s6_prefix_len x)) summaries then False
      else (case rm of
              None \<Rightarrow> True
            | Some stmts \<Rightarrow> evaluate_route_map evaluate_universal stmts (addr, len) Connected)))"

definition external_lsid :: "nat \<Rightarrow> ipv4" where
  "external_lsid idx = word_of_nat idx + 1"

definition originate_external_lsas_v3 ::
  "('c \<Rightarrow> ipv6 \<times> u8 \<Rightarrow> RedistributeSource \<Rightarrow> bool) \<Rightarrow> (ipv6 \<times> u8) list \<Rightarrow> ParsedSummaryAddress6 list \<Rightarrow> 'c InstanceV3 \<Rightarrow>
   'c InstanceV3 parsed3" where
  "originate_external_lsas_v3 evaluate_universal externals summaries s =
     (if \<not> i3_asbr s \<or> i3_redistribute s = [] then flush_self_externals_outside_v3 [] s
      else
        (case List.find (\<lambda>r. rd_source r = Connected) (i3_redistribute s) of
           None \<Rightarrow> flush_self_externals_outside_v3 [] s
         | Some cfg \<Rightarrow>
             if rd_route_map cfg \<noteq> None \<and> map_of (i3_route_maps s) (the (rd_route_map cfg)) = None then
               flush_self_externals_outside_v3 [] s
             else
               (let rm = (case rd_route_map cfg of None \<Rightarrow> None | Some name \<Rightarrow> map_of (i3_route_maps s) name);
                    kept = filter (external_kept_v3 evaluate_universal summaries rm) externals;
                    keep_ids = map external_lsid [0..<length kept] @ map summary_lsid [0..<length summaries] @ [UNSPECIFIED]
                in bindR (flush_self_externals_outside_v3 keep_ids s)
                     (foldR (\<lambda>(idx, p). insert_external (external_lsid idx) (plain_external (rd_metric_type cfg) (rd_metric cfg) 0 p))
                       (List.enumerate 0 kept)))))"

section \<open>Inter-area prefixes\<close>

type_synonym prefix_costs = "((ipv6 \<times> u8) \<times> u32) list"

definition add_cost :: "ipv6 \<times> u8 \<Rightarrow> u32 \<Rightarrow> prefix_costs \<Rightarrow> prefix_costs" where
  "add_cost p c m = AList.update p (case map_of m p of Some d \<Rightarrow> min d c | None \<Rightarrow> c) m"

definition area_costs :: "ipv4 \<Rightarrow> (ipv4 \<times> prefix_costs) list \<Rightarrow> prefix_costs" where
  "area_costs aid m = (case map_of m aid of Some c \<Rightarrow> c | None \<Rightarrow> [])"

definition self_iap_costs :: "ipv4 \<Rightarrow> LsaEntryV3 \<Rightarrow> (ipv4 \<times> prefix_costs) list \<Rightarrow> (ipv4 \<times> prefix_costs) list parsed3" where
  "self_iap_costs rid e m =
     (if l3_type (e3_header e) \<noteq> IntraAreaPrefixV3 \<or> l3_adv (e3_header e) \<noteq> rid then Ok m
      else
        (case e3_area e of
           None \<Rightarrow> Ok m
         | Some aid \<Rightarrow>
             bindR (slice_from (e3_raw e) LSA_V3_HEADER_LEN) (\<lambda>bytes.
             (case intra_area_prefix_parse bytes of
                Ok iap \<Rightarrow> Ok (AList.update aid (fold (\<lambda>p. add_cost (pf_address p, pf_length p) 0) (iap_prefixes iap) (area_costs aid m)) m)
              | Err _ \<Rightarrow> Ok m
              | Panic \<Rightarrow> Panic))))"

definition area_routes3 :: "(nat \<Rightarrow> nat) \<Rightarrow> 'c InstanceV3 \<Rightarrow> ipv4 \<Rightarrow> Ospfv3Route list" where
  "area_routes3 tie s aid =
     calculate_spf_v3 tie (i3_router_id s)
       (fold lsdb3_insert (filter (\<lambda>e. e3_area e = Some aid) (lsdb3_iter (i3_lsdb s))) lsdb3_new) (spf_neighbors_v3 s)"

definition peer_costs :: "(nat \<Rightarrow> nat) \<Rightarrow> 'c InstanceV3 \<Rightarrow> ipv4 \<Rightarrow> (ipv4 \<times> prefix_costs) list \<Rightarrow> (ipv4 \<times> prefix_costs) list" where
  "peer_costs tie s aid m =
     AList.update aid (fold (\<lambda>r. add_cost (ro3_prefix r, ro3_prefix_len r) (ro3_cost r)) (area_routes3 tie s aid) (area_costs aid m)) m"

definition insert_inter_area :: "ipv4 \<Rightarrow> nat \<times> (ipv6 \<times> u8) \<times> u32 \<Rightarrow> 'c InstanceV3 \<Rightarrow> 'c InstanceV3 parsed3" where
  "insert_inter_area dest = (\<lambda>(idx, p, cost) s.
     bindR (inter_area_prefix_encode \<lparr>iep_metric = cost, iep_prefix = plain_prefix p\<rparr>) (\<lambda>bytes.
       insert_self_lsa InterAreaPrefixV3 (word_of_nat (Suc idx)) bytes (Some dest) s))"

text \<open>The prefixes of one area to be summarised into another, in order of address and length.\<close>

definition summarised :: "prefix_costs \<Rightarrow> prefix_costs \<Rightarrow> prefix_costs" where
  "summarised src dest =
     filter (\<lambda>(p, _). map_of dest p \<noteq> Some 0) (sort_key fst src)"

definition originate_inter_area_prefix_lsas :: "(nat \<Rightarrow> nat) \<Rightarrow> 'c InstanceV3 \<Rightarrow> 'c InstanceV3 parsed3" where
  "originate_inter_area_prefix_lsas tie s =
     (if \<not> is_abr3 s then Ok s
      else
        bindR (foldR (self_iap_costs (i3_router_id s)) (lsdb3_iter (i3_lsdb s)) []) (\<lambda>own.
        (let costs = fold (peer_costs tie s) (areas3 s) own in
         foldR (\<lambda>(src, dest). foldR (insert_inter_area dest)
             (List.enumerate 0 (summarised (area_costs src costs) (area_costs dest costs))))
           (filter (\<lambda>(src, dest). dest \<noteq> src) (List.product (areas3 s) (areas3 s))) s)))"

section \<open>The refresh of the daemon tick\<close>

text \<open>\<^verbatim>\<open>any\<close> stops at the first interface with the mark, so that the marks behind it stay.\<close>

fun take_refresh_mark :: "(u32 \<times> InterfaceV3) list \<Rightarrow> bool \<times> (u32 \<times> InterfaceV3) list" where
  "take_refresh_mark [] = (False, [])"
| "take_refresh_mark ((k, i) # m) =
     (if if3_needs_refresh i then (True, (k, i\<lparr>if3_needs_refresh := False\<rparr>) # m)
      else (let (b, m') = take_refresh_mark m in (b, (k, i) # m')))"

definition refresh_router_lsa_if_needed :: "'c InstanceV3 \<Rightarrow> 'c InstanceV3 parsed3" where
  "refresh_router_lsa_if_needed s =
     (let (dirty, m) = take_refresh_mark (i3_interfaces s);
          s = s\<lparr>i3_interfaces := m\<rparr>
      in if dirty then
           bindR (originate_router_lsa_v3 s) (\<lambda>s. bindR (originate_network_lsas_v3 s) (\<lambda>s.
           bindR (originate_intra_area_prefix_lsas s) originate_link_lsas_v3))
         else Ok s)"

end
