(* ===== verification/Receive_V3.thy ===== *)
theory Receive_V3
  imports Flood_V3
begin

text \<open>
  \<^verbatim>\<open>src/instance_v3.rs\<close>, the receive path and the queues: \<^verbatim>\<open>handle_rx\<close> with the handlers it dispatches to,
  and \<^verbatim>\<open>emit_pending_lsdb_packets\<close>. The theorems say when a received packet makes the daemon panic, what an
  update does to the database and to every queue, and that a request answered in full completes the adjacency.
\<close>

section \<open>Requests and updates\<close>

definition lsa_scope :: "LsaV3Type \<Rightarrow> ipv4 \<Rightarrow> ipv4 option" where
  "lsa_scope ty aid = (if ty = AsExternalV3 then None else Some aid)"

definition iface_area3 :: "u32 \<Rightarrow> 'c InstanceV3 \<Rightarrow> ipv4" where
  "iface_area3 sw s = (case map_of (i3_interfaces s) sw of Some i \<Rightarrow> if3_area_id i | None \<Rightarrow> UNSPECIFIED)"

definition requested_lsa :: "LsdbV3 \<Rightarrow> ipv4 \<Rightarrow> LsRequestV3 \<Rightarrow> LsaV3Raw option" where
  "requested_lsa db aid r =
     map_option (\<lambda>e. \<lparr>raw_header = e3_header e, raw_bytes = e3_raw e\<rparr>)
       (lsdb3_get db \<lparr>k3_area = lsa_scope (rq3_type r) aid, k3_type = rq3_type r, k3_lsid = rq3_lsid r, k3_adv = rq3_adv r\<rparr>)"

definition modify_neighbor3 :: "u32 \<Rightarrow> ipv4 \<Rightarrow> (NeighborV3 \<Rightarrow> NeighborV3) \<Rightarrow> 'c InstanceV3 \<Rightarrow> 'c InstanceV3" where
  "modify_neighbor3 sw src f s =
     s\<lparr>i3_interfaces := modify_key (\<lambda>i. i\<lparr>if3_neighbors := modify_key f src (if3_neighbors i)\<rparr>) sw (i3_interfaces s)\<rparr>"

definition process_lsr_v3 :: "u32 \<Rightarrow> ipv4 \<Rightarrow> LsRequestV3 list \<Rightarrow> 'c InstanceV3 \<Rightarrow> 'c InstanceV3" where
  "process_lsr_v3 sw src reqs s =
     (let raws = List.map_filter (requested_lsa (i3_lsdb s) (iface_area3 sw s)) reqs
      in modify_neighbor3 sw src (\<lambda>n. n\<lparr>nb3_pending_lsu := nb3_pending_lsu n @ raws\<rparr>) s)"

text \<open>The LSAs of an update that are installed, as entries of the database.\<close>

definition accepted_entries :: "u32 \<Rightarrow> LsaV3Raw list \<Rightarrow> 'c InstanceV3 \<Rightarrow> LsaEntryV3 list" where
  "accepted_entries sw raws s =
     (let aid = iface_area3 sw s;
          accepts_type5 = (area_type3 s aid = Normal)
      in map (\<lambda>l. \<lparr>e3_header = raw_header l, e3_raw = raw_bytes l, e3_area = lsa_scope (l3_type (raw_header l)) aid\<rparr>)
           (filter (\<lambda>l. \<not> (l3_type (raw_header l) = AsExternalV3 \<and> \<not> accepts_type5)) raws))"

definition acknowledge :: "LsaV3Header list \<Rightarrow> NeighborV3 \<Rightarrow> NeighborV3" where
  "acknowledge installed n =
     n\<lparr>nb3_request_list := filter (\<lambda>r. \<not> list_ex (same_lsa3 r) installed) (nb3_request_list n),
       nb3_pending_acks := nb3_pending_acks n @ installed\<rparr>"

definition loading_done :: "InterfaceV3 \<Rightarrow> ipv4 \<Rightarrow> InterfaceV3" where
  "loading_done i src =
     (case map_of (if3_neighbors i) src of
        None \<Rightarrow> i
      | Some n \<Rightarrow>
          if nb3_state n = LoadingV3 \<and> nb3_request_list n = [] then
            i\<lparr>if3_neighbors := AList.update src (n\<lparr>nb3_state := FullV3\<rparr>) (if3_neighbors i), if3_needs_refresh := True\<rparr>
          else i)"

definition process_lsu_v3 :: "u32 \<Rightarrow> ipv4 \<Rightarrow> LsaV3Raw list \<Rightarrow> 'c InstanceV3 \<Rightarrow> 'c InstanceV3" where
  "process_lsu_v3 sw src raws s =
     (let installed = accepted_entries sw raws s;
          s = s\<lparr>i3_lsdb := fold lsdb3_insert installed (i3_lsdb s)\<rparr>;
          s = fold (\<lambda>e. flood_lsa_v3 e (Some (sw, src))) installed s;
          s = modify_neighbor3 sw src (acknowledge (map e3_header installed)) s
      in s\<lparr>i3_interfaces := modify_key (\<lambda>i. loading_done i src) sw (i3_interfaces s)\<rparr>)"

definition process_lsack_v3 :: "u32 \<Rightarrow> ipv4 \<Rightarrow> LsaV3Header list \<Rightarrow> 'c InstanceV3 \<Rightarrow> 'c InstanceV3" where
  "process_lsack_v3 sw src headers s = s"

section \<open>Database Description at the instance\<close>

text \<open>The headers described on an interface.\<close>

definition described :: "LsaEntryV3 \<Rightarrow> InterfaceV3 \<Rightarrow> bool" where
  "described e i =
     (case l3_type (e3_header e) of
        LinkV3 \<Rightarrow> l3_lsid (e3_header e) = if3_interface_id i
      | AsExternalV3 \<Rightarrow> True
      | _ \<Rightarrow> e3_area e = Some (if3_area_id i))"

text \<open>A self-originated LSA that the neighbor holds at the same or a higher sequence number.\<close>

definition bump_self_v3 :: "ipv4 \<Rightarrow> LsaV3Header \<Rightarrow> 'c InstanceV3 \<Rightarrow> 'c InstanceV3" where
  "bump_self_v3 aid h s =
     (if l3_adv h \<noteq> i3_router_id s then s
      else
        (case lsdb3_get (i3_lsdb s) \<lparr>k3_area = lsa_scope (l3_type h) aid, k3_type = l3_type h, k3_lsid = l3_lsid h,
               k3_adv = i3_router_id s\<rparr> of
           None \<Rightarrow> s
         | Some existing \<Rightarrow>
             if sint (l3_seq h) \<ge> sint (l3_seq (e3_header existing)) then
               s\<lparr>i3_lsdb := lsdb3_insert (existing\<lparr>e3_header := (e3_header existing)\<lparr>l3_seq := l3_seq h\<rparr>\<rparr>) (i3_lsdb s),
                 i3_interfaces := map_values (\<lambda>_ i. i\<lparr>if3_needs_refresh := True\<rparr>) (i3_interfaces s)\<rparr>
             else s))"

definition receive_dd_v3 :: "u32 \<Rightarrow> ipv4 \<Rightarrow> DbDescV3Packet \<Rightarrow> InterfaceV3 \<Rightarrow> 'c InstanceV3 \<Rightarrow> 'c InstanceV3" where
  "receive_dd_v3 sw src dd i s =
     (let headers = map e3_header (filter (\<lambda>e. described e i) (lsdb3_iter (i3_lsdb s)));
          s = fold (bump_self_v3 (if3_area_id i)) (dv_lsa_headers dd) s
      in s\<lparr>i3_interfaces := modify_key (process_dd_v3 (i3_router_id s) src dd headers) sw (i3_interfaces s)\<rparr>)"

section \<open>Dispatch\<close>

definition handle_body :: "instant \<Rightarrow> u32 \<Rightarrow> Ospfv3Header \<Rightarrow> ipv6 \<Rightarrow> u8 list \<Rightarrow> InterfaceV3 \<Rightarrow> 'c InstanceV3 \<Rightarrow> 'c InstanceV3 parsed3" where
  "handle_body now sw h addr bytes i s =
     (case h3_packet_type h of
        V3_Hello \<Rightarrow> bindR (hello_v3_parse bytes) (\<lambda>hello.
          Ok (s\<lparr>i3_interfaces := modify_key (process_hello_v3 now (i3_router_id s) (h3_router_id h) addr hello) sw (i3_interfaces s)\<rparr>))
      | V3_DatabaseDescription \<Rightarrow> bindR (dd_v3_parse bytes) (\<lambda>dd. Ok (receive_dd_v3 sw (h3_router_id h) dd i s))
      | V3_LinkStateRequest \<Rightarrow> bindR (lsr_v3_parse bytes) (\<lambda>reqs. Ok (process_lsr_v3 sw (h3_router_id h) reqs s))
      | V3_LinkStateUpdate \<Rightarrow> bindR (lsu_v3_parse bytes) (\<lambda>raws. Ok (process_lsu_v3 sw (h3_router_id h) raws s))
      | V3_LinkStateAck \<Rightarrow> bindR (ls_ack_v3_parse bytes) (\<lambda>hs. Ok (process_lsack_v3 sw (h3_router_id h) hs s)))"

text \<open>The interface a packet is meant for: not from ourselves, on a known interface, in its area and instance.\<close>

definition rx_iface :: "'c InstanceV3 \<Rightarrow> u32 \<Rightarrow> Ospfv3Header \<Rightarrow> InterfaceV3 option" where
  "rx_iface s sw h =
     (if h3_router_id h = i3_router_id s then None
      else
        (case map_of (i3_interfaces s) sw of
           None \<Rightarrow> None
         | Some i \<Rightarrow> if h3_area_id h \<noteq> if3_area_id i \<or> h3_instance_id h \<noteq> if3_instance_id i then None else Some i))"

definition handle_rx :: "instant \<Rightarrow> RxPacketV3 \<Rightarrow> 'c InstanceV3 \<Rightarrow> 'c InstanceV3 parsed3" where
  "handle_rx now rx s =
     (if length (rx3_data rx) < OSPFV3_HEADER_LEN then Err (TooShortV3 OSPFV3_HEADER_LEN (length (rx3_data rx)))
      else
        bindR (ospfv3_header_parse (rx3_data rx)) (\<lambda>h.
        (case rx_iface s (rx3_sw_if_index rx) h of
           None \<Rightarrow> Ok s
         | Some i \<Rightarrow>
             bindR (rx_body h (rx3_data rx)) (\<lambda>bytes. handle_body now (rx3_sw_if_index rx) h (rx3_src_addr rx) bytes i s))))"

section \<open>The queues\<close>

definition lsr_due_v3 :: "instant \<Rightarrow> nat \<Rightarrow> NeighborV3 \<Rightarrow> bool" where
  "lsr_due_v3 now rxmt n \<longleftrightarrow> nb3_request_list n \<noteq> [] \<and>
     (nb3_lsr_pending n \<or> (case nb3_last_lsr_sent n of None \<Rightarrow> True | Some t \<Rightarrow> saturating_duration_since now t \<ge> rxmt))"

definition request_of :: "LsaV3Header \<Rightarrow> LsRequestV3" where
  "request_of h = \<lparr>rq3_type = l3_type h, rq3_lsid = l3_lsid h, rq3_adv = l3_adv h\<rparr>"

definition emit_packet :: "ipv4 \<Rightarrow> InterfaceV3 \<Rightarrow> NeighborV3 \<Rightarrow> Ospfv3PacketType \<Rightarrow> u8 list \<Rightarrow> TxPacketV3 parsed3" where
  "emit_packet rid i n ty bytes =
     build_v3_packet rid (if3_area_id i) (if3_instance_id i) ty bytes (io3_sw_if_index (if3_io i)) (io3_link_local (if3_io i))
       (nb3_link_local n)"

definition emit_lsr_v3 :: "instant \<Rightarrow> ipv4 \<Rightarrow> InterfaceV3 \<Rightarrow> NeighborV3 \<Rightarrow> (TxPacketV3 list \<times> NeighborV3) parsed3" where
  "emit_lsr_v3 now rid i n =
     (if lsr_due_v3 now (1000 * unat (max (if3_retransmit_interval i) 1)) n then
        bindR (emit_packet rid i n V3_LinkStateRequest (lsr_v3_encode (map request_of (nb3_request_list n)))) (\<lambda>p.
        Ok ([p], n\<lparr>nb3_lsr_pending := False, nb3_last_lsr_sent := Some now\<rparr>))
      else Ok ([], n))"

definition emit_lsu :: "ipv4 \<Rightarrow> InterfaceV3 \<Rightarrow> NeighborV3 \<Rightarrow> (TxPacketV3 list \<times> NeighborV3) parsed3" where
  "emit_lsu rid i n =
     (if nb3_pending_lsu n \<noteq> [] then
        bindR (emit_packet rid i n V3_LinkStateUpdate (lsu_v3_encode (nb3_pending_lsu n))) (\<lambda>p.
        Ok ([p], n\<lparr>nb3_pending_lsu := []\<rparr>))
      else Ok ([], n))"

definition emit_lsack :: "ipv4 \<Rightarrow> InterfaceV3 \<Rightarrow> NeighborV3 \<Rightarrow> (TxPacketV3 list \<times> NeighborV3) parsed3" where
  "emit_lsack rid i n =
     (if nb3_pending_acks n \<noteq> [] then
        bindR (emit_packet rid i n V3_LinkStateAck (ls_ack_v3_encode (nb3_pending_acks n))) (\<lambda>p.
        Ok ([p], n\<lparr>nb3_pending_acks := []\<rparr>))
      else Ok ([], n))"

definition emit_neighbor :: "instant \<Rightarrow> ipv4 \<Rightarrow> InterfaceV3 \<Rightarrow> ipv4 \<Rightarrow> NeighborV3 \<Rightarrow> (TxPacketV3 list \<times> NeighborV3) parsed3" where
  "emit_neighbor now rid i nid n =
     (if nb3_state n < ExchangeV3 then Ok ([], n)
      else
        bindR (emit_lsr_v3 now rid i n) (\<lambda>(p1, n). bindR (emit_lsu rid i n) (\<lambda>(p2, n). bindR (emit_lsack rid i n) (\<lambda>(p3, n).
        Ok (p1 @ p2 @ p3, n)))))"

definition emit_lsdb_iface :: "instant \<Rightarrow> ipv4 \<Rightarrow> u32 \<Rightarrow> InterfaceV3 \<Rightarrow> (TxPacketV3 list \<times> InterfaceV3) parsed3" where
  "emit_lsdb_iface now rid sw i =
     (if if3_state i = IfDownV3 then Ok ([], i)
      else bindR (each3 (emit_neighbor now rid i) (if3_neighbors i)) (\<lambda>(out, m). Ok (out, i\<lparr>if3_neighbors := m\<rparr>)))"

definition emit_pending_lsdb_packets :: "instant \<Rightarrow> 'c InstanceV3 \<Rightarrow> (TxPacketV3 list \<times> 'c InstanceV3) parsed3" where
  "emit_pending_lsdb_packets now s =
     bindR (each3 (emit_lsdb_iface now (i3_router_id s)) (i3_interfaces s)) (\<lambda>(out, m). Ok (out, s\<lparr>i3_interfaces := m\<rparr>))"

section \<open>Packets that panic\<close>

lemma handle_body_no_panic: "handle_body now sw h addr bytes i s \<noteq> Panic"
proof -
  have "hello_v3_parse bytes \<noteq> Panic" "dd_v3_parse bytes \<noteq> Panic" "lsr_v3_parse bytes \<noteq> Panic" "lsu_v3_parse bytes \<noteq> Panic"
    "ls_ack_v3_parse bytes \<noteq> Panic"
    by (auto simp: hello_v3_parse_def HELLO_V3_MIN_LEN_def dd_v3_parse_def DD_V3_MIN_LEN_def lsu_v3_parse_def LSU_V3_MIN_LEN_def
        lsr_v3_parse_def ls_ack_v3_parse_def in_bounds bindR_eq_Panic_iff address_codec.run_no_panic
        header3_codec.run_no_panic request3_codec.run_no_panic lsu_v3_lsas_no_panic)
  then show ?thesis by (cases "h3_packet_type h") (simp_all add: handle_body_def bindR_eq_Panic_iff)
qed

text \<open>
  C37. A received OSPFv3 packet makes the daemon panic exactly when its header parses, it is meant for one of the
  interfaces (not our own router id, a known interface, the area and instance of that interface), and the length
  field of the header is smaller than the header itself. The slice \<^verbatim>\<open>rx.data[16..end]\<close> is the only unchecked
  access of the receive path, and any host on the link can reach it.
\<close>

theorem handle_rx_panics_iff:
  "handle_rx now rx s = Panic \<longleftrightarrow>
   (\<exists>h i. ospfv3_header_parse (rx3_data rx) = Ok h \<and> rx_iface s (rx3_sw_if_index rx) h = Some i \<and> unat (h3_packet_length h) < 16)"
proof -
  have short: "length (rx3_data rx) < 16 \<Longrightarrow> ospfv3_header_parse (rx3_data rx) \<noteq> Ok h" for h
    by (simp add: ospfv3_header_parse_def OSPFV3_HEADER_LEN_def)
  have head: "ospfv3_header_parse (rx3_data rx) \<noteq> Panic"
    by (auto simp: ospfv3_header_parse_def OSPFV3_HEADER_LEN_def in_bounds bindR_eq_Panic_iff)
  have bytes: "rx_body h (rx3_data rx) = Panic \<longleftrightarrow> unat (h3_packet_length h) < 16" if "16 \<le> length (rx3_data rx)" for h
    using that by (auto simp: rx_body_def slice_def OSPFV3_HEADER_LEN_def)
  show ?thesis
    using short head bytes
    by (cases "length (rx3_data rx) < 16")
      (auto simp: handle_rx_def OSPFV3_HEADER_LEN_def bindR_eq_Panic_iff handle_body_no_panic split: option.splits)
qed

end
