(* ===== verification/Inv_V3.thy ===== *)
theory Inv_V3
  imports Receive_V3
begin

text \<open>
  The invariant of an OSPFv3 instance (\<^verbatim>\<open>src/instance_v3.rs\<close>) and that every operation keeps it: interfaces lie
  under their index, neighbors under their router id, an interface that is down has none, a neighbor is Full
  exactly when loading is over, and every LSA held or queued is well-formed on the wire.
\<close>

section \<open>LSAs on the wire\<close>

lemma lsa_v3_type_to_from: "lsa_v3_type_from_u16 v = Some t \<Longrightarrow> lsa_v3_type_to_u16 t = v"
  by (auto simp: lsa_v3_type_from_u16_def split: if_splits)

lemma lsa_v3_header_inverse:
  assumes "lsa_v3_header_parse data = Ok h"
  shows "take LSA_V3_HEADER_LEN data = lsa_v3_header_encode h"
proof -
  from assms have "20 \<le> length data" by (simp add: lsa_v3_header_parse_def LSA_V3_HEADER_LEN_def split: if_splits)
  moreover have "take 20 data = map (\<lambda>k. data ! k) [0..<20]"
    using \<open>20 \<le> length data\<close> by (intro nth_equalityI) simp_all
  moreover have "[0..<20] = [0, 1, 2, 3, 4, 5, 6, 7, 8, 9, 10, 11, 12, 13, 14, 15, 16, 17, 18, 19 :: nat]"
    by (simp add: upt_rec)
  ultimately show ?thesis
    using assms
    by (auto simp: lsa_v3_header_parse_def lsa_v3_header_encode_def LSA_V3_HEADER_LEN_def read_defs byte_at_def bindR_eq_Ok_iff
        ok_or_def dest!: lsa_v3_type_to_from split: if_splits option.splits)
qed

text \<open>The bytes of an LSA carry its header, up to a sequence number that was raised in the header only.\<close>

definition good_raw :: "LsaV3Header \<Rightarrow> u8 list \<Rightarrow> bool" where
  "good_raw h raw \<longleftrightarrow> (\<exists>sq. wf_raw \<lparr>raw_header = h\<lparr>l3_seq := sq\<rparr>, raw_bytes = raw\<rparr>)"

definition good_entry :: "LsaEntryV3 \<Rightarrow> bool" where
  "good_entry e \<longleftrightarrow> good_raw (e3_header e) (e3_raw e) \<and> (e3_area e = None \<longleftrightarrow> l3_type (e3_header e) = AsExternalV3)"

lemma good_raw_wf: "wf_raw \<lparr>raw_header = h, raw_bytes = raw\<rparr> \<Longrightarrow> good_raw h raw"
  unfolding good_raw_def by (rule exI [of _ "l3_seq h"]) simp

lemma good_raw_seq: "good_raw (h\<lparr>l3_seq := sq\<rparr>) raw = good_raw h raw"
  by (simp add: good_raw_def)

lemma good_raw_length: "good_raw h raw \<Longrightarrow> 20 \<le> length raw \<and> unat (l3_length h) = length raw"
  by (auto simp: good_raw_def LSA_V3_HEADER_LEN_def elim!: wf_raw_cases)

lemma good_raw_parsed:
  assumes "lsu_v3_lsas_parse n data off = Ok ls" and "l \<in> set ls"
  shows "wf_raw l"
  using lsu_v3_lsas_wf [OF assms(1)] assms(2) lsa_v3_header_inverse by (auto simp: wf_raw_def)

section \<open>Self-originated LSAs\<close>

text \<open>The header bytes around the checksum.\<close>

definition header3_front :: "LsaV3Header \<Rightarrow> u8 list" where
  "header3_front h = u16_be_bytes (l3_age h) @ u16_be_bytes (lsa_v3_type_to_u16 (l3_type h)) @ u32_be_bytes (l3_lsid h) @
     u32_be_bytes (l3_adv h) @ u32_be_bytes (l3_seq h)"

lemma length_header3_front [simp]: "length (header3_front h) = 16"
  by (simp add: header3_front_def)

lemma header3_encode_split:
  "lsa_v3_header_encode h = header3_front h @ u16_be_bytes (l3_checksum h) @ u16_be_bytes (l3_length h)"
  by (simp add: lsa_v3_header_encode_def header3_front_def)

lemma seal_lsa_fields [simp]:
  "e3_area (seal_lsa h bytes area) = area"
  "l3_age (e3_header (seal_lsa h bytes area)) = l3_age h"
  "l3_type (e3_header (seal_lsa h bytes area)) = l3_type h"
  "l3_lsid (e3_header (seal_lsa h bytes area)) = l3_lsid h"
  "l3_adv (e3_header (seal_lsa h bytes area)) = l3_adv h"
  "l3_seq (e3_header (seal_lsa h bytes area)) = l3_seq h"
  "l3_length (e3_header (seal_lsa h bytes area)) = l3_length h"
  by (simp_all add: seal_lsa_def Let_def split: prod.split)

lemma seal_lsa_raw:
  "e3_raw (seal_lsa h bytes area) = lsa_v3_header_encode (e3_header (seal_lsa h bytes area)) @ bytes"
proof -
  obtain c0 c1 where c: "fletcher16 (drop 2 (lsa_v3_header_encode h @ bytes)) 14 = (c0, c1)" by fastforce
  have "(header3_front h @ [a, b] @ r)[16 := c0, 17 := c1] = header3_front h @ [c0, c1] @ r" for a b r
    by (simp add: list_update_append)
  moreover have "lsa_v3_header_encode h @ bytes = header3_front h @ [ucast (drop_bit 8 (l3_checksum h)), ucast (l3_checksum h)] @
      (u16_be_bytes (l3_length h) @ bytes)"
    by (simp add: header3_encode_split u16_be_bytes_def)
  ultimately have "(lsa_v3_header_encode h @ bytes)[16 := c0, 17 := c1] = header3_front h @ [c0, c1] @ u16_be_bytes (l3_length h) @ bytes"
    by simp
  then show ?thesis
    unfolding seal_lsa_def Let_def c prod.case by (simp add: header3_encode_split header3_front_def)
qed

lemma seal_lsa_verifies:
  assumes "length bytes \<le> 4085"
  shows "fletcher16_verify (drop 2 (e3_raw (seal_lsa h bytes area)))"
proof -
  obtain c0 c1 where c: "fletcher16 (drop 2 (lsa_v3_header_encode h @ bytes)) 14 = (c0, c1)" by fastforce
  let ?pre = "drop 2 (header3_front h)" and ?post = "u16_be_bytes (l3_length h) @ bytes"
  have "drop 2 (lsa_v3_header_encode h @ bytes) = ?pre @ [ucast (drop_bit 8 (l3_checksum h)), ucast (l3_checksum h)] @ ?post"
    by (simp add: header3_encode_split u16_be_bytes_def)
  with c have "fletcher16 (?pre @ [ucast (drop_bit 8 (l3_checksum h)), ucast (l3_checksum h)] @ ?post) (length ?pre) = (c0, c1)"
    by simp
  with assms have "fletcher16_verify (?pre @ [c0, c1] @ ?post)" by (intro fletcher16_fill_verifies) simp_all
  moreover have "drop 2 (e3_raw (seal_lsa h bytes area)) = ?pre @ [c0, c1] @ ?post"
    unfolding seal_lsa_raw unfolding seal_lsa_def Let_def c prod.case by (simp add: header3_encode_split header3_front_def)
  ultimately show ?thesis by simp
qed

lemma seal_lsa_wf:
  assumes "unat (l3_length h) = 20 + length bytes"
  shows "wf_raw \<lparr>raw_header = e3_header (seal_lsa h bytes area), raw_bytes = e3_raw (seal_lsa h bytes area)\<rparr>"
  using assms header3_codec.length_enc by (simp add: wf_raw_def seal_lsa_raw LSA_V3_HEADER_LEN_def)

lemma build_self_lsa_cases:
  assumes "build_self_lsa ty lsid bytes area s = Ok e"
  shows "wf_raw \<lparr>raw_header = e3_header e, raw_bytes = e3_raw e\<rparr>" and "e3_area e = area" and "l3_type (e3_header e) = ty"
    and "entry3_key e = \<lparr>k3_area = area, k3_type = ty, k3_lsid = lsid, k3_adv = i3_router_id s\<rparr>"
    and "l3_seq (e3_header e) = self_seq s ty lsid area" and "drop 20 (e3_raw e) = bytes" and "l3_age (e3_header e) = 0"
    and "length bytes \<le> 4085 \<Longrightarrow> fletcher16_verify (drop 2 (e3_raw e))" and "length bytes \<le> 65515"
proof -
  define len :: u16 where "len = word_of_nat (20 + length bytes)"
  define h where "h = \<lparr>l3_age = 0, l3_type = ty, l3_lsid = lsid, l3_adv = i3_router_id s, l3_seq = self_seq s ty lsid area,
      l3_checksum = 0, l3_length = len\<rparr>"
  from assms have e: "e = seal_lsa h bytes area" and l: "length bytes \<le> 65515"
    by (auto simp: build_self_lsa_def lsa_v3_total_length_def LSA_V3_HEADER_LEN_def h_def len_def split: if_splits)
  from l have "unat len = 20 + length bytes" by (simp add: len_def unat_of_nat del: of_nat_add)
  then show "wf_raw \<lparr>raw_header = e3_header e, raw_bytes = e3_raw e\<rparr>" unfolding e by (intro seal_lsa_wf) (simp add: h_def)
  show "drop 20 (e3_raw e) = bytes"
    using header3_codec.length_enc by (simp add: e seal_lsa_raw LSA_V3_HEADER_LEN_def)
  show "length bytes \<le> 4085 \<Longrightarrow> fletcher16_verify (drop 2 (e3_raw e))" unfolding e by (rule seal_lsa_verifies)
  show "e3_area e = area" "l3_type (e3_header e) = ty" "l3_seq (e3_header e) = self_seq s ty lsid area" "l3_age (e3_header e) = 0"
    "entry3_key e = \<lparr>k3_area = area, k3_type = ty, k3_lsid = lsid, k3_adv = i3_router_id s\<rparr>"
    by (simp_all add: e h_def entry3_key_def)
  show "length bytes \<le> 65515" by (rule l)
qed

section \<open>The invariant\<close>

definition nbr3_ok :: "ipv4 \<Rightarrow> ipv4 \<Rightarrow> NeighborV3 \<Rightarrow> bool" where
  "nbr3_ok rid nid n \<longleftrightarrow> nb3_router_id n = nid \<and> nid \<noteq> rid \<and> nb3_state n \<noteq> DownV3 \<and> \<not> nb3_send_final n \<and>
     (nb3_state n = FullV3 \<longrightarrow> nb3_request_list n = []) \<and> (nb3_state n = LoadingV3 \<longrightarrow> nb3_request_list n \<noteq> []) \<and>
     (\<forall>l \<in> set (nb3_pending_lsu n). good_raw (raw_header l) (raw_bytes l))"

definition nbrs3_ok :: "ipv4 \<Rightarrow> (ipv4 \<times> NeighborV3) list \<Rightarrow> bool" where
  "nbrs3_ok rid m \<longleftrightarrow> distinct (map fst m) \<and> (\<forall>nid n. map_of m nid = Some n \<longrightarrow> nbr3_ok rid nid n)"

text \<open>What an interface is, by its state: a designated router knows that it is one, and only types that elect have one.\<close>

definition role3_ok :: "ipv4 \<Rightarrow> InterfaceV3 \<Rightarrow> bool" where
  "role3_ok rid i \<longleftrightarrow> (if3_state i = DRV3 \<longrightarrow> if3_dr i = rid) \<and> (if3_state i = BackupV3 \<longrightarrow> if3_bdr i = rid) \<and>
     (\<not> elects_dr (if3_network_type i) \<longrightarrow> if3_state i = IfDownV3 \<or> if3_state i = PointToPointV3) \<and>
     (elects_dr (if3_network_type i) \<longrightarrow> if3_state i \<noteq> PointToPointV3)"

definition iface3_ok :: "ipv4 \<Rightarrow> InterfaceV3 \<Rightarrow> bool" where
  "iface3_ok rid i \<longleftrightarrow> nbrs3_ok rid (if3_neighbors i) \<and> role3_ok rid i \<and> (if3_state i = IfDownV3 \<longrightarrow> if3_neighbors i = [])"

definition ifaces3_ok :: "ipv4 \<Rightarrow> (u32 \<times> InterfaceV3) list \<Rightarrow> bool" where
  "ifaces3_ok rid m \<longleftrightarrow> distinct (map fst m) \<and>
     (\<forall>k i. map_of m k = Some i \<longrightarrow> io3_sw_if_index (if3_io i) = k \<and> iface3_ok rid i)"

definition inst3_inv :: "'c InstanceV3 \<Rightarrow> bool" where
  "inst3_inv s \<longleftrightarrow> ifaces3_ok (i3_router_id s) (i3_interfaces s) \<and> lsdb3_inv (i3_lsdb s) \<and>
     (\<forall>k e. lsdb3_get (i3_lsdb s) k = Some e \<longrightarrow> good_entry e)"

lemma inst3_inv_new: "inst3_inv (instance3_new rid)"
  by (simp add: inst3_inv_def instance3_new_def ifaces3_ok_def lsdb3_get_def lsdb3_new_def lsdb3_inv_def)

lemma inst3_inv_insert:
  "inst3_inv s \<Longrightarrow> good_entry e \<Longrightarrow> inst3_inv (s\<lparr>i3_lsdb := lsdb3_insert e (i3_lsdb s)\<rparr>)"
  by (auto simp: inst3_inv_def lsdb3_get_insert)

lemma good_entry_held: "inst3_inv s \<Longrightarrow> lsdb3_get (i3_lsdb s) k = Some e \<Longrightarrow> good_entry e"
  by (simp add: inst3_inv_def)

lemma modify_key_Nil: "modify_key f k [] = []"
  by (simp add: modify_key_def)

lemma map_values_Nil: "map_values f [] = []"
  by (simp add: map_values_def)

lemma iface3_ok_nbrs:
  "iface3_ok rid i \<Longrightarrow> nbrs3_ok rid m \<Longrightarrow> (if3_neighbors i = [] \<Longrightarrow> m = []) \<Longrightarrow> iface3_ok rid (i\<lparr>if3_neighbors := m\<rparr>)"
  by (auto simp: iface3_ok_def role3_ok_def)

subsection \<open>Operations on one neighbor and on one interface\<close>

locale iface3_op =
  fixes rid :: ipv4 and f :: "InterfaceV3 \<Rightarrow> InterfaceV3"
  assumes keeps_ok: "iface3_ok rid i \<Longrightarrow> iface3_ok rid (f i)"
    and keeps_index: "io3_sw_if_index (if3_io (f i)) = io3_sw_if_index (if3_io i)"
begin

lemma ifaces_modify: "ifaces3_ok rid m \<Longrightarrow> ifaces3_ok rid (modify_key f k m)"
  by (auto simp: ifaces3_ok_def map_of_modify_key keeps_ok keeps_index split: if_splits)

lemma ifaces_map: "ifaces3_ok rid m \<Longrightarrow> ifaces3_ok rid (map_values (\<lambda>_. f) m)"
  by (auto simp: ifaces3_ok_def keeps_ok keeps_index)

end

locale nbr3_op =
  fixes rid :: ipv4 and f :: "ipv4 \<Rightarrow> NeighborV3 \<Rightarrow> NeighborV3"
  assumes nbr_ok: "nbr3_ok rid nid n \<Longrightarrow> nbr3_ok rid nid (f nid n)"
begin

lemma nbrs_modify: "nbrs3_ok rid m \<Longrightarrow> nbrs3_ok rid (modify_key (f k) k m)"
  by (auto simp: nbrs3_ok_def map_of_modify_key nbr_ok split: if_splits)

lemma nbrs_map: "nbrs3_ok rid m \<Longrightarrow> nbrs3_ok rid (map_values f m)"
  by (auto simp: nbrs3_ok_def nbr_ok)

lemma iface_modify: "iface3_ok rid i \<Longrightarrow> iface3_ok rid (i\<lparr>if3_neighbors := modify_key (f k) k (if3_neighbors i)\<rparr>)"
  by (rule iface3_ok_nbrs) (simp_all add: iface3_ok_def nbrs_modify modify_key_Nil)

lemma iface_map: "iface3_ok rid i \<Longrightarrow> iface3_ok rid (i\<lparr>if3_neighbors := map_values f (if3_neighbors i)\<rparr>)"
  by (rule iface3_ok_nbrs) (simp_all add: iface3_ok_def nbrs_map map_values_Nil)

end

sublocale nbr3_op \<subseteq> one: iface3_op rid "\<lambda>i. i\<lparr>if3_neighbors := modify_key (f k) k (if3_neighbors i)\<rparr>" for k
  by unfold_locales (simp_all add: iface_modify)

sublocale nbr3_op \<subseteq> all: iface3_op rid "\<lambda>i. i\<lparr>if3_neighbors := map_values f (if3_neighbors i)\<rparr>"
  by unfold_locales (simp_all add: iface_map)

text \<open>The mark that an interface needs its LSAs refreshed is free.\<close>

lemma iface3_ok_refresh [simp]: "iface3_ok rid (i\<lparr>if3_needs_refresh := b\<rparr>) = iface3_ok rid i"
  by (simp add: iface3_ok_def role3_ok_def)

interpretation mark_op: iface3_op rid "\<lambda>i. i\<lparr>if3_needs_refresh := b\<rparr>" for rid b
  by unfold_locales simp_all

subsection \<open>Flooding and origination\<close>

lemma nbr3_ok_queue: "nbr3_ok rid nid n \<Longrightarrow> good_entry e \<Longrightarrow> nbr3_ok rid nid (queue_lsu e n)"
  by (auto simp: nbr3_ok_def queue_lsu_def good_entry_def)

lemma flood_op:
  assumes "good_entry e"
  shows "nbr3_op rid (\<lambda>nid n. if nb3_state n = FullV3 \<and> P nid then queue_lsu e n else n)"
  using assms by unfold_locales (simp add: nbr3_ok_queue)

lemma flood_iface_op: "good_entry e \<Longrightarrow> iface3_op rid (\<lambda>i. if P i then flood_iface e ex i else i)"
proof unfold_locales
  fix i assume "good_entry e" and "iface3_ok rid i"
  then show "iface3_ok rid (if P i then flood_iface e ex i else i)"
    unfolding flood_iface_def using nbr3_op.iface_map [OF flood_op] by simp
qed (simp add: flood_iface_def)

lemma inst3_inv_flood:
  assumes "inst3_inv s" and "good_entry e"
  shows "inst3_inv (flood_lsa_v3 e ex s)"
  using assms iface3_op.ifaces_map [OF flood_iface_op [OF assms(2)]]
  by (simp add: inst3_inv_def flood_lsa_v3_def)

lemma inst3_inv_link_scope:
  assumes "inst3_inv s" and "good_entry e"
  shows "inst3_inv (flood_lsa_link_scope e sw s)"
proof -
  have "nbr3_op (i3_router_id s) (\<lambda>_ n. if nb3_state n = FullV3 then queue_lsu e n else n)"
    using flood_op [OF assms(2), of _ "\<lambda>_. True"] by simp
  then have "iface3_op (i3_router_id s) (\<lambda>i. i\<lparr>if3_neighbors :=
      map_values (\<lambda>_ n. if nb3_state n = FullV3 then queue_lsu e n else n) (if3_neighbors i)\<rparr>)"
    by (intro iface3_op.intro) (simp_all add: nbr3_op.iface_map)
  from iface3_op.ifaces_modify [OF this] assms(1) show ?thesis by (simp add: inst3_inv_def flood_lsa_link_scope_def)
qed

lemma foldR_keeps:
  assumes "\<And>x s s'. x \<in> set xs \<Longrightarrow> P s \<Longrightarrow> f x s = Ok s' \<Longrightarrow> P s'" and "foldR f xs s = Ok s'" and "P s"
  shows "P s'"
  using assms by (induction xs arbitrary: s) (auto simp: bindR_eq_Ok_iff)

lemma inst3_inv_insert_self:
  assumes "insert_self_lsa ty lsid bytes area s = Ok s'" and "inst3_inv s" and "area = None \<longleftrightarrow> ty = AsExternalV3"
  shows "inst3_inv s'"
proof -
  from assms(1) obtain e where e: "build_self_lsa ty lsid bytes area s = Ok e"
    and s': "s' = flood_lsa_v3 e None (s\<lparr>i3_lsdb := lsdb3_insert e (i3_lsdb s)\<rparr>)"
    by (auto simp: insert_self_lsa_def bindR_eq_Ok_iff)
  have "good_entry e" using build_self_lsa_cases(1-3) [OF e] assms(3) by (simp add: good_entry_def good_raw_wf)
  then show ?thesis using assms(2) by (simp add: s' inst3_inv_flood inst3_inv_insert)
qed

lemma inst3_inv_router_lsa: "originate_router_lsa_v3 s = Ok s' \<Longrightarrow> inst3_inv s \<Longrightarrow> inst3_inv s'"
  by (auto simp: originate_router_lsa_v3_def Let_def elim!: foldR_keeps [where P = inst3_inv, rotated] dest: inst3_inv_insert_self)

lemma inst3_inv_network_lsas: "originate_network_lsas_v3 s = Ok s' \<Longrightarrow> inst3_inv s \<Longrightarrow> inst3_inv s'"
  by (auto simp: originate_network_lsas_v3_def elim!: foldR_keeps [where P = inst3_inv, rotated] dest: inst3_inv_insert_self)

lemma inst3_inv_iap: "insert_iap t lsid ps aid s = Ok s' \<Longrightarrow> inst3_inv s \<Longrightarrow> inst3_inv s'"
  by (auto simp: insert_iap_def bindR_eq_Ok_iff dest: inst3_inv_insert_self)

lemma inst3_inv_intra_area: "originate_intra_area_prefix_lsas s = Ok s' \<Longrightarrow> inst3_inv s \<Longrightarrow> inst3_inv s'"
  by (auto simp: originate_intra_area_prefix_lsas_def Let_def bindR_eq_Ok_iff
      elim!: foldR_keeps [where P = inst3_inv, rotated] dest: inst3_inv_iap)

lemma inst3_inv_link_lsas: "originate_link_lsas_v3 s = Ok s' \<Longrightarrow> inst3_inv s \<Longrightarrow> inst3_inv s'"
proof (unfold originate_link_lsas_v3_def, erule foldR_keeps [where P = inst3_inv, rotated], assumption)
  fix x s s' assume inv: "inst3_inv s" and "originate_link_lsa_v3 x s = Ok s'"
  then obtain iid bytes aid e sw where "build_self_lsa LinkV3 iid bytes (Some aid) s = Ok e"
    "s' = flood_lsa_link_scope e sw (s\<lparr>i3_lsdb := lsdb3_insert e (i3_lsdb s)\<rparr>)"
    by (auto simp: originate_link_lsa_v3_def bindR_eq_Ok_iff split: prod.splits)
  moreover from build_self_lsa_cases(1-3) [OF this(1)] have "good_entry e" by (simp add: good_entry_def good_raw_wf)
  ultimately show "inst3_inv s'" using inv by (simp add: inst3_inv_link_scope inst3_inv_insert)
qed

lemma inst3_inv_external: "insert_external lsid ext s = Ok s' \<Longrightarrow> inst3_inv s \<Longrightarrow> inst3_inv s'"
  by (auto simp: insert_external_def bindR_eq_Ok_iff dest: inst3_inv_insert_self)

lemma inst3_inv_summaries: "originate_summary_address_lsas_v3 ents s = Ok s' \<Longrightarrow> inst3_inv s \<Longrightarrow> inst3_inv s'"
  by (auto simp: originate_summary_address_lsas_v3_def elim!: foldR_keeps [where P = inst3_inv, rotated]
      dest: inst3_inv_external split: if_splits)

lemma inst3_inv_default: "originate_default_route_lsa_v3 metric ty s = Ok s' \<Longrightarrow> inst3_inv s \<Longrightarrow> inst3_inv s'"
  by (simp add: originate_default_route_lsa_v3_def inst3_inv_external)

lemma flushed_good:
  assumes "good_entry e"
  shows "good_entry (seal_lsa ((e3_header e)\<lparr>l3_age := a, l3_seq := sq\<rparr>) (drop 20 (e3_raw e)) (e3_area e))"
proof -
  from assms have "20 \<le> length (e3_raw e)" "unat (l3_length (e3_header e)) = length (e3_raw e)"
    using good_raw_length [of "e3_header e" "e3_raw e"] by (simp_all add: good_entry_def)
  then have "wf_raw \<lparr>raw_header = e3_header (seal_lsa ((e3_header e)\<lparr>l3_age := a, l3_seq := sq\<rparr>) (drop 20 (e3_raw e)) (e3_area e)),
      raw_bytes = e3_raw (seal_lsa ((e3_header e)\<lparr>l3_age := a, l3_seq := sq\<rparr>) (drop 20 (e3_raw e)) (e3_area e))\<rparr>"
    by (intro seal_lsa_wf) simp
  with assms show ?thesis by (simp add: good_entry_def good_raw_wf)
qed

lemma inst3_inv_flush: "flush_self_externals_outside_v3 keep s = Ok s' \<Longrightarrow> inst3_inv s \<Longrightarrow> inst3_inv s'"
proof (unfold flush_self_externals_outside_v3_def, erule foldR_keeps [where P = inst3_inv, rotated], assumption)
  fix k s s' assume inv: "inst3_inv s" and "flush_external_v3 k s = Ok s'"
  then show "inst3_inv s'"
    using good_entry_held [OF inv, of k] flushed_good
    by (auto simp: flush_external_v3_def Let_def bindR_eq_Ok_iff slice_from_def LSA_V3_HEADER_LEN_def inst3_inv_flood inst3_inv_insert
        split: option.splits if_splits)
qed

lemma inst3_inv_externals: "originate_external_lsas_v3 ev xs ss s = Ok s' \<Longrightarrow> inst3_inv s \<Longrightarrow> inst3_inv s'"
  by (auto simp: originate_external_lsas_v3_def Let_def bindR_eq_Ok_iff elim!: foldR_keeps [where P = inst3_inv, rotated]
      dest: inst3_inv_flush inst3_inv_external split: if_splits option.splits)

lemma inst3_inv_insert_inter: "insert_inter_area dest x s = Ok s' \<Longrightarrow> inst3_inv s \<Longrightarrow> inst3_inv s'"
  by (auto simp: insert_inter_area_def bindR_eq_Ok_iff dest: inst3_inv_insert_self split: prod.splits)

lemma inst3_inv_inter_area: "originate_inter_area_prefix_lsas tie s = Ok s' \<Longrightarrow> inst3_inv s \<Longrightarrow> inst3_inv s'"
  by (auto simp: originate_inter_area_prefix_lsas_def Let_def bindR_eq_Ok_iff elim!: foldR_keeps [where P = inst3_inv, rotated]
      dest: inst3_inv_insert_inter split: if_splits)

lemma take_refresh_mark_keys [simp]: "map fst (snd (take_refresh_mark m)) = map fst m"
  by (induction m rule: take_refresh_mark.induct) (auto split: prod.splits)

lemma take_refresh_mark_mem:
  "(k, i) \<in> set (snd (take_refresh_mark m)) \<Longrightarrow> \<exists>j. (k, j) \<in> set m \<and> (i = j \<or> i = j\<lparr>if3_needs_refresh := False\<rparr>)"
  by (induction m rule: take_refresh_mark.induct) (auto split: prod.splits if_splits)

lemma ifaces3_ok_take_mark:
  assumes "ifaces3_ok rid m"
  shows "ifaces3_ok rid (snd (take_refresh_mark m))"
proof -
  have "io3_sw_if_index (if3_io i) = k \<and> iface3_ok rid i" if mem: "(k, i) \<in> set (snd (take_refresh_mark m))" for k i
  proof -
    obtain j where j: "(k, j) \<in> set m" "i = j \<or> i = j\<lparr>if3_needs_refresh := False\<rparr>" using take_refresh_mark_mem [OF mem] by blast
    from j(1) assms have "io3_sw_if_index (if3_io j) = k \<and> iface3_ok rid j" by (simp add: ifaces3_ok_def)
    with j(2) show ?thesis by auto
  qed
  then show ?thesis using assms by (simp add: ifaces3_ok_def map_of_eq_Some_iff)
qed

lemma inst3_inv_refresh_lsas: "refresh_router_lsa_if_needed s = Ok s' \<Longrightarrow> inst3_inv s \<Longrightarrow> inst3_inv s'"
proof -
  assume r: "refresh_router_lsa_if_needed s = Ok s'" and "inst3_inv s"
  then have "inst3_inv (s\<lparr>i3_interfaces := snd (take_refresh_mark (i3_interfaces s))\<rparr>)"
    by (simp add: inst3_inv_def ifaces3_ok_take_mark)
  with r show "inst3_inv s'"
    by (auto simp: refresh_router_lsa_if_needed_def Let_def bindR_eq_Ok_iff split: prod.splits if_splits
        dest!: inst3_inv_router_lsa inst3_inv_network_lsas inst3_inv_intra_area inst3_inv_link_lsas)
qed

subsection \<open>Hello, timers, interface state and reload\<close>

lemma iface3_ok_election:
  assumes "nbrs3_ok rid (if3_neighbors i)" and "elects_dr (if3_network_type i)"
  shows "iface3_ok rid (dr_election_v3 rid i)"
  using assms by (auto simp: iface3_ok_def role3_ok_def dr_election_v3_def Let_def split: prod.splits)

lemma dr_election_v3_fields [simp]:
  "if3_neighbors (dr_election_v3 rid i) = if3_neighbors i" "if3_io (dr_election_v3 rid i) = if3_io i"
  "if3_network_type (dr_election_v3 rid i) = if3_network_type i"
  by (simp_all add: dr_election_v3_def Let_def split: prod.splits)

lemma nbrs3_ok_update: "nbrs3_ok rid m \<Longrightarrow> nbr3_ok rid nid n \<Longrightarrow> nbrs3_ok rid (AList.update nid n m)"
  by (auto simp: nbrs3_ok_def update_conv' distinct_update)

lemma nbr3_ok_hello:
  assumes "n = new_neighbor3 now src addr hello \<and> src \<noteq> rid \<or> nbr3_ok rid src n"
  shows "nbr3_ok rid src (hello3_neighbor now' rid addr' hello' n)"
  using assms by (auto simp: nbr3_ok_def hello3_neighbor_def new_neighbor3_def hello3_state_def Let_def state3_order split: if_splits)

interpretation adj_op: nbr3_op rid "\<lambda>_. adj_ok3 rid i" for rid i
  by unfold_locales (auto simp: nbr3_ok_def adj_ok3_def)

lemma iface3_ok_hello:
  assumes "iface3_ok rid i" and "src \<noteq> rid"
  shows "iface3_ok rid (process_hello_v3 now rid src addr hello i)"
proof -
  define n where "n = (case map_of (if3_neighbors i) src of Some n \<Rightarrow> n | None \<Rightarrow> new_neighbor3 now src addr hello)"
  define i1 where "i1 = i\<lparr>if3_neighbors := AList.update src (hello3_neighbor now rid addr hello n) (if3_neighbors i)\<rparr>"
  define i2 where "i2 = (if elects_dr (if3_network_type i1) then dr_election_v3 rid i1 else i1)"
  have "n = new_neighbor3 now src addr hello \<and> src \<noteq> rid \<or> nbr3_ok rid src n"
    using assms by (auto simp: n_def iface3_ok_def nbrs3_ok_def split: option.split)
  then have n: "nbrs3_ok rid (if3_neighbors i1)"
    using assms(1) by (simp add: i1_def nbrs3_ok_update nbr3_ok_hello iface3_ok_def)
  have i2: "iface3_ok rid i2" if "if3_state i \<noteq> IfDownV3"
  proof (cases "elects_dr (if3_network_type i1)")
    case True
    with n show ?thesis by (simp add: i2_def iface3_ok_election)
  next
    case False
    with n that assms(1) show ?thesis by (simp add: i2_def i1_def iface3_ok_def role3_ok_def)
  qed
  then have "iface3_ok rid (i2\<lparr>if3_neighbors := modify_key (adj_ok3 rid i2) src (if3_neighbors i2)\<rparr>)" if "if3_state i \<noteq> IfDownV3"
    using that adj_op.iface_modify by blast
  moreover have "process_hello_v3 now rid src addr hello i =
     (if if3_state i = IfDownV3 then i
      else if hv_hello_interval hello \<noteq> if3_hello_interval i \<or> hv_router_dead_interval hello \<noteq> if3_dead_interval i then i
      else i2\<lparr>if3_neighbors := modify_key (adj_ok3 rid i2) src (if3_neighbors i2)\<rparr>)"
    unfolding process_hello_v3_def Let_def n_def i1_def i2_def by (rule refl)
  ultimately show ?thesis using assms(1) by simp
qed

lemma nbrs3_ok_filter: "nbrs3_ok rid m \<Longrightarrow> nbrs3_ok rid (filter P m)"
  by (auto simp: nbrs3_ok_def distinct_map_filter map_of_eq_Some_iff)

interpretation expire_op3: iface3_op rid "expire_iface now rid" for rid now
proof (unfold_locales, goal_cases)
  case (1 i)
  then show ?case
    by (auto simp: expire_iface_def Let_def iface3_ok_def [of _ i] nbrs3_ok_filter intro!: iface3_ok_election)
      (auto simp: iface3_ok_def role3_ok_def nbrs3_ok_filter)
qed (simp add: expire_iface_def Let_def)

lemma inst3_inv_expire: "inst3_inv s \<Longrightarrow> inst3_inv (expire_neighbors now s)"
  by (simp add: inst3_inv_def expire_neighbors_def expire_op3.ifaces_map)

lemma refresh_iface3_ok:
  assumes "iface3_ok rid i"
  shows "iface3_ok rid (snd (refresh_iface3 ll ps up i))"
    and "io3_sw_if_index (if3_io (snd (refresh_iface3 ll ps up i))) = io3_sw_if_index (if3_io i)"
  using assms
  by (auto simp: refresh_iface3_def Let_def iface3_ok_def role3_ok_def tear_down_def up_state_def nbrs3_ok_def
      split: option.splits if_splits)

interpretation refresh_op3: iface3_op rid "\<lambda>i. snd (refresh_iface3 ll ps up i)" for rid ll ps up
proof (unfold_locales, goal_cases)
  case (2 i)
  show ?case by (auto simp: refresh_iface3_def Let_def tear_down_def split: option.splits)
qed (rule refresh_iface3_ok)

lemma inst3_inv_refresh_iface: "inst3_inv s \<Longrightarrow> inst3_inv (snd (refresh_interface_state_v3 sw ll ps up s))"
  using refresh_op3.ifaces_modify [of "i3_router_id s" "i3_interfaces s" ll ps up sw]
  by (auto simp: refresh_interface_state_v3_def inst3_inv_def modify_key_def split: option.splits prod.splits)

lemma reload3_iface_ok: "iface3_ok rid (snd (reload3_iface c i)) = iface3_ok rid i"
  by (simp add: reload3_iface_def Let_def iface3_ok_def role3_ok_def)

interpretation reload_op3: iface3_op rid "\<lambda>i. snd (reload3_iface c i)" for rid c
  by unfold_locales (simp_all add: reload3_iface_ok, simp add: reload3_iface_def Let_def)

lemma ifaces3_ok_reload_one: "ifaces3_ok rid (snd st) \<Longrightarrow> ifaces3_ok rid (snd (reload3_one c st))"
proof -
  assume ok: "ifaces3_ok rid (snd st)"
  obtain ch m where st: "st = (ch, m)" by (cases st)
  show ?thesis
  proof (cases "List.find (\<lambda>(_, i). io3_name (if3_io i) = ic6_name c) m")
    case (Some ki)
    obtain k i where ki: "ki = (k, i)" by (cases ki)
    from Some ki have "(k, i) \<in> set m" by (auto simp: find_Some_iff) (metis nth_mem)
    then have "map_of m k = Some i" using ok st by (simp add: ifaces3_ok_def)
    then have "AList.update k (snd (reload3_iface c i)) m = modify_key (\<lambda>i. snd (reload3_iface c i)) k m"
      by (simp add: modify_key_def)
    then show ?thesis
      using ok reload_op3.ifaces_modify [of rid m c k] by (cases "reload3_iface c i") (simp add: reload3_one_def st Some ki)
  qed (use ok st in \<open>simp add: reload3_one_def\<close>)
qed

lemma ifaces3_ok_reload: "ifaces3_ok rid (snd st) \<Longrightarrow> ifaces3_ok rid (snd (fold reload3_one cs st))"
  by (induction cs arbitrary: st) (simp_all add: ifaces3_ok_reload_one)

lemma inst3_inv_reload: "inst3_inv s \<Longrightarrow> inst3_inv (snd (reload_config_v3 new s))"
  using ifaces3_ok_reload [of "i3_router_id s" "(False, i3_interfaces s)" "d6_interfaces new"]
  by (auto simp: inst3_inv_def reload_config_v3_def Let_def split: prod.splits)

lemma inst3_inv_add_interface:
  "inst3_inv s \<Longrightarrow> inst3_inv (add_interface_full now io aid ntype hello dead prio prefixes rxmt delay cost s)"
  by (auto simp: inst3_inv_def add_interface_full_def ifaces3_ok_def update_conv' distinct_update iface3_ok_def role3_ok_def
      nbrs3_ok_def up_state_def split: if_splits)

subsection \<open>Received packets\<close>

lemma nbr3_ok_finish: "nbr3_ok rid nid n \<Longrightarrow> nbr3_ok rid nid (finish_dd hs n)"
  by (auto simp: nbr3_ok_def finish_dd_def Let_def)

lemma nbr3_ok_dd: "nbr3_ok rid nid n \<Longrightarrow> nbr3_ok rid nid (process_dd_neighbor rid' src dd hs n)"
  by (auto simp: nbr3_ok_def process_dd_neighbor_def dd_restart_def dd_negotiate_def dd_exchange_v3_def Let_def split: option.splits)

interpretation dd_op: nbr3_op rid "\<lambda>_. process_dd_neighbor rid' src dd hs" for rid rid' src dd hs
  by unfold_locales (rule nbr3_ok_dd)

lemma inst3_inv_bump: "inst3_inv s \<Longrightarrow> inst3_inv (bump_self_v3 aid h s)"
proof -
  assume inv: "inst3_inv s"
  have "inst3_inv (s\<lparr>i3_lsdb := lsdb3_insert (e\<lparr>e3_header := (e3_header e)\<lparr>l3_seq := sq\<rparr>\<rparr>) (i3_lsdb s),
      i3_interfaces := map_values (\<lambda>_ i. i\<lparr>if3_needs_refresh := True\<rparr>) (i3_interfaces s)\<rparr>)"
    if "lsdb3_get (i3_lsdb s) k = Some e" for k e sq
  proof -
    have "good_entry (e\<lparr>e3_header := (e3_header e)\<lparr>l3_seq := sq\<rparr>\<rparr>)"
      using good_entry_held [OF inv that] by (simp add: good_entry_def good_raw_seq)
    with inv show ?thesis
      using inst3_inv_insert [OF inv] mark_op.ifaces_map by (simp add: inst3_inv_def)
  qed
  with inv show ?thesis by (simp add: bump_self_v3_def split: option.split)
qed

lemma i3_router_id_bump [simp]: "i3_router_id (bump_self_v3 aid h s) = i3_router_id s"
  by (simp add: bump_self_v3_def split: option.split)

lemma inst3_inv_bumps: "inst3_inv s \<Longrightarrow> inst3_inv (fold (bump_self_v3 aid) hs s)"
  by (induction hs arbitrary: s) (simp_all add: inst3_inv_bump)

lemma inst3_inv_dd: "inst3_inv s \<Longrightarrow> inst3_inv (receive_dd_v3 sw src dd i s)"
  using inst3_inv_bumps [of s "if3_area_id i" "dv_lsa_headers dd"] dd_op.one.ifaces_modify
  by (simp add: receive_dd_v3_def Let_def inst3_inv_def process_dd_v3_def [abs_def])

lemma inst3_inv_modify_neighbor:
  assumes "inst3_inv s" and "\<And>n. nbr3_ok (i3_router_id s) src n \<Longrightarrow> nbr3_ok (i3_router_id s) src (f n)"
  shows "inst3_inv (modify_neighbor3 sw src f s)"
proof -
  have "nbr3_op (i3_router_id s) (\<lambda>nid n. if nid = src then f n else n)" by unfold_locales (auto intro: assms(2))
  from nbr3_op.iface_modify [OF this, where k = src]
  have "iface3_op (i3_router_id s) (\<lambda>i. i\<lparr>if3_neighbors := modify_key f src (if3_neighbors i)\<rparr>)"
    by unfold_locales simp_all
  from iface3_op.ifaces_modify [OF this] assms(1) show ?thesis by (simp add: inst3_inv_def modify_neighbor3_def)
qed

lemma inst3_inv_lsr: "inst3_inv s \<Longrightarrow> inst3_inv (process_lsr_v3 sw src reqs s)"
proof -
  assume inv: "inst3_inv s"
  have "good_raw (raw_header l) (raw_bytes l)" if "l \<in> set (List.map_filter (requested_lsa (i3_lsdb s) aid) reqs)" for aid l
    using that good_entry_held [OF inv] by (fastforce simp: List.map_filter_def requested_lsa_def good_entry_def)
  with inv show ?thesis unfolding process_lsr_v3_def Let_def by (intro inst3_inv_modify_neighbor) (auto simp: nbr3_ok_def)
qed

lemma accepted_good:
  assumes "\<forall>l \<in> set raws. wf_raw l" and "e \<in> set (accepted_entries sw raws s)"
  shows "good_entry e"
proof -
  from assms obtain l aid where "wf_raw l"
    and e: "e = \<lparr>e3_header = raw_header l, e3_raw = raw_bytes l, e3_area = lsa_scope (l3_type (raw_header l)) aid\<rparr>"
    by (auto simp: accepted_entries_def Let_def)
  then have "good_raw (raw_header l) (raw_bytes l)" by (intro good_raw_wf) (simp add: wf_raw_def)
  then show ?thesis by (simp add: e good_entry_def lsa_scope_def)
qed

lemma inst3_inv_fold:
  "(\<And>x s. x \<in> set xs \<Longrightarrow> inst3_inv s \<Longrightarrow> inst3_inv (f x s)) \<Longrightarrow> inst3_inv s \<Longrightarrow> inst3_inv (fold f xs s)"
  by (induction xs arbitrary: s) simp_all

lemma fold_lsdb3_insert: "s\<lparr>i3_lsdb := fold lsdb3_insert es (i3_lsdb s)\<rparr> = fold (\<lambda>e s. s\<lparr>i3_lsdb := lsdb3_insert e (i3_lsdb s)\<rparr>) es s"
proof (induction es arbitrary: s)
  case (Cons e es)
  from Cons.IH [of "s\<lparr>i3_lsdb := lsdb3_insert e (i3_lsdb s)\<rparr>"] show ?case by simp
qed simp

lemma alist_update_twice: "AList.update k v (AList.update k w m) = AList.update k v m"
  by (induction m) auto

lemma modify_key_twice: "modify_key f k (modify_key g k m) = modify_key (\<lambda>v. f (g v)) k m"
  by (cases "map_of m k") (simp_all add: modify_key_def update_conv' alist_update_twice)

text \<open>What an update does to the interface it came in on, after the database and the floods.\<close>

definition lsu_heard :: "LsaV3Header list \<Rightarrow> ipv4 \<Rightarrow> InterfaceV3 \<Rightarrow> InterfaceV3" where
  "lsu_heard hs src i = loading_done (i\<lparr>if3_neighbors := modify_key (acknowledge hs) src (if3_neighbors i)\<rparr>) src"

lemma process_lsu_v3_eq:
  "process_lsu_v3 sw src raws s =
     (let installed = accepted_entries sw raws s;
          s = fold (\<lambda>e. flood_lsa_v3 e (Some (sw, src))) installed (s\<lparr>i3_lsdb := fold lsdb3_insert installed (i3_lsdb s)\<rparr>)
      in s\<lparr>i3_interfaces := modify_key (lsu_heard (map e3_header installed) src) sw (i3_interfaces s)\<rparr>)"
  by (simp add: process_lsu_v3_def Let_def modify_neighbor3_def modify_key_twice lsu_heard_def [abs_def])

lemma lsu_heard_cases:
  assumes "map_of (if3_neighbors i) src = Some n"
  shows "lsu_heard hs src i =
    (let n' = acknowledge hs n in
     if nb3_state n = LoadingV3 \<and> nb3_request_list n' = [] then
       i\<lparr>if3_neighbors := AList.update src (n'\<lparr>nb3_state := FullV3\<rparr>) (if3_neighbors i), if3_needs_refresh := True\<rparr>
     else i\<lparr>if3_neighbors := AList.update src n' (if3_neighbors i)\<rparr>)"
  using assms by (simp add: lsu_heard_def loading_done_def modify_key_def update_conv' alist_update_twice Let_def acknowledge_def)

lemma lsu_heard_None: "map_of (if3_neighbors i) src = None \<Longrightarrow> lsu_heard hs src i = i"
  by (simp add: lsu_heard_def loading_done_def modify_key_def)

interpretation heard_op: iface3_op rid "lsu_heard hs src" for rid hs src
proof (unfold_locales, goal_cases)
  case (1 i)
  show ?case
  proof (cases "map_of (if3_neighbors i) src")
    case (Some n)
    define n' where "n' = (if nb3_state n = LoadingV3 \<and> nb3_request_list (acknowledge hs n) = []
      then (acknowledge hs n)\<lparr>nb3_state := FullV3\<rparr> else acknowledge hs n)"
    from 1 Some have "nbr3_ok rid src n" "nbrs3_ok rid (if3_neighbors i)" by (simp_all add: iface3_ok_def nbrs3_ok_def)
    then have "nbrs3_ok rid (AList.update src n' (if3_neighbors i))"
      by (intro nbrs3_ok_update) (auto simp: n'_def nbr3_ok_def acknowledge_def)
    moreover from Some have "if3_neighbors i \<noteq> []" by auto
    ultimately have "iface3_ok rid (i\<lparr>if3_neighbors := AList.update src n' (if3_neighbors i)\<rparr>)"
      using iface3_ok_nbrs [OF 1] by simp
    then show ?thesis
      by (cases "nb3_state n = LoadingV3 \<and> nb3_request_list (acknowledge hs n) = []")
        (auto simp: lsu_heard_cases [OF Some] n'_def Let_def)
  qed (use 1 in \<open>simp add: lsu_heard_None\<close>)
next
  case (2 i)
  show ?case by (simp add: lsu_heard_def loading_done_def split: option.split)
qed

lemma inst3_inv_lsu:
  assumes "inst3_inv s" and "\<forall>l \<in> set raws. wf_raw l"
  shows "inst3_inv (process_lsu_v3 sw src raws s)"
proof -
  have "inst3_inv (fold (\<lambda>e. flood_lsa_v3 e (Some (sw, src))) (accepted_entries sw raws s)
      (s\<lparr>i3_lsdb := fold lsdb3_insert (accepted_entries sw raws s) (i3_lsdb s)\<rparr>))"
    unfolding fold_lsdb3_insert using assms(1) accepted_good [OF assms(2)]
    by (intro inst3_inv_fold) (blast intro: inst3_inv_flood inst3_inv_insert)+
  then show ?thesis using heard_op.ifaces_modify by (simp add: process_lsu_v3_eq Let_def inst3_inv_def)
qed

lemma inst3_inv_rx:
  assumes "handle_rx now rx s = Ok s'" and "inst3_inv s"
  shows "inst3_inv s'"
proof -
  consider "s' = s" | h bytes i where "rx_iface s (rx3_sw_if_index rx) h = Some i"
      "handle_body now (rx3_sw_if_index rx) h (rx3_src_addr rx) bytes i s = Ok s'"
    using assms(1) by (auto simp: handle_rx_def bindR_eq_Ok_iff split: if_splits option.splits)
  then show ?thesis
  proof cases
    case 2
    then have src: "h3_router_id h \<noteq> i3_router_id s" by (auto simp: rx_iface_def split: if_splits)
    have "iface3_op (i3_router_id s) (process_hello_v3 now (i3_router_id s) (h3_router_id h) addr hello)" for addr hello
      using src by unfold_locales (simp add: iface3_ok_hello, simp add: process_hello_v3_def Let_def)
    then have hello: "inst3_inv (s\<lparr>i3_interfaces := modify_key (process_hello_v3 now (i3_router_id s) (h3_router_id h) addr hello)
        sw (i3_interfaces s)\<rparr>)" for addr hello sw
      using assms(2) iface3_op.ifaces_modify by (auto simp: inst3_inv_def)
    have "\<forall>l \<in> set raws. wf_raw l" if "lsu_v3_parse bytes = Ok raws" for raws
      using that by (auto simp: lsu_v3_parse_def bindR_eq_Ok_iff dest: good_raw_parsed split: if_splits)
    then show ?thesis
      using 2(2) assms(2) hello
      by (auto simp: handle_body_def bindR_eq_Ok_iff inst3_inv_dd inst3_inv_lsr inst3_inv_lsu process_lsack_v3_def
          split: Ospfv3PacketType.splits)
  qed (use assms(2) in simp)
qed

subsection \<open>Emitted packets\<close>

lemma each3_map_of:
  "each3 f m = Ok (out, m') \<Longrightarrow> map fst m' = map fst m \<and>
   (\<forall>k i'. map_of m' k = Some i' \<longrightarrow> (\<exists>i o'. map_of m k = Some i \<and> f k i = Ok (o', i')))"
  by (induction f m arbitrary: out m' rule: each3.induct) (auto simp: bindR_eq_Ok_iff split: if_splits)

lemma ifaces3_ok_each3:
  assumes "each3 f m = Ok (out, m')" and "ifaces3_ok rid m"
    and "\<And>k i out i'. map_of m k = Some i \<Longrightarrow> iface3_ok rid i \<Longrightarrow> f k i = Ok (out, i') \<Longrightarrow> iface3_ok rid i' \<and> if3_io i' = if3_io i"
  shows "ifaces3_ok rid m'"
  using each3_map_of [OF assms(1)] assms(2,3) unfolding ifaces3_ok_def by metis

lemma hello_tick_iface_ok:
  "iface3_ok rid i \<Longrightarrow> hello_tick_iface now rid' k i = Ok (out, i') \<Longrightarrow> iface3_ok rid i' \<and> if3_io i' = if3_io i"
  by (auto simp: hello_tick_iface_def Let_def bindR_eq_Ok_iff iface3_ok_def role3_ok_def split: if_splits)

lemma inst3_inv_hello_tick: "hello_tick now s = Ok (out, s') \<Longrightarrow> inst3_inv s \<Longrightarrow> inst3_inv s'"
  using ifaces3_ok_each3 [where f = "hello_tick_iface now (i3_router_id s)" and rid = "i3_router_id s" and m = "i3_interfaces s"]
    hello_tick_iface_ok by (auto simp: hello_tick_def bindR_eq_Ok_iff inst3_inv_def)

lemma nbr3_ok_emit_dd: "nbr3_ok rid nid n \<Longrightarrow> emit_dd_v3 now rid' aid inst hs n = Ok (b, fin, n') \<Longrightarrow> nbr3_ok rid nid n'"
proof -
  have "nbr3_ok rid nid (snd (next_dd_v3 now mtu n))" if "nbr3_ok rid nid n" for mtu n
    using that by (auto simp: nbr3_ok_def next_dd_v3_def dd_contents_v3_def Let_def split: prod.splits)
  moreover have "nbr3_ok rid nid (n\<lparr>nb3_dd_seq := q\<rparr>) = nbr3_ok rid nid n" for q n by (simp add: nbr3_ok_def)
  ultimately show "nbr3_ok rid nid n \<Longrightarrow> emit_dd_v3 now rid' aid inst hs n = Ok (b, fin, n') \<Longrightarrow> nbr3_ok rid nid n'"
    by (auto simp: emit_dd_v3_def build_dd_v3_def Let_def bindR_eq_Ok_iff split: prod.splits if_splits)
      (metis snd_conv nbr3_ok_finish)+
qed

lemma emit_dds_map_of:
  "emit_dds now rid hs i m = Ok (out, r, m') \<Longrightarrow> map fst m' = map fst m \<and>
   (\<forall>k n'. map_of m' k = Some n' \<longrightarrow> (\<exists>n. map_of m k = Some n \<and>
      (n' = n \<or> (\<exists>b fin. emit_dd_v3 now rid (if3_area_id i) (if3_instance_id i) hs n = Ok (b, fin, n')))))"
  by (induction now rid hs i m arbitrary: out r m' rule: emit_dds.induct) (auto simp: bindR_eq_Ok_iff split: if_splits)

lemma emit_dds_iface_ok:
  assumes "iface3_ok rid i" and "emit_dds_iface now rid' hs k i = Ok (out, i')"
  shows "iface3_ok rid i' \<and> if3_io i' = if3_io i"
proof (cases "if3_state i = IfDownV3")
  case False
  with assms(2) obtain r m where m: "emit_dds now rid' hs i (if3_neighbors i) = Ok (out, r, m)"
    and i': "i' = i\<lparr>if3_neighbors := m, if3_needs_refresh := if3_needs_refresh i \<or> r\<rparr>"
    by (auto simp: emit_dds_iface_def bindR_eq_Ok_iff)
  have "nbr3_ok rid nid n'" if "map_of m nid = Some n'" for nid n'
  proof -
    obtain n where n: "map_of (if3_neighbors i) nid = Some n"
      "n' = n \<or> (\<exists>b fin. emit_dd_v3 now rid' (if3_area_id i) (if3_instance_id i) hs n = Ok (b, fin, n'))"
      using emit_dds_map_of [OF m] \<open>map_of m nid = Some n'\<close> by blast
    from n(1) assms(1) have "nbr3_ok rid nid n" by (simp add: iface3_ok_def nbrs3_ok_def)
    with n(2) show ?thesis using nbr3_ok_emit_dd by blast
  qed
  then have "nbrs3_ok rid m" using emit_dds_map_of [OF m] assms(1) by (simp add: nbrs3_ok_def iface3_ok_def)
  then have "iface3_ok rid (i\<lparr>if3_neighbors := m\<rparr>)"
    using iface3_ok_nbrs [OF assms(1)] emit_dds_map_of [OF m] by fastforce
  then show ?thesis by (simp add: i')
qed (use assms in \<open>simp add: emit_dds_iface_def\<close>)

lemma inst3_inv_emit_dds: "emit_pending_dds_v3 now s = Ok (out, s') \<Longrightarrow> inst3_inv s \<Longrightarrow> inst3_inv s'"
  using ifaces3_ok_each3 [where rid = "i3_router_id s" and m = "i3_interfaces s" and
      f = "emit_dds_iface now (i3_router_id s) (lsdb3_headers (i3_lsdb s))"] emit_dds_iface_ok
  by (auto simp: emit_pending_dds_v3_def bindR_eq_Ok_iff inst3_inv_def)

lemma emit_parts:
  "emit_lsr_v3 now rid i n = Ok (out, n') \<Longrightarrow> n' = n \<or> n' = n\<lparr>nb3_lsr_pending := False, nb3_last_lsr_sent := Some now\<rparr>"
  "emit_lsu rid i n = Ok (out, n') \<Longrightarrow> n' = n\<lparr>nb3_pending_lsu := []\<rparr>"
  "emit_lsack rid i n = Ok (out, n') \<Longrightarrow> n' = n\<lparr>nb3_pending_acks := []\<rparr>"
  by (auto simp: emit_lsr_v3_def emit_lsu_def emit_lsack_def bindR_eq_Ok_iff split: if_splits)

lemma nbr3_ok_emit:
  assumes "nbr3_ok rid nid n" and "emit_neighbor now rid' i nid n = Ok (out, n')"
  shows "nbr3_ok rid nid n'"
proof -
  from assms(2) consider "n' = n" | p1 n1 p2 n2 p3 where "emit_lsr_v3 now rid' i n = Ok (p1, n1)" "emit_lsu rid' i n1 = Ok (p2, n2)"
      "emit_lsack rid' i n2 = Ok (p3, n')"
    by (auto simp: emit_neighbor_def bindR_eq_Ok_iff split: if_splits)
  then show ?thesis
  proof cases
    case 2
    have "nbr3_ok rid nid n1" using emit_parts(1) [OF 2(1)] assms(1) by (auto simp: nbr3_ok_def)
    then have "nbr3_ok rid nid n2" using emit_parts(2) [OF 2(2)] by (simp add: nbr3_ok_def)
    then show ?thesis using emit_parts(3) [OF 2(3)] by (simp add: nbr3_ok_def)
  qed (use assms(1) in simp)
qed

lemma emit_lsdb_iface_ok:
  assumes "iface3_ok rid i" and "emit_lsdb_iface now rid' k i = Ok (out, i')"
  shows "iface3_ok rid i' \<and> if3_io i' = if3_io i"
proof (cases "if3_state i = IfDownV3")
  case False
  with assms(2) obtain m where m: "each3 (emit_neighbor now rid' i) (if3_neighbors i) = Ok (out, m)" and i': "i' = i\<lparr>if3_neighbors := m\<rparr>"
    by (auto simp: emit_lsdb_iface_def bindR_eq_Ok_iff)
  have "nbrs3_ok rid m"
    using each3_map_of [OF m] assms(1) nbr3_ok_emit unfolding nbrs3_ok_def iface3_ok_def by metis
  then show ?thesis
    using iface3_ok_nbrs [OF assms(1)] each3_map_of [OF m] by (fastforce simp: i')
qed (use assms in \<open>simp add: emit_lsdb_iface_def\<close>)

lemma inst3_inv_emit_lsdb: "emit_pending_lsdb_packets now s = Ok (out, s') \<Longrightarrow> inst3_inv s \<Longrightarrow> inst3_inv s'"
  using ifaces3_ok_each3 [where rid = "i3_router_id s" and m = "i3_interfaces s" and f = "emit_lsdb_iface now (i3_router_id s)"]
    emit_lsdb_iface_ok by (auto simp: emit_pending_lsdb_packets_def bindR_eq_Ok_iff inst3_inv_def)

end
