(* ===== verification/Daemon_V3.thy ===== *)
theory Daemon_V3
  imports Inv_V3
begin

text \<open>
  \<^verbatim>\<open>src/daemon_v3.rs\<close>: the OSPFv3 daemon task. Start-up populates the instance and originates its first LSAs;
  the select loop has one arm per event (a received packet, a configuration reload, the hello, expiry and SPF
  ticks, and the poll of VPP for interface state). What VPP answers is an argument of the arms. Each arm is one
  step, since the task holds the instance while it runs; the invariant of the instance holds after every sequence of steps.
\<close>

section \<open>Configuration and start\<close>

record V3InterfaceConfig =
  vi_name :: string
  vi_sw_if_index :: u32
  vi_kernel_ifindex :: u32
  vi_link_local :: ipv6
  vi_global_prefixes :: "(ipv6 \<times> u8) list"
  vi_area_id :: ipv4
  vi_network_type :: NetworkTypeV3
  vi_hello_interval :: u16
  vi_dead_interval :: u16
  vi_retransmit_interval :: u16
  vi_transmit_delay :: u16
  vi_priority :: u8
  vi_cost :: u16
  vi_static_neighbors :: "(ipv6 \<times> u8) list"
  vi_mac_address :: "u8 list"
  vi_outer_vlan_id :: "u16 option"
  vi_inner_vlan_id :: "u16 option"

datatype V3IoBackend = RawV3 | PuntV3

record 'c V3DaemonConfig =
  vc_vrf_name :: "string option"
  vc_table_id_v6 :: u32
  vc_router_id :: ipv4
  vc_interfaces :: "V3InterfaceConfig list"
  vc_areas :: "(ipv4 \<times> AreaType) list"
  vc_redistribute :: "RedistributeConfig list"
  vc_route_maps :: "(string \<times> 'c RouteMap) list"
  vc_distance :: "u8 option"
  vc_default_originate :: bool
  vc_default_originate_metric :: u32
  vc_default_originate_metric_type :: u8
  vc_summary_addresses :: "ParsedSummaryAddress6 list"
  vc_io_backend :: V3IoBackend

record DiscoveredAddrs =
  da_link_local :: "ipv6 option"
  da_global_prefixes :: "(ipv6 \<times> u8) list"

text \<open>The interfaces for which VPP has a link-local address, with the addresses it gives.\<close>

definition usable_interfaces :: "(u32 \<Rightarrow> DiscoveredAddrs) \<Rightarrow> V3InterfaceConfig list \<Rightarrow> V3InterfaceConfig list" where
  "usable_interfaces discover ics =
     List.map_filter (\<lambda>ic.
       (let addrs = discover (vi_sw_if_index ic)
        in map_option (\<lambda>ll. ic\<lparr>vi_link_local := ll, vi_global_prefixes := da_global_prefixes addrs\<rparr>) (da_link_local addrs))) ics"

definition io_interface :: "V3InterfaceConfig \<Rightarrow> IoInterfaceV3" where
  "io_interface ic =
     \<lparr>io3_name = vi_name ic, io3_sw_if_index = vi_sw_if_index ic, io3_kernel_ifindex = vi_kernel_ifindex ic,
      io3_link_local = vi_link_local ic, io3_mac_address = vi_mac_address ic, io3_outer_vlan_id = vi_outer_vlan_id ic,
      io3_inner_vlan_id = vi_inner_vlan_id ic\<rparr>"

definition start_interface :: "instant \<Rightarrow> V3InterfaceConfig \<Rightarrow> 'c InstanceV3 \<Rightarrow> 'c InstanceV3" where
  "start_interface now ic s =
     (let s = add_interface_full now (io_interface ic) (vi_area_id ic) (vi_network_type ic) (vi_hello_interval ic)
                (vi_dead_interval ic) (vi_priority ic) (vi_global_prefixes ic) (vi_retransmit_interval ic)
                (vi_transmit_delay ic) (vi_cost ic) s
      in if vi_static_neighbors ic \<noteq> [] then
           set_static_neighbors_v3 (vi_sw_if_index ic)
             (map (\<lambda>(addr, prio). \<lparr>st3_link_local = addr, st3_priority = prio\<rparr>) (vi_static_neighbors ic)) s
         else s)"

definition start_instance :: "(nat \<Rightarrow> nat) \<Rightarrow> instant \<Rightarrow> 'c V3DaemonConfig \<Rightarrow> 'c InstanceV3 \<Rightarrow> 'c InstanceV3 parsed3" where
  "start_instance tie now cfg s =
     (let s = s\<lparr>i3_redistribute := vc_redistribute cfg, i3_route_maps := vc_route_maps cfg\<rparr>;
          s = set_asbr (vc_redistribute cfg \<noteq> []) s;
          s = fold (\<lambda>(aid, t). set_area_type aid t) (vc_areas cfg) s;
          s = fold (start_interface now) (vc_interfaces cfg) s
      in bindR (originate_router_lsa_v3 s) (\<lambda>s. bindR (originate_intra_area_prefix_lsas s) (originate_inter_area_prefix_lsas tie)))"

definition start_externals ::
  "('c \<Rightarrow> ipv6 \<times> u8 \<Rightarrow> RedistributeSource \<Rightarrow> bool) \<Rightarrow> 'c V3DaemonConfig \<Rightarrow> (ipv6 \<times> u8) list \<Rightarrow> 'c InstanceV3 \<Rightarrow>
   'c InstanceV3 parsed3" where
  "start_externals ev cfg externals s =
     bindR (if vc_redistribute cfg \<noteq> [] then originate_external_lsas_v3 ev externals (vc_summary_addresses cfg) s else Ok s) (\<lambda>s.
     bindR (if vc_default_originate cfg then
              originate_default_route_lsa_v3 (vc_default_originate_metric cfg) (vc_default_originate_metric_type cfg) (set_asbr True s)
            else Ok s) (\<lambda>s.
     if vc_summary_addresses cfg \<noteq> [] then originate_summary_address_lsas_v3 (vc_summary_addresses cfg) (set_asbr True s)
     else Ok s))"

record 'c DaemonV3 =
  dm_cfg :: "'c V3DaemonConfig"
  dm_inst :: "'c InstanceV3"
  dm_rib :: OspfRibV3
  dm_last_generation :: u64
  dm_last_neighbor_count :: nat
  dm_force_spf :: bool

text \<open>
  \<^verbatim>\<open>run\<close> up to its loop, on the instance that \<^verbatim>\<open>main.rs\<close> creates. \<^verbatim>\<open>None\<close>: the task ends, as no interface is usable.
\<close>

definition daemon3_start ::
  "('c \<Rightarrow> ipv6 \<times> u8 \<Rightarrow> RedistributeSource \<Rightarrow> bool) \<Rightarrow> (nat \<Rightarrow> nat) \<Rightarrow> instant \<Rightarrow> (u32 \<Rightarrow> DiscoveredAddrs) \<Rightarrow> (ipv6 \<times> u8) list \<Rightarrow>
   'c V3DaemonConfig \<Rightarrow> 'c DaemonV3 option parsed3" where
  "daemon3_start ev tie now discover externals cfg =
     (let cfg = cfg\<lparr>vc_interfaces := usable_interfaces discover (vc_interfaces cfg)\<rparr>;
          s = (instance3_new (vc_router_id cfg))\<lparr>i3_vrf_name := vc_vrf_name cfg, i3_summary_addresses := vc_summary_addresses cfg\<rparr>
      in if vc_interfaces cfg = [] then Ok None
         else
           bindR (start_instance tie now cfg s) (\<lambda>s. bindR (start_externals ev cfg externals s) (\<lambda>s.
           Ok (Some \<lparr>dm_cfg = cfg, dm_inst = s, dm_rib = rib3_new, dm_last_generation = - 1,
                     dm_last_neighbor_count = 2 ^ 64 - 1, dm_force_spf = False\<rparr>))))"

section \<open>The arms of the loop\<close>

definition arm_rx :: "instant \<Rightarrow> RxPacketV3 \<Rightarrow> 'c DaemonV3 \<Rightarrow> 'c DaemonV3 parsed3" where
  "arm_rx now rx d =
     (case handle_rx now rx (dm_inst d) of Ok s \<Rightarrow> Ok (d\<lparr>dm_inst := s\<rparr>) | Err e \<Rightarrow> Ok d | Panic \<Rightarrow> Panic)"

text \<open>The configurations of all VRFs, read again; \<^verbatim>\<open>None\<close> when that failed.\<close>

definition arm_reload :: "'c Ospf6DaemonConfig list option \<Rightarrow> 'c DaemonV3 \<Rightarrow> 'c DaemonV3 parsed3" where
  "arm_reload configs d =
     (case configs of
        None \<Rightarrow> Ok d
      | Some cs \<Rightarrow>
          (case List.find (\<lambda>c. d6_vrf_name c = vc_vrf_name (dm_cfg d)) cs of
             None \<Rightarrow> Ok d
           | Some new_cfg \<Rightarrow> Ok (d\<lparr>dm_inst := snd (reload_config_v3 new_cfg (dm_inst d))\<rparr>)))"

definition arm_hello :: "instant \<Rightarrow> 'c DaemonV3 \<Rightarrow> (TxPacketV3 list \<times> 'c DaemonV3) parsed3" where
  "arm_hello now d =
     bindR (hello_tick now (dm_inst d)) (\<lambda>(p1, s). bindR (emit_pending_dds_v3 now s) (\<lambda>(p2, s).
     bindR (emit_pending_lsdb_packets now s) (\<lambda>(p3, s). Ok (p1 @ p2 @ p3, d\<lparr>dm_inst := s\<rparr>))))"

definition arm_expire :: "instant \<Rightarrow> 'c DaemonV3 \<Rightarrow> 'c DaemonV3 parsed3" where
  "arm_expire now d =
     bindR (refresh_router_lsa_if_needed (expire_neighbors now (dm_inst d))) (\<lambda>s. Ok (d\<lparr>dm_inst := s\<rparr>))"

type_synonym snapshot3 = "u32 \<times> ipv6 option \<times> (ipv6 \<times> u8) list \<times> bool"

definition refresh_snapshot :: "snapshot3 \<Rightarrow> bool \<times> 'c InstanceV3 \<Rightarrow> bool \<times> 'c InstanceV3" where
  "refresh_snapshot = (\<lambda>(sw, ll, prefixes, oper_up) (any_change, s).
     (let (c, s) = refresh_interface_state_v3 sw ll prefixes oper_up s in (any_change \<or> c, s)))"

definition arm_refresh ::
  "('c \<Rightarrow> ipv6 \<times> u8 \<Rightarrow> RedistributeSource \<Rightarrow> bool) \<Rightarrow> snapshot3 list \<Rightarrow> (ipv6 \<times> u8) list \<Rightarrow> 'c DaemonV3 \<Rightarrow> 'c DaemonV3 parsed3" where
  "arm_refresh ev snapshots externals d =
     (let (any_change, s) = fold refresh_snapshot snapshots (False, dm_inst d) in
      bindR (if any_change then refresh_router_lsa_if_needed s else Ok s) (\<lambda>s.
      bindR (if vc_redistribute (dm_cfg d) \<noteq> [] then
               originate_external_lsas_v3 ev externals (vc_summary_addresses (dm_cfg d)) s
             else Ok s) (\<lambda>s.
      Ok (d\<lparr>dm_inst := s, dm_force_spf := dm_force_spf d \<or> any_change\<rparr>))))"

text \<open>The SPF tick: the batches pushed to ribd, where it runs.\<close>

definition arm_spf :: "(nat \<Rightarrow> nat) \<Rightarrow> 'c DaemonV3 \<Rightarrow> ((SourceV6 \<times> ProtoRouteV6 list) list \<times> 'c DaemonV3) parsed3" where
  "arm_spf tie d =
     (let nbrs = spf_neighbors_v3 (dm_inst d) in
      if \<not> dm_force_spf d \<and> generation3 (i3_lsdb (dm_inst d)) = dm_last_generation d \<and> length nbrs = dm_last_neighbor_count d
      then Ok ([], d)
      else
        bindR (originate_inter_area_prefix_lsas tie (dm_inst d)) (\<lambda>s.
        (let routes = calculate_spf_v3 tie (vc_router_id (dm_cfg d)) (i3_lsdb s) nbrs;
             (_, rib) = apply_routes_v3 routes (dm_rib d)
         in Ok (push_v6 (vc_table_id_v6 (dm_cfg d)) (\<lambda>_. vc_distance (dm_cfg d)) routes,
                d\<lparr>dm_inst := s\<lparr>i3_installed_route_count := route3_count rib\<rparr>, dm_rib := rib, dm_force_spf := False,
                  dm_last_generation := generation3 (i3_lsdb s), dm_last_neighbor_count := length nbrs\<rparr>))))"

section \<open>Reachable states\<close>

inductive daemon3_step :: "('c \<Rightarrow> ipv6 \<times> u8 \<Rightarrow> RedistributeSource \<Rightarrow> bool) \<Rightarrow> 'c DaemonV3 \<Rightarrow> 'c DaemonV3 \<Rightarrow> bool" for ev where
  rx: "arm_rx now rx d = Ok d' \<Longrightarrow> daemon3_step ev d d'"
| reload: "arm_reload configs d = Ok d' \<Longrightarrow> daemon3_step ev d d'"
| hello: "arm_hello now d = Ok (packets, d') \<Longrightarrow> daemon3_step ev d d'"
| expire: "arm_expire now d = Ok d' \<Longrightarrow> daemon3_step ev d d'"
| refresh: "arm_refresh ev snapshots externals d = Ok d' \<Longrightarrow> daemon3_step ev d d'"
| spf: "arm_spf tie d = Ok (batches, d') \<Longrightarrow> daemon3_step ev d d'"

inductive daemon3_reach :: "('c \<Rightarrow> ipv6 \<times> u8 \<Rightarrow> RedistributeSource \<Rightarrow> bool) \<Rightarrow> 'c V3DaemonConfig \<Rightarrow> 'c DaemonV3 \<Rightarrow> bool"
  for ev cfg where
  start: "daemon3_start ev tie now discover externals cfg = Ok (Some d) \<Longrightarrow> daemon3_reach ev cfg d"
| step: "daemon3_reach ev cfg d \<Longrightarrow> daemon3_step ev d d' \<Longrightarrow> daemon3_reach ev cfg d'"

inductive_cases daemon3_stepE: "daemon3_step ev d d'"

section \<open>The invariant in every reachable state\<close>

lemma inst3_inv_free [simp]:
  "inst3_inv (s\<lparr>i3_vrf_name := a\<rparr>) = inst3_inv s" "inst3_inv (s\<lparr>i3_area_types := b\<rparr>) = inst3_inv s"
  "inst3_inv (s\<lparr>i3_asbr := c\<rparr>) = inst3_inv s" "inst3_inv (s\<lparr>i3_redistribute := r\<rparr>) = inst3_inv s"
  "inst3_inv (s\<lparr>i3_route_maps := m\<rparr>) = inst3_inv s" "inst3_inv (s\<lparr>i3_summary_addresses := x\<rparr>) = inst3_inv s"
  "inst3_inv (s\<lparr>i3_installed_route_count := n\<rparr>) = inst3_inv s"
  by (simp_all add: inst3_inv_def)

interpretation static_op: iface3_op rid "\<lambda>i. i\<lparr>if3_static_neighbors := ns\<rparr>" for rid ns
  by unfold_locales (simp_all add: iface3_ok_def role3_ok_def)

lemma inst3_inv_static: "inst3_inv s \<Longrightarrow> inst3_inv (set_static_neighbors_v3 sw ns s)"
  using static_op.ifaces_modify by (auto simp: set_static_neighbors_v3_def inst3_inv_def)

lemma inst3_inv_start_interface: "inst3_inv s \<Longrightarrow> inst3_inv (start_interface now ic s)"
  by (simp add: start_interface_def Let_def inst3_inv_add_interface inst3_inv_static)

lemma inst3_inv_start_instance:
  assumes "start_instance tie now cfg s = Ok s'" and "inst3_inv s"
  shows "inst3_inv s'"
proof -
  have area: "inst3_inv (fold (\<lambda>(aid, t). set_area_type aid t) ats s)" if "inst3_inv s" for ats and s :: "'a InstanceV3"
    using that by (intro inst3_inv_fold) (auto simp: set_area_type_def)
  have ifs: "inst3_inv (fold (start_interface now) ics s)" if "inst3_inv s" for ics and s :: "'a InstanceV3"
    using that by (intro inst3_inv_fold) (rule inst3_inv_start_interface)
  show ?thesis
    using assms by (auto simp: start_instance_def Let_def bindR_eq_Ok_iff set_asbr_def intro!: area ifs
        dest!: inst3_inv_router_lsa inst3_inv_intra_area inst3_inv_inter_area)
qed

lemma inst3_inv_start_externals:
  assumes "start_externals ev cfg externals s = Ok s'" and "inst3_inv s"
  shows "inst3_inv s'"
proof -
  obtain s1 where "inst3_inv s1" and r1: "bindR (if vc_default_originate cfg then
              originate_default_route_lsa_v3 (vc_default_originate_metric cfg) (vc_default_originate_metric_type cfg) (set_asbr True s1)
            else Ok s1) (\<lambda>s. if vc_summary_addresses cfg \<noteq> [] then
              originate_summary_address_lsas_v3 (vc_summary_addresses cfg) (set_asbr True s) else Ok s) = Ok s'"
    using assms by (auto simp: start_externals_def bindR_eq_Ok_iff dest: inst3_inv_externals split: if_splits)
  moreover obtain s2 where "inst3_inv s2" and "(if vc_summary_addresses cfg \<noteq> [] then
      originate_summary_address_lsas_v3 (vc_summary_addresses cfg) (set_asbr True s2) else Ok s2) = Ok s'"
    using \<open>inst3_inv s1\<close> r1 by (auto simp: bindR_eq_Ok_iff set_asbr_def dest: inst3_inv_default split: if_splits)
  ultimately show ?thesis by (auto simp: set_asbr_def dest: inst3_inv_summaries split: if_splits)
qed

lemma daemon3_start_inv: "daemon3_start ev tie now discover externals cfg = Ok (Some d) \<Longrightarrow> inst3_inv (dm_inst d)"
  by (auto simp: daemon3_start_def Let_def bindR_eq_Ok_iff inst3_inv_new split: if_splits
      dest!: inst3_inv_start_instance inst3_inv_start_externals)

lemma inst3_inv_snapshots: "inst3_inv (snd st) \<Longrightarrow> inst3_inv (snd (fold refresh_snapshot sns st))"
proof (induction sns arbitrary: st)
  case (Cons sn sns)
  have "inst3_inv (snd (refresh_snapshot sn st))"
    using inst3_inv_refresh_iface [OF Cons.prems] by (auto simp: refresh_snapshot_def Let_def split: prod.splits) (metis snd_conv)
  with Cons.IH show ?case by simp
qed simp

lemma daemon3_step_inv: "daemon3_step ev d d' \<Longrightarrow> inst3_inv (dm_inst d) \<Longrightarrow> inst3_inv (dm_inst d')"
proof (induction rule: daemon3_step.induct)
  case (rx now rx d d')
  then show ?case by (auto simp: arm_rx_def intro: inst3_inv_rx split: outcome.splits)
next
  case (reload configs d d')
  then show ?case by (auto simp: arm_reload_def inst3_inv_reload split: option.splits)
next
  case (hello now d packets d')
  then show ?case
    by (auto simp: arm_hello_def bindR_eq_Ok_iff) (metis inst3_inv_hello_tick inst3_inv_emit_dds inst3_inv_emit_lsdb)
next
  case (expire now d d')
  then show ?case by (auto simp: arm_expire_def bindR_eq_Ok_iff dest: inst3_inv_refresh_lsas intro: inst3_inv_expire)
next
  case (refresh snapshots externals d d')
  obtain ch s where s: "fold refresh_snapshot snapshots (False, dm_inst d) = (ch, s)" by fastforce
  have "inst3_inv s" using inst3_inv_snapshots [of "(False, dm_inst d)" snapshots] refresh.prems s by simp
  with refresh.hyps show ?case
    by (auto simp: arm_refresh_def s bindR_eq_Ok_iff dest: inst3_inv_refresh_lsas inst3_inv_externals split: if_splits)
next
  case (spf tie d batches d')
  then show ?case
    by (auto simp: arm_spf_def Let_def case_prod_beta bindR_eq_Ok_iff dest: inst3_inv_inter_area split: if_splits)
qed

lemma daemon3_reach_inst_inv: "daemon3_reach ev cfg d \<Longrightarrow> inst3_inv (dm_inst d)"
  by (induction rule: daemon3_reach.induct) (auto intro: daemon3_start_inv daemon3_step_inv)

text \<open>
  C36. In every state the OSPFv3 daemon can reach, by any interleaving of received packets, ticks, polls and
  reloads: an interface lies under its index; a neighbor lies under its router id, which is never our own;
  an interface that is down has no neighbors; an interface in state DR or Backup is the designated router or
  backup it records; a Full neighbor has nothing left to request and a Loading neighbor has;
  and every LSA in the database lies under its own key, in the scope of its type, with bytes that parse to
  its header up to the sequence number and that have the length the header declares.
\<close>

theorem daemon3_reach_inv:
  assumes "daemon3_reach ev cfg d"
  shows "(\<forall>sw i. map_of (i3_interfaces (dm_inst d)) sw = Some i \<longrightarrow>
      io3_sw_if_index (if3_io i) = sw \<and>
      (if3_state i = IfDownV3 \<longrightarrow> if3_neighbors i = []) \<and>
      (if3_state i = DRV3 \<longrightarrow> if3_dr i = i3_router_id (dm_inst d)) \<and> (if3_state i = BackupV3 \<longrightarrow> if3_bdr i = i3_router_id (dm_inst d)) \<and>
      (\<forall>nid n. map_of (if3_neighbors i) nid = Some n \<longrightarrow>
         nb3_router_id n = nid \<and> nid \<noteq> i3_router_id (dm_inst d) \<and>
         (nb3_state n = FullV3 \<longrightarrow> nb3_request_list n = []) \<and> (nb3_state n = LoadingV3 \<longrightarrow> nb3_request_list n \<noteq> []))) \<and>
    (\<forall>k e. lsdb3_get (i3_lsdb (dm_inst d)) k = Some e \<longrightarrow>
      entry3_key e = k \<and> (k3_area k = None \<longleftrightarrow> k3_type k = AsExternalV3) \<and>
      unat (l3_length (e3_header e)) = length (e3_raw e) \<and>
      (\<exists>sq. lsa_v3_header_parse (e3_raw e) = Ok ((e3_header e)\<lparr>l3_seq := sq\<rparr>)))"
proof -
  note inv = daemon3_reach_inst_inv [OF assms]
  have "\<exists>sq. lsa_v3_header_parse (e3_raw e) = Ok ((e3_header e)\<lparr>l3_seq := sq\<rparr>)" if "good_entry e" for e
  proof -
    from that obtain sq where "wf_raw \<lparr>raw_header = (e3_header e)\<lparr>l3_seq := sq\<rparr>, raw_bytes = e3_raw e\<rparr>"
      by (auto simp: good_entry_def good_raw_def)
    then obtain bytes where "e3_raw e = lsa_v3_header_encode ((e3_header e)\<lparr>l3_seq := sq\<rparr>) @ bytes"
      by (elim wf_raw_cases) simp
    then show ?thesis using header3_codec.dec_enc by auto
  qed
  moreover have "unat (l3_length (e3_header e)) = length (e3_raw e)" if "good_entry e" for e
    using that good_raw_length by (simp add: good_entry_def)
  moreover have "entry3_key e = k \<and> (k3_area k = None \<longleftrightarrow> k3_type k = AsExternalV3)"
    if "lsdb3_get (i3_lsdb (dm_inst d)) k = Some e" for k e
    using lsdb3_get_key [of "i3_lsdb (dm_inst d)" k e] good_entry_held [OF inv that] inv that
    by (auto simp: inst3_inv_def entry3_key_def good_entry_def)
  ultimately show ?thesis
    using inv by (auto simp: inst3_inv_def ifaces3_ok_def iface3_ok_def role3_ok_def nbrs3_ok_def nbr3_ok_def)
qed

section \<open>Witness\<close>

definition example_v3_config :: "unit V3DaemonConfig" where
  "example_v3_config = \<lparr>vc_vrf_name = None, vc_table_id_v6 = 0, vc_router_id = 7,
     vc_interfaces = [\<lparr>vi_name = ''eth0'', vi_sw_if_index = 1, vi_kernel_ifindex = 3, vi_link_local = 0, vi_global_prefixes = [],
       vi_area_id = 0, vi_network_type = NetBroadcastV3, vi_hello_interval = 10, vi_dead_interval = 40, vi_retransmit_interval = 5,
       vi_transmit_delay = 1, vi_priority = 1, vi_cost = 10, vi_static_neighbors = [], vi_mac_address = [], vi_outer_vlan_id = None,
       vi_inner_vlan_id = None\<rparr>],
     vc_areas = [], vc_redistribute = [], vc_route_maps = [], vc_distance = None, vc_default_originate = False,
     vc_default_originate_metric = 0, vc_default_originate_metric_type = 2, vc_summary_addresses = [], vc_io_backend = PuntV3\<rparr>"

lemma flood_alone: "\<forall>(k, i) \<in> set (i3_interfaces s). if3_neighbors i = [] \<Longrightarrow> flood_lsa_v3 e ex s = s"
proof -
  assume a: "\<forall>(k, i) \<in> set (i3_interfaces s). if3_neighbors i = []"
  have "map_values (\<lambda>_ i. if P i then flood_iface e ex i else i) m = m" if "\<forall>(k, i) \<in> set m. if3_neighbors i = []" for P and m :: "(u32 \<times> InterfaceV3) list"
    using that by (induction m) (auto simp: map_values_def flood_iface_def)
  from this [OF a] show ?thesis by (simp add: flood_lsa_v3_def)
qed

lemma insert_self_lsa_alone:
  assumes "\<forall>(k, i) \<in> set (i3_interfaces s). if3_neighbors i = []" and "length bytes \<le> 65515"
  shows "\<exists>e. insert_self_lsa ty lsid bytes area s = Ok (s\<lparr>i3_lsdb := lsdb3_insert e (i3_lsdb s)\<rparr>)"
  using assms by (simp add: insert_self_lsa_def build_self_lsa_def lsa_v3_total_length_def LSA_V3_HEADER_LEN_def flood_alone) blast

lemma example_v3_starts:
  "\<exists>d. daemon3_start ev tie 0 (\<lambda>_. \<lparr>da_link_local = Some 9, da_global_prefixes = []\<rparr>) [] example_v3_config = Ok (Some d)"
proof -
  define ic where "ic = (hd (vc_interfaces example_v3_config))\<lparr>vi_link_local := 9\<rparr>"
  define cfg where "cfg = example_v3_config\<lparr>vc_interfaces := [ic]\<rparr>"
  define s where "s = start_interface 0 ic (set_asbr False (instance3_new 7 :: unit InstanceV3))"
  define i where "i = snd (hd (i3_interfaces s))"
  have i: "i3_interfaces s = [(1, i)]" "if3_neighbors i = []" "if3_area_id i = 0" "if3_dr i = UNSPECIFIED"
    "if3_global_prefixes i = []" "elects_dr (if3_network_type i)"
    by (simp_all add: i_def s_def ic_def example_v3_config_def start_interface_def add_interface_full_def io_interface_def set_asbr_def
        instance3_new_def elects_dr_def)
  have shape: "areas3 (s\<lparr>i3_lsdb := db\<rparr>) = [0]" "\<not> is_abr3 (s\<lparr>i3_lsdb := db\<rparr>)" "network_iaps (s\<lparr>i3_lsdb := db\<rparr>) = []"
    "router_prefixes (s\<lparr>i3_lsdb := db\<rparr>) = (\<lambda>_. [])" "area_links3 (s\<lparr>i3_lsdb := db\<rparr>) 0 = []" for db
    using i by (simp_all add: areas3_def is_abr3_def network_iaps_def router_prefixes_def area_links3_def router_links3_def
        dr_interface_id_def fun_eq_iff)
  have ins: "\<exists>e. insert_self_lsa ty lsid bytes area (s\<lparr>i3_lsdb := db\<rparr>) = Ok (s\<lparr>i3_lsdb := lsdb3_insert e db\<rparr>)"
    if "length bytes \<le> 65515" for ty lsid bytes area db
    using insert_self_lsa_alone [of "s\<lparr>i3_lsdb := db\<rparr>" bytes ty lsid area] i that by simp
  define b1 where "b1 = router_lsa_v3_encode \<lparr>r3_flags = router_flags3 s, r3_options = options_v3_standard, r3_links = []\<rparr>"
  have "length b1 \<le> 65515" by (simp add: b1_def router_lsa_v3_encode_def)
  then obtain e1 where e1: "insert_self_lsa RouterV3 UNSPECIFIED b1 (Some 0) s = Ok (s\<lparr>i3_lsdb := lsdb3_insert e1 (i3_lsdb s)\<rparr>)"
    using ins [of b1 RouterV3 UNSPECIFIED "Some 0" "i3_lsdb s"] by auto
  define db1 where "db1 = lsdb3_insert e1 (i3_lsdb s)"
  have r1: "originate_router_lsa_v3 s = Ok (s\<lparr>i3_lsdb := db1\<rparr>)"
    using e1 shape [of "i3_lsdb s"] by (simp add: originate_router_lsa_v3_def Let_def b1_def db1_def)
  obtain b2 where b2: "intra_area_prefix_encode \<lparr>iap_ls_type = 0x2001, iap_lsid = UNSPECIFIED, iap_adv = i3_router_id s,
      iap_prefixes = []\<rparr> = Ok b2" "length b2 \<le> 65515"
    by (simp add: intra_area_prefix_encode_def)
  then obtain e2 where e2: "insert_self_lsa IntraAreaPrefixV3 UNSPECIFIED b2 (Some 0) (s\<lparr>i3_lsdb := db1\<rparr>) = Ok (s\<lparr>i3_lsdb := lsdb3_insert e2 db1\<rparr>)"
    using ins [of b2 IntraAreaPrefixV3 UNSPECIFIED "Some 0" db1] by auto
  have r2: "originate_intra_area_prefix_lsas (s\<lparr>i3_lsdb := db1\<rparr>) = Ok (s\<lparr>i3_lsdb := lsdb3_insert e2 db1\<rparr>)"
    using e2 b2(1) shape [of db1] by (simp add: originate_intra_area_prefix_lsas_def Let_def insert_iap_def)
  have r3: "originate_inter_area_prefix_lsas tie (s\<lparr>i3_lsdb := db\<rparr>) = Ok (s\<lparr>i3_lsdb := db\<rparr>)" for db
    using shape(2) by (simp add: originate_inter_area_prefix_lsas_def)
  have new: "(instance3_new 7 :: unit InstanceV3)\<lparr>i3_redistribute := [], i3_route_maps := []\<rparr> = instance3_new 7"
    by (simp add: instance3_new_def)
  have "start_instance tie 0 cfg (instance3_new 7) = Ok (s\<lparr>i3_lsdb := lsdb3_insert e2 db1\<rparr>)"
    using r1 r2 r3 by (simp add: start_instance_def cfg_def example_v3_config_def new flip: s_def)
  moreover have "example_v3_config\<lparr>vc_interfaces := usable_interfaces (\<lambda>_. \<lparr>da_link_local = Some 9, da_global_prefixes = []\<rparr>)
      (vc_interfaces example_v3_config)\<rparr> = cfg"
    by (simp add: cfg_def ic_def example_v3_config_def usable_interfaces_def List.map_filter_def)
  moreover have "vc_router_id cfg = 7" "vc_vrf_name cfg = None" "vc_summary_addresses cfg = []" "vc_interfaces cfg = [ic]"
    "vc_redistribute cfg = []" "\<not> vc_default_originate cfg"
    by (simp_all add: cfg_def example_v3_config_def)
  moreover have "(instance3_new 7)\<lparr>i3_vrf_name := None, i3_summary_addresses := []\<rparr> = (instance3_new 7 :: unit InstanceV3)"
    by (simp add: instance3_new_def)
  ultimately show ?thesis
    unfolding daemon3_start_def Let_def by (simp add: start_externals_def)
qed

theorem daemon3_reach_inv_witness:
  "\<exists>d. daemon3_reach (\<lambda>_ _ _. False) example_v3_config d \<and>
     (\<forall>k e. lsdb3_get (i3_lsdb (dm_inst d)) k = Some e \<longrightarrow> entry3_key e = k)"
proof -
  obtain d where "daemon3_reach (\<lambda>_ _ _. False) example_v3_config d"
    using daemon3_reach.start example_v3_starts by blast
  then show ?thesis using daemon3_reach_inv by blast
qed

end
