(* ===== verification/Daemon_V2.thy ===== *)
theory Daemon_V2
  imports Instance_Reach Io_Punt Daemon_V3 Text_Addr
begin

text \<open>
  \<^verbatim>\<open>src/main.rs\<close>: the OSPFv2 daemon. Start-up resolves the configured interfaces against VPP, brings them up and
  originates the first LSAs; the select loop has one arm per event; a dispatcher hands each punted packet to the
  instance that owns its interface; interfaces that appear later are enrolled. Every packet leaves through
  \<^verbatim>\<open>send_responses\<close> or the hello tick, which number and authenticate it. What VPP and the kernel answer
  (\<^verbatim>\<open>SwInterfaceDetails\<close>, addresses, tables, interface indices) is an argument.
\<close>

section \<open>What VPP says about an interface\<close>

text \<open>The fields of VPP's \<^verbatim>\<open>sw_interface_details\<close> that the daemon reads.\<close>

record SwInterfaceDetails =
  vd_sw_if_index :: u32
  vd_sup_sw_if_index :: u32
  vd_interface_name :: string
  vd_interface_dev_type :: string
  vd_l2_address :: "u8 list"
  vd_mtu :: "u32 list"
  vd_link_mtu :: u16
  vd_sub_outer_vlan_id :: u16
  vd_sub_inner_vlan_id :: u16
  vd_admin_up :: bool
  vd_link_up :: bool

definition effective_l2_address :: "SwInterfaceDetails \<Rightarrow> SwInterfaceDetails list \<Rightarrow> u8 list" where
  "effective_l2_address i all =
     (if vd_l2_address i \<noteq> replicate 6 0 then vd_l2_address i
      else if vd_sup_sw_if_index i \<noteq> vd_sw_if_index i then
        (case List.find (\<lambda>p. vd_sw_if_index p = vd_sup_sw_if_index i) all of
           Some parent \<Rightarrow> vd_l2_address parent
         | None \<Rightarrow> replicate 6 0)
      else replicate 6 0)"

definition is_l3_tunnel :: "string \<Rightarrow> string \<Rightarrow> bool" where
  "is_l3_tunnel name dev_type =
     (let d = map ascii_lower dev_type
      in str_contains d ''gre'' \<or> str_contains d ''ipip'' \<or> str_contains d ''tunnel'' \<or>
         starts_with name ''gre'' \<or> starts_with name ''ipip'')"

text \<open>\<^verbatim>\<open>vi.mtu\<close> is an array of four.\<close>

definition vpp_ip_mtu :: "SwInterfaceDetails \<Rightarrow> u16" where
  "vpp_ip_mtu vi =
     (let m = (if hd (vd_mtu vi) \<noteq> 0 then hd (vd_mtu vi) else ucast (vd_link_mtu vi))
      in if m = 0 \<or> m > 65535 then 1500 else ucast m)"

definition count_ones :: "u32 \<Rightarrow> nat" where
  "count_ones w = length (filter (bit w) [0..<32])"

definition compute_l3_peer :: "string \<Rightarrow> string \<Rightarrow> ipv4 \<Rightarrow> ipv4 \<Rightarrow> ipv4 option" where
  "compute_l3_peer name dev_type addr m =
     (if \<not> is_l3_tunnel name dev_type then None
      else if count_ones (NOT m) = 1 then Some (addr XOR 1)
      else if count_ones (NOT m) = 2 then
        (let net = addr AND m; h1 = net OR 1; h2 = net OR 2
         in if addr = h1 then Some h2 else if addr = h2 then Some h1 else None)
      else None)"

text \<open>The mask of a prefix length; in a release build the shift amount is taken modulo 32.\<close>

definition vpp_mask :: "u8 \<Rightarrow> ipv4" where
  "vpp_mask len = (if len = 0 then 0 else push_bit (unat ((32 - ucast len :: u32) AND 31)) (- 1))"

definition discover_externals_v4 ::
  "SwInterfaceDetails list \<Rightarrow> (u32 \<Rightarrow> u32 option) \<Rightarrow> (u32 \<Rightarrow> (ipv4 \<times> u8) list) \<Rightarrow> u32 list \<Rightarrow> u32 \<Rightarrow> (ipv4 \<times> ipv4) list" where
  "discover_externals_v4 vpp_ifaces table_of addresses enrolled table_id_v4 =
     concat (map (\<lambda>vi.
       (if vd_sw_if_index vi \<in> set enrolled then []
        else if \<not> vd_admin_up vi then []
        else if table_of (vd_sw_if_index vi) \<noteq> Some table_id_v4 then []
        else map (\<lambda>(addr, len). (let m = vpp_mask len in (addr AND m, m))) (addresses (vd_sw_if_index vi)))) vpp_ifaces)"

section \<open>Start-up\<close>

datatype IoBackend = RawBackend | PuntBackend

definition vlan_of :: "u16 \<Rightarrow> u16 option" where
  "vlan_of v = (if v \<noteq> 0 then Some v else None)"

text \<open>What the daemon asks of VPP and the kernel while it resolves interfaces.\<close>

record env =
  ev_vpp :: "SwInterfaceDetails list"
  ev_first_address :: "u32 \<Rightarrow> (ipv4 \<times> u8) option"
  ev_kernel_ifindex :: "string \<Rightarrow> u32 option"

definition io_interface_v2 :: "env \<Rightarrow> SwInterfaceDetails \<Rightarrow> u32 \<Rightarrow> OspfInterface \<Rightarrow> IoInterface" where
  "io_interface_v2 e vi kernel_ifindex i =
     \<lparr>io_name = if_name i, io_sw_if_index = sw_if_index i, io_kernel_ifindex = kernel_ifindex, io_address = if_address i,
      io_mac_address = effective_l2_address vi (ev_vpp e), io_outer_vlan_id = vlan_of (vd_sub_outer_vlan_id vi),
      io_inner_vlan_id = vlan_of (vd_sub_inner_vlan_id vi),
      io_l3_peer = compute_l3_peer (if_name i) (vd_interface_dev_type vi) (if_address i) (if_mask i)\<rparr>"

definition take_vpp_address :: "env \<Rightarrow> SwInterfaceDetails \<Rightarrow> OspfInterface \<Rightarrow> OspfInterface" where
  "take_vpp_address e vi i =
     (case ev_first_address e (vd_sw_if_index vi) of
        Some (addr, len) \<Rightarrow> i\<lparr>sw_if_index := vd_sw_if_index vi, if_address := addr, if_mask := vpp_mask len\<rparr>
      | None \<Rightarrow> i\<lparr>sw_if_index := vd_sw_if_index vi\<rparr>)"

definition advertised_mtu :: "SwInterfaceDetails \<Rightarrow> OspfInterface \<Rightarrow> u16" where
  "advertised_mtu vi i = (if is_l3_tunnel (if_name i) (vd_interface_dev_type vi) then vpp_ip_mtu vi else 1500)"

definition setup_interface :: "env \<Rightarrow> IoBackend \<Rightarrow> OspfInterface \<Rightarrow> IoInterface list \<times> OspfInterface" where
  "setup_interface e backend i =
     (case List.find (\<lambda>vi. vd_interface_name vi = if_name i) (ev_vpp e) of
        None \<Rightarrow> ([], i)
      | Some vi \<Rightarrow>
          (let i = take_vpp_address e vi i
           in case (backend, ev_kernel_ifindex e (if_name i)) of
                (RawBackend, None) \<Rightarrow> ([], i)
              | (_, k) \<Rightarrow>
                  (let i = i\<lparr>dd_mtu := advertised_mtu vi i\<rparr>
                   in ([io_interface_v2 e vi (case k of Some x \<Rightarrow> x | None \<Rightarrow> 0) i], i))))"

definition bring_up :: "instant \<Rightarrow> OspfInterface \<Rightarrow> OspfInterface" where
  "bring_up now i = (if sw_if_index i \<noteq> 0 then snd (interface_handle_event now InterfaceUp i) else i)"

record 'c V2Setup =
  v2_cfg :: "'c OspfDaemonConfig"
  v2_instance :: "'c OspfInstance"
  v2_io_interfaces :: "IoInterface list"

definition start_externals_v2 ::
  "('c \<Rightarrow> ipv4 \<times> u8 \<Rightarrow> RedistributeSource \<Rightarrow> bool) \<Rightarrow> instant \<Rightarrow> (ipv4 \<times> ipv4) list \<Rightarrow> 'c OspfDaemonConfig \<Rightarrow> 'c OspfInstance \<Rightarrow>
   'c OspfInstance parsed" where
  "start_externals_v2 ev now discovered cfg s =
     (let externals = (if redistribute s = [] then [] else discovered)
      in bindR (originate_external_lsas ev now (redistribute s) externals (dc_summary_addresses cfg) s) (\<lambda>(_, s).
         bindR (if dc_summary_addresses cfg \<noteq> [] then originate_summary_address_lsas now (dc_summary_addresses cfg) s
                else Ok ([], s)) (\<lambda>(_, s).
         if dc_default_originate cfg then
           bindR (originate_default_route_lsa now (dc_default_originate_metric cfg) (dc_default_originate_metric_type cfg) s)
             (\<lambda>(_, s). Ok s)
         else Ok s)))"

definition build_v2_setup ::
  "('c \<Rightarrow> ipv4 \<times> u8 \<Rightarrow> RedistributeSource \<Rightarrow> bool) \<Rightarrow> instant \<Rightarrow> env \<Rightarrow> IoBackend \<Rightarrow> (ipv4 \<times> ipv4) list \<Rightarrow> 'c OspfDaemonConfig \<Rightarrow>
   'c V2Setup parsed" where
  "build_v2_setup ev now e backend discovered cfg =
     (let s = instance_new now cfg;
          resolved = map (setup_interface e backend) (interfaces s);
          s = s\<lparr>interfaces := map (bring_up now \<circ> snd) resolved\<rparr>
      in bindR (originate_router_lsas now s) (\<lambda>(_, s).
         bindR (start_externals_v2 ev now discovered cfg s) (\<lambda>s.
         Ok \<lparr>v2_cfg = cfg, v2_instance = schedule_spf now s, v2_io_interfaces = concat (map fst resolved)\<rparr>)))"

section \<open>Sending\<close>

text \<open>
  The sequence number of the interface is advanced for every packet, whatever its key. An error of the I/O layer is only logged.
  \<open>dig\<close> holds the digest functions.
\<close>

fun send_responses :: "digests \<Rightarrow> response list \<Rightarrow> 'c OspfInstance \<Rightarrow> (TxPacket list \<times> 'c OspfInstance) parsed" where
  "send_responses dig [] s = Ok ([], s)"
| "send_responses dig ((sw, dst, pkt) # rs) s =
     bindR (packet_encode pkt) (\<lambda>raw.
     case find_interface s sw of
       None \<Rightarrow> send_responses dig rs s
     | Some idx \<Rightarrow>
         (let s = update_iface idx (\<lambda>i. i\<lparr>crypto_seq := crypto_seq i + 1\<rparr>) s; i = interfaces s ! idx
          in bindR (apply_auth dig raw (auth_key i) (crypto_seq i)) (\<lambda>data.
             bindR (send_responses dig rs s) (\<lambda>(txs, s).
             Ok (\<lparr>tx_sw_if_index = sw, tx_src_addr = if_address i, tx_dst_addr = dst, tx_data = data\<rparr> # txs, s)))))"

section \<open>The arms of the loop\<close>

definition packet_authentic :: "digests \<Rightarrow> RxPacket \<Rightarrow> 'c OspfInstance \<Rightarrow> bool" where
  "packet_authentic dig rx s =
     (case List.find (\<lambda>i. sw_if_index i = rx_sw_if_index rx) (interfaces s) of
        Some i \<Rightarrow> verify_auth dig (rx_data rx) (auth_key i)
      | None \<Rightarrow> False)"

definition arm2_rx :: "digests \<Rightarrow> instant \<Rightarrow> RxPacket \<Rightarrow> 'c OspfInstance \<Rightarrow> (TxPacket list \<times> 'c OspfInstance) parsed" where
  "arm2_rx dig now rx s =
     (if \<not> packet_authentic dig rx s then Ok ([], s)
      else
        (case packet_parse (rx_data rx) of
           Ok pkt \<Rightarrow> bindR (process_packet now (rx_sw_if_index rx) (rx_src_addr rx) pkt s) (\<lambda>(rs, s). send_responses dig rs s)
         | Err e \<Rightarrow> Ok ([], s)
         | Panic \<Rightarrow> Panic))"

text \<open>The hello tick: the Hellos that are due are built first, then numbered, authenticated and sent one by one.\<close>

definition hello_due :: "instant \<Rightarrow> OspfInterface \<Rightarrow> bool" where
  "hello_due now i \<longleftrightarrow> if_state i \<noteq> If_Down \<and> next_hello i \<le> now"

definition hello_destinations :: "OspfInterface \<Rightarrow> ipv4 list" where
  "hello_destinations i =
     (if network_type i = NonBroadcast then map sn_address (static_neighbors i) else [ALL_SPF_ROUTERS])"

fun hellos_to_send :: "instant \<Rightarrow> 'c OspfInstance \<Rightarrow> (nat \<times> OspfInterface) list \<Rightarrow> (nat \<times> u32 \<times> ipv4 \<times> u8 list \<times> ipv4 list) list parsed" where
  "hellos_to_send now s [] = Ok []"
| "hellos_to_send now s ((idx, i) # m) =
     (if hello_due now i then
        bindR (packet_encode (build_hello s i)) (\<lambda>data. bindR (hellos_to_send now s m) (\<lambda>hs.
        Ok ((idx, sw_if_index i, if_address i, data, hello_destinations i) # hs)))
      else hellos_to_send now s m)"

definition hello_duration :: "OspfInterface \<Rightarrow> int" where
  "hello_duration i = 1000 * int (unat (hello_interval i))"

fun send_hellos :: "digests \<Rightarrow> instant \<Rightarrow> (nat \<times> u32 \<times> ipv4 \<times> u8 list \<times> ipv4 list) list \<Rightarrow> 'c OspfInstance \<Rightarrow>
    (TxPacket list \<times> 'c OspfInstance) parsed" where
  "send_hellos dig now [] s = Ok ([], s)"
| "send_hellos dig now ((idx, sw, src, raw, dests) # hs) s =
     (let s = update_iface idx (\<lambda>i. i\<lparr>crypto_seq := crypto_seq i + 1\<rparr>) s; i = interfaces s ! idx
      in bindR (apply_auth dig raw (auth_key i) (crypto_seq i)) (\<lambda>data.
         (let s = update_iface idx (\<lambda>i. i\<lparr>next_hello := now + hello_duration i\<rparr>) s
          in bindR (send_hellos dig now hs s) (\<lambda>(txs, s).
             Ok (map (\<lambda>dst. \<lparr>tx_sw_if_index = sw, tx_src_addr = src, tx_dst_addr = dst, tx_data = data\<rparr>) dests @ txs, s)))))"

definition wait_due :: "instant \<Rightarrow> OspfInterface \<Rightarrow> bool" where
  "wait_due now i \<longleftrightarrow> (case wait_timer_expiry i of Some t \<Rightarrow> t \<le> now | None \<Rightarrow> False)"

definition wait_timer :: "instant \<Rightarrow> OspfInterface \<Rightarrow> OspfInterface" where
  "wait_timer now i = (if wait_due now i then snd (interface_handle_event now WaitTimer i) else i)"

definition arm2_hello :: "digests \<Rightarrow> instant \<Rightarrow> u32 \<Rightarrow> 'c OspfInstance \<Rightarrow> (TxPacket list \<times> 'c OspfInstance) parsed" where
  "arm2_hello dig now elapsed s =
     bindR (hellos_to_send now s (enumerate 0 (interfaces s))) (\<lambda>hs.
     bindR (send_hellos dig now hs s) (\<lambda>(p1, s).
     (let s = s\<lparr>interfaces := map (wait_timer now) (interfaces s)\<rparr>;
          (dds, s) = emit_pending_dds now elapsed s
      in bindR (send_responses dig dds s) (\<lambda>(p2, s).
         (let (lsrs, s) = emit_pending_lsrs now s
          in bindR (send_responses dig lsrs s) (\<lambda>(p3, s). Ok (p1 @ p2 @ p3, s)))))))"

definition arm2_neighbors :: "instant \<Rightarrow> 'c OspfInstance \<Rightarrow> 'c OspfInstance parsed" where
  "arm2_neighbors now s =
     (let (expired, s) = check_neighbor_timers now s
      in if expired then bindR (first_router_lsa now s) (\<lambda>(_, s). Ok (schedule_spf now s)) else Ok s)"

definition refresh_external_lsas ::
  "digests \<Rightarrow> ('c \<Rightarrow> ipv4 \<times> u8 \<Rightarrow> RedistributeSource \<Rightarrow> bool) \<Rightarrow> instant \<Rightarrow> (ipv4 \<times> ipv4) list \<Rightarrow> 'c OspfDaemonConfig \<Rightarrow>
   'c OspfInstance \<Rightarrow> (TxPacket list \<times> 'c OspfInstance) parsed" where
  "refresh_external_lsas dig ev now externals cfg s =
     bindR (originate_external_lsas ev now (dc_redistribute cfg) externals (dc_summary_addresses cfg) s) (\<lambda>(ls, s).
     if ls \<noteq> [] then send_responses dig (flood_lsas_to_others s None (router_id s) ls) s else Ok ([], s))"

definition arm2_lsdb ::
  "digests \<Rightarrow> ('c \<Rightarrow> ipv4 \<times> u8 \<Rightarrow> RedistributeSource \<Rightarrow> bool) \<Rightarrow> instant \<Rightarrow> (ipv4 \<times> ipv4) list \<Rightarrow> 'c OspfDaemonConfig \<Rightarrow>
   'c OspfInstance \<Rightarrow> (TxPacket list \<times> 'c OspfInstance) parsed" where
  "arm2_lsdb dig ev now externals cfg s =
     bindR (periodic_maintenance now s) (\<lambda>((changed, rs), s).
     (let s = (if changed then schedule_spf now s else s);
          ext_due = as_external_refresh_due now s
      in bindR (send_responses dig rs s) (\<lambda>(p1, s).
         bindR (if ext_due then refresh_external_lsas dig ev now externals cfg s else Ok ([], s)) (\<lambda>(p2, s).
         Ok (p1 @ p2, s)))))"

text \<open>The poll of VPP: without an address the interface counts as down.\<close>

definition snapshot_v2 :: "env \<Rightarrow> u32 \<Rightarrow> u32 \<times> ipv4 \<times> ipv4 \<times> bool" where
  "snapshot_v2 e sw =
     (let oper_up = (case List.find (\<lambda>vi. vd_sw_if_index vi = sw) (ev_vpp e) of
                       Some vi \<Rightarrow> vd_admin_up vi \<and> vd_link_up vi
                     | None \<Rightarrow> False)
      in case ev_first_address e sw of
           Some (addr, len) \<Rightarrow> (sw, addr, vpp_mask len, oper_up)
         | None \<Rightarrow> (sw, UNSPECIFIED, UNSPECIFIED, False))"

definition refresh_snapshot_v2 :: "instant \<Rightarrow> u32 \<times> ipv4 \<times> ipv4 \<times> bool \<Rightarrow> bool \<times> 'c OspfInstance \<Rightarrow> bool \<times> 'c OspfInstance" where
  "refresh_snapshot_v2 now = (\<lambda>(sw, addr, m, oper_up) (any_change, s).
     (let (c, s) = refresh_interface_state now sw addr m oper_up s in (any_change \<or> c, s)))"

definition arm2_refresh :: "instant \<Rightarrow> env \<Rightarrow> 'c OspfInstance \<Rightarrow> 'c OspfInstance parsed" where
  "arm2_refresh now e s =
     (let indices = map sw_if_index (filter (\<lambda>i. sw_if_index i \<noteq> 0) (interfaces s));
          (any_change, s) = fold (refresh_snapshot_v2 now) (map (snapshot_v2 e) indices) (False, s)
      in if any_change then bindR (first_router_lsa now s) (\<lambda>(_, s). Ok (schedule_spf now s)) else Ok s)"

text \<open>The SPF arm, enabled once the scheduled time has come: the batches for ribd.\<close>

definition arm2_spf :: "instant \<Rightarrow> 'c OspfDaemonConfig \<Rightarrow> 'c OspfInstance \<Rightarrow> (Source \<times> ProtoRoute list) list \<times> 'c OspfInstance" where
  "arm2_spf now cfg s =
     (let (routes, s) = run_spf now s;
          (_, r) = apply_routes routes (rib s)
      in (push_v4 (dc_table_id_v4 cfg) (admin_distance_for cfg) routes, s\<lparr>rib := r\<rparr>))"

definition arm2_reload ::
  "digests \<Rightarrow> ('c \<Rightarrow> ipv4 \<times> u8 \<Rightarrow> RedistributeSource \<Rightarrow> bool) \<Rightarrow> instant \<Rightarrow> 'c OspfDaemonConfig option \<Rightarrow> (ipv4 \<times> ipv4) list \<Rightarrow>
   'c OspfDaemonConfig \<Rightarrow> 'c OspfInstance \<Rightarrow> (TxPacket list \<times> 'c OspfInstance) parsed" where
  "arm2_reload dig ev now reloaded externals cfg s =
     (case reloaded of
        Some new_config \<Rightarrow>
          bindR (reload_config now new_config s) (\<lambda>(_, s). refresh_external_lsas dig ev now externals cfg s)
      | None \<Rightarrow> Ok ([], s))"

definition shutdown_v2 :: "'c OspfInstance \<Rightarrow> (Source \<times> ProtoRoute list) list \<times> 'c OspfInstance" where
  "shutdown_v2 s = (withdraw_v4, s\<lparr>rib := rib_clear (rib s)\<rparr>)"

section \<open>Late enrolment and dispatch\<close>

text \<open>
  An interface of instance \<open>inst\<close> that was missing at start-up and has appeared: it comes up, the Router-LSAs are originated,
  and it is entered into the map of the punt socket and that of the dispatcher; \<^verbatim>\<open>None\<close> when nothing is to be enrolled.
\<close>

definition enroll_interface ::
  "instant \<Rightarrow> env \<Rightarrow> nat \<Rightarrow> string \<Rightarrow> (u32 \<times> IoInterface) list \<times> (u32 \<times> nat) list \<Rightarrow> 'c OspfInstance \<Rightarrow>
   (((u32 \<times> IoInterface) list \<times> (u32 \<times> nat) list) \<times> 'c OspfInstance) option parsed" where
  "enroll_interface now e inst name = (\<lambda>(tx, m) s.
     (case List.find (\<lambda>vi. vd_interface_name vi = name) (ev_vpp e) of
        None \<Rightarrow> Ok None
      | Some vi \<Rightarrow>
          if punt_is_enrolled (vd_sw_if_index vi) tx then Ok None
          else
            (case position (\<lambda>i. if_name i = name \<and> sw_if_index i = 0) (interfaces s) of
               None \<Rightarrow> Ok None
             | Some idx \<Rightarrow>
                 (let i = take_vpp_address e vi (interfaces s ! idx);
                      i = i\<lparr>dd_mtu := advertised_mtu vi i\<rparr>;
                      i = snd (interface_handle_event now InterfaceUp i);
                      io = io_interface_v2 e vi (case ev_kernel_ifindex e name of Some k \<Rightarrow> k | None \<Rightarrow> 0) i
                  in bindR (first_router_lsa now (s\<lparr>interfaces := (interfaces s)[idx := i]\<rparr>)) (\<lambda>(_, s).
                     Ok (Some ((punt_enroll io tx, AList.update (vd_sw_if_index vi) inst m), schedule_spf now s)))))))"

text \<open>The interfaces of all instances, the owner of each, and the instance a received packet goes to.\<close>

definition all_ifaces :: "'c V2Setup list \<Rightarrow> IoInterface list" where
  "all_ifaces setups =
     fold (\<lambda>io acc. if list_ex (\<lambda>x. io_sw_if_index x = io_sw_if_index io) acc then acc else acc @ [io])
       (concat (map v2_io_interfaces setups)) []"

definition iface_to_idx :: "'c V2Setup list \<Rightarrow> (u32 \<times> nat) list" where
  "iface_to_idx setups =
     fold (\<lambda>(idx, st). fold (\<lambda>io. AList.update (io_sw_if_index io) idx) (v2_io_interfaces st)) (enumerate 0 setups) []"

text \<open>\<open>senders\<close>: for each instance, whether the receiving end of its channel still exists.\<close>

definition dispatch_one :: "(u32 \<times> nat) list \<Rightarrow> bool list \<Rightarrow> RxPacket \<Rightarrow> nat option io_result" where
  "dispatch_one m senders pkt =
     (case map_of m (rx_sw_if_index pkt) of
        None \<Rightarrow> Ok None
      | Some idx \<Rightarrow> if idx < length senders then Ok (if senders ! idx then Some idx else None) else Panic)"

section \<open>From configuration to the OSPFv3 task\<close>

definition network_type_v3_of :: "string \<Rightarrow> NetworkTypeV3" where
  "network_type_v3_of s =
     (if s = ''point-to-point'' then NetPointToPointV3
      else if s = ''non-broadcast'' then NetNonBroadcastV3
      else if s = ''point-to-multipoint'' then NetPointToMultipointV3
      else NetBroadcastV3)"

definition v3_interface_config :: "env \<Rightarrow> IoBackend \<Rightarrow> Ospf6InterfaceConfig \<Rightarrow> V3InterfaceConfig option" where
  "v3_interface_config e backend ic =
     (case List.find (\<lambda>vi. vd_interface_name vi = ic6_name ic) (ev_vpp e) of
        None \<Rightarrow> None
      | Some vi \<Rightarrow>
          (case (backend, ev_kernel_ifindex e (ic6_name ic)) of
             (RawBackend, None) \<Rightarrow> None
           | (_, k) \<Rightarrow>
               Some \<lparr>vi_name = ic6_name ic, vi_sw_if_index = vd_sw_if_index vi,
                     vi_kernel_ifindex = (case k of Some x \<Rightarrow> x | None \<Rightarrow> 0), vi_link_local = 0, vi_global_prefixes = [],
                     vi_area_id = ic6_area_id ic, vi_network_type = network_type_v3_of (ic6_network_type ic),
                     vi_hello_interval = ic6_hello_interval ic, vi_dead_interval = ucast (ic6_dead_interval ic),
                     vi_retransmit_interval = ic6_retransmit_interval ic, vi_transmit_delay = ic6_transmit_delay ic,
                     vi_priority = ic6_priority ic, vi_cost = ic6_cost ic, vi_static_neighbors = ic6_static_neighbors ic,
                     vi_mac_address = effective_l2_address vi (ev_vpp e),
                     vi_outer_vlan_id = vlan_of (vd_sub_outer_vlan_id vi), vi_inner_vlan_id = vlan_of (vd_sub_inner_vlan_id vi)\<rparr>))"

text \<open>\<^verbatim>\<open>None\<close> when no interface is left to run on.\<close>

definition v3_daemon_config :: "env \<Rightarrow> IoBackend \<Rightarrow> 'c Ospf6DaemonConfig \<Rightarrow> 'c V3DaemonConfig option" where
  "v3_daemon_config e backend c =
     (let ifs = List.map_filter (v3_interface_config e backend) (d6_interfaces c)
      in if ifs = [] then None
         else Some \<lparr>vc_vrf_name = d6_vrf_name c, vc_table_id_v6 = d6_table_id_v6 c, vc_router_id = d6_router_id c,
           vc_interfaces = ifs, vc_areas = map (\<lambda>a. (ac_area_id a, ac_area_type a)) (d6_areas c),
           vc_redistribute = d6_redistribute c, vc_route_maps = d6_route_maps c, vc_distance = d6_distance c,
           vc_default_originate = d6_default_originate c, vc_default_originate_metric = d6_default_originate_metric c,
           vc_default_originate_metric_type = d6_default_originate_metric_type c, vc_summary_addresses = d6_summary_addresses c,
           vc_io_backend = (case backend of RawBackend \<Rightarrow> RawV3 | PuntBackend \<Rightarrow> PuntV3)\<rparr>)"

section \<open>Runs of the daemon\<close>

text \<open>
  The state is the instance; the configuration stays the one the task was started with. Between two turns of the
  loop the enrolment task may have enrolled an interface. The SPF arm waits for the scheduled time.
\<close>

inductive daemon2_step ::
  "digests \<Rightarrow> ('c \<Rightarrow> ipv4 \<times> u8 \<Rightarrow> RedistributeSource \<Rightarrow> bool) \<Rightarrow> 'c OspfDaemonConfig \<Rightarrow> 'c OspfInstance \<Rightarrow> TxPacket list \<Rightarrow>
   'c OspfInstance \<Rightarrow> bool"
  for dig ev cfg where
  rx: "arm2_rx dig now rx s = Ok (txs, s') \<Longrightarrow> daemon2_step dig ev cfg s txs s'"
| hello: "arm2_hello dig now elapsed s = Ok (txs, s') \<Longrightarrow> daemon2_step dig ev cfg s txs s'"
| nbrs: "arm2_neighbors now s = Ok s' \<Longrightarrow> daemon2_step dig ev cfg s [] s'"
| lsdb: "arm2_lsdb dig ev now externals cfg s = Ok (txs, s') \<Longrightarrow> daemon2_step dig ev cfg s txs s'"
| refresh: "arm2_refresh now e s = Ok s' \<Longrightarrow> daemon2_step dig ev cfg s [] s'"
| spf: "spf_due s = Some t \<Longrightarrow> t \<le> now \<Longrightarrow> arm2_spf now cfg s = (batches, s') \<Longrightarrow> daemon2_step dig ev cfg s [] s'"
| reload: "arm2_reload dig ev now reloaded externals cfg s = Ok (txs, s') \<Longrightarrow> daemon2_step dig ev cfg s txs s'"
| enroll: "enroll_interface now e inst name maps s = Ok (Some (maps', s')) \<Longrightarrow> daemon2_step dig ev cfg s [] s'"

text \<open>The instance together with everything sent so far.\<close>

inductive daemon2_run ::
  "digests \<Rightarrow> ('c \<Rightarrow> ipv4 \<times> u8 \<Rightarrow> RedistributeSource \<Rightarrow> bool) \<Rightarrow> 'c OspfDaemonConfig \<Rightarrow> TxPacket list \<Rightarrow> 'c OspfInstance \<Rightarrow> bool"
  for dig ev cfg where
  start: "build_v2_setup ev now e backend discovered cfg = Ok st \<Longrightarrow> daemon2_run dig ev cfg [] (v2_instance st)"
| step: "daemon2_run dig ev cfg sent s \<Longrightarrow> daemon2_step dig ev cfg s txs s' \<Longrightarrow> daemon2_run dig ev cfg (sent @ txs) s'"

end
