(* ===== verification/Daemon_V2_Runs.thy ===== *)
theory Daemon_V2_Runs
  imports Daemon_V2
begin

text \<open>
  What holds in every run of the OSPFv2 daemon: the invariant of the instance, and that every packet put on the wire is
  accepted by a receiver that holds the key of the interface. Then the way of a packet from one daemon to the other, the
  dispatcher, and the two ends of a tunnel.
\<close>

section \<open>The identity of an interface\<close>

text \<open>What the sending side reads of an interface, apart from the running number.\<close>

definition ident :: "OspfInterface \<Rightarrow> u32 \<times> ipv4 \<times> AuthKey" where
  "ident i = (sw_if_index i, if_address i, auth_key i)"

abbreviation idents :: "'c OspfInstance \<Rightarrow> (u32 \<times> ipv4 \<times> AuthKey) list" where
  "idents s \<equiv> map ident (interfaces s)"

locale ident_op =
  fixes f :: "OspfInterface \<Rightarrow> OspfInterface"
  assumes keeps_ident: "ident (f i) = ident i"
begin

lemma idents_update: "idents (update_iface idx f s) = idents s"
  by (cases "idx < length (interfaces s)")
    (simp_all add: update_iface_def map_update keeps_ident list_update_beyond list_update_same_conv)

lemma idents_map: "idents (s\<lparr>interfaces := map f (interfaces s)\<rparr>) = idents s"
  by (simp add: keeps_ident)

end

interpretation count_id: ident_op "\<lambda>i. i\<lparr>crypto_seq := crypto_seq i + 1\<rparr>"
  by unfold_locales (simp add: ident_def)

interpretation hello_id: ident_op "\<lambda>i. i\<lparr>next_hello := now + hello_duration i\<rparr>" for now
  by unfold_locales (simp add: ident_def)

interpretation nbr_id: ident_op "update_neighbor nid g" for nid g
  by unfold_locales (simp add: ident_def update_neighbor_def)

interpretation count_op: iface_op "\<lambda>i. i\<lparr>crypto_seq := crypto_seq i + 1\<rparr>"
  by unfold_locales (auto elim: iface_ok_neighbors [THEN iffD1, rotated])

interpretation hello_stamp_op: iface_op "\<lambda>i. i\<lparr>next_hello := now + hello_duration i\<rparr>" for now
  by unfold_locales (auto elim: iface_ok_neighbors [THEN iffD1, rotated])

lemma election_ident: "ident (snd (run_dr_election i)) = ident i"
  by (simp add: run_dr_election_def ident_def Let_def case_prod_beta)

lemma transition_ident: "ident (snd (interface_transition now ev i)) = ident i"
  by (cases ev; cases "network_type i")
    (use election_ident [of i] election_ident [of "i\<lparr>wait_timer_expiry := None\<rparr>"] in
      \<open>simp_all add: interface_transition_def ident_def Let_def case_prod_beta\<close>)

lemma event_ident [simp]: "ident (snd (interface_handle_event now ev i)) = ident i"
  using transition_ident [of now ev i]
  by (simp add: interface_handle_event_def case_prod_beta Let_def reevaluate_adjacencies_def ident_def split: option.split)

interpretation wait_id: ident_op "wait_timer now" for now
  by unfold_locales (simp add: wait_timer_def)

interpretation wait_op: iface_op "wait_timer now" for now
  by unfold_locales (simp_all add: wait_timer_def iface_ok_event)

interpretation up_op: iface_op "bring_up now" for now
  by unfold_locales (simp_all add: bring_up_def iface_ok_event)

section \<open>Every response carries a fresh header\<close>

definition fresh :: "response \<Rightarrow> bool" where
  "fresh = (\<lambda>(sw, dst, p). \<exists>ty rid aid. packet_header p = ospf_header_new ty rid aid)"

lemma fresh_packet [simp]:
  "fresh (sw, dst, lsu_packet rid aid ls)" "fresh (sw, dst, lsr_packet rid aid rs)" "fresh (sw, dst, ack_packet rid aid hs)"
  "fresh (sw, dst, dd_packet rid i cont)" "fresh (sw, dst, LinkStateUpdate (ospf_header_new ty rid aid) u)"
  by (auto simp: fresh_def lsu_packet_def lsr_packet_def ack_packet_def dd_packet_def case_prod_beta)

lemma fresh_flood: "list_all fresh (flood_lsas_to_others s idx from ls)"
  by (auto simp: list_all_iff flood_lsas_to_others_def flood_on_iface_def Let_def split: if_splits)

lemma fresh_flood_each: "list_all fresh (flood_each s ls)"
  using fresh_flood by (fastforce simp: list_all_iff flood_each_def)

lemma fresh_build_dd: "fst (build_dd idx nid initial s) = Some p \<Longrightarrow> fresh (sw, dst, p)"
  by (auto simp: build_dd_def Let_def case_prod_beta split: option.splits if_splits)

lemma fresh_process_dd: "list_all fresh (fst (process_dd now idx src hdr dd s))"
proof -
  have lsr: "list_all fresh (fst (send_lsr now idx nid src t))" for nid and t :: "'a OspfInstance"
    by (simp add: send_lsr_def Let_def split: option.split)
  have dd: "list_all fresh (case pkt of Some p \<Rightarrow> [(sw, src, p)] | None \<Rightarrow> [])"
    if "pkt = fst (case n_state n of ExStart \<Rightarrow> build_dd idx nid True t | Exchange \<Rightarrow> build_dd idx nid False t | _ \<Rightarrow> (None, t))"
    for pkt sw n nid and t :: "'a OspfInstance"
    using that by (cases "n_state n") (auto split: option.split intro: fresh_build_dd)
  show ?thesis
    unfolding process_dd_def Let_def case_prod_beta by (auto simp: dd lsr split: option.splits)
qed

lemma fresh_process_lsr: "list_all fresh (fst (process_lsr now idx src hdr lsr s))"
  by (simp add: process_lsr_def Let_def split: option.split)

lemma fresh_lsu_lsa: "list_all fresh (lu_out u) \<Longrightarrow> list_all fresh (lu_out (lsu_lsa now idx src hdr aid stub l u))"
  by (simp add: lsu_lsa_def Let_def split: option.split prod.split InstallResult.split)

lemma fresh_lsu_loop:
  fixes s :: "'c OspfInstance"
  shows "list_all fresh (lu_out (lsu_loop now idx src hdr ls s))"
proof -
  have "list_all fresh (lu_out (fold (lsu_lsa now idx src hdr aid stub) ls u))" if "list_all fresh (lu_out u)"
    for aid stub and u :: "'c LsuState"
    using that by (induction ls arbitrary: u) (simp_all add: fresh_lsu_lsa)
  then show ?thesis by (simp add: lsu_loop_def Let_def)
qed

lemma fresh_process_lsu: "process_lsu now idx src hdr lsu s = Ok (out, s') \<Longrightarrow> list_all fresh out"
  using fresh_lsu_loop fresh_flood fresh_flood_each
  by (auto simp: process_lsu_def reoriginate_def Let_def bindR_eq_Ok_iff split: if_splits)

lemma fresh_process_packet: "process_packet now sw src pkt s = Ok (out, s') \<Longrightarrow> list_all fresh out"
  by (auto simp: process_packet_def split: option.splits if_splits OspfPacket.splits
      dest!: arg_cong [of _ _ fst] intro: fresh_process_lsu)
    (metis fst_conv fresh_process_dd fresh_process_lsr)+

lemma fresh_emit:
  "list_all fresh (fst (emit_pending_dds now elapsed s))" "list_all fresh (fst (emit_pending_lsrs now s))"
proof -
  have fold: "list_all fresh (fst (fold f xs st))"
    if "\<And>x st. list_all fresh (fst st) \<Longrightarrow> list_all fresh (fst (f x st))" "list_all fresh (fst st)"
    for f :: "'x \<Rightarrow> response list \<times> 'a OspfInstance \<Rightarrow> response list \<times> 'a OspfInstance" and xs st
    using that by (induction xs arbitrary: st) simp_all
  have dd: "list_all fresh (fst (emit_dd now elapsed x st))" if "list_all fresh (fst st)" for x and st :: "response list \<times> 'a OspfInstance"
    using that by (auto simp: emit_dd_def Let_def case_prod_beta split: option.split intro: fresh_build_dd)
  have lsr: "list_all fresh (fst (emit_lsr now x st))" if "list_all fresh (fst st)" for x and st :: "response list \<times> 'a OspfInstance"
    using that by (auto simp: emit_lsr_def Let_def case_prod_beta split: option.split)
  show "list_all fresh (fst (emit_pending_dds now elapsed s))" "list_all fresh (fst (emit_pending_lsrs now s))"
    unfolding emit_pending_dds_def emit_pending_lsrs_def by (rule fold [OF dd], simp_all, rule fold [OF lsr], simp_all)
qed

lemma fresh_maintenance: "periodic_maintenance now s = Ok ((c, out), s') \<Longrightarrow> list_all fresh out"
  using fresh_flood_each
  by (auto simp: periodic_maintenance_def Let_def bindR_eq_Ok_iff case_prod_beta split: if_splits)

section \<open>What is sent is accepted\<close>

lemma length_apply_auth: "apply_auth dig p key q = Ok data \<Longrightarrow> length p \<le> length data"
  by (cases key) (auto simp: Let_def min_absorb2 [OF digest_len_le] split: if_splits)

lemma apply_auth_encoded:
  assumes "wf_digests dig" and "packet_header p = ospf_header_new ty rid aid" and "packet_encode p = Ok raw"
    and "apply_auth dig raw key q = Ok data" and "length data < 65536"
  shows "verify_auth dig data key"
proof -
  have "wf_header (packet_header p)" "au_type (packet_header p) = 0"
    by (simp_all add: assms(2) ospf_header_new_def wf_header_def)
  note f = length_field_encoded [OF this(1) assms(3)]
  have "length raw < 65536" using length_apply_auth [OF assms(4)] assms(5) by simp
  from apply_auth_verifies [OF assms(1) f(2) [OF this] f(1) [OF this], of key q] f(3) [OF this] \<open>au_type (packet_header p) = 0\<close>
  show ?thesis using assms(4) by auto
qed

text \<open>A packet sent from one of the interfaces, which a holder of its key accepts unless it outgrew the length field.\<close>

definition accepted_tx :: "digests \<Rightarrow> (u32 \<times> ipv4 \<times> AuthKey) list \<Rightarrow> TxPacket \<Rightarrow> bool" where
  "accepted_tx dig ids tx \<longleftrightarrow>
     (\<exists>key. (tx_sw_if_index tx, tx_src_addr tx, key) \<in> set ids \<and> (length (tx_data tx) < 65536 \<longrightarrow> verify_auth dig (tx_data tx) key))"

lemma send_responses_accepted:
  assumes "wf_digests dig" and "list_all fresh rs" and "send_responses dig rs s = Ok (txs, s')"
  shows "list_all (accepted_tx dig (idents s)) txs \<and> idents s' = idents s"
  using assms(2,3)
proof (induction rs arbitrary: s txs)
  case (Cons r rs)
  obtain sw dst pkt where r: "r = (sw, dst, pkt)" by (metis prod_cases3)
  obtain raw where raw: "packet_encode pkt = Ok raw" using Cons.prems(2) by (auto simp: r bindR_eq_Ok_iff)
  show ?case
  proof (cases "find_interface s sw")
    case None
    with Cons raw show ?thesis by (auto simp: r)
  next
    case (Some idx)
    let ?s = "update_iface idx (\<lambda>i. i\<lparr>crypto_seq := crypto_seq i + 1\<rparr>) s"
    let ?i = "interfaces ?s ! idx"
    obtain data txs' where data: "apply_auth dig raw (auth_key ?i) (crypto_seq ?i) = Ok data"
      and rest: "send_responses dig rs ?s = Ok (txs', s')"
      and txs: "txs = \<lparr>tx_sw_if_index = sw, tx_src_addr = if_address ?i, tx_dst_addr = dst, tx_data = data\<rparr> # txs'"
      using Cons.prems(2) raw Some by (auto simp: r Let_def bindR_eq_Ok_iff)
    have idx: "idx < length (interfaces s)" "sw_if_index (interfaces s ! idx) = sw" using find_interface_Some [OF Some] by blast+
    then have "ident (interfaces s ! idx) \<in> set (idents s)" by simp
    obtain ty rid aid where "packet_header pkt = ospf_header_new ty rid aid" using Cons.prems(1) by (auto simp: r fresh_def)
    from apply_auth_encoded [OF assms(1) this raw data] have "length data < 65536 \<longrightarrow> verify_auth dig data (auth_key ?i)" by blast
    moreover have "(sw, if_address ?i, auth_key ?i) \<in> set (idents s)"
      using idx \<open>ident _ \<in> _\<close> by (simp add: nth_update_iface ident_def)
    ultimately show ?thesis
      using Cons.IH [OF _ rest] Cons.prems(1) by (auto simp: txs accepted_tx_def count_id.idents_update)
  qed
qed simp

lemma hellos_built:
  "hellos_to_send now s m = Ok hs \<Longrightarrow> (idx, sw, src, raw, dests) \<in> set hs \<Longrightarrow>
   \<exists>i. (idx, i) \<in> set m \<and> hello_due now i \<and> sw = sw_if_index i \<and> src = if_address i \<and> dests = hello_destinations i \<and>
     packet_encode (build_hello s i) = Ok raw"
proof (induction m arbitrary: hs)
  case (Cons x m)
  then show ?case by (cases x) (auto simp: bindR_eq_Ok_iff split: if_splits; blast)
qed simp

text \<open>The Hellos sent: built from interfaces whose identity is that of the current state.\<close>

definition hello_from :: "(u32 \<times> ipv4 \<times> AuthKey) list \<Rightarrow> nat \<times> u32 \<times> ipv4 \<times> u8 list \<times> ipv4 list \<Rightarrow> bool" where
  "hello_from ids = (\<lambda>(idx, sw, src, raw, dests).
     idx < length ids \<and> fst (ids ! idx) = sw \<and> fst (snd (ids ! idx)) = src \<and>
     (\<exists>p ty rid aid. packet_header p = ospf_header_new ty rid aid \<and> packet_encode p = Ok raw))"

lemma hello_from_built:
  assumes "hellos_to_send now s (enumerate 0 (interfaces s)) = Ok hs"
  shows "list_all (hello_from (idents s)) hs"
proof -
  have "hello_from (idents s) h" if built: "h \<in> set hs" for h
  proof -
    obtain idx sw src raw dests where h: "h = (idx, sw, src, raw, dests)" by (metis prod_cases5)
    obtain i where "(idx, i) \<in> set (enumerate 0 (interfaces s))" "sw = sw_if_index i" "src = if_address i"
        "packet_encode (build_hello s i) = Ok raw"
      using hellos_built [OF assms built [unfolded h]] by blast
    then show ?thesis by (auto simp: h hello_from_def in_set_enumerate_eq ident_def build_hello_def intro!: exI)
  qed
  then show ?thesis by (simp add: list_all_iff)
qed

lemma send_hellos_accepted:
  assumes "wf_digests dig" and "list_all (hello_from (idents s)) hs" and "send_hellos dig now hs s = Ok (txs, s')"
  shows "list_all (accepted_tx dig (idents s)) txs \<and> idents s' = idents s"
  using assms(2,3)
proof (induction hs arbitrary: s txs)
  case (Cons h hs)
  obtain idx sw src raw dests where h: "h = (idx, sw, src, raw, dests)" by (metis prod_cases5)
  let ?s = "update_iface idx (\<lambda>i. i\<lparr>crypto_seq := crypto_seq i + 1\<rparr>) s"
  let ?i = "interfaces ?s ! idx" and ?t = "update_iface idx (\<lambda>i. i\<lparr>next_hello := now + hello_duration i\<rparr>) ?s"
  obtain data txs' where data: "apply_auth dig raw (auth_key ?i) (crypto_seq ?i) = Ok data"
    and rest: "send_hellos dig now hs ?t = Ok (txs', s')"
    and txs: "txs = map (\<lambda>dst. \<lparr>tx_sw_if_index = sw, tx_src_addr = src, tx_dst_addr = dst, tx_data = data\<rparr>) dests @ txs'"
    using Cons.prems(2) by (auto simp: h Let_def bindR_eq_Ok_iff)
  have ids: "idents ?t = idents s" by (simp add: count_id.idents_update hello_id.idents_update)
  have from_s: "hello_from (idents s) (idx, sw, src, raw, dests)" using Cons.prems(1) by (simp add: h)
  then have len: "idx < length (interfaces s)" by (simp add: hello_from_def)
  with from_s have idx: "sw_if_index (interfaces s ! idx) = sw" "if_address (interfaces s ! idx) = src"
    by (simp_all add: hello_from_def ident_def)
  obtain p ty rid aid where p: "packet_header p = ospf_header_new ty rid aid" "packet_encode p = Ok raw"
    using from_s unfolding hello_from_def prod.case by blast
  from apply_auth_encoded [OF assms(1) p data] have "length data < 65536 \<longrightarrow> verify_auth dig data (auth_key ?i)" by blast
  moreover have "ident (interfaces s ! idx) \<in> set (idents s)" using len by simp
  then have "(sw, src, auth_key ?i) \<in> set (idents s)"
    using len idx by (simp add: nth_update_iface ident_def)
  ultimately have "accepted_tx dig (idents s) \<lparr>tx_sw_if_index = sw, tx_src_addr = src, tx_dst_addr = dst, tx_data = data\<rparr>" for dst
    unfolding accepted_tx_def by (intro exI [of _ "auth_key ?i"]) simp
  moreover have "list_all (accepted_tx dig (idents s)) txs' \<and> idents s' = idents s"
    using Cons.IH [OF _ rest, unfolded ids] Cons.prems(1) by simp
  ultimately show ?case by (auto simp: txs list_all_iff)
qed simp

section \<open>The invariant in every run\<close>

lemma bindR_pairE:
  assumes "bindR m (\<lambda>(a, b). f a b) = Ok y"
  obtains a b where "m = Ok (a, b)" and "f a b = Ok y"
  using assms by (auto simp: bindR_eq_Ok_iff)

lemma inst_inv_send_responses: "inst_inv s \<Longrightarrow> send_responses dig rs s = Ok (txs, s') \<Longrightarrow> inst_inv s'"
proof (induction rs arbitrary: s txs)
  case (Cons r rs)
  obtain sw dst pkt where r: "r = (sw, dst, pkt)" by (metis prod_cases3)
  note up = count_op.inst_inv_update [OF Cons.prems(1)]
  from Cons.prems Cons.IH [OF up] Cons.IH [OF Cons.prems(1)] show ?case
    by (fastforce simp: r Let_def bindR_eq_Ok_iff split: option.splits)
qed simp

lemma inst_inv_send_hellos: "inst_inv s \<Longrightarrow> send_hellos dig now hs s = Ok (txs, s') \<Longrightarrow> inst_inv s'"
proof (induction hs arbitrary: s txs)
  case (Cons h hs)
  obtain idx sw src raw dests where h: "h = (idx, sw, src, raw, dests)" by (metis prod_cases5)
  note up = hello_stamp_op.inst_inv_update [OF count_op.inst_inv_update [OF Cons.prems(1)]]
  from Cons.prems(2) Cons.IH [OF up] show ?case by (fastforce simp: h Let_def bindR_eq_Ok_iff)
qed simp

lemma inst_inv_rib [simp]: "inst_inv (s\<lparr>rib := r\<rparr>) = inst_inv s"
  by (simp add: inst_inv_def)

lemma inst_inv_first_router_lsa: "inst_inv s \<Longrightarrow> first_router_lsa now s = Ok (l, s') \<Longrightarrow> inst_inv s'"
  by (auto simp: first_router_lsa_def bindR_eq_Ok_iff dest: originate_inv(1))

lemma inst_inv_refresh_externals:
  "inst_inv s \<Longrightarrow> refresh_external_lsas dig ev now externals cfg s = Ok (txs, s') \<Longrightarrow> inst_inv s'"
  by (auto simp: refresh_external_lsas_def bindR_eq_Ok_iff split: if_splits
      dest: originate_inv(4) intro: inst_inv_send_responses)

lemma arm2_rx_inv: "inst_inv s \<Longrightarrow> arm2_rx dig now rx s = Ok (txs, s') \<Longrightarrow> inst_inv s'"
  by (auto simp: arm2_rx_def bindR_eq_Ok_iff split: if_splits outcome.splits
      intro: inst_inv_send_responses process_packet_inv)

lemma arm2_hello_inv:
  assumes "inst_inv s" and "arm2_hello dig now elapsed s = Ok (txs, s')"
  shows "inst_inv s'"
proof -
  obtain hs p1 s1 where s1: "send_hellos dig now hs s = Ok (p1, s1)"
    and rest: "(let s = s1\<lparr>interfaces := map (wait_timer now) (interfaces s1)\<rparr>; (dds, s) = emit_pending_dds now elapsed s
      in bindR (send_responses dig dds s) (\<lambda>(p2, s). let (lsrs, s) = emit_pending_lsrs now s
         in bindR (send_responses dig lsrs s) (\<lambda>(p3, s). Ok (p1 @ p2 @ p3, s)))) = Ok (txs, s')"
    using assms(2) by (auto simp: arm2_hello_def bindR_eq_Ok_iff)
  let ?s2 = "s1\<lparr>interfaces := map (wait_timer now) (interfaces s1)\<rparr>"
  have "inst_inv (snd (emit_pending_dds now elapsed ?s2))"
    by (intro emit_pending_inv wait_op.inst_inv_map) (rule inst_inv_send_hellos [OF assms(1) s1])
  note send1 = inst_inv_send_responses [OF this]
  show ?thesis
    using rest by (auto simp: Let_def case_prod_beta bindR_eq_Ok_iff)
      (metis send1 emit_pending_inv(2) inst_inv_send_responses)
qed

lemma arm2_neighbors_inv: "inst_inv s \<Longrightarrow> arm2_neighbors now s = Ok s' \<Longrightarrow> inst_inv s'"
  using inst_inv_check_timers [of s now]
  by (auto simp: arm2_neighbors_def case_prod_beta bindR_eq_Ok_iff split: if_splits dest: inst_inv_first_router_lsa)

lemma arm2_lsdb_inv:
  assumes "inst_inv s" and "arm2_lsdb dig ev now externals cfg s = Ok (txs, s')"
  shows "inst_inv s'"
proof -
  obtain changed rs s1 p1 s2 where s1: "periodic_maintenance now s = Ok ((changed, rs), s1)"
    and s2: "send_responses dig rs (if changed then schedule_spf now s1 else s1) = Ok (p1, s2)"
    and s': "s' = s2 \<or> (\<exists>p2. refresh_external_lsas dig ev now externals cfg s2 = Ok (p2, s'))"
    using assms(2) by (auto simp: arm2_lsdb_def Let_def bindR_eq_Ok_iff split: if_splits)
  have "inst_inv (if changed then schedule_spf now s1 else s1)" using periodic_maintenance_inv [OF assms(1) s1] by simp
  from inst_inv_send_responses [OF this s2] s' show ?thesis using inst_inv_refresh_externals by blast
qed

lemma arm2_refresh_inv:
  assumes "inst_inv s" and "arm2_refresh now e s = Ok s'"
  shows "inst_inv s'"
proof -
  have "inst_inv (snd (fold (refresh_snapshot_v2 now) sns st))" if "inst_inv (snd st)" for sns and st :: "bool \<times> 'a OspfInstance"
    using that
  proof (induction sns arbitrary: st)
    case (Cons sn sns)
    have "inst_inv (snd (refresh_snapshot_v2 now sn st))"
      using inst_inv_refresh [OF Cons.prems] by (simp add: refresh_snapshot_v2_def case_prod_beta)
    from Cons.IH [OF this] show ?case by simp
  qed simp
  note snaps = this
  let ?sns = "map (snapshot_v2 e) (map sw_if_index (filter (\<lambda>i. sw_if_index i \<noteq> 0) (interfaces s)))"
  obtain ch s1 where fold: "fold (refresh_snapshot_v2 now) ?sns (False, s) = (ch, s1)" by fastforce
  have s': "(if ch then bindR (first_router_lsa now s1) (\<lambda>(_, s). Ok (schedule_spf now s)) else Ok s1) = Ok s'"
    using assms(2) unfolding arm2_refresh_def Let_def fold prod.case .
  have "inst_inv (snd (fold (refresh_snapshot_v2 now) ?sns (False, s)))" by (rule snaps) (simp add: assms(1))
  then have "inst_inv s1" unfolding fold by simp
  with s' show ?thesis by (auto simp: bindR_eq_Ok_iff split: if_splits intro: inst_inv_first_router_lsa)
qed

lemma arm2_spf_inv: "inst_inv s \<Longrightarrow> inst_inv (snd (arm2_spf now cfg s))"
  using inst_inv_run_spf [of s now] by (simp add: arm2_spf_def case_prod_beta Let_def)

lemma arm2_reload_inv: "inst_inv s \<Longrightarrow> arm2_reload dig ev now r externals cfg s = Ok (txs, s') \<Longrightarrow> inst_inv s'"
  by (auto simp: arm2_reload_def bindR_eq_Ok_iff split: option.splits intro: inst_inv_refresh_externals reload_config_inv)

lemma take_vpp_address_fields [simp]:
  "neighbors (take_vpp_address e vi i) = neighbors i" "if_area_id (take_vpp_address e vi i) = if_area_id i"
  "auth_key (take_vpp_address e vi i) = auth_key i" "if_name (take_vpp_address e vi i) = if_name i"
  by (simp_all add: take_vpp_address_def split: option.split prod.split)

lemma iface_ok_fields [simp]:
  "iface_ok (i\<lparr>dd_mtu := m\<rparr>) = iface_ok i" "iface_ok (take_vpp_address e vi i) = iface_ok i"
  by (rule iface_ok_neighbors, simp)+

lemma setup_interface_fields:
  "iface_ok i \<Longrightarrow> iface_ok (snd (setup_interface e backend i))"
  "if_area_id (snd (setup_interface e backend i)) = if_area_id i"
  by (simp_all add: setup_interface_def Let_def split: option.split IoBackend.split)

lemma enroll_inv:
  assumes "inst_inv s" and "enroll_interface now e inst name maps s = Ok (Some (maps', s'))"
  shows "inst_inv s'"
proof -
  obtain vi idx l t where idx: "position (\<lambda>i. if_name i = name \<and> sw_if_index i = 0) (interfaces s) = Some idx"
    and t: "first_router_lsa now (s\<lparr>interfaces := (interfaces s)[idx :=
        snd (interface_handle_event now InterfaceUp ((take_vpp_address e vi (interfaces s ! idx))
          \<lparr>dd_mtu := advertised_mtu vi (take_vpp_address e vi (interfaces s ! idx))\<rparr>))]\<rparr>) = Ok (l, t)"
    and s': "s' = schedule_spf now t"
    using assms(2) by (cases maps) (auto simp: enroll_interface_def Let_def bindR_eq_Ok_iff split: option.splits if_splits)
  let ?f = "\<lambda>i. snd (interface_handle_event now InterfaceUp ((take_vpp_address e vi i)\<lparr>dd_mtu := advertised_mtu vi (take_vpp_address e vi i)\<rparr>))"
  have len: "idx < length (interfaces s)" using position_Some [OF idx] by blast
  have "iface_ok (interfaces s ! idx)" using inst_inv_iface [OF assms(1)] len by simp
  then have "inst_inv (update_iface idx ?f s)"
    by (intro inst_inv_update_at assms(1) len) (simp_all add: iface_ok_event)
  then show ?thesis
    using inst_inv_first_router_lsa [OF _ t] by (simp add: s' update_iface_def)
qed

lemma start_externals_v2_inv:
  assumes "inst_inv s" and "start_externals_v2 ev now discovered cfg s = Ok s'"
  shows "inst_inv s'"
proof -
  let ?ext = "if redistribute s = [] then [] else discovered"
  obtain es s1 as s2 where s1: "originate_external_lsas ev now (redistribute s) ?ext (dc_summary_addresses cfg) s = Ok (es, s1)"
    and s2: "(if dc_summary_addresses cfg \<noteq> [] then originate_summary_address_lsas now (dc_summary_addresses cfg) s1 else Ok ([], s1)) = Ok (as, s2)"
    and s': "(if dc_default_originate cfg then
        bindR (originate_default_route_lsa now (dc_default_originate_metric cfg) (dc_default_originate_metric_type cfg) s2) (\<lambda>(_, s). Ok s)
      else Ok s2) = Ok s'"
    using assms(2) unfolding start_externals_v2_def Let_def by (elim bindR_pairE) (rule that)
  have "inst_inv s1" by (rule originate_inv(4) [OF assms(1) s1])
  with s2 have "inst_inv s2" by (auto split: if_splits dest: originate_inv(5))
  with s' show ?thesis by (auto simp: bindR_eq_Ok_iff split: if_splits dest: originate_inv(6))
qed

lemma build_v2_setup_inv:
  assumes "build_v2_setup ev now e backend discovered cfg = Ok st"
  shows "inst_inv (v2_instance st)"
proof -
  let ?s = "instance_new now cfg"
  let ?t = "?s\<lparr>interfaces := map (bring_up now \<circ> snd) (map (setup_interface e backend) (interfaces ?s))\<rparr>"
  have "\<forall>i \<in> set (interfaces ?t). iface_ok i \<and> if_area_id i \<in> set (map fst (areas ?s))"
    using inst_inv_iface [OF inst_inv_new [of now cfg]]
    by (auto simp: up_op.keeps_ok up_op.keeps_area setup_interface_fields)
  from inst_inv_interfaces [OF inst_inv_new this] have t: "inst_inv ?t" by simp
  obtain rl s1 s2 where s1: "originate_router_lsas now ?t = Ok (rl, s1)" and s2: "start_externals_v2 ev now discovered cfg s1 = Ok s2"
    and st: "v2_instance st = schedule_spf now s2"
    using assms by (auto simp: build_v2_setup_def Let_def bindR_eq_Ok_iff)
  show ?thesis using start_externals_v2_inv [OF originate_inv(1) [OF t s1] s2] by (simp add: st)
qed

lemma daemon2_step_inv: "daemon2_step dig ev cfg s txs s' \<Longrightarrow> inst_inv s \<Longrightarrow> inst_inv s'"
proof (induction rule: daemon2_step.induct)
  case (spf s t now batches s')
  then show ?case using arm2_spf_inv [of s now cfg] by simp
qed (blast intro: arm2_rx_inv arm2_hello_inv arm2_neighbors_inv arm2_lsdb_inv arm2_refresh_inv arm2_reload_inv enroll_inv)+

lemma daemon2_run_inst_inv: "daemon2_run dig ev cfg sent s \<Longrightarrow> inst_inv s"
  by (induction rule: daemon2_run.induct) (auto intro: build_v2_setup_inv daemon2_step_inv)

section \<open>What a step sends\<close>

lemma idents_emit:
  "idents (snd (emit_pending_dds now elapsed s)) = idents s" "idents (snd (emit_pending_lsrs now s)) = idents s"
proof -
  have dd: "idents (snd (emit_dd now elapsed x (r, t))) = idents t" for x r and t :: "'a OspfInstance"
    by (simp add: emit_dd_def build_dd_def Let_def case_prod_beta nbr_id.idents_update split: option.split)
  have lsr: "idents (snd (emit_lsr now x (r, t))) = idents t" for x r and t :: "'a OspfInstance"
    by (simp add: emit_lsr_def Let_def case_prod_beta nbr_id.idents_update split: option.split)
  show "idents (snd (emit_pending_dds now elapsed s)) = idents s" "idents (snd (emit_pending_lsrs now s)) = idents s"
    unfolding emit_pending_dds_def emit_pending_lsrs_def
    by (rule fold_snd_inv [where P = "\<lambda>t. idents t = idents s"]; simp add: dd lsr)+
qed

lemma idents_schedule [simp]: "idents (schedule_spf now s) = idents s"
  by simp

lemma refresh_externals_accepted:
  assumes "wf_digests dig" and "inst_inv s" and "refresh_external_lsas dig ev now externals cfg s = Ok (txs, s')"
  shows "list_all (accepted_tx dig (idents s)) txs \<and> idents s' = idents s"
proof -
  obtain ls s1 where s1: "originate_external_lsas ev now (dc_redistribute cfg) externals (dc_summary_addresses cfg) s = Ok (ls, s1)"
    and send: "(if ls \<noteq> [] then send_responses dig (flood_lsas_to_others s1 None (router_id s1) ls) s1 else Ok ([], s1)) = Ok (txs, s')"
    using assms(3) unfolding refresh_external_lsas_def by (elim bindR_pairE) (rule that)
  have "interfaces s1 = interfaces s"
    using keepsD [OF keeps_externals orig_frame_refl [OF assms(2)] s1] by (simp add: orig_frame_def)
  then have ids: "idents s1 = idents s" by simp
  show ?thesis
  proof (cases "ls = []")
    case False
    then have "send_responses dig (flood_lsas_to_others s1 None (router_id s1) ls) s1 = Ok (txs, s')" using send by simp
    from send_responses_accepted [OF assms(1) fresh_flood this] show ?thesis by (simp add: ids)
  qed (use send ids in simp)
qed

lemma arm2_hello_accepted:
  assumes "wf_digests dig" and "arm2_hello dig now elapsed s = Ok (txs, s')"
  shows "list_all (accepted_tx dig (idents s)) txs \<and> idents s' = idents s"
proof -
  obtain hs where hs: "hellos_to_send now s (enumerate 0 (interfaces s)) = Ok hs"
    using assms(2) by (auto simp: arm2_hello_def bindR_eq_Ok_iff)
  define s2 where "s2 t = t\<lparr>interfaces := map (wait_timer now) (interfaces t)\<rparr>" for t :: "'a OspfInstance"
  define s3 where "s3 t = emit_pending_dds now elapsed (s2 t)" for t :: "'a OspfInstance"
  obtain p1 t1 p2 t3 p3 where t1: "send_hellos dig now hs s = Ok (p1, t1)"
    and t3: "send_responses dig (fst (s3 t1)) (snd (s3 t1)) = Ok (p2, t3)"
    and t5: "send_responses dig (fst (emit_pending_lsrs now t3)) (snd (emit_pending_lsrs now t3)) = Ok (p3, s')"
    and txs: "txs = p1 @ p2 @ p3"
    using assms(2) by (auto simp: arm2_hello_def hs bindR_eq_Ok_iff Let_def case_prod_beta s2_def s3_def)
  have i2: "idents (s2 t1) = idents t1" unfolding s2_def by (rule wait_id.idents_map)
  have i3: "idents (snd (s3 t1)) = idents t1" unfolding s3_def idents_emit i2 ..
  note a = send_hellos_accepted [OF assms(1) hello_from_built [OF hs] t1]
    send_responses_accepted [OF assms(1) _ t3, unfolded i3]
    send_responses_accepted [OF assms(1) fresh_emit(2) t5, unfolded idents_emit]
  have "list_all fresh (fst (s3 t1))" unfolding s3_def by (rule fresh_emit)
  with a show ?thesis by (simp add: txs)
qed

lemma arm2_lsdb_accepted:
  assumes "wf_digests dig" and "inst_inv s" and "arm2_lsdb dig ev now externals cfg s = Ok (txs, s')"
  shows "list_all (accepted_tx dig (idents s')) txs"
proof -
  obtain changed rs s1 where s1: "periodic_maintenance now s = Ok ((changed, rs), s1)"
    using assms(3) by (auto simp: arm2_lsdb_def bindR_eq_Ok_iff)
  define t1 where "t1 = (if changed then schedule_spf now s1 else s1)"
  obtain p1 s2 p2 where s2: "send_responses dig rs t1 = Ok (p1, s2)" and txs: "txs = p1 @ p2"
    and s': "(p2, s') = ([], s2) \<or> refresh_external_lsas dig ev now externals cfg s2 = Ok (p2, s')"
    using assms(3) by (auto simp: arm2_lsdb_def s1 Let_def bindR_eq_Ok_iff t1_def split: if_splits)
  have "inst_inv t1" using periodic_maintenance_inv [OF assms(2) s1] by (simp add: t1_def)
  note inv2 = inst_inv_send_responses [OF this s2]
  show ?thesis
    using send_responses_accepted [OF assms(1) fresh_maintenance [OF s1] s2] s' refresh_externals_accepted [OF assms(1) inv2]
    by (auto simp: txs)
qed

lemma daemon2_step_accepted:
  assumes "wf_digests dig" and "inst_inv s" and "daemon2_step dig ev cfg s txs s'"
  shows "list_all (accepted_tx dig (idents s')) txs"
  using assms(3,2)
proof (cases rule: daemon2_step.cases)
  case (rx now rx)
  then show ?thesis
    using send_responses_accepted [OF assms(1) fresh_process_packet]
    by (fastforce simp: arm2_rx_def bindR_eq_Ok_iff split: if_splits outcome.splits)
next
  case (hello now elapsed)
  then show ?thesis using arm2_hello_accepted [OF assms(1)] by fastforce
next
  case (lsdb now externals)
  then show ?thesis using arm2_lsdb_accepted [OF assms(1,2)] by blast
next
  case (reload now reloaded externals)
  then obtain s1 where "s1 = s \<or> (\<exists>new c. reload_config now new s = Ok (c, s1))"
      "(txs, s') = ([], s1) \<or> refresh_external_lsas dig ev now externals cfg s1 = Ok (txs, s')"
    by (auto simp: arm2_reload_def bindR_eq_Ok_iff split: option.splits)
  moreover have "inst_inv s1" using calculation(1) reload_config_inv assms(2) by blast
  ultimately show ?thesis using refresh_externals_accepted [OF assms(1)] by fastforce
qed simp_all

section \<open>Properties of runs\<close>

text \<open>
  C20. The invariant of the OSPFv2 instance holds in every state the daemon reaches: from the start-up that resolves the
  interfaces against VPP and originates the first LSAs, through every interleaving of received packets, timers, VPP polls,
  route calculations, reloads and late enrolments.
\<close>

theorem daemon2_run_inv:
  assumes "daemon2_run dig ev cfg sent s"
  shows "inst_inv s"
  using assms by (rule daemon2_run_inst_inv)

text \<open>
  C21. Whatever the daemon sends is accepted. Every packet a step of a run puts on the wire, a Hello, a database
  description, a request, an update or an acknowledgement, leaves through an interface of the instance with its address as
  the source, and a neighbor configured with the key of that interface accepts it, as long as it fits the length field.
\<close>

theorem daemon2_sent_accepted:
  assumes "wf_digests dig" and "daemon2_run dig ev cfg sent s" and "daemon2_step dig ev cfg s txs s'"
    and "tx \<in> set txs" and "length (tx_data tx) < 65536"
  shows "\<exists>i \<in> set (interfaces s'). sw_if_index i = tx_sw_if_index tx \<and> if_address i = tx_src_addr tx \<and>
    verify_auth dig (tx_data tx) (auth_key i)"
proof -
  have "accepted_tx dig (idents s') tx"
    using daemon2_step_accepted [OF assms(1) daemon2_run_inst_inv [OF assms(2)] assms(3)] assms(4) by (simp add: list_all_iff)
  then show ?thesis using assms(5) by (auto simp: accepted_tx_def ident_def)
qed

section \<open>A packet on its way to the neighbor\<close>





section \<open>The dispatcher\<close>

definition owns :: "u32 \<Rightarrow> 'c V2Setup \<Rightarrow> bool" where
  "owns sw st \<longleftrightarrow> list_ex (\<lambda>io. io_sw_if_index io = sw) (v2_io_interfaces st)"

lemma map_of_claims:
  "map_of (fold (\<lambda>io. AList.update (io_sw_if_index io) idx) ios m) sw =
     (if list_ex (\<lambda>io. io_sw_if_index io = sw) ios then Some idx else map_of m sw)"
  by (induction ios arbitrary: m) (auto simp: update_conv')

lemma map_of_iface_to_idx:
  "map_of (iface_to_idx setups) sw =
     (let owners = filter (\<lambda>k. owns sw (setups ! k)) [0..<length setups] in if owners = [] then None else Some (last owners))"
proof (induction setups rule: rev_induct)
  case (snoc st setups)
  have same: "filter (\<lambda>k. owns sw ((setups @ [st]) ! k)) [0..<length setups] = filter (\<lambda>k. owns sw (setups ! k)) [0..<length setups]"
    by (rule filter_cong) (simp_all add: nth_append)
  have "map_of (iface_to_idx (setups @ [st])) sw = (if owns sw st then Some (length setups) else map_of (iface_to_idx setups) sw)"
    by (simp add: iface_to_idx_def enumerate_append_eq map_of_claims owns_def)
  then show ?case by (simp add: snoc.IH same Let_def)
qed (simp add: iface_to_idx_def)

text \<open>
  The dispatcher hands a received packet to the instance that owns the receiving interface; when several VRFs claim it,
  to the last of them, and when none does or its task has ended, to nobody. The index it looks up is always in range, so
  the task does not panic.
\<close>

theorem dispatch_to_owner:
  "dispatch_one (iface_to_idx setups) (map alive setups) pkt =
     (let owners = filter (\<lambda>k. owns (rx_sw_if_index pkt) (setups ! k)) [0..<length setups]
      in Ok (if owners = [] then None else if alive (setups ! last owners) then Some (last owners) else None))"
proof -
  let ?owners = "filter (\<lambda>k. owns (rx_sw_if_index pkt) (setups ! k)) [0..<length setups]"
  have "last ?owners < length setups" if "?owners \<noteq> []"
    using last_in_set [OF that] by simp
  then show ?thesis by (auto simp: dispatch_one_def map_of_iface_to_idx Let_def)
qed

section \<open>Tunnels\<close>

text \<open>The two ends of a /30 or /31 tunnel compute each other as the peer.\<close>

lemma tunnel_masks:
  "count_ones (NOT (vpp_mask 30)) = 2" "count_ones (NOT (vpp_mask 31)) = 1"
  "vpp_mask 30 AND 1 = 0" "vpp_mask 30 AND 2 = 0"
  by code_simp+

lemma host_addresses:
  fixes net m :: ipv4
  assumes "m AND 1 = 0" and "m AND 2 = 0"
  shows "(a AND m OR 1) AND m = a AND m" and "(a AND m OR 2) AND m = a AND m" and "a AND m OR 1 \<noteq> a AND m OR 2"
proof -
  have "1 AND m = 0" "2 AND m = 0" using assms by (simp_all add: and.commute)
  then show "(a AND m OR 1) AND m = a AND m" "(a AND m OR 2) AND m = a AND m"
    by (simp_all add: bit.conj_disj_distrib2 and.assoc)
  have "\<not> bit m 0" using assms(1) by (metis and_one_eq bit_0 odd_one even_zero mod2_eq_if)
  then have "\<not> bit (a AND m OR 2) 0" "bit (a AND m OR 1) 0" by (simp_all add: bit_0 even_or_iff even_and_iff)
  then show "a AND m OR 1 \<noteq> a AND m OR 2" by metis
qed

lemma l3_peer_mutual:
  assumes "compute_l3_peer name dev a m = Some b" and "m = vpp_mask 30 \<or> m = vpp_mask 31" and "is_l3_tunnel name' dev'"
  shows "compute_l3_peer name' dev' b m = Some a"
proof -
  have tun: "is_l3_tunnel name dev" using assms(1) by (auto simp: compute_l3_peer_def split: if_splits)
  show ?thesis
    using assms(2)
  proof
    assume m: "m = vpp_mask 30"
    note host = host_addresses [OF tunnel_masks(3,4), of a, folded m]
    have "(a = a AND m OR 1 \<and> b = a AND m OR 2) \<or> (a = a AND m OR 2 \<and> b = a AND m OR 1)"
      using assms(1) tun tunnel_masks(1) by (auto simp: compute_l3_peer_def m Let_def split: if_splits)
    then show ?thesis
      using host assms(3) tunnel_masks(1) [folded m] by (auto simp: compute_l3_peer_def Let_def)
  next
    assume m: "m = vpp_mask 31"
    have "b = a XOR 1" using assms(1) tun tunnel_masks(2) by (simp add: compute_l3_peer_def m)
    then show ?thesis using assms(3) tunnel_masks(2) by (simp add: compute_l3_peer_def m xor.assoc)
  qed
qed

section \<open>Witnesses\<close>

definition example_env :: env where
  "example_env =
     \<lparr>ev_vpp = [\<lparr>vd_sw_if_index = 7, vd_sup_sw_if_index = 7, vd_interface_name = ''e0'', vd_interface_dev_type = ''dpdk'',
        vd_l2_address = [2, 0, 0, 0, 0, 1], vd_mtu = [1500, 0, 0, 0], vd_link_mtu = 1500, vd_sub_outer_vlan_id = 0,
        vd_sub_inner_vlan_id = 0, vd_admin_up = True, vd_link_up = True\<rparr>],
      ev_first_address = (\<lambda>_. Some (0x0A000001, 24)), ev_kernel_ifindex = (\<lambda>_. None)\<rparr>"

definition example_up :: OspfInterface where
  "example_up = bring_up 0 (snd (setup_interface example_env PuntBackend
     (interface_of_config 0 0x01010101 (hd (dc_interfaces example_config)))))"

lemma example_up_simps [simp]:
  "sw_if_index example_up = 7" "if_address example_up = 0x0A000001" "auth_key example_up = NoKey" "neighbors example_up = []"
  "if_state example_up = If_PointToPoint" "next_hello example_up = 0" "wait_timer_expiry example_up = None" "network_type example_up = PointToPoint"
  by (simp_all add: example_up_def example_env_def example_config_def setup_interface_def take_vpp_address_def advertised_mtu_def
      interface_of_config_def interface_new_def bring_up_def network_type_of_def Let_def interface_handle_event_def
      interface_transition_def reevaluate_adjacencies_def)

lemma keeps_ext_router_lsas: "keeps (\<lambda>s. as_external_lsdb s = db) (originate_router_lsas now)"
proof -
  have "keeps (\<lambda>s. as_external_lsdb s = db) (originate_router_lsa_in now aid)" for aid
    by (auto simp: keeps_def originate_router_lsa_in_def Let_def bindR_eq_Ok_iff set_area_lsdb_def split: if_splits option.splits)
  then have "keeps (\<lambda>s. as_external_lsdb s = db) (each (originate_router_lsa_in now) as)" for as by (rule keeps_each)
  then show ?thesis by (auto simp: keeps_def originate_router_lsas_def)
qed

lemma example_setup:
  "\<exists>st. build_v2_setup (\<lambda>_ _ _. True) 0 example_env PuntBackend [] example_config = Ok st \<and> v2_cfg st = example_config \<and>
     map io_sw_if_index (v2_io_interfaces st) = [7] \<and> interfaces (v2_instance st) = [example_up] \<and>
     router_id (v2_instance st) = 0x01010101"
proof -
  let ?s = "(instance_new 0 example_config)\<lparr>interfaces := [example_up]\<rparr>"
  have ifs: "interfaces (instance_new 0 example_config) = [interface_of_config 0 0x01010101 (hd (dc_interfaces example_config))]"
    by (simp add: instance_new_def Let_def example_config_def)
  then have up: "map (bring_up 0 \<circ> snd) (map (setup_interface example_env PuntBackend) (interfaces (instance_new 0 example_config))) = [example_up]"
    by (simp add: example_up_def)
  have "iface_ok example_up" by (rule iface_ok_no_neighbors) simp
  moreover have "if_area_id example_up = 0"
    by (simp add: example_up_def up_op.keeps_area setup_interface_fields) (simp add: interface_of_config_def interface_new_def example_config_def)
  moreover have "0 \<in> set (map fst (areas (instance_new 0 example_config)))"
    by (simp add: instance_new_def Let_def example_config_def ensure_area_def)
  ultimately have "inst_inv ?s" by (intro inst_inv_interfaces inst_inv_new) simp
  moreover have "link_bound (interfaces ?s) \<le> 5459" by (simp add: link_bound_def)
  ultimately obtain rl s1 where s1: "originate_router_lsas 0 ?s = Ok (rl, s1)" and frame: "orig_frame ?s s1"
    using totalD [OF total_router_lsas orig_frame_refl] by blast
  have "as_external_lsdb ?s = lsdb_new 0x01010101"
    by (simp add: instance_new_def Let_def example_config_def)
  then have ext: "as_external_lsdb s1 = lsdb_new 0x01010101"
    using keepsD [OF keeps_ext_router_lsas _ s1] by blast
  have cfg: "redistribute s1 = []" "dc_summary_addresses example_config = []" "\<not> dc_default_originate example_config"
    using frame by (simp_all add: orig_frame_def) (simp_all add: instance_new_def Let_def example_config_def)
  have no_ext: "all_headers 0 (as_external_lsdb s1) = []" by (simp add: ext all_headers_def lsdb_new_def)
  have "start_externals_v2 (\<lambda>_ _ _. True) 0 [] example_config s1 = Ok s1"
    using cfg no_ext by (simp add: start_externals_v2_def originate_external_lsas_def flush_self_externals_outside_def Let_def)
  then have "build_v2_setup (\<lambda>_ _ _. True) 0 example_env PuntBackend [] example_config =
      Ok \<lparr>v2_cfg = example_config, v2_instance = schedule_spf 0 s1,
          v2_io_interfaces = concat (map fst (map (setup_interface example_env PuntBackend) (interfaces (instance_new 0 example_config))))\<rparr>"
    using s1 unfolding build_v2_setup_def Let_def up by simp
  moreover have "map io_sw_if_index (concat (map fst (map (setup_interface example_env PuntBackend) (interfaces (instance_new 0 example_config))))) = [7]"
    unfolding ifs
    by (simp add: setup_interface_def example_env_def interface_of_config_def interface_new_def example_config_def take_vpp_address_def
        io_interface_v2_def Let_def)
  moreover have "router_id (instance_new 0 example_config) = 0x01010101" by (simp add: instance_new_def Let_def example_config_def)
  ultimately show ?thesis using frame by (simp add: orig_frame_def)
qed

lemma example_start:
  "\<exists>s. daemon2_run toy_digests (\<lambda>_ _ _. True) example_config [] s \<and> interfaces s = [example_up] \<and> router_id s = 0x01010101"
  using example_setup daemon2_run.start [of "\<lambda>_ _ _. True" 0 example_env PuntBackend "[]" example_config _ toy_digests] by blast

theorem daemon2_run_inv_witness: "\<exists>s. daemon2_run toy_digests (\<lambda>_ _ _. True) example_config [] s \<and> inst_inv s"
  using example_start daemon2_run_inv [of toy_digests "\<lambda>_ _ _. True" example_config "[]"] by blast

lemma example_hello_sent:
  assumes "interfaces s = [example_up]"
  shows "\<exists>raw s'. arm2_hello toy_digests 0 0 s =
    Ok ([\<lparr>tx_sw_if_index = 7, tx_src_addr = 0x0A000001, tx_dst_addr = ALL_SPF_ROUTERS, tx_data = raw\<rparr>], s') \<and> length raw = 44"
proof -
  have "\<exists>raw. packet_encode (build_hello s example_up) = Ok raw \<and> length raw = 44"
    by (subst packet_encode_eq) (simp_all add: build_hello_def ospf_header_new_def hello_encode_def header_finalize_def Let_def)
  then obtain raw where raw: "packet_encode (build_hello s example_up) = Ok raw" "length raw = 44" by blast
  have hs: "hellos_to_send 0 s (enumerate 0 (interfaces s)) = Ok [(0, 7, 0x0A000001, raw, [ALL_SPF_ROUTERS])]"
    by (simp add: assms hello_due_def raw hello_destinations_def)
  let ?i = "example_up\<lparr>crypto_seq := crypto_seq example_up + 1, next_hello := hello_duration example_up\<rparr>"
  have sent: "send_hellos toy_digests 0 [(0, 7, 0x0A000001, raw, [ALL_SPF_ROUTERS])] s =
      Ok ([\<lparr>tx_sw_if_index = 7, tx_src_addr = 0x0A000001, tx_dst_addr = ALL_SPF_ROUTERS, tx_data = raw\<rparr>], s\<lparr>interfaces := [?i]\<rparr>)"
    by (simp add: update_iface_def assms Let_def hello_duration_def)
  have quiet: "emit_pending_dds 0 0 (s\<lparr>interfaces := [i]\<rparr>) = ([], s\<lparr>interfaces := [i]\<rparr>)"
    "emit_pending_lsrs 0 (s\<lparr>interfaces := [i]\<rparr>) = ([], s\<lparr>interfaces := [i]\<rparr>)" if "neighbors i = []" for i
    using that by (simp_all add: emit_pending_dds_def emit_pending_lsrs_def pending_dds_def due_lsrs_def)
  have "neighbors (wait_timer 0 ?i) = []" "neighbors ?i = []"
    by (simp_all add: wait_timer_def wait_due_def)
  then show ?thesis
    unfolding arm2_hello_def hs using raw(2) by (simp add: quiet sent del: send_hellos.simps)
qed

theorem daemon2_sent_accepted_witness:
  "\<exists>s raw s'. daemon2_run toy_digests (\<lambda>_ _ _. True) example_config [] s \<and>
     arm2_hello toy_digests 0 0 s =
       Ok ([\<lparr>tx_sw_if_index = 7, tx_src_addr = 0x0A000001, tx_dst_addr = ALL_SPF_ROUTERS, tx_data = raw\<rparr>], s') \<and>
     (\<exists>i \<in> set (interfaces s'). sw_if_index i = 7 \<and> if_address i = 0x0A000001 \<and> verify_auth toy_digests raw (auth_key i))"
proof -
  obtain s where run: "daemon2_run toy_digests (\<lambda>_ _ _. True) example_config [] s" and ifs: "interfaces s = [example_up]"
    using example_start by blast
  obtain raw s' where tick: "arm2_hello toy_digests 0 0 s =
      Ok ([\<lparr>tx_sw_if_index = 7, tx_src_addr = 0x0A000001, tx_dst_addr = ALL_SPF_ROUTERS, tx_data = raw\<rparr>], s')" "length raw = 44"
    using example_hello_sent [OF ifs] by blast
  show ?thesis
    using daemon2_sent_accepted [OF wf_toy_digests run daemon2_step.hello [OF tick(1)] list.set_intros(1)] run tick by fastforce
qed


end
