(* ===== verification/Start_Up.thy ===== *)
theory Start_Up
  imports Config_Props Daemon_V2_Runs "HOL-Library.Sublist"
begin

text \<open>
  From the configuration file to the dispatcher: the instances \<^verbatim>\<open>main\<close> starts from the loaded configurations own only
  interfaces of their own VRF, no interface is owned twice, and so every packet is handed to the instance of its VRF.
\<close>

section \<open>Loaded configurations\<close>

lemma from_router_yaml_vrf: "from_router_yaml compile config vrf = Ok cfg \<Longrightarrow> dc_vrf_name cfg = vrf"
  by (auto simp: from_router_yaml_def bindR_eq_Ok_iff split: if_splits)

lemma accepted_iff [simp]: "cfg \<in> set (accepted r) \<longleftrightarrow> r = Ok cfg"
  by (cases r) (auto simp: accepted_def)

lemma loaded_from:
  "cfg \<in> set (load_all compile config) \<Longrightarrow> from_router_yaml compile config (dc_vrf_name cfg) = Ok cfg"
  by (auto simp: load_all_def from_router_yaml_vrf split: if_splits)

lemma accepted_vrf: "map dc_vrf_name (accepted (from_router_yaml compile config vrf)) \<in> {[], [vrf]}"
  by (cases "from_router_yaml compile config vrf") (simp_all add: accepted_def from_router_yaml_vrf)

lemma distinct_concat_at_most_one:
  assumes "distinct (map g xs)" and "\<And>x. f x \<in> {[], [g x]}"
  shows "distinct (concat (map f xs)) \<and> set (concat (map f xs)) \<subseteq> g ` set xs"
  using assms(1)
proof (induction xs)
  case (Cons x xs)
  then have "g x \<notin> set (concat (map f xs))" "set (f x) \<subseteq> {g x}" "distinct (f x)" using assms(2) [of x] by auto
  then show ?case using Cons by (simp only: list.map concat.simps distinct_append set_append) auto
qed simp

lemma loaded_vrfs_distinct:
  assumes "distinct (map ov_name (oc_vrfs (rc_ospf config)))"
  shows "distinct (map dc_vrf_name (load_all compile config))"
proof -
  let ?f = "\<lambda>vrf. map dc_vrf_name (accepted (from_router_yaml compile config vrf))"
  let ?vs = "map (\<lambda>v. Some (ov_name v)) (oc_vrfs (rc_ospf config))"
  have d: "distinct (map id ?vs)" using assms by (simp add: distinct_map inj_on_def)
  note vrfs = distinct_concat_at_most_one [OF d, of ?f, simplified id_apply, OF accepted_vrf]
  have "None \<notin> set (concat (map ?f ?vs))" using vrfs by auto
  moreover have "map dc_vrf_name (load_all compile config) =
      (if oc_enabled (rc_ospf config) then ?f None else []) @ concat (map ?f ?vs)"
    by (simp add: load_all_def map_concat o_def)
  ultimately show ?thesis using vrfs accepted_vrf [of compile config None] by auto
qed

lemma loaded_interface_item:
  assumes "cfg \<in> set (load_all compile config)" and "i \<in> set (dc_interfaces cfg)"
  shows "\<exists>a. (dc_vrf_name cfg, ic_name i, a) \<in> set (ospf_items config)"
proof -
  obtain pd where "interfaces_v2 (dc_vrf_name cfg) pd config = Ok (dc_interfaces cfg)"
    using from_router_yaml_interfaces [OF loaded_from [OF assms(1)]] by blast
  with describes_interfaces_v2 [of "dc_vrf_name cfg" config pd]
  have "map (\<lambda>i. (ic_name i, Ok (ic_area_id i))) (dc_interfaces cfg) =
      map (\<lambda>(v, n, a). (n, parse_area_id_value a)) (in_vrf (dc_vrf_name cfg) (ospf_items config))"
    by (simp add: describes_def)
  from arg_cong [OF this, of set]
  have "(ic_name i, Ok (ic_area_id i)) \<in> (\<lambda>(v, n, a). (n, parse_area_id_value a)) ` set (in_vrf (dc_vrf_name cfg) (ospf_items config))"
    using assms(2) by (force simp only: list.set_map)
  then show ?thesis by (auto simp: in_vrf_def)
qed

section \<open>Owners\<close>

text \<open>\<^verbatim>\<open>main\<close> builds a setup for every configuration and skips those that fail.\<close>

fun v2_setups :: "('c OspfDaemonConfig \<Rightarrow> 'c V2Setup parsed) \<Rightarrow> 'c OspfDaemonConfig list \<Rightarrow> 'c V2Setup list parsed" where
  "v2_setups build [] = Ok []"
| "v2_setups build (cfg # cfgs) =
     (case build cfg of
        Ok s \<Rightarrow> bindR (v2_setups build cfgs) (\<lambda>ss. Ok (s # ss))
      | Err e \<Rightarrow> v2_setups build cfgs
      | Panic \<Rightarrow> Panic)"

lemma setup_interface_owner:
  "io \<in> set (fst (setup_interface e backend i)) \<Longrightarrow>
   \<exists>vi \<in> set (ev_vpp e). vd_interface_name vi = if_name i \<and> vd_sw_if_index vi = io_sw_if_index io"
  by (auto simp: setup_interface_def io_interface_v2_def take_vpp_address_def Let_def find_Some_iff
      split: option.splits IoBackend.splits prod.splits)

lemma build_setup_owner:
  assumes "build_v2_setup ev now e backend discovered cfg = Ok st" and "owns sw st"
  shows "v2_cfg st = cfg \<and> (\<exists>i \<in> set (dc_interfaces cfg). \<exists>vi \<in> set (ev_vpp e).
    vd_interface_name vi = ic_name i \<and> vd_sw_if_index vi = sw)"
proof -
  have st: "v2_cfg st = cfg"
      "v2_io_interfaces st = concat (map fst (map (setup_interface e backend) (interfaces (instance_new now cfg))))"
    using assms(1) by (auto simp: build_v2_setup_def Let_def bindR_eq_Ok_iff)
  obtain io j where j: "j \<in> set (interfaces (instance_new now cfg))" "io \<in> set (fst (setup_interface e backend j))" "io_sw_if_index io = sw"
    using assms(2) by (auto simp: owns_def list_ex_iff st(2))
  obtain i where "i \<in> set (dc_interfaces cfg)" "if_name j = ic_name i"
    using j(1) by (auto simp: instance_new_def Let_def interface_of_config_def interface_new_def)
  then show ?thesis using setup_interface_owner [OF j(2)] j(3) st(1) by fastforce
qed

lemma v2_setups_built:
  assumes "v2_setups build cfgs = Ok setups" and "\<And>cfg st. build cfg = Ok st \<Longrightarrow> v2_cfg st = cfg"
  shows "subseq (map v2_cfg setups) cfgs \<and> list_all (\<lambda>st. build (v2_cfg st) = Ok st) setups"
  using assms(1)
proof (induction cfgs arbitrary: setups)
  case (Cons cfg cfgs)
  then show ?case
    using assms(2) [of cfg] by (auto simp: bindR_eq_Ok_iff split: outcome.splits intro: list_emb_Cons)
qed simp

text \<open>
  C22. VRF isolation, from the configuration file to the dispatcher. Let the interfaces that run OSPF have different names in the
  file, the VRF blocks too, and let VPP number its interfaces differently. After start-up the dispatcher hands a received packet to an
  instance exactly if that instance owns the receiving interface and its task still runs, so at most one instance does; and the
  instance is that of the VRF in which the file puts the interface.
\<close>

theorem packets_reach_their_vrf:
  assumes "distinct (map (\<lambda>it. fst (snd it)) (ospf_items config))" and "distinct (map ov_name (oc_vrfs (rc_ospf config)))"
    and "distinct (map vd_sw_if_index (ev_vpp e))" and "length senders = length setups"
    and "v2_setups (\<lambda>cfg. build_v2_setup ev (now cfg) e backend (discovered cfg) cfg) (load_all compile config) = Ok setups"
  shows "(dispatch_one (iface_to_idx setups) senders pkt = Ok (Some k) \<longleftrightarrow>
      k < length setups \<and> owns (rx_sw_if_index pkt) (setups ! k) \<and> senders ! k) \<and>
    (dispatch_one (iface_to_idx setups) senders pkt = Ok (Some k) \<longrightarrow>
      (\<exists>name area. \<exists>vi \<in> set (ev_vpp e). (dc_vrf_name (v2_cfg (setups ! k)), name, area) \<in> set (ospf_items config) \<and>
        vd_interface_name vi = name \<and> vd_sw_if_index vi = rx_sw_if_index pkt))"
proof -
  let ?sw = "rx_sw_if_index pkt" and ?build = "\<lambda>cfg. build_v2_setup ev (now cfg) e backend (discovered cfg) cfg"
  have "v2_cfg st = cfg" if "?build cfg = Ok st" for cfg st
    using that by (auto simp: build_v2_setup_def Let_def bindR_eq_Ok_iff)
  note built = v2_setups_built [OF assms(5) this]
  have "distinct (map dc_vrf_name (map v2_cfg setups))"
    using subseqs_distinctD [OF _ loaded_vrfs_distinct [OF assms(2)]] subseq_map [OF conjunct1 [OF built], of dc_vrf_name] by simp
  then have vrfs: "j = k" if "j < length setups" "k < length setups"
      "dc_vrf_name (v2_cfg (setups ! j)) = dc_vrf_name (v2_cfg (setups ! k))" for j k
    using that nth_eq_iff_index_eq [of "map (\<lambda>st. dc_vrf_name (v2_cfg st)) setups" j k] by (simp add: o_def)
  have owner: "\<exists>area. \<exists>vi \<in> set (ev_vpp e). (dc_vrf_name (v2_cfg (setups ! k)), vd_interface_name vi, area) \<in> set (ospf_items config) \<and>
      vd_sw_if_index vi = ?sw" if "k < length setups" "owns ?sw (setups ! k)" for k
  proof -
    have "setups ! k \<in> set setups" using that(1) by simp
    then have "?build (v2_cfg (setups ! k)) = Ok (setups ! k)" "v2_cfg (setups ! k) \<in> set (load_all compile config)"
      using built list_emb_set [of "(=)" "map v2_cfg setups" "load_all compile config"] by (auto simp: list_all_iff)
    then show ?thesis using build_setup_owner [OF _ that(2)] loaded_interface_item by metis
  qed
  have unique: "j = k" if "j < length setups" "owns ?sw (setups ! j)" "k < length setups" "owns ?sw (setups ! k)" for j k
  proof -
    note both = owner [OF that(1,2)] owner [OF that(3,4)]
    obtain a vi b vj where "vi \<in> set (ev_vpp e)" "vd_sw_if_index vi = ?sw" "vj \<in> set (ev_vpp e)" "vd_sw_if_index vj = ?sw"
      and items: "(dc_vrf_name (v2_cfg (setups ! k)), vd_interface_name vi, a) \<in> set (ospf_items config)"
        "(dc_vrf_name (v2_cfg (setups ! j)), vd_interface_name vj, b) \<in> set (ospf_items config)"
      using both by blast
    then have "vi = vj" using assms(3) by (metis distinct_map inj_onD)
    then have "dc_vrf_name (v2_cfg (setups ! k)) = dc_vrf_name (v2_cfg (setups ! j))"
      using inj_onD [OF conjunct2 [OF assms(1) [unfolded distinct_map]] _ items] by simp
    then show ?thesis using vrfs that(1,3) by metis
  qed
  let ?owners = "filter (\<lambda>k. owns ?sw (setups ! k)) [0..<length setups]"
  have last: "last ?owners = k" "?owners \<noteq> []" if "k < length setups" "owns ?sw (setups ! k)" for k
  proof -
    show "?owners \<noteq> []" using that by (auto simp: filter_empty_conv)
    from last_in_set [OF this] unique that show "last ?owners = k" by simp
  qed
  have in_range: "last ?owners < length setups" "owns ?sw (setups ! last ?owners)" if "?owners \<noteq> []"
    using last_in_set [OF that] by simp_all
  have iff: "dispatch_one (iface_to_idx setups) senders pkt = Ok (Some k) \<longleftrightarrow> k < length setups \<and> owns ?sw (setups ! k) \<and> senders ! k"
    using last [of k] in_range assms(4) by (auto simp: dispatch_one_def map_of_iface_to_idx Let_def split: if_splits)
  then show ?thesis using owner [of k] by blast
qed

section \<open>Witness\<close>

theorem packets_reach_their_vrf_witness:
  "\<exists>st. v2_setups (build_v2_setup (\<lambda>_ _ _. True) 0 example_env PuntBackend []) (load_all accept_map (example_file [] [])) = Ok [st] \<and>
     dispatch_one (iface_to_idx [st]) [True] \<lparr>rx_sw_if_index = 7, rx_src_addr = 0, rx_dst_addr = 0, rx_data = []\<rparr> = Ok (Some 0)"
proof -
  obtain st where st: "build_v2_setup (\<lambda>_ _ _. True) 0 example_env PuntBackend [] example_config = Ok st"
      "map io_sw_if_index (v2_io_interfaces st) = [7]"
    using example_setup by (elim exE conjE) (rule that)
  have up: "v2_setups (build_v2_setup (\<lambda>_ _ _. True) 0 example_env PuntBackend []) (load_all accept_map (example_file [] [])) = Ok [st]"
    by (simp add: example_loaded st)
  have "owns 7 st" using st(2) by (auto simp: owns_def map_eq_Cons_conv)
  moreover have "ospf_items (example_file [] []) = [(None, ''e0'', YamlNumber (Some 0))]" by (rule example_items)
  moreover have "oc_vrfs (rc_ospf (example_file [] [])) = []" by (simp add: example_file_def example_block_def)
  moreover have "distinct (map vd_sw_if_index (ev_vpp example_env))" by (simp add: example_env_def)
  ultimately show ?thesis
    using packets_reach_their_vrf [of "example_file [] []" example_env "[True]" "[st]" "\<lambda>_ _ _. True" "\<lambda>_. 0" PuntBackend
        "\<lambda>_. []" accept_map "\<lparr>rx_sw_if_index = 7, rx_src_addr = 0, rx_dst_addr = 0, rx_data = []\<rparr>" 0] up
    by (simp del: v2_setups.simps)
qed

end
