(* ===== verification/Control.thy ===== *)
theory Control
  imports Origination Inv_V3 Text_Addr "HOL-Library.Char_ord" "HOL-Library.List_Lexorder" "HOL-Library.Product_Lexorder"
begin

text \<open>
  \<^verbatim>\<open>src/control.rs\<close>: the queries of the control socket. A request is answered from a snapshot of an instance; addresses, states and
  types are rendered as text. The socket and the JSON on it belong to the runtime and to serde. A database reply does not depend on
  the order in which the hash maps are walked.
\<close>

section \<open>Requests and replies\<close>

datatype ControlRequest =
    ReqStatus | ReqNeighbors | ReqInterfaces | ReqDatabase "string option" "string option" | ReqRoutes
  | ReqStatus6 | ReqNeighbors6 | ReqInterfaces6 | ReqDatabase6 "string option" "string option" | ReqRoutes6

record Route6NextHop =
  r6n_address :: string
  r6n_sw_if_index :: u32

record Route6Status =
  r6_prefix :: string
  r6_prefix_len :: u8
  r6_cost :: u32
  r6_next_hops :: "Route6NextHop list"

record SummaryAddressStatus =
  sst_prefix :: string
  sst_no_advertise :: bool
  sst_tag :: u32
  sst_metric :: u32
  sst_metric_type :: u8

record AreaStatus =
  as_area_id :: string
  as_lsa_count :: nat
  as_interface_count :: nat
  as_fully_adjacent :: nat

record StatusReply =
  st_vrf_name :: "string option"
  st_router_id :: string
  st_areas :: "AreaStatus list"
  st_is_abr :: bool
  st_as_external_lsa_count :: nat
  st_installed_route_count :: nat
  st_summary_addresses :: "SummaryAddressStatus list"

record NeighborStatus =
  ns_router_id :: string
  ns_address :: string
  ns_interface :: string
  ns_area_id :: string
  ns_state :: string
  ns_priority :: u8
  ns_dr :: string
  ns_bdr :: string
  ns_dead_seconds_remaining :: nat

record InterfaceStatus =
  is_name :: string
  is_sw_if_index :: u32
  is_address :: string
  is_mask :: string
  is_area_id :: string
  is_state :: string
  is_network_type :: string
  is_cost :: u16
  is_priority :: u8
  is_hello_interval :: u16
  is_dead_interval :: u32
  is_dr :: string
  is_bdr :: string
  is_neighbor_count :: nat

record LsaSummary =
  ls_area_id :: string
  ls_ls_type :: string
  ls_link_state_id :: string
  ls_advertising_router :: string
  ls_ls_age :: u16
  ls_ls_sequence_number :: i32
  ls_length :: u16
  ls_self_originated :: bool

record RouteStatus =
  rs_prefix :: string
  rs_prefix_len :: u8
  rs_next_hop :: string
  rs_sw_if_index :: u32
  rs_cost :: u32

datatype ControlResponse =
    RespStatus StatusReply | RespNeighbors "NeighborStatus list" | RespInterfaces "InterfaceStatus list"
  | RespDatabase "LsaSummary list" | RespRoutes "RouteStatus list"
  | RespStatus6 StatusReply | RespNeighbors6 "NeighborStatus list" | RespInterfaces6 "InterfaceStatus list"
  | RespDatabase6 "LsaSummary list" | RespRoutes6 "Route6Status list"
  | RespError string

section \<open>Text of addresses, states and types\<close>

text \<open>\<^verbatim>\<open>{:x}\<close>.\<close>

definition hex_char :: "nat \<Rightarrow> char" where
  "hex_char d = char_of (if d < 10 then 48 + d else 87 + d)"

fun hexadecimal :: "nat \<Rightarrow> string" where
  "hexadecimal n = (if n < 16 then [hex_char n] else hexadecimal (n div 16) @ [hex_char (n mod 16)])"

declare hexadecimal.simps [simp del]

text \<open>
  \<^verbatim>\<open>Display\<close> of an \<^verbatim>\<open>Ipv6Addr\<close>: an IPv4-mapped address with its IPv4 part, else the segments with the first longest
  run of two or more zeros left out.
\<close>

definition segments6 :: "ipv6 \<Rightarrow> u16 list" where
  "segments6 a = map (\<lambda>i. ucast (drop_bit (16 * (7 - i)) a)) [0..<8]"

text \<open>The loop has the longest run so far and the current run, each with start and length.\<close>

fun zero_run :: "nat \<Rightarrow> nat \<times> nat \<Rightarrow> nat \<times> nat \<Rightarrow> u16 list \<Rightarrow> nat \<times> nat" where
  "zero_run i longest current [] = longest"
| "zero_run i longest current (s # ss) =
     (if s = 0 then
        (let current = (if snd current = 0 then i else fst current, snd current + 1)
         in zero_run (i + 1) (if snd current > snd longest then current else longest) current ss)
      else zero_run (i + 1) longest (0, 0) ss)"

fun join_segments :: "u16 list \<Rightarrow> string" where
  "join_segments [] = []"
| "join_segments [s] = hexadecimal (unat s)"
| "join_segments (s # ss) = hexadecimal (unat s) @ '':'' @ join_segments ss"

definition ipv6_to_string :: "ipv6 \<Rightarrow> string" where
  "ipv6_to_string a =
     (let segs = segments6 a
      in if take 6 segs = [0, 0, 0, 0, 0, 0xFFFF] then ''::ffff:'' @ ipv4_to_string (ucast a)
         else
           (let (start, len) = zero_run 0 (0, 0) (0, 0) segs
            in if len > 1 then join_segments (take start segs) @ ''::'' @ join_segments (drop (start + len) segs)
               else join_segments segs))"

fun neighbor_state_string :: "NeighborState \<Rightarrow> string" where
  "neighbor_state_string Down = ''Down''"
| "neighbor_state_string Attempt = ''Attempt''"
| "neighbor_state_string Init = ''Init''"
| "neighbor_state_string TwoWay = ''2-Way''"
| "neighbor_state_string ExStart = ''ExStart''"
| "neighbor_state_string Exchange = ''Exchange''"
| "neighbor_state_string Loading = ''Loading''"
| "neighbor_state_string Full = ''Full''"

fun interface_state_string :: "InterfaceState \<Rightarrow> string" where
  "interface_state_string If_Down = ''Down''"
| "interface_state_string Loopback = ''Loopback''"
| "interface_state_string Waiting = ''Waiting''"
| "interface_state_string If_PointToPoint = ''Point-to-Point''"
| "interface_state_string DROther = ''DROther''"
| "interface_state_string Backup = ''Backup''"
| "interface_state_string DR = ''DR''"

text \<open>The derived \<^verbatim>\<open>Debug\<close> prints the name of the constructor.\<close>

fun network_type_debug :: "NetworkType \<Rightarrow> string" where
  "network_type_debug Broadcast = ''Broadcast''"
| "network_type_debug PointToPoint = ''PointToPoint''"
| "network_type_debug NonBroadcast = ''NonBroadcast''"
| "network_type_debug PointToMultipoint = ''PointToMultipoint''"

fun lsa_type_debug :: "LsaType \<Rightarrow> string" where
  "lsa_type_debug Router = ''Router''"
| "lsa_type_debug Network = ''Network''"
| "lsa_type_debug SummaryNetwork = ''SummaryNetwork''"
| "lsa_type_debug SummaryAsbr = ''SummaryAsbr''"
| "lsa_type_debug AsExternal = ''AsExternal''"

fun neighbor_state3_debug :: "NeighborStateV3 \<Rightarrow> string" where
  "neighbor_state3_debug DownV3 = ''Down''"
| "neighbor_state3_debug InitV3 = ''Init''"
| "neighbor_state3_debug TwoWayV3 = ''TwoWay''"
| "neighbor_state3_debug ExStartV3 = ''ExStart''"
| "neighbor_state3_debug ExchangeV3 = ''Exchange''"
| "neighbor_state3_debug LoadingV3 = ''Loading''"
| "neighbor_state3_debug FullV3 = ''Full''"

fun interface_state3_debug :: "InterfaceStateV3 \<Rightarrow> string" where
  "interface_state3_debug IfDownV3 = ''Down''"
| "interface_state3_debug WaitingV3 = ''Waiting''"
| "interface_state3_debug DRV3 = ''DR''"
| "interface_state3_debug BackupV3 = ''Backup''"
| "interface_state3_debug DROtherV3 = ''DROther''"
| "interface_state3_debug PointToPointV3 = ''PointToPoint''"

fun network_type3_debug :: "NetworkTypeV3 \<Rightarrow> string" where
  "network_type3_debug NetBroadcastV3 = ''Broadcast''"
| "network_type3_debug NetPointToPointV3 = ''PointToPoint''"
| "network_type3_debug NetNonBroadcastV3 = ''NonBroadcast''"
| "network_type3_debug NetPointToMultipointV3 = ''PointToMultipoint''"

fun lsa_type3_debug :: "LsaV3Type \<Rightarrow> string" where
  "lsa_type3_debug RouterV3 = ''Router''"
| "lsa_type3_debug NetworkV3 = ''Network''"
| "lsa_type3_debug InterAreaPrefixV3 = ''InterAreaPrefix''"
| "lsa_type3_debug InterAreaRouterV3 = ''InterAreaRouter''"
| "lsa_type3_debug AsExternalV3 = ''AsExternal''"
| "lsa_type3_debug NssaV3 = ''Nssa''"
| "lsa_type3_debug LinkV3 = ''Link''"
| "lsa_type3_debug IntraAreaPrefixV3 = ''IntraAreaPrefix''"

section \<open>OSPFv2 queries\<close>

definition area_interfaces :: "'c OspfInstance \<Rightarrow> ipv4 \<Rightarrow> OspfInterface list" where
  "area_interfaces s aid = filter (\<lambda>i. if_area_id i = aid) (interfaces s)"

definition area_status :: "'c OspfInstance \<Rightarrow> ipv4 \<times> Area \<Rightarrow> AreaStatus" where
  "area_status s = (\<lambda>(aid, a).
     \<lparr>as_area_id = ipv4_to_string aid, as_lsa_count = length (entries (lsdb a)),
      as_interface_count = length (area_interfaces s aid),
      as_fully_adjacent =
        length (filter (\<lambda>n. n_state n = Full) (concat (map (\<lambda>i. map snd (neighbors i)) (area_interfaces s aid))))\<rparr>)"

definition summary_address_status :: "ParsedSummaryAddress \<Rightarrow> SummaryAddressStatus" where
  "summary_address_status a =
     \<lparr>sst_prefix = ipv4_to_string (sa_prefix a) @ ''/'' @ decimal (unat (sa_prefix_len a)), sst_no_advertise = sa_no_advertise a,
      sst_tag = sa_tag a, sst_metric = sa_metric a, sst_metric_type = sa_metric_type a\<rparr>"

definition collect_status :: "'c OspfInstance \<Rightarrow> StatusReply" where
  "collect_status s =
     \<lparr>st_vrf_name = vrf_name s, st_router_id = ipv4_to_string (router_id s),
      st_areas = sort_key as_area_id (map (area_status s) (areas s)), st_is_abr = is_abr s,
      st_as_external_lsa_count = length (entries (as_external_lsdb s)), st_installed_route_count = route_count (rib s),
      st_summary_addresses = map summary_address_status (summary_addresses s)\<rparr>"

definition dead_remaining :: "nat \<Rightarrow> instant \<Rightarrow> instant \<Rightarrow> nat" where
  "dead_remaining dead now heard = (dead - saturating_duration_since now heard) div 1000"

definition neighbor_status :: "instant \<Rightarrow> OspfInterface \<Rightarrow> Neighbor \<Rightarrow> NeighborStatus" where
  "neighbor_status now i n =
     \<lparr>ns_router_id = ipv4_to_string (n_router_id n), ns_address = ipv4_to_string (n_address n), ns_interface = if_name i,
      ns_area_id = ipv4_to_string (if_area_id i), ns_state = neighbor_state_string (n_state n), ns_priority = n_priority n,
      ns_dr = ipv4_to_string (n_dr n), ns_bdr = ipv4_to_string (n_bdr n),
      ns_dead_seconds_remaining = dead_remaining (dead_duration i) now (last_heard n)\<rparr>"

definition collect_neighbors :: "instant \<Rightarrow> 'c OspfInstance \<Rightarrow> NeighborStatus list" where
  "collect_neighbors now s =
     sort_key ns_router_id (concat (map (\<lambda>i. map (\<lambda>(_, n). neighbor_status now i n) (neighbors i)) (interfaces s)))"

definition interface_status :: "OspfInterface \<Rightarrow> InterfaceStatus" where
  "interface_status i =
     \<lparr>is_name = if_name i, is_sw_if_index = sw_if_index i, is_address = ipv4_to_string (if_address i),
      is_mask = ipv4_to_string (if_mask i), is_area_id = ipv4_to_string (if_area_id i), is_state = interface_state_string (if_state i),
      is_network_type = network_type_debug (network_type i), is_cost = if_cost i, is_priority = if_priority i,
      is_hello_interval = hello_interval i, is_dead_interval = dead_interval i, is_dr = ipv4_to_string (if_dr i),
      is_bdr = ipv4_to_string (if_bdr i), is_neighbor_count = length (neighbors i)\<rparr>"

definition collect_interfaces :: "'c OspfInstance \<Rightarrow> InterfaceStatus list" where
  "collect_interfaces s = map interface_status (interfaces s)"

text \<open>A filter is lower-cased as ASCII text.\<close>

definition matches_ls_type :: "LsaType \<Rightarrow> string \<Rightarrow> bool" where
  "matches_ls_type t f =
     (let f = map ascii_lower f
      in if f \<in> {''router'', ''1''} then t = Router
         else if f \<in> {''network'', ''2''} then t = Network
         else if f \<in> {''summary'', ''summary-network'', ''3''} then t = SummaryNetwork
         else if f \<in> {''summary-asbr'', ''4''} then t = SummaryAsbr
         else if f \<in> {''external'', ''as-external'', ''5''} then t = AsExternal
         else False)"

definition lsa_summary :: "instant \<Rightarrow> string \<Rightarrow> LsdbEntry \<Rightarrow> LsaSummary" where
  "lsa_summary now area e =
     (let h = header (entry_lsa e)
      in \<lparr>ls_area_id = area, ls_ls_type = lsa_type_debug (ls_type h), ls_link_state_id = ipv4_to_string (link_state_id h),
          ls_advertising_router = ipv4_to_string (advertising_router h), ls_ls_age = current_age now e,
          ls_ls_sequence_number = ls_sequence_number h, ls_length = h_length h, ls_self_originated = self_originated e\<rparr>)"

definition type_selected :: "string option \<Rightarrow> LsdbEntry \<Rightarrow> bool" where
  "type_selected f e = (case f of None \<Rightarrow> True | Some t \<Rightarrow> matches_ls_type (ls_type (header (entry_lsa e))) t)"

definition db_summaries :: "instant \<Rightarrow> string option \<Rightarrow> string \<Rightarrow> Lsdb \<Rightarrow> LsaSummary list" where
  "db_summaries now f area db = map (\<lambda>(_, e). lsa_summary now area e) (filter (\<lambda>(_, e). type_selected f e) (entries db))"

definition lsa_order :: "LsaSummary \<Rightarrow> string \<times> string \<times> string \<times> string" where
  "lsa_order l = (ls_area_id l, ls_ls_type l, ls_link_state_id l, ls_advertising_router l)"

definition collect_database :: "instant \<Rightarrow> string option \<Rightarrow> string option \<Rightarrow> 'c OspfInstance \<Rightarrow> LsaSummary list" where
  "collect_database now area_filter type_filter s =
     sort_key lsa_order
       (concat (map (\<lambda>(aid, a).
          if area_filter \<notin> {None, Some (ipv4_to_string aid)} then []
          else db_summaries now type_filter (ipv4_to_string aid) (lsdb a)) (areas s)) @
        (if area_filter \<in> {None, Some ''external''} then db_summaries now type_filter ''external'' (as_external_lsdb s) else []))"

definition route_status :: "SpfRoute \<Rightarrow> RouteStatus" where
  "route_status r =
     \<lparr>rs_prefix = ipv4_to_string (prefix r), rs_prefix_len = prefix_len r, rs_next_hop = ipv4_to_string (next_hop r),
      rs_sw_if_index = route_sw_if_index r, rs_cost = route_cost r\<rparr>"

definition collect_routes :: "'c OspfInstance \<Rightarrow> RouteStatus list" where
  "collect_routes s = map route_status (installed_routes (rib s))"

definition handle_request :: "instant \<Rightarrow> ControlRequest \<Rightarrow> 'c OspfInstance \<Rightarrow> ControlResponse" where
  "handle_request now req s =
     (case req of
        ReqStatus \<Rightarrow> RespStatus (collect_status s)
      | ReqNeighbors \<Rightarrow> RespNeighbors (collect_neighbors now s)
      | ReqInterfaces \<Rightarrow> RespInterfaces (collect_interfaces s)
      | ReqDatabase area t \<Rightarrow> RespDatabase (collect_database now area t s)
      | ReqRoutes \<Rightarrow> RespRoutes (collect_routes s)
      | _ \<Rightarrow> RespError ''not a v2 request'')"

section \<open>OSPFv3 queries\<close>

text \<open>One bucket per area: the number of interfaces and of Full neighbors.\<close>

definition count_bucket :: "InterfaceV3 \<Rightarrow> (ipv4 \<times> nat \<times> nat) list \<Rightarrow> (ipv4 \<times> nat \<times> nat) list" where
  "count_bucket i m =
     (let (ifs, full) = (case map_of m (if3_area_id i) of Some b \<Rightarrow> b | None \<Rightarrow> (0, 0))
      in AList.update (if3_area_id i) (ifs + 1, full + length (filter (\<lambda>(_, n). nb3_state n = FullV3) (if3_neighbors i))) m)"

definition summary_address_status6 :: "ParsedSummaryAddress6 \<Rightarrow> SummaryAddressStatus" where
  "summary_address_status6 a =
     \<lparr>sst_prefix = ipv6_to_string (s6_prefix a) @ ''/'' @ decimal (unat (s6_prefix_len a)), sst_no_advertise = s6_no_advertise a,
      sst_tag = s6_tag a, sst_metric = s6_metric a, sst_metric_type = s6_metric_type a\<rparr>"

definition collect_status_v3 :: "'c InstanceV3 \<Rightarrow> StatusReply" where
  "collect_status_v3 s =
     (let areas_map = fold count_bucket (map snd (i3_interfaces s)) []
      in \<lparr>st_vrf_name = i3_vrf_name s, st_router_id = ipv4_to_string (i3_router_id s),
          st_areas = sort_key as_area_id (map (\<lambda>(aid, ifs, full).
            \<lparr>as_area_id = ipv4_to_string aid, as_lsa_count = lsdb3_len (i3_lsdb s), as_interface_count = ifs,
             as_fully_adjacent = full\<rparr>) areas_map),
          st_is_abr = False,
          st_as_external_lsa_count = length (filter (\<lambda>e. l3_type (e3_header e) = AsExternalV3) (lsdb3_iter (i3_lsdb s))),
          st_installed_route_count = i3_installed_route_count s,
          st_summary_addresses = map summary_address_status6 (i3_summary_addresses s)\<rparr>)"

definition neighbor_status3 :: "instant \<Rightarrow> InterfaceV3 \<Rightarrow> NeighborV3 \<Rightarrow> NeighborStatus" where
  "neighbor_status3 now i n =
     \<lparr>ns_router_id = ipv4_to_string (nb3_router_id n), ns_address = ipv6_to_string (nb3_link_local n),
      ns_interface = io3_name (if3_io i), ns_area_id = ipv4_to_string (if3_area_id i), ns_state = neighbor_state3_debug (nb3_state n),
      ns_priority = nb3_priority n, ns_dr = ipv4_to_string (nb3_dr n), ns_bdr = ipv4_to_string (nb3_bdr n),
      ns_dead_seconds_remaining = dead_remaining (1000 * unat (if3_dead_interval i)) now (nb3_last_hello n)\<rparr>"

definition collect_neighbors_v3 :: "instant \<Rightarrow> 'c InstanceV3 \<Rightarrow> NeighborStatus list" where
  "collect_neighbors_v3 now s =
     sort_key ns_router_id
       (concat (map (\<lambda>(_, i). map (\<lambda>(_, n). neighbor_status3 now i n) (if3_neighbors i)) (i3_interfaces s)))"

definition interface_status3 :: "InterfaceV3 \<Rightarrow> InterfaceStatus" where
  "interface_status3 i =
     \<lparr>is_name = io3_name (if3_io i), is_sw_if_index = io3_sw_if_index (if3_io i), is_address = ipv6_to_string (io3_link_local (if3_io i)),
      is_mask = [], is_area_id = ipv4_to_string (if3_area_id i), is_state = interface_state3_debug (if3_state i),
      is_network_type = network_type3_debug (if3_network_type i), is_cost = if3_cost i, is_priority = if3_priority i,
      is_hello_interval = if3_hello_interval i, is_dead_interval = ucast (if3_dead_interval i), is_dr = ipv4_to_string (if3_dr i),
      is_bdr = ipv4_to_string (if3_bdr i), is_neighbor_count = length (if3_neighbors i)\<rparr>"

definition collect_interfaces_v3 :: "'c InstanceV3 \<Rightarrow> InterfaceStatus list" where
  "collect_interfaces_v3 s = map (\<lambda>(_, i). interface_status3 i) (i3_interfaces s)"

definition matches_ls_type_v3 :: "LsaV3Type \<Rightarrow> string \<Rightarrow> bool" where
  "matches_ls_type_v3 t f =
     (let f = map ascii_lower f
      in if f \<in> {''router'', ''1''} then t = RouterV3
         else if f \<in> {''network'', ''2''} then t = NetworkV3
         else if f \<in> {''inter-area-prefix'', ''inter-area'', ''3''} then t = InterAreaPrefixV3
         else if f \<in> {''inter-area-router'', ''4''} then t = InterAreaRouterV3
         else if f \<in> {''external'', ''as-external'', ''5''} then t = AsExternalV3
         else if f \<in> {''nssa'', ''7''} then t = NssaV3
         else if f \<in> {''link'', ''8''} then t = LinkV3
         else if f \<in> {''intra-area-prefix'', ''9''} then t = IntraAreaPrefixV3
         else False)"

definition selected3 :: "string option \<Rightarrow> string option \<Rightarrow> LsaEntryV3 \<Rightarrow> bool" where
  "selected3 area_filter type_filter e =
     ((case type_filter of None \<Rightarrow> True | Some t \<Rightarrow> matches_ls_type_v3 (l3_type (e3_header e)) t) \<and>
      (if area_filter = Some ''external'' then l3_type (e3_header e) = AsExternalV3 else True))"

definition lsa_summary3 :: "ipv4 \<Rightarrow> LsaEntryV3 \<Rightarrow> LsaSummary" where
  "lsa_summary3 rid e =
     (let h = e3_header e
      in \<lparr>ls_area_id =
            (if l3_type h = AsExternalV3 then ''external''
             else if l3_type h = LinkV3 then ''link:'' @ ipv4_to_string (l3_lsid h)
             else ''0.0.0.0''),
          ls_ls_type = lsa_type3_debug (l3_type h), ls_link_state_id = ipv4_to_string (l3_lsid h),
          ls_advertising_router = ipv4_to_string (l3_adv h), ls_ls_age = l3_age h, ls_ls_sequence_number = l3_seq h,
          ls_length = l3_length h, ls_self_originated = (l3_adv h = rid)\<rparr>)"

definition lsa_order3 :: "LsaSummary \<Rightarrow> string \<times> string \<times> string" where
  "lsa_order3 l = (ls_ls_type l, ls_link_state_id l, ls_advertising_router l)"

definition collect_database_v3 :: "string option \<Rightarrow> string option \<Rightarrow> 'c InstanceV3 \<Rightarrow> LsaSummary list" where
  "collect_database_v3 area_filter type_filter s =
     sort_key lsa_order3
       (map (lsa_summary3 (i3_router_id s)) (filter (selected3 area_filter type_filter) (lsdb3_iter (i3_lsdb s))))"

definition route6_status :: "Ospfv3Route \<Rightarrow> Route6Status" where
  "route6_status r =
     \<lparr>r6_prefix = ipv6_to_string (ro3_prefix r), r6_prefix_len = ro3_prefix_len r, r6_cost = ro3_cost r,
      r6_next_hops = map (\<lambda>(nh, swi). \<lparr>r6n_address = ipv6_to_string nh, r6n_sw_if_index = swi\<rparr>) (ro3_next_hops r)\<rparr>"

text \<open>The order of ties in the heap is a parameter, as in the calculation itself.\<close>

definition collect_routes_v3 :: "(nat \<Rightarrow> nat) \<Rightarrow> 'c InstanceV3 \<Rightarrow> Route6Status list" where
  "collect_routes_v3 tie s = map route6_status (calculate_spf_v3 tie (i3_router_id s) (i3_lsdb s) (spf_neighbors_v3 s))"

definition handle_request_v3 :: "(nat \<Rightarrow> nat) \<Rightarrow> instant \<Rightarrow> ControlRequest \<Rightarrow> 'c InstanceV3 \<Rightarrow> ControlResponse" where
  "handle_request_v3 tie now req s =
     (case req of
        ReqStatus6 \<Rightarrow> RespStatus6 (collect_status_v3 s)
      | ReqNeighbors6 \<Rightarrow> RespNeighbors6 (collect_neighbors_v3 now s)
      | ReqInterfaces6 \<Rightarrow> RespInterfaces6 (collect_interfaces_v3 s)
      | ReqDatabase6 area t \<Rightarrow> RespDatabase6 (collect_database_v3 area t s)
      | ReqRoutes6 \<Rightarrow> RespRoutes6 (collect_routes_v3 tie s)
      | _ \<Rightarrow> RespError ''not a v3 request'')"

section \<open>Dispatch\<close>

definition is_v3_request :: "ControlRequest \<Rightarrow> bool" where
  "is_v3_request req =
     (case req of ReqStatus6 \<Rightarrow> True | ReqNeighbors6 \<Rightarrow> True | ReqInterfaces6 \<Rightarrow> True | ReqDatabase6 _ _ \<Rightarrow> True | ReqRoutes6 \<Rightarrow> True
      | _ \<Rightarrow> False)"

text \<open>The answer to one line: \<open>Inl\<close> is the message of the deserialiser.\<close>

definition respond :: "(nat \<Rightarrow> nat) \<Rightarrow> instant \<Rightarrow> 'c OspfInstance \<Rightarrow> 'c InstanceV3 option \<Rightarrow> string + ControlRequest \<Rightarrow> ControlResponse" where
  "respond tie now s s3 parsed =
     (case parsed of
        Inr req \<Rightarrow>
          if is_v3_request req then
            (case s3 of Some v3 \<Rightarrow> handle_request_v3 tie now req v3 | None \<Rightarrow> RespError ''OSPFv3 not enabled'')
          else handle_request now req s
      | Inl e \<Rightarrow> RespError (''invalid request: '' @ e))"

section \<open>Database replies\<close>

lemma inj_ipv4_to_string: "inj ipv4_to_string"
  by (rule injI) (metis ipv4_text_canonical option.inject)

lemma ipv4_string_not_external: "ipv4_to_string a \<noteq> ''external''"
proof -
  have "ipv4_from_str ''external'' = None" by code_simp
  then show ?thesis by (metis ipv4_text_canonical option.distinct(1))
qed

lemma inj_lsa_type_debug: "inj lsa_type_debug"
proof (rule injI)
  fix x y assume "lsa_type_debug x = lsa_type_debug y"
  then show "x = y" by (cases x; cases y) simp_all
qed

text \<open>The part of the order that comes from the key of an LSA.\<close>

definition key_text :: "LsaKey \<Rightarrow> string \<times> string \<times> string" where
  "key_text k = (lsa_type_debug (key_type k), ipv4_to_string (key_lsid k), ipv4_to_string (key_adv k))"

lemma inj_key_text: "inj key_text"
  by (rule injI) (auto simp: key_text_def inj_eq [OF inj_ipv4_to_string] inj_eq [OF inj_lsa_type_debug] intro: LsaKey.equality)

lemma lsa_order_summary: "lsa_order (lsa_summary now area e) = (area, key_text (lsa_key (entry_lsa e)))"
  by (simp add: lsa_order_def lsa_summary_def key_text_def lsa_key_def header_key_def Let_def)

lemma set_db_summaries: "lsdb_inv db \<Longrightarrow> set (db_summaries now f area db) = {lsa_summary now area e |k e. lsdb_get db k = Some e \<and> type_selected f e}"
  by (force simp: db_summaries_def lsdb_get_def lsdb_inv_def)

lemma distinct_db_summaries:
  assumes "lsdb_inv db"
  shows "distinct (map lsa_order (db_summaries now f area db))"
proof -
  let ?es = "filter (\<lambda>(_, e). type_selected f e) (entries db)"
  have "map lsa_order (db_summaries now f area db) = map (\<lambda>k. (area, key_text k)) (map fst ?es)"
    using assms by (auto simp: db_summaries_def lsa_order_summary lsdb_inv_def)
  moreover have "distinct (map fst ?es)" using assms by (simp add: lsdb_inv_def distinct_map_filter)
  moreover have "inj (\<lambda>k. (area, key_text k))" using inj_key_text by (simp add: inj_def)
  ultimately show ?thesis
    using distinct_map [of "\<lambda>k. (area, key_text k)" "map fst ?es"] inj_on_subset [OF _ subset_UNIV] by metis
qed

lemma distinct_map_appendI:
  "distinct (map f xs) \<Longrightarrow> distinct (map f ys) \<Longrightarrow> (\<And>x y. x \<in> set xs \<Longrightarrow> y \<in> set ys \<Longrightarrow> f x \<noteq> f y) \<Longrightarrow> distinct (map f (xs @ ys))"
  by (auto simp: disjoint_iff)

text \<open>What the instance stores, under the text by which a reply names the database.\<close>

definition stored :: "'c OspfInstance \<Rightarrow> string \<Rightarrow> LsdbEntry \<Rightarrow> bool" where
  "stored s area e \<longleftrightarrow>
     (\<exists>aid db k. instance_lsdb s aid = Some db \<and> lsdb_get db k = Some e \<and> area = ipv4_to_string aid) \<or>
     (\<exists>k. lsdb_get (as_external_lsdb s) k = Some e \<and> area = ''external'')"

definition area_summaries :: "instant \<Rightarrow> string option \<Rightarrow> string option \<Rightarrow> ipv4 \<times> Area \<Rightarrow> LsaSummary list" where
  "area_summaries now af tf = (\<lambda>(aid, a).
     if af \<notin> {None, Some (ipv4_to_string aid)} then [] else db_summaries now tf (ipv4_to_string aid) (lsdb a))"

definition unsorted_reply :: "instant \<Rightarrow> string option \<Rightarrow> string option \<Rightarrow> 'c OspfInstance \<Rightarrow> LsaSummary list" where
  "unsorted_reply now af tf s =
     concat (map (area_summaries now af tf) (areas s)) @
     (if af \<in> {None, Some ''external''} then db_summaries now tf ''external'' (as_external_lsdb s) else [])"

lemma collect_database_eq: "collect_database now af tf s = sort_key lsa_order (unsorted_reply now af tf s)"
  by (simp only: collect_database_def unsorted_reply_def area_summaries_def)

lemma area_summaries_text: "l \<in> set (area_summaries now af tf x) \<Longrightarrow> ls_area_id l = ipv4_to_string (fst x)"
  by (auto simp: area_summaries_def db_summaries_def lsa_summary_def Let_def split: if_splits prod.splits)

lemma distinct_area_summaries:
  assumes "distinct (map fst as)" and "\<forall>x \<in> set as. lsdb_inv (lsdb (snd x))"
  shows "distinct (map lsa_order (concat (map (area_summaries now af tf) as)))"
  using assms
proof (induction as)
  case (Cons x as)
  have "lsa_order l \<noteq> lsa_order l'" if "l \<in> set (area_summaries now af tf x)" "y \<in> set as" "l' \<in> set (area_summaries now af tf y)" for l l' y
    using that(2) Cons.prems(1) area_summaries_text [OF that(1)] area_summaries_text [OF that(3)]
    by (auto simp: lsa_order_def inj_eq [OF inj_ipv4_to_string])
  moreover have "distinct (map lsa_order (area_summaries now af tf x))"
    using Cons.prems(2) distinct_db_summaries by (simp add: area_summaries_def case_prod_beta)
  ultimately show ?case
    using Cons unfolding list.map(2) concat.simps(2) by (intro distinct_map_appendI) (simp_all, blast)
qed simp

lemma inst_inv_lsdbs:
  assumes "inst_inv s"
  shows "\<forall>x \<in> set (areas s). lsdb_inv (lsdb (snd x))" and "lsdb_inv (as_external_lsdb s)" and "distinct (map fst (areas s))"
  using assms by (auto simp: inst_inv_def db_ok_def)

lemma distinct_unsorted_reply:
  assumes "inst_inv s"
  shows "distinct (map lsa_order (unsorted_reply now af tf s))"
proof -
  note inv = inst_inv_lsdbs [OF assms]
  have "ls_area_id l \<noteq> ''external''" if "x \<in> set (areas s)" "l \<in> set (area_summaries now af tf x)" for l x
    using area_summaries_text [OF that(2)] ipv4_string_not_external by simp
  moreover have "ls_area_id l = ''external''" if "l \<in> set (db_summaries now tf ''external'' db)" for l db
    using that by (auto simp: db_summaries_def lsa_summary_def Let_def)
  ultimately have "lsa_order l \<noteq> lsa_order l'" if "l \<in> set (concat (map (area_summaries now af tf) (areas s)))"
      "l' \<in> set (if af \<in> {None, Some ''external''} then db_summaries now tf ''external'' (as_external_lsdb s) else [])" for l l'
    using that by (fastforce simp: lsa_order_def split: if_splits)
  moreover have "distinct (map lsa_order (if P then db_summaries now tf ''external'' (as_external_lsdb s) else []))" for P
    using distinct_db_summaries [OF inv(2)] by simp
  ultimately show ?thesis
    unfolding unsorted_reply_def by (intro distinct_map_appendI distinct_area_summaries [OF inv(3,1)])
qed

lemma set_unsorted_reply:
  assumes "inst_inv s"
  shows "set (unsorted_reply now af tf s) =
    {lsa_summary now area e |area e. stored s area e \<and> af \<in> {None, Some area} \<and> type_selected tf e}"
proof -
  note inv = inst_inv_lsdbs [OF assms]
  have area: "l \<in> set (area_summaries now af tf (aid, a)) \<longleftrightarrow>
      (\<exists>k e. l = lsa_summary now (ipv4_to_string aid) e \<and> lsdb_get (lsdb a) k = Some e \<and> af \<in> {None, Some (ipv4_to_string aid)} \<and> type_selected tf e)"
    if "(aid, a) \<in> set (areas s)" for aid a l
  proof -
    have "lsdb_inv (lsdb a)" using inv(1) that by force
    from set_db_summaries [OF this, of now tf "ipv4_to_string aid"] show ?thesis by (auto simp: area_summaries_def)
  qed
  have areas: "l \<in> set (concat (map (area_summaries now af tf) (areas s))) \<longleftrightarrow>
      (\<exists>aid db k e. l = lsa_summary now (ipv4_to_string aid) e \<and> instance_lsdb s aid = Some db \<and> lsdb_get db k = Some e \<and>
        af \<in> {None, Some (ipv4_to_string aid)} \<and> type_selected tf e)" for l
  proof -
    have "l \<in> set (concat (map (area_summaries now af tf) (areas s))) \<longleftrightarrow>
        (\<exists>aid a. (aid, a) \<in> set (areas s) \<and> l \<in> set (area_summaries now af tf (aid, a)))" by force
    then show ?thesis
      using area unfolding instance_lsdb_def map_option_eq_Some map_of_eq_Some_iff [OF inv(3)] by blast
  qed
  have ext: "l \<in> set (if af \<in> {None, Some ''external''} then db_summaries now tf ''external'' (as_external_lsdb s) else []) \<longleftrightarrow>
      (\<exists>k e. l = lsa_summary now ''external'' e \<and> lsdb_get (as_external_lsdb s) k = Some e \<and> af \<in> {None, Some ''external''} \<and> type_selected tf e)" for l
    using set_db_summaries [OF inv(2), of now tf "''external''"] by auto
  show ?thesis
    unfolding unsorted_reply_def set_append by (rule set_eqI) (unfold Un_iff areas ext stored_def mem_Collect_eq, blast)
qed

text \<open>
  C25. A database reply is complete and reproducible. Whatever order the hash maps are walked in, the reply lists every LSA the
  instance stores in the databases the area filter names and of the type the type filter names, and nothing else, each once and in
  the order of database, type, link-state id and advertising router; another instance that stores the same LSAs gives the same reply.
\<close>

theorem database_reply_exact:
  assumes "inst_inv s"
  shows "sorted (map lsa_order (collect_database now af tf s)) \<and> distinct (map lsa_order (collect_database now af tf s)) \<and>
    (l \<in> set (collect_database now af tf s) \<longleftrightarrow>
      (\<exists>area e. stored s area e \<and> af \<in> {None, Some area} \<and> type_selected tf e \<and> l = lsa_summary now area e)) \<and>
    (inst_inv s' \<and> (\<forall>area e. stored s' area e \<longleftrightarrow> stored s area e) \<longrightarrow>
      collect_database now af tf s' = collect_database now af tf s)"
proof -
  let ?u = "unsorted_reply now af tf"
  note d = distinct_unsorted_reply [where now = now and af = af and tf = tf]
  have "distinct (map lsa_order (sort_key lsa_order (?u s)))"
    using d [OF assms] mset_eq_imp_distinct_iff [of "map lsa_order (sort_key lsa_order (?u s))" "map lsa_order (?u s)"] by simp
  moreover have "sort_key lsa_order (?u s') = sort_key lsa_order (?u s)" if "inst_inv s'" and "\<forall>area e. stored s' area e \<longleftrightarrow> stored s area e"
  proof (rule sort_key_inj_key_eq)
    have "set (?u s') = set (?u s)" using that by (simp add: set_unsorted_reply assms)
    moreover have "distinct (?u s')" "distinct (?u s)" using d [OF that(1)] d [OF assms] by (simp_all add: distinct_map)
    ultimately show "mset (?u s') = mset (sort_key lsa_order (?u s))" using set_eq_iff_mset_eq_distinct [of "?u s'" "?u s"] by simp
    show "inj_on lsa_order (set (?u s'))" using d [OF that(1)] by (simp add: distinct_map)
  qed simp
  ultimately show ?thesis
    unfolding collect_database_eq set_sort set_unsorted_reply [OF assms] by auto
qed

section \<open>Status counts\<close>

lemma sum_list_sort_key: "sum_list (map f (sort_key k xs)) = sum_list (map (f :: _ \<Rightarrow> nat) xs)"
  using sum_mset_sum_list [of "map f (sort_key k xs)"] sum_mset_sum_list [of "map f xs"] by simp

lemma sum_over_keys:
  fixes g :: "'a \<Rightarrow> nat"
  assumes "distinct ks" and "\<forall>x \<in> set xs. key x \<in> set ks"
  shows "sum_list (map (\<lambda>k. sum_list (map g (filter (\<lambda>x. key x = k) xs))) ks) = sum_list (map g xs)"
  using assms(2)
proof (induction xs)
  case (Cons x xs)
  have "sum_list (map (\<lambda>k. if k = key x then c else 0) ks) = c" for c :: nat
    using assms(1) Cons.prems by (simp add: sum_list_distinct_conv_sum_set)
  moreover have "(\<lambda>k. sum_list (map g (filter (\<lambda>x. key x = k) (x # xs)))) =
      (\<lambda>k. (if k = key x then g x else 0) + sum_list (map g (filter (\<lambda>x. key x = k) xs)))"
    by (auto simp: fun_eq_iff)
  ultimately show ?case using Cons by (simp add: sum_list_addf)
qed simp

text \<open>The counts of the areas add up to all interfaces and all fully adjacent neighbors of the instance.\<close>

lemma status_counts_total:
  assumes "inst_inv s"
  shows "sum_list (map as_interface_count (st_areas (collect_status s))) = length (interfaces s)"
    and "sum_list (map as_fully_adjacent (st_areas (collect_status s))) =
      length (filter (\<lambda>n. n_state n = Full) (concat (map (\<lambda>i. map snd (neighbors i)) (interfaces s))))"
proof -
  have keys: "distinct (map fst (areas s))" "\<forall>i \<in> set (interfaces s). if_area_id i \<in> set (map fst (areas s))"
    using assms by (simp_all add: inst_inv_def)
  note total = sum_over_keys [OF keys, unfolded map_map o_def]
  show "sum_list (map as_interface_count (st_areas (collect_status s))) = length (interfaces s)"
    using total [of "\<lambda>_. 1"]
    by (simp add: collect_status_def sum_list_sort_key area_status_def case_prod_beta o_def area_interfaces_def sum_list_triv)
  have full: "length (filter P (concat (map h xs))) = sum_list (map (\<lambda>x. length (filter P (h x))) xs)" for P h and xs :: "'z list"
    by (induction xs) simp_all
  show "sum_list (map as_fully_adjacent (st_areas (collect_status s))) =
      length (filter (\<lambda>n. n_state n = Full) (concat (map (\<lambda>i. map snd (neighbors i)) (interfaces s))))"
    using total [of "\<lambda>i. length (filter (\<lambda>n. n_state n = Full) (map snd (neighbors i)))"]
    by (simp add: collect_status_def sum_list_sort_key area_status_def case_prod_beta o_def area_interfaces_def full)
qed

section \<open>Witness\<close>

definition example_stored :: "unit OspfInstance" where
  "example_stored = set_area_lsdb 0 (snd (lsdb_install 0 example_lsa (lsdb_new 0x01010101))) example_instance"

lemma example_stored_row: "stored example_stored (ipv4_to_string 0) (new_entry 0 (lsdb_new 0x01010101) example_lsa)"
proof -
  have "instance_lsdb example_stored 0 = Some (snd (lsdb_install 0 example_lsa (lsdb_new 0x01010101)))"
    by (simp add: example_stored_def instance_lsdb_def map_of_set_area_lsdb example_instance_simps)
  moreover have "lsdb_get (snd (lsdb_install 0 example_lsa (lsdb_new 0x01010101))) (lsa_key example_lsa) =
      Some (new_entry 0 (lsdb_new 0x01010101) example_lsa)"
    by (simp add: lsdb_install_def lsdb_get_def lsdb_new_def Let_def update_conv')
  ultimately show ?thesis unfolding stored_def by blast
qed

theorem database_reply_exact_witness:
  "inst_inv example_stored \<and>
   lsa_summary 5 ''0.0.0.0'' (new_entry 0 (lsdb_new 0x01010101) example_lsa) \<in> set (collect_database 5 (Some ''0.0.0.0'') (Some ''network'') example_stored)"
proof -
  have inv: "inst_inv example_stored"
    unfolding example_stored_def
    by (intro inst_inv_set_area db_ok_install example_instance_inv) (simp_all add: example_instance_simps, simp add: example_lsa_def)
  have zero: "ipv4_to_string 0 = ''0.0.0.0''" by code_simp
  have "type_selected (Some ''network'') (new_entry 0 (lsdb_new 0x01010101) example_lsa)"
    by (simp add: type_selected_def matches_ls_type_def new_entry_def example_lsa_def ascii_lower_def Let_def)
  then show ?thesis
    using database_reply_exact [OF inv, where now = 5 and af = "Some ''0.0.0.0''" and tf = "Some ''network''"]
      example_stored_row [unfolded zero] inv by blast
qed

end
