(* ===== verification/Query_Client.thy ===== *)
theory Query_Client
  imports Start_Up Control
begin

text \<open>
  \<^verbatim>\<open>src/main.rs\<close>: the command line, the control sockets \<^verbatim>\<open>run_daemon\<close> binds for the instances of each VRF, and how
  \<^verbatim>\<open>ospfd query\<close> finds them. A query reaches every instance under its own VRF.
\<close>

section \<open>The command line\<close>

record RunArgs =
  ra_config_path :: string
  ra_vpp_api_socket :: string
  ra_control_socket :: string
  ra_io_backend :: IoBackend
  ra_vrf_deprecated :: "string option"

datatype OutputFormat = Text | Json

record QueryArgs =
  qa_control_socket :: "string option"
  qa_request :: ControlRequest
  qa_output :: OutputFormat

datatype Command = Run RunArgs | Query QueryArgs

text \<open>\<open>Err\<close> carries the exit code of \<^verbatim>\<open>print_usage_and_exit\<close>; a failed \<^verbatim>\<open>expect\<close> is a panic.\<close>

type_synonym 'a args = "(nat, 'a) outcome"

definition DEFAULT_CONTROL_SOCKET :: string where
  "DEFAULT_CONTROL_SOCKET = ''/run/ospfd.sock''"

record query_options =
  qo_control_socket :: "string option"
  qo_area :: "string option"
  qo_ls_type :: "string option"
  qo_output :: OutputFormat

fun query_options_from :: "query_options \<Rightarrow> string list \<Rightarrow> query_options args" where
  "query_options_from q [] = Ok q"
| "query_options_from q [arg] =
     (if arg \<in> {''--control-socket'', ''--area'', ''--type'', ''-o'', ''--output''} then Panic else Err 1)"
| "query_options_from q (arg # v # rest) =
     (if arg = ''--control-socket'' then query_options_from (q\<lparr>qo_control_socket := Some v\<rparr>) rest
      else if arg = ''--area'' then query_options_from (q\<lparr>qo_area := Some v\<rparr>) rest
      else if arg = ''--type'' then query_options_from (q\<lparr>qo_ls_type := Some v\<rparr>) rest
      else if arg = ''-o'' \<or> arg = ''--output'' then
        (if v = ''text'' then query_options_from (q\<lparr>qo_output := Text\<rparr>) rest
         else if v = ''json'' then query_options_from (q\<lparr>qo_output := Json\<rparr>) rest
         else Err 1)
      else Err 1)"

definition query_request :: "string \<Rightarrow> string option \<Rightarrow> string option \<Rightarrow> ControlRequest option" where
  "query_request subject area t =
     map_of [(''status'', ReqStatus), (''neighbors'', ReqNeighbors), (''interfaces'', ReqInterfaces),
       (''database'', ReqDatabase area t), (''routes'', ReqRoutes), (''status6'', ReqStatus6), (''neighbors6'', ReqNeighbors6),
       (''interfaces6'', ReqInterfaces6), (''database6'', ReqDatabase6 area t), (''routes6'', ReqRoutes6)] subject"

definition parse_query_args :: "string list \<Rightarrow> QueryArgs args" where
  "parse_query_args args =
     (case args of
        [] \<Rightarrow> Err 1
      | subject # rest \<Rightarrow>
          bindR (query_options_from \<lparr>qo_control_socket = None, qo_area = None, qo_ls_type = None, qo_output = Text\<rparr> rest) (\<lambda>q.
          case query_request subject (qo_area q) (qo_ls_type q) of
            None \<Rightarrow> Err 1
          | Some req \<Rightarrow> Ok \<lparr>qa_control_socket = qo_control_socket q, qa_request = req, qa_output = qo_output q\<rparr>))"

fun run_args_from :: "RunArgs \<Rightarrow> string list \<Rightarrow> RunArgs args" where
  "run_args_from run [] = Ok run"
| "run_args_from run [arg] =
     (if arg \<in> {''--config'', ''--vpp-api'', ''--control-socket'', ''--vrf'', ''--io''} then Panic
      else if arg \<in> {''--help'', ''-h''} then Err 0
      else Err 1)"
| "run_args_from run (arg # v # rest) =
     (if arg = ''--config'' then run_args_from (run\<lparr>ra_config_path := v\<rparr>) rest
      else if arg = ''--vpp-api'' then run_args_from (run\<lparr>ra_vpp_api_socket := v\<rparr>) rest
      else if arg = ''--control-socket'' then run_args_from (run\<lparr>ra_control_socket := v\<rparr>) rest
      else if arg = ''--vrf'' then run_args_from (run\<lparr>ra_vrf_deprecated := Some v\<rparr>) rest
      else if arg = ''--io'' then
        (if v = ''raw'' then run_args_from (run\<lparr>ra_io_backend := RawBackend\<rparr>) rest
         else if v = ''punt'' then run_args_from (run\<lparr>ra_io_backend := PuntBackend\<rparr>) rest
         else Err 1)
      else if arg \<in> {''--help'', ''-h''} then Err 0
      else Err 1)"

text \<open>\<open>api\<close> is the default API socket of the VPP client library.\<close>

definition parse_args :: "string \<Rightarrow> string list \<Rightarrow> Command args" where
  "parse_args api raw =
     (case raw of
        [] \<Rightarrow> Err 1
      | first # rest \<Rightarrow>
          if first = ''query'' then bindR (parse_query_args rest) (\<lambda>q. Ok (Query q))
          else
            bindR (run_args_from \<lparr>ra_config_path = ''/etc/ospfd/config.yaml'', ra_vpp_api_socket = api,
                ra_control_socket = DEFAULT_CONTROL_SOCKET, ra_io_backend = RawBackend, ra_vrf_deprecated = None\<rparr> raw) (\<lambda>r. Ok (Run r)))"

section \<open>Control sockets\<close>

definition control_socket_path :: "string option \<Rightarrow> string" where
  "control_socket_path vrf = (case vrf of None \<Rightarrow> DEFAULT_CONTROL_SOCKET | Some v \<Rightarrow> ''/run/ospfd@'' @ v @ ''.sock'')"

text \<open>\<^verbatim>\<open>str::strip_prefix\<close> and \<^verbatim>\<open>str::strip_suffix\<close>.\<close>

definition strip_prefix :: "string \<Rightarrow> string \<Rightarrow> string option" where
  "strip_prefix p s = (if take (length p) s = p then Some (drop (length p) s) else None)"

definition strip_suffix :: "string \<Rightarrow> string \<Rightarrow> string option" where
  "strip_suffix p s = map_option rev (strip_prefix (rev p) (rev s))"

text \<open>The components of a path without empty and \<^verbatim>\<open>.\<close> ones; \<^verbatim>\<open>Path::file_name\<close> is the last of them unless it is \<^verbatim>\<open>..\<close>.\<close>

fun path_components :: "string \<Rightarrow> string \<Rightarrow> string list" where
  "path_components acc [] = [rev acc]"
| "path_components acc (c # s) = (if c = CHR ''/'' then rev acc # path_components [] s else path_components (c # acc) s)"

definition file_name :: "string \<Rightarrow> string option" where
  "file_name path =
     (let cs = filter (\<lambda>c. c \<noteq> [] \<and> c \<noteq> ''.'') (path_components [] path)
      in if cs = [] \<or> last cs = ''..'' then None else Some (last cs))"

definition vrf_name_from_socket :: "string \<Rightarrow> string option" where
  "vrf_name_from_socket path =
     Option.bind (file_name path) (\<lambda>stem.
     if stem = ''ospfd.sock'' then None else Option.bind (strip_prefix ''ospfd@'' stem) (strip_suffix ''.sock''))"

definition vrf_of_entry :: "string \<Rightarrow> string option option" where
  "vrf_of_entry name =
     (if strip_suffix ''.sock'' name = None then None
      else if name = ''ospfd.sock'' then Some None
      else map_option Some (Option.bind (strip_prefix ''ospfd@'' name) (strip_suffix ''.sock'')))"

definition vrf_order :: "string option \<Rightarrow> nat \<times> string" where
  "vrf_order v = (case v of None \<Rightarrow> (0, []) | Some s \<Rightarrow> (1, s))"

text \<open>\<open>names\<close> are the entries of \<^verbatim>\<open>/run\<close>.\<close>

definition discover_control_sockets :: "string list \<Rightarrow> (string option \<times> string) list" where
  "discover_control_sockets names =
     sort_key (\<lambda>t. vrf_order (fst t))
       (List.map_filter (\<lambda>name. map_option (\<lambda>vrf. (vrf, ''/run/'' @ name)) (vrf_of_entry name)) names)"

definition query_targets :: "string list \<Rightarrow> string option \<Rightarrow> (string option \<times> string) list" where
  "query_targets names control_socket =
     (case control_socket of Some path \<Rightarrow> [(vrf_name_from_socket path, path)] | None \<Rightarrow> discover_control_sockets names)"

text \<open>The handles of both versions by VRF, and the servers started for those that have an OSPFv2 instance.\<close>

type_synonym 'c handles = "'c OspfInstance option \<times> 'c InstanceV3 option"

definition entry_handles :: "string option \<Rightarrow> (string option \<times> 'c handles) list \<Rightarrow> 'c handles" where
  "entry_handles vrf m = (case map_of m vrf of Some h \<Rightarrow> h | None \<Rightarrow> (None, None))"

definition by_vrf :: "'c V2Setup list \<Rightarrow> (string option \<times> 'c InstanceV3) option \<Rightarrow> (string option \<times> 'c handles) list" where
  "by_vrf setups v3_handle =
     (let m = fold (\<lambda>s m. (let vrf = dc_vrf_name (v2_cfg s) in AList.update vrf (Some (v2_instance s), snd (entry_handles vrf m)) m)) setups []
      in case v3_handle of
           None \<Rightarrow> m
         | Some (vrf, h) \<Rightarrow> AList.update vrf (fst (entry_handles vrf m), Some h) m)"

definition control_servers ::
  "'c V2Setup list \<Rightarrow> (string option \<times> 'c InstanceV3) option \<Rightarrow> (string \<times> 'c OspfInstance \<times> 'c InstanceV3 option) list" where
  "control_servers setups v3_handle =
     List.map_filter (\<lambda>(vrf, v2h, v3h). map_option (\<lambda>inst. (control_socket_path vrf, inst, v3h)) v2h) (by_vrf setups v3_handle)"

section \<open>Queries reach the instances\<close>

lemma strip_prefix_append [simp]: "strip_prefix p (p @ s) = Some s"
  by (simp add: strip_prefix_def)

lemma strip_suffix_append [simp]: "strip_suffix p (s @ p) = Some s"
  by (simp add: strip_suffix_def strip_prefix_def)

lemma path_components_plain: "CHR ''/'' \<notin> set s \<Longrightarrow> path_components acc s = [rev acc @ s]"
  by (induction s arbitrary: acc) auto

text \<open>The name of the socket of a VRF in \<^verbatim>\<open>/run\<close>.\<close>

definition socket_name :: "string option \<Rightarrow> string" where
  "socket_name vrf = (case vrf of None \<Rightarrow> ''ospfd.sock'' | Some v \<Rightarrow> ''ospfd@'' @ v @ ''.sock'')"

definition plain_vrf :: "string option \<Rightarrow> bool" where
  "plain_vrf vrf \<longleftrightarrow> (case vrf of None \<Rightarrow> True | Some v \<Rightarrow> CHR ''/'' \<notin> set v)"

lemma socket_path_name: "control_socket_path vrf = ''/run/'' @ socket_name vrf"
  by (simp add: control_socket_path_def DEFAULT_CONTROL_SOCKET_def socket_name_def split: option.split)

lemma socket_name_affixes:
  "strip_prefix ''ospfd@'' (socket_name (Some v)) = Some (v @ ''.sock'')" "\<exists>r. strip_suffix ''.sock'' (socket_name vrf) = Some r"
proof -
  show "strip_prefix ''ospfd@'' (socket_name (Some v)) = Some (v @ ''.sock'')"
    using strip_prefix_append [of "''ospfd@''" "v @ ''.sock''"] by (simp add: socket_name_def)
  show "\<exists>r. strip_suffix ''.sock'' (socket_name vrf) = Some r"
  proof (cases vrf)
    case None
    then show ?thesis using strip_suffix_append [of "''.sock''" "''ospfd''"] by (simp add: socket_name_def)
  next
    case (Some v)
    then show ?thesis using strip_suffix_append [of "''.sock''" "''ospfd@'' @ v"] by (simp add: socket_name_def)
  qed
qed

lemma socket_name_default: "socket_name vrf = ''ospfd.sock'' \<longleftrightarrow> vrf = None"
  by (simp add: socket_name_def split: option.split)

lemma vrf_of_socket_name: "vrf_of_entry (socket_name vrf) = Some vrf"
proof (cases vrf)
  case (Some v)
  then show ?thesis
    using socket_name_affixes(2) [of vrf] socket_name_default [of vrf] by (auto simp: vrf_of_entry_def socket_name_affixes(1))
qed (use socket_name_affixes(2) [of None] socket_name_default [of None] in \<open>auto simp: vrf_of_entry_def\<close>)

lemma inj_control_socket_path: "inj control_socket_path"
  by (rule injI) (metis append_same_eq option.inject same_append_eq socket_path_name vrf_of_socket_name)

lemma file_name_socket:
  assumes "plain_vrf vrf"
  shows "file_name (control_socket_path vrf) = Some (socket_name vrf)"
proof -
  have "CHR ''/'' \<notin> set (socket_name vrf)" using assms by (auto simp: socket_name_def plain_vrf_def split: option.splits)
  then have "path_components [] (control_socket_path vrf) = [[], ''run'', socket_name vrf]"
    by (simp add: socket_path_name path_components_plain)
  moreover have "length (socket_name vrf) > 2" by (simp add: socket_name_def split: option.split)
  then have "socket_name vrf \<notin> {[], ''.'', ''..''}" by auto
  ultimately show ?thesis by (simp add: file_name_def)
qed

lemma vrf_name_from_socket_path: "plain_vrf vrf \<Longrightarrow> vrf_name_from_socket (control_socket_path vrf) = vrf"
  by (cases vrf) (auto simp: vrf_name_from_socket_def file_name_socket socket_name_default socket_name_affixes(1))

lemma discovered_socket: "socket_name vrf \<in> set names \<Longrightarrow> (vrf, control_socket_path vrf) \<in> set (discover_control_sockets names)"
  by (force simp: discover_control_sockets_def map_filter_def vrf_of_socket_name socket_path_name)

text \<open>The handles: every step keeps the keys distinct, and an instance stays under its VRF when no later one has the same.\<close>

abbreviation setup_vrf :: "'c V2Setup \<Rightarrow> string option" where
  "setup_vrf st \<equiv> dc_vrf_name (v2_cfg st)"

definition add_v2 :: "'c V2Setup \<Rightarrow> (string option \<times> 'c handles) list \<Rightarrow> (string option \<times> 'c handles) list" where
  "add_v2 st m = AList.update (setup_vrf st) (Some (v2_instance st), snd (entry_handles (setup_vrf st) m)) m"

lemma by_vrf_eq:
  "by_vrf setups v3_handle =
     (let m = fold add_v2 setups []
      in case v3_handle of None \<Rightarrow> m | Some (vrf, h) \<Rightarrow> AList.update vrf (fst (entry_handles vrf m), Some h) m)"
  unfolding by_vrf_def add_v2_def Let_def by (rule refl)

lemma distinct_fold_add_v2: "distinct (map fst m) \<Longrightarrow> distinct (map fst (fold add_v2 setups m))"
  by (induction setups arbitrary: m) (simp_all add: add_v2_def distinct_update)

lemma fold_add_v2_other: "vrf \<notin> setup_vrf ` set setups \<Longrightarrow> map_of (fold add_v2 setups m) vrf = map_of m vrf"
  by (induction setups arbitrary: m) (simp_all add: add_v2_def update_conv')

lemma fold_add_v2_handle:
  assumes "distinct (map setup_vrf setups)" and "st \<in> set setups"
  shows "\<exists>h. map_of (fold add_v2 setups m) (setup_vrf st) = Some (Some (v2_instance st), h)"
  using assms
proof (induction setups arbitrary: m)
  case (Cons x xs)
  show ?case
  proof (cases "st = x")
    case True
    then have "setup_vrf st \<notin> setup_vrf ` set xs" using Cons.prems(1) by simp
    then show ?thesis using True by (simp add: fold_add_v2_other) (simp add: add_v2_def update_conv')
  qed (use Cons in auto)
qed simp

lemma by_vrf_handle:
  assumes "distinct (map setup_vrf setups)" and "st \<in> set setups"
  shows "\<exists>h. map_of (by_vrf setups v3_handle) (setup_vrf st) = Some (Some (v2_instance st), h)"
  using fold_add_v2_handle [OF assms, of "[]"]
  by (auto simp: by_vrf_eq Let_def entry_handles_def update_conv' split: option.split)

lemma distinct_by_vrf: "distinct (map fst (by_vrf setups v3_handle))"
  by (simp add: by_vrf_eq Let_def distinct_fold_add_v2 distinct_update split: option.split prod.split)

lemma map_of_servers:
  assumes "distinct (map fst m)" and "map_of m vrf = Some (Some inst, h)"
  shows "map_of (List.map_filter (\<lambda>(vrf, v2h, v3h). map_option (\<lambda>inst. (control_socket_path vrf, inst, v3h)) v2h) m)
    (control_socket_path vrf) = Some (inst, h)"
  using assms
proof (induction m)
  case (Cons x m)
  then show ?case
    by (cases x; cases "fst (snd x)") (auto simp: map_filter_simps inj_eq [OF inj_control_socket_path] split: if_splits dest: map_of_SomeD)
qed simp

text \<open>
  A query reaches every OSPFv2 instance under its own VRF. When the VRFs of the started instances differ and their names hold
  no slash, the daemon serves each instance on a socket of its own; the client finds that socket among the files of \<^verbatim>\<open>/run\<close> and
  labels it with the VRF, whether it enumerates them or is given the path; and a request of the OSPFv2 kind sent there is answered
  from that instance.
\<close>

lemma queries_reach_instances:
  assumes "distinct (map (\<lambda>st. dc_vrf_name (v2_cfg st)) setups)" and "st \<in> set setups" and "dc_vrf_name (v2_cfg st) = vrf"
    and "plain_vrf vrf" and "socket_name vrf \<in> set names"
  shows "(vrf, control_socket_path vrf) \<in> set (query_targets names None) \<and>
    query_targets names (Some (control_socket_path vrf)) = [(vrf, control_socket_path vrf)] \<and>
    (\<exists>v3. map_of (control_servers setups v3_handle) (control_socket_path vrf) = Some (v2_instance st, v3) \<and>
      (\<forall>req. \<not> is_v3_request req \<longrightarrow> respond tie now (v2_instance st) v3 (Inr req) = handle_request now req (v2_instance st)))"
proof -
  obtain h where "map_of (by_vrf setups v3_handle) vrf = Some (Some (v2_instance st), h)"
    using by_vrf_handle [OF assms(1,2)] assms(3) by blast
  from map_of_servers [OF distinct_by_vrf this]
  have "map_of (control_servers setups v3_handle) (control_socket_path vrf) = Some (v2_instance st, h)"
    by (simp add: control_servers_def)
  then show ?thesis
    using discovered_socket [OF assms(5)] vrf_name_from_socket_path [OF assms(4)] by (simp add: query_targets_def respond_def)
qed

end
