(* ===== verification/Update_V3.thy ===== *)
theory Update_V3
  imports Inv_V3
begin

text \<open>
  What self-origination and received updates do to an OSPFv3 instance (\<^verbatim>\<open>src/instance_v3.rs\<close>): the instance in the
  database, the queue of every neighbor, and the adjacency the update came from.
\<close>

section \<open>Neighbors across flooding\<close>

definition neighbor3_at :: "'c InstanceV3 \<Rightarrow> u32 \<Rightarrow> ipv4 \<Rightarrow> NeighborV3 option" where
  "neighbor3_at s sw nid = (case map_of (i3_interfaces s) sw of None \<Rightarrow> None | Some i \<Rightarrow> map_of (if3_neighbors i) nid)"

definition raw_of :: "LsaEntryV3 \<Rightarrow> LsaV3Raw" where
  "raw_of e = \<lparr>raw_header = e3_header e, raw_bytes = e3_raw e\<rparr>"

text \<open>The interfaces lie under their index.\<close>

definition indexed :: "'c InstanceV3 \<Rightarrow> bool" where
  "indexed s \<longleftrightarrow> (\<forall>k i. map_of (i3_interfaces s) k = Some i \<longrightarrow> io3_sw_if_index (if3_io i) = k)"

lemma indexed_inv: "inst3_inv s \<Longrightarrow> indexed s"
  by (simp add: inst3_inv_def ifaces3_ok_def indexed_def)

lemma flood_frame [simp]:
  "i3_lsdb (flood_lsa_v3 e ex s) = i3_lsdb s" "i3_area_types (flood_lsa_v3 e ex s) = i3_area_types s"
  "i3_router_id (flood_lsa_v3 e ex s) = i3_router_id s" "iface_area3 sw (flood_lsa_v3 e ex s) = iface_area3 sw s"
  by (simp_all add: flood_lsa_v3_def iface_area3_def flood_iface_def split: option.split)

lemma indexed_flood [simp]: "indexed s \<Longrightarrow> indexed (flood_lsa_v3 e ex s)"
proof -
  have "if3_io (flood_iface e ex i) = if3_io i" for i by (simp add: flood_iface_def)
  then show "indexed s \<Longrightarrow> indexed (flood_lsa_v3 e ex s)" by (auto simp: indexed_def flood_lsa_v3_def)
qed

text \<open>Whether an LSA is queued for a neighbor on an interface.\<close>

definition flooded_to :: "'c InstanceV3 \<Rightarrow> (u32 \<times> ipv4) option \<Rightarrow> u32 \<Rightarrow> ipv4 \<Rightarrow> NeighborV3 \<Rightarrow> LsaEntryV3 \<Rightarrow> bool" where
  "flooded_to s ex sw nid n e \<longleftrightarrow>
     nb3_state n = FullV3 \<and> ex \<noteq> Some (sw, nid) \<and> floods_into (i3_area_types s) e (iface_area3 sw s)"

lemma neighbor3_at_flood:
  assumes "indexed s"
  shows "neighbor3_at (flood_lsa_v3 e ex s) sw nid =
    map_option (\<lambda>n. if flooded_to s ex sw nid n e then queue_lsu e n else n) (neighbor3_at s sw nid)"
proof (cases "map_of (i3_interfaces s) sw")
  case (Some i)
  with assms have "io3_sw_if_index (if3_io i) = sw" by (simp add: indexed_def)
  with Some show ?thesis
    by (cases "map_of (if3_neighbors i) nid")
      (auto simp: neighbor3_at_def flood_lsa_v3_def flood_iface_def flooded_to_def iface_area3_def)
qed (simp add: neighbor3_at_def flood_lsa_v3_def)

lemma neighbor3_at_floods:
  assumes "indexed s"
  shows "neighbor3_at (fold (\<lambda>e. flood_lsa_v3 e ex) es s) sw nid =
    map_option (\<lambda>n. n\<lparr>nb3_pending_lsu := nb3_pending_lsu n @ map raw_of (filter (flooded_to s ex sw nid n) es)\<rparr>) (neighbor3_at s sw nid)"
  using assms
proof (induction es arbitrary: s)
  case Nil
  then show ?case by (simp add: option.map_ident)
next
  case (Cons e es)
  have same: "flooded_to (flood_lsa_v3 e ex s) ex sw nid = flooded_to s ex sw nid" by (simp add: flooded_to_def fun_eq_iff)
  have queued: "flooded_to s ex sw nid (n\<lparr>nb3_pending_lsu := q\<rparr>) = flooded_to s ex sw nid n" for n q
    by (simp add: flooded_to_def fun_eq_iff)
  show ?case
    using Cons.IH [of "flood_lsa_v3 e ex s"] Cons.prems
    by (auto simp: neighbor3_at_flood same queued option.map_comp o_def queue_lsu_def raw_of_def intro!: option.map_cong)
qed

lemma floods_frame [simp]:
  "i3_lsdb (fold (\<lambda>e. flood_lsa_v3 e ex) es s) = i3_lsdb s"
  "i3_router_id (fold (\<lambda>e. flood_lsa_v3 e ex) es s) = i3_router_id s"
  "iface_area3 sw (fold (\<lambda>e. flood_lsa_v3 e ex) es s) = iface_area3 sw s"
  by (induction es arbitrary: s) simp_all

section \<open>Self-originated LSAs\<close>

text \<open>
  C38. A self-originated OSPFv3 LSA whose body fits is stored under its key and nothing else in the database changes;
  its sequence number follows the instance it replaces, so that in signed order it is newer until the
  numbers wrap; its bytes parse to its header, end in the given body, and carry a Fletcher checksum that verifies
  up to the size where the unreduced sums are exact; and it is queued, once, to exactly the Full neighbors on interfaces
  in its scope.
\<close>

theorem insert_self_lsa_supersedes:
  fixes s :: "'c InstanceV3"
  defines "key ty lsid area \<equiv> \<lparr>k3_area = area, k3_type = ty, k3_lsid = lsid, k3_adv = i3_router_id s\<rparr>"
  assumes "inst3_inv s" and "length bytes \<le> 65515"
  shows "\<exists>s' e. insert_self_lsa ty lsid bytes area s = Ok s' \<and>
    lsdb3_get (i3_lsdb s') = (lsdb3_get (i3_lsdb s))(key ty lsid area \<mapsto> e) \<and>
    (case lsdb3_get (i3_lsdb s) (key ty lsid area) of
       None \<Rightarrow> l3_seq (e3_header e) = INITIAL_SEQUENCE_NUMBER
     | Some old \<Rightarrow> l3_seq (e3_header e) = l3_seq (e3_header old) + 1 \<and>
         (l3_seq (e3_header old) \<noteq> 0x7FFFFFFF \<longrightarrow> sint (l3_seq (e3_header old)) < sint (l3_seq (e3_header e)))) \<and>
    lsa_v3_header_parse (e3_raw e) = Ok (e3_header e) \<and> drop 20 (e3_raw e) = bytes \<and>
    (length bytes \<le> 4085 \<longrightarrow> fletcher16_verify (drop 2 (e3_raw e))) \<and>
    (\<forall>sw nid. neighbor3_at s' sw nid =
       map_option (\<lambda>n. if flooded_to s None sw nid n e then queue_lsu e n else n) (neighbor3_at s sw nid))"
proof -
  obtain e where e: "build_self_lsa ty lsid bytes area s = Ok e"
    using assms(3) by (simp add: build_self_lsa_def lsa_v3_total_length_def LSA_V3_HEADER_LEN_def)
  note b = build_self_lsa_cases [OF e]
  let ?s = "s\<lparr>i3_lsdb := lsdb3_insert e (i3_lsdb s)\<rparr>"
  have raw: "lsa_v3_header_parse (e3_raw e) = Ok (e3_header e)"
    using b(1) by (auto elim!: wf_raw_cases simp: header3_codec.dec_enc)
  have "indexed ?s" using indexed_inv [OF assms(2)] by (simp add: indexed_def)
  from neighbor3_at_flood [OF this] have q: "neighbor3_at (flood_lsa_v3 e None ?s) sw nid =
      map_option (\<lambda>n. if flooded_to s None sw nid n e then queue_lsu e n else n) (neighbor3_at s sw nid)" for sw nid
    by (simp add: flooded_to_def neighbor3_at_def iface_area3_def)
  have newer: "sint sq < sint (sq + 1)" if "sq \<noteq> 0x7FFFFFFF" for sq :: i32
    using sint_succ [of sq] that by (simp add: MAX_SEQUENCE_NUMBER_def)
  have ins: "insert_self_lsa ty lsid bytes area s = Ok (flood_lsa_v3 e None ?s)" by (simp add: insert_self_lsa_def e)
  have get: "lsdb3_get (i3_lsdb (flood_lsa_v3 e None ?s)) = (lsdb3_get (i3_lsdb s))(key ty lsid area \<mapsto> e)"
    using b(4) by (simp add: fun_eq_iff lsdb3_get_insert key_def)
  have sq: "l3_seq (e3_header e) = (case lsdb3_get (i3_lsdb s) (key ty lsid area) of
      Some old \<Rightarrow> l3_seq (e3_header old) + 1 | None \<Rightarrow> INITIAL_SEQUENCE_NUMBER)"
    using b(5) by (simp add: self_seq_def key_def)
  show ?thesis
    by (intro exI conjI, rule ins, rule get, use sq newer in \<open>simp split: option.split\<close>, rule raw, rule b(6), rule impI, erule b(8))
      (simp add: q)
qed

section \<open>Updates\<close>

lemma lsdb3_get_fold_insert:
  "lsdb3_get (fold lsdb3_insert es db) k =
     (case map_of (rev (map (\<lambda>e. (entry3_key e, e)) es)) k of Some e \<Rightarrow> Some e | None \<Rightarrow> lsdb3_get db k)"
  by (induction es arbitrary: db) (auto simp: lsdb3_get_insert map_add_def split: option.splits)

text \<open>The neighbor an update came from: what was installed is no longer requested and is acknowledged.\<close>

definition updated :: "LsaV3Header list \<Rightarrow> NeighborV3 \<Rightarrow> NeighborV3" where
  "updated hs n =
     (let rest = filter (\<lambda>r. \<not> list_ex (same_lsa3 r) hs) (nb3_request_list n)
      in n\<lparr>nb3_request_list := rest, nb3_pending_acks := nb3_pending_acks n @ hs,
           nb3_state := (if nb3_state n = LoadingV3 \<and> rest = [] then FullV3 else nb3_state n)\<rparr>)"

lemma neighbor3_at_heard:
  "neighbor3_at (s\<lparr>i3_interfaces := modify_key (lsu_heard hs src) sw (i3_interfaces s)\<rparr>) sw' nid =
     map_option (if (sw', nid) = (sw, src) then updated hs else id) (neighbor3_at s sw' nid)"
proof (cases "sw' = sw \<and> map_of (i3_interfaces s) sw \<noteq> None")
  case True
  then obtain i where i: "map_of (i3_interfaces s) sw = Some i" by auto
  show ?thesis
  proof (cases "map_of (if3_neighbors i) src")
    case None
    then show ?thesis using True i by (cases "map_of (if3_neighbors i) nid")
      (auto simp: neighbor3_at_def map_of_modify_key lsu_heard_None option.map_id)
  next
    case (Some n)
    have "map_of (if3_neighbors (lsu_heard hs src i)) nid = (if nid = src then Some (updated hs n) else map_of (if3_neighbors i) nid)"
      by (auto simp: lsu_heard_cases [OF Some] Let_def acknowledge_def updated_def update_conv')
    then show ?thesis using True i Some by (auto simp: neighbor3_at_def map_of_modify_key option.map_id)
  qed
next
  case False
  then show ?thesis by (auto simp: neighbor3_at_def map_of_modify_key option.map_id split: option.split)
qed

lemma process_lsu_floods:
  fixes s :: "'c InstanceV3"
  defines "es sw raws \<equiv> accepted_entries sw raws s"
  assumes "inst3_inv s"
  shows "neighbor3_at (process_lsu_v3 sw src raws s) sw' nid =
    map_option (if (sw', nid) = (sw, src) then updated (map e3_header (es sw raws)) else id)
      (map_option (\<lambda>n. n\<lparr>nb3_pending_lsu := nb3_pending_lsu n @
         map raw_of (filter (flooded_to s (Some (sw, src)) sw' nid n) (es sw raws))\<rparr>) (neighbor3_at s sw' nid))"
proof -
  define s1 where "s1 = s\<lparr>i3_lsdb := fold lsdb3_insert (es sw raws) (i3_lsdb s)\<rparr>"
  have ix: "indexed s1" using indexed_inv [OF assms(2)] by (simp add: s1_def indexed_def)
  show ?thesis
    unfolding process_lsu_v3_eq Let_def neighbor3_at_heard
    unfolding es_def [symmetric] unfolding s1_def [symmetric] neighbor3_at_floods [OF ix]
    by (simp add: s1_def flooded_to_def [abs_def] neighbor3_at_def iface_area3_def)
qed

lemma neighbor3_at_process_lsu:
  assumes "inst3_inv s"
  shows "neighbor3_at (process_lsu_v3 sw src raws s) sw src =
    map_option (updated (map e3_header (accepted_entries sw raws s))) (neighbor3_at s sw src)"
  unfolding process_lsu_floods [OF assms] by (simp add: flooded_to_def [abs_def] option.map_comp o_def)

lemma lsdb3_get_process_lsu:
  "lsdb3_get (i3_lsdb (process_lsu_v3 sw src raws s)) k =
     (case map_of (rev (map (\<lambda>e. (entry3_key e, e)) (accepted_entries sw raws s))) k of Some e \<Rightarrow> Some e | None \<Rightarrow> lsdb3_get (i3_lsdb s) k)"
  by (simp add: process_lsu_v3_eq Let_def lsdb3_get_fold_insert)

text \<open>An LSA the database lacks, or holds with a lower sequence number.\<close>

definition news3 :: "LsdbV3 \<Rightarrow> LsaEntryV3 \<Rightarrow> bool" where
  "news3 db e \<longleftrightarrow>
     (case lsdb3_get db (entry3_key e) of
        None \<Rightarrow> True
      | Some old \<Rightarrow> sint (l3_seq (e3_header old)) < sint (l3_seq (e3_header e)))"

text \<open>
  C35. What a received OSPFv3 Update does. The LSAs accepted (all but AS-External-LSAs in areas that do not take
  them) are installed, the last one of a key staying, and nothing else in the database changes. Of the neighbors
  other than the sender only the Full ones get anything queued, and only accepted LSAs that may enter the area of
  their interface, in the order of the Update and each once; every accepted LSA that is not a Link-LSA and
  that the database lacked or held with a lower sequence number is among them. The sender's request list loses what was
  installed, all of it is acknowledged, and the adjacency becomes Full when it was Loading and nothing is left to request.
\<close>

theorem lsu_v3_installs_and_floods:
  fixes s :: "'c InstanceV3"
  defines "installed sw raws \<equiv> accepted_entries sw raws s" and "post sw src raws \<equiv> process_lsu_v3 sw src raws s"
  assumes "inst3_inv s"
  shows "(\<forall>k. lsdb3_get (i3_lsdb (post sw src raws)) k =
      (case map_of (rev (map (\<lambda>e. (entry3_key e, e)) (installed sw raws))) k of Some e \<Rightarrow> Some e | None \<Rightarrow> lsdb3_get (i3_lsdb s) k)) \<and>
    (\<exists>flooded.
      (\<forall>sw' nid. (sw', nid) \<noteq> (sw, src) \<longrightarrow> neighbor3_at (post sw src raws) sw' nid =
        map_option (\<lambda>n. n\<lparr>nb3_pending_lsu := nb3_pending_lsu n @ map raw_of (filter (flooded sw' n) (installed sw raws))\<rparr>)
          (neighbor3_at s sw' nid)) \<and>
      (\<forall>sw' n. \<forall>e \<in> set (installed sw raws).
        (flooded sw' n e \<longrightarrow> nb3_state n = FullV3 \<and> floods_into (i3_area_types s) e (iface_area3 sw' s)) \<and>
        (nb3_state n = FullV3 \<and> floods_into (i3_area_types s) e (iface_area3 sw' s) \<and>
           l3_type (e3_header e) \<noteq> LinkV3 \<and> news3 (i3_lsdb s) e \<longrightarrow> flooded sw' n e))) \<and>
    neighbor3_at (post sw src raws) sw src =
      map_option (updated (map e3_header (installed sw raws))) (neighbor3_at s sw src)"
proof (intro conjI)
  let ?f = "\<lambda>sw' n e. nb3_state n = FullV3 \<and> floods_into (i3_area_types s) e (iface_area3 sw' s)"
  have "neighbor3_at (post sw src raws) sw' nid =
      map_option (\<lambda>n. n\<lparr>nb3_pending_lsu := nb3_pending_lsu n @ map raw_of (filter (?f sw' n) (installed sw raws))\<rparr>)
        (neighbor3_at s sw' nid)" if ne: "(sw', nid) \<noteq> (sw, src)" for sw' nid
  proof -
    have "flooded_to s (Some (sw, src)) sw' nid n = ?f sw' n" for n
      using ne by (auto simp: flooded_to_def fun_eq_iff)
    then show ?thesis
      unfolding post_def installed_def process_lsu_floods [OF assms(3)] if_not_P [OF ne] by (simp add: option.map_id)
  qed
  then show "\<exists>flooded.
      (\<forall>sw' nid. (sw', nid) \<noteq> (sw, src) \<longrightarrow> neighbor3_at (post sw src raws) sw' nid =
        map_option (\<lambda>n. n\<lparr>nb3_pending_lsu := nb3_pending_lsu n @ map raw_of (filter (flooded sw' n) (installed sw raws))\<rparr>)
          (neighbor3_at s sw' nid)) \<and>
      (\<forall>sw' n. \<forall>e \<in> set (installed sw raws).
        (flooded sw' n e \<longrightarrow> nb3_state n = FullV3 \<and> floods_into (i3_area_types s) e (iface_area3 sw' s)) \<and>
        (nb3_state n = FullV3 \<and> floods_into (i3_area_types s) e (iface_area3 sw' s) \<and>
           l3_type (e3_header e) \<noteq> LinkV3 \<and> news3 (i3_lsdb s) e \<longrightarrow> flooded sw' n e))"
    by (intro exI [of _ ?f]) blast
  show "\<forall>k. lsdb3_get (i3_lsdb (post sw src raws)) k =
      (case map_of (rev (map (\<lambda>e. (entry3_key e, e)) (installed sw raws))) k of Some e \<Rightarrow> Some e | None \<Rightarrow> lsdb3_get (i3_lsdb s) k)"
    unfolding post_def installed_def using lsdb3_get_process_lsu by blast
  show "neighbor3_at (post sw src raws) sw src =
      map_option (updated (map e3_header (installed sw raws))) (neighbor3_at s sw src)"
    unfolding post_def installed_def by (rule neighbor3_at_process_lsu [OF assms(3)])
qed

section \<open>Loading\<close>

lemma list_ex_rev_key: "e \<in> set es \<Longrightarrow> \<exists>e'. map_of (rev (map (\<lambda>e. (entry3_key e, e)) es)) (entry3_key e) = Some e' \<and> e' \<in> set es \<and> entry3_key e' = entry3_key e"
proof -
  assume "e \<in> set es"
  then have "map_of (rev (map (\<lambda>e. (entry3_key e, e)) es)) (entry3_key e) \<noteq> None"
    by (auto simp: map_of_eq_None_iff image_iff)
  then obtain e' where e': "map_of (rev (map (\<lambda>e. (entry3_key e, e)) es)) (entry3_key e) = Some e'" by blast
  from map_of_SomeD [OF e'] show ?thesis using e' by auto
qed

text \<open>What a raw LSA is parsed into: its header as the bytes have it.\<close>

lemma lsu_v3_reparsed:
  assumes "\<forall>l \<in> set raws. good_raw (raw_header l) (raw_bytes l)" and "length raws < 2 ^ 32"
  shows "\<exists>raws'. lsu_v3_parse (lsu_v3_encode raws) = Ok raws' \<and> (\<forall>l \<in> set raws'. wf_raw l) \<and>
    list_all2 (\<lambda>l l'. raw_bytes l' = raw_bytes l \<and> same_lsa3 (raw_header l) (raw_header l')) raws raws'"
proof -
  have "\<exists>l'. wf_raw l' \<and> raw_bytes l' = raw_bytes l \<and> same_lsa3 (raw_header l) (raw_header l')" if "l \<in> set raws" for l
    using assms(1) that by (auto simp: good_raw_def same_lsa3_def) (metis LsaV3Raw.select_convs LsaV3Header.select_convs LsaV3Header.update_convs(5) LsaV3Header.surjective)
  then obtain f where f: "\<And>l. l \<in> set raws \<Longrightarrow> wf_raw (f l) \<and> raw_bytes (f l) = raw_bytes l \<and> same_lsa3 (raw_header l) (raw_header (f l))"
    by metis
  have "lsu_v3_encode raws = lsu_v3_encode (map f raws)" using f by (simp add: lsu_v3_encode_def comp_def cong: map_cong)
  moreover have "lsu_v3_parse (lsu_v3_encode (map f raws)) = Ok (map f raws)"
    by (rule lsu_v3_round_trip) (use f assms(2) in auto)
  ultimately show ?thesis
    using f by (intro exI [of _ "map f raws"]) (auto simp: list_all2_map2 list_all2_same)
qed

lemma neighbor3_at_modify:
  "neighbor3_at (modify_neighbor3 sw src f s) sw src = map_option f (neighbor3_at s sw src)"
  by (cases "map_of (i3_interfaces s) sw") (simp_all add: neighbor3_at_def modify_neighbor3_def map_of_modify_key)

text \<open>The answer to a request for headers that are all held, as the requester parses it.\<close>

definition answers :: "LsdbV3 \<Rightarrow> ipv4 \<Rightarrow> LsaV3Header list \<Rightarrow> LsaV3Raw list \<Rightarrow> bool" where
  "answers db aid reqs raws \<longleftrightarrow>
     (\<forall>h \<in> set reqs. \<exists>l \<in> set raws. same_lsa3 h (raw_header l)) \<and>
     (\<forall>l \<in> set raws. \<exists>h \<in> set reqs. \<exists>k. requested_lsa db aid (request_of h) = Some k \<and>
        raw_bytes l = raw_bytes k \<and> same_lsa3 h (raw_header l))"

lemma requested_good:
  assumes "inst3_inv p" and "requested_lsa (i3_lsdb p) aid (request_of h) = Some l"
  shows "good_raw (raw_header l) (raw_bytes l)" and "same_lsa3 h (raw_header l)"
proof -
  let ?k = "\<lparr>k3_area = lsa_scope (l3_type h) aid, k3_type = l3_type h, k3_lsid = l3_lsid h, k3_adv = l3_adv h\<rparr>"
  from assms(2) obtain e where e: "lsdb3_get (i3_lsdb p) ?k = Some e" and l: "l = \<lparr>raw_header = e3_header e, raw_bytes = e3_raw e\<rparr>"
    by (auto simp: requested_lsa_def request_of_def)
  from e assms(1) have "entry3_key e = ?k" using lsdb3_get_key by (auto simp: inst3_inv_def)
  with good_entry_held [OF assms(1) e] show "good_raw (raw_header l) (raw_bytes l)" "same_lsa3 h (raw_header l)"
    by (simp_all add: l good_entry_def entry3_key_def same_lsa3_def)
qed

lemma same_lsa3_trans: "same_lsa3 a b \<Longrightarrow> same_lsa3 b c \<Longrightarrow> same_lsa3 a c"
  by (simp add: same_lsa3_def)

lemma list_all2_partner:
  "list_all2 P xs ys \<Longrightarrow> x \<in> set xs \<Longrightarrow> \<exists>y \<in> set ys. P x y"
  "list_all2 P xs ys \<Longrightarrow> y \<in> set ys \<Longrightarrow> \<exists>x \<in> set xs. P x y"
  by (induction rule: list_all2_induct) auto

lemma lsr_answered:
  assumes "inst3_inv p" and "\<forall>h \<in> set reqs. requested_lsa (i3_lsdb p) aid (request_of h) \<noteq> None" and "length reqs < 2 ^ 32"
  shows "\<exists>raws. lsu_v3_parse (lsu_v3_encode (List.map_filter (requested_lsa (i3_lsdb p) aid) (map request_of reqs))) = Ok raws \<and>
    answers (i3_lsdb p) aid reqs raws"
proof -
  define ans where "ans = List.map_filter (requested_lsa (i3_lsdb p) aid) (map request_of reqs)"
  have from_req: "\<exists>h \<in> set reqs. requested_lsa (i3_lsdb p) aid (request_of h) = Some l" if "l \<in> set ans" for l
    using that by (auto simp: ans_def List.map_filter_def)
  have for_req: "\<exists>l \<in> set ans. requested_lsa (i3_lsdb p) aid (request_of h) = Some l" if "h \<in> set reqs" for h
    using that assms(2) by (force simp: ans_def List.map_filter_def)
  have good: "\<forall>l \<in> set ans. good_raw (raw_header l) (raw_bytes l)" using from_req requested_good(1) [OF assms(1)] by blast
  have "length ans < 2 ^ 32" using assms(3) by (simp add: ans_def List.map_filter_def order_le_less_trans [OF length_filter_le])
  from lsu_v3_reparsed [OF good this] obtain raws where raws: "lsu_v3_parse (lsu_v3_encode ans) = Ok raws"
      "list_all2 (\<lambda>l l'. raw_bytes l' = raw_bytes l \<and> same_lsa3 (raw_header l) (raw_header l')) ans raws" by blast
  have fwd: "\<exists>l' \<in> set raws. same_lsa3 (raw_header l) (raw_header l')" if "l \<in> set ans" for l
    using list_all2_partner(1) [OF raws(2) that] by blast
  have bck: "\<exists>l \<in> set ans. raw_bytes l' = raw_bytes l \<and> same_lsa3 (raw_header l) (raw_header l')" if "l' \<in> set raws" for l'
    using list_all2_partner(2) [OF raws(2) that] by blast
  have "answers (i3_lsdb p) aid reqs raws"
    unfolding answers_def
  proof (intro conjI ballI)
    fix h assume "h \<in> set reqs"
    then obtain l where "l \<in> set ans" "same_lsa3 h (raw_header l)" using for_req requested_good(2) [OF assms(1)] by blast
    with fwd show "\<exists>l \<in> set raws. same_lsa3 h (raw_header l)" using same_lsa3_trans by blast
  next
    fix l assume "l \<in> set raws"
    then obtain k where k: "k \<in> set ans" "raw_bytes l = raw_bytes k" "same_lsa3 (raw_header k) (raw_header l)" using bck by blast
    then obtain h where "h \<in> set reqs" "requested_lsa (i3_lsdb p) aid (request_of h) = Some k" using from_req by blast
    with k show "\<exists>h \<in> set reqs. \<exists>k. requested_lsa (i3_lsdb p) aid (request_of h) = Some k \<and> raw_bytes l = raw_bytes k \<and>
        same_lsa3 h (raw_header l)"
      using requested_good(2) [OF assms(1)] same_lsa3_trans by blast
  qed
  then show ?thesis using raws(1) by (auto simp: ans_def)
qed

lemma answered_installed:
  assumes "answers db aid reqs raws" and "iface_area3 sw r = aid"
    and "area_type3 r aid = Normal \<or> (\<forall>h \<in> set reqs. l3_type h \<noteq> AsExternalV3)"
  shows "accepted_entries sw raws r = map (\<lambda>l. \<lparr>e3_header = raw_header l, e3_raw = raw_bytes l,
      e3_area = lsa_scope (l3_type (raw_header l)) aid\<rparr>) raws"
proof -
  have "\<not> (l3_type (raw_header l) = AsExternalV3 \<and> area_type3 r aid \<noteq> Normal)" if "l \<in> set raws" for l
    using assms(1,3) that by (auto simp: answers_def same_lsa3_def)
  then show ?thesis by (simp add: accepted_entries_def Let_def assms(2) cong: filter_cong)
qed

lemma answered_stored:
  fixes raws :: "LsaV3Raw list" and aid :: ipv4
  defines "es \<equiv> map (\<lambda>l. \<lparr>e3_header = raw_header l, e3_raw = raw_bytes l, e3_area = lsa_scope (l3_type (raw_header l)) aid\<rparr>) raws"
  assumes "answers db aid reqs raws" and "h \<in> set reqs"
  shows "\<exists>e l. requested_lsa db aid (request_of h) = Some l \<and> e3_raw e = raw_bytes l \<and>
    map_of (rev (map (\<lambda>e. (entry3_key e, e)) es))
      \<lparr>k3_area = lsa_scope (l3_type h) aid, k3_type = l3_type h, k3_lsid = l3_lsid h, k3_adv = l3_adv h\<rparr> = Some e"
proof -
  let ?e = "\<lambda>l. \<lparr>e3_header = raw_header l, e3_raw = raw_bytes l, e3_area = lsa_scope (l3_type (raw_header l)) aid\<rparr>"
  let ?k = "\<lparr>k3_area = lsa_scope (l3_type h) aid, k3_type = l3_type h, k3_lsid = l3_lsid h, k3_adv = l3_adv h\<rparr>"
  obtain l' where l': "l' \<in> set raws" "same_lsa3 h (raw_header l')" using assms(2,3) unfolding answers_def by blast
  have k: "entry3_key (?e l') = ?k" using l'(2) by (simp add: entry3_key_def same_lsa3_def)
  obtain e where e: "map_of (rev (map (\<lambda>e. (entry3_key e, e)) es)) ?k = Some e" "e \<in> set es" "entry3_key e = ?k"
    using list_ex_rev_key [of "?e l'" es] l'(1) unfolding k by (auto simp: es_def)
  then obtain l2 where l2: "l2 \<in> set raws" "e = ?e l2" by (auto simp: es_def)
  obtain h2 l where h2: "requested_lsa db aid (request_of h2) = Some l" "raw_bytes l2 = raw_bytes l" "same_lsa3 h2 (raw_header l2)"
    using assms(2) l2(1) unfolding answers_def by blast
  have "request_of h2 = request_of h" using e(3) h2(3) by (simp add: l2(2) entry3_key_def request_of_def same_lsa3_def)
  with h2(1,2) e(1) show ?thesis using l2(2) by (intro exI [of _ e] exI [of _ l]) simp
qed

text \<open>
  C34. Loading completes. A router in Loading sends its request list; the neighbor, holding every LSA asked for, answers from its
  database; the bytes of that answer parse, and processing them empties the request list, makes the adjacency
  Full, and stores for each requested header an LSA with exactly the bytes the neighbor holds.
\<close>

theorem v3_loading_completes:
  fixes r p :: "'c InstanceV3"
  assumes r: "inst3_inv r" "neighbor3_at r sw pid = Some n" "nb3_state n = LoadingV3"
    and p: "inst3_inv p" "neighbor3_at p sw' rid = Some m" "nb3_pending_lsu m = []"
    and area: "iface_area3 sw' p = aid" "iface_area3 sw r = aid"
    and type5: "area_type3 r aid = Normal \<or> (\<forall>h \<in> set (nb3_request_list n). l3_type h \<noteq> AsExternalV3)"
    and held: "\<forall>h \<in> set (nb3_request_list n). requested_lsa (i3_lsdb p) aid (request_of h) \<noteq> None"
    and fits: "length (nb3_request_list n) < 2 ^ 32"
  shows "\<exists>m' raws n'. neighbor3_at (process_lsr_v3 sw' rid (map request_of (nb3_request_list n)) p) sw' rid = Some m' \<and>
    lsu_v3_parse (lsu_v3_encode (nb3_pending_lsu m')) = Ok raws \<and>
    neighbor3_at (process_lsu_v3 sw pid raws r) sw pid = Some n' \<and> nb3_state n' = FullV3 \<and> nb3_request_list n' = [] \<and>
    (\<forall>h \<in> set (nb3_request_list n). \<exists>e l. requested_lsa (i3_lsdb p) aid (request_of h) = Some l \<and>
       lsdb3_get (i3_lsdb (process_lsu_v3 sw pid raws r))
         \<lparr>k3_area = lsa_scope (l3_type h) aid, k3_type = l3_type h, k3_lsid = l3_lsid h, k3_adv = l3_adv h\<rparr> = Some e \<and>
       e3_raw e = raw_bytes l)"
proof -
  obtain raws where raws: "lsu_v3_parse (lsu_v3_encode (List.map_filter (requested_lsa (i3_lsdb p) aid)
      (map request_of (nb3_request_list n)))) = Ok raws" and ans: "answers (i3_lsdb p) aid (nb3_request_list n) raws"
    using lsr_answered [OF p(1) held fits] by blast
  define m' where "m' = m\<lparr>nb3_pending_lsu := List.map_filter (requested_lsa (i3_lsdb p) aid) (map request_of (nb3_request_list n))\<rparr>"
  have m': "neighbor3_at (process_lsr_v3 sw' rid (map request_of (nb3_request_list n)) p) sw' rid = Some m'"
    using p by (simp add: process_lsr_v3_def Let_def neighbor3_at_modify m'_def area)
  define es where "es = accepted_entries sw raws r"
  note u = neighbor3_at_process_lsu [OF r(1), of sw pid raws, folded es_def] lsdb3_get_process_lsu [of sw pid raws r, folded es_def]
  have es: "es = map (\<lambda>l. \<lparr>e3_header = raw_header l, e3_raw = raw_bytes l, e3_area = lsa_scope (l3_type (raw_header l)) aid\<rparr>) raws"
    unfolding es_def by (rule answered_installed [OF ans area(2) type5])
  have "filter (\<lambda>q. \<not> list_ex (same_lsa3 q) (map e3_header es)) (nb3_request_list n) = []"
    using ans by (auto simp: es answers_def filter_empty_conv list_ex_iff)
  then have full: "nb3_state (updated (map e3_header es) n) = FullV3" "nb3_request_list (updated (map e3_header es) n) = []"
    using r(3) by (simp_all add: updated_def)
  have "\<exists>e l. requested_lsa (i3_lsdb p) aid (request_of h) = Some l \<and>
       lsdb3_get (i3_lsdb (process_lsu_v3 sw pid raws r))
         \<lparr>k3_area = lsa_scope (l3_type h) aid, k3_type = l3_type h, k3_lsid = l3_lsid h, k3_adv = l3_adv h\<rparr> = Some e \<and>
       e3_raw e = raw_bytes l" if "h \<in> set (nb3_request_list n)" for h
    using answered_stored [OF ans that, folded es] unfolding u(2) by auto
  then show ?thesis
    using m' raws u(1) r(2) full
    by (intro exI [of _ m'] exI [of _ raws] exI [of _ "updated (map e3_header es) n"]) (simp add: m'_def)
qed

section \<open>Witnesses\<close>

text \<open>Routers 1 and 2 on one link, router 2 holding a Router-LSA of its own that router 1 still requests.\<close>

definition example_update3 :: LsaEntryV3 where
  "example_update3 = seal_lsa \<lparr>l3_age = 0, l3_type = RouterV3, l3_lsid = 0, l3_adv = 2, l3_seq = INITIAL_SEQUENCE_NUMBER,
     l3_checksum = 0, l3_length = 24\<rparr> [0, 0, 0, 0x13] (Some 0)"

definition example_nbr3 :: "ipv4 \<Rightarrow> NeighborStateV3 \<Rightarrow> LsaV3Header list \<Rightarrow> NeighborV3" where
  "example_nbr3 nid st reqs = (new_neighbor3 0 nid 9 (example_hello3 []))\<lparr>nb3_state := st, nb3_request_list := reqs\<rparr>"

definition example_iface3 :: "(ipv4 \<times> NeighborV3) list \<Rightarrow> InterfaceV3" where
  "example_iface3 ns =
     \<lparr>if3_io = \<lparr>io3_name = ''eth0'', io3_sw_if_index = 1, io3_kernel_ifindex = 3, io3_link_local = 8, io3_mac_address = [],
        io3_outer_vlan_id = None, io3_inner_vlan_id = None\<rparr>,
      if3_area_id = 0, if3_interface_id = 3, if3_network_type = NetPointToPointV3, if3_hello_interval = 10, if3_dead_interval = 40,
      if3_retransmit_interval = 5, if3_transmit_delay = 1, if3_priority = 1, if3_cost = 10, if3_instance_id = 0,
      if3_state = PointToPointV3, if3_dr = 0, if3_bdr = 0, if3_neighbors = ns, if3_last_hello_sent = 0, if3_needs_refresh = False,
      if3_global_prefixes = [], if3_static_neighbors = []\<rparr>"

definition example_inst3 :: "ipv4 \<Rightarrow> (ipv4 \<times> NeighborV3) list \<Rightarrow> LsaEntryV3 list \<Rightarrow> unit InstanceV3" where
  "example_inst3 rid ns es = (instance3_new rid)\<lparr>i3_interfaces := [(1, example_iface3 ns)], i3_lsdb := fold lsdb3_insert es lsdb3_new\<rparr>"

lemma example_update3_good: "good_entry example_update3" and example_update3_wf: "wf_raw (raw_of example_update3)"
  unfolding example_update3_def raw_of_def by (auto simp: good_entry_def intro!: good_raw_wf seal_lsa_wf)

lemma example_inst3_inv:
  assumes "nid \<noteq> rid" and "st \<noteq> DownV3" and "st = FullV3 \<longrightarrow> reqs = []" and "st = LoadingV3 \<longrightarrow> reqs \<noteq> []" and "\<forall>e \<in> set es. good_entry e"
  shows "inst3_inv (example_inst3 rid [(nid, example_nbr3 nid st reqs)] es)"
proof -
  have "inst3_inv (fold (\<lambda>e s. s\<lparr>i3_lsdb := lsdb3_insert e (i3_lsdb s)\<rparr>) es (example_inst3 rid [(nid, example_nbr3 nid st reqs)] []))"
  proof (rule inst3_inv_fold)
    show "inst3_inv (example_inst3 rid [(nid, example_nbr3 nid st reqs)] [])"
      using assms(1-4) inst3_inv_new [of rid]
      by (simp add: inst3_inv_def example_inst3_def instance3_new_def ifaces3_ok_def iface3_ok_def role3_ok_def nbrs3_ok_def nbr3_ok_def
          example_iface3_def example_nbr3_def new_neighbor3_def elects_dr_def)
  qed (use assms(5) in \<open>auto intro: inst3_inv_insert\<close>)
  then show ?thesis unfolding fold_lsdb3_insert [symmetric] by (simp add: example_inst3_def instance3_new_def)
qed

theorem insert_self_lsa_supersedes_witness:
  "\<exists>s' e. insert_self_lsa RouterV3 0 [0, 0, 0, 0x13] (Some 0) (example_inst3 2 [(1, example_nbr3 1 FullV3 [])] [example_update3]) = Ok s' \<and>
     l3_seq (e3_header e) = INITIAL_SEQUENCE_NUMBER + 1 \<and> fletcher16_verify (drop 2 (e3_raw e)) \<and>
     neighbor3_at s' 1 1 = Some (queue_lsu e (example_nbr3 1 FullV3 []))"
proof -
  let ?s = "example_inst3 2 [(1, example_nbr3 1 FullV3 [])] [example_update3]"
  have inv: "inst3_inv ?s" by (rule example_inst3_inv) (use example_update3_good in auto)
  have held: "lsdb3_get (i3_lsdb ?s) \<lparr>k3_area = Some 0, k3_type = RouterV3, k3_lsid = 0, k3_adv = i3_router_id ?s\<rparr> = Some example_update3"
    by (simp add: example_inst3_def instance3_new_def lsdb3_get_insert entry3_key_def example_update3_def)
  have at: "neighbor3_at ?s 1 1 = Some (example_nbr3 1 FullV3 [])" by (simp add: neighbor3_at_def example_inst3_def example_iface3_def)
  obtain s' e where r: "insert_self_lsa RouterV3 0 [0, 0, 0, 0x13] (Some 0) ?s = Ok s'"
    "l3_seq (e3_header e) = l3_seq (e3_header example_update3) + 1" "fletcher16_verify (drop 2 (e3_raw e))"
    "neighbor3_at s' 1 1 = map_option (\<lambda>n. if flooded_to ?s None 1 1 n e then queue_lsu e n else n) (neighbor3_at ?s 1 1)"
    "lsdb3_get (i3_lsdb s') = (lsdb3_get (i3_lsdb ?s))(\<lparr>k3_area = Some 0, k3_type = RouterV3, k3_lsid = 0, k3_adv = i3_router_id ?s\<rparr> \<mapsto> e)"
    using insert_self_lsa_supersedes [OF inv, of "[0, 0, 0, 0x13]" RouterV3 0 "Some 0"] unfolding held by auto
  have "inst3_inv s'" by (rule inst3_inv_insert_self [OF r(1) inv]) simp
  then have "entry3_key e = \<lparr>k3_area = Some 0, k3_type = RouterV3, k3_lsid = 0, k3_adv = i3_router_id ?s\<rparr>"
    using lsdb3_get_key [of "i3_lsdb s'"] r(5) by (simp add: inst3_inv_def)
  then have "flooded_to ?s None 1 1 (example_nbr3 1 FullV3 []) e"
    by (simp add: flooded_to_def example_nbr3_def floods_into_def entry3_key_def iface_area3_def example_inst3_def example_iface3_def instance3_new_def)
  with r at show ?thesis by (auto simp: example_update3_def)
qed

theorem lsu_v3_installs_and_floods_witness:
  "neighbor3_at (process_lsu_v3 1 2 [raw_of example_update3] (example_inst3 1 [(2, example_nbr3 2 LoadingV3 [e3_header example_update3])] [])) 1 2 =
     Some ((example_nbr3 2 FullV3 [])\<lparr>nb3_pending_acks := [e3_header example_update3]\<rparr>)"
proof -
  let ?s = "example_inst3 1 [(2, example_nbr3 2 LoadingV3 [e3_header example_update3])] []"
  have inv: "inst3_inv ?s" by (rule example_inst3_inv) auto
  have acc: "map e3_header (accepted_entries 1 [raw_of example_update3] ?s) = [e3_header example_update3]"
    by (simp add: accepted_entries_def raw_of_def example_update3_def)
  have at: "neighbor3_at ?s 1 2 = Some (example_nbr3 2 LoadingV3 [e3_header example_update3])"
    by (simp add: neighbor3_at_def example_inst3_def example_iface3_def)
  show ?thesis
    using lsu_v3_installs_and_floods [OF inv, of 1 2 "[raw_of example_update3]"] unfolding acc at
    by (simp add: updated_def example_nbr3_def new_neighbor3_def same_lsa3_def)
qed

theorem v3_loading_completes_witness:
  "\<exists>raws n'. lsu_v3_parse (lsu_v3_encode [raw_of example_update3]) = Ok raws \<and>
     neighbor3_at (process_lsu_v3 1 2 raws (example_inst3 1 [(2, example_nbr3 2 LoadingV3 [e3_header example_update3])] [])) 1 2 = Some n' \<and>
     nb3_state n' = FullV3"
proof -
  let ?r = "example_inst3 1 [(2, example_nbr3 2 LoadingV3 [e3_header example_update3])] []"
  let ?p = "example_inst3 2 [(1, example_nbr3 1 FullV3 [])] [example_update3]"
  have r: "inst3_inv ?r" by (rule example_inst3_inv) auto
  have p: "inst3_inv ?p" by (rule example_inst3_inv) (use example_update3_good in auto)
  have ar: "neighbor3_at ?r 1 2 = Some (example_nbr3 2 LoadingV3 [e3_header example_update3])"
    and ap: "neighbor3_at ?p 1 1 = Some (example_nbr3 1 FullV3 [])"
    by (simp_all add: neighbor3_at_def example_inst3_def example_iface3_def)
  have n: "nb3_state (example_nbr3 2 LoadingV3 [e3_header example_update3]) = LoadingV3"
    "nb3_request_list (example_nbr3 2 LoadingV3 [e3_header example_update3]) = [e3_header example_update3]"
    "nb3_pending_lsu (example_nbr3 1 FullV3 []) = []"
    by (simp_all add: example_nbr3_def new_neighbor3_def)
  have areas: "iface_area3 1 ?p = 0" "iface_area3 1 ?r = 0" "area_type3 ?r 0 = Normal"
    by (simp_all add: iface_area3_def area_type3_def example_inst3_def example_iface3_def instance3_new_def)
  have held: "requested_lsa (i3_lsdb ?p) 0 (request_of (e3_header example_update3)) = Some (raw_of example_update3)"
    by (simp add: requested_lsa_def request_of_def example_inst3_def instance3_new_def lsdb3_get_insert entry3_key_def example_update3_def
        lsa_scope_def raw_of_def)
  have queue: "neighbor3_at (process_lsr_v3 1 1 [request_of (e3_header example_update3)] ?p) 1 1 =
      Some ((example_nbr3 1 FullV3 [])\<lparr>nb3_pending_lsu := [raw_of example_update3]\<rparr>)"
    by (simp add: process_lsr_v3_def Let_def neighbor3_at_modify areas List.map_filter_def held ap n)
  show ?thesis
    using v3_loading_completes [OF r ar n(1) p ap n(3) areas(1,2), unfolded n(2)] areas(3) held queue by auto
qed

end
