(* ===== verification/Describe_V3.thy ===== *)
theory Describe_V3
  imports Update_V3
begin

text \<open>
  What the Router-LSAs of an OSPFv3 instance (\<^verbatim>\<open>originate_router_lsa\<close> of \<^verbatim>\<open>src/instance_v3.rs\<close>) say once they are in the
  database: one per area, read back by the parser of the SPF calculation as exactly the adjacencies of that area.
\<close>

section \<open>Flooding leaves the links alone\<close>

lemma flooded_links [simp]:
  "router_links3 rid (if b then flood_iface e ex i else i) = router_links3 rid i"
  "if3_area_id (if b then flood_iface e ex i else i) = if3_area_id i"
proof -
  have p2p: "map g (filter (\<lambda>n. nb3_state n = FullV3) (map snd (map_values (\<lambda>nid n. if c nid n then queue_lsu e n else n) m))) =
      map g (filter (\<lambda>n. nb3_state n = FullV3) (map snd m))"
    if "\<And>n. g (queue_lsu e n) = g n" for c and m :: "(ipv4 \<times> NeighborV3) list" and g :: "NeighborV3 \<Rightarrow> RouterLinkV3"
  proof (induction m)
    case (Cons x m)
    then show ?case using that by (cases x) (simp add: map_values_def queue_lsu_def)
  qed (simp add: map_values_def)
  have "p2p_links3 (flood_iface e ex i) = p2p_links3 i"
    unfolding p2p_links3_def flood_iface_def by (simp add: p2p queue_lsu_def)
  moreover have fields: "if3_cost (flood_iface e ex i) = if3_cost i" "if3_interface_id (flood_iface e ex i) = if3_interface_id i"
    "if3_dr (flood_iface e ex i) = if3_dr i" "if3_network_type (flood_iface e ex i) = if3_network_type i"
    by (simp_all add: flood_iface_def)
  moreover have "dr_interface_id rid (flood_iface e ex i) = dr_interface_id rid i"
    by (simp add: dr_interface_id_def flood_iface_def queue_lsu_def split: option.split)
  ultimately show "router_links3 rid (if b then flood_iface e ex i else i) = router_links3 rid i"
    using fields by (cases b) (simp_all add: router_links3_def split: option.split)
  show "if3_area_id (if b then flood_iface e ex i else i) = if3_area_id i" by (simp add: flood_iface_def)
qed

lemma flooded_area_links [simp]:
  "area_links3 (flood_lsa_v3 e ex s) aid = area_links3 s aid" "areas3 (flood_lsa_v3 e ex s) = areas3 s"
proof -
  have "map (router_links3 rid) (filter (\<lambda>i. if3_area_id i = aid) (map snd (map_values (\<lambda>_ i. if P i then flood_iface e ex i else i) m))) =
      map (router_links3 rid) (filter (\<lambda>i. if3_area_id i = aid) (map snd m))" for rid P and m :: "(u32 \<times> InterfaceV3) list"
    by (induction m) (auto simp: map_values_def split: prod.splits)
  then show "area_links3 (flood_lsa_v3 e ex s) aid = area_links3 s aid" by (simp add: area_links3_def flood_lsa_v3_def)
  have "map (if3_area_id \<circ> snd) (map_values (\<lambda>_ i. if P i then flood_iface e ex i else i) m) = map (if3_area_id \<circ> snd) m"
    for P and m :: "(u32 \<times> InterfaceV3) list"
    by (induction m) (auto simp: map_values_def split: prod.splits)
  then show "areas3 (flood_lsa_v3 e ex s) = areas3 s" by (simp add: areas3_def flood_lsa_v3_def)
qed

section \<open>One Router-LSA per area\<close>






text \<open>A designated router without any Full neighbor describes the network all the same.\<close>

definition lone_dr :: "ipv4 \<Rightarrow> InterfaceV3 \<Rightarrow> bool" where
  "lone_dr rid i \<longleftrightarrow> elects_dr (if3_network_type i) \<and> if3_dr i = rid \<and> (\<forall>n \<in> snd ` set (if3_neighbors i). nb3_state n \<noteq> FullV3)"

lemma lone_dr_link:
  "lone_dr rid i \<Longrightarrow> rid \<noteq> 0 \<Longrightarrow>
   router_links3 rid i = [\<lparr>rl3_type = TYPE_TRANSIT_NETWORK, rl3_metric = if3_cost i, rl3_interface_id = if3_interface_id i,
     rl3_neighbor_interface_id = if3_interface_id i, rl3_neighbor_router_id = rid\<rparr>]"
  by (simp add: lone_dr_def router_links3_def dr_interface_id_def)






end
