(* ===== verification/Election_V3.thy ===== *)
theory Election_V3
  imports Instance_V3
begin

text \<open>
  The election of the designated router in \<^verbatim>\<open>src/instance_v3.rs\<close> (\<^verbatim>\<open>dr_election\<close>) against the one in
  \<^verbatim>\<open>src/interface.rs\<close> (\<^verbatim>\<open>run_dr_election\<close>): two implementations of one algorithm, the first on router ids and with
  candidates of priority zero left out beforehand, the second on interface addresses and with the priority tested at
  every selection. They elect the same routers, so that what is proved of the second holds of the first.
\<close>

section \<open>An OSPFv3 interface seen as an OSPFv2 interface\<close>

fun v2_state :: "NeighborStateV3 \<Rightarrow> NeighborState" where
  "v2_state DownV3 = Down"
| "v2_state InitV3 = Init"
| "v2_state TwoWayV3 = TwoWay"
| "v2_state ExStartV3 = ExStart"
| "v2_state ExchangeV3 = Exchange"
| "v2_state LoadingV3 = Loading"
| "v2_state FullV3 = Full"

definition v2_neighbor :: "NeighborV3 \<Rightarrow> Neighbor" where
  "v2_neighbor n = (neighbor_new 0 (nb3_router_id n) (nb3_router_id n))
     \<lparr>n_state := v2_state (nb3_state n), n_priority := nb3_priority n, n_dr := nb3_dr n, n_bdr := nb3_bdr n\<rparr>"

definition v2_interface :: "ipv4 \<Rightarrow> InterfaceV3 \<Rightarrow> OspfInterface" where
  "v2_interface self i = (interface_new 0 [] 0 self 0 (if3_area_id i) Broadcast self)
     \<lparr>if_priority := if3_priority i, if_dr := if3_dr i, if_bdr := if3_bdr i,
      neighbors := map (\<lambda>(nid, n). (nid, v2_neighbor n)) (if3_neighbors i)\<rparr>"

definition v2_candidate :: "CandidateV3 \<Rightarrow> Candidate" where
  "v2_candidate c = \<lparr>c_router_id = c3_router_id c, c_ip_address = c3_router_id c, c_priority = c3_priority c,
     c_declared_dr = c3_declared_dr c, c_declared_bdr = c3_declared_bdr c\<rparr>"

section \<open>Both select the same candidates\<close>

lemma foldl_map_image: "foldl (\<lambda>a b. if f a b = Greater then a else b) (g x) (map g xs) =
    g (foldl (\<lambda>a b. if f (g a) (g b) = Greater then a else b) x xs)"
proof (induction xs arbitrary: x)
  case (Cons y ys)
  then show ?case by (cases "f (g x) (g y) = Greater") simp_all
qed simp

lemma max_by_map: "max_by f (map g xs) = map_option g (max_by (\<lambda>a b. f (g a) (g b)) xs)"
  by (cases xs) (simp_all add: foldl_map_image)

lemma v2_candidate_orders:
  "(\<lambda>a b. dr_order (v2_candidate a) (v2_candidate b)) = dr3_order"
  "(\<lambda>a b. bdr_order (v2_candidate a) (v2_candidate b)) = bdr3_order"
  by (simp_all add: fun_eq_iff dr_order_def dr3_order_def bdr_order_def bdr3_order_def v2_candidate_def)

lemma is_two_way_v2: "is_two_way_or_better (v2_state st) \<longleftrightarrow> st \<ge> TwoWayV3"
  by (cases st) (simp_all add: is_two_way_or_better_def state_order state3_order)

lemma eligible_candidates:
  "filter (\<lambda>c. c_priority c > 0) (election_candidates (v2_interface self i) d b) = map v2_candidate (election3_candidates self i d b)"
proof -
  have "filter (\<lambda>c. c_priority c > 0) (map neighbor_candidate (filter (\<lambda>n. is_two_way_or_better (n_state n))
      (map snd (map (\<lambda>(nid, n). (nid, v2_neighbor n)) m)))) =
    map v2_candidate (map neighbor3_candidate (filter (\<lambda>n. nb3_state n \<ge> TwoWayV3 \<and> nb3_priority n > 0) (map snd m)))" for m
    by (induction m) (auto simp: neighbor_candidate_def v2_neighbor_def v2_candidate_def neighbor3_candidate_def is_two_way_v2 neighbor_new_def)
  then show ?thesis
    by (simp add: election_candidates_def election3_candidates_def self_candidate_def v2_interface_def interface_new_def v2_candidate_def)
qed

lemma elect_pass_v3:
  assumes "filter (\<lambda>c. c_priority c > 0) cs = map v2_candidate cs3"
  shows "elect_pass cs = elect3_pass cs3"
proof -
  have sel: "filter (\<lambda>c. P (c_declared_dr c) (c_ip_address c)) (map v2_candidate cs3) =
      map v2_candidate (filter (\<lambda>c. P (c3_declared_dr c) (c3_router_id c)) cs3)" for P
    by (simp add: filter_map o_def v2_candidate_def)
  have third: "filter (\<lambda>c. c_priority c > 0 \<and> c_ip_address c \<noteq> d) cs = map v2_candidate (filter (\<lambda>c. c3_router_id c \<noteq> d) cs3)" for d
    using sel [of "\<lambda>_ a. a \<noteq> d"] unfolding assms [symmetric] filter_filter by (simp add: conj_commute)
  have ip: "map_option c_ip_address (map_option v2_candidate x) = map_option c3_router_id x"
    "(case map_option v2_candidate x of None \<Rightarrow> z | Some c \<Rightarrow> c_ip_address c) = (case x of None \<Rightarrow> z | Some c \<Rightarrow> c3_router_id c)" for x z
    by (cases x; simp add: v2_candidate_def)+
  show ?thesis
    unfolding elect_pass_def elect3_pass_def Let_def assms sel [of "(=)"] sel [of "\<lambda>x y. x \<noteq> y"] third max_by_map v2_candidate_orders ip by (rule refl)
qed

lemma v2_interface_fields:
  "if_dr (v2_interface self i) = if3_dr i" "if_bdr (v2_interface self i) = if3_bdr i" "if_address (v2_interface self i) = self"
  by (simp_all add: v2_interface_def interface_new_def)

lemma election3_result_v2: "election3_result self i = dr_election_result (v2_interface self i)"
  unfolding election3_result_def dr_election_result_def v2_interface_fields elect_pass_v3 [OF eligible_candidates] Let_def by (rule refl)

text \<open>
  C40. The OSPFv3 election is the OSPFv2 election. On an interface whose neighbors are taken over with their router
  id as address, \<^verbatim>\<open>dr_election\<close> of \<^verbatim>\<open>instance_v3.rs\<close> and \<^verbatim>\<open>run_dr_election\<close> of \<^verbatim>\<open>interface.rs\<close> elect the same designated
  router and backup and put the interface into the same state, ties, reruns and priorities of zero included.
\<close>

theorem dr_election_v3_equiv:
  "case run_dr_election (v2_interface self i) of (st, j) \<Rightarrow>
     if3_dr (dr_election_v3 self i) = if_dr j \<and> if3_bdr (dr_election_v3 self i) = if_bdr j \<and>
     if3_state (dr_election_v3 self i) = (if st = DR then DRV3 else if st = Backup then BackupV3 else DROtherV3)"
  unfolding run_dr_election_def dr_election_v3_def election3_result_v2
  by (cases "dr_election_result (v2_interface self i)") (simp add: Let_def v2_interface_fields)

end
