(* ===== verification/Spec2Isabelle.thy ===== *)
theory Spec2Isabelle
  imports Query_Client Describe_V3 Election_V3
begin

text \<open>
  A verification of ospfd, an OSPF routing daemon in Rust.

  \<^bold>\<open>The program.\<close> A datagram is checked for authentication (\<^verbatim>\<open>packet/auth.rs\<close>), parsed
  (\<^verbatim>\<open>packet/mod.rs\<close> and its bodies) and handed to the protocol instance (\<^verbatim>\<open>instance.rs\<close>), which keeps the
  interfaces with their neighbors (\<^verbatim>\<open>proto/interface.rs\<close>, \<^verbatim>\<open>proto/neighbor.rs\<close>), one link-state database per
  area and one for AS-External-LSAs (\<^verbatim>\<open>lsdb.rs\<close>, \<^verbatim>\<open>area.rs\<close>), answers with packets, originates LSAs about
  itself, and runs SPF (\<^verbatim>\<open>proto/spf.rs\<close>); the routes go to a cache (\<^verbatim>\<open>rib.rs\<close>) and on to the RIB daemon
  (\<^verbatim>\<open>rib_client.rs\<close>). A task per instance (\<^verbatim>\<open>main.rs\<close>) drives it by packets, timers and polls of VPP, and exchanges packets through
  punt or raw sockets (\<^verbatim>\<open>io_punt.rs\<close>, \<^verbatim>\<open>io.rs\<close>). One configuration file (\<^verbatim>\<open>config.rs\<close>) describes the instances
  of all VRFs, and a control socket (\<^verbatim>\<open>control.rs\<close>) answers queries about them. OSPFv3 has its own codec (\<^verbatim>\<open>packet_v3\<close>), database, SPF, route cache and instance (\<^verbatim>\<open>instance_v3.rs\<close>), which a task of its own drives (\<^verbatim>\<open>daemon_v3.rs\<close>).
  All paths are below \<^verbatim>\<open>src/src/\<close>.

  \<^bold>\<open>Theories.\<close> A definition bears the name of the Rust function where that is possible; methods of
  different types that share a name carry the type as a prefix.

  \<^item> \<^verbatim>\<open>Ospf_Prelude\<close>: machine integers, the outcome type (\<open>Ok\<close>, \<open>Err\<close>, \<open>Panic\<close>), hash maps as
    association lists with the locale \<open>hash_map\<close> that states their laws.
  \<^item> \<^verbatim>\<open>Wire\<close>: big-endian reads and writes on byte lists, where an index out of range is \<open>Panic\<close>.
  \<^item> \<^verbatim>\<open>Checksum\<close> (\<^verbatim>\<open>packet/checksum.rs\<close>): the Internet checksum and the Fletcher checksum on i32
    accumulators, and where the accumulator overflows.
  \<^item> \<^verbatim>\<open>Lsa_Codec\<close>, \<^verbatim>\<open>Packet_Bodies\<close>, \<^verbatim>\<open>Packet_Codec\<close> (\<^verbatim>\<open>packet/lsa.rs\<close>, \<^verbatim>\<open>hello.rs\<close>, \<^verbatim>\<open>dd.rs\<close>, \<^verbatim>\<open>lsr.rs\<close>,
    \<^verbatim>\<open>lsu.rs\<close>, \<^verbatim>\<open>mod.rs\<close>): parsers and encoders; round trips, absence of panics, checksums.
  \<^item> \<^verbatim>\<open>Auth\<close> (\<^verbatim>\<open>packet/auth.rs\<close>): sending and verifying authenticated packets; the digests are parameters.
  \<^item> \<^verbatim>\<open>Lsdb\<close> (\<^verbatim>\<open>lsdb.rs\<close>, \<^verbatim>\<open>area.rs\<close>): the database, its invariant, the freshness order, aging, origination.
  \<^item> \<^verbatim>\<open>Neighbor_Fsm\<close>, \<^verbatim>\<open>Interface_Fsm\<close> (\<^verbatim>\<open>proto/neighbor.rs\<close>, \<^verbatim>\<open>proto/interface.rs\<close>): the two state machines
    and the election of the designated router.
  \<^item> \<^verbatim>\<open>Shortest_Path\<close>, \<^verbatim>\<open>Spf\<close> (\<^verbatim>\<open>proto/spf.rs\<close>): the abstract shortest-path problem and the Dijkstra loop
    of the program that solves it; the routes derived from it.
  \<^item> \<^verbatim>\<open>Rib\<close> (\<^verbatim>\<open>rib.rs\<close>, \<^verbatim>\<open>rib_client.rs\<close>): the route cache and the contents of the bulk messages.
  \<^item> \<^verbatim>\<open>Instance_State\<close> (\<^verbatim>\<open>instance.rs\<close>, records of \<^verbatim>\<open>config.rs\<close>): the instance, its construction, Hello
    processing, timers, SPF throttle. \<^verbatim>\<open>Instance_Inv\<close>: its invariant, and the contracts (locales) for
    operations on a database, an interface and a neighbor, with their interpretations.
  \<^item> \<^verbatim>\<open>Db_Exchange\<close>: Database Description, requests and their retransmission; how a Database Description is answered
    until both sides have described everything.
  \<^item> \<^verbatim>\<open>Origination\<close>: the LSAs the router originates, redistribution, the SPF run over all areas.
  \<^item> \<^verbatim>\<open>Flooding\<close>: flooding, Link State Updates, packet dispatch, maintenance, reload.
    \<^verbatim>\<open>Adjacency\<close>: what an update does to the sender's adjacency. \<^verbatim>\<open>Instance_Reach\<close>: the instance as a state
    machine, its invariant in every reachable state, and where news is flooded.
  \<^item> \<^verbatim>\<open>Codec_V3\<close>, \<^verbatim>\<open>Packets_V3\<close> (\<^verbatim>\<open>packet_v3/*.rs\<close>): the OSPFv3 headers, LSA bodies and packets; round trips,
    absence of panics in the parsers, and the one panic in an encoder.
  \<^item> \<^verbatim>\<open>Lsdb_V3\<close> (\<^verbatim>\<open>lsdb_v3.rs\<close>): the OSPFv3 database and its generation counter.
  \<^item> \<^verbatim>\<open>Spf_V3\<close>, \<^verbatim>\<open>Spf_V3_Paths\<close> (\<^verbatim>\<open>spf_v3.rs\<close>): the four passes of the OSPFv3 route calculation; shortest paths,
    next hops, termination and longest-prefix resolution, for every order of ties in the heap.
  \<^item> \<^verbatim>\<open>Rib_V3\<close> (\<^verbatim>\<open>rib_v3.rs\<close>, \<^verbatim>\<open>rib_client.rs\<close>): the OSPFv3 route cache and its bulk messages.
  \<^item> \<^verbatim>\<open>Instance_V3\<close> (\<^verbatim>\<open>instance_v3.rs\<close>, records of \<^verbatim>\<open>io_v3.rs\<close> and \<^verbatim>\<open>config.rs\<close>): the OSPFv3 instance, Hello processing,
    election, timers, interface refresh, reload. \<^verbatim>\<open>Election_V3\<close>: its election agrees with that of OSPFv2.
  \<^item> \<^verbatim>\<open>Exchange_V3\<close>: Database Description of OSPFv3, and that the exchange between two routers ends with the right
    requests. \<^verbatim>\<open>Flood_V3\<close>: flooding and every origination. \<^verbatim>\<open>Receive_V3\<close>: requests, updates, packet dispatch, the
    packets that answer, and the one panic of the receive path.
  \<^item> \<^verbatim>\<open>Inv_V3\<close>: the invariant of the OSPFv3 instance, by contracts (locales) for operations on an interface and on a neighbor.
    \<^verbatim>\<open>Update_V3\<close>, \<^verbatim>\<open>Describe_V3\<close>: what an update, an origination and an answered request do to database and neighbors.
  \<^item> \<^verbatim>\<open>Daemon_V3\<close> (\<^verbatim>\<open>daemon_v3.rs\<close>): start-up and the arms of the select loop as a step relation; the invariant in
    every reachable state.
  \<^item> \<^verbatim>\<open>Io_Punt\<close> (\<^verbatim>\<open>io.rs\<close>, \<^verbatim>\<open>io_punt.rs\<close>, \<^verbatim>\<open>io_v3.rs\<close>, \<^verbatim>\<open>io_punt_v3.rs\<close>): the framing of packets for the punt and raw
    sockets and the reading of datagrams; what is sent arrives over any link that carries punt datagrams as VPP documents
    it (the link is a parameter), and which datagrams make a reader panic.
  \<^item> \<^verbatim>\<open>Daemon_V2\<close> (\<^verbatim>\<open>main.rs\<close>): start-up of an OSPFv2 instance against VPP, the arms of its select loop as a step relation,
    sending, late enrolment, the dispatcher and the configuration of the OSPFv3 task. \<^verbatim>\<open>Daemon_V2_Runs\<close>: the invariant in
    every run, that everything sent is accepted, and the way of a packet from one daemon to the other without authentication.
  \<^item> \<^verbatim>\<open>Text_Addr\<close>: the text functions of the standard library the program uses on addresses and numbers; the text of an IPv4
    address is unique. \<^verbatim>\<open>Config\<close> (\<^verbatim>\<open>config.rs\<close>): from the deserialised file to the configuration of every instance of both versions.
    \<^verbatim>\<open>Config_Props\<close>: which interfaces an instance gets, when a configuration is accepted and what it guarantees.
  \<^item> \<^verbatim>\<open>Start_Up\<close>: the composition of file, start-up and dispatcher; packets reach the instance of their VRF.
  \<^item> \<^verbatim>\<open>Control\<close> (\<^verbatim>\<open>control.rs\<close>): the queries of the control socket; a database reply lists exactly what is stored, in an order that
    does not depend on the hash maps, and the counts of a status reply add up. \<^verbatim>\<open>Query_Client\<close> (\<^verbatim>\<open>main.rs\<close>): the command line,
    the control sockets of the VRFs and how a query finds them; it reaches every OSPFv2 instance under its VRF.

  \<^bold>\<open>Conventions.\<close> Machine integers are words of their width, and arithmetic wraps as in a release build;
  index and slice errors, \<^verbatim>\<open>expect\<close> and \<^verbatim>\<open>assert!\<close> are \<open>Panic\<close>. Hash maps are association lists, so that
  one iteration order is fixed; where results depend on it, theorems say what is independent of it.
  \<^verbatim>\<open>Instant::now()\<close> is an argument, in milliseconds. Log messages are left out.

  \<^bold>\<open>Bounds.\<close> The Fletcher checksum is right up to 4105 bytes (then its accumulator overflows), the Internet
  checksum up to 131072 bytes; SPF distances do not overflow for up to 65536 LSAs (65537 for OSPFv3); a Router-LSA
  fits its length field for up to 5459 links. A Database Description carries 60 headers and a request 20 keys.
  Loops are structural or come with a termination proof; no fuel is used anywhere. The measure of the OSPFv2
  Dijkstra loop is the number of unvisited Router-LSAs, that of the OSPFv3 loop the sum of the tentative costs.

  \<^bold>\<open>Not modelled.\<close> The system calls on sockets, channels and tasks of the runtime, the control socket and the JSON on it, the text
  a query prints, reading the configuration file and its YAML deserialisation, the queries to VPP, its punt registration and multicast programming, and the
  connection to the RIB daemon: input and output with no protocol logic of their own. What VPP and the kernel answer is an argument of
  the steps of the two daemons; a socket send is the datagram it writes, and what VPP delivers of it to the neighbor is a parameter.
  MD5, HMAC, the compilation of route-maps and their match clause belong to other packages and are parameters.
\<close>

end
